(* ===== verification/Prelude.thy ===== *)
theory Prelude
  imports Main "HOL-Library.AList" "HOL-Library.Char_ord" "HOL-Library.List_Lexorder"
begin

text \<open>
  Shared vocabulary of the ExoRoute development: the collections of rewrite rules, Rust's
  integer and time arithmetic, and results.
\<close>

named_theorems time_simps \<open>clock and duration arithmetic\<close>
named_theorems int_simps \<open>fixed-width integer arithmetic\<close>
named_theorems status_simps \<open>HTTP status classes\<close>

section \<open>Integers of fixed width\<close>

text \<open>
  Unsigned Rust integers are natural numbers below a power of two; the places where the
  code saturates, wraps or checks are written out with the functions below. The shipped
  profile is \<^verbatim>\<open>release\<close>, where a plain \<open>-\<close> wraps.
\<close>

abbreviation u8_max :: nat where "u8_max \<equiv> 2 ^ 8 - 1"
abbreviation u32_max :: nat where "u32_max \<equiv> 2 ^ 32 - 1"
abbreviation u64_max :: nat where "u64_max \<equiv> 2 ^ 64 - 1"

definition sat_add :: "nat \<Rightarrow> nat \<Rightarrow> nat \<Rightarrow> nat" where
  "sat_add m a b = min (a + b) m"

definition sat_mul :: "nat \<Rightarrow> nat \<Rightarrow> nat \<Rightarrow> nat" where
  "sat_mul m a b = min (a * b) m"

definition checked_add :: "nat \<Rightarrow> nat \<Rightarrow> nat \<Rightarrow> nat option" where
  "checked_add m a b = (if a + b \<le> m then Some (a + b) else None)"

definition checked_mul :: "nat \<Rightarrow> nat \<Rightarrow> nat \<Rightarrow> nat option" where
  "checked_mul m a b = (if a * b \<le> m then Some (a * b) else None)"

definition wrapping_sub :: "nat \<Rightarrow> nat \<Rightarrow> nat \<Rightarrow> nat" where
  "wrapping_sub m a b = (if b \<le> a then a - b else a + Suc m - b)"

lemma sat_add_exact [int_simps]: "a + b \<le> m \<Longrightarrow> sat_add m a b = a + b"
  by (simp add: sat_add_def)

lemma sat_add_le [int_simps]: "sat_add m a b \<le> m"
  by (simp add: sat_add_def)

lemma sat_mul_exact [int_simps]: "a * b \<le> m \<Longrightarrow> sat_mul m a b = a * b"
  by (simp add: sat_mul_def)

lemma checked_add_eq_Some [simp]: "checked_add m a b = Some c \<longleftrightarrow> c = a + b \<and> a + b \<le> m"
  by (auto simp: checked_add_def)

lemma checked_mul_eq_Some [simp]: "checked_mul m a b = Some c \<longleftrightarrow> c = a * b \<and> a * b \<le> m"
  by (auto simp: checked_mul_def)

lemma wrapping_sub_exact [int_simps]: "b \<le> a \<Longrightarrow> wrapping_sub m a b = a - b"
  by (simp add: wrapping_sub_def)

section \<open>Time\<close>

text \<open>
  A \<open>Duration\<close> is a number of nanoseconds below \<open>2^64\<close> seconds. An \<open>Instant\<close> is a number of
  nanoseconds on the monotonic clock, whose second count is a signed 64-bit integer on the
  supported platforms. \<open>saturating_duration_since\<close> is truncating subtraction on \<open>nat\<close>.
\<close>

type_synonym duration = nat
type_synonym instant = nat

abbreviation nanos_per_sec :: nat where "nanos_per_sec \<equiv> 1000000000"

definition from_secs :: "nat \<Rightarrow> duration" where
  "from_secs s = s * nanos_per_sec"

definition from_millis :: "nat \<Rightarrow> duration" where
  "from_millis s = s * 1000000"

definition as_secs :: "duration \<Rightarrow> nat" where
  "as_secs d = d div nanos_per_sec"

definition duration_max :: duration where
  "duration_max = 2 ^ 64 * nanos_per_sec - 1"

definition instant_max :: instant where
  "instant_max = 2 ^ 63 * nanos_per_sec - 1"

definition saturating_duration_since :: "instant \<Rightarrow> instant \<Rightarrow> duration" where
  "saturating_duration_since later earlier = later - earlier"

definition instant_add :: "instant \<Rightarrow> duration \<Rightarrow> instant option" where
  "instant_add t d = checked_add instant_max t d"

lemma instant_add_eq_Some [simp]: "instant_add t d = Some u \<longleftrightarrow> u = t + d \<and> t + d \<le> instant_max"
  by (auto simp: instant_add_def)

lemma instant_le_duration_max: "t \<le> instant_max \<Longrightarrow> t \<le> duration_max"
  by (simp add: instant_max_def duration_max_def)

lemmas duration_since_simps [time_simps] = saturating_duration_since_def

section \<open>Results\<close>

text \<open>
  \<open>Result<T, E>\<close> is a sum with the error on the left; \<open>rbind\<close> is the \<open>?\<close> operator.
\<close>

definition rbind :: "'e + 'a \<Rightarrow> ('a \<Rightarrow> 'e + 'b) \<Rightarrow> 'e + 'b" where
  "rbind r f = (case r of Inl e \<Rightarrow> Inl e | Inr x \<Rightarrow> f x)"

lemma rbind_simps [simp]: "rbind (Inl e) f = Inl e" "rbind (Inr x) f = f x"
  by (simp_all add: rbind_def)

lemma rbind_eq_Inr: "rbind r f = Inr y \<longleftrightarrow> (\<exists>x. r = Inr x \<and> f x = Inr y)"
  by (cases r) simp_all

lemma rbind_eq_Inl: "rbind r f = Inl e \<longleftrightarrow> r = Inl e \<or> (\<exists>x. r = Inr x \<and> f x = Inl e)"
  by (cases r) simp_all

lemma rbind_cong [fundef_cong]:
  "r = r' \<Longrightarrow> (\<And>x. r' = Inr x \<Longrightarrow> f x = g x) \<Longrightarrow> rbind r f = rbind r' g"
  by (cases r') simp_all

definition map_err :: "('e \<Rightarrow> 'f) \<Rightarrow> 'e + 'a \<Rightarrow> 'f + 'a" where
  "map_err g r = (case r of Inl e \<Rightarrow> Inl (g e) | Inr x \<Rightarrow> Inr x)"

lemma map_err_simps [simp]: "map_err g (Inl e) = Inl (g e)" "map_err g (Inr x) = Inr x"
  by (simp_all add: map_err_def)

text \<open>\<open>Option<Result<T, E>>::transpose\<close>.\<close>

definition transpose_result :: "('e + 'a) option \<Rightarrow> 'e + 'a option" where
  "transpose_result x = (case x of None \<Rightarrow> Inr None | Some (Inl e) \<Rightarrow> Inl e | Some (Inr v) \<Rightarrow> Inr (Some v))"

definition ok_or :: "'e \<Rightarrow> 'a option \<Rightarrow> 'e + 'a" where
  "ok_or e x = (case x of None \<Rightarrow> Inl e | Some v \<Rightarrow> Inr v)"

lemma ok_or_simps [simp]: "ok_or e None = Inl e" "ok_or e (Some v) = Inr v"
  by (simp_all add: ok_or_def)

lemma ok_or_eq_Inr [simp]: "ok_or e x = Inr v \<longleftrightarrow> x = Some v"
  by (cases x) simp_all

definition option_or :: "'a option \<Rightarrow> 'a option \<Rightarrow> 'a option" where
  "option_or a b = (case a of None \<Rightarrow> b | Some x \<Rightarrow> Some x)"

lemma option_or_simps [simp]: "option_or None b = b" "option_or (Some x) b = Some x"
  by (simp_all add: option_or_def)

end
