(* ===== verification/Text.thy ===== *)
theory Text
  imports Prelude
begin

text \<open>
  The operations of Rust's \<open>str\<close> and of \<open>http::StatusCode\<close> that the sources call. A string is a
  list of Unicode scalar values, restricted to the 256 values of Isabelle's \<open>char\<close> (U+0000 to
  U+00FF): byte lengths are UTF-8 lengths, and the order of UTF-8 byte strings is the order
  of their scalar values.
\<close>

section \<open>Characters and lengths\<close>

abbreviation code :: "char \<Rightarrow> nat" where "code c \<equiv> of_char c"

definition char_utf8_len :: "char \<Rightarrow> nat" where
  "char_utf8_len c = (if code c < 128 then 1 else 2)"

definition str_len :: "string \<Rightarrow> nat" where
  "str_len s = sum_list (map char_utf8_len s)"

definition is_whitespace :: "char \<Rightarrow> bool" where
  "is_whitespace c = (code c \<in> {9, 10, 11, 12, 13, 32, 133, 160})"

definition is_control :: "char \<Rightarrow> bool" where
  "is_control c = (code c < 32 \<or> (127 \<le> code c \<and> code c \<le> 159))"

definition is_ascii_digit :: "char \<Rightarrow> bool" where
  "is_ascii_digit c = (48 \<le> code c \<and> code c \<le> 57)"

definition is_ascii_alphanumeric :: "char \<Rightarrow> bool" where
  "is_ascii_alphanumeric c =
     (is_ascii_digit c \<or> (65 \<le> code c \<and> code c \<le> 90) \<or> (97 \<le> code c \<and> code c \<le> 122))"

definition to_ascii_lowercase :: "string \<Rightarrow> string" where
  "to_ascii_lowercase =
     map (\<lambda>c. if 65 \<le> code c \<and> code c \<le> 90 then char_of (code c + 32) else c)"

lemma str_len_simps [simp]:
  "str_len [] = 0" "str_len (c # s) = char_utf8_len c + str_len s"
  "str_len (s @ t) = str_len s + str_len t"
  by (simp_all add: str_len_def)

lemma char_utf8_len_pos: "1 \<le> char_utf8_len c"
  by (simp add: char_utf8_len_def)

lemma length_le_str_len: "length s \<le> str_len s"
proof (induction s)
  case (Cons c s)
  then show ?case using char_utf8_len_pos [of c] by simp
qed simp

lemma str_len_eq_0 [simp]: "str_len s = 0 \<longleftrightarrow> s = []"
  using length_le_str_len [of s] by (cases s) auto

section \<open>Trimming, prefixes and splitting\<close>

definition trim_start :: "string \<Rightarrow> string" where
  "trim_start = dropWhile is_whitespace"

definition trim_end :: "string \<Rightarrow> string" where
  "trim_end s = rev (dropWhile is_whitespace (rev s))"

definition trim :: "string \<Rightarrow> string" where
  "trim s = trim_end (trim_start s)"

definition trim_end_matches :: "char \<Rightarrow> string \<Rightarrow> string" where
  "trim_end_matches c s = rev (dropWhile (\<lambda>x. x = c) (rev s))"

definition starts_with :: "string \<Rightarrow> string \<Rightarrow> bool" where
  "starts_with p s = (take (length p) s = p)"

definition ends_with :: "string \<Rightarrow> string \<Rightarrow> bool" where
  "ends_with p s = starts_with (rev p) (rev s)"

definition strip_prefix :: "string \<Rightarrow> string \<Rightarrow> string option" where
  "strip_prefix p s = (if starts_with p s then Some (drop (length p) s) else None)"

definition strip_suffix :: "string \<Rightarrow> string \<Rightarrow> string option" where
  "strip_suffix p s = (if ends_with p s then Some (take (length s - length p) s) else None)"

fun split_once :: "char \<Rightarrow> string \<Rightarrow> (string \<times> string) option" where
  "split_once c [] = None"
| "split_once c (x # xs) =
     (if x = c then Some ([], xs) else map_option (\<lambda>(a, b). (x # a, b)) (split_once c xs))"

lemma starts_with_append [simp]: "starts_with p (p @ s)"
  by (simp add: starts_with_def)

lemma starts_withE: "starts_with p s \<Longrightarrow> (\<And>t. s = p @ t \<Longrightarrow> P) \<Longrightarrow> P"
  by (metis append_take_drop_id starts_with_def)

lemma starts_with_iff: "starts_with p s \<longleftrightarrow> (\<exists>t. s = p @ t)"
  by (auto elim: starts_withE)

lemma ends_with_iff: "ends_with p s \<longleftrightarrow> (\<exists>t. s = t @ p)"
proof
  assume "ends_with p s"
  then obtain t where "rev s = rev p @ t"
    by (auto simp: ends_with_def starts_with_iff)
  then have "s = rev t @ p" by (metis rev_append rev_rev_ident)
  then show "\<exists>t. s = t @ p" ..
qed (auto simp: ends_with_def)

lemma strip_suffix_append [simp]: "strip_suffix p (s @ p) = Some s"
  by (auto simp: strip_suffix_def ends_with_iff)

lemma strip_suffix_eq_Some: "strip_suffix p s = Some t \<longleftrightarrow> s = t @ p"
  by (auto simp: strip_suffix_def ends_with_iff)

lemma strip_suffix_eq_None: "strip_suffix p s = None \<longleftrightarrow> (\<forall>t. s \<noteq> t @ p)"
  by (auto simp: strip_suffix_def ends_with_iff)

lemma strip_prefix_append [simp]: "strip_prefix p (p @ s) = Some s"
  by (simp add: strip_prefix_def)

lemma split_once_eq_Some:
  "split_once c s = Some (a, b) \<longleftrightarrow> s = a @ c # b \<and> c \<notin> set a"
proof (induction s arbitrary: a)
  case (Cons x xs)
  show ?case
  proof (cases "x = c")
    case False
    then show ?thesis using Cons by (cases a) auto
  qed (cases a, auto)
qed simp

lemma split_once_append [simp]: "c \<notin> set a \<Longrightarrow> split_once c (a @ c # b) = Some (a, b)"
  by (simp add: split_once_eq_Some)

lemma dropWhile_head: "xs \<noteq> [] \<Longrightarrow> \<not> P (hd xs) \<Longrightarrow> dropWhile P xs = xs"
  by (cases xs) simp_all

lemma trim_id:
  "s \<noteq> [] \<Longrightarrow> \<not> is_whitespace (hd s) \<Longrightarrow> \<not> is_whitespace (last s) \<Longrightarrow> trim s = s"
  by (simp add: trim_def trim_end_def trim_start_def dropWhile_head hd_rev)

lemma hd_trim_end: "trim_end s \<noteq> [] \<Longrightarrow> hd (trim_end s) = hd s"
proof -
  assume ne: "trim_end s \<noteq> []"
  have "s = trim_end s @ rev (takeWhile is_whitespace (rev s))"
    by (metis rev_append rev_rev_ident takeWhile_dropWhile_id trim_end_def)
  then show ?thesis using ne by (metis hd_append2)
qed

lemma trim_nonempty_ends:
  assumes "trim s \<noteq> []"
  shows "\<not> is_whitespace (hd (trim s))" and "\<not> is_whitespace (last (trim s))"
proof -
  have ne: "trim_start s \<noteq> []" using assms by (auto simp: trim_def trim_end_def)
  have "hd (trim s) = hd (trim_start s)" using assms by (simp add: trim_def hd_trim_end)
  then show "\<not> is_whitespace (hd (trim s))"
    using ne by (simp add: trim_start_def hd_dropWhile)
  have "dropWhile is_whitespace (rev (trim_start s)) \<noteq> []"
    using assms by (simp add: trim_def trim_end_def)
  then have "\<not> is_whitespace (hd (dropWhile is_whitespace (rev (trim_start s))))"
    by (rule hd_dropWhile)
  then show "\<not> is_whitespace (last (trim s))"
    by (metis hd_rev rev_rev_ident trim_def trim_end_def)
qed

lemma trim_Nil [simp]: "trim [] = []"
  by (simp add: trim_def trim_start_def trim_end_def)

lemma trim_trim [simp]: "trim (trim s) = trim s"
proof (cases "trim s = []")
  case True
  then show ?thesis by simp
next
  case False
  then show ?thesis by (intro trim_id trim_nonempty_ends)
qed

lemma set_trim: "set (trim s) \<subseteq> set s"
  by (auto simp: trim_def trim_end_def trim_start_def dest!: set_dropWhileD)

lemma trim_no_whitespace: "\<forall>c\<in>set s. \<not> is_whitespace c \<Longrightarrow> trim s = s"
  by (cases "s = []") (simp_all add: trim_id)

section \<open>Hexadecimal\<close>

definition hex_digit :: "nat \<Rightarrow> char" where
  "hex_digit n = char_of (if n < 10 then 48 + n else 87 + n)"

definition hex_byte :: "nat \<Rightarrow> string" where
  "hex_byte b = [hex_digit (b div 16), hex_digit (b mod 16)]"

text \<open>\<open>str::bytes\<close>: the UTF-8 bytes of a string.\<close>

definition char_bytes :: "char \<Rightarrow> nat list" where
  "char_bytes c = (if code c < 128 then [code c] else [192 + code c div 64, 128 + code c mod 64])"

definition str_bytes :: "string \<Rightarrow> nat list" where
  "str_bytes s = concat (map char_bytes s)"

lemma length_str_bytes [simp]: "length (str_bytes s) = str_len s"
  by (induction s) (simp_all add: str_bytes_def char_bytes_def char_utf8_len_def)

text \<open>\<open>String::from_utf8\<close> on the encodings of these scalar values; any other byte sequence is refused.\<close>

fun from_utf8 :: "nat list \<Rightarrow> string option" where
  "from_utf8 [] = Some []"
| "from_utf8 (b # bs) =
     (if b < 128 then map_option ((#) (char_of b)) (from_utf8 bs)
      else
        case bs of
          [] \<Rightarrow> None
        | b' # bs' \<Rightarrow>
            if 194 \<le> b \<and> b \<le> 195 \<and> 128 \<le> b' \<and> b' < 192
            then map_option ((#) (char_of ((b - 192) * 64 + (b' - 128)))) (from_utf8 bs') else None)"

lemma from_utf8_str_bytes [simp]: "from_utf8 (str_bytes s) = Some s"
proof (induction s)
  case Nil
  show ?case by (simp add: str_bytes_def)
next
  case (Cons c s)
  have hi: "2 \<le> code c div 64 \<and> code c div 64 \<le> 3" if "\<not> code c < (128 :: nat)"
    using that nat_of_char_less_256 [of c] by linarith
  have eq: "(code c div 64) * 64 + code c mod 64 = (code c :: nat)" by simp
  have split: "str_bytes (c # s) = char_bytes c @ str_bytes s" by (simp add: str_bytes_def)
  show ?case
  proof (cases "code c < (128 :: nat)")
    case True
    then show ?thesis using Cons by (simp add: split char_bytes_def)
  next
    case False
    then show ?thesis using Cons hi [OF False] by (simp add: split char_bytes_def eq)
  qed
qed

lemma hex_digit_inj: "a < 16 \<Longrightarrow> b < 16 \<Longrightarrow> hex_digit a = hex_digit b \<longleftrightarrow> a = b"
  by (auto simp: hex_digit_def char_of_eq_iff take_bit_eq_mod split: if_splits)

section \<open>Decimal numbers\<close>

definition digit :: "nat \<Rightarrow> char" where
  "digit d = char_of (48 + d)"

fun show_nat :: "nat \<Rightarrow> string" where
  "show_nat n = (if n < 10 then [digit n] else show_nat (n div 10) @ [digit (n mod 10)])"

declare show_nat.simps [simp del]

section \<open>Words and headers\<close>

fun join_with :: "string \<Rightarrow> string list \<Rightarrow> string" where
  "join_with sep [] = []"
| "join_with sep [s] = s"
| "join_with sep (s # t # rest) = s @ sep @ join_with sep (t # rest)"

definition quoted :: "string \<Rightarrow> string" where
  "quoted s = CHR 0x27 # s @ [CHR 0x27]"

definition eq_ignore_ascii_case :: "string \<Rightarrow> string \<Rightarrow> bool" where
  "eq_ignore_ascii_case s t = (to_ascii_lowercase s = to_ascii_lowercase t)"

fun contains :: "string \<Rightarrow> string \<Rightarrow> bool" where
  "contains needle [] = (needle = [])"
| "contains needle (c # s) = (starts_with needle (c # s) \<or> contains needle s)"

function split_whitespace :: "string \<Rightarrow> string list" where
  "split_whitespace s =
     (case dropWhile is_whitespace s of
        [] \<Rightarrow> []
      | c # t \<Rightarrow> (c # takeWhile (\<lambda>x. \<not> is_whitespace x) t) # split_whitespace (dropWhile (\<lambda>x. \<not> is_whitespace x) t))"
  by auto
termination
proof (relation "measure length")
  fix s c t assume "dropWhile is_whitespace s = c # t"
  then have "length (c # t) \<le> length s" by (metis length_dropWhile_le)
  then show "(dropWhile (\<lambda>x. \<not> is_whitespace x) t, s) \<in> measure length"
    using length_dropWhile_le [of "\<lambda>x. \<not> is_whitespace x" t] by simp
qed simp

declare split_whitespace.simps [simp del]

lemma split_whitespace_Nil [simp]: "split_whitespace [] = []"
  by (simp add: split_whitespace.simps)

definition word_ok :: "string \<Rightarrow> bool" where
  "word_ok w = (w \<noteq> [] \<and> (\<forall>c \<in> set w. \<not> is_whitespace c))"

lemma split_whitespace_words: "w \<in> set (split_whitespace s) \<Longrightarrow> word_ok w"
proof (induction s rule: split_whitespace.induct)
  case (1 s)
  show ?case
  proof (cases "dropWhile is_whitespace s")
    case (Cons c t)
    then have "\<not> is_whitespace c" by (simp add: dropWhile_eq_Cons_conv)
    then have "word_ok (c # takeWhile (\<lambda>x. \<not> is_whitespace x) t)"
      by (auto simp: word_ok_def dest: set_takeWhileD)
    moreover have "split_whitespace s =
        (c # takeWhile (\<lambda>x. \<not> is_whitespace x) t) # split_whitespace (dropWhile (\<lambda>x. \<not> is_whitespace x) t)"
      by (subst split_whitespace.simps) (simp add: Cons)
    ultimately show ?thesis using 1(1) [OF Cons] 1(2) by auto
  next
    case Nil
    then have "split_whitespace s = []" by (subst split_whitespace.simps) (simp only: list.case)
    with 1(2) show ?thesis by simp
  qed
qed

lemma is_whitespace_space [simp]: "is_whitespace (CHR '' '')"
  by (simp add: is_whitespace_def)

lemma split_whitespace_space [simp]: "split_whitespace (CHR '' '' # s) = split_whitespace s"
proof -
  have "split_whitespace (CHR '' '' # s) = (case dropWhile is_whitespace s of [] \<Rightarrow> []
      | c # t \<Rightarrow> (c # takeWhile (\<lambda>x. \<not> is_whitespace x) t) # split_whitespace (dropWhile (\<lambda>x. \<not> is_whitespace x) t))"
    by (subst split_whitespace.simps) simp
  also have "\<dots> = split_whitespace s" by (rule split_whitespace.simps [symmetric])
  finally show ?thesis .
qed

lemma split_whitespace_word:
  assumes "word_ok w" and "s = [] \<or> (\<exists>c t. s = c # t \<and> is_whitespace c)"
  shows "split_whitespace (w @ s) = w # split_whitespace s"
proof -
  obtain c u where w: "w = c # u" "\<not> is_whitespace c" "\<forall>x \<in> set u. \<not> is_whitespace x"
    using assms(1) by (cases w) (auto simp: word_ok_def)
  then have "takeWhile (\<lambda>x. \<not> is_whitespace x) (u @ s) = u" "dropWhile (\<lambda>x. \<not> is_whitespace x) (u @ s) = s"
    using assms(2) by (auto simp: takeWhile_append2 dropWhile_append2)
  with w show ?thesis by (subst split_whitespace.simps) (simp only: append_Cons dropWhile.simps if_False list.case)
qed

lemma split_whitespace_join: "list_all word_ok ws \<Longrightarrow> split_whitespace (join_with '' '' ws) = ws"
proof (induction ws rule: induct_list012)
  case (2 w)
  then show ?case using split_whitespace_word [of w "[]"] by simp
next
  case (3 w v ws)
  then show ?case using split_whitespace_word [of w "CHR '' '' # join_with '' '' (v # ws)"]
    by simp
qed simp

text \<open>
  A header map, the first value of each lower-case name first. A value is a byte string; \<open>to_str\<close> gives its text
  when every byte is visible ASCII or a tab.
\<close>

type_synonym header_map = "(string \<times> string) list"

definition header_get :: "header_map \<Rightarrow> string \<Rightarrow> string option" where
  "header_get hs n = map_of hs n"

definition is_visible_ascii :: "char \<Rightarrow> bool" where
  "is_visible_ascii c = (32 \<le> code c \<and> code c < 127 \<or> code c = 9)"

definition to_str :: "string \<Rightarrow> string option" where
  "to_str v = (if list_all is_visible_ascii v then Some v else None)"

definition header_text :: "header_map \<Rightarrow> string \<Rightarrow> string option" where
  "header_text hs n = Option.bind (header_get hs n) to_str"

section \<open>HTTP status codes\<close>

type_synonym status = nat

definition is_success :: "status \<Rightarrow> bool" where
  "is_success s = (200 \<le> s \<and> s < 300)"

definition is_client_error :: "status \<Rightarrow> bool" where
  "is_client_error s = (400 \<le> s \<and> s < 500)"

definition is_server_error :: "status \<Rightarrow> bool" where
  "is_server_error s = (500 \<le> s \<and> s < 600)"

lemmas [status_simps] = is_success_def is_client_error_def is_server_error_def

abbreviation BAD_REQUEST :: status where "BAD_REQUEST \<equiv> 400"
abbreviation UNAUTHORIZED :: status where "UNAUTHORIZED \<equiv> 401"
abbreviation FORBIDDEN :: status where "FORBIDDEN \<equiv> 403"
abbreviation NOT_FOUND :: status where "NOT_FOUND \<equiv> 404"
abbreviation REQUEST_TIMEOUT :: status where "REQUEST_TIMEOUT \<equiv> 408"
abbreviation CONFLICT :: status where "CONFLICT \<equiv> 409"
abbreviation PAYLOAD_TOO_LARGE :: status where "PAYLOAD_TOO_LARGE \<equiv> 413"
abbreviation UNSUPPORTED_MEDIA_TYPE :: status where "UNSUPPORTED_MEDIA_TYPE \<equiv> 415"
abbreviation UNPROCESSABLE_ENTITY :: status where "UNPROCESSABLE_ENTITY \<equiv> 422"
abbreviation TOO_MANY_REQUESTS :: status where "TOO_MANY_REQUESTS \<equiv> 429"
abbreviation INTERNAL_SERVER_ERROR :: status where "INTERNAL_SERVER_ERROR \<equiv> 500"
abbreviation BAD_GATEWAY :: status where "BAD_GATEWAY \<equiv> 502"
abbreviation SERVICE_UNAVAILABLE :: status where "SERVICE_UNAVAILABLE \<equiv> 503"
abbreviation GATEWAY_TIMEOUT :: status where "GATEWAY_TIMEOUT \<equiv> 504"
abbreviation OK :: status where "OK \<equiv> 200"

end
