(* ===== verification/Interfaces.thy ===== *)
theory Interfaces
  imports Prelude
begin

text \<open>
  The interfaces the components rely on, each a locale, and the container model. A
  \<open>std::collections::HashMap\<close> is an association list with distinct keys; its iteration order is
  the list order, which the code may not rely on, so every statement quantifies over it.
\<close>

section \<open>Hash maps\<close>

type_synonym ('k, 'v) hmap = "('k \<times> 'v) list"

definition hm_ok :: "('k, 'v) hmap \<Rightarrow> bool" where
  "hm_ok m = distinct (map fst m)"

definition hm_get :: "('k, 'v) hmap \<Rightarrow> 'k \<Rightarrow> 'v option" where
  "hm_get m k = map_of m k"

definition hm_insert :: "'k \<Rightarrow> 'v \<Rightarrow> ('k, 'v) hmap \<Rightarrow> ('k, 'v) hmap" where
  "hm_insert k v m = AList.update k v m"

definition hm_remove :: "'k \<Rightarrow> ('k, 'v) hmap \<Rightarrow> ('k, 'v) hmap" where
  "hm_remove k m = filter (\<lambda>(k', _). k' \<noteq> k) m"

definition hm_retain :: "('k \<Rightarrow> 'v \<Rightarrow> bool) \<Rightarrow> ('k, 'v) hmap \<Rightarrow> ('k, 'v) hmap" where
  "hm_retain P m = filter (\<lambda>(k, v). P k v) m"

definition hm_map_values :: "('v \<Rightarrow> 'v) \<Rightarrow> ('k, 'v) hmap \<Rightarrow> ('k, 'v) hmap" where
  "hm_map_values f m = map (\<lambda>(k, v). (k, f v)) m"

definition hm_contains_key :: "('k, 'v) hmap \<Rightarrow> 'k \<Rightarrow> bool" where
  "hm_contains_key m k = (hm_get m k \<noteq> None)"

abbreviation hm_len :: "('k, 'v) hmap \<Rightarrow> nat" where
  "hm_len m \<equiv> length m"

text \<open>
  \<open>iter().min_by_key(f)\<close> returns the first entry of the iteration with the least key.
\<close>

fun min_by_key :: "('a \<Rightarrow> nat) \<Rightarrow> 'a list \<Rightarrow> 'a option" where
  "min_by_key f [] = None"
| "min_by_key f (x # xs) =
     (case min_by_key f xs of
        None \<Rightarrow> Some x
      | Some y \<Rightarrow> if f x \<le> f y then Some x else Some y)"

lemma min_by_key_None [simp]: "min_by_key f xs = None \<longleftrightarrow> xs = []"
  by (cases xs) (auto split: option.splits)

lemma min_by_key_Some:
  "min_by_key f xs = Some x \<Longrightarrow> x \<in> set xs \<and> (\<forall>y \<in> set xs. f x \<le> f y)"
proof (induction xs arbitrary: x)
  case (Cons a xs)
  show ?case
  proof (cases "min_by_key f xs")
    case None
    with Cons.prems show ?thesis by simp
  next
    case (Some y)
    then have "y \<in> set xs" "\<forall>z \<in> set xs. f y \<le> f z" by (auto dest: Cons.IH)
    with Some Cons.prems show ?thesis by (auto split: if_splits intro: order_trans)
  qed
qed simp

text \<open>
  The contract of a map of bounded size, as the clients use it: what each operation does to
  a lookup and to the number of entries.
\<close>

locale bounded_map =
  fixes empty :: "'m"
    and get :: "'m \<Rightarrow> 'k \<Rightarrow> 'v option"
    and insert :: "'k \<Rightarrow> 'v \<Rightarrow> 'm \<Rightarrow> 'm"
    and remove :: "'k \<Rightarrow> 'm \<Rightarrow> 'm"
    and retain :: "('k \<Rightarrow> 'v \<Rightarrow> bool) \<Rightarrow> 'm \<Rightarrow> 'm"
    and len :: "'m \<Rightarrow> nat"
    and ok :: "'m \<Rightarrow> bool"
  assumes ok_empty: "ok empty"
    and ok_insert: "ok m \<Longrightarrow> ok (insert k v m)"
    and ok_remove: "ok m \<Longrightarrow> ok (remove k m)"
    and ok_retain: "ok m \<Longrightarrow> ok (retain P m)"
    and get_empty: "get empty k = None"
    and get_insert: "get (insert k v m) k' = (if k' = k then Some v else get m k')"
    and get_remove: "get (remove k m) k' = (if k' = k then None else get m k')"
    and get_retain: "ok m \<Longrightarrow>
          get (retain P m) k = (case get m k of None \<Rightarrow> None | Some v \<Rightarrow> if P k v then Some v else None)"
    and len_empty: "len empty = 0"
    and len_insert: "len (insert k v m) = (if get m k = None then Suc (len m) else len m)"
    and len_remove: "len (remove k m) \<le> len m"
    and len_remove_present: "get m k \<noteq> None \<Longrightarrow> len (remove k m) < len m"
    and len_retain: "len (retain P m) \<le> len m"
begin

text \<open>Admission to a bounded map: an insertion guarded by the capacity keeps the bound.\<close>

lemma guarded_insert_bound:
  assumes "len m \<le> cap" and "get m k \<noteq> None \<or> len m < cap"
  shows "len (insert k v m) \<le> cap"
  using assms by (auto simp: len_insert)

lemma retain_bound: "len m \<le> cap \<Longrightarrow> len (retain P m) \<le> cap"
  using len_retain le_trans by blast

lemma remove_bound: "len m \<le> cap \<Longrightarrow> len (remove k m) \<le> cap"
  using len_remove le_trans by blast

text \<open>Eviction makes room: removing a present entry of a full map admits a new one.\<close>

lemma evict_insert_bound:
  assumes "len m \<le> cap" and "get m victim \<noteq> None"
  shows "len (insert k v (remove victim m)) \<le> cap"
  using assms len_remove_present [of m victim] by (auto simp: len_insert)

lemma retain_keeps: "ok m \<Longrightarrow> get m k = Some v \<Longrightarrow> P k v \<Longrightarrow> get (retain P m) k = Some v"
  by (simp add: get_retain)

lemma retain_drops: "ok m \<Longrightarrow> get m k = Some v \<Longrightarrow> \<not> P k v \<Longrightarrow> get (retain P m) k = None"
  by (simp add: get_retain)

lemma retain_subset: "ok m \<Longrightarrow> get (retain P m) k = Some v \<Longrightarrow> get m k = Some v \<and> P k v"
  by (auto simp: get_retain split: option.splits if_splits)

end

lemma hm_get_Nil [simp]: "hm_get [] k = None"
  by (simp add: hm_get_def)

lemma hm_get_retain:
  "hm_ok m \<Longrightarrow> hm_get (hm_retain P m) k =
     (case hm_get m k of None \<Rightarrow> None | Some v \<Rightarrow> if P k v then Some v else None)"
proof (induction m)
  case (Cons kv m)
  then have *: "k' = fst kv \<Longrightarrow> map_of m k' = None" for k'
    by (simp add: hm_ok_def map_of_eq_None_iff)
  from Cons.prems have "hm_ok m" by (simp add: hm_ok_def)
  with Cons.IH * show ?case
    by (cases kv) (auto simp: hm_retain_def hm_get_def split: option.splits)
qed (simp add: hm_retain_def)

lemma hm_get_remove: "hm_get (hm_remove k m) k' = (if k' = k then None else hm_get m k')"
  by (induction m) (auto simp: hm_remove_def hm_get_def)

lemma hm_len_insert:
  "hm_len (hm_insert k v m) = (if hm_get m k = None then Suc (hm_len m) else hm_len m)"
  by (induction m) (auto simp: hm_insert_def hm_get_def)

lemma hm_len_remove_present: "hm_get m k \<noteq> None \<Longrightarrow> hm_len (hm_remove k m) < hm_len m"
proof (induction m)
  case (Cons kv m)
  then show ?case
    by (cases kv) (auto simp: hm_remove_def hm_get_def less_Suc_eq_le split: if_splits)
qed simp

lemma hm_ok_remove: "hm_ok m \<Longrightarrow> hm_ok (hm_remove k m)"
  by (simp add: hm_ok_def hm_remove_def distinct_map_filter)

lemma hm_ok_retain: "hm_ok m \<Longrightarrow> hm_ok (hm_retain P m)"
  by (simp add: hm_ok_def hm_retain_def distinct_map_filter)

lemma hm_ok_insert: "hm_ok m \<Longrightarrow> hm_ok (hm_insert k v m)"
  by (simp add: hm_ok_def hm_insert_def distinct_update)

lemma hm_get_insert: "hm_get (hm_insert k v m) k' = (if k' = k then Some v else hm_get m k')"
  by (simp add: hm_get_def hm_insert_def update_conv)

lemma hm_len_shrink: "hm_len (hm_remove k m) \<le> hm_len m" "hm_len (hm_retain P m) \<le> hm_len m"
  by (simp_all add: hm_remove_def hm_retain_def)

lemma hm_ok_Nil: "hm_ok []"
  by (simp add: hm_ok_def)

interpretation hm: bounded_map "[]" hm_get hm_insert hm_remove hm_retain length hm_ok
  by unfold_locales
    (simp_all add: hm_ok_Nil hm_ok_insert hm_ok_remove hm_ok_retain hm_get_insert hm_get_remove
      hm_get_retain hm_len_insert hm_len_remove_present hm_len_shrink)

lemma hm_get_map_values [simp]: "hm_get (hm_map_values f m) k = map_option f (hm_get m k)"
  by (induction m) (auto simp: hm_map_values_def hm_get_def)

lemma hm_len_map_values [simp]: "hm_len (hm_map_values f m) = hm_len m"
  by (simp add: hm_map_values_def)

lemma hm_ok_map_values [simp]: "hm_ok (hm_map_values f m) = hm_ok m"
  by (simp add: hm_map_values_def hm_ok_def comp_def case_prod_unfold)

lemma hm_get_in_set: "hm_ok m \<Longrightarrow> (k, v) \<in> set m \<Longrightarrow> hm_get m k = Some v"
  by (simp add: hm_get_def hm_ok_def)

lemma hm_get_SomeD: "hm_get m k = Some v \<Longrightarrow> (k, v) \<in> set m"
  by (simp add: hm_get_def map_of_SomeD)

lemma hm_get_map_of: "hm_get m = map_of m"
  by (simp add: fun_eq_iff hm_get_def)

lemma hm_len_card: "hm_ok m \<Longrightarrow> hm_len m = card (dom (hm_get m))"
proof -
  assume "hm_ok m"
  then have "hm_len m = card (fst ` set m)"
    by (metis distinct_card hm_ok_def length_map list.set_map)
  moreover have "dom (hm_get m) = fst ` set m"
    by (simp add: hm_get_map_of dom_map_of_conv_image_fst)
  ultimately show ?thesis by simp
qed

lemma finite_dom_hm_get [simp]: "finite (dom (hm_get m))"
  by (simp add: hm_get_map_of finite_dom_map_of)

lemma hm_len_strict_mono:
  assumes "hm_ok m" "hm_ok m'" and "dom (hm_get m') \<subseteq> dom (hm_get m)"
    and "hm_get m k \<noteq> None" "hm_get m' k = None"
  shows "hm_len m' < hm_len m"
proof -
  have "dom (hm_get m') \<subset> dom (hm_get m)" using assms(3-5) by blast
  then show ?thesis using assms(1,2) by (simp add: hm_len_card psubset_card_mono)
qed

lemmas hm_simps = hm.get_insert hm.get_remove hm.get_retain hm.len_insert hm_contains_key_def
lemmas hm_oks [intro] = hm.ok_insert hm.ok_remove hm.ok_retain

section \<open>Encodings with a round trip\<close>

text \<open>
  A printer and a parser that agree on the values the printer is used on. Injectivity and
  the round trip of whole lists follow.
\<close>

locale codec =
  fixes enc :: "'a \<Rightarrow> 'b" and dec :: "'b \<Rightarrow> 'a option" and valid :: "'a \<Rightarrow> bool"
  assumes dec_enc: "valid x \<Longrightarrow> dec (enc x) = Some x"
begin

lemma enc_inj: "valid x \<Longrightarrow> valid y \<Longrightarrow> enc x = enc y \<Longrightarrow> x = y"
  by (metis dec_enc option.inject)

lemma map_enc_inj:
  "list_all valid xs \<Longrightarrow> list_all valid ys \<Longrightarrow> map enc xs = map enc ys \<Longrightarrow> xs = ys"
proof (induction xs arbitrary: ys)
  case (Cons x xs)
  then show ?case by (cases ys) (auto intro: enc_inj)
qed simp

lemma distinct_map_enc: "list_all valid xs \<Longrightarrow> distinct (map enc xs) = distinct xs"
  by (auto simp: distinct_map list_all_iff intro!: inj_onI enc_inj)

lemma map_dec_enc: "list_all valid xs \<Longrightarrow> map dec (map enc xs) = map Some xs"
  by (induction xs) (auto simp: dec_enc)

end

section \<open>Machines and their invariants\<close>

text \<open>
  A component whose operations are steps on a state: an invariant every admissible step
  keeps holds after every run.
\<close>

fun run :: "('s \<Rightarrow> 'e \<Rightarrow> 's) \<Rightarrow> 's \<Rightarrow> 'e list \<Rightarrow> 's" where
  "run step s [] = s"
| "run step s (e # es) = run step (step s e) es"

locale machine =
  fixes step :: "'s \<Rightarrow> 'e \<Rightarrow> 's" and adm :: "'e \<Rightarrow> bool" and inv :: "'s \<Rightarrow> bool"
  assumes step_inv: "inv s \<Longrightarrow> adm e \<Longrightarrow> inv (step s e)"
begin

lemma run_inv: "inv s \<Longrightarrow> list_all adm es \<Longrightarrow> inv (run step s es)"
  by (induction es arbitrary: s) (auto intro: step_inv)

lemma run_prefix_inv: "inv s \<Longrightarrow> list_all adm (es @ fs) \<Longrightarrow> inv (run step s es)"
  by (simp add: run_inv)

end

lemma run_append: "run step s (es @ fs) = run step (run step s es) fs"
  by (induction es arbitrary: s) auto

end
