(* ===== verification/RateLimit.thy ===== *)
theory RateLimit
  imports Text Interfaces
begin

text \<open>
  The process-local rate limiter (\<^verbatim>\<open>src/security/rate_limit\<close>): policies, configuration checks,
  the fixed-window and token-bucket quotas, bounded incremental pruning and run-time
  reconfiguration. A limiter is a value of \<open>RateLimiter\<close>; the mutex of the code makes every
  operation one step. An operation returns \<open>None\<close> where the code would panic (a division by a
  zero interval or a zero refill).
\<close>

section \<open>Policies and decisions (\<^verbatim>\<open>policy.rs\<close>)\<close>

definition MAX_KEY_BYTES :: nat where "MAX_KEY_BYTES = 256"

datatype RateLimitPolicy =
  FixedWindow nat duration
| TokenBucket nat nat duration

record RateLimiterConfig =
  cfg_policy :: RateLimitPolicy
  max_entries :: nat
  idle_ttl :: duration
  prune_interval :: duration

definition RateLimiterConfig_new :: "RateLimitPolicy \<Rightarrow> nat \<Rightarrow> RateLimiterConfig" where
  "RateLimiterConfig_new p n =
     \<lparr>cfg_policy = p, max_entries = n, idle_ttl = from_secs (15 * 60), prune_interval = from_secs 1\<rparr>"

datatype RateLimiterConfigError =
  EmptyEntryLimit | MissingIdleTtl | MissingPruneInterval | ZeroRequestLimit | NoWindow
| ZeroCapacity | ZeroRefill | ZeroRefillInterval

record RateLimitDecision =
  allowed :: bool
  remaining :: nat
  retry_after :: "duration option"

definition allowed_decision :: "nat \<Rightarrow> RateLimitDecision" where
  "allowed_decision n = \<lparr>allowed = True, remaining = n, retry_after = None\<rparr>"

definition rejected :: "duration \<Rightarrow> RateLimitDecision" where
  "rejected d = \<lparr>allowed = False, remaining = 0, retry_after = Some d\<rparr>"

definition denied_without_estimate :: RateLimitDecision where
  "denied_without_estimate = \<lparr>allowed = False, remaining = 0, retry_after = None\<rparr>"

section \<open>The engine (\<^verbatim>\<open>engine.rs\<close>)\<close>

definition PRUNE_BATCH_SIZE :: nat where "PRUNE_BATCH_SIZE = 1024"

datatype QuotaState =
  FixedWindowQuota instant nat
| TokenBucketQuota nat instant

record Entry =
  quota :: QuotaState
  last_seen :: instant

record LimiterState =
  entries :: "(string, Entry) hmap"
  prune_queue :: "string list"
  next_prune_at :: instant
  policy :: RateLimitPolicy

record RateLimiter =
  config :: RateLimiterConfig
  state :: LimiterState

definition RateLimiter_new ::
  "RateLimiterConfig \<Rightarrow> instant \<Rightarrow> RateLimiterConfigError + RateLimiter" where
  "RateLimiter_new cfg now =
     (if max_entries cfg = 0 then Inl EmptyEntryLimit
      else if idle_ttl cfg = 0 then Inl MissingIdleTtl
      else if prune_interval cfg = 0 then Inl MissingPruneInterval
      else
        rbind
          (case cfg_policy cfg of
             FixedWindow max_requests window \<Rightarrow>
               (if max_requests = 0 then Inl ZeroRequestLimit
                else if window = 0 then Inl NoWindow
                else Inr ())
           | TokenBucket capacity refill_tokens refill_interval \<Rightarrow>
               (if capacity = 0 then Inl ZeroCapacity
                else if refill_tokens = 0 then Inl ZeroRefill
                else if refill_interval = 0 then Inl ZeroRefillInterval
                else Inr ()))
          (\<lambda>_. Inr \<lparr>config = cfg,
                     state = \<lparr>entries = [], prune_queue = [], next_prune_at = now,
                              policy = cfg_policy cfg\<rparr>\<rparr>))"

definition initial_quota :: "RateLimitPolicy \<Rightarrow> instant \<Rightarrow> QuotaState \<times> RateLimitDecision" where
  "initial_quota p now =
     (case p of
        FixedWindow max_requests _ \<Rightarrow>
          (FixedWindowQuota now 1, allowed_decision (wrapping_sub u32_max max_requests 1))
      | TokenBucket capacity _ _ \<Rightarrow>
          (TokenBucketQuota (wrapping_sub u32_max capacity 1) now,
           allowed_decision (wrapping_sub u32_max capacity 1)))"

definition intervals_to_full :: "nat \<Rightarrow> nat \<Rightarrow> nat" where
  "intervals_to_full tokens_needed refill_tokens =
     tokens_needed div refill_tokens + (if tokens_needed mod refill_tokens = 0 then 0 else 1)"

definition refill_bucket ::
  "nat \<Rightarrow> instant \<Rightarrow> instant \<Rightarrow> nat \<Rightarrow> nat \<Rightarrow> duration \<Rightarrow> (nat \<times> instant) option" where
  "refill_bucket tokens refilled_at now capacity refill_tokens refill_interval =
     (let elapsed = saturating_duration_since now refilled_at in
      if refill_interval = 0 then None
      else let intervals = elapsed div refill_interval in
      if intervals = 0 then Some (tokens, refilled_at)
      else let tokens_needed = capacity - tokens in
      if refill_tokens = 0 then None
      else if intervals_to_full tokens_needed refill_tokens \<le> intervals then Some (capacity, now)
      else
        let n = intervals mod 2 ^ 32;
            added = sat_mul u32_max n refill_tokens;
            tokens' = min (sat_add u32_max tokens added) capacity;
            refilled_at' =
              (case checked_mul duration_max refill_interval n of
                 Some whole_intervals \<Rightarrow>
                   (case instant_add refilled_at whole_intervals of
                      Some updated \<Rightarrow> updated
                    | None \<Rightarrow> now)
               | None \<Rightarrow> now)
        in Some (tokens', refilled_at'))"

definition apply_policy ::
  "RateLimiterConfig \<Rightarrow> RateLimitPolicy \<Rightarrow> QuotaState \<Rightarrow> instant
     \<Rightarrow> (QuotaState \<times> RateLimitDecision) option" where
  "apply_policy cfg p q now =
     (case (p, q) of
        (FixedWindow max_requests window, FixedWindowQuota started_at used) \<Rightarrow>
          (let elapsed = saturating_duration_since now started_at in
           if window \<le> elapsed then
             Some (FixedWindowQuota now 1, allowed_decision (wrapping_sub u32_max max_requests 1))
           else if used < max_requests then
             Some (FixedWindowQuota started_at (used + 1),
                   allowed_decision (max_requests - (used + 1)))
           else Some (q, rejected (window - elapsed)))
      | (TokenBucket capacity refill_tokens refill_interval, TokenBucketQuota tokens refilled_at) \<Rightarrow>
          (case refill_bucket tokens refilled_at now capacity refill_tokens refill_interval of
             None \<Rightarrow> None
           | Some (tokens', refilled_at') \<Rightarrow>
               if 0 < tokens' then
                 Some (TokenBucketQuota (tokens' - 1) refilled_at', allowed_decision (tokens' - 1))
               else
                 let elapsed = saturating_duration_since now refilled_at' in
                 Some (TokenBucketQuota tokens' refilled_at', rejected (refill_interval - elapsed)))
      | _ \<Rightarrow> Some (q, rejected (prune_interval cfg)))"

definition is_prunable ::
  "RateLimiterConfig \<Rightarrow> Entry \<Rightarrow> instant \<Rightarrow> RateLimitPolicy \<Rightarrow> bool option" where
  "is_prunable cfg e now p =
     (if saturating_duration_since now (last_seen e) < idle_ttl cfg then Some False
      else
        (case (p, quota e) of
           (FixedWindow _ window, FixedWindowQuota started_at _) \<Rightarrow>
             Some (window \<le> saturating_duration_since now started_at)
         | (TokenBucket capacity refill_tokens refill_interval, TokenBucketQuota tokens refilled_at) \<Rightarrow>
             if capacity \<le> tokens then Some True
             else
               let elapsed = saturating_duration_since now refilled_at in
               if refill_interval = 0 \<or> refill_tokens = 0 then None
               else Some (intervals_to_full (capacity - tokens) refill_tokens
                            \<le> elapsed div refill_interval)
         | _ \<Rightarrow> Some False))"

text \<open>The pruning loop: \<open>n\<close> queued keys are inspected, live ones go back to the end.\<close>

fun prune_batch ::
  "RateLimiterConfig \<Rightarrow> instant \<Rightarrow> RateLimitPolicy \<Rightarrow> nat
     \<Rightarrow> (string, Entry) hmap \<Rightarrow> string list \<Rightarrow> ((string, Entry) hmap \<times> string list) option" where
  "prune_batch cfg now p 0 es q = Some (es, q)"
| "prune_batch cfg now p (Suc n) es [] = Some (es, [])"
| "prune_batch cfg now p (Suc n) es (key # q) =
     (case hm_get es key of
        None \<Rightarrow> prune_batch cfg now p n es q
      | Some entry \<Rightarrow>
          (case is_prunable cfg entry now p of
             None \<Rightarrow> None
           | Some True \<Rightarrow> prune_batch cfg now p n (hm_remove key es) q
           | Some False \<Rightarrow> prune_batch cfg now p n es (q @ [key])))"

definition prune_state ::
  "RateLimiterConfig \<Rightarrow> instant \<Rightarrow> RateLimitPolicy \<Rightarrow> LimiterState \<Rightarrow> LimiterState option" where
  "prune_state cfg now p st =
     (if next_prune_at st \<le> now then
        map_option
          (\<lambda>(es, q). st\<lparr>entries := es, prune_queue := q,
                        next_prune_at := (case instant_add now (prune_interval cfg) of
                                            Some t \<Rightarrow> t | None \<Rightarrow> now)\<rparr>)
          (prune_batch cfg now p (min (length (prune_queue st)) PRUNE_BATCH_SIZE)
             (entries st) (prune_queue st))
      else Some st)"

text \<open>The part of a check that follows the pruning.\<close>

definition consume_quota ::
  "RateLimiterConfig \<Rightarrow> string \<Rightarrow> instant \<Rightarrow> RateLimitPolicy \<Rightarrow> LimiterState
     \<Rightarrow> (LimiterState \<times> RateLimitDecision) option" where
  "consume_quota cfg key now p st =
     (case hm_get (entries st) key of
        Some entry \<Rightarrow>
          (case apply_policy cfg p (quota entry) now of
             None \<Rightarrow> None
           | Some (q, decision) \<Rightarrow>
               Some (st\<lparr>entries := hm_insert key \<lparr>quota = q, last_seen = now\<rparr> (entries st)\<rparr>,
                     decision))
      | None \<Rightarrow>
          if max_entries cfg \<le> hm_len (entries st) then Some (st, denied_without_estimate)
          else
            (let (q, decision) = initial_quota p now in
             Some (st\<lparr>entries := hm_insert key \<lparr>quota = q, last_seen = now\<rparr> (entries st),
                      prune_queue := prune_queue st @ [key]\<rparr>,
                   decision)))"

definition check_at_internal ::
  "RateLimiter \<Rightarrow> string \<Rightarrow> instant \<Rightarrow> RateLimitPolicy option
     \<Rightarrow> (RateLimiter \<times> RateLimitDecision) option" where
  "check_at_internal l key now requested_policy =
     (if key = [] \<or> MAX_KEY_BYTES < str_len key then Some (l, denied_without_estimate)
      else
        (let p = (case requested_policy of Some p \<Rightarrow> p | None \<Rightarrow> policy (state l)) in
         case prune_state (config l) now p (state l) of
           None \<Rightarrow> None
         | Some st \<Rightarrow>
             map_option (\<lambda>(st', decision). (l\<lparr>state := st'\<rparr>, decision))
               (consume_quota (config l) key now p st)))"

definition check_at ::
  "RateLimiter \<Rightarrow> string \<Rightarrow> instant \<Rightarrow> (RateLimiter \<times> RateLimitDecision) option" where
  "check_at l key now = check_at_internal l key now None"

definition check_at_with_policy ::
  "RateLimiter \<Rightarrow> string \<Rightarrow> instant \<Rightarrow> RateLimitPolicy
     \<Rightarrow> (RateLimiter \<times> RateLimitDecision) option" where
  "check_at_with_policy l key now p = check_at_internal l key now (Some p)"

definition reconfigure_quota ::
  "RateLimitPolicy \<Rightarrow> RateLimitPolicy \<Rightarrow> instant \<Rightarrow> QuotaState \<Rightarrow> QuotaState option" where
  "reconfigure_quota previous new now q =
     (case (previous, new, q) of
        (FixedWindow _ _, FixedWindow _ _, FixedWindowQuota _ used) \<Rightarrow>
          Some (FixedWindowQuota now used)
      | (TokenBucket capacity refill_tokens refill_interval, TokenBucket new_capacity _ _,
         TokenBucketQuota tokens refilled_at) \<Rightarrow>
          map_option (\<lambda>(tokens', _). TokenBucketQuota (min tokens' new_capacity) now)
            (refill_bucket tokens refilled_at now capacity refill_tokens refill_interval)
      | _ \<Rightarrow> Some q)"

fun reconfigure_entries ::
  "RateLimitPolicy \<Rightarrow> RateLimitPolicy \<Rightarrow> instant \<Rightarrow> (string, Entry) hmap
     \<Rightarrow> (string, Entry) hmap option" where
  "reconfigure_entries previous new now [] = Some []"
| "reconfigure_entries previous new now ((key, e) # es) =
     (case reconfigure_quota previous new now (quota e) of
        None \<Rightarrow> None
      | Some q \<Rightarrow>
          map_option (\<lambda>es'. (key, e\<lparr>quota := q\<rparr>) # es')
            (reconfigure_entries previous new now es))"

definition reconfigure :: "RateLimiter \<Rightarrow> RateLimitPolicy \<Rightarrow> instant \<Rightarrow> RateLimiter option" where
  "reconfigure l p now =
     (let previous_policy = policy (state l) in
      if previous_policy = p then Some l
      else
        map_option
          (\<lambda>es. l\<lparr>state := (state l)\<lparr>entries := es, policy := p\<rparr>\<rparr>)
          (reconfigure_entries previous_policy p now (entries (state l))))"

section \<open>Quota arithmetic\<close>

fun policy_ok :: "RateLimitPolicy \<Rightarrow> bool" where
  "policy_ok (FixedWindow max_requests window) = (0 < max_requests \<and> 0 < window)"
| "policy_ok (TokenBucket capacity refill_tokens refill_interval) =
     (0 < capacity \<and> 0 < refill_tokens \<and> 0 < refill_interval)"

text \<open>
  The budget of an identity: how many requests it can be granted up to the instant \<open>T\<close>, given
  its quota, or given that it is unknown at the instant \<open>now\<close>. Every interval of the policy
  adds one full window, or one refill.
\<close>

fun budget :: "RateLimitPolicy \<Rightarrow> QuotaState option \<Rightarrow> instant \<Rightarrow> instant \<Rightarrow> nat" where
  "budget (FixedWindow m w) None now T = m + m * ((T - now) div w)"
| "budget (FixedWindow m w) (Some (FixedWindowQuota s u)) now T = (m - u) + m * ((T - s) div w)"
| "budget (TokenBucket c r i) None now T = c + r * ((T - now) div i)"
| "budget (TokenBucket c r i) (Some (TokenBucketQuota t s)) now T = t + r * ((T - s) div i)"
| "budget _ _ now T = 0"

lemma div_split_le: "(x div i) + (y div i) \<le> (x + y) div (i :: nat)"
proof (cases "i = 0")
  case False
  have "(x div i + y div i) * i \<le> x + y"
    by (simp add: add_mult_distrib add_mono)
  with False show ?thesis by (simp add: less_eq_div_iff_mult_less_eq)
qed simp

lemma span_split_le: "a \<le> b \<Longrightarrow> b \<le> c \<Longrightarrow> (b - a) div i + (c - b) div i \<le> (c - a) div (i :: nat)"
  using div_split_le [of "b - a" i "c - b"] by simp

lemma span_shift_le:
  assumes "0 < i" and "n * i \<le> c - a"
  shows "n + (c - (a + n * i)) div i \<le> (c - a) div (i :: nat)"
proof -
  have "(n * i) div i + (c - a - n * i) div i \<le> (n * i + (c - a - n * i)) div i"
    by (rule div_split_le)
  moreover have "n * i + (c - a - n * i) = c - a" using assms(2) by simp
  ultimately show ?thesis using assms(1)
    by (simp only: diff_diff_left nonzero_mult_div_cancel_right neq0_conv)
qed

lemma needed_le_intervals: "0 < r \<Longrightarrow> needed \<le> r * intervals_to_full needed r"
proof -
  assume r: "0 < r"
  have eq: "needed = r * (needed div r) + needed mod r" by simp
  have "needed mod r \<le> r * (if needed mod r = 0 then 0 else 1)"
    using r by (simp add: less_imp_le)
  then have "needed \<le> r * (needed div r) + r * (if needed mod r = 0 then 0 else 1)"
    using eq by linarith
  then show ?thesis unfolding intervals_to_full_def by (simp only: distrib_left)
qed

lemma refill_bucket_cases:
  assumes "refill_bucket t s now c r i = Some (t', s')" and "0 < r" "0 < i"
  obtains (idle) "(now - s) div i = 0" "t' = t" "s' = s"
  | (full) "(now - s) div i \<noteq> 0" "intervals_to_full (c - t) r \<le> (now - s) div i" "t' = c" "s' = now"
  | (part) "(now - s) div i \<noteq> 0" "(now - s) div i < intervals_to_full (c - t) r"
      "t' = min (sat_add u32_max t (sat_mul u32_max ((now - s) div i mod 2 ^ 32) r)) c"
      "s' = (case checked_mul duration_max i ((now - s) div i mod 2 ^ 32) of
               Some whole \<Rightarrow> (case instant_add s whole of Some updated \<Rightarrow> updated | None \<Rightarrow> now)
             | None \<Rightarrow> now)"
proof -
  have nz: "i \<noteq> 0" "r \<noteq> 0" using assms(2,3) by simp_all
  have eq: "(if (now - s) div i = 0 then Some (t, s)
         else if intervals_to_full (c - t) r \<le> (now - s) div i then Some (c, now)
         else Some
           (min (sat_add u32_max t (sat_mul u32_max ((now - s) div i mod 2 ^ 32) r)) c,
            case checked_mul duration_max i ((now - s) div i mod 2 ^ 32) of
               Some whole \<Rightarrow> (case instant_add s whole of Some updated \<Rightarrow> updated | None \<Rightarrow> now)
             | None \<Rightarrow> now)) = Some (t', s')"
    using assms(1) nz unfolding refill_bucket_def Let_def saturating_duration_since_def
    by (simp only: if_False)
  show ?thesis
  proof (cases "(now - s) div i = 0")
    case True
    from eq show ?thesis
      by (simp only: True if_True option.inject prod.inject) (rule idle [OF True], simp_all)
  next
    case ne: False
    show ?thesis
    proof (cases "intervals_to_full (c - t) r \<le> (now - s) div i")
      case True
      from eq show ?thesis
        by (simp only: ne True if_True if_False option.inject prod.inject)
          (rule full [OF ne True], simp_all)
    next
      case False
      then have lt: "(now - s) div i < intervals_to_full (c - t) r" by simp
      from eq show ?thesis
        by (simp only: ne False if_False option.inject prod.inject) (metis part [OF ne lt])
    qed
  qed
qed

lemma refill_bucket_total:
  "0 < r \<Longrightarrow> 0 < i \<Longrightarrow> \<exists>t' s'. refill_bucket t s now c r i = Some (t', s')"
  by (auto simp: refill_bucket_def Let_def)

text \<open>Refilling never adds to the budget, whatever the widths do.\<close>

lemma refill_bucket_budget:
  assumes "refill_bucket t s now c r i = Some (t', s')" and "now \<le> T" and "0 < r" "0 < i"
  shows "t' + r * ((T - s') div i) \<le> t + r * ((T - s) div i)"
proof -
  define n where "n = (now - s) div i"
  define m where "m = n mod 2 ^ 32"
  have mn: "m \<le> n" by (simp add: m_def)
  consider (idle) "n = 0" "t' = t" "s' = s"
    | (full) "n \<noteq> 0" "intervals_to_full (c - t) r \<le> n" "t' = c" "s' = now"
    | (part) "n \<noteq> 0" "t' \<le> t + r * m" "s' = s + i * m \<or> s' = now"
  proof (rule refill_bucket_cases [OF assms(1,3,4)], goal_cases)
    case 3
    have "t' \<le> sat_add u32_max t (sat_mul u32_max m r)"
      using 3(6) by (simp add: n_def m_def)
    also have "\<dots> \<le> t + r * m" by (simp add: sat_add_def sat_mul_def mult.commute min_def)
    finally have "t' \<le> t + r * m" .
    moreover from 3(7) have "s' = s + i * m \<or> s' = now"
      by (auto simp: n_def m_def split: option.splits)
    ultimately show ?case using 3(3,4) by (simp add: n_def)
  qed (simp_all add: n_def)
  then show ?thesis
  proof cases
    case idle then show ?thesis by simp
  next
    case full
    have sn: "s \<le> now" using full(1) by (auto simp: n_def intro: ccontr)
    have "c - t \<le> r * n"
      using needed_le_intervals [OF assms(3), of "c - t"] full(2)
      by (meson le_trans mult_le_mono2)
    moreover have "n + (T - now) div i \<le> (T - s) div i"
      using span_split_le [OF sn assms(2)] by (simp add: n_def)
    then have "r * n + r * ((T - now) div i) \<le> r * ((T - s) div i)"
      by (metis distrib_left mult_le_mono2)
    ultimately show ?thesis using full by simp
  next
    case part
    have sn: "s \<le> now" using part(1) by (auto simp: n_def intro: ccontr)
    have "m + (T - s') div i \<le> (T - s) div i"
    proof (cases "s' = now")
      case True
      have "n + (T - now) div i \<le> (T - s) div i"
        using span_split_le [OF sn assms(2)] by (simp add: n_def)
      with True mn show ?thesis by simp
    next
      case False
      have "m * i \<le> now - s"
        using mn by (simp add: n_def less_eq_div_iff_mult_less_eq assms(4))
      then have "m * i \<le> T - s" using assms(2) by simp
      from span_shift_le [OF assms(4) this] False part(3) show ?thesis by (simp add: mult.commute)
    qed
    then have "r * m + r * ((T - s') div i) \<le> r * ((T - s) div i)"
      by (metis distrib_left mult_le_mono2)
    with part(2) show ?thesis by simp
  qed
qed

lemma decision_simps [simp]:
  "allowed (allowed_decision n)" "\<not> allowed (rejected d)" "\<not> allowed denied_without_estimate"
  "retry_after (rejected d) = Some d" "remaining (rejected d) = 0"
  "retry_after (allowed_decision n) = None" "retry_after denied_without_estimate = None"
  by (simp_all add: allowed_decision_def rejected_def denied_without_estimate_def)

definition cost :: "RateLimitDecision \<Rightarrow> nat" where
  "cost d = (if allowed d then 1 else 0)"

lemma cost_simps [simp]:
  "cost (allowed_decision n) = 1" "cost (rejected d) = 0" "cost denied_without_estimate = 0"
  by (simp_all add: cost_def)

lemma apply_policy_total: "policy_ok p \<Longrightarrow> \<exists>q' d. apply_policy cfg p q now = Some (q', d)"
  using refill_bucket_total
  by (cases p; cases q) (force simp: apply_policy_def Let_def split: option.splits)+

lemma window_restart_le:
  assumes "0 < (w :: nat)" "w \<le> now - s" "now \<le> T"
  shows "m + m * ((T - now) div w) \<le> m * ((T - s) div w)"
proof -
  have "s \<le> now" using assms(1,2) by (auto intro: ccontr)
  then have "(now - s) div w + (T - now) div w \<le> (T - s) div w"
    using assms(3) by (rule span_split_le)
  moreover have "1 \<le> (now - s) div w" using assms by (simp add: div_greater_zero_iff Suc_le_eq)
  ultimately have "1 + (T - now) div w \<le> (T - s) div w" by linarith
  then have "m * (1 + (T - now) div w) \<le> m * ((T - s) div w)" by (rule mult_le_mono2)
  then show ?thesis by simp
qed

lemma apply_policy_budget:
  assumes "apply_policy cfg p q now = Some (q', d)" and "policy_ok p" and "now \<le> T"
  shows "cost d + budget p (Some q') now T \<le> budget p (Some q) t0 T"
proof (cases p)
  case p: (FixedWindow m w)
  show ?thesis
  proof (cases q)
    case q: (FixedWindowQuota s u)
    consider "w \<le> now - s" | "now - s < w" "u < m" | "now - s < w" "m \<le> u" by linarith
    then show ?thesis
    proof cases
      case 1
      with assms p q have "q' = FixedWindowQuota now 1" "cost d = 1"
        by (auto simp: apply_policy_def time_simps)
      with window_restart_le [of w now s T m] 1 assms p q show ?thesis by auto
    qed (use assms p q in \<open>auto simp: apply_policy_def time_simps\<close>)
  qed (use assms p in \<open>auto simp: apply_policy_def\<close>)
next
  case p: (TokenBucket c r i)
  show ?thesis
  proof (cases q)
    case q: (TokenBucketQuota t s)
    from assms p have pos: "0 < r" "0 < i" by auto
    obtain t' s' where ref: "refill_bucket t s now c r i = Some (t', s')"
      using refill_bucket_total [OF pos] by blast
    note refill_bucket_budget [OF ref assms(3) pos]
    with assms(1) p q ref show ?thesis
      by (cases "0 < t'") (auto simp: apply_policy_def Let_def)
  qed (use assms p in \<open>auto simp: apply_policy_def\<close>)
qed

lemma initial_quota_budget:
  "initial_quota p now = (q, d) \<Longrightarrow> policy_ok p \<Longrightarrow>
     cost d + budget p (Some q) now T \<le> budget p None now T"
  by (cases p) (auto simp: initial_quota_def int_simps)

lemma budget_antimono: "now \<le> now' \<Longrightarrow> budget p q now' T \<le> budget p q now T"
  by (cases "(p, q, now', T)" rule: budget.cases) (auto intro!: mult_le_mono2 div_le_mono)

fun stamp :: "QuotaState \<Rightarrow> instant" where
  "stamp (FixedWindowQuota s _) = s"
| "stamp (TokenBucketQuota _ s) = s"

lemma refill_bucket_stamp:
  assumes "refill_bucket t s now c r i = Some (t', s')" and "s \<le> now" "0 < r" "0 < i"
  shows "s' \<le> now"
proof (rule refill_bucket_cases [OF assms(1,3,4)], goal_cases)
  case 3
  have "((now - s) div i mod 2 ^ 32) * i \<le> now - s"
    by (metis div_times_less_eq_dividend le_trans mod_less_eq_dividend mult_le_mono1)
  then have "s + i * ((now - s) div i mod 2 ^ 32) \<le> now" using assms(2) by (simp add: mult.commute)
  with 3(4) show ?case by (auto split: option.splits)
qed (use assms(2) in simp_all)

lemma apply_policy_stamp:
  assumes "apply_policy cfg p q now = Some (q', d)" and "policy_ok p" and "stamp q \<le> now"
  shows "stamp q' \<le> now"
  using assms refill_bucket_stamp
  by (cases p; cases q)
    (force simp: apply_policy_def Let_def time_simps split: if_splits option.splits)+

lemma initial_quota_stamp: "initial_quota p now = (q, d) \<Longrightarrow> stamp q = now"
  by (cases p) (auto simp: initial_quota_def)

text \<open>An entry is pruned only when a fresh identity would have no larger budget.\<close>

lemma prunable_budget:
  assumes "is_prunable cfg e now p = Some True" and "policy_ok p" and "now \<le> T"
    and "stamp (quota e) \<le> now"
  shows "budget p None now T \<le> budget p (Some (quota e)) t0 T"
proof (cases p)
  case p: (FixedWindow m w)
  show ?thesis
  proof (cases "quota e")
    case q: (FixedWindowQuota s u)
    with assms p have "0 < w" "w \<le> now - s"
      by (auto simp: is_prunable_def time_simps split: if_splits)
    from window_restart_le [OF this assms(3), of m] p q show ?thesis by simp
  qed (use assms p in \<open>auto simp: is_prunable_def split: if_splits\<close>)
next
  case p: (TokenBucket c r i)
  show ?thesis
  proof (cases "quota e")
    case q: (TokenBucketQuota t s)
    from assms p have pos: "0 < r" "0 < i" by auto
    consider "c \<le> t" | "t < c" "intervals_to_full (c - t) r \<le> (now - s) div i"
      using assms p q by (fastforce simp: is_prunable_def Let_def time_simps split: if_splits)
    then have need: "c \<le> t + r * ((now - s) div i)"
    proof cases
      case 2
      with needed_le_intervals [OF pos(1), of "c - t"]
      have "c - t \<le> r * ((now - s) div i)" by (meson le_trans mult_le_mono2)
      then show ?thesis by simp
    qed simp
    have "r * ((now - s) div i) + r * ((T - now) div i) \<le> r * ((T - s) div i)"
      using span_split_le [of s now T i] assms(3,4) q by (metis distrib_left mult_le_mono2 stamp.simps(2))
    with need p q show ?thesis by simp
  qed (use assms p in \<open>auto simp: is_prunable_def split: if_splits\<close>)
qed

section \<open>The limiter's state\<close>

text \<open>
  Between two operations the map is well formed and within its bound, and every identity it
  holds is queued for pruning exactly once.
\<close>

definition queue_ok :: "(string, Entry) hmap \<Rightarrow> string list \<Rightarrow> bool" where
  "queue_ok es q \<longleftrightarrow> distinct q \<and> (\<forall>k. k \<in> set q \<longleftrightarrow> hm_get es k \<noteq> None)"

definition state_ok :: "RateLimiterConfig \<Rightarrow> LimiterState \<Rightarrow> bool" where
  "state_ok cfg st \<longleftrightarrow>
     hm_ok (entries st) \<and> hm_len (entries st) \<le> max_entries cfg \<and> queue_ok (entries st) (prune_queue st)"

definition limiter_ok :: "RateLimiter \<Rightarrow> bool" where
  "limiter_ok l \<longleftrightarrow> state_ok (config l) (state l) \<and> policy_ok (policy (state l))"

lemma is_prunable_total: "policy_ok p \<Longrightarrow> \<exists>b. is_prunable cfg e now p = Some b"
  by (cases p; cases "quota e") (auto simp: is_prunable_def Let_def)

lemma prune_batch_ok:
  assumes "policy_ok p" and "hm_ok es" and "queue_ok es q"
  shows "\<exists>es' q'. prune_batch cfg now p n es q = Some (es', q') \<and> hm_ok es' \<and> queue_ok es' q' \<and>
           hm_len es' \<le> hm_len es \<and>
           (\<forall>k. hm_get es' k = hm_get es k \<or>
                hm_get es' k = None \<and> (\<exists>e. hm_get es k = Some e \<and> is_prunable cfg e now p = Some True))"
  using assms(2,3)
proof (induction n arbitrary: es q)
  case 0
  then show ?case by simp
next
  case (Suc n)
  show ?case
  proof (cases q)
    case Nil
    with Suc.prems show ?thesis by simp
  next
    case q: (Cons key q')
    have "key \<in> set q" by (simp add: q)
    with Suc.prems(2) have "hm_get es key \<noteq> None" unfolding queue_ok_def by blast
    then obtain e where e: "hm_get es key = Some e" by blast
    obtain b where b: "is_prunable cfg e now p = Some b"
      using is_prunable_total [OF assms(1)] by blast
    show ?thesis
    proof (cases b)
      case True
      have ok: "hm_ok (hm_remove key es)" using Suc.prems(1) by (rule hm.ok_remove)
      have "queue_ok (hm_remove key es) q'"
        using Suc.prems(2) q by (auto simp: queue_ok_def hm.get_remove)
      from Suc.IH [OF ok this] obtain es1 q1 where
        r: "prune_batch cfg now p n (hm_remove key es) q' = Some (es1, q1)"
           "hm_ok es1" "queue_ok es1 q1" "hm_len es1 \<le> hm_len (hm_remove key es)"
           "\<forall>k. hm_get es1 k = hm_get (hm_remove key es) k \<or> hm_get es1 k = None \<and>
              (\<exists>e. hm_get (hm_remove key es) k = Some e \<and> is_prunable cfg e now p = Some True)"
        by blast
      have "hm_get es1 k = hm_get es k \<or> hm_get es1 k = None \<and>
              (\<exists>e. hm_get es k = Some e \<and> is_prunable cfg e now p = Some True)" for k
        using r(5) [rule_format, of k] True b e by (cases "k = key") (simp_all add: hm.get_remove)
      moreover have "hm_len es1 \<le> hm_len es" using r(4) hm.len_remove [of key es] by simp
      ultimately show ?thesis using r(1-3) True b e q by simp
    next
      case False
      have "queue_ok es (q' @ [key])" using Suc.prems(2) q by (auto simp: queue_ok_def)
      from Suc.IH [OF Suc.prems(1) this] False b e q show ?thesis by simp
    qed
  qed
qed

lemma prune_state_ok:
  assumes "policy_ok p" and "state_ok cfg st"
  obtains st' where "prune_state cfg now p st = Some st'" and "state_ok cfg st'"
    and "policy st' = policy st"
    and "\<And>k. hm_get (entries st') k = hm_get (entries st) k \<or>
           hm_get (entries st') k = None \<and>
           (\<exists>e. hm_get (entries st) k = Some e \<and> is_prunable cfg e now p = Some True)"
proof (cases "next_prune_at st \<le> now")
  case True
  from assms(2) have "hm_ok (entries st)" "queue_ok (entries st) (prune_queue st)"
    by (simp_all add: state_ok_def)
  from prune_batch_ok [OF assms(1) this, of cfg now "min (length (prune_queue st)) PRUNE_BATCH_SIZE"]
  obtain es q where r: "prune_batch cfg now p (min (length (prune_queue st)) PRUNE_BATCH_SIZE)
        (entries st) (prune_queue st) = Some (es, q)" "hm_ok es" "queue_ok es q"
      "hm_len es \<le> hm_len (entries st)"
      "\<forall>k. hm_get es k = hm_get (entries st) k \<or> hm_get es k = None \<and>
         (\<exists>e. hm_get (entries st) k = Some e \<and> is_prunable cfg e now p = Some True)"
    by blast
  let ?st = "st\<lparr>entries := es, prune_queue := q,
                next_prune_at := (case instant_add now (prune_interval cfg) of
                                    Some t \<Rightarrow> t | None \<Rightarrow> now)\<rparr>"
  show ?thesis
  proof (rule that [of ?st])
    show "prune_state cfg now p st = Some ?st" using True r(1) by (simp add: prune_state_def)
    show "state_ok cfg ?st" using r(2-4) assms(2) by (auto simp: state_ok_def)
  qed (use r(5) in simp_all)
next
  case False
  then show ?thesis using assms(2) by (intro that [of st]) (simp_all add: prune_state_def)
qed

lemma consume_quota_ok:
  assumes "policy_ok p" and "state_ok cfg st"
  obtains st' d where "consume_quota cfg key now p st = Some (st', d)" and "state_ok cfg st'"
    and "policy st' = policy st"
    and "\<And>k. k \<noteq> key \<Longrightarrow> hm_get (entries st') k = hm_get (entries st) k"
proof (cases "hm_get (entries st) key")
  case None
  show ?thesis
  proof (cases "max_entries cfg \<le> hm_len (entries st)")
    case True
    then show ?thesis using None assms(2)
      by (intro that [of st denied_without_estimate]) (simp_all add: consume_quota_def)
  next
    case False
    obtain q d where qd: "initial_quota p now = (q, d)" by fastforce
    let ?es = "hm_insert key \<lparr>quota = q, last_seen = now\<rparr> (entries st)"
    have "hm_len ?es \<le> max_entries cfg"
      using False assms(2) by (intro hm.guarded_insert_bound) (simp_all add: state_ok_def)
    moreover have "queue_ok ?es (prune_queue st @ [key])"
      using assms(2) None by (auto simp: state_ok_def queue_ok_def hm.get_insert)
    ultimately show ?thesis using None False qd assms(2)
      by (intro that [of "st\<lparr>entries := ?es, prune_queue := prune_queue st @ [key]\<rparr>" d])
        (auto simp: consume_quota_def state_ok_def hm.get_insert intro: hm.ok_insert)
  qed
next
  case (Some e)
  obtain q d where qd: "apply_policy cfg p (quota e) now = Some (q, d)"
    using apply_policy_total [OF assms(1)] by blast
  let ?es = "hm_insert key \<lparr>quota = q, last_seen = now\<rparr> (entries st)"
  have "hm_len ?es \<le> max_entries cfg" using Some assms(2) by (simp add: hm.len_insert state_ok_def)
  moreover have "queue_ok ?es (prune_queue st)"
    using assms(2) Some by (auto simp: state_ok_def queue_ok_def hm.get_insert)
  ultimately show ?thesis using Some qd assms(2)
    by (intro that [of "st\<lparr>entries := ?es\<rparr>" d])
      (auto simp: consume_quota_def state_ok_def hm.get_insert intro: hm.ok_insert)
qed

definition requested :: "RateLimiter \<Rightarrow> RateLimitPolicy option \<Rightarrow> RateLimitPolicy" where
  "requested l rp = (case rp of Some p \<Rightarrow> p | None \<Rightarrow> policy (state l))"

lemma check_at_internal_ok:
  assumes "limiter_ok l" and "policy_ok (requested l rp)"
  obtains l' d where "check_at_internal l key now rp = Some (l', d)" and "limiter_ok l'"
    and "config l' = config l" and "policy (state l') = policy (state l)"
proof (cases "key = [] \<or> MAX_KEY_BYTES < str_len key")
  case True
  then show ?thesis using assms by (intro that [of l]) (auto simp: check_at_internal_def)
next
  case False
  have ok: "state_ok (config l) (state l)" using assms(1) by (simp add: limiter_ok_def)
  obtain st where st: "prune_state (config l) now (requested l rp) (state l) = Some st"
      "state_ok (config l) st" "policy st = policy (state l)"
    using prune_state_ok [OF assms(2) ok] by metis
  obtain st' d where st': "consume_quota (config l) key now (requested l rp) st = Some (st', d)"
      "state_ok (config l) st'" "policy st' = policy st"
    using consume_quota_ok [OF assms(2) st(2)] by metis
  show ?thesis
    using False st st' assms(1)
    by (intro that [of "l\<lparr>state := st'\<rparr>" d])
      (auto simp: check_at_internal_def requested_def [symmetric] Let_def limiter_ok_def)
qed

section \<open>Admissions never exceed the budget\<close>

text \<open>One check of one identity, seen from any identity.\<close>

definition quota_of :: "LimiterState \<Rightarrow> string \<Rightarrow> QuotaState option" where
  "quota_of st k = map_option quota (hm_get (entries st) k)"

definition stamped :: "LimiterState \<Rightarrow> string \<Rightarrow> instant \<Rightarrow> bool" where
  "stamped st k t \<longleftrightarrow> (\<forall>q. quota_of st k = Some q \<longrightarrow> stamp q \<le> t)"

lemma prune_state_budget:
  assumes "policy_ok p" and "state_ok cfg st" and "prune_state cfg now p st = Some st'"
    and "stamped st k t0" "t0 \<le> now" "now \<le> T"
  shows "budget p (quota_of st' k) now T \<le> budget p (quota_of st k) t0 T" and "stamped st' k now"
proof -
  obtain st'' where "prune_state cfg now p st = Some st''"
    and change: "hm_get (entries st'') k = hm_get (entries st) k \<or> hm_get (entries st'') k = None \<and>
         (\<exists>e. hm_get (entries st) k = Some e \<and> is_prunable cfg e now p = Some True)"
    using prune_state_ok [OF assms(1,2)] by metis
  then have change: "hm_get (entries st') k = hm_get (entries st) k \<or> hm_get (entries st') k = None \<and>
         (\<exists>e. hm_get (entries st) k = Some e \<and> is_prunable cfg e now p = Some True)"
    using assms(3) by simp
  show "stamped st' k now"
    using change assms(4,5) by (auto simp: stamped_def quota_of_def)
  show "budget p (quota_of st' k) now T \<le> budget p (quota_of st k) t0 T"
  proof (cases "hm_get (entries st') k = hm_get (entries st) k")
    case True
    then have eq: "quota_of st' k = quota_of st k" by (simp add: quota_of_def)
    then show ?thesis using budget_antimono [OF assms(5)] by simp
  next
    case False
    with change obtain e where e: "hm_get (entries st) k = Some e"
        "is_prunable cfg e now p = Some True" "hm_get (entries st') k = None" by blast
    have "stamp (quota e) \<le> now" using assms(4,5) e by (simp add: stamped_def quota_of_def)
    from prunable_budget [OF e(2) assms(1,6) this] e show ?thesis by (simp add: quota_of_def)
  qed
qed

lemma consume_quota_budget:
  assumes "policy_ok p" and "consume_quota cfg key now p st = Some (st', d)"
    and "stamped st k now" "now \<le> T"
  shows "(if k = key then cost d else 0) + budget p (quota_of st' k) now T
           \<le> budget p (quota_of st k) now T" and "stamped st' k now"
proof (atomize (full), cases "k = key")
  case False
  then have "quota_of st' k = quota_of st k"
    using assms(2)
    by (auto simp: consume_quota_def quota_of_def hm.get_insert split: option.splits if_splits prod.splits)
  with assms(3) False show "(if k = key then cost d else 0) + budget p (quota_of st' k) now T
      \<le> budget p (quota_of st k) now T \<and> stamped st' k now" by (simp add: stamped_def)
next
  case True
  show "(if k = key then cost d else 0) + budget p (quota_of st' k) now T
      \<le> budget p (quota_of st k) now T \<and> stamped st' k now"
  proof (cases "hm_get (entries st) key")
    case (Some e)
    with assms(2) obtain q where q: "apply_policy cfg p (quota e) now = Some (q, d)"
        "quota_of st' key = Some q"
      by (auto simp: consume_quota_def quota_of_def hm.get_insert split: option.splits)
    have "stamp (quota e) \<le> now" using assms(3) Some True by (simp add: stamped_def quota_of_def)
    from apply_policy_stamp [OF q(1) assms(1) this] apply_policy_budget [OF q(1) assms(1,4)] q(2) True
    have "cost d + budget p (quota_of st' k) now T \<le> budget p (Some (quota e)) now T"
      and "stamped st' k now" by (simp_all add: stamped_def)
    with Some True show ?thesis by (simp add: quota_of_def)
  next
    case None
    show ?thesis
    proof (cases "max_entries cfg \<le> hm_len (entries st)")
      case True
      with None assms(2,3) \<open>k = key\<close> show ?thesis by (auto simp: consume_quota_def)
    next
      case False
      with None assms(2) obtain q where q: "initial_quota p now = (q, d)" "quota_of st' key = Some q"
        by (auto simp: consume_quota_def quota_of_def hm.get_insert split: prod.splits)
      from initial_quota_budget [OF q(1) assms(1)] initial_quota_stamp [OF q(1)] q(2) True
      have "cost d + budget p (quota_of st' k) now T \<le> budget p None now T"
        and "stamped st' k now" by (simp_all add: stamped_def)
      with None True show ?thesis by (simp add: quota_of_def)
    qed
  qed
qed

lemma check_at_internal_budget:
  assumes "limiter_ok l" and "policy_ok (requested l rp)"
    and "check_at_internal l key now rp = Some (l', d)"
    and "stamped (state l) k t0" "t0 \<le> now" "now \<le> T"
  shows "(if k = key then cost d else 0) + budget (requested l rp) (quota_of (state l') k) now T
           \<le> budget (requested l rp) (quota_of (state l) k) t0 T" (is "?B")
    and "stamped (state l') k now" (is "?S")
proof -
  have ok: "state_ok (config l) (state l)" using assms(1) by (simp add: limiter_ok_def)
  obtain st where st: "prune_state (config l) now (requested l rp) (state l) = Some st"
    using prune_state_ok [OF assms(2) ok] by metis
  note pb = prune_state_budget [OF assms(2) ok st assms(4-6)]
  consider (bad) "l' = l" "d = denied_without_estimate"
    | (good) "consume_quota (config l) key now (requested l rp) st = Some (state l', d)"
    using assms(3) st
    by (auto simp: check_at_internal_def requested_def [symmetric] Let_def split: if_splits)
  then have "?B \<and> ?S"
  proof cases
    case bad
    with budget_antimono [OF assms(5)] assms(4,5) show ?thesis by (force simp: stamped_def)
  next
    case good
    note cb = consume_quota_budget [OF assms(2) good pb(2) assms(6)]
    from cb(1) pb(1) cb(2) show ?thesis by linarith
  qed
  then show ?B and ?S by simp_all
qed

fun check_run ::
  "RateLimiter \<Rightarrow> (string \<times> instant) list \<Rightarrow> (RateLimiter \<times> RateLimitDecision list) option" where
  "check_run l [] = Some (l, [])"
| "check_run l ((key, now) # evs) =
     (case check_at l key now of
        None \<Rightarrow> None
      | Some (l', d) \<Rightarrow> map_option (\<lambda>(l'', ds). (l'', d # ds)) (check_run l' evs))"

fun admitted :: "string \<Rightarrow> (string \<times> instant) list \<Rightarrow> RateLimitDecision list \<Rightarrow> nat" where
  "admitted k ((key, now) # evs) (d # ds) = (if k = key then cost d else 0) + admitted k evs ds"
| "admitted k _ _ = 0"

lemma check_run_budget:
  assumes "limiter_ok l" and "stamped (state l) k t0"
    and "sorted (t0 # map snd evs)" and "\<forall>e \<in> set evs. snd e \<le> T"
  shows "\<exists>l' ds. check_run l evs = Some (l', ds) \<and> length ds = length evs \<and> limiter_ok l' \<and>
           admitted k evs ds \<le> budget (policy (state l)) (quota_of (state l) k) t0 T"
  using assms
proof (induction evs arbitrary: l t0)
  case (Cons ev evs)
  obtain key now where ev: "ev = (key, now)" by fastforce
  have pol: "policy_ok (requested l None)" "requested l None = policy (state l)"
    using Cons.prems(1) by (simp_all add: requested_def limiter_ok_def)
  obtain l1 d where c: "check_at_internal l key now None = Some (l1, d)" "limiter_ok l1"
      "policy (state l1) = policy (state l)"
    using check_at_internal_ok [OF Cons.prems(1) pol(1)] by metis
  have t: "t0 \<le> now" "now \<le> T" using Cons.prems(3,4) ev by simp_all
  note b = check_at_internal_budget [OF Cons.prems(1) pol(1) c(1) Cons.prems(2) t]
  have "sorted (now # map snd evs)" using Cons.prems(3) ev by simp
  from Cons.IH [OF c(2) b(2) this] Cons.prems(4)
  obtain l2 ds where r: "check_run l1 evs = Some (l2, ds)" "length ds = length evs" "limiter_ok l2"
      "admitted k evs ds \<le> budget (policy (state l1)) (quota_of (state l1) k) now T" by auto
  have "admitted k (ev # evs) (d # ds) \<le> budget (policy (state l)) (quota_of (state l) k) t0 T"
    using r(4) b(1) ev pol(2) c(3) by simp
  with r(1-3) c(1) ev show ?case by (auto simp: check_at_def)
qed simp

section \<open>Rejections, configuration and reconfiguration\<close>

lemma intervals_to_full_le:
  assumes "0 < r" shows "intervals_to_full needed r \<le> needed"
proof -
  have le: "needed div r \<le> r * (needed div r)" using assms by simp
  have eq: "needed = r * (needed div r) + needed mod r" by simp
  show ?thesis
  proof (cases "needed mod r = 0")
    case True
    then show ?thesis by (simp add: intervals_to_full_def)
  next
    case False
    then have "needed div r + 1 \<le> r * (needed div r) + needed mod r" using le by linarith
    then show ?thesis using False by (simp add: intervals_to_full_def)
  qed
qed

lemma below_intervals_to_full: "0 < r \<Longrightarrow> n < intervals_to_full needed r \<Longrightarrow> r * n < needed"
proof -
  assume r: "0 < r" and n: "n < intervals_to_full needed r"
  have eq: "needed = r * (needed div r) + needed mod r" by simp
  show ?thesis
  proof (cases "needed mod r = 0")
    case True
    then have "n < needed div r" using n by (simp add: intervals_to_full_def)
    then have "r * n < r * (needed div r)" using r by simp
    then show ?thesis using eq by linarith
  next
    case False
    then have "n \<le> needed div r" using n by (simp add: intervals_to_full_def)
    then have "r * n \<le> r * (needed div r)" by simp
    then show ?thesis using eq False by linarith
  qed
qed

lemma refill_bucket_one_interval:
  assumes "refill_bucket t s now c r i = Some (t', s')" and "0 < r" "0 < i" "0 < c" "i \<le> now - s"
    and "c \<le> u32_max"
  shows "0 < t'"
proof (rule refill_bucket_cases [OF assms(1-3)], goal_cases)
  case 1
  then show ?case using assms(3,5) by (simp add: div_eq_0_iff)
next
  case 2
  then show ?case using assms(4) by simp
next
  case 3
  let ?n = "(now - s) div i"
  have "?n < c" using 3(2) intervals_to_full_le [OF assms(2), of "c - t"] by simp
  then have "?n mod 2 ^ 32 = ?n" using assms(6) by simp
  moreover have "0 < ?n * r" using 3(1) assms(2) by simp
  ultimately have "0 < sat_mul u32_max (?n mod 2 ^ 32) r" unfolding sat_mul_def by simp
  then show ?case using 3(3) assms(4) by (simp only: sat_add_def min_less_iff_conj add_pos_pos) simp
qed

text \<open>The 32-bit casts of the refill are exact for a capacity that fits.\<close>

lemma refill_bucket_exact:
  assumes "refill_bucket t s now c r i = Some (t', s')" and "0 < r" "0 < i"
    and "c \<le> u32_max" "now \<le> instant_max" "s \<le> now"
    and "(now - s) div i \<noteq> 0" "(now - s) div i < intervals_to_full (c - t) r"
  shows "t' = t + r * ((now - s) div i) \<and> s' = s + i * ((now - s) div i)"
proof (rule refill_bucket_cases [OF assms(1-3)], goal_cases)
  case 3
  let ?n = "(now - s) div i"
  have lt: "r * ?n < c - t" using below_intervals_to_full [OF assms(2,8)] .
  have "?n \<le> r * ?n" using assms(2) by simp
  then have "?n < 2 ^ 32" using lt assms(4) by linarith
  then have n: "?n mod 2 ^ 32 = ?n" by (rule mod_less)
  have "t' = t + r * ?n"
    using 3(3) lt assms(4) unfolding n sat_add_def sat_mul_def by (simp add: mult.commute)
  moreover have "i * ?n \<le> now - s" by (simp add: mult.commute)
  then have "i * ?n \<le> duration_max" "s + i * ?n \<le> instant_max"
    using assms(5,6) instant_le_duration_max [OF assms(5)] by linarith+
  then have "s' = s + i * ?n"
    using 3(4) unfolding n checked_mul_def instant_add_def checked_add_def by simp
  ultimately show ?case ..
qed (use assms(7,8) in simp_all)

text \<open>After a rejection the suggested delay is enough: the quota then grants a request.\<close>

lemma apply_policy_retry:
  assumes "apply_policy cfg p q now = Some (q', d)" and "policy_ok p" and "\<not> allowed d"
    and "retry_after d = Some w" and "stamp q \<le> now" and later: "now + w \<le> later"
    and same: "case (p, q) of (FixedWindow _ _, FixedWindowQuota _ _) \<Rightarrow> True
        | (TokenBucket c _ _, TokenBucketQuota _ _) \<Rightarrow> c \<le> u32_max | _ \<Rightarrow> False"
  shows "\<exists>q'' d'. apply_policy cfg p q' later = Some (q'', d') \<and> allowed d'"
proof (cases p)
  case p: (FixedWindow m win)
  with same obtain s u where q: "q = FixedWindowQuota s u" by (cases q) auto
  have "now - s < win" "q' = q" "w = win - (now - s)"
    using assms(1,3,4) p q by (auto simp: apply_policy_def time_simps Let_def split: if_splits)
  then have "win \<le> later - s" using assms(5) later q by simp
  with p q \<open>q' = q\<close> show ?thesis by (simp add: apply_policy_def time_simps)
next
  case p: (TokenBucket c r i)
  with same obtain t s where q: "q = TokenBucketQuota t s" "c \<le> u32_max" by (cases q) auto
  from assms(2) p have pos: "0 < r" "0 < i" "0 < c" by auto
  obtain t' s' where ref: "refill_bucket t s now c r i = Some (t', s')"
    using refill_bucket_total [OF pos(1,2)] by blast
  have t': "t' = 0" and q': "q' = TokenBucketQuota t' s'" and w: "w = i - (now - s')"
    using assms(1,3,4) p q ref by (auto simp: apply_policy_def time_simps Let_def split: if_splits)
  have s': "s' \<le> now" using refill_bucket_stamp [OF ref] assms(5) q pos by simp
  obtain t2 s2 where ref2: "refill_bucket t' s' later c r i = Some (t2, s2)"
    using refill_bucket_total [OF pos(1,2)] by blast
  have "i \<le> later - s'" using w s' later by simp
  from refill_bucket_one_interval [OF ref2 pos this q(2)] p q' ref2
  show ?thesis by (simp add: apply_policy_def)
qed

lemma RateLimiter_new_ok: "RateLimiter_new cfg now = Inr l \<Longrightarrow> limiter_ok l"
  by (cases "cfg_policy cfg")
    (auto simp: RateLimiter_new_def rbind_eq_Inr limiter_ok_def state_ok_def queue_ok_def hm_ok_Nil
      split: if_splits)

lemma reconfigure_quota_total:
  "policy_ok p \<Longrightarrow> \<exists>q'. reconfigure_quota p p' now q = Some q'"
  using refill_bucket_total
  by (cases p; cases p'; cases q) (force simp: reconfigure_quota_def)+

lemma reconfigure_quota_no_mint:
  assumes "policy_ok p"
  shows "case q of
           FixedWindowQuota s u \<Rightarrow> \<exists>s'. the (reconfigure_quota p p' now q) = FixedWindowQuota s' u
         | TokenBucketQuota t s \<Rightarrow>
             \<exists>t' s'. the (reconfigure_quota p p' now q) = TokenBucketQuota t' s' \<and>
               (case (p, p') of
                  (TokenBucket _ r i, TokenBucket c' _ _) \<Rightarrow> t' \<le> t + r * ((now - s) div i) \<and> t' \<le> c'
                | _ \<Rightarrow> t' = t)"
proof (cases p)
  case (FixedWindow m w)
  then show ?thesis by (cases p'; cases q) (auto simp: reconfigure_quota_def)
next
  case p: (TokenBucket c r i)
  show ?thesis
  proof (cases q)
    case q: (TokenBucketQuota t s)
    show ?thesis
    proof (cases p')
      case p': (TokenBucket c' r' i')
      from assms p have pos: "0 < r" "0 < i" by auto
      obtain t' s' where ref: "refill_bucket t s now c r i = Some (t', s')"
        using refill_bucket_total [OF pos] by blast
      have "t' \<le> t + r * ((now - s) div i)"
        using refill_bucket_budget [OF ref le_refl pos] by simp
      with p p' q ref show ?thesis by (auto simp: reconfigure_quota_def)
    qed (use p q in \<open>auto simp: reconfigure_quota_def\<close>)
  qed (use p in \<open>cases p'; auto simp: reconfigure_quota_def\<close>)
qed

lemma reconfigure_entries_total:
  assumes "policy_ok p"
  shows "\<exists>es'. reconfigure_entries p p' now es = Some es' \<and> map fst es' = map fst es \<and>
           (\<forall>k. hm_get es' k = map_option (\<lambda>e. e\<lparr>quota := the (reconfigure_quota p p' now (quota e))\<rparr>)
                                (hm_get es k))"
proof (induction es)
  case (Cons ke es)
  obtain key e where ke: "ke = (key, e)" by fastforce
  obtain q where q: "reconfigure_quota p p' now (quota e) = Some q"
    using reconfigure_quota_total [OF assms] by blast
  from Cons.IH obtain es' where es': "reconfigure_entries p p' now es = Some es'"
      "map fst es' = map fst es"
      "\<forall>k. hm_get es' k = map_option (\<lambda>e. e\<lparr>quota := the (reconfigure_quota p p' now (quota e))\<rparr>)
             (hm_get es k)" by blast
  with ke q show ?case by (auto simp: hm_get_def)
qed simp

text \<open>The quota of an identity fits the policy and its integers fit their width.\<close>

fun quota_fits :: "RateLimitPolicy \<Rightarrow> QuotaState option \<Rightarrow> bool" where
  "quota_fits p None = True"
| "quota_fits (FixedWindow _ _) (Some (FixedWindowQuota _ _)) = True"
| "quota_fits (TokenBucket c _ _) (Some (TokenBucketQuota _ _)) = (c \<le> u32_max)"
| "quota_fits _ _ = False"

lemma retry_after_in_consume:
  assumes "consume_quota cfg key now p st = Some (st', d)" and "retry_after d = Some w"
  obtains e q where "hm_get (entries st) key = Some e" and "apply_policy cfg p (quota e) now = Some (q, d)"
    and "hm_get (entries st') key = Some \<lparr>quota = q, last_seen = now\<rparr>"
proof (cases "hm_get (entries st) key")
  case (Some e)
  with assms(1) that show ?thesis
    by (auto simp: consume_quota_def hm.get_insert split: option.splits)
next
  case None
  with assms show ?thesis
    by (cases p) (auto simp: consume_quota_def initial_quota_def split: if_splits)
qed

lemma consume_after_prune_allowed:
  assumes "policy_ok p" and "state_ok cfg st" and "hm_get (entries st) key = Some e"
    and "apply_policy cfg p (quota e) now = Some (q, d)" "allowed d"
    and "prune_state cfg now p st = Some st1"
  shows "\<exists>st2 d'. consume_quota cfg key now p st1 = Some (st2, d') \<and> allowed d'"
proof -
  obtain st1' where "prune_state cfg now p st = Some st1'" "state_ok cfg st1'"
    and ch: "\<And>k. hm_get (entries st1') k = hm_get (entries st) k \<or> hm_get (entries st1') k = None"
    using prune_state_ok [OF assms(1,2)] by metis
  with assms(6) have st1: "st1' = st1" "state_ok cfg st1" by simp_all
  show ?thesis
  proof (cases "hm_get (entries st1) key")
    case None
    have "dom (hm_get (entries st1)) \<subseteq> dom (hm_get (entries st))"
      using ch st1 by (auto simp: dom_def) (metis option.distinct(1))
    then have "hm_len (entries st1) < hm_len (entries st)"
      using None assms(2,3) st1 by (intro hm_len_strict_mono [of _ _ key]) (auto simp: state_ok_def)
    then have "\<not> max_entries cfg \<le> hm_len (entries st1)" using assms(2) by (simp add: state_ok_def)
    with None show ?thesis
      by (cases p) (auto simp: consume_quota_def initial_quota_def)
  next
    case (Some e')
    with ch [of key] st1 assms(3) have "e' = e" by simp
    with Some assms(4,5) show ?thesis by (simp add: consume_quota_def)
  qed
qed

lemma reconfigure_limiter_ok:
  assumes "limiter_ok l" and "policy_ok p" and "policy (state l) \<noteq> p"
  obtains l' where "reconfigure l p now = Some l'" and "limiter_ok l'" and "policy (state l') = p"
    and "\<And>k. quota_of (state l') k =
           map_option (\<lambda>q. the (reconfigure_quota (policy (state l)) p now q)) (quota_of (state l) k)"
proof -
  let ?o = "policy (state l)"
  have ok: "policy_ok ?o" "state_ok (config l) (state l)" using assms(1) by (auto simp: limiter_ok_def)
  obtain es where es: "reconfigure_entries ?o p now (entries (state l)) = Some es"
      "map fst es = map fst (entries (state l))"
      "\<And>k. hm_get es k = map_option (\<lambda>e. e\<lparr>quota := the (reconfigure_quota ?o p now (quota e))\<rparr>)
             (hm_get (entries (state l)) k)"
    using reconfigure_entries_total [OF ok(1)] by blast
  let ?l = "l\<lparr>state := (state l)\<lparr>entries := es, policy := p\<rparr>\<rparr>"
  show ?thesis
  proof (rule that)
    show "reconfigure l p now = Some ?l" using assms(3) es(1) by (simp add: reconfigure_def)
    have "hm_len es = hm_len (entries (state l))" by (metis es(2) length_map)
    then show "limiter_ok ?l"
      using ok(2) es(2,3) assms(2) by (auto simp: limiter_ok_def state_ok_def hm_ok_def queue_ok_def)
    show "quota_of (state ?l) k = map_option (\<lambda>q. the (reconfigure_quota ?o p now q))
            (quota_of (state l) k)" for k
      using es(3) [of k] by (simp add: quota_of_def option.map_comp comp_def)
  qed simp
qed

section \<open>Properties\<close>

text \<open>C20: For an identity the limiter does not yet know, the number of requests granted up to the
  instant \<open>T\<close> never exceeds the policy's budget counted from the first instant \<open>t0\<close> of the run
  (\<open>max_requests\<close> per started window, or \<open>capacity\<close> plus one refill per whole interval), whatever
  other identities do and whatever pruning removes in between; and no check panics.\<close>

theorem admissions_within_budget:
  assumes "limiter_ok l" and "hm_get (entries (state l)) k = None"
    and "sorted (t0 # map snd evs)" and "\<forall>e \<in> set evs. snd e \<le> T"
  shows "\<exists>l' ds. check_run l evs = Some (l', ds) \<and> length ds = length evs \<and>
           admitted k evs ds \<le>
             (case policy (state l) of
                FixedWindow max_requests window \<Rightarrow> max_requests * (1 + (T - t0) div window)
              | TokenBucket capacity refill_tokens refill_interval \<Rightarrow>
                  capacity + refill_tokens * ((T - t0) div refill_interval))"
proof -
  have q: "quota_of (state l) k = None" using assms(2) by (simp add: quota_of_def)
  then have "stamped (state l) k t0" by (simp add: stamped_def)
  from check_run_budget [OF assms(1) this assms(3,4)] q show ?thesis
    by (cases "policy (state l)") auto
qed

definition example_limiter :: "RateLimitPolicy \<Rightarrow> RateLimiter" where
  "example_limiter p =
     \<lparr>config = RateLimiterConfig_new p 2,
      state = \<lparr>entries = [], prune_queue = [], next_prune_at = 0, policy = p\<rparr>\<rparr>"

lemma example_limiter_ok: "policy_ok p \<Longrightarrow> limiter_ok (example_limiter p)"
  by (simp add: limiter_ok_def example_limiter_def state_ok_def hm_ok_Nil queue_ok_def)

lemma example_limiter_simps [simp]:
  "policy (state (example_limiter p)) = p" "entries (state (example_limiter p)) = []"
  by (simp_all add: example_limiter_def)

definition example_checks :: "(string \<times> instant) list" where
  "example_checks = [(''a'', 0), (''b'', 1), (''a'', 2), (''a'', 3), (''a'', 13)]"

theorem admissions_within_budget_witness:
  "\<exists>l' ds. check_run (example_limiter (TokenBucket 2 1 10)) example_checks = Some (l', ds) \<and>
     length ds = length example_checks \<and> admitted ''a'' example_checks ds \<le> 2 + 1 * ((13 - 0) div 10)"
proof -
  have "limiter_ok (example_limiter (TokenBucket 2 1 10))" by (rule example_limiter_ok) simp
  moreover have "sorted (0 # map snd example_checks)" "\<forall>e \<in> set example_checks. snd e \<le> 13"
    by (simp_all add: example_checks_def)
  ultimately show ?thesis
    using admissions_within_budget [of "example_limiter (TokenBucket 2 1 10)" "''a''" 0 example_checks 13]
    by (simp only: example_limiter_simps hm_get_Nil RateLimitPolicy.case)
qed

text \<open>A check of a well-formed limiter under a valid policy never panics, keeps the map within
  \<open>max_entries\<close> and keeps every retained identity queued for pruning exactly once.\<close>

lemma check_preserves_limiter:
  assumes "limiter_ok l" and "policy_ok (case rp of Some p \<Rightarrow> p | None \<Rightarrow> policy (state l))"
  shows "\<exists>l' d. check_at_internal l key now rp = Some (l', d) \<and> limiter_ok l' \<and>
           hm_len (entries (state l')) \<le> max_entries (config l)"
  using check_at_internal_ok [OF assms(1), of rp] assms(2)
  by (metis limiter_ok_def requested_def state_ok_def)

text \<open>A rejection that carries a delay is honest: the same identity, checked again under the same
  policy once that delay has passed, is granted its request (even if it was pruned meanwhile).\<close>

lemma retry_granted:
  assumes "limiter_ok l" and p_ok: "policy_ok (requested l rp)"
    and "check_at_internal l key now rp = Some (l', d)" and "retry_after d = Some w" and "\<not> allowed d"
    and "quota_fits (requested l rp) (map_option quota (hm_get (entries (state l)) key))"
    and "\<forall>e. hm_get (entries (state l)) key = Some e \<longrightarrow> stamp (quota e) \<le> now"
    and later: "now + w \<le> later"
  shows "\<exists>l'' d'. check_at_internal l' key later rp = Some (l'', d') \<and> allowed d'"
proof -
  let ?p = "requested l rp"
  have key: "\<not> (key = [] \<or> MAX_KEY_BYTES < str_len key)"
    using assms(3,4) by (auto simp: check_at_internal_def)
  have ok: "state_ok (config l) (state l)" using assms(1) by (simp add: limiter_ok_def)
  obtain st1 where st1: "prune_state (config l) now ?p (state l) = Some st1"
    "state_ok (config l) st1" "policy st1 = policy (state l)"
    "hm_get (entries st1) key = hm_get (entries (state l)) key \<or> hm_get (entries st1) key = None"
    using prune_state_ok [OF p_ok ok] by metis
  from assms(3) key st1(1) obtain st2 where
    st2: "consume_quota (config l) key now ?p st1 = Some (st2, d)" "l' = l\<lparr>state := st2\<rparr>"
    by (auto simp: check_at_internal_def requested_def)
  have st2': "state_ok (config l) st2" "policy st2 = policy (state l)"
    using consume_quota_ok [OF p_ok st1(2)] st2(1) st1(3) by (metis option.inject prod.inject)+
  obtain e q where e: "hm_get (entries st1) key = Some e"
      "apply_policy (config l) ?p (quota e) now = Some (q, d)"
      "hm_get (entries st2) key = Some \<lparr>quota = q, last_seen = now\<rparr>"
    using retry_after_in_consume [OF st2(1) assms(4)] by metis
  have eq: "hm_get (entries (state l)) key = Some e" using st1(4) e(1) by simp
  have "case (?p, quota e) of (FixedWindow _ _, FixedWindowQuota _ _) \<Rightarrow> True
        | (TokenBucket c _ _, TokenBucketQuota _ _) \<Rightarrow> c \<le> u32_max | _ \<Rightarrow> False"
    using assms(6) eq by (cases ?p; cases "quota e") auto
  from apply_policy_retry [OF e(2) p_ok assms(5,4) _ later this] assms(7) eq
  obtain q2 d2 where a: "apply_policy (config l) ?p q later = Some (q2, d2)" "allowed d2" by blast
  obtain st3 where st3: "prune_state (config l) later ?p st2 = Some st3"
    using prune_state_ok [OF p_ok st2'(1)] by metis
  have "(case rp of Some p \<Rightarrow> p | None \<Rightarrow> policy (state l')) = ?p"
    using st2(2) st2'(2) by (simp add: requested_def split: option.splits)
  with consume_after_prune_allowed [OF p_ok st2'(1) e(3) _ a(2) st3] a(1)
  show ?thesis using key st2 st3 by (auto simp: check_at_internal_def Let_def)
qed

lemma retry_delay_le:
  assumes "limiter_ok l" and p_ok: "policy_ok (TokenBucket c r i)"
    and "check_at_internal l key now (Some (TokenBucket c r i)) = Some (l', d)" and "retry_after d = Some w"
    and "quota_fits (TokenBucket c r i) (map_option quota (hm_get (entries (state l)) key))"
  shows "w \<le> i"
proof -
  have key: "\<not> (key = [] \<or> MAX_KEY_BYTES < str_len key)"
    using assms(3,4) by (auto simp: check_at_internal_def)
  have ok: "state_ok (config l) (state l)" using assms(1) by (simp add: limiter_ok_def)
  obtain st1 where st1: "prune_state (config l) now (TokenBucket c r i) (state l) = Some st1"
    "hm_get (entries st1) key = hm_get (entries (state l)) key \<or> hm_get (entries st1) key = None"
    using prune_state_ok [OF p_ok ok] by metis
  from assms(3) key st1(1) obtain st2 where "consume_quota (config l) key now (TokenBucket c r i) st1 = Some (st2, d)"
    by (auto simp: check_at_internal_def)
  then obtain e q where e: "hm_get (entries st1) key = Some e"
      "apply_policy (config l) (TokenBucket c r i) (quota e) now = Some (q, d)"
    by (rule retry_after_in_consume [OF _ assms(4)])
  from e(1) st1(2) have "hm_get (entries (state l)) key = Some e" by simp
  with assms(5) have "quota_fits (TokenBucket c r i) (Some (quota e))" by simp
  then obtain t s where "quota e = TokenBucketQuota t s" by (cases "quota e") auto
  with e(2) assms(4) show ?thesis
    by (auto simp: apply_policy_def Let_def split: option.splits if_splits)
qed

text \<open>A rejection that carries a delay is honest: the same identity, checked again under the same
  policy once that delay has passed, is granted its request (even if it was pruned meanwhile).\<close>

lemma retry_after_suffices:
  assumes "limiter_ok l" and "check_at l key now = Some (l', d)" and "retry_after d = Some w"
    and "\<not> allowed d"
    and "quota_fits (policy (state l)) (map_option quota (hm_get (entries (state l)) key))"
    and "\<forall>e. hm_get (entries (state l)) key = Some e \<longrightarrow> stamp (quota e) \<le> now"
  shows "\<exists>l'' d'. check_at l' key (now + w) = Some (l'', d') \<and> allowed d'"
  using retry_granted [of l None key now l' d w "now + w"] assms
  by (simp add: check_at_def requested_def limiter_ok_def)

definition exhausted_limiter :: RateLimiter where
  "exhausted_limiter =
     \<lparr>config = RateLimiterConfig_new (FixedWindow 1 60) 2,
      state = \<lparr>entries = [(''a'', \<lparr>quota = FixedWindowQuota 5 1, last_seen = 5\<rparr>)],
               prune_queue = [''a''], next_prune_at = 1000, policy = FixedWindow 1 60\<rparr>\<rparr>"



section \<open>Every run of the limiter\<close>

datatype limiter_event =
  Check string instant "RateLimitPolicy option"
| Reconfigure RateLimitPolicy instant

fun limiter_step :: "RateLimiter \<Rightarrow> limiter_event \<Rightarrow> RateLimiter" where
  "limiter_step l (Check key now rp) =
     (case check_at_internal l key now rp of Some (l', _) \<Rightarrow> l' | None \<Rightarrow> l)"
| "limiter_step l (Reconfigure p now) = (case reconfigure l p now of Some l' \<Rightarrow> l' | None \<Rightarrow> l)"

fun limiter_event_ok :: "limiter_event \<Rightarrow> bool" where
  "limiter_event_ok (Check key now rp) = (case rp of Some p \<Rightarrow> policy_ok p | None \<Rightarrow> True)"
| "limiter_event_ok (Reconfigure p now) = policy_ok p"

lemma limiter_step_ok: "limiter_ok l \<Longrightarrow> limiter_event_ok e \<Longrightarrow> limiter_ok (limiter_step l e)"
proof (cases e)
  case (Check key now rp)
  assume l: "limiter_ok l" and e: "limiter_event_ok e"
  have "policy_ok (requested l rp)"
    using l e Check by (cases rp) (auto simp: requested_def limiter_ok_def)
  then obtain l' d where "check_at_internal l key now rp = Some (l', d)" "limiter_ok l'"
    using check_at_internal_ok [OF l] by metis
  with Check show ?thesis by simp
next
  case (Reconfigure p now)
  assume l: "limiter_ok l" and e: "limiter_event_ok e"
  show ?thesis
  proof (cases "policy (state l) = p")
    case True
    with l Reconfigure show ?thesis by (simp add: reconfigure_def)
  next
    case False
    have "policy_ok p" using e Reconfigure by simp
    then obtain l' where "reconfigure l p now = Some l'" "limiter_ok l'"
      using reconfigure_limiter_ok [OF l _ False] by metis
    with Reconfigure show ?thesis by simp
  qed
qed

interpretation limiter: machine limiter_step limiter_event_ok limiter_ok
  by unfold_locales (rule limiter_step_ok)

text \<open>A limiter that \<open>new\<close> accepts stays well formed and within its bound after every sequence of
  checks (with or without a policy snapshot) and reconfigurations under valid policies.\<close>

lemma limiter_always_bounded:
  assumes "RateLimiter_new cfg now = Inr l" and "list_all limiter_event_ok evs"
  shows "limiter_ok (run limiter_step l evs)"
  using limiter.run_inv [OF RateLimiter_new_ok [OF assms(1)] assms(2)] .

end
