(* ===== verification/RuntimeControls.thy ===== *)
theory RuntimeControls
  imports Interfaces
begin

text \<open>
  Run-time concurrency controls (\<^verbatim>\<open>src/state/runtime_controls.rs\<close>): the dynamic semaphore, as a
  sequential object and as the interleaving of the atomic accesses of its threads, and the
  circuit-breaker permits. Dropping a permit is an explicit operation.
\<close>

section \<open>The dynamic semaphore\<close>

text \<open>A \<open>usize\<close> has 64 bits on the supported targets.\<close>

record DynamicSemaphore =
  active :: nat
  limit :: nat

definition DynamicSemaphore_new :: "nat \<Rightarrow> DynamicSemaphore" where
  "DynamicSemaphore_new l = \<lparr>active = 0, limit = l\<rparr>"

text \<open>
  \<open>try_acquire_owned\<close> without interference: the compare-and-exchange succeeds and the limit
  read twice is the same. The result says whether a permit was granted.
\<close>

definition try_acquire_owned :: "DynamicSemaphore \<Rightarrow> bool \<times> DynamicSemaphore" where
  "try_acquire_owned s =
     (if limit s \<noteq> 0 \<and> limit s \<le> active s then (False, s)
      else
        case checked_add u64_max (active s) 1 of
          None \<Rightarrow> (False, s)
        | Some next_active \<Rightarrow> (True, s\<lparr>active := next_active\<rparr>))"

definition release_slot :: "DynamicSemaphore \<Rightarrow> DynamicSemaphore" where
  "release_slot s = s\<lparr>active := wrapping_sub u64_max (active s) 1\<rparr>"

text \<open>\<open>set_limit\<close> returns whether the waiters are notified.\<close>

definition set_limit :: "nat \<Rightarrow> DynamicSemaphore \<Rightarrow> bool \<times> DynamicSemaphore" where
  "set_limit l s = (l = 0 \<or> (limit s \<noteq> 0 \<and> limit s < l), s\<lparr>limit := l\<rparr>)"

text \<open>
  The same operations as interleaved atomic accesses. A thread is idle, has loaded the
  counter, has passed the limit check, has swapped the counter and not yet re-read the
  limit, or holds a permit. \<open>compare_exchange_weak\<close> may fail spuriously.
\<close>

datatype thread_pc = Idle | Loaded nat | Checked nat | Swapped nat | Holding

record sem_system =
  sem :: DynamicSemaphore
  pcs :: "thread_pc list"

inductive sem_step :: "sem_system \<Rightarrow> sem_system \<Rightarrow> bool" where
  load: "i < length (pcs s) \<Longrightarrow> pcs s ! i = Idle \<Longrightarrow>
    sem_step s (s\<lparr>pcs := (pcs s)[i := Loaded (active (sem s))]\<rparr>)"
| check_deny: "i < length (pcs s) \<Longrightarrow> pcs s ! i = Loaded a \<Longrightarrow>
    limit (sem s) \<noteq> 0 \<Longrightarrow> limit (sem s) \<le> a \<Longrightarrow>
    sem_step s (s\<lparr>pcs := (pcs s)[i := Idle]\<rparr>)"
| check_overflow: "i < length (pcs s) \<Longrightarrow> pcs s ! i = Loaded a \<Longrightarrow>
    limit (sem s) = 0 \<or> a < limit (sem s) \<Longrightarrow> checked_add u64_max a 1 = None \<Longrightarrow>
    sem_step s (s\<lparr>pcs := (pcs s)[i := Idle]\<rparr>)"
| check_pass: "i < length (pcs s) \<Longrightarrow> pcs s ! i = Loaded a \<Longrightarrow>
    limit (sem s) = 0 \<or> a < limit (sem s) \<Longrightarrow> checked_add u64_max a 1 = Some n \<Longrightarrow>
    sem_step s (s\<lparr>pcs := (pcs s)[i := Checked a]\<rparr>)"
| swap: "i < length (pcs s) \<Longrightarrow> pcs s ! i = Checked a \<Longrightarrow> active (sem s) = a \<Longrightarrow>
    sem_step s (s\<lparr>sem := (sem s)\<lparr>active := a + 1\<rparr>, pcs := (pcs s)[i := Swapped a]\<rparr>)"
| swap_fail: "i < length (pcs s) \<Longrightarrow> pcs s ! i = Checked a \<Longrightarrow>
    sem_step s (s\<lparr>pcs := (pcs s)[i := Loaded (active (sem s))]\<rparr>)"
| grant: "i < length (pcs s) \<Longrightarrow> pcs s ! i = Swapped a \<Longrightarrow>
    limit (sem s) = 0 \<or> a < limit (sem s) \<Longrightarrow>
    sem_step s (s\<lparr>pcs := (pcs s)[i := Holding]\<rparr>)"
| give_back: "i < length (pcs s) \<Longrightarrow> pcs s ! i = Swapped a \<Longrightarrow>
    limit (sem s) \<noteq> 0 \<Longrightarrow> limit (sem s) \<le> a \<Longrightarrow>
    sem_step s (s\<lparr>sem := release_slot (sem s), pcs := (pcs s)[i := Idle]\<rparr>)"
| drop_permit: "i < length (pcs s) \<Longrightarrow> pcs s ! i = Holding \<Longrightarrow>
    sem_step s (s\<lparr>sem := release_slot (sem s), pcs := (pcs s)[i := Idle]\<rparr>)"

inductive sem_set_limit :: "nat \<Rightarrow> sem_system \<Rightarrow> sem_system \<Rightarrow> bool" where
  change: "sem_set_limit l s (s\<lparr>sem := snd (set_limit l (sem s))\<rparr>)"

section \<open>Circuit-breaker permits\<close>

record CircuitBreakerRuntimeSettings =
  failure_threshold :: nat
  cooldown :: duration

record CircuitState =
  generation :: nat
  consecutive_failures :: nat
  open_until :: "instant option"
  opened_at :: "instant option"
  half_open_probe :: "nat option"

definition CircuitState_default :: CircuitState where
  "CircuitState_default =
     \<lparr>generation = 0, consecutive_failures = 0, open_until = None, opened_at = None,
      half_open_probe = None\<rparr>"

type_synonym breakers = "(string, CircuitState) hmap"

record CircuitProbePermit =
  permit_provider :: string
  permit_generation :: "nat option"
  probe_id :: "nat option"

text \<open>\<open>get_mut(..).filter(..)\<close>: the state of the permit's provider if it is still that generation.\<close>

definition current_state :: "breakers \<Rightarrow> CircuitProbePermit \<Rightarrow> CircuitState option" where
  "current_state bs p =
     (case permit_generation p of
        None \<Rightarrow> None
      | Some g \<Rightarrow>
          (case hm_get bs (permit_provider p) of
             None \<Rightarrow> None
           | Some st \<Rightarrow> if generation st = g then Some st else None))"

definition succeeded ::
  "CircuitProbePermit \<Rightarrow> breakers \<Rightarrow> CircuitProbePermit \<times> breakers" where
  "succeeded p bs =
     (p\<lparr>probe_id := None\<rparr>,
      case current_state bs p of
        None \<Rightarrow> bs
      | Some st \<Rightarrow>
          (case probe_id p of
             Some pid \<Rightarrow>
               if half_open_probe st = Some pid then
                 hm_insert (permit_provider p)
                   (st\<lparr>consecutive_failures := 0, open_until := None, opened_at := None,
                       half_open_probe := None\<rparr>) bs
               else bs
           | None \<Rightarrow>
               if open_until st = None \<and> half_open_probe st = None then
                 hm_insert (permit_provider p)
                   (st\<lparr>consecutive_failures := 0, opened_at := None\<rparr>) bs
               else bs))"

definition failed ::
  "CircuitBreakerRuntimeSettings \<Rightarrow> instant \<Rightarrow> CircuitProbePermit \<Rightarrow> breakers
     \<Rightarrow> CircuitProbePermit \<times> breakers" where
  "failed settings now p bs =
     (p\<lparr>probe_id := None\<rparr>,
      case current_state bs p of
        None \<Rightarrow> bs
      | Some st \<Rightarrow>
          (let st1 = st\<lparr>consecutive_failures := sat_add u32_max (consecutive_failures st) 1\<rparr>;
               st2 = (if failure_threshold settings \<le> consecutive_failures st1
                      then st1\<lparr>opened_at := Some now, open_until := instant_add now (cooldown settings)\<rparr>
                      else st1);
               st3 = (if probe_id p \<noteq> None \<and> half_open_probe st2 = probe_id p
                      then st2\<lparr>half_open_probe := None\<rparr> else st2)
           in hm_insert (permit_provider p) st3 bs))"

definition release_probe ::
  "CircuitProbePermit \<Rightarrow> breakers \<Rightarrow> CircuitProbePermit \<times> breakers" where
  "release_probe p bs =
     (case probe_id p of
        None \<Rightarrow> (p, bs)
      | Some pid \<Rightarrow>
          (p\<lparr>probe_id := None\<rparr>,
           case current_state bs p of
             None \<Rightarrow> bs
           | Some st \<Rightarrow>
               if half_open_probe st = Some pid
               then hm_insert (permit_provider p) (st\<lparr>half_open_probe := None\<rparr>) bs
               else bs))"

definition abort :: "CircuitProbePermit \<Rightarrow> breakers \<Rightarrow> CircuitProbePermit \<times> breakers" where
  "abort p bs = release_probe p bs"

section \<open>Every interleaving keeps the count exact\<close>

fun in_slot :: "thread_pc \<Rightarrow> bool" where
  "in_slot (Swapped _) = True"
| "in_slot Holding = True"
| "in_slot _ = False"

fun checked_below :: "nat \<Rightarrow> thread_pc \<Rightarrow> bool" where
  "checked_below m (Checked a) = (a < m)"
| "checked_below m _ = True"

definition slots :: "thread_pc list \<Rightarrow> nat" where
  "slots ts = length (filter in_slot ts)"

definition holders :: "thread_pc list \<Rightarrow> nat" where
  "holders ts = length (filter (\<lambda>t. t = Holding) ts)"

lemma length_filter_update:
  "i < length xs \<Longrightarrow>
   length (filter P (xs[i := x])) + (if P (xs ! i) then 1 else 0) =
   length (filter P xs) + (if P x then 1 else 0)"
proof (induction xs arbitrary: i)
  case (Cons y ys)
  then show ?case by (cases i) auto
qed simp

lemma slots_update [simp]:
  assumes "i < length ts"
  shows "in_slot (ts ! i) = in_slot t \<Longrightarrow> slots (ts[i := t]) = slots ts"
    and "\<not> in_slot (ts ! i) \<Longrightarrow> in_slot t \<Longrightarrow> slots (ts[i := t]) = Suc (slots ts)"
    and "in_slot (ts ! i) \<Longrightarrow> \<not> in_slot t \<Longrightarrow> slots (ts[i := t]) = slots ts - 1"
  using length_filter_update [OF assms, of in_slot t] by (auto simp: slots_def)

lemma holders_le_slots: "holders ts \<le> slots ts"
  unfolding holders_def slots_def by (induction ts) auto

lemma slots_pos: "i < length ts \<Longrightarrow> in_slot (ts ! i) \<Longrightarrow> 0 < slots ts"
  by (auto simp: slots_def filter_empty_conv)

text \<open>
  The counter is the number of threads between the exchange and the release, and a thread
  that is about to exchange has seen that the counter can grow.
\<close>

definition sem_inv :: "sem_system \<Rightarrow> bool" where
  "sem_inv s \<longleftrightarrow> active (sem s) = slots (pcs s) \<and> active (sem s) \<le> u64_max \<and>
     list_all (checked_below u64_max) (pcs s)"

text \<open>With a limit that nobody changes, the counter stays under it.\<close>

definition sem_capped :: "nat \<Rightarrow> sem_system \<Rightarrow> bool" where
  "sem_capped l s \<longleftrightarrow> limit (sem s) = l \<and> active (sem s) \<le> l \<and> list_all (checked_below l) (pcs s)"

inductive sem_reach :: "nat \<Rightarrow> nat \<Rightarrow> bool \<Rightarrow> sem_system \<Rightarrow> bool" for n l reconfigured where
  start: "sem_reach n l reconfigured \<lparr>sem = DynamicSemaphore_new l, pcs = replicate n Idle\<rparr>"
| thread: "sem_reach n l reconfigured s \<Longrightarrow> sem_step s t \<Longrightarrow> sem_reach n l reconfigured t"
| reconfigure: "sem_reach n l reconfigured s \<Longrightarrow> reconfigured \<Longrightarrow> sem_set_limit l' s t \<Longrightarrow>
    sem_reach n l reconfigured t"

lemma slots_idle [simp]: "slots (replicate n Idle) = 0"
  by (simp add: slots_def)

lemma list_all_update: "list_all P ts \<Longrightarrow> P t \<Longrightarrow> list_all P (ts[i := t])"
  by (induction ts arbitrary: i) (auto split: nat.splits)

lemma sem_step_inv: "sem_step s t \<Longrightarrow> sem_inv s \<Longrightarrow> sem_inv t"
proof (induction rule: sem_step.induct)
  case (swap i s a)
  then have "a < u64_max" by (metis checked_below.simps(1) list_all_length sem_inv_def)
  with swap show ?case by (simp add: sem_inv_def list_all_update)
next
  case (give_back i s a)
  then have "0 < slots (pcs s)" by (intro slots_pos) auto
  with give_back show ?case
    by (auto simp: sem_inv_def release_slot_def wrapping_sub_exact list_all_update)
next
  case (drop_permit i s)
  then have "0 < slots (pcs s)" by (intro slots_pos) auto
  with drop_permit show ?case
    by (auto simp: sem_inv_def release_slot_def wrapping_sub_exact list_all_update)
next
  case (check_pass i s a n)
  then have "a < u64_max" by simp
  with check_pass show ?case
    by (simp add: sem_inv_def list_all_update)
qed (simp_all add: sem_inv_def list_all_update)

lemma sem_step_capped: "sem_step s t \<Longrightarrow> sem_inv s \<Longrightarrow> 0 < l \<Longrightarrow> sem_capped l s \<Longrightarrow> sem_capped l t"
proof (induction rule: sem_step.induct)
  case (swap i s a)
  then have "a < l" by (metis checked_below.simps(1) list_all_length sem_capped_def)
  with swap show ?case by (simp add: sem_capped_def list_all_update)
next
  case (give_back i s a)
  then have "0 < slots (pcs s)" by (intro slots_pos) auto
  with give_back show ?case
    by (auto simp: sem_capped_def sem_inv_def release_slot_def wrapping_sub_exact list_all_update)
next
  case (drop_permit i s)
  then have "0 < slots (pcs s)" by (intro slots_pos) auto
  with drop_permit show ?case
    by (auto simp: sem_capped_def sem_inv_def release_slot_def wrapping_sub_exact list_all_update)
next
  case (check_pass i s a n)
  then have "a < l" by (auto simp: sem_capped_def)
  with check_pass show ?case
    by (simp add: sem_capped_def list_all_update)
qed (simp_all add: sem_capped_def list_all_update)

lemma sem_reach_inv: "sem_reach n l r s \<Longrightarrow> sem_inv s"
proof (induction rule: sem_reach.induct)
  case start
  then show ?case by (auto simp: sem_inv_def DynamicSemaphore_new_def list_all_iff)
next
  case (thread s t)
  then show ?case using sem_step_inv by blast
next
  case (reconfigure s l' t)
  then show ?case by (auto simp: sem_inv_def set_limit_def elim: sem_set_limit.cases)
qed

lemma sem_reach_capped: "sem_reach n l r s \<Longrightarrow> \<not> r \<Longrightarrow> 0 < l \<Longrightarrow> sem_capped l s"
proof (induction rule: sem_reach.induct)
  case start
  then show ?case by (auto simp: sem_capped_def DynamicSemaphore_new_def list_all_iff)
next
  case (thread s t)
  then show ?case using sem_step_capped sem_reach_inv by blast
qed simp

section \<open>Properties\<close>

text \<open>C25: Whatever the interleaving of \<open>try_acquire_owned\<close>, permit drops and limit changes over any number
  of threads, the counter of the semaphore equals the number of threads that occupy a slot, so a release
  never wraps it; and while the limit is a fixed \<open>l > 0\<close> no more than \<open>l\<close> threads hold a permit.\<close>

theorem semaphore_counts_holders:
  assumes "sem_reach n l reconfigured s"
  shows "active (sem s) = slots (pcs s) \<and> holders (pcs s) \<le> active (sem s) \<and>
         (\<not> reconfigured \<and> 0 < l \<longrightarrow> holders (pcs s) \<le> l)"
proof -
  have "active (sem s) = slots (pcs s)" using sem_reach_inv [OF assms] by (simp add: sem_inv_def)
  moreover have "active (sem s) \<le> l" if "\<not> reconfigured" "0 < l"
    using sem_reach_capped [OF assms] that by (simp add: sem_capped_def)
  ultimately show ?thesis using holders_le_slots [of "pcs s"] by auto
qed

definition example_system :: "thread_pc \<Rightarrow> nat \<Rightarrow> sem_system" where
  "example_system t a = \<lparr>sem = \<lparr>active = a, limit = 1\<rparr>, pcs = [t, Idle]\<rparr>"

lemma example_system_reach: "sem_reach 2 1 False (example_system Holding 1)"
proof -
  have "sem_reach 2 1 False (example_system Idle 0)"
    using sem_reach.start [of 2 1 False]
    by (simp add: example_system_def DynamicSemaphore_new_def numeral_2_eq_2)
  moreover have "sem_step (example_system Idle 0) (example_system (Loaded 0) 0)"
    using sem_step.load [of 0 "example_system Idle 0"] by (simp add: example_system_def)
  moreover have "sem_step (example_system (Loaded 0) 0) (example_system (Checked 0) 0)"
    using sem_step.check_pass [of 0 "example_system (Loaded 0) 0" 0 1] by (simp add: example_system_def)
  moreover have "sem_step (example_system (Checked 0) 0) (example_system (Swapped 0) 1)"
    using sem_step.swap [of 0 "example_system (Checked 0) 0" 0] by (simp add: example_system_def)
  moreover have "sem_step (example_system (Swapped 0) 1) (example_system Holding 1)"
    using sem_step.grant [of 0 "example_system (Swapped 0) 1" 0] by (simp add: example_system_def)
  ultimately show ?thesis by (meson sem_reach.thread)
qed

theorem semaphore_counts_holders_witness:
  "active (sem (example_system Holding 1)) = slots (pcs (example_system Holding 1)) \<and>
   holders (pcs (example_system Holding 1)) \<le> 1"
  using semaphore_counts_holders [OF example_system_reach] by simp

end
