(* ===== verification/RuntimeGates.thy ===== *)
theory RuntimeGates
  imports RuntimeControls
begin

text \<open>
  Admission gates of the gateway (\<^verbatim>\<open>src/state/runtime_gates.rs\<close>): the provider bulkhead, the
  circuit-breaker admission, the key cursors and the clearing of process-local state.
\<close>

definition MAX_TRACKED_PROVIDER_SEMAPHORES :: nat where
  "MAX_TRACKED_PROVIDER_SEMAPHORES = 256"

section \<open>The provider bulkhead\<close>

text \<open>
  The semaphores live behind \<open>Arc\<close>s, so the map holds addresses into a store. A stored semaphore
  has its counter and the number of handles besides the map's own: one per live permit and one
  per request that has looked it up and not yet tried to acquire it. All semaphores share one limit.
\<close>

record tracked_semaphore =
  in_flight :: nat
  handles :: nat

definition strong_count :: "tracked_semaphore \<Rightarrow> nat" where
  "strong_count s = 1 + handles s"

record bulkhead =
  semaphores :: "(string, nat) hmap"
  store :: "(nat, tracked_semaphore) hmap"
  next_address :: nat

definition bulkhead_new :: bulkhead where
  "bulkhead_new = \<lparr>semaphores = [], store = [], next_address = 0\<rparr>"

definition tracked :: "bulkhead \<Rightarrow> nat \<Rightarrow> tracked_semaphore" where
  "tracked b a = (case hm_get (store b) a of Some s \<Rightarrow> s | None \<Rightarrow> \<lparr>in_flight = 0, handles = 0\<rparr>)"

definition put :: "nat \<Rightarrow> tracked_semaphore \<Rightarrow> bulkhead \<Rightarrow> bulkhead" where
  "put a s b = b\<lparr>store := hm_insert a s (store b)\<rparr>"

definition retain_live_semaphores :: "bulkhead \<Rightarrow> bulkhead" where
  "retain_live_semaphores b =
     b\<lparr>semaphores := hm_retain (\<lambda>_ a. 1 < strong_count (tracked b a) \<or> 0 < in_flight (tracked b a)) (semaphores b)\<rparr>"

text \<open>The part of \<open>try_provider_permit\<close> under the lock: look up or create, and clone the handle.\<close>

definition provider_semaphore :: "string \<Rightarrow> bulkhead \<Rightarrow> nat option \<times> bulkhead" where
  "provider_semaphore provider_id b0 =
     (let b = retain_live_semaphores b0 in
      if \<not> hm_contains_key (semaphores b) provider_id \<and>
         MAX_TRACKED_PROVIDER_SEMAPHORES \<le> hm_len (semaphores b) then (None, b)
      else
        case hm_get (semaphores b) provider_id of
          Some a \<Rightarrow> (Some a, put a ((tracked b a)\<lparr>handles := handles (tracked b a) + 1\<rparr>) b)
        | None \<Rightarrow>
            (Some (next_address b),
             put (next_address b) \<lparr>in_flight = 0, handles = 1\<rparr>
               (b\<lparr>semaphores := hm_insert provider_id (next_address b) (semaphores b),
                  next_address := next_address b + 1\<rparr>)))"

text \<open>The acquisition through a handle, which becomes the permit's or is dropped.\<close>

definition acquire_handle :: "nat \<Rightarrow> nat \<Rightarrow> bulkhead \<Rightarrow> bool \<times> bulkhead" where
  "acquire_handle max_concurrency a b =
     (case try_acquire_owned \<lparr>active = in_flight (tracked b a), limit = max_concurrency\<rparr> of
        (True, s) \<Rightarrow> (True, put a ((tracked b a)\<lparr>in_flight := active s\<rparr>) b)
      | (False, _) \<Rightarrow> (False, put a ((tracked b a)\<lparr>handles := handles (tracked b a) - 1\<rparr>) b))"

definition try_provider_permit :: "nat \<Rightarrow> string \<Rightarrow> bulkhead \<Rightarrow> nat option \<times> bulkhead" where
  "try_provider_permit max_concurrency provider_id b0 =
     (case provider_semaphore provider_id b0 of
        (None, b) \<Rightarrow> (None, b)
      | (Some a, b) \<Rightarrow>
          (case acquire_handle max_concurrency a b of
             (True, b') \<Rightarrow> (Some a, b')
           | (False, b') \<Rightarrow> (None, b')))"

definition drop_provider_permit :: "nat \<Rightarrow> bulkhead \<Rightarrow> bulkhead" where
  "drop_provider_permit a b =
     put a ((tracked b a)\<lparr>in_flight := active (release_slot \<lparr>active = in_flight (tracked b a), limit = 0\<rparr>),
              handles := handles (tracked b a) - 1\<rparr>) b"

text \<open>The bulkhead's part of clearing a provider and of a database restore.\<close>

definition clear_provider_semaphore :: "string \<Rightarrow> bulkhead \<Rightarrow> bulkhead" where
  "clear_provider_semaphore provider_id b =
     (case hm_get (semaphores b) provider_id of
        Some a \<Rightarrow>
          if strong_count (tracked b a) = 1 \<and> in_flight (tracked b a) = 0
          then b\<lparr>semaphores := hm_remove provider_id (semaphores b)\<rparr> else b
      | None \<Rightarrow> b)"

definition clear_restored_semaphores :: "bulkhead \<Rightarrow> bulkhead" where
  "clear_restored_semaphores b =
     b\<lparr>semaphores := hm_retain (\<lambda>_ a. 0 < in_flight (tracked b a)) (semaphores b)\<rparr>"

section \<open>Circuit-breaker admission\<close>

record circuit_gates =
  circuit_breakers :: breakers
  next_circuit_state_generation :: nat
  next_circuit_probe_id :: nat

definition circuit_gates_new :: circuit_gates where
  "circuit_gates_new =
     \<lparr>circuit_breakers = [], next_circuit_state_generation = 1, next_circuit_probe_id = 1\<rparr>"

text \<open>
  \<open>fetch_update(checked_add)\<close>: the previous value, and the counter advanced, unless it is at the
  maximum. First the circuit of a provider seen for the first time is created, then the request
  is admitted, probes, or is turned away.
\<close>

definition create_circuit :: "string \<Rightarrow> circuit_gates \<Rightarrow> circuit_gates option" where
  "create_circuit provider_id g =
     (if hm_contains_key (circuit_breakers g) provider_id then Some g
      else
        case checked_add u64_max (next_circuit_state_generation g) 1 of
          None \<Rightarrow> None
        | Some next_generation \<Rightarrow>
            Some (g\<lparr>circuit_breakers :=
                      hm_insert provider_id
                        (CircuitState_default\<lparr>generation := next_circuit_state_generation g\<rparr>)
                        (circuit_breakers g),
                    next_circuit_state_generation := next_generation\<rparr>))"

definition enter_circuit ::
  "instant \<Rightarrow> string \<Rightarrow> circuit_gates \<Rightarrow> CircuitProbePermit option \<times> circuit_gates" where
  "enter_circuit now provider_id g =
     (case hm_get (circuit_breakers g) provider_id of
        None \<Rightarrow> (None, g)
      | Some st \<Rightarrow>
          (case open_until st of
             None \<Rightarrow>
               (Some \<lparr>permit_provider = provider_id, permit_generation = Some (generation st),
                      probe_id = None\<rparr>, g)
           | Some until \<Rightarrow>
               if now < until \<or> half_open_probe st \<noteq> None then (None, g)
               else
                 (case checked_add u64_max (next_circuit_probe_id g) 1 of
                    None \<Rightarrow> (None, g)
                  | Some next_id \<Rightarrow>
                      (Some \<lparr>permit_provider = provider_id, permit_generation = Some (generation st),
                             probe_id = Some (next_circuit_probe_id g)\<rparr>,
                       g\<lparr>circuit_breakers :=
                           hm_insert provider_id
                             (st\<lparr>half_open_probe := Some (next_circuit_probe_id g)\<rparr>) (circuit_breakers g),
                         next_circuit_probe_id := next_id\<rparr>))))"

definition permit_provider_with_settings ::
  "bool \<Rightarrow> instant \<Rightarrow> string \<Rightarrow> circuit_gates \<Rightarrow> CircuitProbePermit option \<times> circuit_gates" where
  "permit_provider_with_settings circuit_breaker_enabled now provider_id g =
     (if \<not> circuit_breaker_enabled then
        (Some \<lparr>permit_provider = provider_id, permit_generation = None, probe_id = None\<rparr>, g)
      else
        case create_circuit provider_id g of
          None \<Rightarrow> (None, g)
        | Some g1 \<Rightarrow> enter_circuit now provider_id g1)"

section \<open>Clearing process-local state\<close>

record gateway_gates =
  circuits :: circuit_gates
  provider_in_flight :: bulkhead
  provider_key_cursors :: "(string, string) hmap"
  round_robin :: "(string, nat) hmap"

definition provider_key_cursor :: "string \<Rightarrow> gateway_gates \<Rightarrow> string option" where
  "provider_key_cursor provider_id g = hm_get (provider_key_cursors g) provider_id"

definition set_provider_key_cursor :: "string \<Rightarrow> string \<Rightarrow> gateway_gates \<Rightarrow> gateway_gates" where
  "set_provider_key_cursor provider_id position g =
     g\<lparr>provider_key_cursors := hm_insert provider_id position (provider_key_cursors g)\<rparr>"

text \<open>
  \<open>clear_provider_runtime_state\<close>, on the gates. The usage caches it also clears are in the
  theories of the usage runtime and of the request counter.
\<close>

definition clear_provider_gates :: "string \<Rightarrow> gateway_gates \<Rightarrow> gateway_gates" where
  "clear_provider_gates provider_id g =
     g\<lparr>circuits := (circuits g)\<lparr>circuit_breakers := hm_remove provider_id (circuit_breakers (circuits g))\<rparr>,
       provider_in_flight := clear_provider_semaphore provider_id (provider_in_flight g),
       provider_key_cursors := hm_remove provider_id (provider_key_cursors g)\<rparr>"

definition clear_route_runtime_state :: "string \<Rightarrow> gateway_gates \<Rightarrow> gateway_gates" where
  "clear_route_runtime_state route_id g = g\<lparr>round_robin := hm_remove route_id (round_robin g)\<rparr>"

definition clear_restored_gates :: "gateway_gates \<Rightarrow> gateway_gates" where
  "clear_restored_gates g =
     g\<lparr>circuits := (circuits g)\<lparr>circuit_breakers := []\<rparr>,
       round_robin := [],
       provider_key_cursors := [],
       provider_in_flight := clear_restored_semaphores (provider_in_flight g)\<rparr>"

section \<open>The circuit breaker and the permits in flight\<close>

text \<open>
  The breakers together with the permits that requests hold, each under a number of its own.
  A permit is settled by \<open>succeeded\<close>, \<open>failed\<close> or \<open>abort\<close>, any number of times, and finally dropped.
\<close>

record circuit_system =
  gates :: circuit_gates
  live :: "(nat, CircuitProbePermit) hmap"
  next_permit :: nat

datatype circuit_event =
    Admit bool instant string
  | Succeed nat
  | Fail CircuitBreakerRuntimeSettings instant nat
  | Abort nat
  | Drop nat
  | Clear string
  | ClearAll

definition circuit_start :: circuit_system where
  "circuit_start = \<lparr>gates = circuit_gates_new, live = [], next_permit = 0\<rparr>"

definition settle ::
  "(CircuitProbePermit \<Rightarrow> breakers \<Rightarrow> CircuitProbePermit \<times> breakers) \<Rightarrow> nat \<Rightarrow> circuit_system
     \<Rightarrow> circuit_system" where
  "settle f k s =
     (case hm_get (live s) k of
        None \<Rightarrow> s
      | Some p \<Rightarrow>
          s\<lparr>gates := (gates s)\<lparr>circuit_breakers := snd (f p (circuit_breakers (gates s)))\<rparr>,
            live := hm_insert k (fst (f p (circuit_breakers (gates s)))) (live s)\<rparr>)"

fun circuit_step :: "circuit_system \<Rightarrow> circuit_event \<Rightarrow> circuit_system" where
  "circuit_step s (Admit enabled now provider_id) =
     (case permit_provider_with_settings enabled now provider_id (gates s) of
        (None, g) \<Rightarrow> s\<lparr>gates := g\<rparr>
      | (Some p, g) \<Rightarrow>
          s\<lparr>gates := g, live := hm_insert (next_permit s) p (live s), next_permit := next_permit s + 1\<rparr>)"
| "circuit_step s (Succeed k) = settle succeeded k s"
| "circuit_step s (Fail settings now k) = settle (failed settings now) k s"
| "circuit_step s (Abort k) = settle abort k s"
| "circuit_step s (Drop k) = (let t = settle release_probe k s in t\<lparr>live := hm_remove k (live t)\<rparr>)"
| "circuit_step s (Clear provider_id) =
     s\<lparr>gates := (gates s)\<lparr>circuit_breakers := hm_remove provider_id (circuit_breakers (gates s))\<rparr>\<rparr>"
| "circuit_step s ClearAll = s\<lparr>gates := (gates s)\<lparr>circuit_breakers := []\<rparr>\<rparr>"

text \<open>What the probe protocol sees of a provider's circuit: its generation and its probe.\<close>

definition probe_view :: "breakers \<Rightarrow> string \<Rightarrow> (nat \<times> nat option) option" where
  "probe_view bs pr = map_option (\<lambda>st. (generation st, half_open_probe st)) (hm_get bs pr)"

definition clear_probe :: "CircuitProbePermit \<Rightarrow> string \<Rightarrow> nat \<times> nat option \<Rightarrow> nat \<times> nat option" where
  "clear_probe p pr = (\<lambda>(g, h).
     (g, if pr = permit_provider p \<and> permit_generation p = Some g \<and> h = probe_id p then None else h))"

definition settles ::
  "(CircuitProbePermit \<Rightarrow> breakers \<Rightarrow> CircuitProbePermit \<times> breakers) \<Rightarrow> bool" where
  "settles f \<longleftrightarrow> (\<forall>p bs. fst (f p bs) = p\<lparr>probe_id := None\<rparr> \<and>
     (\<forall>pr. probe_view (snd (f p bs)) pr = map_option (clear_probe p pr) (probe_view bs pr)))"

lemmas view_simps = probe_view_def clear_probe_def current_state_def hm_simps

lemma settles_succeeded: "settles succeeded"
proof -
  have "probe_view (snd (succeeded p bs)) pr = map_option (clear_probe p pr) (probe_view bs pr)" for p bs pr
    by (cases "hm_get bs pr"; cases "permit_generation p"; cases "probe_id p")
      (auto simp: succeeded_def view_simps split: option.splits)
  then show ?thesis by (simp add: settles_def succeeded_def)
qed

lemma settles_failed: "settles (failed settings now)"
proof -
  have "probe_view (snd (failed settings now p bs)) pr = map_option (clear_probe p pr) (probe_view bs pr)"
    for p bs pr
    by (cases "hm_get bs pr"; cases "permit_generation p"; cases "probe_id p")
      (auto simp: failed_def view_simps Let_def split: option.splits)
  then show ?thesis by (simp add: settles_def failed_def)
qed

lemma settles_release: "settles release_probe"
proof -
  have "probe_view (snd (release_probe p bs)) pr = map_option (clear_probe p pr) (probe_view bs pr)"
    for p bs pr
    by (cases "hm_get bs pr"; cases "permit_generation p"; cases "probe_id p")
      (auto simp: release_probe_def view_simps split: option.splits)
  then show ?thesis by (simp add: settles_def release_probe_def split: option.splits)
qed

lemma settles_abort: "settles abort"
  using settles_release by (simp add: settles_def abort_def)

text \<open>
  The protocol's invariant: a marked probe is held by a live permit, a live probe of the
  current generation is the marked one, and no two permits share a probe or probe the same
  generation.
\<close>

type_synonym view = "string \<Rightarrow> (nat \<times> nat option) option"
type_synonym permits = "nat \<Rightarrow> CircuitProbePermit option"

definition probe_held :: "view \<Rightarrow> permits \<Rightarrow> bool" where
  "probe_held v L \<longleftrightarrow> (\<forall>pr g pid. v pr = Some (g, Some pid) \<longrightarrow>
     (\<exists>k p. L k = Some p \<and> permit_provider p = pr \<and> permit_generation p = Some g \<and> probe_id p = Some pid))"

definition probe_marked :: "view \<Rightarrow> permits \<Rightarrow> bool" where
  "probe_marked v L \<longleftrightarrow> (\<forall>k p pid g h. L k = Some p \<and> probe_id p = Some pid \<and>
     permit_generation p = Some g \<and> v (permit_provider p) = Some (g, h) \<longrightarrow> h = Some pid)"

definition probe_unique :: "permits \<Rightarrow> bool" where
  "probe_unique L \<longleftrightarrow> (\<forall>k p k' p'. L k = Some p \<and> L k' = Some p' \<and> probe_id p \<noteq> None \<and> probe_id p' \<noteq> None \<and>
     (probe_id p = probe_id p' \<or>
      permit_provider p = permit_provider p' \<and> permit_generation p = permit_generation p') \<longrightarrow> k = k')"

definition probe_fresh :: "view \<Rightarrow> permits \<Rightarrow> nat \<Rightarrow> nat \<Rightarrow> bool" where
  "probe_fresh v L np ng \<longleftrightarrow> (\<forall>k p pid. L k = Some p \<and> probe_id p = Some pid \<longrightarrow> pid < np) \<and>
     (\<forall>k p. L k = Some p \<and> probe_id p \<noteq> None \<longrightarrow> permit_generation p \<noteq> None) \<and>
     (\<forall>pr g h. v pr = Some (g, h) \<longrightarrow> g < ng) \<and>
     (\<forall>k p g. L k = Some p \<and> permit_generation p = Some g \<longrightarrow> g < ng)"

definition probes_ok :: "view \<Rightarrow> permits \<Rightarrow> nat \<Rightarrow> nat \<Rightarrow> bool" where
  "probes_ok v L np ng \<longleftrightarrow> probe_held v L \<and> probe_marked v L \<and> probe_unique L \<and> probe_fresh v L np ng"

lemma probe_heldI:
  "(\<And>pr g pid. v pr = Some (g, Some pid) \<Longrightarrow>
     \<exists>k p. L k = Some p \<and> permit_provider p = pr \<and> permit_generation p = Some g \<and> probe_id p = Some pid) \<Longrightarrow>
   probe_held v L"
  by (simp add: probe_held_def)

lemma probe_heldE:
  assumes "probe_held v L" and "v pr = Some (g, Some pid)"
  obtains k p where "L k = Some p" "permit_provider p = pr" "permit_generation p = Some g" "probe_id p = Some pid"
  using assms unfolding probe_held_def by blast

lemma probe_markedI:
  "(\<And>k p pid g h. L k = Some p \<Longrightarrow> probe_id p = Some pid \<Longrightarrow> permit_generation p = Some g \<Longrightarrow>
     v (permit_provider p) = Some (g, h) \<Longrightarrow> h = Some pid) \<Longrightarrow> probe_marked v L"
  unfolding probe_marked_def by blast

lemma probe_markedD:
  "probe_marked v L \<Longrightarrow> L k = Some p \<Longrightarrow> probe_id p = Some pid \<Longrightarrow> permit_generation p = Some g \<Longrightarrow>
     v (permit_provider p) = Some (g, h) \<Longrightarrow> h = Some pid"
  unfolding probe_marked_def by blast

lemma probe_freshI:
  "(\<And>k p pid. L k = Some p \<Longrightarrow> probe_id p = Some pid \<Longrightarrow> pid < np \<and> permit_generation p \<noteq> None) \<Longrightarrow>
   (\<And>pr g h. v pr = Some (g, h) \<Longrightarrow> g < ng) \<Longrightarrow>
   (\<And>k p g. L k = Some p \<Longrightarrow> permit_generation p = Some g \<Longrightarrow> g < ng) \<Longrightarrow> probe_fresh v L np ng"
  unfolding probe_fresh_def by blast

lemma probe_freshD:
  assumes "probe_fresh v L np ng"
  shows "L k = Some p \<Longrightarrow> probe_id p = Some pid \<Longrightarrow> pid < np"
    and "L k = Some p \<Longrightarrow> probe_id p = Some pid \<Longrightarrow> permit_generation p \<noteq> None"
    and "v pr = Some (g, h) \<Longrightarrow> g < ng"
    and "L k = Some p \<Longrightarrow> permit_generation p = Some g \<Longrightarrow> g < ng"
  using assms unfolding probe_fresh_def by blast+

lemma clear_probe_held:
  "map_option (clear_probe p pr) x = Some (g, Some pid) \<longleftrightarrow>
     x = Some (g, Some pid) \<and>
     \<not> (pr = permit_provider p \<and> permit_generation p = Some g \<and> probe_id p = Some pid)"
proof (cases x)
  case (Some y)
  then show ?thesis by (cases y; cases "snd y") (auto simp: clear_probe_def)
qed simp

lemma clear_probe_generation: "map_option (clear_probe p pr) x = Some (g, h) \<Longrightarrow> \<exists>h'. x = Some (g, h')"
  by (cases x) (auto simp: clear_probe_def)

lemma probes_okD:
  "probes_ok v L np ng \<Longrightarrow> probe_held v L" "probes_ok v L np ng \<Longrightarrow> probe_marked v L"
  "probes_ok v L np ng \<Longrightarrow> probe_unique L" "probes_ok v L np ng \<Longrightarrow> probe_fresh v L np ng"
  by (simp_all add: probes_ok_def)

lemma probe_marked_mono:
  "probe_marked v L \<Longrightarrow> (\<And>k q. L' k = Some q \<Longrightarrow> probe_id q \<noteq> None \<Longrightarrow> L k = Some q) \<Longrightarrow>
   (\<And>pr y. v' pr = Some y \<Longrightarrow> v pr = Some y) \<Longrightarrow> probe_marked v' L'"
  by (rule probe_markedI) (metis option.distinct(1) probe_markedD)

lemma probe_unique_mono:
  "probe_unique L \<Longrightarrow> (\<And>k q. L' k = Some q \<Longrightarrow> probe_id q \<noteq> None \<Longrightarrow> L k = Some q) \<Longrightarrow> probe_unique L'"
  unfolding probe_unique_def by meson

lemma probe_held_mono:
  "probe_held v L \<Longrightarrow> (\<And>k q. L k = Some q \<Longrightarrow> probe_id q \<noteq> None \<Longrightarrow> L' k = Some q) \<Longrightarrow>
   (\<And>pr y. v' pr = Some y \<Longrightarrow> v pr = Some y) \<Longrightarrow> probe_held v' L'"
  by (rule probe_heldI) (metis option.distinct(1) probe_heldE)

lemma probes_settle:
  assumes "probes_ok v L np ng" and k: "L k = Some p"
  shows "probes_ok (\<lambda>pr. map_option (clear_probe p pr) (v pr)) (L(k \<mapsto> p\<lparr>probe_id := None\<rparr>)) np ng"
    (is "probes_ok ?v ?L np ng")
  unfolding probes_ok_def
proof (intro conjI)
  note ok = probes_okD [OF assms(1)]
  have was: "?L k' = Some q \<Longrightarrow> probe_id q \<noteq> None \<Longrightarrow> k' \<noteq> k \<and> L k' = Some q" for k' q
    by (auto split: if_splits)
  show "probe_held ?v ?L"
  proof (rule probe_heldI)
    fix pr g pid
    assume "?v pr = Some (g, Some pid)"
    then have v: "v pr = Some (g, Some pid)"
      and other: "\<not> (pr = permit_provider p \<and> permit_generation p = Some g \<and> probe_id p = Some pid)"
      unfolding clear_probe_held by blast+
    obtain k' q where q: "L k' = Some q" "permit_provider q = pr"
      "permit_generation q = Some g" "probe_id q = Some pid" using probe_heldE [OF ok(1) v] .
    with other k have "k' \<noteq> k" by auto
    with q have "?L k' = Some q" by simp
    with q show "\<exists>k' q. ?L k' = Some q \<and> permit_provider q = pr \<and>
        permit_generation q = Some g \<and> probe_id q = Some pid" by blast
  qed
  show "probe_marked ?v ?L"
  proof (rule probe_markedI)
    fix k' q pid g h
    assume a: "?L k' = Some q" "probe_id q = Some pid" "permit_generation q = Some g"
        "?v (permit_provider q) = Some (g, h)"
    have q: "k' \<noteq> k" "L k' = Some q" using was [OF a(1)] a(2) by simp_all
    obtain h' where h': "v (permit_provider q) = Some (g, h')"
      using clear_probe_generation a(4) by blast
    then have "h' = Some pid" using probe_markedD [OF ok(2) q(2) a(2,3)] by simp
    moreover have "probe_id p \<noteq> Some pid"
      using ok(3) q k a(2) unfolding probe_unique_def by (metis option.distinct(1))
    ultimately show "h = Some pid" using h' a(4) by (auto simp: clear_probe_def)
  qed
  show "probe_unique ?L" using ok(3) by (rule probe_unique_mono) (use was in blast)
  show "probe_fresh ?v ?L np ng"
  proof (rule probe_freshI)
    show "g < ng" if "?v pr = Some (g, h)" for pr g h
      using clear_probe_generation [OF that] probe_freshD(3) [OF ok(4)] by blast
    show "g < ng" if "?L k' = Some q" "permit_generation q = Some g" for k' q g
      using that probe_freshD(4) [OF ok(4)] k by (auto split: if_splits)
  qed (use was probe_freshD(1,2) [OF ok(4)] in blast)
qed

lemma probes_drop:
  assumes "probes_ok v L np ng" and "L k = Some p" and "probe_id p = None"
  shows "probes_ok v (L(k := None)) np ng"
  unfolding probes_ok_def
proof (intro conjI)
  note ok = probes_okD [OF assms(1)]
  have was: "(L(k := None)) k' = Some q \<Longrightarrow> L k' = Some q" for k' q by (auto split: if_splits)
  show "probe_held v (L(k := None))" using ok(1) by (rule probe_held_mono) (use assms(2,3) in auto)
  show "probe_marked v (L(k := None))" using ok(2) by (rule probe_marked_mono) (use was in auto)
  show "probe_unique (L(k := None))" using ok(3) by (rule probe_unique_mono) (use was in auto)
  show "probe_fresh v (L(k := None)) np ng"
    by (rule probe_freshI) (use was probe_freshD [OF ok(4)] in blast)+
qed

lemma probes_clear:
  assumes "probes_ok v L np ng" and v: "\<And>pr y. v' pr = Some y \<Longrightarrow> v pr = Some y"
  shows "probes_ok v' L np ng"
  unfolding probes_ok_def
proof (intro conjI)
  note ok = probes_okD [OF assms(1)]
  show "probe_held v' L" using ok(1) by (rule probe_held_mono) (use v in auto)
  show "probe_marked v' L" using ok(2) by (rule probe_marked_mono) (use v in auto)
  show "probe_unique L" by (rule ok(3))
  show "probe_fresh v' L np ng" by (rule probe_freshI) (use v probe_freshD [OF ok(4)] in blast)+
qed

lemma probes_create:
  assumes "probes_ok v L np ng" and "v pr = None"
  shows "probes_ok (v(pr \<mapsto> (ng, None))) L np (Suc ng)" (is "probes_ok ?v _ _ _")
  unfolding probes_ok_def
proof (intro conjI)
  note ok = probes_okD [OF assms(1)]
  have view: "?v pr' = Some (g, h) \<Longrightarrow> v pr' = Some (g, h) \<or> g = ng \<and> h = None" for pr' g h
    by (auto split: if_splits)
  show "probe_held ?v L" by (rule probe_heldI) (metis view ok(1) probe_heldE option.distinct(1))
  show "probe_marked ?v L"
    by (rule probe_markedI) (metis view probe_markedD [OF ok(2)] probe_freshD(4) [OF ok(4)] less_irrefl)
  show "probe_unique L" by (rule ok(3))
  show "probe_fresh ?v L np (Suc ng)"
    by (rule probe_freshI)
      (metis probe_freshD(1,2) [OF ok(4)], metis view probe_freshD(3) [OF ok(4)] less_Suc_eq,
       metis probe_freshD(4) [OF ok(4)] less_Suc_eq)
qed

lemma probes_admit:
  assumes "probes_ok v L np ng" and "L k = None" and "probe_id p = None"
    and "\<And>g. permit_generation p = Some g \<Longrightarrow> g < ng"
  shows "probes_ok v (L(k \<mapsto> p)) np ng"
  unfolding probes_ok_def
proof (intro conjI)
  note ok = probes_okD [OF assms(1)]
  have was: "(L(k \<mapsto> p)) k' = Some q \<Longrightarrow> q = p \<or> L k' = Some q" for k' q by (auto split: if_splits)
  show "probe_held v (L(k \<mapsto> p))" using ok(1) by (rule probe_held_mono) (use assms(2) in auto)
  show "probe_marked v (L(k \<mapsto> p))" using ok(2) by (rule probe_marked_mono) (metis was assms(3))
  show "probe_unique (L(k \<mapsto> p))" using ok(3) by (rule probe_unique_mono) (metis was assms(3))
  show "probe_fresh v (L(k \<mapsto> p)) np ng"
    by (rule probe_freshI) (metis was assms(3,4) probe_freshD [OF ok(4)] option.distinct(1))+
qed

lemma probes_probe:
  assumes "probes_ok v L np ng" and k: "L k = None" and v: "v pr = Some (g, None)"
  shows "probes_ok (v(pr \<mapsto> (g, Some np)))
           (L(k \<mapsto> \<lparr>permit_provider = pr, permit_generation = Some g, probe_id = Some np\<rparr>)) (Suc np) ng"
    (is "probes_ok ?v (L(k \<mapsto> ?p)) _ _")
  unfolding probes_ok_def
proof (intro conjI)
  let ?L = "L(k \<mapsto> ?p)"
  note ok = probes_okD [OF assms(1)]
  have was: "?L k' = Some q \<Longrightarrow> k' = k \<and> q = ?p \<or> L k' = Some q" for k' q by (auto split: if_splits)
  have view: "?v pr' = Some y \<Longrightarrow> pr' = pr \<and> y = (g, Some np) \<or> pr' \<noteq> pr \<and> v pr' = Some y" for pr' y
    by (auto split: if_splits)
  have alone: "probe_id q = None" if "L k' = Some q" "permit_provider q = pr" "permit_generation q = Some g"
    for k' q using probe_markedD [OF ok(2) that(1) _ that(3)] that(2) v by (cases "probe_id q") auto
  have below: "probe_id q \<noteq> Some np" if "L k' = Some q" for k' q
    using probe_freshD(1) [OF ok(4) that] by auto
  show "probe_held ?v ?L"
  proof (rule probe_heldI)
    fix pr' g' pid
    assume a: "?v pr' = Some (g', Some pid)"
    show "\<exists>k' q. ?L k' = Some q \<and> permit_provider q = pr' \<and> permit_generation q = Some g' \<and> probe_id q = Some pid"
    proof (cases "pr' = pr")
      case True
      with a show ?thesis by (intro exI [of _ k] exI [of _ ?p]) auto
    next
      case False
      with a have "v pr' = Some (g', Some pid)" by simp
      then obtain k' q where "L k' = Some q" "permit_provider q = pr'"
        "permit_generation q = Some g'" "probe_id q = Some pid" using probe_heldE [OF ok(1)] by blast
      with k show ?thesis by (intro exI [of _ k'] exI [of _ q]) auto
    qed
  qed
  show "probe_marked ?v ?L"
  proof (rule probe_markedI)
    fix k' q pid g' h
    assume a: "?L k' = Some q" "probe_id q = Some pid" "permit_generation q = Some g'"
      "?v (permit_provider q) = Some (g', h)"
    show "h = Some pid"
    proof (cases "permit_provider q = pr")
      case True
      with a(4) have "g' = g" "h = Some np" by auto
      with was [OF a(1)] a(2,3) alone [of k' q] True show ?thesis
        by (metis CircuitProbePermit.select_convs(3) option.distinct(1))
    next
      case False
      with was [OF a(1)] have "L k' = Some q" by auto
      with False a(2-4) show ?thesis using probe_markedD [OF ok(2)] by auto
    qed
  qed
  show "probe_unique ?L"
    unfolding probe_unique_def
  proof (intro allI impI, elim conjE)
    fix k1 p1 k2 p2
    assume a: "?L k1 = Some p1" "?L k2 = Some p2" "probe_id p1 \<noteq> None" "probe_id p2 \<noteq> None"
      "probe_id p1 = probe_id p2 \<or>
        permit_provider p1 = permit_provider p2 \<and> permit_generation p1 = permit_generation p2"
    show "k1 = k2"
    proof (cases "k1 = k \<or> k2 = k")
      case True
      with a was [of k1 p1] was [of k2 p2] k alone [of k1 p1] alone [of k2 p2] below [of k1 p1] below [of k2 p2]
      show ?thesis by auto
    next
      case False
      with a ok(3) show ?thesis unfolding probe_unique_def by (metis fun_upd_apply)
    qed
  qed
  show "probe_fresh ?v ?L (Suc np) ng"
  proof (rule probe_freshI)
    show "pid < Suc np \<and> permit_generation q \<noteq> None" if "?L k' = Some q" "probe_id q = Some pid" for k' q pid
      using was [OF that(1)] that(2) probe_freshD(1,2) [OF ok(4), of k' q pid] by auto
    show "g' < ng" if "?v pr' = Some (g', h)" for pr' g' h
      using view [OF that] probe_freshD(3) [OF ok(4)] v by blast
    show "g' < ng" if "?L k' = Some q" "permit_generation q = Some g'" for k' q g'
      using was [OF that(1)] that(2) probe_freshD(3,4) [OF ok(4)] v by auto
  qed
qed

lemma probe_view_insert:
  "probe_view (hm_insert pr st bs) = (probe_view bs)(pr \<mapsto> (generation st, half_open_probe st))"
  by (auto simp: fun_eq_iff probe_view_def hm.get_insert)

lemma hm_get_insert_fun: "hm_get (hm_insert k v m) = (hm_get m)(k \<mapsto> v)"
  by (auto simp: fun_eq_iff hm.get_insert)

lemma hm_get_remove_fun: "hm_get (hm_remove k m) = (hm_get m)(k := None)"
  by (auto simp: fun_eq_iff hm.get_remove)

definition gates_ok :: "circuit_gates \<Rightarrow> permits \<Rightarrow> bool" where
  "gates_ok g L = probes_ok (probe_view (circuit_breakers g)) L (next_circuit_probe_id g)
     (next_circuit_state_generation g)"

lemma create_circuit_ok: "create_circuit pr g = Some g1 \<Longrightarrow> gates_ok g L \<Longrightarrow> gates_ok g1 L"
  unfolding create_circuit_def gates_ok_def
  by (auto simp: probe_view_insert CircuitState_default_def hm_contains_key_def probe_view_def
      intro!: probes_create split: if_splits option.splits)

lemma enter_circuit_ok:
  assumes ok: "gates_ok g L" and k: "L k = None" and r: "enter_circuit now pr g = (r, g')"
  shows "gates_ok g' (case r of None \<Rightarrow> L | Some p \<Rightarrow> L(k \<mapsto> p))"
proof (cases "hm_get (circuit_breakers g) pr")
  case None
  with ok r show ?thesis by (auto simp: enter_circuit_def)
next
  case (Some st)
  then have v: "probe_view (circuit_breakers g) pr = Some (generation st, half_open_probe st)"
    by (simp add: probe_view_def)
  then have "generation st < next_circuit_state_generation g"
    using probe_freshD(3) [OF probes_okD(4) [OF ok [unfolded gates_ok_def]]] by simp
  then have plain: "gates_ok g (L(k \<mapsto> \<lparr>permit_provider = pr, permit_generation = Some (generation st),
      probe_id = None\<rparr>))"
    using ok k by (auto simp: gates_ok_def intro: probes_admit)
  have probe: "half_open_probe st = None \<Longrightarrow> gates_ok (g\<lparr>circuit_breakers :=
        hm_insert pr (st\<lparr>half_open_probe := Some (next_circuit_probe_id g)\<rparr>) (circuit_breakers g),
        next_circuit_probe_id := Suc (next_circuit_probe_id g)\<rparr>)
      (L(k \<mapsto> \<lparr>permit_provider = pr, permit_generation = Some (generation st),
        probe_id = Some (next_circuit_probe_id g)\<rparr>))"
    using ok k v by (simp add: gates_ok_def probe_view_insert probes_probe)
  show ?thesis
    using r Some plain probe ok by (auto simp: enter_circuit_def split: option.splits if_splits)
qed

lemma permit_provider_ok:
  assumes "gates_ok g L" and "L k = None"
    and "permit_provider_with_settings enabled now pr g = (r, g')"
  shows "gates_ok g' (case r of None \<Rightarrow> L | Some p \<Rightarrow> L(k \<mapsto> p))"
proof (cases enabled)
  case False
  with assms show ?thesis
    by (auto simp: permit_provider_with_settings_def gates_ok_def simp del: fun_upd_apply intro!: probes_admit)
next
  case True
  show ?thesis
  proof (cases "create_circuit pr g")
    case None
    with True assms show ?thesis by (auto simp: permit_provider_with_settings_def)
  next
    case (Some g1)
    with True assms(3) have "enter_circuit now pr g1 = (r, g')"
      by (simp add: permit_provider_with_settings_def)
    with enter_circuit_ok [where k = k, OF create_circuit_ok [OF Some assms(1)] assms(2)]
    show ?thesis by blast
  qed
qed

definition circuit_inv :: "circuit_system \<Rightarrow> bool" where
  "circuit_inv s \<longleftrightarrow> gates_ok (gates s) (hm_get (live s)) \<and>
     (\<forall>k. hm_get (live s) k \<noteq> None \<longrightarrow> k < next_permit s)"

lemma settlesD:
  assumes "settles f"
  shows "fst (f p bs) = p\<lparr>probe_id := None\<rparr>"
    and "probe_view (snd (f p bs)) = (\<lambda>pr. map_option (clear_probe p pr) (probe_view bs pr))"
  using assms by (simp_all add: settles_def fun_eq_iff)

lemma settle_inv:
  assumes "settles f" and "circuit_inv s"
  shows "circuit_inv (settle f k s)"
proof (cases "hm_get (live s) k")
  case (Some p)
  with assms(2) have "gates_ok (gates (settle f k s)) (hm_get (live (settle f k s)))"
    by (simp add: circuit_inv_def settle_def gates_ok_def settlesD [OF assms(1)] hm_get_insert_fun
        probes_settle)
  with Some assms(2) show ?thesis by (auto simp: circuit_inv_def settle_def hm.get_insert split: if_splits)
qed (use assms(2) in \<open>simp add: settle_def\<close>)

lemma settle_lookup:
  "settles f \<Longrightarrow> hm_get (live (settle f k s)) k = map_option (probe_id_update (\<lambda>_. None)) (hm_get (live s) k)"
  by (auto simp: settle_def settlesD hm.get_insert split: option.splits)

lemma drop_inv:
  assumes "circuit_inv s"
  shows "circuit_inv (circuit_step s (Drop k))"
proof -
  let ?t = "settle release_probe k s"
  have t: "circuit_inv ?t" using settle_inv [OF settles_release assms] .
  have none: "\<And>p. hm_get (live ?t) k = Some p \<Longrightarrow> probe_id p = None"
    by (auto simp: settle_lookup [OF settles_release])
  have "gates_ok (gates ?t) ((hm_get (live ?t))(k := None))"
  proof (cases "hm_get (live ?t) k")
    case None
    then have "(hm_get (live ?t))(k := None) = hm_get (live ?t)" by auto
    with t show ?thesis by (simp add: circuit_inv_def)
  next
    case (Some p)
    with t none show ?thesis by (simp add: circuit_inv_def gates_ok_def probes_drop)
  qed
  with t show ?thesis by (auto simp: circuit_inv_def Let_def hm_get_remove_fun)
qed

lemma clear_inv: "circuit_inv s \<Longrightarrow> circuit_inv (circuit_step s (Clear pr))"
  "circuit_inv s \<Longrightarrow> circuit_inv (circuit_step s ClearAll)"
  by (auto simp: circuit_inv_def gates_ok_def probe_view_def hm.get_remove elim!: probes_clear
      split: if_splits)

lemma admit_inv:
  assumes inv: "circuit_inv s"
  shows "circuit_inv (circuit_step s (Admit enabled now pr))"
proof -
  obtain r g' where r: "permit_provider_with_settings enabled now pr (gates s) = (r, g')" by fastforce
  have "hm_get (live s) (next_permit s) = None" using inv by (auto simp: circuit_inv_def)
  then have "gates_ok g' (case r of None \<Rightarrow> hm_get (live s) | Some p \<Rightarrow> (hm_get (live s))(next_permit s \<mapsto> p))"
    using permit_provider_ok [where k = "next_permit s" and L = "hm_get (live s)", OF _ _ r] inv
    by (simp add: circuit_inv_def)
  with inv r show ?thesis
    by (cases r) (auto simp: circuit_inv_def hm_get_insert_fun less_Suc_eq)
qed

lemma circuit_step_inv: "circuit_inv s \<Longrightarrow> circuit_inv (circuit_step s e)"
  by (cases e) (simp_all only: circuit_step.simps(2-4) settle_inv settles_succeeded settles_failed
      settles_abort drop_inv clear_inv admit_inv)

lemma circuit_start_inv: "circuit_inv circuit_start"
  by (simp add: circuit_inv_def circuit_start_def gates_ok_def circuit_gates_new_def probes_ok_def
      probe_held_def probe_marked_def probe_unique_def probe_fresh_def probe_view_def)

interpretation circuit: machine circuit_step "\<lambda>_. True" circuit_inv
  by unfold_locales (rule circuit_step_inv)

lemma circuit_run_inv: "circuit_inv (run circuit_step circuit_start es)"
  by (rule circuit.run_inv) (simp_all add: circuit_start_inv list_all_iff)

text \<open>An open circuit: it admits nobody before \<open>u\<close> and has no probe in flight.\<close>

definition open_until_at_least :: "string \<Rightarrow> instant \<Rightarrow> circuit_system \<Rightarrow> bool" where
  "open_until_at_least pr u s \<longleftrightarrow>
     (case hm_get (circuit_breakers (gates s)) pr of
        None \<Rightarrow> False
      | Some st \<Rightarrow> half_open_probe st = None \<and> (\<exists>w \<ge> u. open_until st = Some w))"

definition permits_of :: "string \<Rightarrow> circuit_system \<Rightarrow> nat set" where
  "permits_of pr s = {k. \<exists>p. hm_get (live s) k = Some p \<and> permit_provider p = pr}"

fun before_deadline :: "string \<Rightarrow> instant \<Rightarrow> circuit_event \<Rightarrow> bool" where
  "before_deadline pr u (Admit enabled now pr') = (pr' = pr \<longrightarrow> enabled \<and> now < u)"
| "before_deadline pr u (Fail settings now k) = (u \<le> now + cooldown settings \<and> now + cooldown settings \<le> instant_max)"
| "before_deadline pr u (Clear pr') = (pr' \<noteq> pr)"
| "before_deadline pr u ClearAll = False"
| "before_deadline pr u _ = True"

definition stays_open :: "string \<Rightarrow> instant \<Rightarrow> nat set \<Rightarrow> circuit_system \<Rightarrow> bool" where
  "stays_open pr u ks s \<longleftrightarrow> open_until_at_least pr u s \<and> permits_of pr s \<subseteq> ks"

lemma permits_of_settle: "settles f \<Longrightarrow> permits_of pr (settle f k s) = permits_of pr s"
  by (auto simp: permits_of_def settle_def settlesD hm.get_insert split: option.splits)

lemmas open_simps = open_until_at_least_def current_state_def hm_simps

lemma open_succeeded:
  "open_until_at_least pr u s \<Longrightarrow> open_until_at_least pr u (settle succeeded k s)"
  by (auto simp: open_simps settle_def succeeded_def split: option.splits if_splits)

lemma open_release:
  "open_until_at_least pr u s \<Longrightarrow> open_until_at_least pr u (settle release_probe k s)"
  by (auto simp: open_simps settle_def release_probe_def split: option.splits if_splits)

lemma open_failed:
  "open_until_at_least pr u s \<Longrightarrow> u \<le> now + cooldown settings \<Longrightarrow> now + cooldown settings \<le> instant_max \<Longrightarrow>
   open_until_at_least pr u (settle (failed settings now) k s)"
  by (auto simp: open_simps settle_def failed_def Let_def instant_add_def checked_add_def
      split: option.splits if_splits)

lemma permit_provider_frame:
  assumes "permit_provider_with_settings enabled now pr g = (r, g')"
  shows "pr' \<noteq> pr \<Longrightarrow> hm_get (circuit_breakers g') pr' = hm_get (circuit_breakers g) pr'"
    and "r = Some p \<Longrightarrow> permit_provider p = pr"
  using assms
  by (auto simp: permit_provider_with_settings_def create_circuit_def enter_circuit_def hm_simps
      split: option.splits if_splits)

lemma permit_provider_open:
  assumes "open_until_at_least pr u s" and "now < u"
  shows "permit_provider_with_settings True now pr (gates s) = (None, gates s)"
  using assms
  by (auto simp: permit_provider_with_settings_def create_circuit_def enter_circuit_def open_simps
      split: option.splits)

lemma open_admit:
  assumes "stays_open pr u ks s" and "pr' = pr \<longrightarrow> enabled \<and> now < u"
  shows "stays_open pr u ks (circuit_step s (Admit enabled now pr'))"
proof (cases "pr' = pr")
  case True
  with assms have "open_until_at_least pr u s" "now < u" enabled by (auto simp: stays_open_def)
  from permit_provider_open [OF this(1,2)] this(3) True assms(1) show ?thesis by simp
next
  case False
  obtain r g' where r: "permit_provider_with_settings enabled now pr' (gates s) = (r, g')" by fastforce
  show ?thesis
    using assms(1) r permit_provider_frame [OF r] False
    by (cases r) (auto simp: stays_open_def open_until_at_least_def permits_of_def hm.get_insert split: if_splits)
qed

lemma open_drop: "stays_open pr u ks s \<Longrightarrow> stays_open pr u ks (circuit_step s (Drop k))"
proof -
  assume a: "stays_open pr u ks s"
  then have "open_until_at_least pr u (settle release_probe k s)"
    "permits_of pr (settle release_probe k s) \<subseteq> ks"
    by (simp_all add: stays_open_def open_release permits_of_settle settles_release)
  then show ?thesis
    by (auto simp: stays_open_def Let_def open_until_at_least_def permits_of_def hm.get_remove)
qed

lemma abort_eq: "abort = release_probe"
  by (simp add: fun_eq_iff abort_def)

lemma open_settle:
  assumes "stays_open pr u ks s"
  shows "stays_open pr u ks (settle succeeded k s)" "stays_open pr u ks (settle abort k s)"
    and "before_deadline pr u (Fail settings now k) \<Longrightarrow> stays_open pr u ks (settle (failed settings now) k s)"
  using assms
  by (simp_all add: stays_open_def abort_eq open_succeeded open_release open_failed permits_of_settle
      settles_succeeded settles_release settles_failed)

lemma open_clear: "stays_open pr u ks s \<Longrightarrow> pr' \<noteq> pr \<Longrightarrow> stays_open pr u ks (circuit_step s (Clear pr'))"
  by (auto simp: stays_open_def open_until_at_least_def permits_of_def hm.get_remove)

lemma stays_open_step:
  "stays_open pr u ks s \<Longrightarrow> before_deadline pr u e \<Longrightarrow> stays_open pr u ks (circuit_step s e)"
  by (cases e) (simp_all only: simp_thms before_deadline.simps open_admit open_drop open_clear
      circuit_step.simps(2-4) open_settle)

interpretation open_circuit: machine circuit_step "before_deadline pr u" "stays_open pr u ks"
  for pr u ks
  by unfold_locales (rule stays_open_step)

section \<open>Failures open the circuit\<close>

definition fail_all ::
  "CircuitBreakerRuntimeSettings \<Rightarrow> CircuitProbePermit \<Rightarrow> instant list \<Rightarrow> breakers \<Rightarrow> breakers" where
  "fail_all settings p ts bs = fold (\<lambda>t bs. snd (failed settings t p bs)) ts bs"

lemma fail_all_closed:
  assumes "hm_get bs (permit_provider p) = Some st" and "permit_generation p = Some (generation st)"
    and "probe_id p = None" and "consecutive_failures st + length ts < failure_threshold settings"
    and "failure_threshold settings \<le> u32_max"
  shows "hm_get (fail_all settings p ts bs) (permit_provider p) =
           Some (st\<lparr>consecutive_failures := consecutive_failures st + length ts\<rparr>)"
  using assms
proof (induction ts arbitrary: bs st)
  case (Cons t ts)
  let ?st = "st\<lparr>consecutive_failures := consecutive_failures st + 1\<rparr>"
  have "hm_get (snd (failed settings t p bs)) (permit_provider p) = Some ?st"
    using Cons.prems by (simp add: failed_def current_state_def Let_def hm.get_insert sat_add_exact)
  from Cons.IH [OF this] Cons.prems show ?case by (simp add: fail_all_def)
qed (simp add: fail_all_def)

lemma fail_all_opens:
  assumes st: "hm_get bs (permit_provider p) = Some st" "permit_generation p = Some (generation st)"
    "probe_id p = None" and n: "consecutive_failures st + length ts + 1 = failure_threshold settings"
    "failure_threshold settings \<le> u32_max" and t: "t + cooldown settings \<le> instant_max"
  shows "hm_get (fail_all settings p (ts @ [t]) bs) (permit_provider p) =
           Some (st\<lparr>consecutive_failures := failure_threshold settings, opened_at := Some t,
                    open_until := Some (t + cooldown settings)\<rparr>)"
proof -
  let ?bs = "fail_all settings p ts bs"
  have "hm_get ?bs (permit_provider p) =
      Some (st\<lparr>consecutive_failures := consecutive_failures st + length ts\<rparr>)"
    using assms by (intro fail_all_closed) auto
  then have "hm_get (snd (failed settings t p ?bs)) (permit_provider p) =
      Some (st\<lparr>consecutive_failures := failure_threshold settings, opened_at := Some t,
               open_until := Some (t + cooldown settings)\<rparr>)"
    using st(2,3) n t
    by (auto simp: failed_def current_state_def Let_def hm.get_insert sat_add_exact instant_add_def checked_add_def)
  then show ?thesis by (simp add: fail_all_def)
qed

section \<open>Properties of the circuit breaker\<close>

text \<open>C23: Whatever requests do with their permits (succeed, fail, abort or drop them, in any order and any
  number of times) and whenever circuits are cleared, at most one live permit is the half-open probe of a
  given circuit, and a circuit marks a probe exactly while such a permit is alive.\<close>

theorem single_probe_in_flight:
  assumes "s = run circuit_step circuit_start es"
    and "hm_get (live s) k = Some p" and "probe_id p \<noteq> None"
  shows "(\<forall>k' p'. hm_get (live s) k' = Some p' \<and> probe_id p' \<noteq> None \<and>
             permit_provider p' = permit_provider p \<and> permit_generation p' = permit_generation p \<longrightarrow> k' = k) \<and>
         (\<forall>st. current_state (circuit_breakers (gates s)) p = Some st \<longrightarrow> half_open_probe st = probe_id p)"
proof -
  have ok: "gates_ok (gates s) (hm_get (live s))"
    using circuit_run_inv [of es] assms(1) by (simp add: circuit_inv_def)
  note parts = probes_okD [OF ok [unfolded gates_ok_def]]
  have "half_open_probe st = probe_id p" if "current_state (circuit_breakers (gates s)) p = Some st" for st
    using that assms(2,3) probe_markedD [OF parts(2) assms(2)]
    by (auto simp: current_state_def probe_view_def split: option.splits if_splits)
  then show ?thesis using parts(3) assms(2,3) unfolding probe_unique_def by metis
qed

definition open_settings :: CircuitBreakerRuntimeSettings where
  "open_settings = \<lparr>failure_threshold = 1, cooldown = 10\<rparr>"

definition probing_events :: "circuit_event list" where
  "probing_events = [Admit True 0 ''a'', Fail open_settings 1 0, Drop 0, Admit True 11 ''a'']"

lemma probing_run:
  "run circuit_step circuit_start probing_events =
     \<lparr>gates = \<lparr>circuit_breakers = [(''a'', \<lparr>generation = 1, consecutive_failures = 1, open_until = Some 11,
                 opened_at = Some 1, half_open_probe = Some 1\<rparr>)],
               next_circuit_state_generation = 2, next_circuit_probe_id = 2\<rparr>,
      live = [(1, \<lparr>permit_provider = ''a'', permit_generation = Some 1, probe_id = Some 1\<rparr>)],
      next_permit = 2\<rparr>"
  by (simp add: probing_events_def circuit_start_def circuit_gates_new_def
      permit_provider_with_settings_def create_circuit_def enter_circuit_def hm_contains_key_def hm_get_def
      hm_insert_def hm_remove_def checked_add_def CircuitState_default_def settle_def failed_def
      release_probe_def current_state_def open_settings_def sat_add_def instant_add_def instant_max_def Let_def)

theorem single_probe_in_flight_witness:
  "map_option half_open_probe
     (current_state (circuit_breakers (gates (run circuit_step circuit_start probing_events)))
        \<lparr>permit_provider = ''a'', permit_generation = Some 1, probe_id = Some 1\<rparr>) = Some (Some 1)"
proof -
  have "current_state (circuit_breakers (gates (run circuit_step circuit_start probing_events)))
      \<lparr>permit_provider = ''a'', permit_generation = Some 1, probe_id = Some 1\<rparr> \<noteq> None"
    by (simp add: probing_run hm_get_def current_state_def)
  then show ?thesis
    using single_probe_in_flight [of "run circuit_step circuit_start probing_events" probing_events 1
      "\<lparr>permit_provider = ''a'', permit_generation = Some 1, probe_id = Some 1\<rparr>"]
    by (auto simp: probing_run hm_get_def)
qed

text \<open>C24: A probe slot is never leaked: once every probe permit of a provider is settled or dropped, an open
  circuit whose deadline has passed admits the next request as its probe (until \<open>2^64 - 1\<close> probes were
  issued).\<close>

theorem circuit_recovers:
  assumes "s = run circuit_step circuit_start es"
    and "hm_get (circuit_breakers (gates s)) pr = Some st" and "open_until st = Some u" and "u \<le> now"
    and "\<forall>k p. hm_get (live s) k = Some p \<and> permit_provider p = pr \<longrightarrow> probe_id p = None"
    and "next_circuit_probe_id (gates s) < u64_max"
  shows "\<exists>g' pid. permit_provider_with_settings True now pr (gates s) =
           (Some \<lparr>permit_provider = pr, permit_generation = Some (generation st), probe_id = Some pid\<rparr>, g')"
proof -
  have ok: "gates_ok (gates s) (hm_get (live s))"
    using circuit_run_inv [of es] assms(1) by (simp add: circuit_inv_def)
  have "half_open_probe st = None"
  proof (rule ccontr)
    assume "half_open_probe st \<noteq> None"
    then obtain pid where "probe_view (circuit_breakers (gates s)) pr = Some (generation st, Some pid)"
      using assms(2) by (auto simp: probe_view_def)
    from probe_heldE [OF probes_okD(1) [OF ok [unfolded gates_ok_def]] this] assms(5)
    show False by (metis option.distinct(1))
  qed
  then show ?thesis
    using assms(2-4,6)
    by (simp add: permit_provider_with_settings_def create_circuit_def enter_circuit_def hm_contains_key_def
        checked_add_def)
qed

lemma opened_run:
  "run circuit_step circuit_start (butlast probing_events) =
     \<lparr>gates = \<lparr>circuit_breakers = [(''a'', \<lparr>generation = 1, consecutive_failures = 1, open_until = Some 11,
                 opened_at = Some 1, half_open_probe = None\<rparr>)],
               next_circuit_state_generation = 2, next_circuit_probe_id = 1\<rparr>,
      live = [], next_permit = 1\<rparr>"
  by (simp add: probing_events_def circuit_start_def circuit_gates_new_def
      permit_provider_with_settings_def create_circuit_def enter_circuit_def hm_contains_key_def hm_get_def
      hm_insert_def hm_remove_def checked_add_def CircuitState_default_def settle_def failed_def
      release_probe_def current_state_def open_settings_def sat_add_def instant_add_def instant_max_def Let_def)

theorem circuit_recovers_witness:
  "\<exists>g' pid. permit_provider_with_settings True 11 ''a''
      (gates (run circuit_step circuit_start (butlast probing_events))) =
      (Some \<lparr>permit_provider = ''a'', permit_generation = Some 1, probe_id = Some pid\<rparr>, g')"
  using circuit_recovers [of "run circuit_step circuit_start (butlast probing_events)"
      "butlast probing_events" "''a''" "\<lparr>generation = 1, consecutive_failures = 1, open_until = Some 11,
                 opened_at = Some 1, half_open_probe = None\<rparr>" 11 11]
  by (simp add: opened_run hm_get_def)

text \<open>C27: While a circuit is open and no probe is in flight, no event before its deadline admits a request to the
  provider or closes the circuit: requests admitted earlier may still succeed, fail, abort or drop their
  permits, but their late successes neither close the circuit nor shorten its deadline.\<close>

theorem open_circuit_blocks:
  assumes "hm_get (circuit_breakers (gates s)) pr = Some st" and "open_until st = Some u"
    and "half_open_probe st = None" and "\<forall>e \<in> set es. before_deadline pr u e"
  shows "permits_of pr (run circuit_step s es) \<subseteq> permits_of pr s \<and>
         (\<exists>st'. hm_get (circuit_breakers (gates (run circuit_step s es))) pr = Some st' \<and>
            half_open_probe st' = None \<and> (\<exists>w \<ge> u. open_until st' = Some w))"
proof -
  have "stays_open pr u (permits_of pr s) s"
    using assms(1-3) by (simp add: stays_open_def open_until_at_least_def)
  with assms(4) have "stays_open pr u (permits_of pr s) (run circuit_step s es)"
    by (intro open_circuit.run_inv) (simp_all add: list_all_iff)
  then show ?thesis
    by (auto simp: stays_open_def open_until_at_least_def split: option.splits)
qed

definition late_events :: "circuit_event list" where
  "late_events = [Admit True 0 ''a'', Admit True 0 ''a'', Fail open_settings 1 0]"

lemma late_run:
  "hm_get (circuit_breakers (gates (run circuit_step circuit_start late_events))) ''a'' =
     Some \<lparr>generation = 1, consecutive_failures = 1, open_until = Some 11, opened_at = Some 1,
           half_open_probe = None\<rparr>"
  by (simp add: late_events_def circuit_start_def circuit_gates_new_def
      permit_provider_with_settings_def create_circuit_def enter_circuit_def hm_contains_key_def hm_get_def
      hm_insert_def hm_remove_def checked_add_def CircuitState_default_def settle_def failed_def
      release_probe_def current_state_def open_settings_def sat_add_def instant_add_def instant_max_def Let_def)

theorem open_circuit_blocks_witness:
  "permits_of ''a'' (run circuit_step (run circuit_step circuit_start late_events) [Succeed 1, Admit True 10 ''a''])
     \<subseteq> permits_of ''a'' (run circuit_step circuit_start late_events)"
  using open_circuit_blocks [OF late_run, of 11 "[Succeed 1, Admit True 10 ''a'']"] by simp

text \<open>A closed circuit opens exactly when the failures since the last success reach the threshold: one
  failure fewer still admits requests, and the last failure at \<open>t\<close> blocks the provider until \<open>t\<close> plus the
  cooldown.\<close>

lemma circuit_opens_at_threshold:
  assumes "hm_get (circuit_breakers g) (permit_provider p) = Some st"
    and "permit_generation p = Some (generation st)" and "probe_id p = None"
    and "consecutive_failures st = 0" and "open_until st = None" and "half_open_probe st = None"
    and "length ts + 1 = failure_threshold settings" and "failure_threshold settings \<le> u32_max"
    and "t + cooldown settings \<le> instant_max"
  shows "fst (permit_provider_with_settings True now (permit_provider p)
            (g\<lparr>circuit_breakers := fail_all settings p ts (circuit_breakers g)\<rparr>)) =
          Some \<lparr>permit_provider = permit_provider p, permit_generation = Some (generation st), probe_id = None\<rparr>
       \<and> (now < t + cooldown settings \<longrightarrow>
          fst (permit_provider_with_settings True now (permit_provider p)
            (g\<lparr>circuit_breakers := fail_all settings p (ts @ [t]) (circuit_breakers g)\<rparr>)) = None)"
proof -
  have "hm_get (fail_all settings p ts (circuit_breakers g)) (permit_provider p) =
      Some (st\<lparr>consecutive_failures := consecutive_failures st + length ts\<rparr>)"
    using assms by (intro fail_all_closed) simp_all
  moreover have "hm_get (fail_all settings p (ts @ [t]) (circuit_breakers g)) (permit_provider p) =
      Some (st\<lparr>consecutive_failures := failure_threshold settings, opened_at := Some t,
               open_until := Some (t + cooldown settings)\<rparr>)"
    using assms by (intro fail_all_opens) simp_all
  ultimately show ?thesis
    using assms(5)
    by (simp add: permit_provider_with_settings_def create_circuit_def enter_circuit_def hm_contains_key_def)
qed

definition closed_gates :: circuit_gates where
  "closed_gates = \<lparr>circuit_breakers = [(''a'', CircuitState_default)],
     next_circuit_state_generation = 1, next_circuit_probe_id = 1\<rparr>"

section \<open>The bulkhead and the permits in flight\<close>

text \<open>The bulkhead with the permits that requests hold: provider and address of the semaphore.\<close>

record bulk_system =
  bulk :: bulkhead
  held :: "(string \<times> nat) list"

datatype bulk_event =
    Acquire string
  | Release string nat
  | ClearProvider string
  | Restored

fun bulk_step :: "nat \<Rightarrow> bulk_system \<Rightarrow> bulk_event \<Rightarrow> bulk_system" where
  "bulk_step mx s (Acquire pr) =
     (case try_provider_permit mx pr (bulk s) of
        (None, b) \<Rightarrow> s\<lparr>bulk := b\<rparr>
      | (Some a, b) \<Rightarrow> s\<lparr>bulk := b, held := (pr, a) # held s\<rparr>)"
| "bulk_step mx s (Release pr a) =
     (if (pr, a) \<in> set (held s)
      then s\<lparr>bulk := drop_provider_permit a (bulk s), held := remove1 (pr, a) (held s)\<rparr> else s)"
| "bulk_step mx s (ClearProvider pr) = s\<lparr>bulk := clear_provider_semaphore pr (bulk s)\<rparr>"
| "bulk_step mx s Restored = s\<lparr>bulk := clear_restored_semaphores (bulk s)\<rparr>"

definition held_at :: "(string \<times> nat) list \<Rightarrow> nat \<Rightarrow> nat" where
  "held_at hs a = length (filter (\<lambda>(_, a'). a' = a) hs)"

definition held_by :: "(string \<times> nat) list \<Rightarrow> string \<Rightarrow> nat" where
  "held_by hs pr = length (filter (\<lambda>(pr', _). pr' = pr) hs)"

text \<open>Every permit belongs to the tracked semaphore of its provider, whose counter counts them.\<close>

definition bulk_ok :: "nat \<Rightarrow> bulkhead \<Rightarrow> (string \<times> nat) list \<Rightarrow> bool" where
  "bulk_ok mx b hs \<longleftrightarrow> hm_ok (semaphores b) \<and>
     hm_len (semaphores b) \<le> MAX_TRACKED_PROVIDER_SEMAPHORES \<and>
     (\<forall>pr a. (pr, a) \<in> set hs \<longrightarrow> hm_get (semaphores b) pr = Some a) \<and>
     (\<forall>pr a. hm_get (semaphores b) pr = Some a \<longrightarrow>
        a < next_address b \<and> in_flight (tracked b a) = held_at hs a \<and> handles (tracked b a) = held_at hs a \<and>
        held_at hs a \<le> mx) \<and>
     (\<forall>pr pr' a. hm_get (semaphores b) pr = Some a \<and> hm_get (semaphores b) pr' = Some a \<longrightarrow> pr = pr')"

lemma bulk_okI:
  assumes "hm_ok (semaphores b)" "hm_len (semaphores b) \<le> MAX_TRACKED_PROVIDER_SEMAPHORES"
    and "\<And>pr a. (pr, a) \<in> set hs \<Longrightarrow> hm_get (semaphores b) pr = Some a"
    and "\<And>pr a. hm_get (semaphores b) pr = Some a \<Longrightarrow>
        a < next_address b \<and> in_flight (tracked b a) = held_at hs a \<and> handles (tracked b a) = held_at hs a \<and>
        held_at hs a \<le> mx"
    and "\<And>pr pr' a. hm_get (semaphores b) pr = Some a \<Longrightarrow> hm_get (semaphores b) pr' = Some a \<Longrightarrow> pr = pr'"
  shows "bulk_ok mx b hs"
  using assms unfolding bulk_ok_def by blast

lemma bulk_okD:
  assumes "bulk_ok mx b hs"
  shows "hm_ok (semaphores b)" "hm_len (semaphores b) \<le> MAX_TRACKED_PROVIDER_SEMAPHORES"
    and "(pr, a) \<in> set hs \<Longrightarrow> hm_get (semaphores b) pr = Some a"
    and "hm_get (semaphores b) pr = Some a \<Longrightarrow> a < next_address b"
    and "hm_get (semaphores b) pr = Some a \<Longrightarrow> in_flight (tracked b a) = held_at hs a"
    and "hm_get (semaphores b) pr = Some a \<Longrightarrow> handles (tracked b a) = held_at hs a"
    and "hm_get (semaphores b) pr = Some a \<Longrightarrow> held_at hs a \<le> mx"
    and "hm_get (semaphores b) pr = Some a \<Longrightarrow> hm_get (semaphores b) pr' = Some a \<Longrightarrow> pr = pr'"
  using assms unfolding bulk_ok_def by blast+

lemma put_simps [simp]:
  "semaphores (put a s b) = semaphores b" "next_address (put a s b) = next_address b"
  "tracked (put a s b) a' = (if a' = a then s else tracked b a')"
  by (simp_all add: put_def tracked_def hm.get_insert)

lemma tracked_semaphores [simp]:
  "tracked (semaphores_update f b) = tracked b" "tracked (next_address_update h b) = tracked b"
  by (simp_all add: fun_eq_iff tracked_def)

lemma hm_insert_insert: "hm_insert k v (hm_insert k v' m) = hm_insert k v m"
  by (induction m) (auto simp: hm_insert_def)

lemma put_put: "put a s (put a s' b) = put a s b"
  by (simp add: put_def hm_insert_insert)

lemma held_at_pos: "(pr, a) \<in> set hs \<Longrightarrow> 0 < held_at hs a"
  by (auto simp: held_at_def filter_empty_conv)

lemma held_at_zero: "(\<And>pr. (pr, a) \<notin> set hs) \<Longrightarrow> held_at hs a = 0"
  by (auto simp: held_at_def filter_empty_conv)

lemma held_at_Cons [simp]: "held_at ((pr, a) # hs) a' = (if a' = a then Suc (held_at hs a') else held_at hs a')"
  by (simp add: held_at_def)

lemma held_at_remove1:
  assumes "(pr, a) \<in> set hs"
  shows "held_at (remove1 (pr, a) hs) a' = (if a' = a then held_at hs a' - 1 else held_at hs a')"
  using assms
proof (induction hs)
  case (Cons h hs)
  show ?case
  proof (cases "h = (pr, a)")
    case True
    then show ?thesis by simp
  next
    case False
    with Cons have "(pr, a) \<in> set hs" by auto
    with Cons.IH False held_at_pos [OF this] show ?thesis by (cases h) auto
  qed
qed simp

lemma bulk_ok_retain:
  assumes "bulk_ok mx b hs" and "\<And>pr a. (pr, a) \<in> set hs \<Longrightarrow> P pr a"
  shows "bulk_ok mx (b\<lparr>semaphores := hm_retain P (semaphores b)\<rparr>) hs" (is "bulk_ok mx ?b hs")
proof (rule bulk_okI)
  note ok = bulk_okD [OF assms(1)]
  have old: "hm_get (semaphores b) pr = Some a" if "hm_get (semaphores ?b) pr = Some a" for pr a
    using hm.retain_subset [OF ok(1)] that by simp
  show "hm_ok (semaphores ?b)" using ok(1) by (simp add: hm.ok_retain)
  show "hm_len (semaphores ?b) \<le> MAX_TRACKED_PROVIDER_SEMAPHORES" using ok(2) by (simp add: hm.retain_bound)
  show "hm_get (semaphores ?b) pr = Some a" if "(pr, a) \<in> set hs" for pr a
    using hm.retain_keeps [where P = P, OF ok(1) ok(3) [OF that]] assms(2) [OF that] by simp
  show "a < next_address ?b \<and> in_flight (tracked ?b a) = held_at hs a \<and> handles (tracked ?b a) = held_at hs a \<and>
      held_at hs a \<le> mx" if "hm_get (semaphores ?b) pr = Some a" for pr a
    using ok(4-7) [OF old [OF that]] by simp
  show "pr = pr'" if "hm_get (semaphores ?b) pr = Some a" "hm_get (semaphores ?b) pr' = Some a" for pr pr' a
    using ok(8) [OF old [OF that(1)] old [OF that(2)]] .
qed

lemma bulk_ok_recount:
  assumes "bulk_ok mx b hs" and a: "hm_get (semaphores b) pr = Some a"
    and hs': "set hs' \<subseteq> insert (pr, a) (set hs)"
    and other: "\<And>a'. a' \<noteq> a \<Longrightarrow> held_at hs' a' = held_at hs a'" and mx: "held_at hs' a \<le> mx"
  shows "bulk_ok mx (put a \<lparr>in_flight = held_at hs' a, handles = held_at hs' a\<rparr> b) hs'" (is "bulk_ok mx ?b hs'")
proof (rule bulk_okI)
  note ok = bulk_okD [OF assms(1)]
  show "hm_ok (semaphores ?b)" using ok(1) by simp
  show "hm_len (semaphores ?b) \<le> MAX_TRACKED_PROVIDER_SEMAPHORES" using ok(2) by simp
  show "hm_get (semaphores ?b) pr' = Some a'" if "(pr', a') \<in> set hs'" for pr' a'
  proof (cases "(pr', a') \<in> set hs")
    case True
    then show ?thesis using ok(3) by simp
  next
    case False
    with that hs' have "(pr', a') = (pr, a)" by blast
    with a show ?thesis by simp
  qed
  show "a' < next_address ?b \<and> in_flight (tracked ?b a') = held_at hs' a' \<and> handles (tracked ?b a') = held_at hs' a' \<and>
      held_at hs' a' \<le> mx" if "hm_get (semaphores ?b) pr' = Some a'" for pr' a'
    using ok(4-7) [of pr' a'] that other [of a'] mx by simp
  show "p = p'" if "hm_get (semaphores ?b) p = Some a'" "hm_get (semaphores ?b) p' = Some a'" for p p' a'
    using ok(8) that by simp
qed

lemma bulk_ok_grow:
  assumes "bulk_ok mx b hs" and new: "hm_get (semaphores b) pr = None"
    and len: "hm_len (semaphores b) < MAX_TRACKED_PROVIDER_SEMAPHORES"
  shows "bulk_ok mx (put (next_address b) \<lparr>in_flight = 0, handles = 0\<rparr>
     (b\<lparr>semaphores := hm_insert pr (next_address b) (semaphores b), next_address := next_address b + 1\<rparr>)) hs"
    (is "bulk_ok mx ?b hs")
proof (rule bulk_okI)
  note ok = bulk_okD [OF assms(1)]
  have unused: "hm_get (semaphores b) pr' \<noteq> Some (next_address b)" for pr'
    using ok(4) [of pr' "next_address b"] by auto
  have zero: "held_at hs (next_address b) = 0"
    by (rule held_at_zero) (use ok(3) unused in blast)
  show "hm_ok (semaphores ?b)" using ok(1) by (simp add: hm.ok_insert)
  show "hm_len (semaphores ?b) \<le> MAX_TRACKED_PROVIDER_SEMAPHORES"
    using len new by (simp add: hm.len_insert)
  show "hm_get (semaphores ?b) pr' = Some a'" if "(pr', a') \<in> set hs" for pr' a'
    using ok(3) [OF that] new by (auto simp: hm.get_insert)
  show "a' < next_address ?b \<and> in_flight (tracked ?b a') = held_at hs a' \<and> handles (tracked ?b a') = held_at hs a' \<and>
      held_at hs a' \<le> mx" if "hm_get (semaphores ?b) pr' = Some a'" for pr' a'
    using ok(4-7) [of pr' a'] that zero unused [of pr'] by (auto simp: hm.get_insert split: if_splits)
  show "p = p'" if "hm_get (semaphores ?b) p = Some a'" "hm_get (semaphores ?b) p' = Some a'" for p p' a'
    using ok(8) that unused by (auto simp: hm.get_insert split: if_splits)
qed

lemma held_in_flight: "bulk_ok mx b hs \<Longrightarrow> (pr, a) \<in> set hs \<Longrightarrow> 0 < in_flight (tracked b a)"
  using bulk_okD(3,5) held_at_pos by metis

lemma bulk_ok_live: "bulk_ok mx b hs \<Longrightarrow> bulk_ok mx (retain_live_semaphores b) hs"
  unfolding retain_live_semaphores_def
  by (rule bulk_ok_retain) (auto dest: held_in_flight)

lemma acquire_handle_ok:
  assumes "bulk_ok mx b hs" and a: "hm_get (semaphores b) pr = Some a" and "0 < mx" "mx \<le> u64_max"
    and r: "acquire_handle mx a (put a ((tracked b a)\<lparr>handles := handles (tracked b a) + 1\<rparr>) b) = (granted, b')"
  shows "bulk_ok mx b' (if granted then (pr, a) # hs else hs)"
proof -
  note ok = bulk_okD [OF assms(1)]
  let ?n = "held_at hs a"
  have t: "in_flight (tracked b a) = ?n" "handles (tracked b a) = ?n" using ok(5,6) [OF a] .
  have s: "(tracked b a)\<lparr>handles := m\<rparr> = \<lparr>in_flight = ?n, handles = m\<rparr>" for m
    using t(1) by (cases "tracked b a") simp
  show ?thesis
  proof (cases "?n < mx")
    case True
    with r assms(4) have "granted" "b' = put a \<lparr>in_flight = held_at ((pr, a) # hs) a, handles = held_at ((pr, a) # hs) a\<rparr> b"
      by (auto simp: acquire_handle_def try_acquire_owned_def t s put_put checked_add_def)
    with bulk_ok_recount [OF assms(1) a, of "(pr, a) # hs"] True show ?thesis by auto
  next
    case False
    with r assms(3) have "\<not> granted" "b' = put a \<lparr>in_flight = held_at hs a, handles = held_at hs a\<rparr> b"
      by (auto simp: acquire_handle_def try_acquire_owned_def t s put_put)
    with bulk_ok_recount [OF assms(1) a, of hs] ok(7) [OF a] show ?thesis by auto
  qed
qed

lemma provider_semaphore_ok:
  assumes "bulk_ok mx b0 hs" and "provider_semaphore pr b0 = (r, b')"
  shows "case r of
      None \<Rightarrow> bulk_ok mx b' hs
    | Some a \<Rightarrow> \<exists>b. bulk_ok mx b hs \<and> hm_get (semaphores b) pr = Some a \<and>
                 b' = put a ((tracked b a)\<lparr>handles := handles (tracked b a) + 1\<rparr>) b"
proof -
  let ?b = "retain_live_semaphores b0"
  have ok: "bulk_ok mx ?b hs" using assms(1) by (rule bulk_ok_live)
  show ?thesis
  proof (cases "hm_get (semaphores ?b) pr")
    case None
    show ?thesis
    proof (cases "hm_len (semaphores ?b) < MAX_TRACKED_PROVIDER_SEMAPHORES")
      case True
      let ?g = "put (next_address ?b) \<lparr>in_flight = 0, handles = 0\<rparr>
        (?b\<lparr>semaphores := hm_insert pr (next_address ?b) (semaphores ?b), next_address := next_address ?b + 1\<rparr>)"
      have "r = Some (next_address ?b)" "b' = put (next_address ?b) \<lparr>in_flight = 0, handles = 1\<rparr> ?g"
        using assms(2) None True by (auto simp: provider_semaphore_def Let_def hm_contains_key_def put_put)
      with bulk_ok_grow [OF ok None True] show ?thesis by (auto simp: hm.get_insert intro!: exI [of _ ?g])
    next
      case False
      with None assms(2) ok show ?thesis by (auto simp: provider_semaphore_def Let_def hm_contains_key_def)
    qed
  next
    case (Some a)
    with assms(2) have "r = Some a" "b' = put a ((tracked ?b a)\<lparr>handles := handles (tracked ?b a) + 1\<rparr>) ?b"
      by (simp_all add: provider_semaphore_def Let_def hm_contains_key_def)
    with ok Some show ?thesis by auto
  qed
qed

lemma try_provider_permit_ok:
  assumes "bulk_ok mx b hs" and mx: "0 < mx" "mx \<le> u64_max" and "try_provider_permit mx pr b = (r, b')"
  shows "bulk_ok mx b' (case r of None \<Rightarrow> hs | Some a \<Rightarrow> (pr, a) # hs)"
proof -
  obtain ra b1 where p: "provider_semaphore pr b = (ra, b1)" by fastforce
  show ?thesis
  proof (cases ra)
    case None
    with provider_semaphore_ok [OF assms(1) p] assms(4) p show ?thesis by (simp add: try_provider_permit_def)
  next
    case (Some a)
    obtain g b2 where g: "acquire_handle mx a b1 = (g, b2)" by fastforce
    from provider_semaphore_ok [OF assms(1) p] Some obtain b0 where
      "bulk_ok mx b0 hs" "hm_get (semaphores b0) pr = Some a"
      "b1 = put a ((tracked b0 a)\<lparr>handles := handles (tracked b0 a) + 1\<rparr>) b0" by auto
    with acquire_handle_ok mx g have "bulk_ok mx b2 (if g then (pr, a) # hs else hs)" by blast
    with Some p g assms(4) show ?thesis by (cases g) (auto simp: try_provider_permit_def)
  qed
qed

lemma drop_provider_permit_ok:
  assumes "bulk_ok mx b hs" and h: "(pr, a) \<in> set hs" and "mx \<le> u64_max"
  shows "bulk_ok mx (drop_provider_permit a b) (remove1 (pr, a) hs)"
proof -
  note ok = bulk_okD [OF assms(1)]
  have a: "hm_get (semaphores b) pr = Some a" using ok(3) [OF h] .
  have "drop_provider_permit a b =
      put a \<lparr>in_flight = held_at (remove1 (pr, a) hs) a, handles = held_at (remove1 (pr, a) hs) a\<rparr> b"
    using ok(5,6) [OF a] held_at_pos [OF h]
    by (cases "tracked b a")
      (simp add: drop_provider_permit_def release_slot_def wrapping_sub_exact held_at_remove1 [OF h])
  moreover have "set (remove1 (pr, a) hs) \<subseteq> insert (pr, a) (set hs)" using set_remove1_subset by fast
  ultimately show ?thesis
    using bulk_ok_recount [OF assms(1) a, of "remove1 (pr, a) hs"] held_at_remove1 [OF h] ok(7) [OF a] by simp
qed

lemma clear_provider_semaphore_ok: "bulk_ok mx b hs \<Longrightarrow> bulk_ok mx (clear_provider_semaphore pr b) hs"
proof -
  assume ok: "bulk_ok mx b hs"
  have "hm_remove pr (semaphores b) = hm_retain (\<lambda>pr' _. pr' \<noteq> pr) (semaphores b)"
    by (simp add: hm_remove_def hm_retain_def)
  moreover have "bulk_ok mx (b\<lparr>semaphores := hm_retain (\<lambda>pr' _. pr' \<noteq> pr) (semaphores b)\<rparr>) hs"
    if "hm_get (semaphores b) pr = Some a" "in_flight (tracked b a) = 0" for a
    using bulk_okD(3,5) [OF ok] that by (intro bulk_ok_retain [OF ok]) (metis held_at_pos less_irrefl option.inject)
  ultimately show ?thesis using ok by (auto simp: clear_provider_semaphore_def split: option.splits)
qed

lemma clear_restored_semaphores_ok: "bulk_ok mx b hs \<Longrightarrow> bulk_ok mx (clear_restored_semaphores b) hs"
  unfolding clear_restored_semaphores_def
  by (rule bulk_ok_retain) (auto dest: held_in_flight)

lemma bulk_step_ok:
  assumes "bulk_ok mx (bulk s) (held s)" "0 < mx" "mx \<le> u64_max"
  shows "bulk_ok mx (bulk (bulk_step mx s e)) (held (bulk_step mx s e))"
proof (cases e)
  case (Acquire pr)
  obtain r b where r: "try_provider_permit mx pr (bulk s) = (r, b)" by fastforce
  with try_provider_permit_ok [OF assms r] Acquire show ?thesis by (cases r) simp_all
qed (use assms in \<open>simp_all add: drop_provider_permit_ok clear_provider_semaphore_ok clear_restored_semaphores_ok\<close>)

lemma length_filter_imp:
  "(\<And>x. x \<in> set xs \<Longrightarrow> P x \<Longrightarrow> Q x) \<Longrightarrow> length (filter P xs) \<le> length (filter Q xs)"
  by (induction xs) (auto intro: le_SucI)

lemma held_by_le: "bulk_ok mx b hs \<Longrightarrow> held_by hs pr \<le> mx"
proof (cases "hm_get (semaphores b) pr")
  case None
  assume ok: "bulk_ok mx b hs"
  have "held_by hs pr = 0"
    using bulk_okD(3) [OF ok] None by (auto simp: held_by_def filter_empty_conv)
  then show ?thesis by simp
next
  case (Some a)
  assume ok: "bulk_ok mx b hs"
  have "held_by hs pr \<le> held_at hs a"
    unfolding held_by_def held_at_def
  proof (rule length_filter_imp)
    fix h
    assume "h \<in> set hs" "case h of (pr', _) \<Rightarrow> pr' = pr"
    then show "case h of (_, a') \<Rightarrow> a' = a" using bulk_okD(3) [OF ok, of pr "snd h"] Some by (cases h) auto
  qed
  then show ?thesis using bulk_okD(7) [OF ok Some] by simp
qed

interpretation bulk: machine "bulk_step mx" "\<lambda>_. 0 < mx \<and> mx \<le> u64_max" "\<lambda>s. bulk_ok mx (bulk s) (held s)"
  for mx
  by unfold_locales (rule bulk_step_ok, simp_all)

definition bulk_start :: bulk_system where
  "bulk_start = \<lparr>bulk = bulkhead_new, held = []\<rparr>"

lemma bulk_start_ok: "bulk_ok mx (bulk bulk_start) (held bulk_start)"
  by (rule bulk_okI) (simp_all add: bulk_start_def bulkhead_new_def hm_ok_Nil)



text \<open>A database restore that falls between a request's lookup of its semaphore and its acquisition forgets
  that semaphore although the request holds a handle to it: the request and a later one are then both granted
  a permit under a limit of one. (\<open>try_provider_permit\<close> and the clearing of a single provider keep a
  semaphore with outstanding handles.)\<close>

lemma restore_forgets_looked_up_semaphore:
  "(let (h, b1) = provider_semaphore pr bulkhead_new;
        b2 = clear_restored_semaphores b1;
        (granted, b3) = acquire_handle 1 (the h) b2;
        (second, b4) = try_provider_permit 1 pr b3
    in h \<noteq> None \<and> granted \<and> second \<noteq> None \<and> second \<noteq> h)"
  by (simp add: provider_semaphore_def retain_live_semaphores_def clear_restored_semaphores_def bulkhead_new_def
      acquire_handle_def try_provider_permit_def try_acquire_owned_def tracked_def put_def hm_contains_key_def
      hm_retain_def hm_insert_def hm_get_def checked_add_def MAX_TRACKED_PROVIDER_SEMAPHORES_def)

end
