(* ===== verification/Storage.thy ===== *)
theory Storage
  imports Text Interfaces
begin

text \<open>
  The storage layer (\<^verbatim>\<open>src/infra/storage\<close>: records.rs, keys.rs, codec.rs, read_txn.rs,
  write_txn.rs, snapshot.rs): tables, dynamically typed records, key validation, the stored
  layout of request logs, and the bounded read and write operations. LMDB (through \<open>heed\<close>), bincode and
  zstd are parameters: the operations the code calls are fields of the record \<open>heed\<close> or arguments,
  and what the code relies on is stated as hypotheses (\<open>lmdb_view\<close>, \<open>lmdb_writes\<close>, the round trips of the codecs).
\<close>

section \<open>Tables, errors and records\<close>

datatype Table =
    Meta | Providers | ProviderApiKeys | ProviderModels | ProviderUsageMeters | Routes | RouteTargets
  | ApiKeys | AdminAuth | AdminSessionFamilies | AdminRefreshTokens | SessionIndex | StreamRuns
  | StreamEvents | StreamRunApiKeyIndex | RequestLogs | RequestLogIndex | UsageMinutes | UsageWindows
  | UsageExpiryCursor | StatisticsState | StatisticsIndex | OutputStyles | OperationalSettings
  | GatewayResourceLimits | Indexes | ApiKeyIndex | ApiKeyTokenIndex | ProviderNameIndex
  | ProviderApiKeyIndex | ProviderApiKeyAvailabilityIndex | ProviderApiKeyCreatedIndex
  | ProviderModelIndex | RouteNameIndex | RouteTargetProviderIndex | RouteTargetComboIndex

definition Table_ALL :: "Table list" where
  "Table_ALL =
     [Meta, Providers, ProviderApiKeys, ProviderModels, ProviderUsageMeters, Routes, RouteTargets,
      ApiKeys, AdminAuth, AdminSessionFamilies, AdminRefreshTokens, SessionIndex, StreamRuns,
      StreamEvents, StreamRunApiKeyIndex, RequestLogs, RequestLogIndex, UsageMinutes, UsageWindows,
      UsageExpiryCursor, StatisticsState, StatisticsIndex, OutputStyles, OperationalSettings,
      GatewayResourceLimits, Indexes, ApiKeyIndex, ApiKeyTokenIndex, ProviderNameIndex,
      ProviderApiKeyIndex, ProviderApiKeyAvailabilityIndex, ProviderApiKeyCreatedIndex,
      ProviderModelIndex, RouteNameIndex, RouteTargetProviderIndex, RouteTargetComboIndex]"

fun Table_name :: "Table \<Rightarrow> string" where
  "Table_name Meta = ''meta''"
| "Table_name Providers = ''providers''"
| "Table_name ProviderApiKeys = ''provider_api_keys''"
| "Table_name ProviderModels = ''provider_models''"
| "Table_name ProviderUsageMeters = ''provider_usage_meters''"
| "Table_name Routes = ''routes''"
| "Table_name RouteTargets = ''route_targets''"
| "Table_name ApiKeys = ''api_keys''"
| "Table_name AdminAuth = ''admin_auth''"
| "Table_name AdminSessionFamilies = ''admin_session_families''"
| "Table_name AdminRefreshTokens = ''admin_refresh_tokens''"
| "Table_name SessionIndex = ''session_index''"
| "Table_name StreamRuns = ''stream_runs''"
| "Table_name StreamEvents = ''stream_events''"
| "Table_name StreamRunApiKeyIndex = ''stream_run_api_key_index''"
| "Table_name RequestLogs = ''request_logs''"
| "Table_name RequestLogIndex = ''request_log_index''"
| "Table_name UsageMinutes = ''usage_minutes''"
| "Table_name UsageWindows = ''usage_windows''"
| "Table_name UsageExpiryCursor = ''usage_expiry_cursor''"
| "Table_name StatisticsState = ''statistics_state''"
| "Table_name StatisticsIndex = ''statistics_index''"
| "Table_name OutputStyles = ''output_styles''"
| "Table_name OperationalSettings = ''operational_settings''"
| "Table_name GatewayResourceLimits = ''gateway_resource_limits''"
| "Table_name Indexes = ''indexes''"
| "Table_name ApiKeyIndex = ''api_key_index''"
| "Table_name ApiKeyTokenIndex = ''api_key_token_index''"
| "Table_name ProviderNameIndex = ''provider_name_index''"
| "Table_name ProviderApiKeyIndex = ''provider_api_key_index''"
| "Table_name ProviderApiKeyAvailabilityIndex = ''provider_api_key_availability_index''"
| "Table_name ProviderApiKeyCreatedIndex = ''provider_api_key_created_index''"
| "Table_name ProviderModelIndex = ''provider_model_index''"
| "Table_name RouteNameIndex = ''route_name_index''"
| "Table_name RouteTargetProviderIndex = ''route_target_provider_index''"
| "Table_name RouteTargetComboIndex = ''route_target_combo_index''"

datatype StorageError =
    Busy
  | MapFull
  | Conflict
  | NotFound
  | Invalid string
  | Codec string
  | Task string
  | Backend string
  | Io string

type_synonym bytes = "nat list"

datatype Field = Null | Bool bool | I64 int | Text string | Bytes bytes

text \<open>A \<open>BTreeMap\<close> of fields.\<close>

type_synonym Record = "(string, Field) hmap"

definition missing_field :: "string \<Rightarrow> StorageError" where
  "missing_field name = Invalid (''record field '' @ quoted name @ '' is missing'')"

definition wrong_field :: "string \<Rightarrow> string \<Rightarrow> StorageError" where
  "wrong_field name what = Invalid (''record field '' @ quoted name @ '' is not '' @ what)"

definition rec_text :: "Record \<Rightarrow> string \<Rightarrow> StorageError + string" where
  "rec_text r name =
     (case hm_get r name of
        Some (Text v) \<Rightarrow> Inr v
      | Some Null \<Rightarrow> Inl (missing_field name)
      | None \<Rightarrow> Inl (missing_field name)
      | _ \<Rightarrow> Inl (wrong_field name ''text''))"

definition optional_text :: "Record \<Rightarrow> string \<Rightarrow> StorageError + string option" where
  "optional_text r name =
     (case hm_get r name of
        Some (Text v) \<Rightarrow> Inr (Some v)
      | Some Null \<Rightarrow> Inr None
      | None \<Rightarrow> Inr None
      | _ \<Rightarrow> Inl (wrong_field name ''text''))"

definition rec_integer :: "Record \<Rightarrow> string \<Rightarrow> StorageError + int" where
  "rec_integer r name =
     (case hm_get r name of
        Some (I64 v) \<Rightarrow> Inr v
      | Some Null \<Rightarrow> Inl (missing_field name)
      | None \<Rightarrow> Inl (missing_field name)
      | _ \<Rightarrow> Inl (wrong_field name ''an integer''))"

definition optional_integer :: "Record \<Rightarrow> string \<Rightarrow> StorageError + int option" where
  "optional_integer r name =
     (case hm_get r name of
        Some (I64 v) \<Rightarrow> Inr (Some v)
      | Some Null \<Rightarrow> Inr None
      | None \<Rightarrow> Inr None
      | _ \<Rightarrow> Inl (wrong_field name ''an integer''))"

definition rec_boolean :: "Record \<Rightarrow> string \<Rightarrow> StorageError + bool" where
  "rec_boolean r name =
     (case hm_get r name of
        Some (Bool v) \<Rightarrow> Inr v
      | Some Null \<Rightarrow> Inl (missing_field name)
      | None \<Rightarrow> Inl (missing_field name)
      | _ \<Rightarrow> Inl (wrong_field name ''a boolean''))"

definition rec_bytes :: "Record \<Rightarrow> string \<Rightarrow> StorageError + bytes" where
  "rec_bytes r name =
     (case hm_get r name of
        Some (Bytes v) \<Rightarrow> Inr v
      | Some Null \<Rightarrow> Inl (missing_field name)
      | None \<Rightarrow> Inl (missing_field name)
      | _ \<Rightarrow> Inl (wrong_field name ''bytes''))"

definition optional_bytes :: "Record \<Rightarrow> string \<Rightarrow> StorageError + bytes option" where
  "optional_bytes r name =
     (case hm_get r name of
        Some (Bytes v) \<Rightarrow> Inr (Some v)
      | Some Null \<Rightarrow> Inr None
      | None \<Rightarrow> Inr None
      | _ \<Rightarrow> Inl (wrong_field name ''bytes''))"

section \<open>Keys\<close>

definition MAX_STORAGE_KEY_BYTES :: nat where "MAX_STORAGE_KEY_BYTES = 500"

definition validate_key :: "string \<Rightarrow> StorageError + unit" where
  "validate_key key =
     (if key = [] \<or> MAX_STORAGE_KEY_BYTES < str_len key \<or> 0 \<in> set (str_bytes key)
      then Inl (Invalid ''LMDB key is empty or exceeds the 500-byte key limit'') else Inr ())"

definition validate_prefix :: "string \<Rightarrow> StorageError + unit" where
  "validate_prefix pre =
     (if MAX_STORAGE_KEY_BYTES < str_len pre \<or> 0 \<in> set (str_bytes pre)
      then Inl (Invalid ''LMDB key prefix exceeds the 500-byte key limit'') else Inr ())"

section \<open>The stored layout of values\<close>

definition COMPRESSED_RECORD_PREFIX :: nat where "COMPRESSED_RECORD_PREFIX = 0x5A"
definition COMPRESSED_RECORD_MIN_BYTES :: nat where "COMPRESSED_RECORD_MIN_BYTES = 64"
definition MAX_COMPRESSED_EXPANSION :: nat where "MAX_COMPRESSED_EXPANSION = 17 * 1024 * 1024"

text \<open>
  bincode for one type, and zstd with an optional dictionary. Decompression takes the largest
  size it may produce.
\<close>

record 'a bincode =
  serialize :: "'a \<Rightarrow> string + bytes"
  deserialize :: "bytes \<Rightarrow> string + 'a"

record zstd =
  compress :: "bytes option \<Rightarrow> bytes \<Rightarrow> string + bytes"
  decompress :: "bytes option \<Rightarrow> bytes \<Rightarrow> nat \<Rightarrow> string + bytes"

definition encode_record :: "'a bincode \<Rightarrow> 'a \<Rightarrow> StorageError + bytes" where
  "encode_record bc v = map_err Codec (serialize bc v)"

definition decode_record :: "'a bincode \<Rightarrow> bytes \<Rightarrow> StorageError + 'a" where
  "decode_record bc bs = map_err Codec (deserialize bc bs)"

definition is_compressed_record :: "bytes \<Rightarrow> bool" where
  "is_compressed_record bs = (case bs of b # _ \<Rightarrow> b = COMPRESSED_RECORD_PREFIX | [] \<Rightarrow> False)"

definition compress_record_payload :: "zstd \<Rightarrow> bytes option \<Rightarrow> bytes \<Rightarrow> StorageError + bytes" where
  "compress_record_payload z dictionary payload =
     rbind (map_err (\<lambda>e. Codec (''record compression failed: '' @ e)) (compress z dictionary payload))
       (\<lambda>frame. Inr (COMPRESSED_RECORD_PREFIX # frame))"

definition encode_record_maybe_compressed ::
  "'a bincode \<Rightarrow> zstd \<Rightarrow> bytes option \<Rightarrow> 'a \<Rightarrow> StorageError + bytes" where
  "encode_record_maybe_compressed bc z dictionary v =
     rbind (encode_record bc v) (\<lambda>payload.
       if length payload < COMPRESSED_RECORD_MIN_BYTES \<and> \<not> is_compressed_record payload then Inr payload
       else compress_record_payload z dictionary payload)"

definition decompress_frame :: "zstd \<Rightarrow> bytes option \<Rightarrow> bytes \<Rightarrow> StorageError + bytes" where
  "decompress_frame z dictionary frame =
     map_err (\<lambda>e. Codec (''record decompression failed: '' @ e))
       (decompress z dictionary frame MAX_COMPRESSED_EXPANSION)"

definition decompressed_request_log_payload :: "zstd \<Rightarrow> bytes option \<Rightarrow> bytes \<Rightarrow> StorageError + bytes" where
  "decompressed_request_log_payload z dictionary bs =
     (if \<not> is_compressed_record bs then Inr bs else decompress_frame z dictionary (tl bs))"

definition decode_stored_record ::
  "'a bincode \<Rightarrow> zstd \<Rightarrow> bytes option \<Rightarrow> Table \<Rightarrow> bytes \<Rightarrow> StorageError + 'a" where
  "decode_stored_record bc z dictionary table bs =
     rbind (if table = RequestLogs then decompressed_request_log_payload z dictionary bs else Inr bs)
       (\<lambda>payload. map_err Codec (deserialize bc payload))"

definition decode_request_log_bytes ::
  "'a bincode \<Rightarrow> zstd \<Rightarrow> bytes option \<Rightarrow> bytes \<Rightarrow> StorageError + 'a" where
  "decode_request_log_bytes bc z dictionary bs =
     rbind (if is_compressed_record bs then decompress_frame z dictionary (tl bs) else Inr bs)
       (\<lambda>payload. map_err Codec (deserialize bc payload))"

section \<open>LMDB\<close>

text \<open>
  The operations of \<open>heed\<close> on a transaction of type \<open>'s\<close>. An iterator is the sequence of its items,
  each of which may be an error. \<open>opened\<close> says which tables the environment opened.
\<close>

type_synonym items = "(StorageError + string \<times> bytes) list"

record 's heed =
  opened :: "'s \<Rightarrow> Table \<Rightarrow> bool"
  h_get :: "'s \<Rightarrow> Table \<Rightarrow> string \<Rightarrow> StorageError + bytes option"
  h_iter :: "'s \<Rightarrow> Table \<Rightarrow> StorageError + items"
  h_range_after :: "'s \<Rightarrow> Table \<Rightarrow> string \<Rightarrow> StorageError + items"
  h_prefix_iter :: "'s \<Rightarrow> Table \<Rightarrow> string \<Rightarrow> StorageError + items"
  h_rev_prefix_iter :: "'s \<Rightarrow> Table \<Rightarrow> string \<Rightarrow> StorageError + items"
  h_put :: "Table \<Rightarrow> string \<Rightarrow> bytes \<Rightarrow> 's \<Rightarrow> StorageError + 's"
  h_delete :: "Table \<Rightarrow> string \<Rightarrow> 's \<Rightarrow> StorageError + bool \<times> 's"
  h_clear :: "Table \<Rightarrow> 's \<Rightarrow> StorageError + 's"

definition database :: "'s heed \<Rightarrow> 's \<Rightarrow> Table \<Rightarrow> StorageError + unit" where
  "database H s table =
     (if opened H s table then Inr ()
      else Inl (Invalid (''LMDB table '' @ quoted (Table_name table) @ '' is unavailable'')))"

section \<open>Read transactions\<close>

definition txn_get ::
  "'s heed \<Rightarrow> 'a bincode \<Rightarrow> zstd \<Rightarrow> bytes option \<Rightarrow> 's \<Rightarrow> Table \<Rightarrow> string \<Rightarrow> StorageError + 'a option" where
  "txn_get H bc z dictionary s table key =
     rbind (validate_key key) (\<lambda>_.
     rbind (database H s table) (\<lambda>_.
     rbind (h_get H s table key) (\<lambda>found.
       transpose_result (map_option (decode_stored_record bc z dictionary table) found))))"

text \<open>The loops of the scans: decode and collect, until the limit is reached or \<open>stop\<close> ends it.\<close>

fun collect_items ::
  "(bytes \<Rightarrow> StorageError + 'a) \<Rightarrow> (string \<Rightarrow> bool) \<Rightarrow> (string \<Rightarrow> bool) \<Rightarrow> nat \<Rightarrow> items
     \<Rightarrow> StorageError + (string \<times> 'a) list" where
  "collect_items dec stop skip n [] = Inr []"
| "collect_items dec stop skip n (Inl e # xs) = Inl e"
| "collect_items dec stop skip n (Inr (k, v) # xs) =
     (if stop k then Inr []
      else if skip k then collect_items dec stop skip n xs
      else
        rbind (dec v) (\<lambda>x.
          if n \<le> 1 then Inr [(k, x)]
          else rbind (collect_items dec stop skip (n - 1) xs) (\<lambda>r. Inr ((k, x) # r))))"

definition scan_prefix_after ::
  "'s heed \<Rightarrow> 'a bincode \<Rightarrow> zstd \<Rightarrow> bytes option \<Rightarrow> 's \<Rightarrow> Table \<Rightarrow> string \<Rightarrow> string option \<Rightarrow> nat
     \<Rightarrow> StorageError + (string \<times> 'a) list" where
  "scan_prefix_after H bc z dictionary s table pre after limit =
     (if limit = 0 then Inr []
      else
        rbind (validate_prefix pre) (\<lambda>_.
        rbind (case after of Some cursor \<Rightarrow> validate_key cursor | None \<Rightarrow> Inr ()) (\<lambda>_.
        rbind (database H s table) (\<lambda>_.
          let dec = decode_stored_record bc z dictionary table in
          case after of
            Some cursor \<Rightarrow>
              rbind (h_range_after H s table cursor)
                (collect_items dec (\<lambda>k. \<not> starts_with pre k) (\<lambda>_. False) limit)
          | None \<Rightarrow>
              if pre = [] then rbind (h_iter H s table) (collect_items dec (\<lambda>_. False) (\<lambda>_. False) limit)
              else rbind (h_prefix_iter H s table pre) (collect_items dec (\<lambda>_. False) (\<lambda>_. False) limit)))))"

definition scan_prefix ::
  "'s heed \<Rightarrow> 'a bincode \<Rightarrow> zstd \<Rightarrow> bytes option \<Rightarrow> 's \<Rightarrow> Table \<Rightarrow> string \<Rightarrow> nat
     \<Rightarrow> StorageError + (string \<times> 'a) list" where
  "scan_prefix H bc z dictionary s table pre limit = scan_prefix_after H bc z dictionary s table pre None limit"

definition scan_prefix_reverse_after ::
  "'s heed \<Rightarrow> 'a bincode \<Rightarrow> 's \<Rightarrow> Table \<Rightarrow> string \<Rightarrow> string option \<Rightarrow> nat
     \<Rightarrow> StorageError + (string \<times> 'a) list" where
  "scan_prefix_reverse_after H bc s table pre after limit =
     (if limit = 0 then Inr []
      else
        rbind (validate_prefix pre) (\<lambda>_.
        rbind (case after of Some cursor \<Rightarrow> validate_key cursor | None \<Rightarrow> Inr ()) (\<lambda>_.
        rbind (database H s table) (\<lambda>_.
        rbind (h_rev_prefix_iter H s table pre)
          (collect_items (decode_record bc) (\<lambda>_. False)
             (\<lambda>k. case after of Some cursor \<Rightarrow> cursor \<le> k | None \<Rightarrow> False) limit)))))"

section \<open>Write transactions\<close>

definition txn_put ::
  "'s heed \<Rightarrow> 'a bincode \<Rightarrow> zstd \<Rightarrow> bytes option \<Rightarrow> Table \<Rightarrow> string \<Rightarrow> 'a \<Rightarrow> 's \<Rightarrow> StorageError + 's" where
  "txn_put H bc z dictionary table key v s =
     rbind (validate_key key) (\<lambda>_.
     rbind (if table = RequestLogs then encode_record_maybe_compressed bc z dictionary v else encode_record bc v) (\<lambda>encoded.
     rbind (database H s table) (\<lambda>_. h_put H table key encoded s)))"

definition put_if_absent ::
  "'s heed \<Rightarrow> 'a bincode \<Rightarrow> zstd \<Rightarrow> bytes option \<Rightarrow> Table \<Rightarrow> string \<Rightarrow> 'a \<Rightarrow> 's \<Rightarrow> StorageError + 's" where
  "put_if_absent H bc z dictionary table key v s =
     rbind (validate_key key) (\<lambda>_.
     rbind (database H s table) (\<lambda>_.
     rbind (h_get H s table key) (\<lambda>found.
       if found \<noteq> None then Inl Conflict else txn_put H bc z dictionary table key v s)))"

definition put_raw :: "'s heed \<Rightarrow> Table \<Rightarrow> string \<Rightarrow> bytes \<Rightarrow> 's \<Rightarrow> StorageError + 's" where
  "put_raw H table key v s =
     rbind (validate_key key) (\<lambda>_. rbind (database H s table) (\<lambda>_. h_put H table key v s))"

definition txn_delete :: "'s heed \<Rightarrow> Table \<Rightarrow> string \<Rightarrow> 's \<Rightarrow> StorageError + bool \<times> 's" where
  "txn_delete H table key s =
     rbind (validate_key key) (\<lambda>_. rbind (database H s table) (\<lambda>_. h_delete H table key s))"

definition txn_clear :: "'s heed \<Rightarrow> Table \<Rightarrow> 's \<Rightarrow> StorageError + 's" where
  "txn_clear H table s = rbind (database H s table) (\<lambda>_. h_clear H table s)"

fun take_keys :: "nat \<Rightarrow> items \<Rightarrow> StorageError + string list" where
  "take_keys 0 xs = Inr []"
| "take_keys (Suc n) [] = Inr []"
| "take_keys (Suc n) (Inl e # xs) = Inl e"
| "take_keys (Suc n) (Inr (k, v) # xs) = rbind (take_keys n xs) (\<lambda>ks. Inr (k # ks))"

fun delete_keys :: "'s heed \<Rightarrow> Table \<Rightarrow> string list \<Rightarrow> nat \<Rightarrow> 's \<Rightarrow> StorageError + nat \<times> 's" where
  "delete_keys H table [] deleted s = Inr (deleted, s)"
| "delete_keys H table (k # ks) deleted s =
     rbind (h_delete H table k s) (\<lambda>(existed, s').
       delete_keys H table ks (sat_add u64_max deleted (if existed then 1 else 0)) s')"

text \<open>
  The deletion loop runs in batches of 256 keys until the prefix is empty. The fuel bounds the number
  of batches; \<open>None\<close> means that it ran out.
\<close>

fun delete_prefix_loop ::
  "'s heed \<Rightarrow> Table \<Rightarrow> string \<Rightarrow> nat \<Rightarrow> nat \<Rightarrow> 's \<Rightarrow> (StorageError + nat \<times> 's) option" where
  "delete_prefix_loop H table pre 0 deleted s = None"
| "delete_prefix_loop H table pre (Suc fuel) deleted s =
     (case rbind (h_prefix_iter H s table pre) (take_keys 256) of
        Inl e \<Rightarrow> Some (Inl e)
      | Inr [] \<Rightarrow> Some (Inr (deleted, s))
      | Inr (k # ks) \<Rightarrow>
          (case delete_keys H table (k # ks) deleted s of
             Inl e \<Rightarrow> Some (Inl e)
           | Inr (deleted', s') \<Rightarrow> delete_prefix_loop H table pre fuel deleted' s'))"

definition delete_prefix ::
  "'s heed \<Rightarrow> nat \<Rightarrow> Table \<Rightarrow> string \<Rightarrow> 's \<Rightarrow> (StorageError + nat \<times> 's) option" where
  "delete_prefix H fuel table pre s =
     (case validate_prefix pre of
        Inl e \<Rightarrow> Some (Inl e)
      | Inr _ \<Rightarrow>
          if pre = [] then Some (Inl (Invalid ''deleting an entire LMDB table must use clear()''))
          else
            case database H s table of
              Inl e \<Rightarrow> Some (Inl e)
            | Inr _ \<Rightarrow> delete_prefix_loop H table pre fuel 0 s)"

section \<open>Snapshots\<close>

record SnapshotEntry =
  entry_table :: Table
  entry_key :: string
  entry_value :: bytes

definition excluded_from_snapshot :: "Table \<Rightarrow> bool \<Rightarrow> bool" where
  "excluded_from_snapshot table include_request_logs =
     (table \<in> {AdminSessionFamilies, AdminRefreshTokens, SessionIndex, StreamRuns, StreamEvents, StreamRunApiKeyIndex} \<or>
      (\<not> include_request_logs \<and>
       table \<in> {RequestLogs, RequestLogIndex, UsageMinutes, UsageWindows, StatisticsState, UsageExpiryCursor,
                StatisticsIndex, ProviderUsageMeters}))"

definition MAX_SNAPSHOT_ENTRIES :: nat where "MAX_SNAPSHOT_ENTRIES = 2000000"

fun snapshot_table ::
  "int bincode \<Rightarrow> Record bincode \<Rightarrow> bool \<Rightarrow> nat \<Rightarrow> Table \<Rightarrow> items \<Rightarrow> SnapshotEntry list \<times> nat
     \<Rightarrow> StorageError + SnapshotEntry list \<times> nat" where
  "snapshot_table ic rc include max_bytes table [] acc = Inr acc"
| "snapshot_table ic rc include max_bytes table (Inl e # xs) acc = Inl e"
| "snapshot_table ic rc include max_bytes table (Inr (key, raw) # xs) (entries, bytes_seen) =
     (if table = Meta \<and> key = ''storage_format_version''
      then snapshot_table ic rc include max_bytes table xs (entries, bytes_seen)
      else
        rbind (if \<not> include \<and> table = Meta \<and> key = ''request_log_count'' then encode_record ic 0
               else if \<not> include \<and> table = ApiKeys then
                 rbind (decode_record rc raw) (\<lambda>r. encode_record rc (hm_insert ''request_count'' (I64 0) r))
               else Inr raw) (\<lambda>v.
        case Option.bind (checked_add u64_max bytes_seen (str_len key)) (\<lambda>n. checked_add u64_max n (length v)) of
          None \<Rightarrow> Inl (Invalid ''LMDB snapshot size overflowed'')
        | Some seen \<Rightarrow>
            if max_bytes < seen \<or> MAX_SNAPSHOT_ENTRIES \<le> length entries then
              Inl (Invalid ''LMDB snapshot exceeds its configured size or record limit'')
            else
              snapshot_table ic rc include max_bytes table xs
                (entries @ [\<lparr>entry_table = table, entry_key = key, entry_value = v\<rparr>], seen)))"

fun snapshot_tables ::
  "'s heed \<Rightarrow> int bincode \<Rightarrow> Record bincode \<Rightarrow> bool \<Rightarrow> nat \<Rightarrow> 's \<Rightarrow> Table list \<Rightarrow> SnapshotEntry list \<times> nat
     \<Rightarrow> StorageError + SnapshotEntry list \<times> nat" where
  "snapshot_tables H ic rc include max_bytes s [] acc = Inr acc"
| "snapshot_tables H ic rc include max_bytes s (table # ts) acc =
     (if excluded_from_snapshot table include then snapshot_tables H ic rc include max_bytes s ts acc
      else
        rbind (database H s table) (\<lambda>_.
        rbind (h_iter H s table) (\<lambda>xs.
        rbind (snapshot_table ic rc include max_bytes table xs acc)
          (snapshot_tables H ic rc include max_bytes s ts))))"

definition snapshot_entries ::
  "'s heed \<Rightarrow> int bincode \<Rightarrow> Record bincode \<Rightarrow> bool \<Rightarrow> nat \<Rightarrow> 's \<Rightarrow> StorageError + SnapshotEntry list" where
  "snapshot_entries H ic rc include max_bytes s =
     rbind (snapshot_tables H ic rc include max_bytes s Table_ALL ([], 0)) (\<lambda>(entries, _). Inr entries)"

fun clear_tables :: "'s heed \<Rightarrow> Table list \<Rightarrow> 's \<Rightarrow> StorageError + 's" where
  "clear_tables H [] s = Inr s"
| "clear_tables H (t # ts) s = rbind (txn_clear H t s) (clear_tables H ts)"

fun put_entries :: "'s heed \<Rightarrow> SnapshotEntry list \<Rightarrow> 's \<Rightarrow> StorageError + 's" where
  "put_entries H [] s = Inr s"
| "put_entries H (e # es) s = rbind (put_raw H (entry_table e) (entry_key e) (entry_value e) s) (put_entries H es)"

definition replace_snapshot_entries ::
  "'s heed \<Rightarrow> nat bincode \<Rightarrow> zstd \<Rightarrow> bytes option \<Rightarrow> SnapshotEntry list \<Rightarrow> 's \<Rightarrow> StorageError + 's" where
  "replace_snapshot_entries H vc z dictionary entries s =
     rbind (txn_get H vc z dictionary s Meta ''storage_format_version'') (\<lambda>stored.
     rbind (ok_or (Invalid ''LMDB storage format version is missing'') stored) (\<lambda>version.
     rbind (clear_tables H Table_ALL s) (\<lambda>s1.
     rbind (txn_put H vc z dictionary Meta ''storage_format_version'' version s1) (put_entries H entries))))"

section \<open>What the code relies on in LMDB, bincode and zstd\<close>

type_synonym contents = "Table \<Rightarrow> (string \<times> bytes) list"

text \<open>
  A transaction shows the contents of its tables, in the order of the keys. LMDB compares keys as
  byte strings, which is the order of the scalar values.
\<close>

definition lmdb_view :: "'s heed \<Rightarrow> 's \<Rightarrow> contents \<Rightarrow> bool" where
  "lmdb_view H s c \<longleftrightarrow> (\<forall>t k.
     opened H s t \<and> sorted_wrt (<) (map fst (c t)) \<and>
     h_get H s t k = Inr (map_of (c t) k) \<and>
     h_iter H s t = Inr (map Inr (c t)) \<and>
     h_range_after H s t k = Inr (map Inr (filter (\<lambda>(k', _). k < k') (c t))) \<and>
     h_prefix_iter H s t k = Inr (map Inr (filter (\<lambda>(k', _). starts_with k k') (c t))) \<and>
     h_rev_prefix_iter H s t k = Inr (map Inr (rev (filter (\<lambda>(k', _). starts_with k k') (c t)))))"

definition kv_delete :: "string \<Rightarrow> (string \<times> bytes) list \<Rightarrow> (string \<times> bytes) list" where
  "kv_delete k xs = filter (\<lambda>(k', _). k' \<noteq> k) xs"

definition kv_put :: "string \<Rightarrow> bytes \<Rightarrow> (string \<times> bytes) list \<Rightarrow> (string \<times> bytes) list" where
  "kv_put k v xs = filter (\<lambda>(k', _). k' < k) xs @ (k, v) # filter (\<lambda>(k', _). k < k') xs"

definition lmdb_writes :: "'s heed \<Rightarrow> bool" where
  "lmdb_writes H \<longleftrightarrow> (\<forall>s c t k v. lmdb_view H s c \<longrightarrow>
     (\<exists>s'. h_put H t k v s = Inr s' \<and> lmdb_view H s' (c(t := kv_put k v (c t)))) \<and>
     (\<exists>s'. h_delete H t k s = Inr (map_of (c t) k \<noteq> None, s') \<and> lmdb_view H s' (c(t := kv_delete k (c t)))) \<and>
     (\<exists>s'. h_clear H t s = Inr s' \<and> lmdb_view H s' (c(t := []))))"

definition bincode_roundtrip :: "'a bincode \<Rightarrow> 'a \<Rightarrow> bool" where
  "bincode_roundtrip bc v \<longleftrightarrow> (\<exists>bs. serialize bc v = Inr bs \<and> deserialize bc bs = Inr v)"

text \<open>
  zstd decompresses what it compressed with the same dictionary, if the size is allowed. A frame
  written without dictionary is also read when one is loaded.
\<close>

definition zstd_roundtrip :: "zstd \<Rightarrow> bool" where
  "zstd_roundtrip z \<longleftrightarrow> (\<forall>w r bs n. (w = r \<or> w = None) \<and> length bs \<le> n \<longrightarrow>
     (\<exists>frame. compress z w bs = Inr frame \<and> decompress z r frame n = Inr bs))"

section \<open>An in-memory instance\<close>

text \<open>Tables as sorted lists: it satisfies the hypotheses and serves the concrete examples.\<close>

definition mem_heed :: "contents heed" where
  "mem_heed =
     \<lparr>opened = (\<lambda>s t. True),
      h_get = (\<lambda>s t k. Inr (map_of (s t) k)),
      h_iter = (\<lambda>s t. Inr (map Inr (s t))),
      h_range_after = (\<lambda>s t k. Inr (map Inr (filter (\<lambda>(k', _). k < k') (s t)))),
      h_prefix_iter = (\<lambda>s t k. Inr (map Inr (filter (\<lambda>(k', _). starts_with k k') (s t)))),
      h_rev_prefix_iter = (\<lambda>s t k. Inr (map Inr (rev (filter (\<lambda>(k', _). starts_with k k') (s t))))),
      h_put = (\<lambda>t k v s. Inr (s(t := kv_put k v (s t)))),
      h_delete = (\<lambda>t k s. Inr (map_of (s t) k \<noteq> None, s(t := kv_delete k (s t)))),
      h_clear = (\<lambda>t s. Inr (s(t := [])))\<rparr>"

definition stored_zstd :: zstd where
  "stored_zstd =
     \<lparr>compress = (\<lambda>d bs. Inr bs),
      decompress = (\<lambda>d frame n. if length frame \<le> n then Inr frame else Inl ''too large'')\<rparr>"

definition bytes_bincode :: "bytes bincode" where
  "bytes_bincode = \<lparr>serialize = Inr, deserialize = Inr\<rparr>"

lemma lmdb_viewD:
  assumes "lmdb_view H s c"
  shows "opened H s t" "sorted_wrt (<) (map fst (c t))" "h_get H s t k = Inr (map_of (c t) k)"
    "h_iter H s t = Inr (map Inr (c t))"
    "h_range_after H s t k = Inr (map Inr (filter (\<lambda>(k', _). k < k') (c t)))"
    "h_prefix_iter H s t k = Inr (map Inr (filter (\<lambda>(k', _). starts_with k k') (c t)))"
    "h_rev_prefix_iter H s t k = Inr (map Inr (rev (filter (\<lambda>(k', _). starts_with k k') (c t))))"
  using assms unfolding lmdb_view_def by blast+

lemma sorted_keys_filter: "sorted_wrt (<) (map fst xs) \<Longrightarrow> sorted_wrt (<) (map fst (filter P xs))"
  by (induction xs) auto

lemma mem_heed_view: "lmdb_view mem_heed c c \<longleftrightarrow> (\<forall>t. sorted_wrt (<) (map fst (c t)))"
  by (auto simp: lmdb_view_def mem_heed_def)

lemma mem_heed_view_eq: "lmdb_view mem_heed s c \<Longrightarrow> s = c"
proof
  fix t
  assume "lmdb_view mem_heed s c"
  then have "h_iter mem_heed s t = Inr (map Inr (c t))" by (rule lmdb_viewD(4))
  then have "map Inr (s t) = (map Inr (c t) :: items)" by (simp add: mem_heed_def)
  then show "s t = c t" by (simp add: inj_map_eq_map inj_def)
qed

lemma sorted_kv_put:
  assumes "sorted_wrt (<) (map fst xs)"
  shows "sorted_wrt (<) (map fst (kv_put k v xs))"
  using sorted_keys_filter [OF assms] less_trans
  by (auto simp: kv_put_def sorted_wrt_append)

lemma sorted_kv_delete: "sorted_wrt (<) (map fst xs) \<Longrightarrow> sorted_wrt (<) (map fst (kv_delete k xs))"
  by (simp add: kv_delete_def sorted_keys_filter)

lemma mem_heed_writes: "lmdb_writes mem_heed"
  unfolding lmdb_writes_def
proof (intro allI impI)
  fix s c :: contents and t :: Table and k :: string and v :: bytes
  assume view: "lmdb_view mem_heed s c"
  then have s: "s = c" by (rule mem_heed_view_eq)
  have sorted: "\<And>t. sorted_wrt (<) (map fst (c t))" using lmdb_viewD(2) [OF view] .
  then show "(\<exists>s'. h_put mem_heed t k v s = Inr s' \<and> lmdb_view mem_heed s' (c(t := kv_put k v (c t)))) \<and>
     (\<exists>s'. h_delete mem_heed t k s = Inr (map_of (c t) k \<noteq> None, s') \<and> lmdb_view mem_heed s' (c(t := kv_delete k (c t)))) \<and>
     (\<exists>s'. h_clear mem_heed t s = Inr s' \<and> lmdb_view mem_heed s' (c(t := [])))"
    unfolding s
    using mem_heed_view [of "c(t := kv_put k v (c t))"] mem_heed_view [of "c(t := kv_delete k (c t))"]
      mem_heed_view [of "c(t := [])"]
    by (simp add: mem_heed_def sorted_kv_put sorted_kv_delete)
qed

lemma stored_zstd_roundtrip: "zstd_roundtrip stored_zstd"
  by (auto simp: zstd_roundtrip_def stored_zstd_def)

section \<open>Scans\<close>

lemma prefix_convex:
  "starts_with p (a :: string) \<Longrightarrow> starts_with p b \<Longrightarrow> a \<le> k \<Longrightarrow> k \<le> b \<Longrightarrow> starts_with p k"
proof (induction p arbitrary: a b k)
  case (Cons x p)
  from Cons.prems(1,2) obtain a' b' where ab: "a = x # a'" "b = x # b'" "starts_with p a'" "starts_with p b'"
    by (cases a; cases b) (auto simp: starts_with_def)
  show ?case
  proof (cases k)
    case Nil
    with Cons.prems(3) ab show ?thesis by simp
  next
    case (Cons y k')
    with Cons.prems(3,4) ab have "y = x" by auto
    with Cons ab Cons.prems(3,4) Cons.IH [of a' b' k'] show ?thesis by (simp add: starts_with_def)
  qed
qed (simp add: starts_with_def)

text \<open>Stopping at the first foreign key loses nothing once the scan is inside the prefix.\<close>

lemma takeWhile_prefix:
  assumes "sorted_wrt (<) (map fst (xs :: (string \<times> 'b) list))" and "starts_with pre c" and "\<forall>x \<in> set xs. c < fst x"
  shows "takeWhile (\<lambda>(k, _). starts_with pre k) xs = filter (\<lambda>(k, _). starts_with pre k) xs"
  using assms
proof (induction xs)
  case (Cons x xs)
  show ?case
  proof (cases "starts_with pre (fst x)")
    case True
    with Cons show ?thesis by (auto simp: case_prod_unfold)
  next
    case False
    have "\<not> starts_with pre (fst y)" if "y \<in> set xs" for y
    proof
      assume "starts_with pre (fst y)"
      moreover have "fst x < fst y" using Cons.prems(1) that by auto
      ultimately show False
        using False prefix_convex [OF Cons.prems(2), of "fst y" "fst x"] Cons.prems(3)
        by (metis less_imp_le list.set_intros(1))
    qed
    with False show ?thesis by (auto simp: case_prod_unfold filter_empty_conv)
  qed
qed simp

lemma takeWhile_pair_True [simp]: "takeWhile (\<lambda>(k, _). True) xs = xs"
  by (induction xs) auto

lemma collect_items_total:
  assumes "\<forall>x \<in> set xs. dec (snd x) = Inr (f (snd x))" and "0 < n"
  shows "collect_items dec stop (\<lambda>_. False) n (map Inr xs) =
           Inr (map (\<lambda>(k, v). (k, f v)) (take n (takeWhile (\<lambda>(k, _). \<not> stop k) xs)))"
  using assms
proof (induction xs arbitrary: n)
  case (Cons x xs)
  obtain k v where x: "x = (k, v)" by fastforce
  show ?case
  proof (cases "n \<le> 1")
    case True
    with Cons.prems x show ?thesis by (simp add: le_Suc_eq)
  next
    case False
    then obtain m where "n = Suc m" "0 < m" by (cases n) auto
    with Cons x show ?thesis by simp
  qed
qed simp

definition prefix_entries :: "contents \<Rightarrow> Table \<Rightarrow> string \<Rightarrow> string option \<Rightarrow> (string \<times> bytes) list" where
  "prefix_entries c t pre after =
     filter (\<lambda>(k, _). starts_with pre k \<and> (case after of Some a \<Rightarrow> a < k | None \<Rightarrow> True)) (c t)"

lemma scan_prefix_after_spec:
  assumes view: "lmdb_view H s c" and valid: "validate_prefix pre = Inr ()"
    and after: "\<forall>a. after = Some a \<longrightarrow> validate_key a = Inr () \<and> starts_with pre a"
    and dec: "\<forall>x \<in> set (c t). decode_stored_record bc z d t (snd x) = Inr (f (snd x))"
    and "0 < limit"
  shows "scan_prefix_after H bc z d s t pre after limit =
           Inr (map (\<lambda>(k, v). (k, f v)) (take limit (prefix_entries c t pre after)))"
proof (cases after)
  case None
  have dec': "\<forall>x \<in> set (filter P (c t)). decode_stored_record bc z d t (snd x) = Inr (f (snd x))" for P
    using dec by auto
  show ?thesis
  proof (cases "pre = []")
    case True
    with None valid assms(5) show ?thesis
      using collect_items_total [OF dec, where stop = "\<lambda>_. False"]
      by (simp add: scan_prefix_after_def database_def lmdb_viewD [OF view] prefix_entries_def starts_with_def)
  next
    case False
    with None valid assms(5) show ?thesis
      using collect_items_total [OF dec', where stop = "\<lambda>_. False"]
      by (simp add: scan_prefix_after_def database_def lmdb_viewD [OF view] prefix_entries_def)
  qed
next
  case (Some a)
  let ?xs = "filter (\<lambda>(k', _). a < k') (c t)"
  have dec': "\<forall>x \<in> set ?xs. decode_stored_record bc z d t (snd x) = Inr (f (snd x))"
    using dec by auto
  have "takeWhile (\<lambda>(k, _). starts_with pre k) ?xs = filter (\<lambda>(k, _). starts_with pre k) ?xs"
    using after Some sorted_keys_filter [OF lmdb_viewD(2) [OF view]]
    by (intro takeWhile_prefix [where c = a]) auto
  then have "takeWhile (\<lambda>(k, _). starts_with pre k) ?xs = prefix_entries c t pre after"
    using Some by (simp add: prefix_entries_def case_prod_unfold conj_commute)
  with Some valid after assms(5) show ?thesis
    using collect_items_total [OF dec', where stop = "\<lambda>k. \<not> starts_with pre k"]
    by (simp add: scan_prefix_after_def database_def lmdb_viewD [OF view] Let_def)
qed

text \<open>A reader that walks a prefix page by page, each page starting after the last key of the one before.\<close>

fun scan_all ::
  "nat \<Rightarrow> 's heed \<Rightarrow> 'a bincode \<Rightarrow> zstd \<Rightarrow> bytes option \<Rightarrow> 's \<Rightarrow> Table \<Rightarrow> string \<Rightarrow> string option \<Rightarrow> nat
     \<Rightarrow> (StorageError + (string \<times> 'a) list) option" where
  "scan_all 0 H bc z d s t pre after limit = None"
| "scan_all (Suc fuel) H bc z d s t pre after limit =
     (case scan_prefix_after H bc z d s t pre after limit of
        Inl e \<Rightarrow> Some (Inl e)
      | Inr page \<Rightarrow>
          if length page < limit then Some (Inr page)
          else
            case scan_all fuel H bc z d s t pre (Some (fst (last page))) limit of
              None \<Rightarrow> None
            | Some (Inl e) \<Rightarrow> Some (Inl e)
            | Some (Inr rest) \<Rightarrow> Some (Inr (page @ rest)))"

lemma filter_after_last:
  assumes "sorted_wrt (<) (map fst (xs :: (string \<times> 'b) list))" and "n \<le> length xs" and "0 < n"
  shows "filter (\<lambda>(k, _). fst (last (take n xs)) < k) xs = drop n xs"
  using assms
proof (induction xs arbitrary: n)
  case (Cons x xs)
  show ?case
  proof (cases "n = 1")
    case True
    have "filter (\<lambda>(k, _). fst x < k) xs = xs"
      using Cons.prems(1) by (auto simp: filter_id_conv case_prod_unfold)
    with True show ?thesis by (simp add: case_prod_unfold)
  next
    case False
    then obtain m where n: "n = Suc m" "0 < m" using Cons.prems(3) by (cases n) auto
    have ne: "take m xs \<noteq> []" using n Cons.prems(2) by auto
    have "last (take m xs) \<in> set xs" using ne last_in_set set_take_subset by (metis subsetD)
    then have "\<not> fst (last (take m xs)) < fst x" using Cons.prems(1) by auto
    with n ne Cons show ?thesis by (simp add: case_prod_unfold)
  qed
qed simp

lemma last_take_mem: "0 < n \<Longrightarrow> n \<le> length xs \<Longrightarrow> last (take n xs) \<in> set xs"
proof -
  assume "0 < n" "n \<le> length xs"
  then have "take n xs \<noteq> []" by auto
  then show ?thesis using last_in_set in_set_takeD by metis
qed

lemma fst_last_map: "xs \<noteq> [] \<Longrightarrow> fst (last (map (\<lambda>(k, v). (k, f v)) xs)) = fst (last xs)"
  by (simp add: last_map case_prod_unfold)

lemma prefix_entries_page:
  assumes "sorted_wrt (<) (map fst (c t))" and "0 < limit" and "limit \<le> length (prefix_entries c t pre after)"
  shows "prefix_entries c t pre (Some (fst (last (take limit (prefix_entries c t pre after))))) =
           drop limit (prefix_entries c t pre after)"
proof -
  let ?E = "prefix_entries c t pre after"
  let ?l = "last (take limit ?E)"
  have sorted: "sorted_wrt (<) (map fst ?E)" using assms(1) by (simp add: prefix_entries_def sorted_keys_filter)
  have "?l \<in> set ?E" using assms(2,3) by (rule last_take_mem)
  then have after: "\<And>a. after = Some a \<Longrightarrow> a < fst ?l" by (auto simp: prefix_entries_def)
  have "prefix_entries c t pre (Some (fst ?l)) = filter (\<lambda>(k, _). fst ?l < k) ?E"
  proof (cases after)
    case None
    then show ?thesis by (simp add: prefix_entries_def case_prod_unfold conj_commute)
  next
    case (Some a)
    with after have "a < fst ?l" by simp
    then have "\<And>k. fst ?l < k \<Longrightarrow> a < k" using less_trans by blast
    then have "(starts_with pre k \<and> fst ?l < k) = (starts_with pre k \<and> a < k \<and> fst ?l < k)" for k by blast
    then show ?thesis using Some by (simp add: prefix_entries_def case_prod_unfold)
  qed
  then show ?thesis using filter_after_last [OF sorted assms(3,2)] by simp
qed

lemma scan_all_spec:
  assumes view: "lmdb_view H s c" and valid: "validate_prefix pre = Inr ()"
    and keys: "\<forall>x \<in> set (c t). validate_key (fst x) = Inr ()"
    and dec: "\<forall>x \<in> set (c t). decode_stored_record bc z d t (snd x) = Inr (f (snd x))"
    and limit: "0 < limit"
  shows "\<forall>a. after = Some a \<longrightarrow> validate_key a = Inr () \<and> starts_with pre a \<Longrightarrow>
         length (prefix_entries c t pre after) < fuel \<Longrightarrow>
         scan_all fuel H bc z d s t pre after limit =
           Some (Inr (map (\<lambda>(k, v). (k, f v)) (prefix_entries c t pre after)))"
proof (induction fuel arbitrary: after)
  case (Suc fuel)
  let ?E = "prefix_entries c t pre after"
  note page = scan_prefix_after_spec [OF view valid Suc.prems(1) dec limit]
  show ?case
  proof (cases "length ?E < limit")
    case True
    with page show ?thesis by simp
  next
    case False
    let ?a = "fst (last (take limit ?E))"
    have mem: "last (take limit ?E) \<in> set ?E"
      using False limit by (intro last_take_mem) auto
    then have next_ok: "\<forall>a. Some ?a = Some a \<longrightarrow> validate_key a = Inr () \<and> starts_with pre a"
      using keys by (auto simp: prefix_entries_def)
    have rest: "prefix_entries c t pre (Some ?a) = drop limit ?E"
      using prefix_entries_page [OF lmdb_viewD(2) [OF view] limit] False by simp
    have last: "fst (last (map (\<lambda>(k, v). (k, f v)) (take limit ?E))) = ?a"
      using False limit by (intro fst_last_map) auto
    have "scan_all fuel H bc z d s t pre (Some ?a) limit =
        Some (Inr (map (\<lambda>(k, v). (k, f v)) (drop limit ?E)))"
      using Suc.IH [OF next_ok] rest Suc.prems(2) limit False by simp
    then show ?thesis
      using page False last by (simp flip: map_append)
  qed
qed simp

section \<open>Properties\<close>

text \<open>C31: Walking a key prefix page by page, each page starting after the last key of the page before, returns
  every stored entry of the prefix exactly once and in key order, whatever the page size; with one page
  more than there are entries the walk ends.\<close>

theorem paged_scan_complete:
  assumes "lmdb_view H s c" and "validate_prefix pre = Inr ()" and "0 < limit"
    and "\<forall>x \<in> set (c t). validate_key (fst x) = Inr () \<and> decode_stored_record bc z d t (snd x) = Inr (f (snd x))"
    and "length (c t) < fuel"
  shows "scan_all fuel H bc z d s t pre None limit =
           Some (Inr (map (\<lambda>(k, v). (k, f v)) (filter (\<lambda>(k, _). starts_with pre k) (c t))))"
proof -
  have "length (prefix_entries c t pre None) \<le> length (c t)" by (simp add: prefix_entries_def)
  with assms(5) have "length (prefix_entries c t pre None) < fuel" by simp
  with scan_all_spec [OF assms(1,2) _ _ assms(3), of t bc z d f None fuel] assms(4)
  show ?thesis by (simp add: prefix_entries_def)
qed

definition example_contents :: contents where
  "example_contents t = (if t = Meta then [(''a/1'', [1]), (''b/1'', [2]), (''b/2'', [3]), (''c'', [4])] else [])"

lemma example_view: "lmdb_view mem_heed example_contents example_contents"
  by (simp add: mem_heed_view example_contents_def less_char_def)

theorem paged_scan_complete_witness:
  "scan_all 5 mem_heed bytes_bincode stored_zstd None example_contents Meta ''b/'' None 1 =
     Some (Inr [(''b/1'', [2]), (''b/2'', [3])])"
  using paged_scan_complete [OF example_view, of "''b/''" 1 Meta bytes_bincode stored_zstd None "\<lambda>v. v" 5]
  by (simp add: example_contents_def validate_prefix_def validate_key_def str_bytes_def char_bytes_def
      char_utf8_len_def MAX_STORAGE_KEY_BYTES_def decode_stored_record_def bytes_bincode_def starts_with_def)

lemma log_codec:
  assumes "zstd_roundtrip z" and "serialize bc v = Inr payload" and "deserialize bc payload = Inr v"
    and "length payload \<le> MAX_COMPRESSED_EXPANSION" and "written = loaded \<or> written = None"
  shows "\<exists>bs. encode_record_maybe_compressed bc z written v = Inr bs \<and>
           decode_stored_record bc z loaded RequestLogs bs = Inr v \<and>
           decode_request_log_bytes bc z loaded bs = Inr v"
proof -
  obtain frame where "compress z written payload = Inr frame"
    "decompress z loaded frame MAX_COMPRESSED_EXPANSION = Inr payload"
    using assms(1,4,5) unfolding zstd_roundtrip_def by blast
  then show ?thesis
    using assms(2,3)
    by (auto simp: encode_record_maybe_compressed_def encode_record_def compress_record_payload_def
        decode_stored_record_def decode_request_log_bytes_def decompressed_request_log_payload_def
        decompress_frame_def is_compressed_record_def)
qed

text \<open>A request log written through the compressing encoder is read back by the table decoder and by the
  snapshot decoder, raw or compressed, also when a dictionary was loaded after it was written; in particular a
  raw payload that begins with the marker byte is never taken for a frame.\<close>

lemma request_log_roundtrip:
  assumes "zstd_roundtrip z" and "serialize bc v = Inr payload" and "deserialize bc payload = Inr v"
    and "length payload \<le> MAX_COMPRESSED_EXPANSION" and "written = loaded \<or> written = None"
  shows "\<exists>bs. encode_record_maybe_compressed bc z written v = Inr bs \<and>
           decode_stored_record bc z loaded RequestLogs bs = Inr v \<and>
           decode_request_log_bytes bc z loaded bs = Inr v"
  using log_codec [OF assms] .

lemma map_of_kv_put:
  assumes "sorted_wrt (<) (map fst xs)"
  shows "map_of (kv_put k v xs) k' = (if k' = k then Some v else map_of xs k')"
proof -
  have d: "map_of (filter (\<lambda>(k, _). P k) ys) k' = (if P k' then map_of ys k' else None)" for P and ys :: "(string \<times> bytes) list"
    by (induction ys) auto
  show ?thesis by (auto simp: kv_put_def map_add_def d split: option.splits dest: less_asym)
qed

lemma lmdb_put:
  assumes "lmdb_writes H" and "lmdb_view H s c"
  obtains s' where "h_put H t k v s = Inr s'" "lmdb_view H s' (c(t := kv_put k v (c t)))"
  using assms unfolding lmdb_writes_def by blast

lemma lmdb_delete:
  assumes "lmdb_writes H" and "lmdb_view H s c"
  obtains s' where "h_delete H t k s = Inr (map_of (c t) k \<noteq> None, s')" "lmdb_view H s' (c(t := kv_delete k (c t)))"
  using assms unfolding lmdb_writes_def by blast

text \<open>What a transaction puts under a valid key is what \<open>get\<close> returns for it, for every table including the
  compressed request logs, and every other key keeps its value; \<open>put_if_absent\<close> does the same exactly when the
  key is free and reports a conflict otherwise.\<close>

lemma put_then_get:
  assumes "lmdb_writes H" and "lmdb_view H s c" and "validate_key key = Inr ()" and "zstd_roundtrip z"
    and "serialize bc v = Inr payload" and "deserialize bc payload = Inr v"
    and "length payload \<le> MAX_COMPRESSED_EXPANSION"
  shows "\<exists>s'. txn_put H bc z d table key v s = Inr s' \<and>
           txn_get H bc z d s' table key = Inr (Some v) \<and>
           (\<forall>t k. (t, k) \<noteq> (table, key) \<longrightarrow> txn_get H bc z d s' t k = txn_get H bc z d s t k) \<and>
           put_if_absent H bc z d table key v s =
             (if map_of (c table) key = None then Inr s' else Inl Conflict)"
proof -
  let ?enc = "if table = RequestLogs then encode_record_maybe_compressed bc z d v else encode_record bc v"
  obtain bs where bs: "?enc = Inr bs" "decode_stored_record bc z d table bs = Inr v"
  proof (cases "table = RequestLogs")
    case True
    then show ?thesis using that log_codec [OF assms(4-7), of d d] by auto
  next
    case False
    then show ?thesis using that assms(5,6) by (auto simp: encode_record_def decode_stored_record_def)
  qed
  obtain s' where s': "h_put H table key bs s = Inr s'" "lmdb_view H s' (c(table := kv_put key bs (c table)))"
    using lmdb_put [OF assms(1,2)] .
  note view = lmdb_viewD [OF assms(2)] and view' = lmdb_viewD [OF s'(2)]
  have put: "txn_put H bc z d table key v s = Inr s'"
    using assms(3) bs(1) s'(1) view(1) by (simp add: txn_put_def database_def)
  moreover have "txn_get H bc z d s' table key = Inr (Some v)"
    using assms(3) bs(2) view'(1,3) by (simp add: txn_get_def database_def map_of_kv_put [OF view(2)] transpose_result_def)
  moreover have "txn_get H bc z d s' t k = txn_get H bc z d s t k" if "(t, k) \<noteq> (table, key)" for t k
    using that view(1,3) view'(1,3)
    by (auto simp: txn_get_def database_def map_of_kv_put [OF view(2)])
  moreover have "put_if_absent H bc z d table key v s =
      (if map_of (c table) key = None then Inr s' else Inl Conflict)"
    using put assms(3) view(1,3) by (simp add: put_if_absent_def database_def)
  ultimately show ?thesis by blast
qed

lemma take_keys_total: "take_keys n (map Inr xs) = Inr (map fst (take n xs))"
proof (induction xs arbitrary: n)
  case Nil
  then show ?case by (cases n) simp_all
next
  case (Cons x xs)
  then show ?case by (cases n; cases x) simp_all
qed

lemma filter_pair_id: "(\<And>x. x \<in> set xs \<Longrightarrow> P (fst x)) \<Longrightarrow> filter (\<lambda>(k, _). P k) xs = xs"
  by (simp add: filter_id_conv case_prod_unfold)

lemma filter_not_taken:
  "distinct (map fst xs) \<Longrightarrow> filter (\<lambda>(k, _). k \<notin> set (map fst (take n xs))) xs = drop n xs"
proof (induction xs arbitrary: n)
  case (Cons x xs)
  show ?case
  proof (cases n)
    case 0
    then show ?thesis using filter_pair_id [of "x # xs" "\<lambda>_. True"] by simp
  next
    case (Suc m)
    have "filter (\<lambda>(k, _). k \<notin> set (map fst (take n (x # xs)))) xs =
        filter (\<lambda>(k, _). k \<notin> set (map fst (take m xs))) xs"
      using Cons.prems Suc by (intro filter_cong) (auto simp: case_prod_unfold rev_image_eqI)
    with Cons Suc show ?thesis by (simp add: case_prod_unfold)
  qed
qed simp

lemma delete_keys_spec:
  assumes "lmdb_writes H"
  shows "lmdb_view H s c \<Longrightarrow> distinct ks \<Longrightarrow> set ks \<subseteq> fst ` set (c t) \<Longrightarrow> n + length ks \<le> u64_max \<Longrightarrow>
    \<exists>s'. delete_keys H t ks n s = Inr (n + length ks, s') \<and>
         lmdb_view H s' (c(t := filter (\<lambda>(k, _). k \<notin> set ks) (c t)))"
proof (induction ks arbitrary: n s c)
  case Nil
  have "filter (\<lambda>(k, _). k \<notin> set []) (c t) = c t" by (rule filter_pair_id) simp
  with Nil.prems(1) show ?case by (simp add: fun_upd_idem)
next
  case (Cons k ks)
  obtain s1 where s1: "h_delete H t k s = Inr (map_of (c t) k \<noteq> None, s1)"
    "lmdb_view H s1 (c(t := kv_delete k (c t)))"
    using lmdb_delete [OF assms Cons.prems(1)] .
  have present: "map_of (c t) k \<noteq> None" using Cons.prems(3) by (simp add: map_of_eq_None_iff)
  have "set ks \<subseteq> fst ` set ((c(t := kv_delete k (c t))) t)"
    using Cons.prems(2,3) by (force simp: kv_delete_def)
  then obtain s2 where "delete_keys H t ks (n + 1) s1 = Inr (n + 1 + length ks, s2)"
    "lmdb_view H s2 (c(t := filter (\<lambda>(k, _). k \<notin> set ks) (kv_delete k (c t))))"
    using Cons.IH [OF s1(2), of "n + 1"] Cons.prems(2,4) by (auto simp del: fun_upd_apply simp: fun_upd_same)
  moreover have "filter (\<lambda>(k', _). k' \<notin> set ks) (kv_delete k (c t)) = filter (\<lambda>(k', _). k' \<notin> set (k # ks)) (c t)"
    by (auto simp: kv_delete_def case_prod_unfold intro: filter_cong)
  ultimately show ?case
    using s1(1) present Cons.prems(4) by (simp add: sat_add_exact del: fun_upd_apply)
qed

lemma delete_prefix_loop_spec:
  assumes "lmdb_writes H"
  shows "lmdb_view H s c \<Longrightarrow> length (filter (\<lambda>(k, _). starts_with pre k) (c t)) < fuel \<Longrightarrow>
    n + length (filter (\<lambda>(k, _). starts_with pre k) (c t)) \<le> u64_max \<Longrightarrow>
    \<exists>s'. delete_prefix_loop H t pre fuel n s = Some (Inr (n + length (filter (\<lambda>(k, _). starts_with pre k) (c t)), s')) \<and>
         lmdb_view H s' (c(t := filter (\<lambda>(k, _). \<not> starts_with pre k) (c t)))"
proof (induction fuel arbitrary: n s c)
  case (Suc fuel)
  let ?E = "filter (\<lambda>(k, _). starts_with pre k) (c t)"
  let ?ks = "map fst (take 256 ?E)"
  note view = lmdb_viewD [OF Suc.prems(1)]
  have keys: "rbind (h_prefix_iter H s t pre) (take_keys 256) = Inr ?ks"
    using view(6) by (simp add: take_keys_total)
  show ?case
  proof (cases "?E = []")
    case True
    then have "filter (\<lambda>(k, _). \<not> starts_with pre k) (c t) = c t"
      by (auto simp: filter_empty_conv filter_id_conv)
    then have "c(t := filter (\<lambda>(k, _). \<not> starts_with pre k) (c t)) = c" by simp
    with Suc.prems(1) True keys show ?thesis by simp
  next
    case False
    have dist: "distinct (map fst ?E)"
      using sorted_keys_filter [OF view(2)] strict_sorted_iff by blast
    let ?c = "c(t := filter (\<lambda>(k, _). k \<notin> set ?ks) (c t))"
    obtain s1 where s1: "delete_keys H t ?ks n s = Inr (n + length ?ks, s1)" "lmdb_view H s1 ?c"
    proof -
      have "distinct ?ks" using dist distinct_take by (metis take_map)
      moreover have "set ?ks \<subseteq> fst ` set (c t)" by (force dest: in_set_takeD)
      moreover have "n + length ?ks \<le> u64_max" using Suc.prems(3) by simp
      ultimately show ?thesis using that delete_keys_spec [OF assms Suc.prems(1)] by blast
    qed
    have E': "filter (\<lambda>(k, _). starts_with pre k) (?c t) = drop 256 ?E"
      using filter_not_taken [OF dist, of 256] by (simp add: case_prod_unfold conj_commute)
    have rest: "filter (\<lambda>(k, _). \<not> starts_with pre k) (?c t) = filter (\<lambda>(k, _). \<not> starts_with pre k) (c t)"
      by (auto simp: case_prod_unfold dest!: in_set_takeD intro!: filter_cong)
    have len: "length ?ks + length (drop 256 ?E) = length ?E" by simp
    have less: "length (drop 256 ?E) < length ?E" using False by simp
    obtain s2 where "delete_prefix_loop H t pre fuel (n + length ?ks) s1 =
        Some (Inr (n + length ?ks + length (drop 256 ?E), s2))"
      "lmdb_view H s2 (c(t := filter (\<lambda>(k, _). \<not> starts_with pre k) (c t)))"
      using Suc.IH [OF s1(2), of "n + length ?ks"] less len Suc.prems(2,3) unfolding E' rest fun_upd_upd
      by (auto simp del: fun_upd_apply)
    moreover obtain k ks where "?ks = k # ks" using False by (cases ?E) auto
    ultimately show ?thesis using keys s1(1) len by (simp del: fun_upd_apply)
  qed
qed simp

text \<open>Deleting a non-empty prefix ends after finitely many batches, removes exactly the keys that start
  with it, reports how many they were and leaves every other entry of every table.\<close>

lemma delete_prefix_exact:
  assumes "lmdb_writes H" and "lmdb_view H s c" and "validate_prefix pre = Inr ()" and "pre \<noteq> []"
    and "length (c t) < fuel" and "length (c t) \<le> u64_max"
  shows "\<exists>s'. delete_prefix H fuel t pre s =
             Some (Inr (length (filter (\<lambda>(k, _). starts_with pre k) (c t)), s')) \<and>
           lmdb_view H s' (c(t := filter (\<lambda>(k, _). \<not> starts_with pre k) (c t)))"
proof -
  let ?n = "length (filter (\<lambda>(k, _). starts_with pre k) (c t))"
  have "?n \<le> length (c t)" by simp
  then have "?n < fuel" "0 + ?n \<le> u64_max" using assms(5,6) by linarith+
  from delete_prefix_loop_spec [OF assms(1,2) this] show ?thesis
    using assms(3,4) lmdb_viewD(1) [OF assms(2)] by (simp add: delete_prefix_def database_def)
qed

end
