(* ===== verification/DbKeys.thy ===== *)
theory DbKeys
  imports Storage
begin

text \<open>
  The index keys of the database (\<^verbatim>\<open>src/infra/db/keys.rs\<close>). SHA-256 is a parameter; the code
  relies on its digests having 32 bytes and on different inputs having different digests.
\<close>

definition REQUEST_LOG_INDEX_PREFIX :: string where
  "REQUEST_LOG_INDEX_PREFIX = ''request_log_by_time/''"

definition REQUEST_LOG_DESC_INDEX_PREFIX :: string where
  "REQUEST_LOG_DESC_INDEX_PREFIX = ''request_log_by_desc/''"

definition checked_key :: "string \<Rightarrow> StorageError + string" where
  "checked_key key = rbind (validate_key key) (\<lambda>_. Inr key)"

definition request_log_index_key :: "string \<Rightarrow> string \<Rightarrow> StorageError + string" where
  "request_log_index_key created_at log_id = checked_key (REQUEST_LOG_INDEX_PREFIX @ created_at @ ''/'' @ log_id)"

definition reverse_sort_component :: "string \<Rightarrow> string" where
  "reverse_sort_component v = concat (map (\<lambda>b. hex_byte (255 - b)) (str_bytes v)) @ ''ff''"

definition request_log_desc_index_key :: "string \<Rightarrow> string \<Rightarrow> StorageError + string" where
  "request_log_desc_index_key created_at log_id =
     checked_key (REQUEST_LOG_DESC_INDEX_PREFIX @ reverse_sort_component created_at @ reverse_sort_component log_id @ ''/'' @ log_id)"

definition request_log_desc_index_key_from_time_key :: "string \<Rightarrow> string \<Rightarrow> StorageError + string" where
  "request_log_desc_index_key_from_time_key index_key log_id =
     (case Option.bind (strip_prefix REQUEST_LOG_INDEX_PREFIX index_key) (split_once (CHR ''/'')) of
        None \<Rightarrow> Inl (Invalid ''request log time index is malformed'')
      | Some (created_at, _) \<Rightarrow> request_log_desc_index_key created_at log_id)"

type_synonym sha256 = "bytes \<Rightarrow> bytes"

definition hash_component :: "sha256 \<Rightarrow> bytes \<Rightarrow> string" where
  "hash_component sha v = concat (map hex_byte (sha v))"

definition provider_model_prefix :: "sha256 \<Rightarrow> string \<Rightarrow> StorageError + string" where
  "provider_model_prefix sha provider_id =
     checked_key (''provider/'' @ hash_component sha (str_bytes provider_id) @ ''/model/'')"

definition provider_model_key :: "sha256 \<Rightarrow> string \<Rightarrow> string \<Rightarrow> StorageError + string" where
  "provider_model_key sha provider_id model =
     (if 256 < str_len model then Inl (Invalid ''provider model exceeds the supported key length'')
      else
        rbind (provider_model_prefix sha provider_id) (\<lambda>pre.
          checked_key (pre @ model @ ''/'' @
            hash_component sha (str_bytes provider_id @ [0] @ str_bytes model))))"

definition provider_model_index_prefix :: "sha256 \<Rightarrow> string \<Rightarrow> StorageError + string" where
  "provider_model_index_prefix sha provider_id =
     checked_key (''provider/'' @ hash_component sha (str_bytes provider_id) @ ''/model-order/'')"

text \<open>\<open>str::to_lowercase\<close> on the modelled characters: the ASCII and Latin-1 capital letters.\<close>

definition to_lowercase :: "string \<Rightarrow> string" where
  "to_lowercase =
     map (\<lambda>c. if (65 \<le> code c \<and> code c \<le> 90) \<or> (192 \<le> code c \<and> code c \<le> 222 \<and> code c \<noteq> 215)
              then char_of (code c + 32) else c)"

definition provider_model_index_key :: "sha256 \<Rightarrow> string \<Rightarrow> string \<Rightarrow> StorageError + string" where
  "provider_model_index_key sha provider_id model =
     (if 256 < str_len model then Inl (Invalid ''provider model exceeds the supported key length'')
      else
        rbind (provider_model_index_prefix sha provider_id) (\<lambda>pre.
          checked_key (pre @ to_lowercase model @ [CHR 0x01] @ model)))"

definition provider_api_key_index_prefix :: "sha256 \<Rightarrow> string \<Rightarrow> bool \<Rightarrow> StorageError + string" where
  "provider_api_key_index_prefix sha provider_id available =
     checked_key (''provider/'' @ hash_component sha (str_bytes provider_id) @ ''/'' @
       (if available then ''available'' else ''all'') @ ''/'')"

definition provider_api_key_index_key :: "sha256 \<Rightarrow> string \<Rightarrow> string \<Rightarrow> bool \<Rightarrow> StorageError + string" where
  "provider_api_key_index_key sha provider_id key_id available =
     rbind (provider_api_key_index_prefix sha provider_id available) (\<lambda>pre. checked_key (pre @ key_id))"

definition provider_api_key_identity_index_prefix :: "sha256 \<Rightarrow> string \<Rightarrow> string \<Rightarrow> StorageError + string" where
  "provider_api_key_identity_index_prefix sha provider_id identity =
     (let pre = ''provider/'' @ hash_component sha (str_bytes provider_id) @ ''/oauth-identity/'' @
        hash_component sha (str_bytes identity) @ ''/''
      in rbind (validate_prefix pre) (\<lambda>_. Inr pre))"

definition provider_api_key_identity_index_key ::
  "sha256 \<Rightarrow> string \<Rightarrow> string \<Rightarrow> string \<Rightarrow> StorageError + string" where
  "provider_api_key_identity_index_key sha provider_id identity key_id =
     rbind (provider_api_key_identity_index_prefix sha provider_id identity) (\<lambda>pre. checked_key (pre @ key_id))"

definition provider_api_key_created_prefix :: "sha256 \<Rightarrow> string \<Rightarrow> StorageError + string" where
  "provider_api_key_created_prefix sha provider_id =
     checked_key (''provider/'' @ hash_component sha (str_bytes provider_id) @ ''/created/'')"

definition provider_api_key_order_key :: "sha256 \<Rightarrow> string \<Rightarrow> string \<Rightarrow> StorageError + string" where
  "provider_api_key_order_key sha provider_id position =
     rbind (provider_api_key_created_prefix sha provider_id) (\<lambda>pre. checked_key (pre @ position))"

section \<open>The order of the descending index\<close>

lemma checked_key_eq [simp]: "checked_key k = Inr k' \<longleftrightarrow> k' = k \<and> validate_key k = Inr ()"
  by (auto simp: checked_key_def rbind_eq_Inr)

lemma hex_digit_less: "a < 16 \<Longrightarrow> b < 16 \<Longrightarrow> hex_digit a < hex_digit b \<longleftrightarrow> a < b"
  by (auto simp: hex_digit_def less_char_def)

lemma hex_byte_append_less:
  assumes "a < 256" "b < 256"
  shows "hex_byte a @ x < hex_byte b @ y \<longleftrightarrow> a < b \<or> (a = b \<and> x < y)"
proof -
  have h: "a div 16 < 16" "b div 16 < 16" "a mod 16 < 16" "b mod 16 < 16" using assms by simp_all
  have "a < b \<longleftrightarrow> a div 16 < b div 16 \<or> (a div 16 = b div 16 \<and> a mod 16 < b mod 16)"
    using div_mult_mod_eq [of a 16] div_mult_mod_eq [of b 16] h by linarith
  moreover have "a = b \<longleftrightarrow> a div 16 = b div 16 \<and> a mod 16 = b mod 16"
    by (metis div_mult_mod_eq)
  ultimately show ?thesis
    using h by (simp add: hex_byte_def hex_digit_less hex_digit_inj) blast
qed

lemma ff_hex: "''ff'' = hex_byte 255"
  by code_simp

fun rev_enc :: "nat list \<Rightarrow> string" where
  "rev_enc [] = hex_byte 255"
| "rev_enc (b # bs) = hex_byte (255 - b) @ rev_enc bs"

lemma reverse_sort_component_rev_enc: "reverse_sort_component v = rev_enc (str_bytes v)"
proof -
  have "concat (map (\<lambda>b. hex_byte (255 - b)) bs) @ ''ff'' = rev_enc bs" for bs
    by (induction bs) (simp_all add: ff_hex)
  then show ?thesis by (simp add: reverse_sort_component_def)
qed

text \<open>Bytes of a text without NUL.\<close>

abbreviation text_bytes :: "nat list \<Rightarrow> bool" where
  "text_bytes bs \<equiv> \<forall>b \<in> set bs. 0 < b \<and> b < 256"

lemma rev_enc_antitone:
  "text_bytes a \<Longrightarrow> text_bytes b \<Longrightarrow> rev_enc a @ x < rev_enc b @ y \<longleftrightarrow> b < a \<or> (a = b \<and> x < y)"
proof (induction a arbitrary: b)
  case Nil
  show ?case
  proof (cases b)
    case Nil
    then show ?thesis by (simp add: hex_byte_append_less)
  next
    case (Cons b0 bs)
    with Nil.prems have "255 - b0 < 255" by auto
    then have "\<not> hex_byte 255 @ x < hex_byte (255 - b0) @ rev_enc bs @ y"
      by (subst hex_byte_append_less) auto
    then show ?thesis using Cons by simp
  qed
next
  case (Cons a0 as)
  show ?case
  proof (cases b)
    case Nil
    from Cons.prems have "255 - a0 < 255" by auto
    then have "hex_byte (255 - a0) @ rev_enc as @ x < hex_byte 255 @ y"
      by (subst hex_byte_append_less) auto
    then show ?thesis using Nil by simp
  next
    case (Cons b0 bs)
    with Cons.prems have lt: "0 < a0" "a0 < 256" "0 < b0" "b0 < 256" by auto
    have "rev_enc (a0 # as) @ x < rev_enc b @ y \<longleftrightarrow>
        255 - a0 < 255 - b0 \<or> (255 - a0 = 255 - b0 \<and> rev_enc as @ x < rev_enc bs @ y)"
      using Cons lt by (simp add: hex_byte_append_less)
    also have "\<dots> \<longleftrightarrow> b0 < a0 \<or> (a0 = b0 \<and> rev_enc as @ x < rev_enc bs @ y)" using lt by auto
    also have "\<dots> \<longleftrightarrow> b < a0 # as \<or> (a0 # as = b \<and> x < y)"
      using Cons.IH [of bs] Cons.prems \<open>b = b0 # bs\<close> by auto
    finally show ?thesis .
  qed
qed

lemma char_bytes_less:
  "char_bytes a @ x < char_bytes b @ y \<longleftrightarrow> a < b \<or> (a = b \<and> x < y)"
proof -
  have of: "code a = code b \<longleftrightarrow> a = b" "code a < code b \<longleftrightarrow> a < b" by (simp_all add: less_char_def)
  have div: "n div 64 < m div 64 \<or> (n div 64 = m div 64 \<and> n mod 64 < m mod 64) \<longleftrightarrow> n < m" for n m :: nat
    using div_mult_mod_eq [of n 64] div_mult_mod_eq [of m 64] mod_less_divisor [of 64 n] mod_less_divisor [of 64 m]
    by linarith
  have eq: "n div 64 = m div 64 \<and> n mod 64 = m mod 64 \<longleftrightarrow> n = m" for n m :: nat by (metis div_mult_mod_eq)
  show ?thesis
    unfolding of [symmetric] char_bytes_def
    using div [of "code a" "code b"] eq [of "code a" "code b"] by auto
qed

text \<open>The order of texts is the order of their UTF-8 bytes.\<close>

lemma str_bytes_less: "str_bytes a < str_bytes b \<longleftrightarrow> a < b"
proof (induction a arbitrary: b)
  case Nil
  then show ?case by (cases b) (auto simp: str_bytes_def char_bytes_def)
next
  case (Cons c a)
  show ?case
  proof (cases b)
    case Nil
    then show ?thesis by (simp add: str_bytes_def)
  next
    case (Cons d b')
    have "str_bytes (c # a) < str_bytes b \<longleftrightarrow> c < d \<or> (c = d \<and> str_bytes a < str_bytes b')"
      using Cons by (simp add: str_bytes_def char_bytes_less)
    then show ?thesis using Cons Cons.IH by simp
  qed
qed

lemma str_bytes_inj: "str_bytes a = str_bytes b \<longleftrightarrow> a = b"
  using str_bytes_less [of a b] str_bytes_less [of b a] by (metis less_irrefl linorder_cases)

lemma str_bytes_text: "(CHR 0x00) \<notin> set v \<Longrightarrow> text_bytes (str_bytes v)"
proof (induction v)
  case (Cons c v)
  have "code c \<noteq> code (CHR 0x00)" using Cons.prems by (metis list.set_intros(1) of_char_eq_iff)
  then have "code c \<noteq> 0" by simp
  moreover have "code c div 64 < 4" by (simp add: div_less_iff_less_mult)
  ultimately have "text_bytes (char_bytes c)"
    by (auto simp: char_bytes_def)
  with Cons show ?case by (auto simp: str_bytes_def)
qed (simp add: str_bytes_def)

lemma append_less_same: "(p :: 'a :: order list) @ x < p @ y \<longleftrightarrow> x < y"
  by (induction p) simp_all

section \<open>Properties\<close>

text \<open>The descending request-log index is in the reverse order of (creation time, id): of two logs whose
  fields contain no NUL, the later one, or the one with the greater id at the same time, has the smaller key.\<close>

lemma desc_index_reverses_order:
  assumes "request_log_desc_index_key c1 i1 = Inr k1" and "request_log_desc_index_key c2 i2 = Inr k2"
    and "CHR 0x00 \<notin> set (c1 @ i1 @ c2 @ i2)"
  shows "k1 < k2 \<longleftrightarrow> c2 < c1 \<or> (c1 = c2 \<and> i2 < i1)"
proof -
  have k: "k1 = REQUEST_LOG_DESC_INDEX_PREFIX @ rev_enc (str_bytes c1) @ rev_enc (str_bytes i1) @ ''/'' @ i1"
    "k2 = REQUEST_LOG_DESC_INDEX_PREFIX @ rev_enc (str_bytes c2) @ rev_enc (str_bytes i2) @ ''/'' @ i2"
    using assms(1,2) by (simp_all add: request_log_desc_index_key_def reverse_sort_component_rev_enc)
  have t: "text_bytes (str_bytes c1)" "text_bytes (str_bytes i1)" "text_bytes (str_bytes c2)" "text_bytes (str_bytes i2)"
    using assms(3) by (intro str_bytes_text; simp)+
  have "k1 < k2 \<longleftrightarrow> rev_enc (str_bytes c1) @ rev_enc (str_bytes i1) @ ''/'' @ i1 <
      rev_enc (str_bytes c2) @ rev_enc (str_bytes i2) @ ''/'' @ i2"
    unfolding k by (simp only: append_less_same)
  also have "\<dots> \<longleftrightarrow> c2 < c1 \<or> (c1 = c2 \<and> (i2 < i1 \<or> i1 = i2 \<and> ''/'' @ i1 < ''/'' @ i2))"
    using t by (simp only: rev_enc_antitone str_bytes_less str_bytes_inj)
  finally show ?thesis by auto
qed

text \<open>The key index of one provider never reaches another's: with 32-byte digests that differ, no ordering key
  of one provider starts with the prefix under which the other provider's keys are scanned.\<close>

lemma provider_prefixes_disjoint:
  assumes "length (sha (str_bytes p)) = 32" and "length (sha (str_bytes q)) = 32"
    and "sha (str_bytes p) \<noteq> sha (str_bytes q)" and "\<forall>b \<in> set (sha (str_bytes p)) \<union> set (sha (str_bytes q)). b < 256"
    and "provider_api_key_order_key sha p position = Inr k" and "provider_api_key_created_prefix sha q = Inr pre"
  shows "\<not> starts_with pre k"
proof
  assume "starts_with pre k"
  then obtain rest where "k = pre @ rest" by (auto simp: starts_with_iff)
  with assms(5,6) have "hash_component sha (str_bytes p) @ ''/created/'' @ position =
      hash_component sha (str_bytes q) @ ''/created/'' @ rest"
    by (auto simp: provider_api_key_order_key_def provider_api_key_created_prefix_def rbind_eq_Inr)
  moreover have "length (hash_component sha (str_bytes p)) = length (hash_component sha (str_bytes q))"
    using assms(1,2) by (simp add: hash_component_def length_concat comp_def hex_byte_def sum_list_triv)
  ultimately have eq: "concat (map hex_byte (sha (str_bytes p))) = concat (map hex_byte (sha (str_bytes q)))"
    by (simp add: hash_component_def)
  have "xs = ys" if "concat (map hex_byte xs) = concat (map hex_byte ys)" "\<forall>b \<in> set xs \<union> set ys. b < 256" for xs ys
    using that
  proof (induction xs arbitrary: ys)
    case Nil
    then show ?case by (cases ys) (simp_all add: hex_byte_def)
  next
    case (Cons x xs)
    then obtain y ys' where ys: "ys = y # ys'" by (cases ys) (simp_all add: hex_byte_def)
    with Cons.prems(2) have "x div 16 < 16" "y div 16 < 16" by (simp_all add: div_less_iff_less_mult)
    with Cons.prems(1) ys have "x div 16 = y div 16" "x mod 16 = y mod 16"
      by (simp_all add: hex_byte_def hex_digit_inj)
    then have "x = y" by (metis div_mult_mod_eq)
    with Cons ys show ?case by (simp add: hex_byte_def)
  qed
  with eq assms(3,4) show False by blast
qed

end
