(* ===== verification/Clock.thy ===== *)
theory Clock
  imports Text Interfaces
begin

text \<open>
  UTC timestamps of database records (\<^verbatim>\<open>src/infra/db/clock.rs\<close>): the civil-date arithmetic, the
  formatter and the parser. All intermediate \<open>i64\<close> values stay far from the bounds of the type
  (years have four digits when parsed, and at most \<open>2^64\<close> seconds are formatted), so they are
  plain integers.
\<close>

section \<open>Civil dates\<close>

text \<open>Rust's \<open>/\<close> on signed integers truncates towards zero; the divisors here are positive.\<close>

definition quot :: "int \<Rightarrow> int \<Rightarrow> int" where
  "quot a b = (if 0 \<le> a then a div b else - ((- a) div b))"

definition remainder :: "int \<Rightarrow> int \<Rightarrow> int" where
  "remainder a b = a - b * quot a b"

definition days_from_civil :: "int \<Rightarrow> int \<Rightarrow> int \<Rightarrow> int" where
  "days_from_civil year0 month day =
     (let year = year0 - (if month \<le> 2 then 1 else 0);
          era = quot (if 0 \<le> year then year else year - 399) 400;
          year_of_era = year - era * 400;
          month_prime = remainder (month + 9) 12;
          day_of_year = quot (153 * month_prime + 2) 5 + day - 1;
          day_of_era = year_of_era * 365 + quot year_of_era 4 - quot year_of_era 100 + day_of_year
      in era * 146097 + day_of_era - 719468)"

definition civil_from_days :: "int \<Rightarrow> int \<times> int \<times> int" where
  "civil_from_days days_since_epoch =
     (let days = days_since_epoch + 719468;
          era = quot (if 0 \<le> days then days else days - 146096) 146097;
          day_of_era = days - era * 146097;
          year_of_era =
            quot (day_of_era - quot day_of_era 1460 + quot day_of_era 36524 - quot day_of_era 146096) 365;
          year = year_of_era + era * 400;
          day_of_year = day_of_era - (365 * year_of_era + quot year_of_era 4 - quot year_of_era 100);
          month_prime = quot (5 * day_of_year + 2) 153;
          day = day_of_year - quot (153 * month_prime + 2) 5 + 1;
          month = month_prime + (if month_prime < 10 then 3 else - 9)
      in (year + (if month \<le> 2 then 1 else 0), month, day))"

section \<open>Formatting and parsing\<close>

text \<open>\<open>{:0w}\<close> pads with zeros on the left, after the sign.\<close>

definition show_padded :: "nat \<Rightarrow> int \<Rightarrow> string" where
  "show_padded w n =
     (if n < 0 then ''-'' @ (let s = show_nat (nat (- n)) in replicate (w - 1 - length s) (digit 0) @ s)
      else let s = show_nat (nat n) in replicate (w - length s) (digit 0) @ s)"

definition format_utc_timestamp :: "nat \<Rightarrow> string" where
  "format_utc_timestamp seconds =
     (let days = int (seconds div 86400);
          day_seconds = seconds mod 86400;
          (year, month, day) = civil_from_days days;
          hour = day_seconds div 3600;
          minute = (day_seconds mod 3600) div 60;
          second = day_seconds mod 60
      in show_padded 4 year @ ''-'' @ show_padded 2 month @ ''-'' @ show_padded 2 day @ '' '' @
         show_padded 2 (int hour) @ '':'' @ show_padded 2 (int minute) @ '':'' @ show_padded 2 (int second))"

text \<open>\<open>str::parse::<i64>\<close>: an optional sign and at least one digit, within the range of the type.\<close>

fun digits_value :: "nat \<Rightarrow> nat list \<Rightarrow> nat option" where
  "digits_value acc [] = Some acc"
| "digits_value acc (b # bs) =
     (if 48 \<le> b \<and> b \<le> 57 then digits_value (10 * acc + (b - 48)) bs else None)"

definition parse_i64 :: "nat list \<Rightarrow> int option" where
  "parse_i64 bs =
     (let (negative, ds) =
        (case bs of b # r \<Rightarrow> if b = 45 then (True, r) else if b = 43 then (False, r) else (False, bs)
         | [] \<Rightarrow> (False, bs))
      in if ds = [] then None
         else case digits_value 0 ds of
           None \<Rightarrow> None
         | Some n \<Rightarrow>
             (let v = (if negative then - int n else int n) in
              if - (2 ^ 63) \<le> v \<and> v < 2 ^ 63 then Some v else None))"

text \<open>\<open>str::get(a..b)\<close> on the UTF-8 bytes: the slice if both ends are character boundaries.\<close>

definition is_char_boundary :: "nat list \<Rightarrow> nat \<Rightarrow> bool" where
  "is_char_boundary bs i = (i = length bs \<or> (i < length bs \<and> (bs ! i < 128 \<or> 192 \<le> bs ! i)))"

definition get_slice :: "nat list \<Rightarrow> nat \<Rightarrow> nat \<Rightarrow> nat list option" where
  "get_slice bs a b =
     (if a \<le> b \<and> is_char_boundary bs a \<and> is_char_boundary bs b
      then Some (take (b - a) (drop a bs)) else None)"

definition number_at :: "nat list \<Rightarrow> nat \<Rightarrow> nat \<Rightarrow> int option" where
  "number_at bs start width = Option.bind (get_slice bs start (start + width)) parse_i64"

definition i64_range :: "int \<Rightarrow> bool" where
  "i64_range v = (- (2 ^ 63) \<le> v \<and> v < 2 ^ 63)"

definition parse_utc_timestamp :: "string \<Rightarrow> nat option" where
  "parse_utc_timestamp value =
     (let bytes = str_bytes value in
      if str_len value \<noteq> 19 then None
      else if bytes ! 4 \<noteq> 45 \<or> bytes ! 7 \<noteq> 45 \<or> bytes ! 10 \<noteq> 32 \<or> bytes ! 13 \<noteq> 58 \<or> bytes ! 16 \<noteq> 58 then None
      else
        Option.bind (number_at bytes 0 4) (\<lambda>year.
        Option.bind (number_at bytes 5 2) (\<lambda>month.
        Option.bind (number_at bytes 8 2) (\<lambda>day.
        Option.bind (number_at bytes 11 2) (\<lambda>hour.
        Option.bind (number_at bytes 14 2) (\<lambda>minute.
        Option.bind (number_at bytes 17 2) (\<lambda>second.
          if \<not> (1 \<le> month \<and> month \<le> 12) \<or> \<not> (1 \<le> day \<and> day \<le> 31) \<or> 23 < hour \<or> 59 < minute \<or> 59 < second
          then None
          else
            let scaled = days_from_civil year month day * 86400;
                seconds = scaled + (hour * 3600 + minute * 60 + second)
            in if \<not> i64_range scaled \<or> \<not> i64_range seconds then None
               else if 0 \<le> seconds then Some (nat seconds) else None)))))))"

text \<open>The clock readings: seconds since the epoch, or none when the clock is before it.\<close>

definition utc_timestamp_before :: "nat \<Rightarrow> nat \<Rightarrow> string" where
  "utc_timestamp_before now duration_secs = format_utc_timestamp (now - duration_secs)"

definition unix_minute :: "nat \<Rightarrow> int" where
  "unix_minute seconds = (let minute = seconds div 60 in if 2 ^ 63 - 1 < minute then 2 ^ 63 - 1 else int minute)"

section \<open>Dates round trip\<close>

lemma quot_nonneg [simp]: "0 \<le> a \<Longrightarrow> quot a b = a div b"
  by (simp add: quot_def)

lemma year_of_era_bounds:
  fixes doe :: int
  assumes "0 \<le> doe" "doe < 146097"
  defines "yoe \<equiv> (doe - doe div 1460 + doe div 36524 - doe div 146096) div 365"
  shows "0 \<le> yoe" "yoe < 400" "0 \<le> doe - (365 * yoe + yoe div 4 - yoe div 100)"
    "doe - (365 * yoe + yoe div 4 - yoe div 100) \<le> 365"
proof -
  have "0 \<le> yoe \<and> yoe < 400 \<and> 0 \<le> doe - (365 * yoe + yoe div 4 - yoe div 100) \<and>
      doe - (365 * yoe + yoe div 4 - yoe div 100) \<le> 365"
  proof (cases "doe = 146096")
    case True
    then show ?thesis by (simp add: yoe_def)
  next
    case False
    with assms(1,2) have lt: "doe < 146096" by simp
    define c r where "c = doe div 36524" and "r = doe mod 36524"
    have doe: "doe = 36524 * c + r" and r: "0 \<le> r" "r < 36524" by (simp_all add: c_def r_def)
    have c: "0 \<le> c" "c \<le> 3" using lt assms(1) by (simp_all add: c_def)
    define q s where "q = (24 * c + r) div 1460" and "s = (24 * c + r) mod 1460"
    have qs: "24 * c + r = 1460 * q + s" and s: "0 \<le> s" "s < 1460" by (simp_all add: q_def s_def)
    have q: "0 \<le> q" "q \<le> 25" using qs s r c by linarith+
    have d1: "doe div 1460 = 25 * c + q"
    proof -
      have "doe = 1460 * (25 * c + q) + s" using doe qs by simp
      then show ?thesis using s by (simp add: div_mult_self2)
    qed
    have d2: "doe div 146096 = 0" using lt assms(1) by simp
    have a: "doe - doe div 1460 + doe div 36524 - doe div 146096 = 36500 * c + 1460 * q + s - 24 * c - q"
      using d1 d2 doe qs c_def by linarith
    define t where "t = (s - q - 24 * c) div 365"
    have t: "365 * t \<le> s - q - 24 * c" "s - q - 24 * c < 365 * t + 365"
      by (simp_all add: t_def)
    have yoe: "yoe = 100 * c + 4 * q + t"
    proof -
      have "36500 * c + 1460 * q + s - 24 * c - q = (s - q - 24 * c) + 365 * (100 * c + 4 * q)" by simp
      then show ?thesis unfolding yoe_def a t_def by simp
    qed
    have tb: "-1 \<le> t" "t \<le> 3" using t s q c by linarith+
    have neg: "1 \<le> q" if "t = -1"
    proof (rule ccontr)
      assume "\<not> 1 \<le> q"
      with q have "q = 0" by simp
      with that t qs r show False by linarith
    qed
    have top: "t = -1" if "q = 25"
      using that t tb qs r by linarith
    have hundred: "yoe div 100 = c"
    proof -
      have "0 \<le> 4 * q + t" "4 * q + t < 100" using q tb neg top by linarith+
      then have "(100 * c + (4 * q + t)) div 100 = c" by simp
      then show ?thesis by (simp add: yoe add.assoc)
    qed
    show ?thesis
    proof (cases "t = -1")
      case True
      have "(4 * (25 * c + q) + t) div 4 = 25 * c + q - 1" using True by simp
      then have "yoe div 4 = 25 * c + q - 1" by (simp add: yoe)
      with hundred yoe True t tb qs doe q c neg s r show ?thesis by simp
    next
      case False
      with tb have t0: "0 \<le> t" by simp
      then have "(4 * (25 * c + q) + t) div 4 = 25 * c + q" using tb by simp
      then have "yoe div 4 = 25 * c + q" by (simp add: yoe)
      with hundred yoe t t0 tb qs doe q c s r top show ?thesis by simp
    qed
  qed
  then show "0 \<le> yoe" "yoe < 400" "0 \<le> doe - (365 * yoe + yoe div 4 - yoe div 100)"
    "doe - (365 * yoe + yoe div 4 - yoe div 100) \<le> 365" by blast+
qed

lemma month_prime_bounds:
  fixes doy :: int
  assumes "0 \<le> doy" "doy \<le> 365"
  defines "mp \<equiv> (5 * doy + 2) div 153"
  shows "0 \<le> mp" "mp \<le> 11" "1 \<le> doy - (153 * mp + 2) div 5 + 1" "doy - (153 * mp + 2) div 5 + 1 \<le> 31"
proof -
  have m: "153 * mp \<le> 5 * doy + 2" "5 * doy + 2 < 153 * mp + 153" by (simp_all add: mp_def)
  show "0 \<le> mp" using assms(1) by (simp add: mp_def)
  show "mp \<le> 11" using m assms(2) by linarith
  have d: "5 * ((153 * mp + 2) div 5) \<le> 153 * mp + 2" "153 * mp + 2 < 5 * ((153 * mp + 2) div 5) + 5" by simp_all
  show "1 \<le> doy - (153 * mp + 2) div 5 + 1" using m d by linarith
  show "doy - (153 * mp + 2) div 5 + 1 \<le> 31" using m d by linarith
qed

text \<open>
  The parts of a civil date: era, year of the era, day of the (March-based) year and month.
\<close>

lemma civil_from_days_parts:
  assumes "0 \<le> d"
  obtains era yoe doy mp where
    "civil_from_days d =
       (yoe + era * 400 + (if 10 \<le> mp then 1 else 0), mp + (if mp < 10 then 3 else - 9), doy - (153 * mp + 2) div 5 + 1)"
    "0 \<le> era" "0 \<le> yoe" "yoe < 400" "0 \<le> doy" "doy \<le> 365" "mp = (5 * doy + 2) div 153"
    "d = era * 146097 + (365 * yoe + yoe div 4 - yoe div 100) + doy - 719468"
proof -
  define days era doe where "days = d + 719468" and "era = days div 146097" and "doe = days - era * 146097"
  have days0: "0 \<le> days" using assms(1) by (simp add: days_def)
  have doe: "0 \<le> doe" "doe < 146097" unfolding doe_def era_def by (simp_all add: minus_div_mult_eq_mod)
  have era0: "0 \<le> era" using days0 by (simp add: era_def pos_imp_zdiv_nonneg_iff)
  define yoe where "yoe = (doe - doe div 1460 + doe div 36524 - doe div 146096) div 365"
  note yb = year_of_era_bounds [OF doe, folded yoe_def]
  have a0: "0 \<le> doe - doe div 1460 + doe div 36524 - doe div 146096"
    using yb(1) unfolding yoe_def by (simp add: pos_imp_zdiv_nonneg_iff)
  define doy where "doy = doe - (365 * yoe + yoe div 4 - yoe div 100)"
  define mp where "mp = (5 * doy + 2) div 153"
  have doy: "0 \<le> doy" "doy \<le> 365" using yb by (simp_all add: doy_def)
  have mp: "0 \<le> mp" "mp \<le> 11" using month_prime_bounds [OF doy, folded mp_def] by simp_all
  have "civil_from_days d =
       (yoe + era * 400 + (if 10 \<le> mp then 1 else 0), mp + (if mp < 10 then 3 else - 9), doy - (153 * mp + 2) div 5 + 1)"
  proof -
    have e: "quot (if 0 \<le> d + 719468 then d + 719468 else d + 719468 - 146096) 146097 = era"
      using days0 by (simp add: days_def era_def)
    have f: "d + 719468 - era * 146097 = doe" by (simp add: doe_def days_def)
    have g: "quot (doe - quot doe 1460 + quot doe 36524 - quot doe 146096) 365 = yoe"
      using doe a0 by (simp add: yoe_def)
    have h: "doe - (365 * yoe + quot yoe 4 - quot yoe 100) = doy" using yb(1) by (simp add: doy_def)
    have i: "quot (5 * doy + 2) 153 = mp" using doy by (simp add: mp_def)
    show ?thesis unfolding civil_from_days_def Let_def e f g h i using mp by simp
  qed
  moreover have "d = era * 146097 + (365 * yoe + yoe div 4 - yoe div 100) + doy - 719468"
    by (simp add: doy_def doe_def days_def)
  ultimately show ?thesis using that era0 yb(1,2) doy mp_def by blast
qed

lemma days_civil_roundtrip:
  assumes "0 \<le> d" and "civil_from_days d = (y, m, dd)"
  shows "days_from_civil y m dd = d" "1 \<le> m" "m \<le> 12" "1 \<le> dd" "dd \<le> 31" "0 \<le> y"
proof -
  obtain era yoe doy mp where c: "civil_from_days d =
       (yoe + era * 400 + (if 10 \<le> mp then 1 else 0), mp + (if mp < 10 then 3 else - 9), doy - (153 * mp + 2) div 5 + 1)"
    and b: "0 \<le> era" "0 \<le> yoe" "yoe < 400" "0 \<le> doy" "doy \<le> 365" and mp: "mp = (5 * doy + 2) div 153"
    and d: "d = era * 146097 + (365 * yoe + yoe div 4 - yoe div 100) + doy - 719468"
    using civil_from_days_parts [OF assms(1)] .
  note mb = month_prime_bounds [OF b(4,5), folded mp]
  from c assms(2) have y: "y = yoe + era * 400 + (if 10 \<le> mp then 1 else 0)"
    and m: "m = mp + (if mp < 10 then 3 else - 9)" and dd: "dd = doy - (153 * mp + 2) div 5 + 1" by simp_all
  show "1 \<le> m" "m \<le> 12" using mb m by (simp_all split: if_splits)
  show "1 \<le> dd" "dd \<le> 31" using mb dd by simp_all
  show "0 \<le> y" using b y by simp
  have y': "y - (if m \<le> 2 then 1 else 0) = yoe + era * 400" using y m mb by (simp split: if_splits)
  have e: "quot (if 0 \<le> yoe + era * 400 then yoe + era * 400 else yoe + era * 400 - 399) 400 = era"
    using b by simp
  have mp': "remainder (m + 9) 12 = mp"
  proof (cases "mp < 10")
    case True
    then have "(m + 9) div 12 = 1" using m mb by simp
    then show ?thesis using m mb True by (simp add: remainder_def)
  next
    case False
    then show ?thesis using m mb by (simp add: remainder_def)
  qed
  show "days_from_civil y m dd = d"
    unfolding days_from_civil_def Let_def y' e mp' using b mb dd d by simp
qed

lemma four_digit_year:
  assumes "0 \<le> d" and "civil_from_days d = (y, m, dd)" and "d < 2932897"
  shows "y \<le> 9999"
proof -
  obtain era yoe doy mp where c: "civil_from_days d =
       (yoe + era * 400 + (if 10 \<le> mp then 1 else 0), mp + (if mp < 10 then 3 else - 9), doy - (153 * mp + 2) div 5 + 1)"
    and b: "0 \<le> era" "0 \<le> yoe" "yoe < 400" "0 \<le> doy" "doy \<le> 365" and mp: "mp = (5 * doy + 2) div 153"
    and d: "d = era * 146097 + (365 * yoe + yoe div 4 - yoe div 100) + doy - 719468"
    using civil_from_days_parts [OF assms(1)] .
  have y: "y = yoe + era * 400 + (if 10 \<le> mp then 1 else 0)" using c assms(2) by simp
  have start: "0 \<le> 365 * yoe + yoe div 4 - yoe div 100" using b(2) by linarith
  show ?thesis
  proof (cases "era \<le> 23 \<or> yoe \<le> 398")
    case True
    moreover have "era \<le> 24" using d start b assms(3) by linarith
    ultimately show ?thesis using y b by (auto split: if_splits)
  next
    case False
    then have "yoe = 399" "24 \<le> era" using b by simp_all
    then have "doy \<le> 305" "era \<le> 24" using d b assms(3) by simp_all
    then have "mp \<le> 9" using mp by linarith
    then show ?thesis using y b \<open>era \<le> 24\<close> by simp
  qed
qed

section \<open>Texts round trip\<close>

lemma show_nat_small:
  "n < 10 \<Longrightarrow> show_nat n = [digit n]"
  "10 \<le> n \<Longrightarrow> show_nat n = show_nat (n div 10) @ [digit (n mod 10)]"
  by (subst show_nat.simps; simp)+

lemma show_padded_2: "n < 100 \<Longrightarrow> show_padded 2 (int n) = [digit (n div 10), digit (n mod 10)]"
  by (cases "n < 10") (simp_all add: show_padded_def show_nat_small)

lemma replicate_small: "replicate 2 x = [x, x]" "replicate 3 x = [x, x, x]"
  by (simp_all add: numeral_2_eq_2 numeral_3_eq_3)

lemma mod_10_le: "(n :: nat) mod 10 \<le> 9"
  using mod_less_divisor [of 10 n] by simp

lemma show_padded_4:
  assumes "n < 10000"
  shows "show_padded 4 (int n) = [digit (n div 1000), digit (n div 100 mod 10), digit (n div 10 mod 10), digit (n mod 10)]"
proof -
  consider "n < 10" | "10 \<le> n" "n < 100" | "100 \<le> n" "n < 1000" | "1000 \<le> n" by linarith
  then show ?thesis
  proof cases
    case 1
    then show ?thesis by (simp add: show_padded_def show_nat_small replicate_small)
  next
    case 2
    then show ?thesis by (simp add: show_padded_def show_nat_small replicate_small)
  next
    case 3
    then show ?thesis by (simp add: show_padded_def show_nat_small div_mult2_eq [symmetric])
  next
    case 4
    then show ?thesis using assms by (simp add: show_padded_def show_nat_small div_mult2_eq [symmetric])
  qed
qed

lemma char_bytes_digit: "d < 10 \<Longrightarrow> char_bytes (digit d) = [48 + d]"
  by (simp add: char_bytes_def digit_def)

lemma parse_i64_digits:
  assumes "\<forall>b \<in> set bs. 48 \<le> b \<and> b \<le> 57" "bs \<noteq> []" "digits_value 0 bs = Some n" "n < 2 ^ 63"
  shows "parse_i64 bs = Some (int n)"
  using assms by (cases bs) (auto simp: parse_i64_def)

definition stamp_bytes :: "nat \<Rightarrow> nat \<Rightarrow> nat \<Rightarrow> nat \<Rightarrow> nat \<Rightarrow> nat \<Rightarrow> nat list" where
  "stamp_bytes y mo d h mi s =
     [48 + y div 1000, 48 + y div 100 mod 10, 48 + y div 10 mod 10, 48 + y mod 10, 45,
      48 + mo div 10, 48 + mo mod 10, 45, 48 + d div 10, 48 + d mod 10, 32,
      48 + h div 10, 48 + h mod 10, 58, 48 + mi div 10, 48 + mi mod 10, 58, 48 + s div 10, 48 + s mod 10]"

lemma parse_two:
  assumes "n < 100"
  shows "parse_i64 [48 + n div 10, 48 + n mod 10] = Some (int n)"
proof (rule parse_i64_digits)
  have d: "n div 10 \<le> 9" using assms by simp
  then show "digits_value 0 [48 + n div 10, 48 + n mod 10] = Some n" by (simp add: mod_10_le)
  show "\<forall>b \<in> set [48 + n div 10, 48 + n mod 10]. 48 \<le> b \<and> b \<le> 57" using d by (simp add: mod_10_le)
qed (use assms in auto)

lemma parse_four:
  assumes "n < 10000"
  shows "parse_i64 [48 + n div 1000, 48 + n div 100 mod 10, 48 + n div 10 mod 10, 48 + n mod 10] = Some (int n)"
proof (rule parse_i64_digits)
  have d: "n div 1000 \<le> 9" using assms by simp
  have "n div 10 div 10 = n div 100" "n div 100 div 10 = n div 1000" by (simp_all add: div_mult2_eq [symmetric])
  then have "n = n mod 10 + 10 * (n div 10 mod 10) + 100 * (n div 100 mod 10) + 1000 * (n div 1000)"
    using div_mult_mod_eq [of n 10] div_mult_mod_eq [of "n div 10" 10] div_mult_mod_eq [of "n div 100" 10]
    by linarith
  then show "digits_value 0 [48 + n div 1000, 48 + n div 100 mod 10, 48 + n div 10 mod 10, 48 + n mod 10] = Some n"
    using d by (simp add: mod_10_le)
  show "\<forall>b \<in> set [48 + n div 1000, 48 + n div 100 mod 10, 48 + n div 10 mod 10, 48 + n mod 10].
      48 \<le> b \<and> b \<le> 57" using d by (simp add: mod_10_le)
qed (use assms in auto)

lemma numbers_at:
  assumes "y < 10000" "mo < 100" "d < 100" "h < 100" "mi < 100" "s < 100"
  shows "number_at (stamp_bytes y mo d h mi s) 0 4 = Some (int y)"
    "number_at (stamp_bytes y mo d h mi s) 5 2 = Some (int mo)"
    "number_at (stamp_bytes y mo d h mi s) 8 2 = Some (int d)"
    "number_at (stamp_bytes y mo d h mi s) 11 2 = Some (int h)"
    "number_at (stamp_bytes y mo d h mi s) 14 2 = Some (int mi)"
    "number_at (stamp_bytes y mo d h mi s) 17 2 = Some (int s)"
proof -
  have "y div 1000 \<le> 9" "mo div 10 \<le> 9" "d div 10 \<le> 9" "h div 10 \<le> 9" "mi div 10 \<le> 9" "s div 10 \<le> 9"
    using assms by simp_all
  then show "number_at (stamp_bytes y mo d h mi s) 0 4 = Some (int y)"
    "number_at (stamp_bytes y mo d h mi s) 5 2 = Some (int mo)"
    "number_at (stamp_bytes y mo d h mi s) 8 2 = Some (int d)"
    "number_at (stamp_bytes y mo d h mi s) 11 2 = Some (int h)"
    "number_at (stamp_bytes y mo d h mi s) 14 2 = Some (int mi)"
    "number_at (stamp_bytes y mo d h mi s) 17 2 = Some (int s)"
    using assms
    by (simp_all add: number_at_def get_slice_def is_char_boundary_def stamp_bytes_def parse_two parse_four)
qed

lemma str_bytes_simps [simp]:
  "str_bytes [] = []" "str_bytes (c # s) = char_bytes c @ str_bytes s" "str_bytes (s @ t) = str_bytes s @ str_bytes t"
  by (simp_all add: str_bytes_def)

lemma char_bytes_literals:
  "char_bytes (CHR ''-'') = [45]" "char_bytes (CHR '' '') = [32]" "char_bytes (CHR '':'') = [58]"
  by (simp_all add: char_bytes_def)

lemma stamp_text_bytes:
  assumes "y < 10000" "mo < 100" "d < 100" "h < 100" "mi < 100" "s < 100"
  shows "str_bytes (show_padded 4 (int y) @ ''-'' @ show_padded 2 (int mo) @ ''-'' @ show_padded 2 (int d) @ '' '' @
    show_padded 2 (int h) @ '':'' @ show_padded 2 (int mi) @ '':'' @ show_padded 2 (int s)) = stamp_bytes y mo d h mi s"
proof -
  have "y div 1000 < 10" "mo div 10 < 10" "d div 10 < 10" "h div 10 < 10" "mi div 10 < 10" "s div 10 < 10"
    using assms by simp_all
  then show ?thesis
    using assms by (simp add: show_padded_2 show_padded_4 char_bytes_digit char_bytes_literals stamp_bytes_def)
qed

lemma format_bytes:
  assumes "sec < 253402300800"
  obtains y mo d where "civil_from_days (int (sec div 86400)) = (int y, int mo, int d)"
    "y < 10000" "mo \<le> 12" "d \<le> 31" "1 \<le> mo" "1 \<le> d"
    "days_from_civil (int y) (int mo) (int d) = int (sec div 86400)"
    "str_bytes (format_utc_timestamp sec) =
       stamp_bytes y mo d (sec mod 86400 div 3600) (sec mod 86400 mod 3600 div 60) (sec mod 86400 mod 60)"
proof -
  obtain y m d where c: "civil_from_days (int (sec div 86400)) = (y, m, d)" using prod_cases3 by blast
  note r = days_civil_roundtrip [OF _ c, simplified]
  have y: "y \<le> 9999" using four_digit_year [OF _ c] assms by simp
  have eqs: "y = int (nat y)" "m = int (nat m)" "d = int (nat d)" using r by simp_all
  have b: "sec mod 86400 div 3600 < 100" "sec mod 86400 mod 3600 div 60 < 100" "sec mod 86400 mod 60 < 100"
    by (simp_all add: div_less_iff_less_mult less_trans [OF mod_less_divisor])
  have "format_utc_timestamp sec = show_padded 4 (int (nat y)) @ ''-'' @ show_padded 2 (int (nat m)) @ ''-'' @
      show_padded 2 (int (nat d)) @ '' '' @ show_padded 2 (int (sec mod 86400 div 3600)) @ '':'' @
      show_padded 2 (int (sec mod 86400 mod 3600 div 60)) @ '':'' @ show_padded 2 (int (sec mod 86400 mod 60))"
    unfolding format_utc_timestamp_def Let_def c using eqs by simp
  then have "str_bytes (format_utc_timestamp sec) = stamp_bytes (nat y) (nat m) (nat d)
      (sec mod 86400 div 3600) (sec mod 86400 mod 3600 div 60) (sec mod 86400 mod 60)"
    using r y b by (simp only: stamp_text_bytes)
  then show ?thesis using that [of "nat y" "nat m" "nat d"] c r y eqs by simp
qed

text \<open>Seconds of a day split into hours, minutes and seconds and put together again.\<close>

lemma day_seconds_split:
  fixes sec :: nat
  shows "sec div 86400 * 86400 + (sec mod 86400 div 3600 * 3600 + sec mod 86400 mod 3600 div 60 * 60 + sec mod 86400 mod 60) = sec"
proof -
  have "sec mod 86400 mod 3600 mod 60 = sec mod 86400 mod 60" by (simp add: mod_mod_cancel)
  then show ?thesis
    using div_mult_mod_eq [of sec 86400] div_mult_mod_eq [of "sec mod 86400" 3600]
      div_mult_mod_eq [of "sec mod 86400 mod 3600" 60] by linarith
qed

lemma parse_format:
  assumes "sec < 253402300800"
  shows "parse_utc_timestamp (format_utc_timestamp sec) = Some sec"
proof -
  obtain y mo d where b: "y < 10000" "mo \<le> 12" "d \<le> 31" "1 \<le> mo" "1 \<le> d"
    and days: "days_from_civil (int y) (int mo) (int d) = int (sec div 86400)"
    and bytes: "str_bytes (format_utc_timestamp sec) =
       stamp_bytes y mo d (sec mod 86400 div 3600) (sec mod 86400 mod 3600 div 60) (sec mod 86400 mod 60)"
    using format_bytes [OF assms] .
  let ?h = "sec mod 86400 div 3600" and ?mi = "sec mod 86400 mod 3600 div 60" and ?s = "sec mod 86400 mod 60"
  have hb: "?h \<le> 23" "?mi \<le> 59" "?s \<le> 59"
    using mod_less_divisor [of 86400 sec] mod_less_divisor [of 3600 "sec mod 86400"] mod_less_divisor [of 60 "sec mod 86400"]
    by linarith+
  have len: "str_len (format_utc_timestamp sec) = 19"
    using arg_cong [OF bytes, of length] by (simp add: stamp_bytes_def)
  have seps: "stamp_bytes y mo d ?h ?mi ?s ! 4 = 45" "stamp_bytes y mo d ?h ?mi ?s ! 7 = 45"
    "stamp_bytes y mo d ?h ?mi ?s ! 10 = 32" "stamp_bytes y mo d ?h ?mi ?s ! 13 = 58"
    "stamp_bytes y mo d ?h ?mi ?s ! 16 = 58"
    by (simp_all add: stamp_bytes_def)
  have sum: "int (sec div 86400) * 86400 + (int ?h * 3600 + int ?mi * 60 + int ?s) = int sec"
    using arg_cong [OF day_seconds_split [of sec], of int] by simp
  have "i64_range (int (sec div 86400) * 86400)" "i64_range (int sec)"
    using sum assms by (simp_all add: i64_range_def)
  note ranges = this
  define h mi s where "h = ?h" and "mi = ?mi" and "s = ?s"
  have small: "y < 10000" "mo < 100" "d < 100" "h < 100" "mi < 100" "s < 100"
    using b hb by (simp_all add: h_def mi_def s_def)
  have "\<not> (\<not> (1 \<le> int mo \<and> int mo \<le> 12) \<or> \<not> (1 \<le> int d \<and> int d \<le> 31) \<or> 23 < int h \<or> 59 < int mi \<or> 59 < int s)"
    using b hb by (simp add: h_def mi_def s_def)
  then show ?thesis
    using ranges
    unfolding parse_utc_timestamp_def Let_def len bytes h_def [symmetric] mi_def [symmetric] s_def [symmetric]
      numbers_at [OF small] Option.bind.bind_lunit days sum [folded h_def mi_def s_def]
    by (simp del: de_Morgan_disj add: seps [folded h_def mi_def s_def])
qed

interpretation timestamp: codec format_utc_timestamp parse_utc_timestamp "\<lambda>sec. sec < 253402300800"
  by unfold_locales (rule parse_format)

section \<open>Properties\<close>

text \<open>Every second of the years 1970 to 9999 is read back from its formatted timestamp, so distinct seconds
  have distinct timestamps.\<close>

lemma timestamp_roundtrip:
  assumes "sec < 253402300800" and "sec' < 253402300800"
  shows "parse_utc_timestamp (format_utc_timestamp sec) = Some sec \<and>
         (format_utc_timestamp sec = format_utc_timestamp sec' \<longrightarrow> sec = sec')"
  using assms parse_format timestamp.enc_inj by blast

text \<open>The day count of the civil date of any day from the epoch on is that day, and the date is a proper
  month and day number (the two conversions are the inverse of each other that the comment claims).\<close>

lemma civil_date_inverse:
  assumes "0 \<le> d"
  shows "case civil_from_days d of (y, m, dd) \<Rightarrow>
     days_from_civil y m dd = d \<and> 1 \<le> m \<and> m \<le> 12 \<and> 1 \<le> dd \<and> dd \<le> 31"
  using days_civil_roundtrip [OF assms] by (auto split: prod.splits)

text \<open>Against its comment, the parser accepts texts the formatter never writes: a day that its month does
  not have and a signed hour are read as a neighbouring instant.\<close>

lemma parser_accepts_malformed:
  "parse_utc_timestamp ''2024-02-31 -1:00:00'' = parse_utc_timestamp ''2024-03-01 23:00:00'' \<and>
   parse_utc_timestamp ''2024-03-01 23:00:00'' = Some 1709334000"
  by (simp add: parse_utc_timestamp_def number_at_def get_slice_def is_char_boundary_def parse_i64_def
      days_from_civil_def remainder_def char_bytes_def char_utf8_len_def i64_range_def Let_def)

end
