(* ===== verification/KeyCursor.thy ===== *)
theory KeyCursor
  imports DbKeys Clock
begin

text \<open>
  The cursor over a provider's stored API keys (\<^verbatim>\<open>src/provider_adapters/keys.rs\<close>). Each step reads one
  snapshot of the database; the properties are about steps on the same snapshot.
\<close>

section \<open>Definitions\<close>

record ProviderApiKeyCursor =
  cursor_provider :: string
  after :: "string option"
  finished :: bool
  stop_before :: "string option"
  wrapped :: bool
  recovering :: bool

datatype ProviderCredentialType = ApiKey | OAuth

fun ProviderCredentialType_as_str :: "ProviderCredentialType \<Rightarrow> string" where
  "ProviderCredentialType_as_str ApiKey = ''api_key''"
| "ProviderCredentialType_as_str OAuth = ''oauth''"

record ProviderApiKeyRow =
  row_id :: string
  encrypted_secret :: bytes
  credential_type :: ProviderCredentialType

definition KEY_INVALIDATION_COOLDOWN_SECONDS :: nat where "KEY_INVALIDATION_COOLDOWN_SECONDS = 30"
definition KEY_ORDER_SCAN_WINDOW :: nat where "KEY_ORDER_SCAN_WINDOW = 32"
definition CODEX_ADAPTER_ID :: string where "CODEX_ADAPTER_ID = ''openai_codex''"

text \<open>
  The database as the cursor sees it: a snapshot, the parameters of the storage layer and the
  seconds since the epoch (0 when the clock is before it).
\<close>

record 's key_db =
  kd_heed :: "'s heed"
  kd_ids :: "string bincode"
  kd_records :: "Record bincode"
  kd_zstd :: zstd
  kd_dictionary :: "bytes option"
  kd_sha :: sha256
  kd_snapshot :: 's
  kd_now :: nat

definition get_record :: "'s key_db \<Rightarrow> Table \<Rightarrow> string \<Rightarrow> StorageError + Record option" where
  "get_record db table key =
     txn_get (kd_heed db) (kd_records db) (kd_zstd db) (kd_dictionary db) (kd_snapshot db) table key"

definition is_key_cooldown_elapsed :: "nat \<Rightarrow> Record \<Rightarrow> StorageError + bool" where
  "is_key_cooldown_elapsed now_secs r =
     rbind (rec_boolean r ''invalid'') (\<lambda>invalid.
       if \<not> invalid then Inr False
       else
         rbind (optional_text r ''invalidated_at'') (\<lambda>invalidated_at.
           case option_or invalidated_at
                  (case optional_text r ''last_used_at'' of Inr t \<Rightarrow> t | Inl _ \<Rightarrow> None) of
             None \<Rightarrow> Inr False
           | Some timestamp \<Rightarrow>
               (case parse_utc_timestamp timestamp of
                  None \<Rightarrow> Inr False
                | Some secs \<Rightarrow> Inr (KEY_INVALIDATION_COOLDOWN_SECONDS \<le> now_secs - secs))))"

definition provider_api_key_row :: "string \<Rightarrow> Record \<Rightarrow> string option \<Rightarrow> StorageError + ProviderApiKeyRow" where
  "provider_api_key_row key_id r adapter_id =
     rbind (optional_text r ''credential_type'') (\<lambda>t.
     rbind (case t of
              Some v \<Rightarrow>
                if v = ''api_key'' then Inr ApiKey
                else if v = ''oauth'' then Inr OAuth
                else Inl (Invalid ''provider credential type is invalid'')
            | None \<Rightarrow> if adapter_id = Some CODEX_ADAPTER_ID then Inr OAuth else Inr ApiKey) (\<lambda>ct.
     rbind (rec_bytes r ''secret'') (\<lambda>secret.
       Inr \<lparr>row_id = key_id, encrypted_secret = secret, credential_type = ct\<rparr>)))"

text \<open>Whether the record of an index entry is offered in this pass, and with which adapter.\<close>

definition offer_key :: "'s key_db \<Rightarrow> string \<Rightarrow> bool \<Rightarrow> Record \<Rightarrow> StorageError + string option option" where
  "offer_key db provider_id recovery r =
     rbind (rec_text r ''provider_id'') (\<lambda>owner.
     rbind (if owner \<noteq> provider_id then Inr False else rec_boolean r ''enabled'') (\<lambda>mine.
       if \<not> mine then Inr None
       else
         rbind (rec_boolean r ''invalid'') (\<lambda>is_invalid.
         rbind (if \<not> recovery then Inr (\<not> is_invalid)
                else if \<not> is_invalid then Inr False
                else is_key_cooldown_elapsed (kd_now db) r) (\<lambda>usable.
           if \<not> usable then Inr None
           else
             rbind (get_record db Providers provider_id) (\<lambda>provider.
             rbind (transpose_result (map_option (\<lambda>p. rec_text p ''adapter_id'') provider)) (\<lambda>adapter_id.
               Inr (Some adapter_id)))))))"

text \<open>The loop over one window: the key found, the last position inspected, and whether the order ended.\<close>

type_synonym found_key = "string \<times> string \<times> Record \<times> string option"

fun inspect_window ::
  "'s key_db \<Rightarrow> string \<Rightarrow> bool \<Rightarrow> string option \<Rightarrow> bool \<Rightarrow> string option \<Rightarrow> (string \<times> string) list
     \<Rightarrow> StorageError + found_key option \<times> string option \<times> bool" where
  "inspect_window db provider_id recovery stop exhausted last_position [] =
     Inr (None, last_position, exhausted)"
| "inspect_window db provider_id recovery stop exhausted last_position ((position, key_id) # rest) =
     (if (case stop of Some limit \<Rightarrow> limit \<le> position | None \<Rightarrow> False) then Inr (None, last_position, True)
      else
        rbind (get_record db ProviderApiKeys key_id) (\<lambda>found.
          case found of
            None \<Rightarrow> inspect_window db provider_id recovery stop exhausted (Some position) rest
          | Some r \<Rightarrow>
              rbind (offer_key db provider_id recovery r) (\<lambda>offer.
                case offer of
                  None \<Rightarrow> inspect_window db provider_id recovery stop exhausted (Some position) rest
                | Some adapter_id \<Rightarrow> Inr (Some (position, key_id, r, adapter_id), Some position, exhausted))))"

definition read_window ::
  "'s key_db \<Rightarrow> ProviderApiKeyCursor \<Rightarrow> StorageError + found_key option \<times> string option \<times> bool" where
  "read_window db cur =
     rbind (provider_api_key_created_prefix (kd_sha db) (cursor_provider cur)) (\<lambda>pre.
     rbind (scan_prefix_after (kd_heed db) (kd_ids db) (kd_zstd db) (kd_dictionary db) (kd_snapshot db)
              ProviderApiKeyCreatedIndex pre (after cur) KEY_ORDER_SCAN_WINDOW) (\<lambda>entries.
       inspect_window db (cursor_provider cur) (recovering cur)
         (if wrapped cur then stop_before cur else None)
         (length entries < KEY_ORDER_SCAN_WINDOW) None entries))"

text \<open>What a finished pass turns into: the wrapped pass, the recovery pass, or the end.\<close>

definition next_pass :: "ProviderApiKeyCursor \<Rightarrow> ProviderApiKeyCursor option" where
  "next_pass cur =
     (if \<not> finished cur then Some cur
      else if \<not> wrapped cur \<and> stop_before cur \<noteq> None then
        Some (cur\<lparr>wrapped := True, after := None, finished := False\<rparr>)
      else if \<not> recovering cur then
        Some (cur\<lparr>recovering := True, after := None, finished := False, wrapped := False, stop_before := None\<rparr>)
      else None)"

text \<open>\<open>next\<close>; the fuel bounds the turns of its loop and \<open>None\<close> means that it ran out.\<close>

fun cursor_next ::
  "nat \<Rightarrow> 's key_db \<Rightarrow> ProviderApiKeyCursor
     \<Rightarrow> (StorageError + ProviderApiKeyRow option \<times> ProviderApiKeyCursor) option" where
  "cursor_next 0 db cur = None"
| "cursor_next (Suc fuel) db cur =
     (case next_pass cur of
        None \<Rightarrow> Some (Inr (None, cur))
      | Some cur1 \<Rightarrow>
          (case read_window db cur1 of
             Inl e \<Rightarrow> Some (Inl e)
           | Inr (Some (position, key_id, r, adapter_id), _, _) \<Rightarrow>
               (case provider_api_key_row key_id r adapter_id of
                  Inl e \<Rightarrow> Some (Inl e)
                | Inr row \<Rightarrow> Some (Inr (Some row, cur1\<lparr>after := Some position\<rparr>)))
           | Inr (None, last_position, exhausted) \<Rightarrow>
               (let cur2 = (case last_position of
                              Some position \<Rightarrow> cur1\<lparr>after := Some position\<rparr>
                            | None \<Rightarrow> cur1\<lparr>finished := True\<rparr>);
                    cur3 = (if exhausted then cur2\<lparr>finished := True\<rparr> else cur2)
                in cursor_next fuel db cur3)))"

definition cursor_new :: "string \<Rightarrow> string option \<Rightarrow> ProviderApiKeyCursor" where
  "cursor_new provider_id a =
     \<lparr>cursor_provider = provider_id, after = a, finished = False, stop_before = None, wrapped = False,
      recovering = False\<rparr>"

type_synonym started = "StorageError + (ProviderApiKeyCursor \<times> ProviderApiKeyRow) option"

definition advance_to :: "nat \<Rightarrow> 's key_db \<Rightarrow> ProviderApiKeyCursor \<Rightarrow> started option" where
  "advance_to fuel db cur =
     map_option (\<lambda>r. rbind r (\<lambda>(row, cur'). Inr (map_option (\<lambda>k. (cur', k)) row))) (cursor_next fuel db cur)"

definition cursor_start :: "nat \<Rightarrow> 's key_db \<Rightarrow> string \<Rightarrow> started option" where
  "cursor_start fuel db provider_id = advance_to fuel db (cursor_new provider_id None)"

definition start_rotating :: "nat \<Rightarrow> 's key_db \<Rightarrow> string \<Rightarrow> string option \<Rightarrow> started option" where
  "start_rotating fuel db provider_id a =
     map_option (\<lambda>r. rbind r (\<lambda>s. Inr (map_option (\<lambda>(cur, k). (cur\<lparr>stop_before := after cur\<rparr>, k)) s)))
       (advance_to fuel db (cursor_new provider_id a))"

section \<open>The order of a provider's keys\<close>

text \<open>
  The fallback order of a provider in a snapshot: the positions and key ids of its index entries.
  The hypotheses say that the database is an LMDB view whose index values decode.
\<close>

definition key_order :: "'s key_db \<Rightarrow> string \<Rightarrow> (string \<times> string) list \<Rightarrow> bool" where
  "key_order db provider_id E \<longleftrightarrow> (\<exists>c pre f.
     lmdb_view (kd_heed db) (kd_snapshot db) c \<and>
     provider_api_key_created_prefix (kd_sha db) provider_id = Inr pre \<and>
     (\<forall>x \<in> set (c ProviderApiKeyCreatedIndex). validate_key (fst x) = Inr () \<and>
        decode_stored_record (kd_ids db) (kd_zstd db) (kd_dictionary db) ProviderApiKeyCreatedIndex (snd x) =
          Inr (f (snd x))) \<and>
     E = map (\<lambda>(k, v). (k, f v)) (prefix_entries c ProviderApiKeyCreatedIndex pre None))"

text \<open>A position a cursor may stand on: a valid key under the provider's prefix.\<close>

definition position_ok :: "'s key_db \<Rightarrow> string \<Rightarrow> string option \<Rightarrow> bool" where
  "position_ok db provider_id a \<longleftrightarrow> (\<forall>p pre. a = Some p \<and>
     provider_api_key_created_prefix (kd_sha db) provider_id = Inr pre \<longrightarrow>
       validate_key p = Inr () \<and> starts_with pre p)"

text \<open>What a pass makes of one key id: nothing, or the row it offers.\<close>

definition key_outcome :: "'s key_db \<Rightarrow> string \<Rightarrow> bool \<Rightarrow> string \<Rightarrow> StorageError + ProviderApiKeyRow option" where
  "key_outcome db provider_id recovery key_id =
     rbind (get_record db ProviderApiKeys key_id) (\<lambda>found.
       case found of
         None \<Rightarrow> Inr None
       | Some r \<Rightarrow>
           rbind (offer_key db provider_id recovery r) (\<lambda>offer.
             case offer of
               None \<Rightarrow> Inr None
             | Some adapter_id \<Rightarrow> rbind (provider_api_key_row key_id r adapter_id) (\<lambda>row. Inr (Some row))))"

definition offered :: "'s key_db \<Rightarrow> string \<Rightarrow> bool \<Rightarrow> string \<Rightarrow> ProviderApiKeyRow option" where
  "offered db provider_id recovery key_id =
     (case key_outcome db provider_id recovery key_id of Inr row \<Rightarrow> row | Inl _ \<Rightarrow> None)"

definition keys_readable :: "'s key_db \<Rightarrow> string \<Rightarrow> (string \<times> string) list \<Rightarrow> bool" where
  "keys_readable db provider_id E \<longleftrightarrow>
     (\<forall>e \<in> set E. \<forall>b. key_outcome db provider_id b (snd e) = Inr (offered db provider_id b (snd e)))"

definition rows :: "'s key_db \<Rightarrow> string \<Rightarrow> bool \<Rightarrow> (string \<times> string) list \<Rightarrow> ProviderApiKeyRow list" where
  "rows db provider_id b L = List.map_filter (\<lambda>e. offered db provider_id b (snd e)) L"

definition before_stop :: "string option \<Rightarrow> string \<Rightarrow> bool" where
  "before_stop stop q = (case stop of None \<Rightarrow> True | Some l \<Rightarrow> q < l)"

definition after_start :: "string option \<Rightarrow> string \<Rightarrow> bool" where
  "after_start a q = (case a of None \<Rightarrow> True | Some x \<Rightarrow> x < q)"

definition in_pass :: "ProviderApiKeyCursor \<Rightarrow> string \<times> string \<Rightarrow> bool" where
  "in_pass cur e =
     (after_start (after cur) (fst e) \<and> before_stop (if wrapped cur then stop_before cur else None) (fst e))"

lemma key_order_sorted: "key_order db p E \<Longrightarrow> sorted_wrt (<) (map fst E)"
  by (auto simp: key_order_def prefix_entries_def comp_def case_prod_unfold
      dest!: lmdb_viewD(2) [of _ _ _ ProviderApiKeyCreatedIndex]
      intro!: sorted_keys_filter)

lemma key_order_position: "key_order db p E \<Longrightarrow> e \<in> set E \<Longrightarrow> position_ok db p (Some (fst e))"
  by (fastforce simp: key_order_def position_ok_def prefix_entries_def)

lemma validate_key_prefix: "validate_key k = Inr () \<Longrightarrow> validate_prefix k = Inr ()"
  by (auto simp: validate_key_def validate_prefix_def split: if_splits)

lemma prefix_entries_after:
  "prefix_entries c t pre (Some a) = filter (\<lambda>(k, _). a < k) (prefix_entries c t pre None)"
  by (simp add: prefix_entries_def case_prod_unfold conj_commute)

text \<open>One window of the index: the next entries after the cursor's position.\<close>

lemma window_entries:
  assumes "key_order db p E" and "position_ok db p a"
  shows "\<exists>pre. provider_api_key_created_prefix (kd_sha db) p = Inr pre \<and>
    scan_prefix_after (kd_heed db) (kd_ids db) (kd_zstd db) (kd_dictionary db) (kd_snapshot db)
      ProviderApiKeyCreatedIndex pre a KEY_ORDER_SCAN_WINDOW =
    Inr (take KEY_ORDER_SCAN_WINDOW (filter (\<lambda>e. after_start a (fst e)) E))"
proof -
  obtain c pre f where o: "lmdb_view (kd_heed db) (kd_snapshot db) c"
    "provider_api_key_created_prefix (kd_sha db) p = Inr pre"
    "\<forall>x \<in> set (c ProviderApiKeyCreatedIndex).
        decode_stored_record (kd_ids db) (kd_zstd db) (kd_dictionary db) ProviderApiKeyCreatedIndex (snd x) =
          Inr (f (snd x))"
    "E = map (\<lambda>(k, v). (k, f v)) (prefix_entries c ProviderApiKeyCreatedIndex pre None)"
    using assms(1) unfolding key_order_def by blast
  have pre: "validate_prefix pre = Inr ()"
    using o(2) validate_key_prefix by (auto simp: provider_api_key_created_prefix_def)
  have "\<forall>x. a = Some x \<longrightarrow> validate_key x = Inr () \<and> starts_with pre x"
    using assms(2) o(2) unfolding position_ok_def by blast
  from scan_prefix_after_spec [OF o(1) pre this o(3)]
  have "scan_prefix_after (kd_heed db) (kd_ids db) (kd_zstd db) (kd_dictionary db) (kd_snapshot db)
      ProviderApiKeyCreatedIndex pre a KEY_ORDER_SCAN_WINDOW =
    Inr (map (\<lambda>(k, v). (k, f v)) (take KEY_ORDER_SCAN_WINDOW (prefix_entries c ProviderApiKeyCreatedIndex pre a)))"
    by (simp add: KEY_ORDER_SCAN_WINDOW_def)
  moreover have "map (\<lambda>(k, v). (k, f v)) (prefix_entries c ProviderApiKeyCreatedIndex pre a) =
      filter (\<lambda>e. after_start a (fst e)) E"
    unfolding o(4) by (cases a) (simp_all add: after_start_def prefix_entries_after filter_map comp_def case_prod_unfold)
  ultimately show ?thesis using o(2) by (metis take_map)
qed

lemma inspect_window_found:
  assumes "key_outcome db p b k = Inr (Some row)"
  obtains r ad where "get_record db ProviderApiKeys k = Inr (Some r)" "offer_key db p b r = Inr (Some ad)"
    "provider_api_key_row k r ad = Inr row"
  using assms by (auto simp: key_outcome_def rbind_eq_Inr split: option.splits)

lemma inspect_window_spec:
  fixes stop :: "string option" and W :: "(string \<times> string) list"
  assumes "\<forall>e \<in> set W. key_outcome db p b (snd e) = Inr (offered db p b (snd e))"
  defines "visited \<equiv> takeWhile (\<lambda>e. before_stop stop (fst e)) W"
  shows "case find (\<lambda>e. offered db p b (snd e) \<noteq> None) visited of
      Some e \<Rightarrow> \<exists>r ad. inspect_window db p b stop exhausted last_position W =
                   Inr (Some (fst e, snd e, r, ad), Some (fst e), exhausted) \<and>
                 provider_api_key_row (snd e) r ad = Inr (the (offered db p b (snd e)))
    | None \<Rightarrow> inspect_window db p b stop exhausted last_position W =
                Inr (None, if visited = [] then last_position else Some (fst (last visited)), exhausted \<or> visited \<noteq> W)"
  using assms(1) unfolding visited_def
proof (induction W arbitrary: last_position)
  case (Cons e W)
  obtain q k where e: "e = (q, k)" by fastforce
  show ?case
  proof (cases "before_stop stop q")
    case False
    then have "(case stop of Some l \<Rightarrow> l \<le> q | None \<Rightarrow> False)" by (cases stop) (auto simp: before_stop_def)
    with False e show ?thesis by simp
  next
    case True
    then have go: "\<not> (case stop of Some l \<Rightarrow> l \<le> q | None \<Rightarrow> False)"
      by (cases stop) (auto simp: before_stop_def)
    have out: "key_outcome db p b k = Inr (offered db p b k)" using Cons.prems e by simp
    show ?thesis
    proof (cases "offered db p b k")
      case (Some row)
      with out obtain r ad where "get_record db ProviderApiKeys k = Inr (Some r)" "offer_key db p b r = Inr (Some ad)"
        "provider_api_key_row k r ad = Inr row" by (metis inspect_window_found)
      with Some go True e show ?thesis by simp
    next
      case None
      have "inspect_window db p b stop exhausted last_position (e # W) =
          inspect_window db p b stop exhausted (Some q) W"
        using out None go e by (auto simp: key_outcome_def rbind_eq_Inr split: option.splits)
      with Cons.IH [of "Some q"] Cons.prems None True e show ?thesis
        by (auto split: option.splits)
    qed
  qed
qed simp

lemma takeWhile_take: "takeWhile P (take n xs) = take n (takeWhile P xs)"
proof (induction xs arbitrary: n)
  case (Cons x xs)
  then show ?case by (cases n) auto
qed simp

lemma takeWhile_sorted:
  fixes L :: "(string \<times> string) list"
  shows "sorted_wrt (<) (map fst L) \<Longrightarrow> takeWhile (\<lambda>e. before_stop stop (fst e)) L = filter (\<lambda>e. before_stop stop (fst e)) L"
proof (induction L)
  case (Cons e L)
  show ?case
  proof (cases "before_stop stop (fst e)")
    case False
    then obtain l where l: "stop = Some l" "\<not> fst e < l" by (cases stop) (auto simp: before_stop_def)
    have "\<not> before_stop stop (fst x)" if "x \<in> set L" for x
      using Cons.prems that l by (auto simp: before_stop_def)
    with False show ?thesis by (simp add: filter_empty_conv)
  qed (use Cons in simp)
qed simp

abbreviation pass :: "(string \<times> string) list \<Rightarrow> ProviderApiKeyCursor \<Rightarrow> (string \<times> string) list" where
  "pass E cur \<equiv> filter (in_pass cur) E"

lemma read_window_spec:
  assumes order: "key_order db p E" and readable: "keys_readable db p E"
    and cur: "cursor_provider cur = p" "position_ok db p (after cur)"
  defines "P \<equiv> pass E cur"
  shows "case find (\<lambda>e. offered db p (recovering cur) (snd e) \<noteq> None) (take KEY_ORDER_SCAN_WINDOW P) of
      Some e \<Rightarrow> \<exists>r ad ex. read_window db cur = Inr (Some (fst e, snd e, r, ad), Some (fst e), ex) \<and>
                 provider_api_key_row (snd e) r ad = Inr (the (offered db p (recovering cur) (snd e)))
    | None \<Rightarrow> read_window db cur =
        Inr (None, if P = [] then None else Some (fst (last (take KEY_ORDER_SCAN_WINDOW P))),
             length P < KEY_ORDER_SCAN_WINDOW)"
proof -
  let ?stop = "if wrapped cur then stop_before cur else None"
  let ?R = "filter (\<lambda>e. after_start (after cur) (fst e)) E"
  let ?W = "take KEY_ORDER_SCAN_WINDOW ?R"
  obtain pre where w: "provider_api_key_created_prefix (kd_sha db) p = Inr pre"
    "scan_prefix_after (kd_heed db) (kd_ids db) (kd_zstd db) (kd_dictionary db) (kd_snapshot db)
      ProviderApiKeyCreatedIndex pre (after cur) KEY_ORDER_SCAN_WINDOW = Inr ?W"
    using window_entries [OF order cur(2)] by blast
  have "sorted_wrt (<) (map fst ?R)" using key_order_sorted [OF order] by (rule sorted_keys_filter)
  then have "takeWhile (\<lambda>e. before_stop ?stop (fst e)) ?R = P"
    by (simp only: takeWhile_sorted filter_filter P_def) (rule filter_cong; auto simp: in_pass_def)
  then have seen: "takeWhile (\<lambda>e. before_stop ?stop (fst e)) ?W = take KEY_ORDER_SCAN_WINDOW P"
    by (simp add: takeWhile_take)
  have read: "read_window db cur = inspect_window db p (recovering cur) ?stop (length ?W < KEY_ORDER_SCAN_WINDOW) None ?W"
    using w cur(1) by (simp add: read_window_def)
  have ok: "\<forall>e \<in> set ?W. key_outcome db p (recovering cur) (snd e) = Inr (offered db p (recovering cur) (snd e))"
    using readable unfolding keys_readable_def by (metis filter_is_subset in_set_takeD subsetD)
  have len: "length ?W < KEY_ORDER_SCAN_WINDOW \<or> take KEY_ORDER_SCAN_WINDOW P \<noteq> ?W \<longleftrightarrow> length P < KEY_ORDER_SCAN_WINDOW"
  proof -
    have "length (take KEY_ORDER_SCAN_WINDOW P) \<le> length ?W"
      unfolding seen [symmetric] by (rule length_takeWhile_le)
    moreover have "take KEY_ORDER_SCAN_WINDOW P = ?W" if "length (take KEY_ORDER_SCAN_WINDOW P) = length ?W"
      using that unfolding seen [symmetric] by (metis takeWhile_eq_take take_all le_refl)
    moreover have "length ?W \<le> KEY_ORDER_SCAN_WINDOW" by simp
    ultimately show ?thesis
      by (cases "length P < KEY_ORDER_SCAN_WINDOW") auto
  qed
  have "P = [] \<longleftrightarrow> take KEY_ORDER_SCAN_WINDOW P = []" by (simp add: KEY_ORDER_SCAN_WINDOW_def)
  with inspect_window_spec [OF ok, of ?stop "length ?W < KEY_ORDER_SCAN_WINDOW" None] show ?thesis
    unfolding seen read [symmetric] len by (auto split: option.splits)
qed

section \<open>Draining a cursor\<close>

lemma cursor_next_mono: "cursor_next m db cur = Some r \<Longrightarrow> m \<le> m' \<Longrightarrow> cursor_next m' db cur = Some r"
proof (induction m arbitrary: m' cur)
  case (Suc m)
  then obtain k where m': "m' = Suc k" "m \<le> k" by (cases m') auto
  show ?case
  proof (cases "next_pass cur")
    case None
    with Suc.prems(1) m' show ?thesis by simp
  next
    case (Some cur1)
    note p = this
    show ?thesis
    proof (cases "read_window db cur1")
      case (Inl e)
      with p Suc.prems(1) m' show ?thesis by simp
    next
      case (Inr w)
      obtain f l ex where w: "w = (f, l, ex)" by (cases w)
      show ?thesis
      proof (cases f)
        case None
        with Suc.prems(1) m' p Inr w Suc.IH show ?thesis by (simp add: Let_def)
      next
        case (Some found)
        with Suc.prems(1) m' p Inr w show ?thesis by (cases found) simp
      qed
    qed
  qed
qed simp

text \<open>All rows a cursor still returns, with fuel for the number of calls and for each call.\<close>

fun drain :: "nat \<Rightarrow> 's key_db \<Rightarrow> ProviderApiKeyCursor \<Rightarrow> ProviderApiKeyRow list option" where
  "drain 0 db cur = None"
| "drain (Suc n) db cur =
     (case cursor_next (Suc n) db cur of
        Some (Inr (None, _)) \<Rightarrow> Some []
      | Some (Inr (Some row, cur')) \<Rightarrow> map_option ((#) row) (drain n db cur')
      | _ \<Rightarrow> None)"

lemma drain_mono: "drain n db cur = Some rs \<Longrightarrow> n \<le> n' \<Longrightarrow> drain n' db cur = Some rs"
proof (induction n arbitrary: n' cur rs)
  case (Suc n)
  then obtain k where n': "n' = Suc k" "n \<le> k" by (cases n') auto
  from Suc.prems(1) obtain r c where r: "cursor_next (Suc n) db cur = Some (Inr (r, c))"
    by (auto simp del: cursor_next.simps split: option.splits sum.splits prod.splits)
  have r': "cursor_next (Suc k) db cur = Some (Inr (r, c))"
    by (rule cursor_next_mono [OF r]) (use n'(2) in simp)
  show ?case
  proof (cases r)
    case None
    with r r' Suc.prems(1) n' show ?thesis by (simp del: cursor_next.simps)
  next
    case (Some row)
    with r Suc.prems(1) obtain rs' where "rs = row # rs'" "drain n db c = Some rs'"
      by (auto simp del: cursor_next.simps)
    with Some r' n' Suc.IH [of c rs' k] show ?thesis by (simp del: cursor_next.simps)
  qed
qed simp

definition drains :: "'s key_db \<Rightarrow> ProviderApiKeyCursor \<Rightarrow> ProviderApiKeyRow list \<Rightarrow> bool" where
  "drains db cur rs \<longleftrightarrow> (\<exists>n. drain n db cur = Some rs)"

lemma drains_end: "cursor_next m db cur = Some (Inr (None, cur')) \<Longrightarrow> drains db cur []"
proof -
  assume "cursor_next m db cur = Some (Inr (None, cur'))"
  then have "cursor_next (Suc m) db cur = Some (Inr (None, cur'))" by (rule cursor_next_mono) simp
  then have "drain (Suc m) db cur = Some []" by (simp del: cursor_next.simps)
  then show ?thesis unfolding drains_def by blast
qed

lemma drains_more:
  assumes "cursor_next m db cur = Some (Inr (Some row, cur'))" and "drains db cur' rs"
  shows "drains db cur (row # rs)"
proof -
  obtain n where n: "drain n db cur' = Some rs" using assms(2) unfolding drains_def by blast
  let ?k = "max m n"
  have "cursor_next (Suc ?k) db cur = Some (Inr (Some row, cur'))" using assms(1) by (rule cursor_next_mono) simp
  moreover have "drain ?k db cur' = Some rs" using n by (rule drain_mono) simp
  ultimately have "drain (Suc ?k) db cur = Some (row # rs)" by (simp del: cursor_next.simps)
  then show ?thesis unfolding drains_def by blast
qed

lemma pass_split:
  assumes "sorted_wrt (<) (map fst E)" and "pass E cur = xs @ e # ys"
  shows "pass E (cur\<lparr>after := Some (fst e)\<rparr>) = ys"
proof -
  have s: "sorted_wrt (<) (map fst (xs @ e # ys))" using sorted_keys_filter [OF assms(1), of "in_pass cur"] assms(2) by simp
  have "e \<in> set (pass E cur)" unfolding assms(2) by simp
  then have "in_pass cur e" by simp
  then have "\<And>x. in_pass (cur\<lparr>after := Some (fst e)\<rparr>) x = (in_pass cur x \<and> fst e < fst x)"
    by (auto simp: in_pass_def after_start_def split: option.splits intro: less_trans)
  then have "pass E (cur\<lparr>after := Some (fst e)\<rparr>) = filter (\<lambda>x. fst e < fst x) (pass E cur)"
    unfolding filter_filter by (intro filter_cong) auto
  also have "\<dots> = filter (\<lambda>x. fst e < fst x) xs @ filter (\<lambda>x. fst e < fst x) ys" unfolding assms(2) by simp
  also have "filter (\<lambda>x. fst e < fst x) xs = []"
    using s by (auto simp: filter_empty_conv sorted_wrt_append dest: less_asym)
  also have "filter (\<lambda>x. fst e < fst x) ys = ys"
    using s by (auto simp: filter_id_conv sorted_wrt_append)
  finally show ?thesis by simp
qed

lemma rows_simps:
  "rows db p b [] = []"
  "rows db p b (e # L) = (case offered db p b (snd e) of None \<Rightarrow> rows db p b L | Some r \<Rightarrow> r # rows db p b L)"
  "rows db p b (L @ M) = rows db p b L @ rows db p b M"
  by (simp_all add: rows_def map_filter_def split: option.splits)

lemma rows_none: "(\<And>e. e \<in> set L \<Longrightarrow> offered db p b (snd e) = None) \<Longrightarrow> rows db p b L = []"
  by (induction L) (auto simp: rows_simps)

lemma find_decomp:
  "find Q L = Some e \<Longrightarrow> \<exists>xs ys. L = xs @ e # ys \<and> Q e \<and> (\<forall>x \<in> set xs. \<not> Q x)"
proof (induction L)
  case (Cons a L)
  show ?case
  proof (cases "Q a")
    case True
    with Cons.prems have "a # L = [] @ e # L" "Q e" by auto
    then show ?thesis by (metis empty_iff empty_set)
  next
    case False
    with Cons obtain xs ys where "L = xs @ e # ys" "Q e" "\<forall>x \<in> set xs. \<not> Q x" by auto
    with False have "a # L = (a # xs) @ e # ys" "Q e" "\<forall>x \<in> set (a # xs). \<not> Q x" by auto
    then show ?thesis by blast
  qed
qed simp

lemma find_append:
  "find Q (L @ M) = (case find Q L of None \<Rightarrow> find Q M | Some e \<Rightarrow> Some e)"
  by (induction L) auto

lemma last_take_split:
  "0 < n \<Longrightarrow> n \<le> length L \<Longrightarrow> L = butlast (take n L) @ last (take n L) # drop n L"
  by (metis append.assoc append_Cons append_Nil append_butlast_last_id append_take_drop_id length_0_conv
      length_take min.absorb2 neq0_conv)

text \<open>
  One pass: the cursor returns the first key offered in it, or moves to the end of the pass
  within finitely many windows.
\<close>

lemma pass_first:
  assumes order: "key_order db p E" and readable: "keys_readable db p E"
  defines "Q \<equiv> \<lambda>cur e. offered db p (recovering cur) (snd e) \<noteq> None"
  shows "cursor_provider cur = p \<Longrightarrow> position_ok db p (after cur) \<Longrightarrow> \<not> finished cur \<Longrightarrow>
    (case find (Q cur) (pass E cur) of
       Some e \<Rightarrow> \<exists>n. cursor_next n db cur =
         Some (Inr (Some (the (offered db p (recovering cur) (snd e))), cur\<lparr>after := Some (fst e)\<rparr>))
     | None \<Rightarrow> \<exists>n a. position_ok db p a \<and>
         (\<forall>m. cursor_next (n + m) db cur = cursor_next m db (cur\<lparr>after := a, finished := True\<rparr>)))"
proof (induction "length (pass E cur)" arbitrary: cur rule: less_induct)
  case less
  let ?P = "pass E cur" and ?w = KEY_ORDER_SCAN_WINDOW
  note read = read_window_spec [OF order readable less.prems(1,2), folded Q_def]
  have np: "next_pass cur = Some cur" using less.prems(3) by (simp add: next_pass_def)
  have w0: "0 < ?w" by (simp add: KEY_ORDER_SCAN_WINDOW_def)
  have find: "find (Q cur) ?P = (case find (Q cur) (take ?w ?P) of
      None \<Rightarrow> find (Q cur) (drop ?w ?P) | Some e \<Rightarrow> Some e)"
    using find_append [of "Q cur" "take ?w ?P" "drop ?w ?P"] by simp
  show ?case
  proof (cases "find (Q cur) (take ?w ?P)")
    case (Some e)
    then have "cursor_next (Suc 0) db cur =
        Some (Inr (Some (the (offered db p (recovering cur) (snd e))), cur\<lparr>after := Some (fst e)\<rparr>))"
      using read np by (auto simp: Q_def)
    with Some find show ?thesis by (auto simp del: cursor_next.simps)
  next
    case None
    have w: "read_window db cur =
        Inr (None, if ?P = [] then None else Some (fst (last (take ?w ?P))), length ?P < ?w)"
      using read None by (simp add: Q_def)
    let ?l = "last (take ?w ?P)"
    have mem: "?l \<in> set E" if "?P \<noteq> []"
      using that w0 by (metis filter_is_subset in_set_takeD last_in_set neq0_conv subsetD take_eq_Nil)
    show ?thesis
    proof (cases "length ?P < ?w")
      case True
      let ?a = "if ?P = [] then after cur else Some (fst ?l)"
      have "position_ok db p ?a" using less.prems(2) key_order_position [OF order mem] by simp
      moreover have "cursor_next (1 + m) db cur = cursor_next m db (cur\<lparr>after := ?a, finished := True\<rparr>)" for m
        using np w True by (cases "?P = []") (simp_all add: Let_def)
      moreover have found: "find (Q cur) ?P = None" using find None True by simp
      ultimately show ?thesis unfolding found option.case by blast
    next
      case False
      let ?cur = "cur\<lparr>after := Some (fst ?l)\<rparr>"
      have ne: "?P \<noteq> []" using False w0 by auto
      have rest: "pass E ?cur = drop ?w ?P"
        using pass_split [OF key_order_sorted [OF order] last_take_split [OF w0]] False by simp
      have step: "cursor_next (Suc m) db cur = cursor_next m db ?cur" for m
        using np w False ne by (simp add: Let_def)
      have Q: "Q ?cur = Q cur" by (simp add: Q_def)
      have "length (pass E ?cur) < length ?P" unfolding rest using False w0 ne by simp
      from less.hyps [OF this] less.prems key_order_position [OF order mem [OF ne]]
      have ih: "case find (Q cur) (drop ?w ?P) of
         Some e \<Rightarrow> \<exists>n. cursor_next n db ?cur =
           Some (Inr (Some (the (offered db p (recovering cur) (snd e))), cur\<lparr>after := Some (fst e)\<rparr>))
       | None \<Rightarrow> \<exists>n a. position_ok db p a \<and>
           (\<forall>m. cursor_next (n + m) db ?cur = cursor_next m db (cur\<lparr>after := a, finished := True\<rparr>))"
        unfolding rest Q by (simp del: cursor_next.simps cong: option.case_cong)
      show ?thesis
      proof (cases "find (Q cur) (drop ?w ?P)")
        case None
        with ih obtain n a where "position_ok db p a"
          "\<forall>m. cursor_next (n + m) db ?cur = cursor_next m db (cur\<lparr>after := a, finished := True\<rparr>)" by auto
        then have "position_ok db p a \<and>
            (\<forall>m. cursor_next (Suc n + m) db cur = cursor_next m db (cur\<lparr>after := a, finished := True\<rparr>))"
          by (simp only: add_Suc step) simp
        then have "\<exists>n a. position_ok db p a \<and>
            (\<forall>m. cursor_next (n + m) db cur = cursor_next m db (cur\<lparr>after := a, finished := True\<rparr>))"
          by blast
        with None find \<open>find (Q cur) (take ?w ?P) = None\<close> show ?thesis by (simp del: cursor_next.simps)
      next
        case (Some e)
        with ih step show ?thesis
          using find \<open>find (Q cur) (take ?w ?P) = None\<close> by (auto simp del: cursor_next.simps) metis
      qed
    qed
  qed
qed

lemma drains_steps:
  assumes "\<And>m. cursor_next (n + m) db cur = cursor_next m db cur'" and "drains db cur' rs"
  shows "drains db cur rs"
proof -
  obtain k where k: "drain k db cur' = Some rs" using assms(2) unfolding drains_def by blast
  then obtain j where j: "k = Suc j" by (cases k) auto
  obtain r c where r: "cursor_next k db cur' = Some (Inr (r, c))"
    using k j by (auto simp del: cursor_next.simps split: option.splits sum.splits prod.splits)
  then have step: "cursor_next (n + k) db cur = Some (Inr (r, c))" using assms(1) by simp
  show ?thesis
  proof (cases r)
    case None
    with k j r have "rs = []" by (simp del: cursor_next.simps)
    with None drains_end step show ?thesis by blast
  next
    case (Some row)
    with k j r obtain rs' where "rs = row # rs'" "drain j db c = Some rs'" by (auto simp del: cursor_next.simps)
    with Some drains_more step show ?thesis unfolding drains_def by blast
  qed
qed

lemma pass_drains:
  assumes order: "key_order db p E" and readable: "keys_readable db p E"
  shows "cursor_provider cur = p \<Longrightarrow> position_ok db p (after cur) \<Longrightarrow> \<not> finished cur \<Longrightarrow>
    (\<And>a. position_ok db p a \<Longrightarrow> drains db (cur\<lparr>after := a, finished := True\<rparr>) T) \<Longrightarrow>
    drains db cur (rows db p (recovering cur) (pass E cur) @ T)"
proof (induction "length (pass E cur)" arbitrary: cur rule: less_induct)
  case less
  let ?P = "pass E cur" and ?Q = "\<lambda>e. offered db p (recovering cur) (snd e) \<noteq> None"
  note first = pass_first [OF order readable less.prems(1-3)]
  show ?case
  proof (cases "find ?Q ?P")
    case None
    then obtain n a where "position_ok db p a"
      "\<And>m. cursor_next (n + m) db cur = cursor_next m db (cur\<lparr>after := a, finished := True\<rparr>)"
      using first by auto
    with less.prems(4) have "drains db cur T" by (metis drains_steps)
    moreover have "rows db p (recovering cur) ?P = []" using None by (intro rows_none) (auto simp: find_None_iff)
    ultimately show ?thesis by simp
  next
    case (Some e)
    let ?cur = "cur\<lparr>after := Some (fst e)\<rparr>" and ?row = "the (offered db p (recovering cur) (snd e))"
    obtain xs ys where P: "?P = xs @ e # ys" and e: "?Q e" "\<forall>x \<in> set xs. \<not> ?Q x" using find_decomp [OF Some] by blast
    obtain n where n: "cursor_next n db cur = Some (Inr (Some ?row, ?cur))" using first Some by auto
    have rest: "pass E ?cur = ys" using pass_split [OF key_order_sorted [OF order] P] .
    have mem: "e \<in> set E" using P by (metis filter_is_subset in_set_conv_decomp subsetD)
    have "length (pass E ?cur) < length ?P" unfolding rest P by simp
    from less.hyps [OF this] less.prems key_order_position [OF order mem]
    have "drains db ?cur (rows db p (recovering cur) ys @ T)" unfolding rest by simp
    moreover have "rows db p (recovering cur) ?P = ?row # rows db p (recovering cur) ys"
      unfolding P using e by (auto simp: rows_simps rows_none)
    ultimately show ?thesis using drains_more [OF n] by simp
  qed
qed

lemma drains_next_pass:
  assumes "next_pass cur = Some cur1" and "\<not> finished cur1" and "drains db cur1 rs"
  shows "drains db cur rs"
proof -
  have same: "cursor_next m db cur = cursor_next m db cur1" for m
    using assms(1,2) by (cases m) (simp_all add: next_pass_def split: if_splits)
  then have "drain n db cur = drain n db cur1" for n by (cases n) (simp_all del: cursor_next.simps)
  then show ?thesis using assms(3) unfolding drains_def by simp
qed

lemma position_ok_None [simp]: "position_ok db p None"
  by (simp add: position_ok_def)

text \<open>The recovery pass, and the state that leads to it.\<close>

lemma drains_recovery:
  assumes "key_order db p E" "keys_readable db p E" "cursor_provider cur = p" "recovering cur" "\<not> wrapped cur"
    "stop_before cur = None" "\<not> finished cur" "after cur = None"
  shows "drains db cur (rows db p True E)"
proof -
  have "drains db (cur\<lparr>after := a, finished := True\<rparr>) []" for a
    using assms(4-6) by (intro drains_end [where m = 1]) (simp add: next_pass_def)
  from pass_drains [OF assms(1-3) _ assms(7) this] assms(4,5,8) show ?thesis
    by (simp add: in_pass_def after_start_def before_stop_def)
qed

lemma drains_to_recovery:
  assumes "key_order db p E" "keys_readable db p E" "cursor_provider cur = p" "finished cur" "\<not> recovering cur"
    "wrapped cur \<or> stop_before cur = None"
  shows "drains db cur (rows db p True E)"
proof -
  let ?cur = "cur\<lparr>recovering := True, after := None, finished := False, wrapped := False, stop_before := None\<rparr>"
  have "next_pass cur = Some ?cur" using assms(4-6) by (auto simp: next_pass_def)
  then show ?thesis
    by (rule drains_next_pass) (use assms drains_recovery [of db p E ?cur] in simp_all)
qed

section \<open>Ordered and rotating key selection\<close>

lemma cursor_new_fields [simp]:
  "cursor_provider (cursor_new p a) = p" "after (cursor_new p a) = a" "\<not> finished (cursor_new p a)"
  "stop_before (cursor_new p a) = None" "\<not> wrapped (cursor_new p a)" "\<not> recovering (cursor_new p a)"
  by (simp_all add: cursor_new_def)

lemma offered_outcome:
  assumes "offered db p b k = Some row"
  obtains r ad where "get_record db ProviderApiKeys k = Inr (Some r)" "offer_key db p b r = Inr (Some ad)"
    "provider_api_key_row k r ad = Inr row"
proof -
  have "key_outcome db p b k = Inr (Some row)" using assms by (simp add: offered_def split: sum.splits)
  then show ?thesis using that by (rule inspect_window_found)
qed

lemma offered_row_id: "offered db p b k = Some row \<Longrightarrow> row_id row = k"
  by (erule offered_outcome) (auto simp: provider_api_key_row_def rbind_eq_Inr)

lemma offer_key_invalid:
  "offer_key db p b r = Inr (Some ad) \<Longrightarrow> rec_boolean r ''invalid'' = Inr b"
  by (cases b) (auto simp: offer_key_def rbind_eq_Inr split: if_splits)

lemma offered_exclusive:
  assumes "offered db p False k = Some r"
  shows "offered db p True k = None"
proof (rule ccontr)
  assume "offered db p True k \<noteq> None"
  then obtain r' where t: "offered db p True k = Some r'" by blast
  from t obtain r1 ad1 where 1: "get_record db ProviderApiKeys k = Inr (Some r1)" "offer_key db p True r1 = Inr (Some ad1)"
    by (rule offered_outcome)
  from assms obtain r2 ad2 where 2: "get_record db ProviderApiKeys k = Inr (Some r2)" "offer_key db p False r2 = Inr (Some ad2)"
    by (rule offered_outcome)
  from 1 2 show False using offer_key_invalid [OF 1(2)] offer_key_invalid [OF 2(2)] by simp
qed

lemma rows_Cons_ids:
  "row_id ` set (rows db p b (e # E)) =
     (if offered db p b (snd e) \<noteq> None then insert (snd e) (row_id ` set (rows db p b E)) else row_id ` set (rows db p b E))"
  by (cases "offered db p b (snd e)") (auto simp: rows_simps dest: offered_row_id)

lemma row_ids:
  "k \<in> row_id ` set (rows db p b E) \<longleftrightarrow> k \<in> snd ` set E \<and> offered db p b k \<noteq> None"
proof (induction E)
  case (Cons e E)
  then show ?case unfolding rows_Cons_ids by (cases "k = snd e") simp_all
qed (simp add: rows_simps)

lemma row_ids_distinct: "distinct (map snd E) \<Longrightarrow> distinct (map row_id (rows db p b E))"
proof (induction E)
  case (Cons e E)
  show ?case
  proof (cases "offered db p b (snd e)")
    case (Some r)
    then have "row_id r = snd e" by (rule offered_row_id)
    with Cons Some row_ids [of "snd e" db p b E] show ?thesis by (simp add: rows_simps)
  qed (use Cons in \<open>simp add: rows_simps\<close>)
qed (simp add: rows_simps)

lemma row_ids_disjoint: "row_id ` set (rows db p False E) \<inter> row_id ` set (rows db p True E') = {}"
proof (rule ccontr)
  assume "row_id ` set (rows db p False E) \<inter> row_id ` set (rows db p True E') \<noteq> {}"
  then obtain k where "k \<in> row_id ` set (rows db p False E)" "k \<in> row_id ` set (rows db p True E')" by blast
  then have "offered db p False k \<noteq> None" "offered db p True k \<noteq> None" unfolding row_ids by simp_all
  then show False by (cases "offered db p False k") (simp_all add: offered_exclusive)
qed

text \<open>C32: The ordered cursor, called until it ends, returns exactly the usable keys of the provider in the
  fallback order and then the invalid keys whose cooldown has elapsed, no key twice, and then ends.\<close>

theorem ordered_cursor_complete:
  assumes "key_order db p E" and "keys_readable db p E" and "distinct (map snd E)"
  shows "drains db (cursor_new p None) (rows db p False E @ rows db p True E) \<and>
    distinct (map row_id (rows db p False E @ rows db p True E))"
proof
  let ?cur = "cursor_new p None"
  have "pass E ?cur = E" by (simp add: in_pass_def after_start_def before_stop_def)
  then show "drains db ?cur (rows db p False E @ rows db p True E)"
    using pass_drains [OF assms(1,2), of ?cur "rows db p True E"] drains_to_recovery [OF assms(1,2)] by simp
  show "distinct (map row_id (rows db p False E @ rows db p True E))"
    using row_ids_distinct [OF assms(3), of db p] row_ids_disjoint [of db p E E] by simp
qed

lemma find_first: "Q e \<Longrightarrow> \<forall>x \<in> set xs. \<not> Q x \<Longrightarrow> find Q (xs @ e # ys) = Some e"
  by (induction xs) auto

lemma wrapped_pass:
  assumes "key_order db p (xs @ e # ys)"
  shows "pass (xs @ e # ys) (cur\<lparr>after := Some (fst e), wrapped := False\<rparr>) = ys"
    and "pass (xs @ e # ys) (cur\<lparr>after := None, wrapped := True, stop_before := Some (fst e)\<rparr>) = xs"
proof -
  have s: "sorted_wrt (<) (map fst (xs @ e # ys))" using key_order_sorted [OF assms] .
  show "pass (xs @ e # ys) (cur\<lparr>after := Some (fst e), wrapped := False\<rparr>) = ys"
    using s by (auto simp: in_pass_def after_start_def before_stop_def filter_empty_conv filter_id_conv
        sorted_wrt_append dest: less_asym)
  show "pass (xs @ e # ys) (cur\<lparr>after := None, wrapped := True, stop_before := Some (fst e)\<rparr>) = xs"
    using s by (auto simp: in_pass_def after_start_def before_stop_def filter_empty_conv filter_id_conv
        sorted_wrt_append dest: less_asym)
qed

text \<open>A rotation that starts at the key \<open>e\<close>: the keys after it, then the keys before it, then what follows.\<close>

lemma swap_wrapped:
  "cur\<lparr>wrapped := w, after := a, finished := f\<rparr> = cur\<lparr>after := a, finished := f, wrapped := w\<rparr>"
  by simp

lemma rotation_drains:
  assumes "key_order db p (xs @ e # ys)" "keys_readable db p (xs @ e # ys)"
    and "cursor_provider cur = p" "\<not> finished cur" "\<not> wrapped cur"
    and "after cur = Some (fst e)" "stop_before cur = Some (fst e)"
    and tail: "\<And>a. drains db (cur\<lparr>after := a, finished := True, wrapped := True\<rparr>) T"
  shows "drains db cur (rows db p (recovering cur) ys @ rows db p (recovering cur) xs @ T)"
proof -
  let ?E = "xs @ e # ys" and ?w = "cur\<lparr>wrapped := True, after := None, finished := False\<rparr>"
  have w: "?w = cur\<lparr>after := None, wrapped := True, stop_before := Some (fst e)\<rparr>" using assms(4,7) by simp
  have "drains db ?w (rows db p (recovering ?w) (pass ?E ?w) @ T)"
    by (rule pass_drains [OF assms(1,2)]) (use assms(3) tail in \<open>simp_all add: swap_wrapped\<close>)
  then have second: "drains db ?w (rows db p (recovering cur) xs @ T)" using wrapped_pass(2) [OF assms(1)] w by simp
  have "drains db (cur\<lparr>after := a, finished := True\<rparr>) (rows db p (recovering cur) xs @ T)" for a
    by (rule drains_next_pass [OF _ _ second]) (use assms(5,7) in \<open>simp_all add: next_pass_def\<close>)
  then have "drains db cur (rows db p (recovering cur) (pass ?E cur) @ rows db p (recovering cur) xs @ T)"
    using pass_drains [OF assms(1,2,3) _ assms(4)] key_order_position [OF assms(1), of e] assms(6) by simp
  moreover have "cur = cur\<lparr>after := Some (fst e), wrapped := False\<rparr>" using assms(5,6) by simp
  ultimately show ?thesis using wrapped_pass(1) [OF assms(1)] by metis
qed

lemma start_rotating_first:
  assumes "cursor_next n db (cursor_new p a) = Some (Inr (Some row, cur))"
  shows "start_rotating n db p a = Some (Inr (Some (cur\<lparr>stop_before := after cur\<rparr>, row)))"
  using assms by (simp add: start_rotating_def advance_to_def del: cursor_next.simps)

text \<open>C33: A rotation whose next active key after the stored position is \<open>e\<close> starts with \<open>e\<close> and then, when every
  key is rejected, goes on to the active keys after it, wraps around to the active keys before it, and ends with
  the invalid keys whose cooldown has elapsed.\<close>

theorem rotation_wraps_around:
  assumes "key_order db p E" and "keys_readable db p E" and "position_ok db p a"
    and "E = xs @ e # ys" and "after_start a (fst e)" and "offered db p False (snd e) = Some row"
    and "\<forall>x \<in> set xs. after_start a (fst x) \<longrightarrow> offered db p False (snd x) = None"
  shows "\<exists>n cur. start_rotating n db p a = Some (Inr (Some (cur, row))) \<and>
    drains db cur (rows db p False ys @ rows db p False xs @ rows db p True E)"
proof -
  let ?new = "cursor_new p a" and ?cur = "(cursor_new p a)\<lparr>after := Some (fst e), stop_before := Some (fst e)\<rparr>"
  have "in_pass ?new = (\<lambda>x. after_start a (fst x))" by (simp add: in_pass_def before_stop_def fun_eq_iff)
  then have "pass E ?new = filter (\<lambda>x. after_start a (fst x)) xs @ e # filter (\<lambda>x. after_start a (fst x)) ys"
    using assms(4,5) by simp
  then have "find (\<lambda>x. offered db p False (snd x) \<noteq> None) (pass E ?new) = Some e"
    using find_first [of "\<lambda>x. offered db p False (snd x) \<noteq> None" e] assms(6,7) by auto
  then obtain n where n: "cursor_next n db ?new = Some (Inr (Some row, ?new\<lparr>after := Some (fst e)\<rparr>))"
    using pass_first [OF assms(1,2), of ?new] assms(3,6) by auto
  have "drains db (?cur\<lparr>after := x, finished := True, wrapped := True\<rparr>) (rows db p True E)" for x
    by (rule drains_to_recovery [OF assms(1,2)]) simp_all
  from rotation_drains [OF assms(1,2) [unfolded assms(4)] _ _ _ _ _ this]
  have "drains db ?cur (rows db p False ys @ rows db p False xs @ rows db p True E)" by simp
  with start_rotating_first [OF n] show ?thesis by auto
qed


text \<open>C34: When no active key lies after the stored position and some invalid key has cooled down, a rotation
  starts in the recovery pass: it only ever offers invalid keys, and the active keys at or before the stored
  position are not tried, although the scan is documented to wrap around to them.\<close>

theorem rotation_skips_active_keys:
  assumes "key_order db p E" and "keys_readable db p E" and "position_ok db p a"
    and "\<forall>x \<in> set E. after_start a (fst x) \<longrightarrow> offered db p False (snd x) = None"
    and "E = xs @ e # ys" and "offered db p True (snd e) = Some row"
    and "\<forall>x \<in> set xs. offered db p True (snd x) = None"
  shows "\<exists>n cur. start_rotating n db p a = Some (Inr (Some (cur, row))) \<and> drains db cur (rows db p True ys)"
proof -
  let ?new = "cursor_new p a"
  let ?rec = "\<lparr>cursor_provider = p, after = None, finished = False, stop_before = None, wrapped = False, recovering = True\<rparr>"
  let ?cur = "?rec\<lparr>after := Some (fst e), stop_before := Some (fst e)\<rparr>"
  have "find (\<lambda>x. offered db p False (snd x) \<noteq> None) (pass E ?new) = None"
    using assms(4) by (auto simp: find_None_iff in_pass_def)
  then obtain n a' where n: "\<And>m. cursor_next (n + m) db ?new = cursor_next m db (?new\<lparr>after := a', finished := True\<rparr>)"
    using pass_first [OF assms(1,2), of ?new] assms(3) by auto
  have np: "next_pass (?new\<lparr>after := a', finished := True\<rparr>) = Some ?rec" "next_pass ?rec = Some ?rec"
    by (simp_all add: next_pass_def cursor_new_def)
  then have rec: "cursor_next m db (?new\<lparr>after := a', finished := True\<rparr>) = cursor_next m db ?rec" for m
    by (cases m) simp_all
  have "pass E ?rec = E" by (simp add: in_pass_def after_start_def before_stop_def)
  then have "find (\<lambda>x. offered db p True (snd x) \<noteq> None) (pass E ?rec) = Some e"
    using find_first [of "\<lambda>x. offered db p True (snd x) \<noteq> None" e] assms(5-7) by auto
  then obtain m where "cursor_next m db ?rec = Some (Inr (Some row, ?rec\<lparr>after := Some (fst e)\<rparr>))"
    using pass_first [OF assms(1,2), of ?rec] assms(6) by auto
  with n [of m] rec have "cursor_next (n + m) db ?new = Some (Inr (Some row, ?rec\<lparr>after := Some (fst e)\<rparr>))" by simp
  note start = start_rotating_first [OF this]
  have "drains db (?cur\<lparr>after := x, finished := True, wrapped := True\<rparr>) []" for x
    by (rule drains_end [where m = 1]) (simp add: next_pass_def)
  from rotation_drains [OF assms(1,2) [unfolded assms(5)] _ _ _ _ _ this]
  have "drains db ?cur (rows db p True ys @ rows db p True xs)" by simp
  moreover have "rows db p True xs = []" using assms(7) by (intro rows_none) simp
  ultimately show ?thesis using start by auto
qed

section \<open>A concrete provider\<close>

text \<open>
  Provider \<open>p\<close> with three keys: \<open>k1\<close> and \<open>k3\<close> are active, \<open>k2\<close> was rejected at the epoch.
\<close>

definition example_key :: "bool \<Rightarrow> Record" where
  "example_key invalid =
     [(''provider_id'', Text ''p''), (''enabled'', Bool True), (''invalid'', Bool invalid),
      (''invalidated_at'', Text ''1970-01-01 00:00:00''), (''secret'', Bytes [7])]"

definition example_prefix :: string where
  "example_prefix = ''provider/00/created/''"

definition example_order :: "(string \<times> string) list" where
  "example_order = [(example_prefix @ ''1'', ''k1''), (example_prefix @ ''2'', ''k2''), (example_prefix @ ''3'', ''k3'')]"

definition example_db :: "contents key_db" where
  "example_db =
     \<lparr>kd_heed = mem_heed,
      kd_ids = \<lparr>serialize = (\<lambda>_. Inl []), deserialize = (\<lambda>bs. Inr (''k'' @ map char_of bs))\<rparr>,
      kd_records = \<lparr>serialize = (\<lambda>_. Inl []), deserialize = (\<lambda>bs. Inr (example_key (bs = [1])))\<rparr>,
      kd_zstd = stored_zstd, kd_dictionary = None, kd_sha = (\<lambda>_. [0]),
      kd_snapshot = (\<lambda>t. if t = ProviderApiKeyCreatedIndex then
          [(example_prefix @ ''1'', [49]), (example_prefix @ ''2'', [50]), (example_prefix @ ''3'', [51])]
        else if t = ProviderApiKeys then [(''k1'', [0]), (''k2'', [1]), (''k3'', [0])] else []),
      kd_now = 100\<rparr>"

lemma example_prefix: "provider_api_key_created_prefix (kd_sha example_db) ''p'' = Inr example_prefix"
  by code_simp

lemma example_key_order: "key_order example_db ''p'' example_order"
  unfolding key_order_def
proof (intro exI conjI)
  show "lmdb_view (kd_heed example_db) (kd_snapshot example_db) (kd_snapshot example_db)"
    by (simp add: example_db_def mem_heed_view example_prefix_def less_char_def)
  show "provider_api_key_created_prefix (kd_sha example_db) ''p'' = Inr example_prefix" by (rule example_prefix)
  show "\<forall>x \<in> set (kd_snapshot example_db ProviderApiKeyCreatedIndex). validate_key (fst x) = Inr () \<and>
      decode_stored_record (kd_ids example_db) (kd_zstd example_db) (kd_dictionary example_db)
        ProviderApiKeyCreatedIndex (snd x) = Inr (''k'' @ map char_of (snd x))"
    by code_simp
  show "example_order = map (\<lambda>(k, v). (k, ''k'' @ map char_of v))
      (prefix_entries (kd_snapshot example_db) ProviderApiKeyCreatedIndex example_prefix None)"
    by code_simp
qed

lemma example_outcomes:
  "offered example_db ''p'' False ''k1'' = Some \<lparr>row_id = ''k1'', encrypted_secret = [7], credential_type = ApiKey\<rparr>"
  "offered example_db ''p'' False ''k2'' = None"
  "offered example_db ''p'' False ''k3'' = Some \<lparr>row_id = ''k3'', encrypted_secret = [7], credential_type = ApiKey\<rparr>"
  "offered example_db ''p'' True ''k1'' = None"
  "offered example_db ''p'' True ''k2'' = Some \<lparr>row_id = ''k2'', encrypted_secret = [7], credential_type = ApiKey\<rparr>"
  "offered example_db ''p'' True ''k3'' = None"
  by code_simp+

lemma example_readable: "keys_readable example_db ''p'' example_order"
proof -
  have "\<forall>e \<in> set example_order. key_outcome example_db ''p'' False (snd e) = Inr (offered example_db ''p'' False (snd e))"
    "\<forall>e \<in> set example_order. key_outcome example_db ''p'' True (snd e) = Inr (offered example_db ''p'' True (snd e))"
    by code_simp+
  then show ?thesis unfolding keys_readable_def by (metis (full_types))
qed

lemma example_position: "position_ok example_db ''p'' (Some (example_prefix @ c))"
  if "c = ''1'' \<or> c = ''3''"
proof -
  have "validate_key (example_prefix @ ''1'') = Inr () \<and> starts_with example_prefix (example_prefix @ ''1'') \<and>
      validate_key (example_prefix @ ''3'') = Inr () \<and> starts_with example_prefix (example_prefix @ ''3'')"
    by code_simp
  with that show ?thesis unfolding position_ok_def example_prefix by auto
qed

abbreviation example_row :: "string \<Rightarrow> ProviderApiKeyRow" where
  "example_row k \<equiv> \<lparr>row_id = k, encrypted_secret = [7], credential_type = ApiKey\<rparr>"

lemma example_after:
  "after_start (Some (example_prefix @ ''1'')) (example_prefix @ c) = (''1'' < c)"
  "after_start (Some (example_prefix @ ''3'')) (example_prefix @ c) = (''3'' < c)"
  by (simp_all add: after_start_def example_prefix_def)

theorem ordered_cursor_complete_witness:
  "drains example_db (cursor_new ''p'' None) [example_row ''k1'', example_row ''k3'', example_row ''k2'']"
  using ordered_cursor_complete [OF example_key_order example_readable]
  by (simp add: example_order_def rows_simps example_outcomes)

theorem rotation_wraps_around_witness:
  "\<exists>n cur. start_rotating n example_db ''p'' (Some (example_prefix @ ''1'')) = Some (Inr (Some (cur, example_row ''k3''))) \<and>
     drains example_db cur [example_row ''k1'', example_row ''k2'']"
  using rotation_wraps_around [OF example_key_order example_readable example_position, of "''1''"
      "take 2 example_order" "example_order ! 2" "[]" "example_row ''k3''"]
  by (simp add: example_order_def rows_simps example_outcomes example_after less_char_def)

theorem rotation_skips_active_keys_witness:
  "\<exists>n cur. start_rotating n example_db ''p'' (Some (example_prefix @ ''3'')) = Some (Inr (Some (cur, example_row ''k2''))) \<and>
     drains example_db cur []"
  using rotation_skips_active_keys [OF example_key_order example_readable example_position, of "''3''"
      "take 1 example_order" "example_order ! 1" "drop 2 example_order" "example_row ''k2''"]
  by (simp add: example_order_def rows_simps example_outcomes example_after less_char_def)

end
