(* ===== verification/KeyHealth.thy ===== *)
theory KeyHealth
  imports KeyCursor RateLimit "HOL-Library.Countable"
begin

text \<open>
  What the gateway records of a provider key after a request: \<open>mark_provider_key_used\<close> and
  \<open>mark_provider_key_invalid\<close> of \<^verbatim>\<open>src/gateway/execution/provider.rs\<close>, with the transaction they run in.
  A key marked invalid is withdrawn from the active pass of the cursor and comes back after its cooldown or
  after a success.
\<close>

section \<open>Definitions\<close>

definition utc_timestamp_now :: "nat option \<Rightarrow> StorageError + string" where
  "utc_timestamp_now clock =
     (case clock of
        None \<Rightarrow> Inl (Invalid ''system clock is before the Unix epoch'')
      | Some seconds \<Rightarrow> Inr (format_utc_timestamp seconds))"

text \<open>
  One attempt of \<open>Database::write\<close>: the operation runs in a transaction that is committed if it succeeds and
  dropped if it fails.
\<close>

definition write_attempt :: "('s \<Rightarrow> StorageError + 's) \<Rightarrow> 's key_db \<Rightarrow> (StorageError + unit) \<times> 's key_db" where
  "write_attempt operation db =
     (case operation (kd_snapshot db) of
        Inr s \<Rightarrow> (Inr (), db\<lparr>kd_snapshot := s\<rparr>)
      | Inl e \<Rightarrow> (Inl e, db))"

definition provider_is_deleting :: "Record \<Rightarrow> StorageError + bool" where
  "provider_is_deleting provider =
     (case hm_get provider ''deleting'' of
        None \<Rightarrow> Inr False
      | Some Null \<Rightarrow> Inr False
      | Some (Bool v) \<Rightarrow> Inr v
      | _ \<Rightarrow> Inl (Invalid ''provider deletion state is malformed''))"

definition get_in :: "'s key_db \<Rightarrow> 's \<Rightarrow> Table \<Rightarrow> string \<Rightarrow> StorageError + Record option" where
  "get_in db s table key = txn_get (kd_heed db) (kd_records db) (kd_zstd db) (kd_dictionary db) s table key"

definition put_in :: "'s key_db \<Rightarrow> Table \<Rightarrow> string \<Rightarrow> Record \<Rightarrow> 's \<Rightarrow> StorageError + 's" where
  "put_in db table key r s = txn_put (kd_heed db) (kd_records db) (kd_zstd db) (kd_dictionary db) table key r s"

definition put_id :: "'s key_db \<Rightarrow> Table \<Rightarrow> string \<Rightarrow> string \<Rightarrow> 's \<Rightarrow> StorageError + 's" where
  "put_id db table key v s = txn_put (kd_heed db) (kd_ids db) (kd_zstd db) (kd_dictionary db) table key v s"

text \<open>\<open>i64::saturating_sub(1).max(0)\<close> and \<open>i64::checked_add(1)\<close>.\<close>

definition count_down :: "int \<Rightarrow> int" where
  "count_down n = max (max (n - 1) (- (2 ^ 63))) 0"

definition count_up :: "int \<Rightarrow> StorageError + int" where
  "count_up n =
     (if n + 1 < 2 ^ 63 then Inr (n + 1) else Inl (Invalid ''provider invalid API key count overflowed''))"

text \<open>The recovery of an invalid key, inside the transaction of \<open>mark_provider_key_used\<close>.\<close>

definition recover_key ::
  "'s key_db \<Rightarrow> string \<Rightarrow> string \<Rightarrow> Record \<Rightarrow> 's \<Rightarrow> StorageError + Record \<times> 's" where
  "recover_key db provider_id key r s =
     (let r1 = hm_insert ''last_error'' Null (hm_insert ''invalidated_at'' Null (hm_insert ''invalid'' (Bool False) r)) in
      rbind (provider_api_key_index_key (kd_sha db) provider_id key True) (\<lambda>available_index.
      rbind (put_id db ProviderApiKeyAvailabilityIndex available_index key s) (\<lambda>s1.
      rbind (get_in db s1 Providers provider_id) (\<lambda>found.
        case found of
          None \<Rightarrow> Inr (r1, s1)
        | Some provider \<Rightarrow>
            rbind (rec_integer provider ''invalid_api_key_count'') (\<lambda>n.
            rbind (put_in db Providers provider_id
                     (hm_insert ''invalid_api_key_count'' (I64 (count_down n)) provider) s1) (\<lambda>s2.
              Inr (r1, s2)))))))"

definition key_used_txn :: "'s key_db \<Rightarrow> string \<Rightarrow> string \<Rightarrow> 's \<Rightarrow> StorageError + 's" where
  "key_used_txn db timestamp key s =
     rbind (get_in db s ProviderApiKeys key) (\<lambda>found.
       case found of
         None \<Rightarrow> Inr s
       | Some r \<Rightarrow>
           rbind (rec_text r ''provider_id'') (\<lambda>provider_id.
           rbind (get_in db s Providers provider_id) (\<lambda>owner.
             case owner of
               None \<Rightarrow> Inr s
             | Some provider \<Rightarrow>
                 rbind (provider_is_deleting provider) (\<lambda>deleting.
                   if deleting then Inr s
                   else
                     rbind (rec_boolean r ''invalid'') (\<lambda>invalid.
                     rbind (if invalid then recover_key db provider_id key r s else Inr (r, s)) (\<lambda>(r1, s1).
                       put_in db ProviderApiKeys key (hm_insert ''last_used_at'' (Text timestamp) r1) s1))))))"

text \<open>
  The limiter is \<open>PROVIDER_KEY_LAST_USED_UPDATES\<close>; \<open>now\<close> is the monotonic clock, \<open>clock\<close> the wall clock.
  A failed update is only logged.
\<close>

definition mark_provider_key_used ::
  "RateLimiter \<Rightarrow> instant \<Rightarrow> nat option \<Rightarrow> string option \<Rightarrow> 's key_db \<Rightarrow> (RateLimiter \<times> 's key_db) option" where
  "mark_provider_key_used limiter now clock credential_id db =
     (case credential_id of
        None \<Rightarrow> Some (limiter, db)
      | Some key \<Rightarrow>
          (case check_at limiter key now of
             None \<Rightarrow> None
           | Some (limiter', decision) \<Rightarrow>
               if \<not> allowed decision then Some (limiter', db)
               else
                 (case utc_timestamp_now clock of
                    Inl _ \<Rightarrow> Some (limiter', db)
                  | Inr timestamp \<Rightarrow> Some (limiter', snd (write_attempt (key_used_txn db timestamp key) db)))))"

definition withdraw_key :: "'s key_db \<Rightarrow> string \<Rightarrow> string \<Rightarrow> 's \<Rightarrow> StorageError + 's" where
  "withdraw_key db provider_id available_index s =
     rbind (txn_delete (kd_heed db) ProviderApiKeyAvailabilityIndex available_index s) (\<lambda>(_, s1).
     rbind (get_in db s1 Providers provider_id) (\<lambda>found.
       case found of
         None \<Rightarrow> Inr s1
       | Some provider \<Rightarrow>
           rbind (rec_integer provider ''invalid_api_key_count'') (\<lambda>n.
           rbind (count_up n) (\<lambda>n'.
             put_in db Providers provider_id (hm_insert ''invalid_api_key_count'' (I64 n') provider) s1))))"

definition invalid_record :: "string \<Rightarrow> string \<Rightarrow> Record \<Rightarrow> Record" where
  "invalid_record timestamp last_error r =
     hm_insert ''last_used_at'' (Text timestamp) (hm_insert ''last_error'' (Text last_error)
       (hm_insert ''invalidated_at'' (Text timestamp) (hm_insert ''invalid'' (Bool True) r)))"

definition key_invalid_txn ::
  "'s key_db \<Rightarrow> string \<Rightarrow> string \<Rightarrow> string \<Rightarrow> string \<Rightarrow> string \<Rightarrow> 's \<Rightarrow> StorageError + 's" where
  "key_invalid_txn db provider_id key timestamp last_error available_index s =
     rbind (get_in db s ProviderApiKeys key) (\<lambda>found.
       case found of
         None \<Rightarrow> Inr s
       | Some r \<Rightarrow>
           rbind (rec_text r ''provider_id'') (\<lambda>owner.
             if owner \<noteq> provider_id then Inl (Invalid ''provider API key belongs to a different provider'')
             else
               rbind (get_in db s Providers provider_id) (\<lambda>p.
                 case p of
                   None \<Rightarrow> Inr s
                 | Some provider \<Rightarrow>
                     rbind (provider_is_deleting provider) (\<lambda>deleting.
                       if deleting then Inr s
                       else
                         rbind (rec_boolean r ''enabled'') (\<lambda>enabled.
                         rbind (if enabled then rbind (rec_boolean r ''invalid'') (\<lambda>i. Inr (\<not> i)) else Inr False) (\<lambda>available.
                         rbind (if available then withdraw_key db provider_id available_index s else Inr s) (\<lambda>s1.
                           put_in db ProviderApiKeys key (invalid_record timestamp last_error r) s1)))))))"

definition mark_provider_key_invalid ::
  "nat option \<Rightarrow> string \<Rightarrow> string \<Rightarrow> nat option \<Rightarrow> 's key_db \<Rightarrow> (StorageError + unit) \<times> 's key_db" where
  "mark_provider_key_invalid clock provider_id key status db =
     (case utc_timestamp_now clock of
        Inl e \<Rightarrow> (Inl e, db)
      | Inr timestamp \<Rightarrow>
          (let last_error = (case status of
               Some http \<Rightarrow> ''provider API key received HTTP '' @ show_nat http
             | None \<Rightarrow> ''provider API key rejected by upstream'')
           in case provider_api_key_index_key (kd_sha db) provider_id key True of
                Inl e \<Rightarrow> (Inl e, db)
              | Inr available_index \<Rightarrow>
                  write_attempt (key_invalid_txn db provider_id key timestamp last_error available_index) db))"


section \<open>Reads after writes\<close>

definition get_id :: "'s key_db \<Rightarrow> 's \<Rightarrow> Table \<Rightarrow> string \<Rightarrow> StorageError + string option" where
  "get_id db s table key = txn_get (kd_heed db) (kd_ids db) (kd_zstd db) (kd_dictionary db) s table key"

definition viewed :: "'s key_db \<Rightarrow> 's \<Rightarrow> bool" where
  "viewed db s \<longleftrightarrow> (\<exists>c. lmdb_view (kd_heed db) s c)"

text \<open>What is assumed of LMDB and bincode: writes are read back, every record and id has an encoding.\<close>

definition codecs_ok :: "'s key_db \<Rightarrow> bool" where
  "codecs_ok db \<longleftrightarrow> lmdb_writes (kd_heed db) \<and> (\<forall>r. bincode_roundtrip (kd_records db) r) \<and>
     (\<forall>i. bincode_roundtrip (kd_ids db) i)"

lemma viewed_get:
  assumes "viewed db s"
  shows "txn_get (kd_heed db) bc (kd_zstd db) d s t k =
     rbind (validate_key k) (\<lambda>_. rbind (h_get (kd_heed db) s t k) (\<lambda>found.
       transpose_result (map_option (decode_stored_record bc (kd_zstd db) d t) found)))"
proof -
  have "opened (kd_heed db) s t" using assms lmdb_viewD(1) unfolding viewed_def by metis
  then show ?thesis by (simp add: txn_get_def database_def)
qed

lemma viewed_put:
  assumes "lmdb_writes (kd_heed db)" "viewed db s" "bincode_roundtrip bc v" "validate_key k = Inr ()" "t \<noteq> RequestLogs"
  obtains s' bs where "txn_put (kd_heed db) bc (kd_zstd db) d t k v s = Inr s'" "viewed db s'"
    "decode_stored_record bc (kd_zstd db) d t bs = Inr v"
    "\<And>t' k'. h_get (kd_heed db) s' t' k' = (if t' = t \<and> k' = k then Inr (Some bs) else h_get (kd_heed db) s t' k')"
proof -
  let ?H = "kd_heed db"
  obtain c where c: "lmdb_view ?H s c" using assms(2) unfolding viewed_def by blast
  obtain bs where bs: "serialize bc v = Inr bs" "deserialize bc bs = Inr v"
    using assms(3) unfolding bincode_roundtrip_def by blast
  obtain s' where s': "h_put ?H t k bs s = Inr s'" "lmdb_view ?H s' (c(t := kv_put k bs (c t)))"
    using lmdb_put [OF assms(1) c] .
  note view = lmdb_viewD [OF c] and view' = lmdb_viewD [OF s'(2)]
  show ?thesis
  proof (rule that)
    show "txn_put ?H bc (kd_zstd db) d t k v s = Inr s'"
      using assms(4,5) bs(1) s'(1) view(1) by (simp add: txn_put_def database_def encode_record_def)
    show "viewed db s'" using s'(2) unfolding viewed_def by blast
    show "decode_stored_record bc (kd_zstd db) d t bs = Inr v"
      using assms(5) bs(2) by (simp add: decode_stored_record_def)
    show "h_get ?H s' t' k' = (if t' = t \<and> k' = k then Inr (Some bs) else h_get ?H s t' k')" for t' k'
      using view(3) view'(3) by (simp add: map_of_kv_put [OF view(2)])
  qed
qed

lemma viewed_delete:
  assumes "lmdb_writes (kd_heed db)" "viewed db s" "validate_key k = Inr ()"
  obtains s' b where "txn_delete (kd_heed db) t k s = Inr (b, s')" "viewed db s'"
    "\<And>t' k'. h_get (kd_heed db) s' t' k' = (if t' = t \<and> k' = k then Inr None else h_get (kd_heed db) s t' k')"
proof -
  let ?H = "kd_heed db"
  obtain c where c: "lmdb_view ?H s c" using assms(2) unfolding viewed_def by blast
  obtain s' where s': "h_delete ?H t k s = Inr (map_of (c t) k \<noteq> None, s')"
    "lmdb_view ?H s' (c(t := kv_delete k (c t)))"
    using lmdb_delete [OF assms(1) c] .
  note view = lmdb_viewD [OF c] and view' = lmdb_viewD [OF s'(2)]
  have del: "map_of (kv_delete k xs) k' = (if k' = k then None else map_of xs k')" for k' xs
    unfolding kv_delete_def by (induction xs) auto
  show ?thesis
  proof (rule that)
    show "txn_delete ?H t k s = Inr (map_of (c t) k \<noteq> None, s')"
      using assms(3) s'(1) view(1) by (simp add: txn_delete_def database_def)
    show "viewed db s'" using s'(2) unfolding viewed_def by blast
    show "h_get ?H s' t' k' = (if t' = t \<and> k' = k then Inr None else h_get ?H s t' k')" for t' k'
      using view(3) view'(3) by (simp add: del)
  qed
qed

lemma put_in_ok:
  assumes "codecs_ok db" "viewed db s" "validate_key k = Inr ()" "t \<noteq> RequestLogs"
  obtains s' where "put_in db t k r s = Inr s'" "viewed db s'"
    "\<And>t' k'. get_in db s' t' k' = (if t' = t \<and> k' = k then Inr (Some r) else get_in db s t' k')"
    "\<And>t' k'. t' \<noteq> t \<Longrightarrow> get_id db s' t' k' = get_id db s t' k'"
proof -
  obtain s' bs where s': "put_in db t k r s = Inr s'" "viewed db s'"
    "decode_stored_record (kd_records db) (kd_zstd db) (kd_dictionary db) t bs = Inr r"
    "\<And>t' k'. h_get (kd_heed db) s' t' k' = (if t' = t \<and> k' = k then Inr (Some bs) else h_get (kd_heed db) s t' k')"
    using viewed_put [of db s "kd_records db" r k t "kd_dictionary db"] assms unfolding codecs_ok_def put_in_def by metis
  show ?thesis
    by (rule that [OF s'(1,2)])
      (use assms(3) s'(3) in \<open>simp_all add: get_in_def get_id_def viewed_get [OF s'(2)] viewed_get [OF assms(2)] s'(4)
         transpose_result_def\<close>)
qed

lemma put_id_ok:
  assumes "codecs_ok db" "viewed db s" "validate_key k = Inr ()" "t \<noteq> RequestLogs"
  obtains s' where "put_id db t k v s = Inr s'" "viewed db s'" "get_id db s' t k = Inr (Some v)"
    "\<And>t' k'. t' \<noteq> t \<Longrightarrow> get_in db s' t' k' = get_in db s t' k'"
proof -
  obtain s' bs where s': "put_id db t k v s = Inr s'" "viewed db s'"
    "decode_stored_record (kd_ids db) (kd_zstd db) (kd_dictionary db) t bs = Inr v"
    "\<And>t' k'. h_get (kd_heed db) s' t' k' = (if t' = t \<and> k' = k then Inr (Some bs) else h_get (kd_heed db) s t' k')"
    using viewed_put [of db s "kd_ids db" v k t "kd_dictionary db"] assms unfolding codecs_ok_def put_id_def by metis
  show ?thesis
    by (rule that [OF s'(1,2)])
      (use assms(3) s'(3) in \<open>simp_all add: get_in_def get_id_def viewed_get [OF s'(2)] viewed_get [OF assms(2)] s'(4)
         transpose_result_def\<close>)
qed

lemma delete_id_ok:
  assumes "codecs_ok db" "viewed db s" "validate_key k = Inr ()"
  obtains s' where "\<exists>b. txn_delete (kd_heed db) t k s = Inr (b, s')" "viewed db s'" "get_id db s' t k = Inr None"
    "\<And>t' k'. t' \<noteq> t \<Longrightarrow> get_in db s' t' k' = get_in db s t' k'"
proof -
  obtain s' b where s': "txn_delete (kd_heed db) t k s = Inr (b, s')" "viewed db s'"
    "\<And>t' k'. h_get (kd_heed db) s' t' k' = (if t' = t \<and> k' = k then Inr None else h_get (kd_heed db) s t' k')"
    using viewed_delete [of db s k t] assms unfolding codecs_ok_def by metis
  show ?thesis
    by (rule that [of s'])
      (use assms(3) s'(1,2) in \<open>simp_all add: get_in_def get_id_def viewed_get [OF s'(2)] viewed_get [OF assms(2)] s'(3)
         transpose_result_def\<close>)
qed

lemma get_in_valid: "get_in db s t k = Inr (Some r) \<Longrightarrow> validate_key k = Inr ()"
  by (auto simp: get_in_def txn_get_def rbind_eq_Inr)

lemma index_key_valid: "provider_api_key_index_key sha p k b = Inr idx \<Longrightarrow> validate_key idx = Inr ()"
  by (auto simp: provider_api_key_index_key_def rbind_eq_Inr)


section \<open>Withdrawal and recovery of a key\<close>

lemmas field_defs = rec_text_def rec_boolean_def rec_integer_def rec_bytes_def optional_text_def hm_get_insert

lemma get_record_snapshot [simp]: "get_record (db\<lparr>kd_snapshot := s\<rparr>) t k = get_in db s t k"
  "get_record (db\<lparr>kd_snapshot := s, kd_now := n\<rparr>) t k = get_in db s t k"
  by (simp_all add: get_record_def get_in_def)

lemma key_row_insert:
  "f \<notin> {''credential_type'', ''secret''} \<Longrightarrow> provider_api_key_row k (hm_insert f v r) ad = provider_api_key_row k r ad"
  by (auto simp: provider_api_key_row_def field_defs)

text \<open>What a pass makes of a key whose record, provider and adapter are known.\<close>

lemma offered_eq:
  assumes "get_record db ProviderApiKeys k = Inr (Some r)" "rec_text r ''provider_id'' = Inr p"
    "rec_boolean r ''enabled'' = Inr True" "rec_boolean r ''invalid'' = Inr invalid"
    "is_key_cooldown_elapsed (kd_now db) r = Inr cooled"
    "get_record db Providers p = Inr (Some provider)" "rec_text provider ''adapter_id'' = Inr ad"
    "provider_api_key_row k r (Some ad) = Inr row"
  shows "offered db p b k = (if (if b then invalid \<and> cooled else \<not> invalid) then Some row else None)"
  using assms by (simp add: offered_def key_outcome_def offer_key_def transpose_result_def)

lemma withdraw_key_ok:
  assumes "codecs_ok db" "viewed db s" "validate_key idx = Inr ()"
    "get_in db s Providers p = Inr (Some provider)"
    "rec_integer provider ''invalid_api_key_count'' = Inr n" "n + 1 < 2 ^ 63"
  obtains s' where "withdraw_key db p idx s = Inr s'" "viewed db s'"
    "get_id db s' ProviderApiKeyAvailabilityIndex idx = Inr None"
    "get_in db s' Providers p = Inr (Some (hm_insert ''invalid_api_key_count'' (I64 (n + 1)) provider))"
    "\<And>k. get_in db s' ProviderApiKeys k = get_in db s ProviderApiKeys k"
proof -
  obtain s1 where s1: "\<exists>b. txn_delete (kd_heed db) ProviderApiKeyAvailabilityIndex idx s = Inr (b, s1)" "viewed db s1"
    "get_id db s1 ProviderApiKeyAvailabilityIndex idx = Inr None"
    "\<And>t' k'. t' \<noteq> ProviderApiKeyAvailabilityIndex \<Longrightarrow> get_in db s1 t' k' = get_in db s t' k'"
    using delete_id_ok [OF assms(1-3), where t = ProviderApiKeyAvailabilityIndex] by blast
  let ?p = "hm_insert ''invalid_api_key_count'' (I64 (n + 1)) provider"
  obtain s2 where s2: "put_in db Providers p ?p s1 = Inr s2" "viewed db s2"
    "\<And>t' k'. get_in db s2 t' k' = (if t' = Providers \<and> k' = p then Inr (Some ?p) else get_in db s1 t' k')"
    "\<And>t' k'. t' \<noteq> Providers \<Longrightarrow> get_id db s2 t' k' = get_id db s1 t' k'"
    using put_in_ok [OF assms(1) s1(2) get_in_valid [OF assms(4)], of Providers] by blast
  show ?thesis
    by (rule that [of s2]) (use s1 s2 assms(4-6) in \<open>auto simp: withdraw_key_def count_up_def\<close>)
qed

text \<open>A valid key rejected by the upstream is withdrawn: its availability entry goes, the provider's count of
  invalid keys grows by one, the cursor no longer offers the key as active, and offers it for recovery exactly
  from thirty seconds later on.\<close>

lemma rejected_key_withdrawn:
  assumes "codecs_ok db" "viewed db (kd_snapshot db)"
    and "get_record db ProviderApiKeys key = Inr (Some r)" "rec_text r ''provider_id'' = Inr p"
    and "rec_boolean r ''enabled'' = Inr True" "rec_boolean r ''invalid'' = Inr False"
    and "get_record db Providers p = Inr (Some provider)" "provider_is_deleting provider = Inr False"
    and "rec_integer provider ''invalid_api_key_count'' = Inr n" "n + 1 < 2 ^ 63"
    and "rec_text provider ''adapter_id'' = Inr ad" "provider_api_key_row key r (Some ad) = Inr row"
    and "provider_api_key_index_key (kd_sha db) p key True = Inr idx" and "now < 253402300800"
  shows "\<exists>db' provider'. mark_provider_key_invalid (Some now) p key status db = (Inr (), db') \<and>
    get_id db' (kd_snapshot db') ProviderApiKeyAvailabilityIndex idx = Inr None \<and>
    get_record db' Providers p = Inr (Some provider') \<and>
    rec_integer provider' ''invalid_api_key_count'' = Inr (n + 1) \<and>
    (\<forall>t. offered (db'\<lparr>kd_now := t\<rparr>) p False key = None \<and>
         offered (db'\<lparr>kd_now := t\<rparr>) p True key = (if now + 30 \<le> t then Some row else None))"
proof -
  let ?s = "kd_snapshot db" and ?ts = "format_utc_timestamp now"
  define err where "err = (case status of Some http \<Rightarrow> ''provider API key received HTTP '' @ show_nat http
     | None \<Rightarrow> ''provider API key rejected by upstream'')"
  let ?r = "invalid_record ?ts err r"
  have get: "get_in db ?s ProviderApiKeys key = Inr (Some r)" "get_in db ?s Providers p = Inr (Some provider)"
    using assms(3,7) by (simp_all add: get_record_def get_in_def)
  let ?p = "hm_insert ''invalid_api_key_count'' (I64 (n + 1)) provider"
  obtain s1 where s1: "withdraw_key db p idx ?s = Inr s1" "viewed db s1"
    "get_id db s1 ProviderApiKeyAvailabilityIndex idx = Inr None" "get_in db s1 Providers p = Inr (Some ?p)"
    "\<And>k. get_in db s1 ProviderApiKeys k = get_in db ?s ProviderApiKeys k"
    using withdraw_key_ok [OF assms(1,2) index_key_valid [OF assms(13)] get(2) assms(9,10)] by blast
  obtain s2 where s2: "put_in db ProviderApiKeys key ?r s1 = Inr s2" "viewed db s2"
    "\<And>t' k'. get_in db s2 t' k' = (if t' = ProviderApiKeys \<and> k' = key then Inr (Some ?r) else get_in db s1 t' k')"
    "\<And>t' k'. t' \<noteq> ProviderApiKeys \<Longrightarrow> get_id db s2 t' k' = get_id db s1 t' k'"
    using put_in_ok [OF assms(1) s1(2) get_in_valid [OF get(1)], of ProviderApiKeys] by blast
  let ?db = "db\<lparr>kd_snapshot := s2\<rparr>"
  have txn: "key_invalid_txn db p key ?ts err idx ?s = Inr s2"
    using get assms(4-6,8) s1(1) s2(1) by (simp add: key_invalid_txn_def)
  have mark: "mark_provider_key_invalid (Some now) p key status db = (Inr (), ?db)"
    using txn assms(13) by (simp add: mark_provider_key_invalid_def utc_timestamp_now_def write_attempt_def Let_def
        err_def [symmetric])
  have row: "provider_api_key_row key ?r (Some ad) = Inr row"
    using assms(12) by (simp add: invalid_record_def key_row_insert)
  have "rec_text ?r ''provider_id'' = Inr p" "rec_boolean ?r ''enabled'' = Inr True" "rec_boolean ?r ''invalid'' = Inr True"
    "rec_text ?p ''adapter_id'' = Inr ad"
    using assms(4,5,11) by (simp_all add: invalid_record_def field_defs)
  moreover have "is_key_cooldown_elapsed t ?r = Inr (now + 30 \<le> t)" for t
    using parse_format [OF assms(14)]
    by (auto simp: is_key_cooldown_elapsed_def invalid_record_def field_defs option_or_def
        KEY_INVALIDATION_COOLDOWN_SECONDS_def)
  ultimately have "offered (?db\<lparr>kd_now := t\<rparr>) p b key = (if b \<and> now + 30 \<le> t then Some row else None)" for b t
    using offered_eq [of "?db\<lparr>kd_now := t\<rparr>" key ?r p True "now + 30 \<le> t" ?p ad row b] s1(4) s2(3) row by simp
  moreover have "get_id ?db s2 ProviderApiKeyAvailabilityIndex idx = Inr None"
    using s1(3) s2(4) by (simp add: get_id_def)
  moreover have "get_record ?db Providers p = Inr (Some ?p)" using s1(4) s2(3) by simp
  moreover have "rec_integer ?p ''invalid_api_key_count'' = Inr (n + 1)" by (simp add: field_defs)
  ultimately show ?thesis using mark by (intro exI [of _ ?db] exI [of _ ?p]) simp
qed


text \<open>A success on an invalid key, whether the key is enabled or not.\<close>

lemma recover_key_ok:
  assumes "codecs_ok db" "viewed db s" "get_in db s Providers p = Inr (Some provider)"
    "rec_integer provider ''invalid_api_key_count'' = Inr n"
    "provider_api_key_index_key (kd_sha db) p key True = Inr idx"
  obtains s' where "recover_key db p key r s =
      Inr (hm_insert ''last_error'' Null (hm_insert ''invalidated_at'' Null (hm_insert ''invalid'' (Bool False) r)), s')"
    "viewed db s'" "get_id db s' ProviderApiKeyAvailabilityIndex idx = Inr (Some key)"
    "get_in db s' Providers p = Inr (Some (hm_insert ''invalid_api_key_count'' (I64 (count_down n)) provider))"
    "\<And>k. get_in db s' ProviderApiKeys k = get_in db s ProviderApiKeys k"
proof -
  obtain s1 where s1: "put_id db ProviderApiKeyAvailabilityIndex idx key s = Inr s1" "viewed db s1"
    "get_id db s1 ProviderApiKeyAvailabilityIndex idx = Inr (Some key)"
    "\<And>t' k'. t' \<noteq> ProviderApiKeyAvailabilityIndex \<Longrightarrow> get_in db s1 t' k' = get_in db s t' k'"
    using put_id_ok [OF assms(1,2) index_key_valid [OF assms(5)], where t = ProviderApiKeyAvailabilityIndex] by blast
  let ?p = "hm_insert ''invalid_api_key_count'' (I64 (count_down n)) provider"
  obtain s2 where s2: "put_in db Providers p ?p s1 = Inr s2" "viewed db s2"
    "\<And>t' k'. get_in db s2 t' k' = (if t' = Providers \<and> k' = p then Inr (Some ?p) else get_in db s1 t' k')"
    "\<And>t' k'. t' \<noteq> Providers \<Longrightarrow> get_id db s2 t' k' = get_id db s1 t' k'"
    using put_in_ok [OF assms(1) s1(2) get_in_valid [OF assms(3)], of Providers] by blast
  show ?thesis
    by (rule that [of s2]) (use s1 s2 assms(3-5) in \<open>simp_all add: recover_key_def Let_def\<close>)
qed

lemma key_used_ok:
  assumes "codecs_ok db" "viewed db (kd_snapshot db)"
    and "get_record db ProviderApiKeys key = Inr (Some r)" "rec_text r ''provider_id'' = Inr p"
    and "rec_boolean r ''enabled'' = Inr enabled" "rec_boolean r ''invalid'' = Inr True"
    and "get_record db Providers p = Inr (Some provider)" "provider_is_deleting provider = Inr False"
    and "rec_integer provider ''invalid_api_key_count'' = Inr n"
    and "provider_api_key_index_key (kd_sha db) p key True = Inr idx"
    and "check_at limiter key now = Some (limiter', decision)" "allowed decision"
  obtains s' r' where "mark_provider_key_used limiter now (Some clock) (Some key) db = Some (limiter', db\<lparr>kd_snapshot := s'\<rparr>)"
    "get_id db s' ProviderApiKeyAvailabilityIndex idx = Inr (Some key)"
    "get_in db s' Providers p = Inr (Some (hm_insert ''invalid_api_key_count'' (I64 (count_down n)) provider))"
    "get_in db s' ProviderApiKeys key = Inr (Some r')" "rec_text r' ''provider_id'' = Inr p"
    "rec_boolean r' ''enabled'' = Inr enabled" "rec_boolean r' ''invalid'' = Inr False"
    "\<And>ad. provider_api_key_row key r' ad = provider_api_key_row key r ad"
proof -
  let ?s = "kd_snapshot db"
  have get: "get_in db ?s ProviderApiKeys key = Inr (Some r)" "get_in db ?s Providers p = Inr (Some provider)"
    using assms(3,7) by (simp_all add: get_record_def get_in_def)
  let ?r1 = "hm_insert ''last_error'' Null (hm_insert ''invalidated_at'' Null (hm_insert ''invalid'' (Bool False) r))"
  let ?r = "hm_insert ''last_used_at'' (Text (format_utc_timestamp clock)) ?r1"
  let ?p = "hm_insert ''invalid_api_key_count'' (I64 (count_down n)) provider"
  obtain s1 where s1: "recover_key db p key r ?s = Inr (?r1, s1)" "viewed db s1"
    "get_id db s1 ProviderApiKeyAvailabilityIndex idx = Inr (Some key)" "get_in db s1 Providers p = Inr (Some ?p)"
    "\<And>k. get_in db s1 ProviderApiKeys k = get_in db ?s ProviderApiKeys k"
    using recover_key_ok [OF assms(1,2) get(2) assms(9,10), where r = r] by blast
  obtain s2 where s2: "put_in db ProviderApiKeys key ?r s1 = Inr s2" "viewed db s2"
    "\<And>t' k'. get_in db s2 t' k' = (if t' = ProviderApiKeys \<and> k' = key then Inr (Some ?r) else get_in db s1 t' k')"
    "\<And>t' k'. t' \<noteq> ProviderApiKeys \<Longrightarrow> get_id db s2 t' k' = get_id db s1 t' k'"
    using put_in_ok [OF assms(1) s1(2) get_in_valid [OF get(1)], of ProviderApiKeys] by blast
  have txn: "key_used_txn db (format_utc_timestamp clock) key ?s = Inr s2"
    using get assms(4,6,8) s1(1) s2(1) by (simp add: key_used_txn_def)
  show ?thesis
  proof (rule that [of s2 ?r])
    show "mark_provider_key_used limiter now (Some clock) (Some key) db = Some (limiter', db\<lparr>kd_snapshot := s2\<rparr>)"
      using txn assms(11,12) by (simp add: mark_provider_key_used_def utc_timestamp_now_def write_attempt_def)
  qed (use s1 s2 assms(4,5) in \<open>simp_all add: field_defs key_row_insert\<close>)
qed

text \<open>A success on an enabled invalid key brings it back: it is available and offered as an active key again,
  and the provider's count of invalid keys goes down by one, but never below zero.\<close>

lemma successful_key_recovers:
  assumes "codecs_ok db" "viewed db (kd_snapshot db)"
    and "get_record db ProviderApiKeys key = Inr (Some r)" "rec_text r ''provider_id'' = Inr p"
    and "rec_boolean r ''enabled'' = Inr True" "rec_boolean r ''invalid'' = Inr True"
    and "get_record db Providers p = Inr (Some provider)" "provider_is_deleting provider = Inr False"
    and "rec_integer provider ''invalid_api_key_count'' = Inr n" "1 \<le> n"
    and "rec_text provider ''adapter_id'' = Inr ad" "provider_api_key_row key r (Some ad) = Inr row"
    and "provider_api_key_index_key (kd_sha db) p key True = Inr idx"
    and "check_at limiter key now = Some (limiter', decision)" "allowed decision"
  shows "\<exists>db' provider'. mark_provider_key_used limiter now (Some clock) (Some key) db = Some (limiter', db') \<and>
    get_id db' (kd_snapshot db') ProviderApiKeyAvailabilityIndex idx = Inr (Some key) \<and>
    get_record db' Providers p = Inr (Some provider') \<and>
    rec_integer provider' ''invalid_api_key_count'' = Inr (n - 1) \<and>
    offered db' p False key = Some row"
proof -
  let ?p = "hm_insert ''invalid_api_key_count'' (I64 (count_down n)) provider"
  obtain s' r' where r': "mark_provider_key_used limiter now (Some clock) (Some key) db = Some (limiter', db\<lparr>kd_snapshot := s'\<rparr>)"
    "get_id db s' ProviderApiKeyAvailabilityIndex idx = Inr (Some key)"
    "get_in db s' Providers p = Inr (Some ?p)"
    "get_in db s' ProviderApiKeys key = Inr (Some r')" "rec_text r' ''provider_id'' = Inr p"
    "rec_boolean r' ''enabled'' = Inr True" "rec_boolean r' ''invalid'' = Inr False"
    "\<And>ad. provider_api_key_row key r' ad = provider_api_key_row key r ad"
    using key_used_ok [OF assms(1-9,13-15)] by blast
  let ?db = "db\<lparr>kd_snapshot := s'\<rparr>"
  have "is_key_cooldown_elapsed (kd_now ?db) r' = Inr False" using r'(7) by (simp add: is_key_cooldown_elapsed_def)
  moreover have "rec_text ?p ''adapter_id'' = Inr ad" using assms(11) by (simp add: field_defs)
  ultimately have "offered ?db p False key = Some row"
    using offered_eq [of ?db key r' p False False ?p ad row False] r' assms(12) by simp
  moreover have "get_id ?db s' ProviderApiKeyAvailabilityIndex idx = Inr (Some key)" using r'(2) by (simp add: get_id_def)
  moreover have "rec_integer ?p ''invalid_api_key_count'' = Inr (n - 1)" using assms(10) by (simp add: field_defs count_down_def)
  ultimately show ?thesis using r'(1,3) by (intro exI [of _ ?db] exI [of _ ?p]) simp
qed

text \<open>A success on a key that an operator disabled while it was invalid puts the disabled key into the index of
  available keys, which otherwise holds the enabled and valid keys only.\<close>

lemma disabled_key_made_available:
  assumes "codecs_ok db" "viewed db (kd_snapshot db)"
    and "get_record db ProviderApiKeys key = Inr (Some r)" "rec_text r ''provider_id'' = Inr p"
    and "rec_boolean r ''enabled'' = Inr False" "rec_boolean r ''invalid'' = Inr True"
    and "get_record db Providers p = Inr (Some provider)" "provider_is_deleting provider = Inr False"
    and "rec_integer provider ''invalid_api_key_count'' = Inr n"
    and "provider_api_key_index_key (kd_sha db) p key True = Inr idx"
    and "check_at limiter key now = Some (limiter', decision)" "allowed decision"
  shows "\<exists>db' r'. mark_provider_key_used limiter now (Some clock) (Some key) db = Some (limiter', db') \<and>
    get_id db' (kd_snapshot db') ProviderApiKeyAvailabilityIndex idx = Inr (Some key) \<and>
    get_record db' ProviderApiKeys key = Inr (Some r') \<and> rec_boolean r' ''enabled'' = Inr False"
proof -
  obtain s' r' where "mark_provider_key_used limiter now (Some clock) (Some key) db = Some (limiter', db\<lparr>kd_snapshot := s'\<rparr>)"
    "get_id db s' ProviderApiKeyAvailabilityIndex idx = Inr (Some key)"
    "get_in db s' ProviderApiKeys key = Inr (Some r')" "rec_boolean r' ''enabled'' = Inr False"
    using key_used_ok [OF assms] by blast
  then show ?thesis by (intro exI [of _ "db\<lparr>kd_snapshot := s'\<rparr>"] exI [of _ r']) (simp add: get_id_def)
qed

section \<open>A concrete database\<close>

text \<open>bincode instantiated by an enumeration of the records; LMDB by the in-memory tables.\<close>

instance Field :: countable
  by countable_datatype

definition sample_key :: "bool \<Rightarrow> bool \<Rightarrow> Record" where
  "sample_key enabled invalid =
     [(''provider_id'', Text ''p''), (''enabled'', Bool enabled), (''invalid'', Bool invalid), (''secret'', Bytes [7])]"

definition sample_provider :: Record where
  "sample_provider = [(''adapter_id'', Text ''openai''), (''invalid_api_key_count'', I64 1)]"

definition sample_db :: "Record \<Rightarrow> contents key_db" where
  "sample_db r =
     \<lparr>kd_heed = mem_heed,
      kd_ids = \<lparr>serialize = (\<lambda>i. Inr (map of_char i)), deserialize = (\<lambda>bs. Inr (map char_of bs))\<rparr>,
      kd_records = \<lparr>serialize = (\<lambda>r. Inr [to_nat r]), deserialize = (\<lambda>bs. Inr (from_nat (hd bs)))\<rparr>,
      kd_zstd = stored_zstd, kd_dictionary = None, kd_sha = (\<lambda>_. [0]),
      kd_snapshot = (\<lambda>t. if t = ProviderApiKeys then [(''k'', [to_nat r])]
        else if t = Providers then [(''p'', [to_nat sample_provider])] else []),
      kd_now = 0\<rparr>"

lemma sample_ok: "codecs_ok (sample_db r)" "viewed (sample_db r) (kd_snapshot (sample_db r))"
proof -
  show "codecs_ok (sample_db r)"
    using mem_heed_writes by (simp add: codecs_ok_def sample_db_def bincode_roundtrip_def comp_def)
  have "lmdb_view mem_heed (kd_snapshot (sample_db r)) (kd_snapshot (sample_db r))"
    by (simp add: mem_heed_view sample_db_def)
  then show "viewed (sample_db r) (kd_snapshot (sample_db r))"
    unfolding viewed_def by (auto simp: sample_db_def)
qed

lemma sample_keys: "validate_key ''k'' = Inr ()" "validate_key ''p'' = Inr ()"
  "provider_api_key_index_key (kd_sha (sample_db r)) ''p'' ''k'' True = Inr ''provider/00/available/k''"
proof -
  show "validate_key ''k'' = Inr ()" "validate_key ''p'' = Inr ()" by code_simp+
  have "provider_api_key_index_key (\<lambda>_. [0]) ''p'' ''k'' True = Inr ''provider/00/available/k''" by code_simp
  then show "provider_api_key_index_key (kd_sha (sample_db r)) ''p'' ''k'' True = Inr ''provider/00/available/k''"
    by (simp add: sample_db_def)
qed

lemma sample_records:
  "get_record (sample_db r) ProviderApiKeys ''k'' = Inr (Some r)"
  "get_record (sample_db r) Providers ''p'' = Inr (Some sample_provider)"
  using sample_keys by (simp_all add: get_record_def txn_get_def sample_db_def mem_heed_def database_def
      transpose_result_def decode_stored_record_def)

lemma sample_fields:
  "rec_text (sample_key e i) ''provider_id'' = Inr ''p''" "rec_boolean (sample_key e i) ''enabled'' = Inr e"
  "rec_boolean (sample_key e i) ''invalid'' = Inr i" "provider_is_deleting sample_provider = Inr False"
  "rec_integer sample_provider ''invalid_api_key_count'' = Inr 1" "rec_text sample_provider ''adapter_id'' = Inr ''openai''"
  "provider_api_key_row ''k'' (sample_key e i) (Some ''openai'') = Inr (example_row ''k'')"
  by (simp_all add: sample_key_def sample_provider_def field_defs provider_is_deleting_def hm_get_def
      provider_api_key_row_def CODEX_ADAPTER_ID_def)

lemma sample_check:
  obtains l' d where "check_at (example_limiter (FixedWindow 1 60)) ''k'' 5 = Some (l', d)" "allowed d"
proof -
  have "\<exists>l' d. check_at (example_limiter (FixedWindow 1 60)) ''k'' 5 = Some (l', d) \<and> allowed d"
    by (simp add: check_at_def check_at_internal_def example_limiter_def prune_state_def RateLimiterConfig_new_def
        consume_quota_def apply_policy_def initial_quota_def hm_get_def hm_insert_def MAX_KEY_BYTES_def
        char_utf8_len_def time_simps str_len_def allowed_decision_def)
  then show ?thesis using that by blast
qed

end
