(* ===== verification/LocalRpm.thy ===== *)
theory LocalRpm
  imports Interfaces
begin

text \<open>
  The local request counter of a provider (\<^verbatim>\<open>src/state/local_rpm.rs\<close>): a ring of sixty one-second buckets
  per provider. The counter is compared with the list of all requests it accepted.
\<close>

section \<open>Definitions\<close>

definition LOCAL_PROVIDER_RPM_WINDOW_SECONDS :: nat where "LOCAL_PROVIDER_RPM_WINDOW_SECONDS = 60"
definition LOCAL_PROVIDER_RPM_BUCKET_COUNT :: nat where "LOCAL_PROVIDER_RPM_BUCKET_COUNT = 60"
definition MAX_LOCAL_PROVIDER_RPM_TRACKERS :: nat where "MAX_LOCAL_PROVIDER_RPM_TRACKERS = 512"
definition LOCAL_PROVIDER_RPM_PRUNE_INTERVAL :: duration where "LOCAL_PROVIDER_RPM_PRUNE_INTERVAL = from_secs 1"

datatype LocalQuotaTrackingStatus = Ready | WarmingUp | CapacityLimited

record LocalQuotaSnapshot =
  snap_requests_last_60s :: nat
  coverage_seconds :: nat
  snap_status :: LocalQuotaTrackingStatus

record LocalRpmBucket =
  second :: "nat option"
  requests :: nat

record ProviderRpmWindow =
  buckets :: "LocalRpmBucket list"
  last_activity_at :: instant

definition ProviderRpmWindow_new :: "instant \<Rightarrow> ProviderRpmWindow" where
  "ProviderRpmWindow_new now =
     \<lparr>buckets = replicate LOCAL_PROVIDER_RPM_BUCKET_COUNT \<lparr>second = None, requests = 0\<rparr>, last_activity_at = now\<rparr>"

definition window_record :: "nat \<Rightarrow> instant \<Rightarrow> ProviderRpmWindow \<Rightarrow> ProviderRpmWindow" where
  "window_record sec now w =
     (let i = sec mod LOCAL_PROVIDER_RPM_WINDOW_SECONDS;
          b = buckets w ! i;
          b1 = (if second b \<noteq> Some sec then \<lparr>second = Some sec, requests = 0\<rparr> else b);
          b2 = b1\<lparr>requests := sat_add u64_max (requests b1) 1\<rparr>
      in w\<lparr>buckets := (buckets w)[i := b2], last_activity_at := now\<rparr>)"

definition requests_last_60s :: "nat \<Rightarrow> ProviderRpmWindow \<Rightarrow> nat" where
  "requests_last_60s current_second w =
     foldl (\<lambda>total b.
       if (case second b of Some sec \<Rightarrow> current_second - sec < LOCAL_PROVIDER_RPM_WINDOW_SECONDS | None \<Rightarrow> False)
       then sat_add u64_max total (requests b) else total) 0 (buckets w)"

record ProviderRpmTracker =
  windows :: "(string, ProviderRpmWindow) hmap"
  epoch_started_at :: instant
  last_pruned_at :: instant

definition ProviderRpmTracker_new :: "instant \<Rightarrow> ProviderRpmTracker" where
  "ProviderRpmTracker_new now = \<lparr>windows = [], epoch_started_at = now, last_pruned_at = now\<rparr>"

definition rpm_prune :: "instant \<Rightarrow> ProviderRpmTracker \<Rightarrow> ProviderRpmTracker" where
  "rpm_prune now t =
     (if saturating_duration_since now (last_pruned_at t) < LOCAL_PROVIDER_RPM_PRUNE_INTERVAL then t
      else t\<lparr>last_pruned_at := now,
             windows := hm_retain (\<lambda>_ w. saturating_duration_since now (last_activity_at w)
               < from_secs LOCAL_PROVIDER_RPM_WINDOW_SECONDS) (windows t)\<rparr>)"

definition rpm_record :: "string \<Rightarrow> instant \<Rightarrow> ProviderRpmTracker \<Rightarrow> bool \<times> ProviderRpmTracker" where
  "rpm_record provider_id now t0 =
     (let t = rpm_prune now t0 in
      if \<not> hm_contains_key (windows t) provider_id \<and> MAX_LOCAL_PROVIDER_RPM_TRACKERS \<le> hm_len (windows t)
      then (False, t)
      else
        let t1 = (if hm_contains_key (windows t) provider_id then t
                  else t\<lparr>windows := hm_insert provider_id (ProviderRpmWindow_new now) (windows t)\<rparr>);
            sec = as_secs (saturating_duration_since now (epoch_started_at t1))
        in case hm_get (windows t1) provider_id of
             Some w \<Rightarrow> (True, t1\<lparr>windows := hm_insert provider_id (window_record sec now w) (windows t1)\<rparr>)
           | None \<Rightarrow> (False, t1))"

definition rpm_snapshot :: "string \<Rightarrow> instant \<Rightarrow> ProviderRpmTracker \<Rightarrow> LocalQuotaSnapshot \<times> ProviderRpmTracker" where
  "rpm_snapshot provider_id now t0 =
     (let t = rpm_prune now t0;
          elapsed = saturating_duration_since now (epoch_started_at t);
          coverage = min (as_secs elapsed) LOCAL_PROVIDER_RPM_WINDOW_SECONDS;
          capacity_limited = (\<not> hm_contains_key (windows t) provider_id \<and>
            MAX_LOCAL_PROVIDER_RPM_TRACKERS \<le> hm_len (windows t));
          current_second = as_secs elapsed;
          n = (case hm_get (windows t) provider_id of None \<Rightarrow> 0 | Some w \<Rightarrow> requests_last_60s current_second w);
          status = (if capacity_limited then CapacityLimited
                    else if coverage < LOCAL_PROVIDER_RPM_WINDOW_SECONDS then WarmingUp else Ready)
      in (\<lparr>snap_requests_last_60s = n, coverage_seconds = coverage, snap_status = status\<rparr>, t))"

definition remove_provider :: "string \<Rightarrow> ProviderRpmTracker \<Rightarrow> ProviderRpmTracker" where
  "remove_provider provider_id t = t\<lparr>windows := hm_remove provider_id (windows t)\<rparr>"

definition rpm_reset :: "instant \<Rightarrow> ProviderRpmTracker \<Rightarrow> ProviderRpmTracker" where
  "rpm_reset now t = \<lparr>windows = [], epoch_started_at = now, last_pruned_at = now\<rparr>"

section \<open>The counter and the requests it accepted\<close>

text \<open>
  The tracker with its clock and the accepted requests, by provider and second of the epoch. Every
  event comes some time after the one before it.
\<close>

datatype rpm_event =
    RpmRecord string duration
  | RpmSnapshot string duration
  | RpmRemove string
  | RpmReset duration

record rpm_run =
  tracker :: ProviderRpmTracker
  accepted_log :: "(string \<times> nat) list"
  clock :: instant

definition rpm_second :: "instant \<Rightarrow> ProviderRpmTracker \<Rightarrow> nat" where
  "rpm_second now t = as_secs (saturating_duration_since now (epoch_started_at t))"

fun rpm_step :: "rpm_run \<Rightarrow> rpm_event \<Rightarrow> rpm_run" where
  "rpm_step r (RpmRecord p d) =
     (let now = clock r + d; (accepted, t) = rpm_record p now (tracker r) in
      \<lparr>tracker = t,
       accepted_log = (if accepted then accepted_log r @ [(p, rpm_second now t)] else accepted_log r),
       clock = now\<rparr>)"
| "rpm_step r (RpmSnapshot p d) =
     (let now = clock r + d in r\<lparr>tracker := snd (rpm_snapshot p now (tracker r)), clock := now\<rparr>)"
| "rpm_step r (RpmRemove p) =
     r\<lparr>tracker := remove_provider p (tracker r), accepted_log := filter (\<lambda>(q, _). q \<noteq> p) (accepted_log r)\<rparr>"
| "rpm_step r (RpmReset d) =
     (let now = clock r + d in \<lparr>tracker = rpm_reset now (tracker r), accepted_log = [], clock = now\<rparr>)"

definition rpm_start :: "instant \<Rightarrow> rpm_run" where
  "rpm_start now = \<lparr>tracker = ProviderRpmTracker_new now, accepted_log = [], clock = now\<rparr>"

text \<open>The seconds of the accepted requests of one provider; a second is fresh within the last sixty.\<close>

definition seconds_of :: "string \<Rightarrow> (string \<times> nat) list \<Rightarrow> nat list" where
  "seconds_of p L = map snd (filter (\<lambda>(q, _). q = p) L)"

definition fresh :: "nat \<Rightarrow> nat \<Rightarrow> bool" where
  "fresh T s \<longleftrightarrow> s \<le> T \<and> T - s < 60"

lemma fresh_mono: "fresh T' s \<Longrightarrow> s \<le> T \<Longrightarrow> T \<le> T' \<Longrightarrow> fresh T s"
  by (auto simp: fresh_def)

lemma fresh_unique: "fresh T s \<Longrightarrow> fresh T s' \<Longrightarrow> s mod 60 = s' mod 60 \<Longrightarrow> s = s'"
proof -
  assume fr: "fresh T s" "fresh T s'" and m: "s mod 60 = s' mod 60"
  let ?q = "s div 60" and ?q' = "s' div 60"
  have "s = 60 * ?q + s mod 60" "s' = 60 * ?q' + s mod 60"
    using m by (metis mult_div_mod_eq)+
  moreover from this fr have "?q = ?q'" unfolding fresh_def by linarith
  ultimately show "s = s'" by metis
qed

text \<open>A bucket holds the fresh seconds of its residue, and their number up to the bound of the counter.\<close>

definition bucket_ok :: "nat \<Rightarrow> nat list \<Rightarrow> nat \<Rightarrow> LocalRpmBucket \<Rightarrow> bool" where
  "bucket_ok T L i b \<longleftrightarrow>
     (\<forall>s \<in> set L. fresh T s \<and> s mod 60 = i \<longrightarrow> second b = Some s) \<and>
     (\<forall>m. second b = Some m \<longrightarrow> m \<le> T \<and> m mod 60 = i \<and> (fresh T m \<longrightarrow> requests b = min u64_max (count_list L m)))"

definition window_ok :: "nat \<Rightarrow> nat list \<Rightarrow> ProviderRpmWindow \<Rightarrow> bool" where
  "window_ok T L w \<longleftrightarrow> length (buckets w) = 60 \<and> (\<forall>i < 60. bucket_ok T L i (buckets w ! i))"

lemma bucket_ok_mono:
  assumes "bucket_ok T L i b" "T \<le> T'" "\<forall>s \<in> set L. s \<le> T"
  shows "bucket_ok T' L i b"
  unfolding bucket_ok_def
proof (intro conjI ballI allI impI)
  fix s assume "s \<in> set L" "fresh T' s \<and> s mod 60 = i"
  with assms show "second b = Some s" unfolding bucket_ok_def using fresh_mono by blast
next
  fix m assume m: "second b = Some m"
  with assms(1) have "m \<le> T" "m mod 60 = i" by (auto simp: bucket_ok_def)
  with assms(2) show "m \<le> T'" "m mod 60 = i" by auto
  assume "fresh T' m"
  with \<open>m \<le> T\<close> assms(2) fresh_mono have "fresh T m" by blast
  with assms(1) m show "requests b = min u64_max (count_list L m)" by (auto simp: bucket_ok_def)
qed

lemma window_ok_mono: "window_ok T L w \<Longrightarrow> T \<le> T' \<Longrightarrow> \<forall>s \<in> set L. s \<le> T \<Longrightarrow> window_ok T' L w"
  by (auto simp: window_ok_def intro: bucket_ok_mono)

lemma new_window_ok: "\<forall>s \<in> set L. \<not> fresh T s \<Longrightarrow> window_ok T L (ProviderRpmWindow_new now)"
  by (auto simp: window_ok_def bucket_ok_def ProviderRpmWindow_new_def LOCAL_PROVIDER_RPM_BUCKET_COUNT_def)

lemma window_record_ok:
  assumes "window_ok T L w" and "\<forall>s \<in> set L. s \<le> T"
  shows "window_ok T (L @ [T]) (window_record T now w)"
  unfolding window_ok_def
proof (intro conjI allI impI)
  let ?j = "T mod 60" and ?w = "window_record T now w"
  have len: "length (buckets w) = 60" and ok: "\<And>i. i < 60 \<Longrightarrow> bucket_ok T L i (buckets w ! i)"
    using assms(1) by (auto simp: window_ok_def)
  have fT: "fresh T T" by (simp add: fresh_def)
  show "length (buckets ?w) = 60"
    using len by (simp add: window_record_def Let_def)
  fix i :: nat assume i: "i < 60"
  show "bucket_ok T (L @ [T]) i (buckets ?w ! i)"
  proof (cases "i = ?j")
    case False
    then have same: "buckets ?w ! i = buckets w ! i"
      by (simp add: window_record_def Let_def LOCAL_PROVIDER_RPM_WINDOW_SECONDS_def)
    have cnt: "count_list (L @ [T]) m = count_list L m" if "m mod 60 = i" for m
    proof -
      have "m \<noteq> T" using that False by blast
      then show ?thesis by simp
    qed
    show ?thesis
      unfolding same bucket_ok_def
    proof (intro conjI ballI allI impI)
      fix s assume "s \<in> set (L @ [T])" "fresh T s \<and> s mod 60 = i"
      with False have "s \<in> set L" by auto
      with \<open>fresh T s \<and> s mod 60 = i\<close> ok [OF i] show "second (buckets w ! i) = Some s" unfolding bucket_ok_def by blast
    qed (use ok [OF i] cnt in \<open>auto simp only: bucket_ok_def\<close>)
  next
    case True
    let ?b = "buckets w ! i"
    have n: "requests ?b = min u64_max (count_list L T)" if "second ?b = Some T"
      using ok [OF i] that fT by (auto simp: bucket_ok_def)
    have z: "count_list L T = 0" if "second ?b \<noteq> Some T"
      using ok [OF i] that fT True by (auto simp: bucket_ok_def count_list_0_iff)
    have "buckets ?w ! i = \<lparr>second = Some T, requests = min u64_max (count_list L T + 1)\<rparr>"
      using True len i n z
      by (auto simp: window_record_def Let_def LOCAL_PROVIDER_RPM_WINDOW_SECONDS_def sat_add_def min_def)
    moreover have "\<forall>s \<in> set (L @ [T]). fresh T s \<and> s mod 60 = i \<longrightarrow> s = T"
      using fresh_unique [OF _ fT] True by blast
    ultimately show ?thesis using True by (auto simp: bucket_ok_def)
  qed
qed


lemma fold_saturating:
  assumes "\<And>b. b \<in> set bs \<Longrightarrow> P b \<Longrightarrow> h b = min M (g b)"
  shows "foldl (\<lambda>t b. if P b then sat_add M t (h b) else t) (min M a) bs =
     min M (a + sum_list (map (\<lambda>b. if P b then g b else 0) bs))"
  using assms
proof (induction bs arbitrary: a)
  case (Cons b bs)
  have "(if P b then sat_add M (min M a) (h b) else min M a) = min M (a + (if P b then g b else 0))"
    using Cons.prems [of b] by (auto simp: sat_add_def min_def)
  with Cons show ?case by (simp add: add.assoc)
qed simp

lemma sum_residues: "(\<Sum>i < 60. length (filter (\<lambda>s. Q s \<and> s mod 60 = i) L)) = length (filter Q (L :: nat list))"
proof (induction L)
  case (Cons x L)
  have "(\<Sum>i < 60. length (filter (\<lambda>s. Q s \<and> s mod 60 = i) (x # L))) =
      (\<Sum>i < 60. (if Q x \<and> x mod 60 = i then 1 else 0) + length (filter (\<lambda>s. Q s \<and> s mod 60 = i) L))"
    by (intro sum.cong) auto
  also have "\<dots> = (\<Sum>i < 60. if Q x \<and> x mod 60 = i then 1 else 0) + length (filter Q L)"
    by (simp add: sum.distrib Cons.IH)
  also have "(\<Sum>i < 60. if Q x \<and> x mod 60 = i then 1 else 0) = (if Q x then 1 else 0 :: nat)"
    by (cases "Q x") (simp_all add: sum.delta)
  finally show ?case by simp
qed simp

lemma count_list_filter: "count_list L m = length (filter (\<lambda>s. s = m) L)"
  by (induction L) auto

lemma bucket_count:
  assumes "bucket_ok T L i b"
  shows "(if (case second b of Some s \<Rightarrow> T - s < 60 | None \<Rightarrow> False) then count_list L (the (second b)) else 0) =
     length (filter (\<lambda>s. fresh T s \<and> s mod 60 = i) L)"
proof (cases "second b")
  case None
  with assms have "\<forall>s \<in> set L. \<not> (fresh T s \<and> s mod 60 = i)" by (auto simp: bucket_ok_def)
  then have "filter (\<lambda>s. fresh T s \<and> s mod 60 = i) L = []" unfolding filter_empty_conv by blast
  with None show ?thesis by simp
next
  case (Some m)
  with assms have m: "m \<le> T" "m mod 60 = i" and only: "\<forall>s \<in> set L. fresh T s \<and> s mod 60 = i \<longrightarrow> s = m"
    by (auto simp: bucket_ok_def)
  show ?thesis
  proof (cases "T - m < 60")
    case True
    then have "fresh T m" using m by (simp add: fresh_def)
    then have "filter (\<lambda>s. fresh T s \<and> s mod 60 = i) L = filter (\<lambda>s. s = m) L"
      using only m(2) by (intro filter_cong) auto
    with Some True show ?thesis by (simp add: count_list_filter)
  next
    case False
    then have "\<not> fresh T m" by (simp add: fresh_def)
    then have "\<forall>s \<in> set L. \<not> (fresh T s \<and> s mod 60 = i)" using only by blast
    then have "filter (\<lambda>s. fresh T s \<and> s mod 60 = i) L = []" unfolding filter_empty_conv by blast
    with Some False show ?thesis by simp
  qed
qed

lemma requests_exact:
  assumes "window_ok T L w"
  shows "requests_last_60s T w = min u64_max (length (filter (fresh T) L))"
proof -
  let ?P = "\<lambda>b. case second b of Some s \<Rightarrow> T - s < 60 | None \<Rightarrow> False"
  let ?g = "\<lambda>b. count_list L (the (second b))"
  have len: "length (buckets w) = 60" and ok: "\<And>i. i < 60 \<Longrightarrow> bucket_ok T L i (buckets w ! i)"
    using assms by (auto simp: window_ok_def)
  have "requests b = min u64_max (?g b)" if "b \<in> set (buckets w)" "?P b" for b
  proof -
    obtain i where "i < 60" "b = buckets w ! i" using \<open>b \<in> set (buckets w)\<close> len by (auto simp: in_set_conv_nth)
    with ok [of i] that(2) show ?thesis by (auto simp: bucket_ok_def fresh_def split: option.splits)
  qed
  from fold_saturating [of "buckets w" ?P requests u64_max ?g 0, OF this]
  have "requests_last_60s T w = min u64_max (sum_list (map (\<lambda>b. if ?P b then ?g b else 0) (buckets w)))"
    unfolding requests_last_60s_def LOCAL_PROVIDER_RPM_WINDOW_SECONDS_def by simp
  also have "sum_list (map (\<lambda>b. if ?P b then ?g b else 0) (buckets w)) =
      (\<Sum>i < 60. if ?P (buckets w ! i) then ?g (buckets w ! i) else 0)"
    by (simp add: sum_list_sum_nth len atLeast0LessThan)
  also have "\<dots> = (\<Sum>i < 60. length (filter (\<lambda>s. fresh T s \<and> s mod 60 = i) L))"
    using bucket_count [OF ok] by (intro sum.cong) auto
  also have "\<dots> = length (filter (fresh T) L)" by (rule sum_residues)
  finally show ?thesis .
qed

section \<open>The invariant of a run\<close>

definition entry_ok :: "rpm_run \<Rightarrow> string \<Rightarrow> bool" where
  "entry_ok r p \<longleftrightarrow>
     (let T = rpm_second (clock r) (tracker r); L = seconds_of p (accepted_log r) in
      (\<forall>s \<in> set L. s \<le> T) \<and>
      (case hm_get (windows (tracker r)) p of
         None \<Rightarrow> \<forall>s \<in> set L. \<not> fresh T s
       | Some w \<Rightarrow> window_ok T L w \<and> epoch_started_at (tracker r) \<le> last_activity_at w \<and>
           last_activity_at w \<le> clock r \<and>
           (\<forall>s \<in> set L. s \<le> rpm_second (last_activity_at w) (tracker r))))"

definition rpm_inv :: "rpm_run \<Rightarrow> bool" where
  "rpm_inv r \<longleftrightarrow> hm_ok (windows (tracker r)) \<and> epoch_started_at (tracker r) \<le> clock r \<and>
     hm_len (windows (tracker r)) \<le> MAX_LOCAL_PROVIDER_RPM_TRACKERS \<and> (\<forall>p. entry_ok r p)"

text \<open>Time passes: the windows stay right, and pruning only removes windows without fresh requests.\<close>

lemma rpm_second_mono: "now \<le> now' \<Longrightarrow> rpm_second now t \<le> rpm_second now' t"
  by (simp add: rpm_second_def as_secs_def saturating_duration_since_def div_le_mono diff_le_mono)

lemma idle_window_stale:
  assumes "epoch_started_at t \<le> a" "from_secs 60 \<le> now - a" "s \<le> rpm_second a t"
  shows "\<not> fresh (rpm_second now t) s"
proof -
  have "a - epoch_started_at t + 60 * nanos_per_sec \<le> now - epoch_started_at t" if "a \<le> now"
    using assms(1,2) that by (simp add: from_secs_def)
  moreover have "a \<le> now" using assms(2) by (simp add: from_secs_def)
  ultimately have "(a - epoch_started_at t + 60 * nanos_per_sec) div nanos_per_sec \<le> (now - epoch_started_at t) div nanos_per_sec"
    by (intro div_le_mono) simp
  then have "rpm_second a t + 60 \<le> rpm_second now t"
    by (simp add: rpm_second_def as_secs_def saturating_duration_since_def)
  with assms(3) show ?thesis by (simp add: fresh_def)
qed


lemma rpm_prune_epoch [simp]: "epoch_started_at (rpm_prune now t) = epoch_started_at t"
  by (simp add: rpm_prune_def)

lemma rpm_second_prune [simp]: "rpm_second x (rpm_prune now t) = rpm_second x t"
  by (simp add: rpm_second_def)

lemma rpm_prune_get:
  assumes "hm_ok (windows t)"
  shows "hm_get (windows (rpm_prune now t)) p = hm_get (windows t) p \<or>
    hm_get (windows (rpm_prune now t)) p = None \<and> (\<exists>w. hm_get (windows t) p = Some w \<and> from_secs 60 \<le> now - last_activity_at w)"
  using assms by (auto simp: rpm_prune_def hm.get_retain LOCAL_PROVIDER_RPM_WINDOW_SECONDS_def
      saturating_duration_since_def split: option.splits)

lemma prune_inv:
  assumes inv: "rpm_inv r" and now: "clock r \<le> now"
  shows "rpm_inv (r\<lparr>tracker := rpm_prune now (tracker r), clock := now\<rparr>)" (is "rpm_inv ?r")
proof -
  let ?t = "tracker r" and ?T = "rpm_second (clock r) (tracker r)" and ?T' = "rpm_second now (tracker r)"
  have ok: "hm_ok (windows ?t)" using inv by (simp add: rpm_inv_def)
  have TT: "?T \<le> ?T'" using now by (rule rpm_second_mono)
  have "entry_ok ?r p" for p
  proof -
    let ?L = "seconds_of p (accepted_log r)"
    have e: "entry_ok r p" using inv by (simp add: rpm_inv_def)
    then have le: "\<forall>s \<in> set ?L. s \<le> ?T" by (simp add: entry_ok_def Let_def)
    then have le': "\<forall>s \<in> set ?L. s \<le> ?T'" using TT by auto
    show ?thesis
    proof (cases "hm_get (windows ?t) p")
      case None
      then have "hm_get (windows (rpm_prune now ?t)) p = None" using rpm_prune_get [OF ok, of now p] by auto
      moreover have "\<forall>s \<in> set ?L. \<not> fresh ?T s" using e None by (simp add: entry_ok_def Let_def)
      ultimately show ?thesis using le le' TT fresh_mono [of ?T'] by (auto simp: entry_ok_def Let_def)
    next
      case (Some w)
      then have w: "window_ok ?T ?L w" "epoch_started_at ?t \<le> last_activity_at w" "last_activity_at w \<le> clock r"
        "\<forall>s \<in> set ?L. s \<le> rpm_second (last_activity_at w) ?t"
        using e by (simp_all add: entry_ok_def Let_def)
      show ?thesis
      proof (cases "hm_get (windows (rpm_prune now ?t)) p")
        case None
        with Some rpm_prune_get [OF ok, of now p] have "from_secs 60 \<le> now - last_activity_at w" by auto
        with w(2,4) idle_window_stale have "\<forall>s \<in> set ?L. \<not> fresh ?T' s" by blast
        with None le' show ?thesis by (simp add: entry_ok_def Let_def)
      next
        case (Some w')
        with \<open>hm_get (windows ?t) p = Some w\<close> rpm_prune_get [OF ok, of now p] have "w' = w" by auto
        with Some w now le' window_ok_mono [OF w(1) TT le] show ?thesis by (simp add: entry_ok_def Let_def)
      qed
    qed
  qed
  moreover have "hm_ok (windows (rpm_prune now ?t))" using ok by (simp add: rpm_prune_def hm.ok_retain)
  moreover have "hm_len (windows (rpm_prune now ?t)) \<le> MAX_LOCAL_PROVIDER_RPM_TRACKERS"
    using inv by (simp add: rpm_prune_def rpm_inv_def hm.retain_bound)
  ultimately show ?thesis using inv now by (simp add: rpm_inv_def)
qed

lemma seconds_of_append: "seconds_of p (L @ [(q, s)]) = (if q = p then seconds_of p L @ [s] else seconds_of p L)"
  by (simp add: seconds_of_def)

text \<open>The window of a provider is recorded into: the others are not touched.\<close>

lemma record_inv:
  assumes inv: "rpm_inv r" and T: "T = rpm_second (clock r) (tracker r)"
    and w: "hm_get (windows (tracker r)) p = Some w \<or>
      hm_get (windows (tracker r)) p = None \<and> hm_len (windows (tracker r)) < MAX_LOCAL_PROVIDER_RPM_TRACKERS \<and>
      w = ProviderRpmWindow_new (clock r)"
  shows "rpm_inv (r\<lparr>tracker := (tracker r)\<lparr>windows := hm_insert p (window_record T (clock r) w) (windows (tracker r))\<rparr>,
     accepted_log := accepted_log r @ [(p, T)]\<rparr>)" (is "rpm_inv ?r")
proof -
  have sec: "rpm_second x (tracker ?r) = rpm_second x (tracker r)" for x by (simp add: rpm_second_def)
  have "entry_ok ?r q" for q
  proof -
    have e: "entry_ok r q" using inv by (simp add: rpm_inv_def)
    show ?thesis
    proof (cases "q = p")
      case False
      with e show ?thesis by (simp add: entry_ok_def Let_def seconds_of_append hm.get_insert rpm_second_def cong: option.case_cong)
    next
      case True
      let ?L = "seconds_of p (accepted_log r)"
      have le: "\<forall>s \<in> set ?L. s \<le> T" using e True T by (simp add: entry_ok_def Let_def)
      have "window_ok T ?L w"
        using w e True T new_window_ok [of ?L T "clock r"] by (auto simp: entry_ok_def Let_def)
      then have "window_ok T (?L @ [T]) (window_record T (clock r) w)" using le by (rule window_record_ok)
      moreover have "last_activity_at (window_record T (clock r) w) = clock r" by (simp add: window_record_def Let_def)
      ultimately show ?thesis
        using True T le inv by (simp add: entry_ok_def Let_def seconds_of_append hm.get_insert rpm_inv_def rpm_second_def)
    qed
  qed
  moreover have "hm_len (hm_insert p v (windows (tracker r))) \<le> MAX_LOCAL_PROVIDER_RPM_TRACKERS" for v
    using inv w by (intro hm.guarded_insert_bound) (auto simp: rpm_inv_def)
  ultimately show ?thesis using inv by (simp add: rpm_inv_def hm.ok_insert)
qed


lemma record_step_inv:
  assumes "rpm_inv r"
  shows "rpm_inv (rpm_step r (RpmRecord p d))"
proof -
  let ?now = "clock r + d"
  let ?r = "r\<lparr>tracker := rpm_prune ?now (tracker r), clock := ?now\<rparr>"
  let ?t = "rpm_prune ?now (tracker r)" and ?T = "rpm_second (clock r + d) (tracker r)"
  have inv: "rpm_inv ?r" using prune_inv [OF assms, of ?now] by simp
  consider "hm_get (windows ?t) p = None" "MAX_LOCAL_PROVIDER_RPM_TRACKERS \<le> hm_len (windows ?t)"
    | "hm_get (windows ?t) p = None" "hm_len (windows ?t) < MAX_LOCAL_PROVIDER_RPM_TRACKERS"
    | w where "hm_get (windows ?t) p = Some w"
    by (meson not_le option.exhaust)
  then show ?thesis
  proof cases
    case 1
    then have "rpm_step r (RpmRecord p d) = ?r" by (simp add: rpm_record_def Let_def hm_contains_key_def)
    with inv show ?thesis by simp
  next
    case 2
    let ?w = "ProviderRpmWindow_new ?now"
    have "hm_insert p v (hm_insert p u m) = hm_insert p v m" for u v and m :: "(string, ProviderRpmWindow) hmap"
      by (simp add: hm_insert_def update_triv update_swap)
    then have "rpm_step r (RpmRecord p d) =
        ?r\<lparr>tracker := ?t\<lparr>windows := hm_insert p (window_record ?T ?now ?w) (windows ?t)\<rparr>, accepted_log := accepted_log r @ [(p, ?T)]\<rparr>"
      using 2 by (simp add: rpm_record_def Let_def hm_contains_key_def hm.get_insert rpm_second_def)
    with record_inv [OF inv, of ?T p ?w] 2 show ?thesis by simp
  next
    case 3
    then have "rpm_step r (RpmRecord p d) =
        ?r\<lparr>tracker := ?t\<lparr>windows := hm_insert p (window_record ?T ?now w) (windows ?t)\<rparr>, accepted_log := accepted_log r @ [(p, ?T)]\<rparr>"
      by (simp add: rpm_record_def Let_def hm_contains_key_def rpm_second_def)
    with record_inv [OF inv, of ?T p w] 3 show ?thesis by simp
  qed
qed

lemma seconds_of_remove: "seconds_of p (filter (\<lambda>(q, _). q \<noteq> x) L) = (if p = x then [] else seconds_of p L)"
  by (induction L) (auto simp: seconds_of_def)

lemma remove_step_inv:
  assumes "rpm_inv r"
  shows "rpm_inv (rpm_step r (RpmRemove x))"
proof -
  have "entry_ok (rpm_step r (RpmRemove x)) p" for p
  proof -
    have "entry_ok r p" using assms by (simp add: rpm_inv_def)
    then show ?thesis
      by (cases "p = x") (simp_all add: entry_ok_def Let_def seconds_of_remove remove_provider_def hm.get_remove
          rpm_second_def cong: option.case_cong)
  qed
  then show ?thesis
    using assms by (simp add: rpm_inv_def remove_provider_def hm.ok_remove hm.remove_bound)
qed

lemma empty_run_inv: "rpm_inv \<lparr>tracker = \<lparr>windows = [], epoch_started_at = now, last_pruned_at = now\<rparr>, accepted_log = [], clock = now\<rparr>"
  by (simp add: rpm_inv_def entry_ok_def Let_def seconds_of_def hm_ok_Nil)

interpretation rpm: machine rpm_step "\<lambda>_. True" rpm_inv
proof
  fix r e
  assume inv: "rpm_inv r"
  show "rpm_inv (rpm_step r e)"
  proof (cases e)
    case (RpmRecord p d)
    with inv show ?thesis by (simp only: record_step_inv)
  next
    case (RpmSnapshot p d)
    then show ?thesis using prune_inv [OF inv, of "clock r + d"] by (simp add: rpm_snapshot_def Let_def)
  next
    case (RpmRemove p)
    with inv show ?thesis by (simp only: remove_step_inv)
  next
    case (RpmReset d)
    then show ?thesis using empty_run_inv by (simp add: rpm_reset_def Let_def)
  qed
qed

lemma filter_log: "length (filter Q (seconds_of p L)) = length (filter (\<lambda>(q, s). q = p \<and> Q s) L)"
  by (induction L) (auto simp: seconds_of_def)

text \<open>C35: After any run of requests, snapshots, removals and resets, the number a snapshot reports for a provider is
  exactly the number of its accepted requests in the last sixty seconds of the epoch (up to the bound of the
  64-bit counter), although each provider only keeps sixty counters and idle providers are pruned; and at most
  512 providers are tracked.\<close>

theorem local_rpm_exact:
  "let r = run rpm_step (rpm_start t0) events; T = rpm_second (clock r + d) (tracker r) in
   snap_requests_last_60s (fst (rpm_snapshot p (clock r + d) (tracker r))) =
     min u64_max (length (filter (\<lambda>(q, s). q = p \<and> fresh T s) (accepted_log r))) \<and>
   hm_len (windows (tracker r)) \<le> 512"
proof -
  define r where "r = run rpm_step (rpm_start t0) events"
  have "rpm_inv (rpm_start t0)" using empty_run_inv by (simp add: rpm_start_def ProviderRpmTracker_new_def)
  then have inv: "rpm_inv r" unfolding r_def by (rule rpm.run_inv) (simp add: list_all_iff)
  let ?now = "clock r + d"
  let ?t = "rpm_prune ?now (tracker r)" and ?T = "rpm_second ?now (tracker r)"
  let ?L = "seconds_of p (accepted_log r)"
  have e: "entry_ok (r\<lparr>tracker := ?t, clock := ?now\<rparr>) p" using prune_inv [OF inv, of ?now] by (simp add: rpm_inv_def)
  have "snap_requests_last_60s (fst (rpm_snapshot p ?now (tracker r))) = min u64_max (length (filter (fresh ?T) ?L))"
  proof (cases "hm_get (windows ?t) p")
    case None
    with e have "\<forall>s \<in> set ?L. \<not> fresh ?T s" by (simp add: entry_ok_def Let_def)
    then have "filter (fresh ?T) ?L = []" unfolding filter_empty_conv by blast
    with None show ?thesis by (simp add: rpm_snapshot_def Let_def)
  next
    case (Some w)
    with e have "window_ok ?T ?L w" by (simp add: entry_ok_def Let_def)
    from requests_exact [OF this] Some show ?thesis
      by (simp add: rpm_snapshot_def Let_def rpm_second_def)
  qed
  moreover have "hm_len (windows (tracker r)) \<le> 512" using inv by (simp add: rpm_inv_def MAX_LOCAL_PROVIDER_RPM_TRACKERS_def)
  ultimately show ?thesis by (simp add: filter_log r_def [symmetric] Let_def)
qed

end
