(* ===== verification/ProviderUsage.thy ===== *)
theory ProviderUsage
  imports Interfaces Text
begin

text \<open>
  The per-credential runtime of the providers: the usage cache with its epoch, the quota breakers of
  \<^verbatim>\<open>src/state/provider_usage.rs\<close>, the session cache of \<^verbatim>\<open>src/state/freebuff.rs\<close> and the lock registries
  that these and \<^verbatim>\<open>src/state/provider_locks.rs\<close> keep behind weak references.
\<close>

section \<open>Lock registries\<close>

definition MAX_PROVIDER_USAGE_LOCKS :: nat where "MAX_PROVIDER_USAGE_LOCKS = 256"
definition MAX_CODEX_REFRESH_LOCKS :: nat where "MAX_CODEX_REFRESH_LOCKS = 256"
definition MAX_FREEBUFF_SESSION_LOCKS :: nat where "MAX_FREEBUFF_SESSION_LOCKS = 256"

text \<open>
  A mutex is named by the address of its allocation. The registry maps a credential to a weak reference;
  \<open>strong\<close> reads the reference counts while dead entries are dropped and \<open>strong'\<close> when the entry found is
  upgraded. \<open>address\<close> is the allocation made if a new mutex is needed.
\<close>

type_synonym address = nat
type_synonym 'k lock_registry = "('k, address) hmap"

definition weak_lock ::
  "nat \<Rightarrow> address \<Rightarrow> (address \<Rightarrow> nat) \<Rightarrow> (address \<Rightarrow> nat) \<Rightarrow> address \<Rightarrow> 'k \<Rightarrow> 'k lock_registry
     \<Rightarrow> address \<times> 'k lock_registry" where
  "weak_lock capacity fallback strong strong' address key locks0 =
     (let locks = hm_retain (\<lambda>_ a. 0 < strong a) locks0 in
      case (case hm_get locks key of Some a \<Rightarrow> if 0 < strong' a then Some a else None | None \<Rightarrow> None) of
        Some a \<Rightarrow> (a, locks)
      | None \<Rightarrow>
          if capacity \<le> hm_len locks then (fallback, locks)
          else (address, hm_insert key address locks))"

definition usage_lock where "usage_lock = weak_lock MAX_PROVIDER_USAGE_LOCKS"
definition codex_refresh_lock where "codex_refresh_lock = weak_lock MAX_CODEX_REFRESH_LOCKS"
definition freebuff_lock where "freebuff_lock = weak_lock MAX_FREEBUFF_SESSION_LOCKS"

section \<open>Caches that evict the oldest entry\<close>

definition evict_oldest :: "('v \<Rightarrow> nat) \<Rightarrow> nat \<Rightarrow> 'k \<Rightarrow> ('k, 'v) hmap \<Rightarrow> ('k, 'v) hmap" where
  "evict_oldest age capacity key m =
     (if \<not> hm_contains_key m key \<and> capacity \<le> hm_len m then
        (case min_by_key (\<lambda>(_, v). age v) m of
           Some (oldest, _) \<Rightarrow> hm_remove oldest m
         | None \<Rightarrow> m)
      else m)"

subsection \<open>The usage cache\<close>

definition MAX_PROVIDER_USAGE_CACHE_ENTRIES :: nat where "MAX_PROVIDER_USAGE_CACHE_ENTRIES = 512"
definition PROVIDER_USAGE_CACHE_MAX_AGE :: duration where "PROVIDER_USAGE_CACHE_MAX_AGE = from_secs (30 * 60)"

record 'v ProviderUsageCacheEntry =
  usage_snapshot :: "'v option"
  fetched_at_ms :: "int option"
  fetched_at :: "instant option"
  last_attempt_at :: instant
  last_error :: "string option"

definition MAX_ANTIGRAVITY_QUOTA_BREAKERS :: nat where "MAX_ANTIGRAVITY_QUOTA_BREAKERS = 512"
definition ANTIGRAVITY_QUOTA_STRIKE_WINDOW :: duration where "ANTIGRAVITY_QUOTA_STRIKE_WINDOW = from_secs 60"
definition ANTIGRAVITY_QUOTA_BLOCK :: duration where "ANTIGRAVITY_QUOTA_BLOCK = from_secs (15 * 60)"
definition MAX_ANTIGRAVITY_RETRY_AFTER :: duration where "MAX_ANTIGRAVITY_RETRY_AFTER = from_secs (24 * 60 * 60)"

record AntigravityQuotaBreakerEntry =
  window_started :: instant
  quota_last_seen :: instant
  strikes :: nat
  blocked_until :: "instant option"

record 'v ProviderUsageRuntime =
  usage_cache :: "(string, 'v ProviderUsageCacheEntry) hmap"
  usage_epoch :: nat
  usage_disabled :: bool
  antigravity_quota_breakers :: "(string, AntigravityQuotaBreakerEntry) hmap"

definition ProviderUsageRuntime_new :: "'v ProviderUsageRuntime" where
  "ProviderUsageRuntime_new =
     \<lparr>usage_cache = [], usage_epoch = 1, usage_disabled = False, antigravity_quota_breakers = []\<rparr>"

definition prune_usage_cache :: "instant \<Rightarrow> 'v ProviderUsageRuntime \<Rightarrow> 'v ProviderUsageRuntime" where
  "prune_usage_cache now rt =
     rt\<lparr>usage_cache := hm_retain
          (\<lambda>_ e. saturating_duration_since now (last_attempt_at e) \<le> PROVIDER_USAGE_CACHE_MAX_AGE) (usage_cache rt)\<rparr>"

definition usage_cached ::
  "string \<Rightarrow> instant \<Rightarrow> 'v ProviderUsageRuntime \<Rightarrow> 'v ProviderUsageCacheEntry option \<times> 'v ProviderUsageRuntime" where
  "usage_cached credential_id now rt =
     (let rt1 = prune_usage_cache now rt in (hm_get (usage_cache rt1) credential_id, rt1))"

definition cache_epoch :: "'v ProviderUsageRuntime \<Rightarrow> nat option" where
  "cache_epoch rt = (if usage_disabled rt then None else Some (usage_epoch rt))"

text \<open>\<open>invalidate\<close>: the epoch first, then the cache and the breakers, each under its own lock.\<close>

definition advance_epoch :: "'v ProviderUsageRuntime \<Rightarrow> 'v ProviderUsageRuntime" where
  "advance_epoch rt =
     (case checked_add u64_max (usage_epoch rt) 1 of
        Some e \<Rightarrow> rt\<lparr>usage_epoch := e\<rparr>
      | None \<Rightarrow> rt\<lparr>usage_disabled := True\<rparr>)"

definition clear_usage_cache :: "'v ProviderUsageRuntime \<Rightarrow> 'v ProviderUsageRuntime" where
  "clear_usage_cache rt = rt\<lparr>usage_cache := []\<rparr>"

definition usage_invalidate :: "'v ProviderUsageRuntime \<Rightarrow> 'v ProviderUsageRuntime" where
  "usage_invalidate rt = (clear_usage_cache (advance_epoch rt))\<lparr>antigravity_quota_breakers := []\<rparr>"

text \<open>\<open>insert\<close>: the check of the epoch, repeated under the lock of the cache, and the write under that lock.\<close>

definition epoch_current :: "nat \<Rightarrow> 'v ProviderUsageRuntime \<Rightarrow> bool" where
  "epoch_current e rt = (\<not> usage_disabled rt \<and> usage_epoch rt = e)"

definition write_usage ::
  "string \<Rightarrow> 'v ProviderUsageCacheEntry \<Rightarrow> instant \<Rightarrow> 'v ProviderUsageRuntime \<Rightarrow> 'v ProviderUsageRuntime" where
  "write_usage credential_id entry now rt =
     (let rt1 = prune_usage_cache now rt in
      rt1\<lparr>usage_cache := hm_insert credential_id entry
            (evict_oldest last_attempt_at MAX_PROVIDER_USAGE_CACHE_ENTRIES credential_id (usage_cache rt1))\<rparr>)"

definition usage_insert ::
  "string \<Rightarrow> 'v ProviderUsageCacheEntry \<Rightarrow> nat option \<Rightarrow> instant \<Rightarrow> 'v ProviderUsageRuntime
     \<Rightarrow> 'v ProviderUsageRuntime" where
  "usage_insert credential_id entry epoch now rt =
     (case epoch of
        None \<Rightarrow> rt
      | Some e \<Rightarrow> if \<not> epoch_current e rt then rt else write_usage credential_id entry now rt)"

subsection \<open>The quota breakers\<close>

definition antigravity_quota_key :: "string \<Rightarrow> string \<Rightarrow> string \<Rightarrow> string" where
  "antigravity_quota_key provider_id credential_id model =
     provider_id @ [CHR 0x00] @ credential_id @ [CHR 0x00] @ model"

definition clear_antigravity_quota_provider :: "string \<Rightarrow> 'v ProviderUsageRuntime \<Rightarrow> 'v ProviderUsageRuntime" where
  "clear_antigravity_quota_provider provider_id rt =
     rt\<lparr>antigravity_quota_breakers :=
          hm_retain (\<lambda>key _. \<not> starts_with (provider_id @ [CHR 0x00]) key) (antigravity_quota_breakers rt)\<rparr>"

definition blocked_at :: "instant \<Rightarrow> AntigravityQuotaBreakerEntry \<Rightarrow> bool" where
  "blocked_at now e = (case blocked_until e of Some until \<Rightarrow> now < until | None \<Rightarrow> False)"

definition prune_breakers :: "instant \<Rightarrow> 'v ProviderUsageRuntime \<Rightarrow> 'v ProviderUsageRuntime" where
  "prune_breakers now rt =
     rt\<lparr>antigravity_quota_breakers := hm_retain
          (\<lambda>_ e. blocked_at now e \<or>
             saturating_duration_since now (window_started e) \<le> ANTIGRAVITY_QUOTA_STRIKE_WINDOW)
          (antigravity_quota_breakers rt)\<rparr>"

definition antigravity_quota_is_blocked ::
  "string \<Rightarrow> string \<Rightarrow> string \<Rightarrow> instant \<Rightarrow> 'v ProviderUsageRuntime \<Rightarrow> bool \<times> 'v ProviderUsageRuntime" where
  "antigravity_quota_is_blocked provider_id credential_id model now rt =
     (let key = antigravity_quota_key provider_id credential_id model;
          rt1 = prune_breakers now rt
      in case hm_get (antigravity_quota_breakers rt1) key of
           Some e \<Rightarrow>
             (blocked_at now e,
              rt1\<lparr>antigravity_quota_breakers := hm_insert key (e\<lparr>quota_last_seen := now\<rparr>) (antigravity_quota_breakers rt1)\<rparr>)
         | None \<Rightarrow> (False, rt1))"

text \<open>The entry a rejection leaves; \<open>None\<close> is the panic of \<open>now + duration\<close> on overflow.\<close>

definition strike :: "instant \<Rightarrow> duration option \<Rightarrow> AntigravityQuotaBreakerEntry \<Rightarrow> AntigravityQuotaBreakerEntry option" where
  "strike now retry_after e0 =
     (let e1 = (if ANTIGRAVITY_QUOTA_STRIKE_WINDOW < saturating_duration_since now (window_started e0)
                then e0\<lparr>window_started := now, strikes := 0\<rparr> else e0);
          e2 = e1\<lparr>quota_last_seen := now, strikes := min (sat_add 255 (strikes e1) 1) 3\<rparr>;
          capped = (case retry_after of
              Some d \<Rightarrow> (let c = min d MAX_ANTIGRAVITY_RETRY_AFTER in if c = 0 then None else Some c)
            | None \<Rightarrow> None);
          block_for = option_or capped (if 3 \<le> strikes e2 then Some ANTIGRAVITY_QUOTA_BLOCK else None)
      in case block_for of
           Some d \<Rightarrow> map_option (\<lambda>u. e2\<lparr>blocked_until := Some u\<rparr>) (instant_add now d)
         | None \<Rightarrow> Some e2)"

definition record_antigravity_quota_rejection ::
  "string \<Rightarrow> string \<Rightarrow> string \<Rightarrow> duration option \<Rightarrow> instant \<Rightarrow> 'v ProviderUsageRuntime
     \<Rightarrow> 'v ProviderUsageRuntime option" where
  "record_antigravity_quota_rejection provider_id credential_id model retry_after now rt =
     (let key = antigravity_quota_key provider_id credential_id model;
          rt1 = prune_breakers now rt;
          breakers = evict_oldest quota_last_seen MAX_ANTIGRAVITY_QUOTA_BREAKERS key (antigravity_quota_breakers rt1);
          e = (case hm_get breakers key of
                 Some e \<Rightarrow> e
               | None \<Rightarrow> \<lparr>window_started = now, quota_last_seen = now, strikes = 0, blocked_until = None\<rparr>)
      in map_option (\<lambda>e'. rt1\<lparr>antigravity_quota_breakers := hm_insert key e' breakers\<rparr>) (strike now retry_after e))"

definition clear_antigravity_quota_breaker ::
  "string \<Rightarrow> string \<Rightarrow> string \<Rightarrow> 'v ProviderUsageRuntime \<Rightarrow> 'v ProviderUsageRuntime" where
  "clear_antigravity_quota_breaker provider_id credential_id model rt =
     rt\<lparr>antigravity_quota_breakers :=
          hm_remove (antigravity_quota_key provider_id credential_id model) (antigravity_quota_breakers rt)\<rparr>"

subsection \<open>The session cache\<close>

definition MAX_FREEBUFF_SESSION_CACHE_ENTRIES :: nat where "MAX_FREEBUFF_SESSION_CACHE_ENTRIES = 256"
definition FREEBUFF_SESSION_CACHE_MAX_AGE :: duration where "FREEBUFF_SESSION_CACHE_MAX_AGE = from_secs (50 * 60)"

record FreebuffSessionCacheEntry =
  session_model :: string
  instance_id :: string
  last_used_at :: instant

type_synonym session_cache = "(nat list, FreebuffSessionCacheEntry) hmap"

definition prune_sessions :: "instant \<Rightarrow> session_cache \<Rightarrow> session_cache" where
  "prune_sessions now c =
     hm_retain (\<lambda>_ e. saturating_duration_since now (last_used_at e) < FREEBUFF_SESSION_CACHE_MAX_AGE) c"

definition freebuff_cached ::
  "nat list \<Rightarrow> instant \<Rightarrow> session_cache \<Rightarrow> FreebuffSessionCacheEntry option \<times> session_cache" where
  "freebuff_cached key now c0 =
     (let c = prune_sessions now c0 in
      case hm_get c key of
        None \<Rightarrow> (None, c)
      | Some e \<Rightarrow> (let e' = e\<lparr>last_used_at := now\<rparr> in (Some e', hm_insert key e' c)))"

definition freebuff_insert :: "nat list \<Rightarrow> FreebuffSessionCacheEntry \<Rightarrow> instant \<Rightarrow> session_cache \<Rightarrow> session_cache" where
  "freebuff_insert key entry now c0 =
     (let c = prune_sessions now c0 in
      hm_insert key (entry\<lparr>last_used_at := now\<rparr>) (evict_oldest last_used_at MAX_FREEBUFF_SESSION_CACHE_ENTRIES key c))"

definition freebuff_invalidate :: "nat list \<Rightarrow> session_cache \<Rightarrow> session_cache" where
  "freebuff_invalidate key c = hm_remove key c"

definition freebuff_clear :: "session_cache \<Rightarrow> session_cache" where
  "freebuff_clear c = []"


section \<open>Bounds\<close>

lemma evict_oldest_bound:
  assumes "hm_ok m" "hm_len m \<le> capacity" "0 < capacity"
  shows "hm_len (hm_insert key v (evict_oldest age capacity key m)) \<le> capacity"
proof (cases "\<not> hm_contains_key m key \<and> capacity \<le> hm_len m")
  case False
  then show ?thesis
    using assms(2) hm.guarded_insert_bound [of m capacity key v] by (auto simp: evict_oldest_def hm_contains_key_def)
next
  case True
  then have "m \<noteq> []" using assms(3) by auto
  then obtain x where x: "min_by_key (\<lambda>(_, v). age v) m = Some x"
    using min_by_key_None [of "\<lambda>(_, v). age v" m] by (metis option.exhaust)
  then have "x \<in> set m" using min_by_key_Some [OF x] by blast
  then have "hm_get m (fst x) \<noteq> None" using hm_get_in_set [OF assms(1), of "fst x" "snd x"] by simp
  from hm.evict_insert_bound [OF assms(2) this] True x show ?thesis
    by (simp add: evict_oldest_def case_prod_unfold)
qed

lemma evict_oldest_ok: "hm_ok m \<Longrightarrow> hm_ok (evict_oldest age capacity key m)"
  by (auto simp: evict_oldest_def hm.ok_remove split: option.splits)

lemma evict_oldest_get: "hm_get (evict_oldest age capacity key m) k = Some v \<Longrightarrow> hm_get m k = Some v"
  by (auto simp: evict_oldest_def hm.get_remove split: option.splits if_splits)

lemma evict_oldest_self: "hm_get (evict_oldest age capacity key m) key = hm_get m key"
proof (cases "\<not> hm_contains_key m key \<and> capacity \<le> hm_len m")
  case True
  then show ?thesis
    by (auto simp: evict_oldest_def hm.get_remove hm_contains_key_def split: option.splits)
qed (auto simp: evict_oldest_def)

section \<open>Refreshes and invalidations interleaved\<close>

text \<open>
  A refresh reads the epoch, fetches, and then writes under the lock of the cache; an invalidation advances
  the epoch and later clears the cache under that lock. \<open>pending\<close> counts the invalidations that have advanced
  the epoch and not yet cleared, \<open>writing\<close> is the refresh that holds the lock and has passed the check, and
  \<open>tags\<close> remembers under which epoch each cached entry was fetched.
\<close>

record 'v usage_run =
  ur :: "'v ProviderUsageRuntime"
  pending :: nat
  writing :: "(string \<times> 'v ProviderUsageCacheEntry \<times> nat \<times> instant) option"
  tags :: "string \<Rightarrow> nat"

datatype 'v usage_event =
    AdvanceEpoch
  | ClearCache
  | BeginWrite string "'v ProviderUsageCacheEntry" nat instant
  | EndWrite
  | ReadCache string instant

fun usage_step :: "'v usage_run \<Rightarrow> 'v usage_event \<Rightarrow> 'v usage_run" where
  "usage_step r AdvanceEpoch = r\<lparr>ur := advance_epoch (ur r), pending := pending r + 1\<rparr>"
| "usage_step r ClearCache =
     (if writing r = None \<and> 0 < pending r then r\<lparr>ur := clear_usage_cache (ur r), pending := pending r - 1\<rparr> else r)"
| "usage_step r (BeginWrite c e ep now) =
     (if writing r = None \<and> epoch_current ep (ur r) then r\<lparr>writing := Some (c, e, ep, now)\<rparr> else r)"
| "usage_step r EndWrite =
     (case writing r of
        None \<Rightarrow> r
      | Some (c, e, ep, now) \<Rightarrow> r\<lparr>ur := write_usage c e now (ur r), tags := (tags r)(c := ep), writing := None\<rparr>)"
| "usage_step r (ReadCache c now) =
     (if writing r = None then r\<lparr>ur := snd (usage_cached c now (ur r))\<rparr> else r)"

text \<open>An insertion that is not interleaved is its two events in a row.\<close>

lemma usage_insert_events:
  "writing r = None \<Longrightarrow>
     ur (usage_step (usage_step r (BeginWrite c e ep now)) EndWrite) = usage_insert c e (Some ep) now (ur r)"
  by (simp add: usage_insert_def)

definition usage_start :: "'v usage_run" where
  "usage_start = \<lparr>ur = ProviderUsageRuntime_new, pending = 0, writing = None, tags = (\<lambda>_. 0)\<rparr>"

definition usage_inv :: "'v usage_run \<Rightarrow> bool" where
  "usage_inv r \<longleftrightarrow> hm_ok (usage_cache (ur r)) \<and> hm_len (usage_cache (ur r)) \<le> MAX_PROVIDER_USAGE_CACHE_ENTRIES \<and>
     (pending r = 0 \<longrightarrow>
        (\<forall>c e. hm_get (usage_cache (ur r)) c = Some e \<longrightarrow> epoch_current (tags r c) (ur r)) \<and>
        (\<forall>c e ep now. writing r = Some (c, e, ep, now) \<longrightarrow> epoch_current ep (ur r)))"

lemma epoch_current_cache [simp]:
  "epoch_current ep (rt\<lparr>usage_cache := c\<rparr>) = epoch_current ep rt"
  by (simp add: epoch_current_def)

lemma write_usage_cases:
  assumes "hm_ok (usage_cache rt)" "hm_get (usage_cache (write_usage c e now rt)) k = Some v"
  shows "k = c \<or> hm_get (usage_cache rt) k = Some v"
  using assms by (auto simp: write_usage_def prune_usage_cache_def Let_def hm.get_insert hm.get_retain
      dest!: evict_oldest_get split: if_splits option.splits)

lemma write_usage_epoch [simp]: "epoch_current ep (write_usage c e now rt) = epoch_current ep rt"
  by (simp add: write_usage_def prune_usage_cache_def Let_def)

lemma write_usage_bounds:
  assumes "hm_ok (usage_cache rt)" "hm_len (usage_cache rt) \<le> MAX_PROVIDER_USAGE_CACHE_ENTRIES"
  shows "hm_ok (usage_cache (write_usage c e now rt))"
    "hm_len (usage_cache (write_usage c e now rt)) \<le> MAX_PROVIDER_USAGE_CACHE_ENTRIES"
  using assms
  by (auto simp: write_usage_def prune_usage_cache_def Let_def MAX_PROVIDER_USAGE_CACHE_ENTRIES_def
      intro!: evict_oldest_bound evict_oldest_ok hm.ok_retain hm.ok_insert hm.retain_bound)

interpretation usage: machine usage_step "\<lambda>_. True" usage_inv
proof
  fix r :: "'v usage_run" and e
  assume inv: "usage_inv r"
  then have ok: "hm_ok (usage_cache (ur r))" "hm_len (usage_cache (ur r)) \<le> MAX_PROVIDER_USAGE_CACHE_ENTRIES"
    by (auto simp: usage_inv_def)
  show "usage_inv (usage_step r e)"
  proof (cases e)
    case AdvanceEpoch
    with ok show ?thesis by (simp add: usage_inv_def advance_epoch_def split: option.splits)
  next
    case ClearCache
    with inv show ?thesis by (simp add: usage_inv_def clear_usage_cache_def hm_ok_Nil)
  next
    case (BeginWrite c v ep now)
    with inv show ?thesis by (auto simp: usage_inv_def)
  next
    case EndWrite
    show ?thesis
    proof (cases "writing r")
      case (Some w)
      obtain c v ep now where w: "w = (c, v, ep, now)" by (cases w)
      have "epoch_current (((tags r)(c := ep)) k) (ur r)"
        if "pending r = 0" "hm_get (usage_cache (write_usage c v now (ur r))) k = Some x" for k x
        using inv that Some w write_usage_cases [OF ok(1) that(2)] by (auto simp: usage_inv_def)
      with EndWrite Some w write_usage_bounds [OF ok] show ?thesis by (simp add: usage_inv_def)
    qed (use EndWrite inv in simp)
  next
    case (ReadCache c now)
    have "hm_get (usage_cache (ur r)) k = Some x" if "hm_get (usage_cache (prune_usage_cache now (ur r))) k = Some x" for k x
      using that ok by (auto simp: prune_usage_cache_def hm.get_retain split: option.splits if_splits)
    moreover have "hm_ok (usage_cache (prune_usage_cache now (ur r)))"
      "hm_len (usage_cache (prune_usage_cache now (ur r))) \<le> MAX_PROVIDER_USAGE_CACHE_ENTRIES"
      using ok by (auto simp: prune_usage_cache_def intro: hm.ok_retain hm.retain_bound)
    moreover have "epoch_current ep (prune_usage_cache now (ur r)) = epoch_current ep (ur r)" for ep
      by (simp add: prune_usage_cache_def)
    ultimately show ?thesis using inv ReadCache by (auto simp: usage_inv_def usage_cached_def Let_def)
  qed
qed

text \<open>C36: However refreshes and invalidations interleave, once no invalidation is half done every cached usage entry
  was fetched under the current epoch with caching enabled: a refresh that started before an invalidation never
  puts its result back. The cache holds at most 512 entries throughout.\<close>

theorem stale_usage_never_cached:
  assumes "pending (run usage_step usage_start events) = 0"
    and "hm_get (usage_cache (ur (run usage_step usage_start events))) credential = Some entry"
  shows "\<not> usage_disabled (ur (run usage_step usage_start events)) \<and>
    tags (run usage_step usage_start events) credential = usage_epoch (ur (run usage_step usage_start events)) \<and>
    hm_len (usage_cache (ur (run usage_step usage_start events))) \<le> 512"
proof -
  have "usage_inv usage_start"
    by (simp add: usage_inv_def usage_start_def ProviderUsageRuntime_new_def hm_ok_Nil)
  then have "usage_inv (run usage_step usage_start events)" by (rule usage.run_inv) (simp add: list_all_iff)
  with assms show ?thesis
    by (auto simp: usage_inv_def epoch_current_def MAX_PROVIDER_USAGE_CACHE_ENTRIES_def)
qed

definition sample_usage :: "nat ProviderUsageCacheEntry" where
  "sample_usage = \<lparr>usage_snapshot = Some 7, fetched_at_ms = None, fetched_at = None, last_attempt_at = 3, last_error = None\<rparr>"

text \<open>A refresh under epoch 1 loses against an invalidation; one under epoch 2 is cached.\<close>

definition sample_usage_events :: "nat usage_event list" where
  "sample_usage_events = [BeginWrite ''a'' sample_usage 1 4, AdvanceEpoch, EndWrite, ClearCache,
     BeginWrite ''a'' sample_usage 1 5, EndWrite, BeginWrite ''b'' sample_usage 2 6, EndWrite]"

theorem stale_usage_never_cached_witness:
  "\<not> usage_disabled (ur (run usage_step usage_start sample_usage_events)) \<and>
   tags (run usage_step usage_start sample_usage_events) ''b'' = 2 \<and>
   hm_get (usage_cache (ur (run usage_step usage_start sample_usage_events))) ''a'' = None"
proof -
  have r: "pending (run usage_step usage_start sample_usage_events) = 0"
    "hm_get (usage_cache (ur (run usage_step usage_start sample_usage_events))) ''b'' = Some sample_usage"
    "hm_get (usage_cache (ur (run usage_step usage_start sample_usage_events))) ''a'' = None"
    "usage_epoch (ur (run usage_step usage_start sample_usage_events)) = 2"
    by (simp_all add: sample_usage_events_def usage_start_def ProviderUsageRuntime_new_def advance_epoch_def
        clear_usage_cache_def epoch_current_def write_usage_def prune_usage_cache_def evict_oldest_def Let_def
        MAX_PROVIDER_USAGE_CACHE_ENTRIES_def hm_retain_def hm_insert_def hm_get_def checked_add_def)
  from stale_usage_never_cached [OF r(1,2)] r show ?thesis by simp
qed


section \<open>The quota breakers\<close>

abbreviation quota_entry :: "'v ProviderUsageRuntime \<Rightarrow> string \<Rightarrow> AntigravityQuotaBreakerEntry option" where
  "quota_entry rt key \<equiv> hm_get (antigravity_quota_breakers rt) key"

lemma is_blocked_eq:
  assumes "hm_ok (antigravity_quota_breakers rt)"
  shows "fst (antigravity_quota_is_blocked p c m now rt) =
    (case quota_entry rt (antigravity_quota_key p c m) of Some e \<Rightarrow> blocked_at now e | None \<Rightarrow> False)"
  using assms
  by (auto simp: antigravity_quota_is_blocked_def prune_breakers_def Let_def hm.get_retain split: option.splits)

text \<open>What a rejection does to the entry of its key: an entry that is neither blocked nor recent counts as new.\<close>

definition live_entry :: "instant \<Rightarrow> AntigravityQuotaBreakerEntry option \<Rightarrow> AntigravityQuotaBreakerEntry" where
  "live_entry now found =
     (case found of
        Some e \<Rightarrow>
          if blocked_at now e \<or> saturating_duration_since now (window_started e) \<le> ANTIGRAVITY_QUOTA_STRIKE_WINDOW then e
          else \<lparr>window_started = now, quota_last_seen = now, strikes = 0, blocked_until = None\<rparr>
      | None \<Rightarrow> \<lparr>window_started = now, quota_last_seen = now, strikes = 0, blocked_until = None\<rparr>)"

lemma record_rejection_eq:
  assumes ok: "hm_ok (antigravity_quota_breakers rt)"
    and e: "strike now retry_after (live_entry now (quota_entry rt (antigravity_quota_key p c m))) = Some e'"
  obtains rt' where "record_antigravity_quota_rejection p c m retry_after now rt = Some rt'"
    "quota_entry rt' (antigravity_quota_key p c m) = Some e'" "hm_ok (antigravity_quota_breakers rt')"
    "hm_len (antigravity_quota_breakers rt) \<le> 512 \<Longrightarrow> hm_len (antigravity_quota_breakers rt') \<le> 512"
proof -
  let ?key = "antigravity_quota_key p c m" and ?m = "antigravity_quota_breakers (prune_breakers now rt)"
  let ?b = "evict_oldest quota_last_seen MAX_ANTIGRAVITY_QUOTA_BREAKERS ?key ?m"
  let ?rt = "(prune_breakers now rt)\<lparr>antigravity_quota_breakers := hm_insert ?key e' ?b\<rparr>"
  have okm: "hm_ok ?m" using ok by (simp add: prune_breakers_def hm.ok_retain)
  have "hm_get ?b ?key = hm_get ?m ?key" by (rule evict_oldest_self)
  then have "(case hm_get ?b ?key of Some e \<Rightarrow> e
      | None \<Rightarrow> \<lparr>window_started = now, quota_last_seen = now, strikes = 0, blocked_until = None\<rparr>) =
      live_entry now (quota_entry rt ?key)"
    using ok by (auto simp: live_entry_def prune_breakers_def hm.get_retain split: option.splits)
  with e have "record_antigravity_quota_rejection p c m retry_after now rt = Some ?rt"
    by (simp add: record_antigravity_quota_rejection_def Let_def)
  moreover have "hm_ok (antigravity_quota_breakers ?rt)" using okm by (simp add: evict_oldest_ok hm.ok_insert)
  moreover have "hm_len (antigravity_quota_breakers ?rt) \<le> 512" if "hm_len (antigravity_quota_breakers rt) \<le> 512"
    using that evict_oldest_bound [OF okm, of 512 ?key e' quota_last_seen]
    by (simp add: MAX_ANTIGRAVITY_QUOTA_BREAKERS_def prune_breakers_def hm.retain_bound)
  ultimately show ?thesis using that by (simp add: hm.get_insert)
qed

text \<open>Three rejections of the same account and model within a minute, none with a retry delay, block it for
  fifteen minutes after the third one and not before; a fourth rejection with a retry delay blocks it for that
  delay, but at most a day. The breakers stay bounded.\<close>

lemma three_strikes_block:
  assumes "hm_ok (antigravity_quota_breakers rt)" "hm_len (antigravity_quota_breakers rt) \<le> 512"
    and "quota_entry rt (antigravity_quota_key p c m) = None"
    and "t1 \<le> t2" "t2 \<le> t3" "t3 \<le> t1 + from_secs 60" "t3 \<le> t4" "t4 \<le> t1 + from_secs 60" "0 < d"
    and "t4 + from_secs (24 * 60 * 60) \<le> instant_max"
  shows "\<exists>rt1 rt2 rt3 rt4.
    record_antigravity_quota_rejection p c m None t1 rt = Some rt1 \<and>
    record_antigravity_quota_rejection p c m None t2 rt1 = Some rt2 \<and>
    record_antigravity_quota_rejection p c m None t3 rt2 = Some rt3 \<and>
    record_antigravity_quota_rejection p c m (Some d) t4 rt3 = Some rt4 \<and>
    (\<forall>t. \<not> fst (antigravity_quota_is_blocked p c m t rt1) \<and> \<not> fst (antigravity_quota_is_blocked p c m t rt2) \<and>
         fst (antigravity_quota_is_blocked p c m t rt3) = (t < t3 + from_secs (15 * 60)) \<and>
         fst (antigravity_quota_is_blocked p c m t rt4) = (t < t4 + min d (from_secs (24 * 60 * 60)))) \<and>
    hm_len (antigravity_quota_breakers rt4) \<le> 512"
proof -
  let ?k = "antigravity_quota_key p c m"
  let ?e = "\<lambda>n t u. \<lparr>window_started = t1, quota_last_seen = t, strikes = n, blocked_until = u\<rparr>"
  let ?u = "t3 + from_secs (15 * 60)" and ?v = "t4 + min d (from_secs (24 * 60 * 60))"
  note defs = live_entry_def strike_def Let_def sat_add_def option_or_def ANTIGRAVITY_QUOTA_STRIKE_WINDOW_def
    ANTIGRAVITY_QUOTA_BLOCK_def MAX_ANTIGRAVITY_RETRY_AFTER_def saturating_duration_since_def
  have small: "t3 + from_secs (15 * 60) \<le> instant_max" "?v \<le> instant_max"
    using assms(7,10) by (simp_all add: from_secs_def)
  have w: "t1 - t1 \<le> from_secs 60" "t2 - t1 \<le> from_secs 60" "t3 - t1 \<le> from_secs 60" "t4 - t1 \<le> from_secs 60"
    using assms(4-8) by simp_all
  have pos: "0 < from_secs (24 * 60 * 60)" by (simp add: from_secs_def)
  have "strike t1 None (live_entry t1 (quota_entry rt ?k)) = Some (?e 1 t1 None)" using assms(3) by (simp add: defs)
  then obtain rt1 where 1: "record_antigravity_quota_rejection p c m None t1 rt = Some rt1"
    "quota_entry rt1 ?k = Some (?e 1 t1 None)" "hm_ok (antigravity_quota_breakers rt1)"
    "hm_len (antigravity_quota_breakers rt1) \<le> 512"
    using record_rejection_eq [OF assms(1)] assms(2) by metis
  have "strike t2 None (live_entry t2 (quota_entry rt1 ?k)) = Some (?e 2 t2 None)" using 1(2) w(2) by (simp add: defs)
  then obtain rt2 where 2: "record_antigravity_quota_rejection p c m None t2 rt1 = Some rt2"
    "quota_entry rt2 ?k = Some (?e 2 t2 None)" "hm_ok (antigravity_quota_breakers rt2)"
    "hm_len (antigravity_quota_breakers rt2) \<le> 512"
    using record_rejection_eq [OF 1(3)] 1(4) by metis
  have "instant_add t3 (from_secs (15 * 60)) = Some ?u" using small by simp
  then have "strike t3 None (live_entry t3 (quota_entry rt2 ?k)) = Some (?e 3 t3 (Some ?u))" using 2(2) w(3) by (simp add: defs)
  then obtain rt3 where 3: "record_antigravity_quota_rejection p c m None t3 rt2 = Some rt3"
    "quota_entry rt3 ?k = Some (?e 3 t3 (Some ?u))" "hm_ok (antigravity_quota_breakers rt3)"
    "hm_len (antigravity_quota_breakers rt3) \<le> 512"
    using record_rejection_eq [OF 2(3)] 2(4) by metis
  have "instant_add t4 (min d (from_secs (24 * 60 * 60))) = Some ?v" using small by simp
  then have "strike t4 (Some d) (live_entry t4 (quota_entry rt3 ?k)) = Some (?e 3 t4 (Some ?v))"
    using 3(2) w(4) assms(9) pos by (simp add: defs min_def)
  then obtain rt4 where 4: "record_antigravity_quota_rejection p c m (Some d) t4 rt3 = Some rt4"
    "quota_entry rt4 ?k = Some (?e 3 t4 (Some ?v))" "hm_ok (antigravity_quota_breakers rt4)"
    "hm_len (antigravity_quota_breakers rt4) \<le> 512"
    using record_rejection_eq [OF 3(3)] 3(4) by metis
  show ?thesis
    using 1 2 3 4 by (intro exI [of _ rt1] exI [of _ rt2] exI [of _ rt3] exI [of _ rt4])
      (simp add: is_blocked_eq blocked_at_def)
qed

section \<open>Mutual exclusion by the lock registries\<close>

text \<open>
  The handles in use, each with its credential and mutex. A handle is taken by a lookup and dropped at any
  time, also between the two readings of the reference counts. \<open>fallback\<close> is the address 0.
\<close>

record 'k lock_run =
  registry :: "'k lock_registry"
  handles :: "('k \<times> address) list"
  next_address :: address

definition strong_count :: "('k \<times> address) list \<Rightarrow> address \<Rightarrow> nat" where
  "strong_count hs a = length (filter (\<lambda>(_, b). b = a) hs)"

datatype 'k lock_event = TakeLock 'k "nat set" | DropHandles "nat set"

definition lock_step :: "nat \<Rightarrow> 'k lock_run \<Rightarrow> 'k lock_event \<Rightarrow> 'k lock_run" where
  "lock_step capacity r e =
     (case e of
        DropHandles ds \<Rightarrow> r\<lparr>handles := nths (handles r) (- ds)\<rparr>
      | TakeLock key ds \<Rightarrow>
          (let hs = nths (handles r) (- ds);
               (a, locks) = weak_lock capacity 0 (strong_count (handles r)) (strong_count hs) (next_address r) key (registry r)
           in \<lparr>registry = locks, handles = (key, a) # hs, next_address = next_address r + 1\<rparr>))"

definition lock_start :: "'k lock_run" where
  "lock_start = \<lparr>registry = [], handles = [], next_address = 1\<rparr>"

text \<open>Every handle that is not the fallback is the registered mutex of its credential.\<close>

definition lock_inv :: "'k lock_run \<Rightarrow> bool" where
  "lock_inv r \<longleftrightarrow> hm_ok (registry r) \<and> 0 < next_address r \<and>
     (\<forall>(k, a) \<in> set (handles r). a \<noteq> 0 \<longrightarrow> hm_get (registry r) k = Some a) \<and>
     (\<forall>k a. hm_get (registry r) k = Some a \<longrightarrow> 0 < a \<and> a < next_address r) \<and>
     (\<forall>k k' a. hm_get (registry r) k = Some a \<longrightarrow> hm_get (registry r) k' = Some a \<longrightarrow> k = k')"

lemma strong_count_pos: "0 < strong_count hs a \<longleftrightarrow> (\<exists>k. (k, a) \<in> set hs)"
  by (auto simp: strong_count_def filter_empty_conv)

lemma lock_invI:
  assumes "hm_ok R" "0 < n" "\<And>k a. (k, a) \<in> set hs \<Longrightarrow> a \<noteq> 0 \<Longrightarrow> hm_get R k = Some a"
    "\<And>k a. hm_get R k = Some a \<Longrightarrow> 0 < a \<and> a < n"
    "\<And>k k' a. hm_get R k = Some a \<Longrightarrow> hm_get R k' = Some a \<Longrightarrow> k = k'"
  shows "lock_inv \<lparr>registry = R, handles = hs, next_address = n\<rparr>"
  unfolding lock_inv_def using assms by simp blast

lemma take_lock_inv:
  assumes inv: "lock_inv r"
  shows "lock_inv (lock_step capacity r (TakeLock key ds))"
proof -
  let ?hs = "nths (handles r) (- ds)" and ?locks = "hm_retain (\<lambda>_ a. 0 < strong_count (handles r) a) (registry r)"
  have ok: "hm_ok ?locks" using inv by (simp add: lock_inv_def hm.ok_retain)
  have sub: "hm_get (registry r) k = Some a" if "hm_get ?locks k = Some a" for k a
    using inv that hm.retain_subset by (metis lock_inv_def)
  have keep: "hm_get ?locks k = Some a" if "(k, a) \<in> set ?hs" "a \<noteq> 0" for k a
  proof -
    have "(k, a) \<in> set (handles r)" using that(1) set_nths_subset by fast
    moreover from this have "hm_get (registry r) k = Some a" using inv that(2) by (auto simp: lock_inv_def)
    ultimately show ?thesis using inv hm.retain_keeps strong_count_pos by (metis (mono_tags, lifting) lock_inv_def)
  qed
  have bounds: "0 < a \<and> a < next_address r" if "hm_get ?locks k = Some a" for k a
    using sub [OF that] inv by (auto simp: lock_inv_def)
  have inj: "k = k'" if "hm_get ?locks k = Some a" "hm_get ?locks k' = Some a" for k k' a
    using sub [OF that(1)] sub [OF that(2)] inv by (auto simp: lock_inv_def)
  have nx: "0 < next_address r" using inv by (simp add: lock_inv_def)
  have kept: "lock_inv \<lparr>registry = ?locks, handles = hs, next_address = next_address r + 1\<rparr>"
    if "\<And>k a. (k, a) \<in> set hs \<Longrightarrow> a \<noteq> 0 \<Longrightarrow> hm_get ?locks k = Some a" for hs
  proof (rule lock_invI)
    show "0 < x \<and> x < next_address r + 1" if "hm_get ?locks k = Some x" for k x using bounds [OF that] by simp
    show "k = k'" if "hm_get ?locks k = Some x" "hm_get ?locks k' = Some x" for k k' x using that by (rule inj)
  qed (use ok that in simp_all)
  define up where "up = (case hm_get ?locks key of Some a \<Rightarrow> if 0 < strong_count ?hs a then Some a else None | None \<Rightarrow> None)"
  show ?thesis
  proof (cases up)
    case (Some a)
    then have "hm_get ?locks key = Some a" by (auto simp: up_def split: option.splits if_splits)
    note a = this
    have step: "lock_step capacity r (TakeLock key ds) = \<lparr>registry = ?locks, handles = (key, a) # ?hs, next_address = next_address r + 1\<rparr>"
      using Some by (simp add: lock_step_def weak_lock_def up_def)
    show ?thesis
      unfolding step by (rule kept) (use a keep in auto)
  next
    case None
    show ?thesis
    proof (cases "capacity \<le> hm_len ?locks")
      case True
      then have step: "lock_step capacity r (TakeLock key ds) = \<lparr>registry = ?locks, handles = (key, 0) # ?hs, next_address = next_address r + 1\<rparr>"
        using None by (simp add: lock_step_def weak_lock_def up_def)
      show ?thesis
        unfolding step by (rule kept) (use keep in auto)
    next
      case False
      let ?a = "next_address r"
      have step: "lock_step capacity r (TakeLock key ds) =
          \<lparr>registry = hm_insert key ?a ?locks, handles = (key, ?a) # ?hs, next_address = ?a + 1\<rparr>"
        using False None by (simp add: lock_step_def weak_lock_def up_def)
      have gone: "(key, a) \<notin> set ?hs" if "a \<noteq> 0" for a
        using None keep [of key a] that strong_count_pos [of ?hs a] by (auto simp: up_def split: if_splits)
      show ?thesis
        unfolding step
      proof (rule lock_invI)
        show "hm_ok (hm_insert key ?a ?locks)" using ok by (rule hm.ok_insert)
        show "hm_get (hm_insert key ?a ?locks) k = Some x" if "(k, x) \<in> set ((key, ?a) # ?hs)" "x \<noteq> 0" for k x
          using gone [of x] keep [of k x] that by (auto simp: hm.get_insert)
        show "0 < x \<and> x < ?a + 1" if "hm_get (hm_insert key ?a ?locks) k = Some x" for k x
          using that bounds [of k x] nx by (cases "k = key") (auto simp: hm.get_insert)
        show "k = k'" if "hm_get (hm_insert key ?a ?locks) k = Some x" "hm_get (hm_insert key ?a ?locks) k' = Some x" for k k' x
          using that inj [of k x k'] bounds [of k x] bounds [of k' x] by (cases "k = key"; cases "k' = key") (simp_all add: hm.get_insert)
      qed simp
    qed
  qed
qed

interpretation locks: machine "lock_step capacity" "\<lambda>_. True" lock_inv for capacity
proof
  fix r :: "'k lock_run" and e
  assume inv: "lock_inv r"
  show "lock_inv (lock_step capacity r e)"
  proof (cases e)
    case (DropHandles ds)
    have "set (nths (handles r) (- ds)) \<subseteq> set (handles r)" by (rule set_nths_subset)
    with inv show ?thesis using DropHandles by (auto simp: lock_inv_def lock_step_def)
  next
    case (TakeLock key ds)
    then show ?thesis using take_lock_inv [OF inv] by simp
  qed
qed

text \<open>C37: Whatever the order of lookups and drops, two handles in use for the same credential are the same mutex
  unless one of them is the shared fallback, and handles for different credentials never share a mutex of their
  own.\<close>

theorem credential_locks_exclusive:
  assumes "(k, a) \<in> set (handles (run (lock_step capacity) lock_start events))" "a \<noteq> 0"
    and "(k', a') \<in> set (handles (run (lock_step capacity) lock_start events))" "a' \<noteq> 0"
  shows "k = k' \<longleftrightarrow> a = a'"
proof -
  have "lock_inv (lock_start :: 'a lock_run)" by (simp add: lock_inv_def lock_start_def hm_ok_Nil)
  then have "lock_inv (run (lock_step capacity) lock_start events)" by (rule locks.run_inv) (simp add: list_all_iff)
  note inv = this [unfolded lock_inv_def]
  have "hm_get (registry (run (lock_step capacity) lock_start events)) k = Some a"
    "hm_get (registry (run (lock_step capacity) lock_start events)) k' = Some a'"
    using inv assms by fast+
  then show ?thesis using inv by (metis option.inject)
qed

definition sample_locks :: "string lock_run" where
  "sample_locks = run (lock_step 2) lock_start [TakeLock ''a'' {}, TakeLock ''b'' {}, TakeLock ''a'' {}]"

theorem credential_locks_exclusive_witness:
  "(''a'', 1) \<in> set (handles sample_locks) \<and> (''b'', 2) \<in> set (handles sample_locks) \<and>
   (''a'' = ''b'' \<longleftrightarrow> (1 :: nat) = 2)"
proof -
  have h: "(''a'', 1) \<in> set (handles sample_locks)" "(''b'', 2) \<in> set (handles sample_locks)"
    by (simp_all add: sample_locks_def lock_start_def lock_step_def weak_lock_def hm_retain_def hm_get_def
        hm_insert_def strong_count_def nths_def)
  from credential_locks_exclusive [OF h(1) [unfolded sample_locks_def] _ h(2) [unfolded sample_locks_def]] h
  show ?thesis by simp
qed


text \<open>The fallback does not serialise a credential with itself: a credential that took the fallback while the
  registry was full gets a mutex of its own as soon as any other entry is released, so two refreshes of the same
  credential can run at the same time.\<close>

lemma fallback_lock_not_exclusive:
  assumes "hm_ok locks" "hm_len locks = capacity" "\<forall>(k, a) \<in> set locks. 0 < strong a" "hm_get locks key = None"
    and "(k0, a0) \<in> set locks" "strong' a0 = 0" "new \<noteq> fallback"
  shows "fst (weak_lock capacity fallback strong strong new key locks) = fallback \<and>
    fst (weak_lock capacity fallback strong' strong' new key (snd (weak_lock capacity fallback strong strong new key locks))) \<noteq> fallback"
proof -
  have all: "hm_retain (\<lambda>_ a. 0 < strong a) locks = locks"
    using assms(3) by (auto simp: hm_retain_def filter_id_conv)
  then have first: "weak_lock capacity fallback strong strong new key locks = (fallback, locks)"
    using assms(2,4) by (simp add: weak_lock_def)
  let ?l = "hm_retain (\<lambda>_ a. 0 < strong' a) locks"
  have "(k0, a0) \<notin> set ?l" using assms(6) by (simp add: hm_retain_def)
  then have "length ?l < length locks"
    unfolding hm_retain_def using assms(5,6) length_filter_less [of "(k0, a0)" locks "\<lambda>(_, a). 0 < strong' a"] by simp
  moreover have "hm_get ?l key = None" using assms(1,4) by (simp add: hm.get_retain)
  ultimately show ?thesis using first assms(2,7) by (simp add: weak_lock_def)
qed

end
