(* ===== verification/RequestLive.thy ===== *)
theory RequestLive
  imports Interfaces Text
begin

text \<open>
  The registry of requests in flight (\<^verbatim>\<open>src/state/request_live.rs\<close>): a bounded table of rows for the dashboard, a
  count of the requests beyond the bound, the events sent to subscribers, and the guards whose last drop ends a
  request. The broadcast channel is the list of events an operation sends.
\<close>

section \<open>Definitions\<close>

definition MAX_REQUEST_LIVE_ENTRIES :: nat where "MAX_REQUEST_LIVE_ENTRIES = 64"

record RequestLogRecord =
  log_id :: string
  log_request_id :: string
  log_route_alias :: string
  log_provider_id :: "string option"
  log_provider_credential_id :: "string option"
  log_api_key_id :: "string option"
  log_model :: string
  log_client_protocol :: string
  log_upstream_protocol :: "string option"
  log_status :: int
  log_duration_ms :: int
  log_input_tokens :: "int option"
  log_output_tokens :: "int option"
  log_cached_tokens :: "int option"
  log_cache_input_tokens :: "int option"
  log_cost_micro_usd :: "int option"
  log_error :: "string option"

record RequestLiveRow =
  row_log_id :: "string option"
  row_live_id :: string
  row_request_id :: string
  row_route_alias :: string
  row_provider_id :: "string option"
  row_provider_credential_id :: "string option"
  row_api_key_id :: "string option"
  row_model :: string
  row_client_protocol :: string
  row_upstream_protocol :: "string option"
  row_input_tokens :: "int option"
  row_output_tokens :: "int option"
  row_cached_tokens :: "int option"
  row_cache_input_tokens :: "int option"
  row_started_at_ms :: int

record RequestLiveEntry =
  live_id :: string
  request_id :: string
  route_alias :: string
  model :: string
  client_protocol :: string
  api_key_id :: "string option"
  provider_id :: "string option"
  started_at_ms :: int
  latest :: "RequestLogRecord option"

datatype RequestLiveEvent =
    Started RequestLiveRow nat
  | Updated string "string option" "string option" "int option" "int option" "int option" "int option"
  | Finished string "RequestLogRecord option" int nat
  | Capacity bool nat nat

record RequestLiveSnapshot =
  snap_requests :: "RequestLiveRow list"
  snap_truncated :: bool
  snap_limit :: nat
  snap_active_count :: nat

record RequestLiveRegistryState =
  entries :: "(string, RequestLiveEntry) hmap"
  untracked_active :: nat
  truncated :: bool

definition RequestLiveRegistry_new :: RequestLiveRegistryState where
  "RequestLiveRegistry_new = \<lparr>entries = [], untracked_active = 0, truncated = False\<rparr>"

definition bounded_string :: "string \<Rightarrow> nat \<Rightarrow> string" where
  "bounded_string v max_chars = take max_chars v"

text \<open>Milliseconds since the epoch, 0 when the clock is before it.\<close>

definition unix_time_ms :: "nat option \<Rightarrow> int" where
  "unix_time_ms clock =
     (case clock of
        None \<Rightarrow> 0
      | Some millis \<Rightarrow> if 2 ^ 63 - 1 < int millis then 2 ^ 63 - 1 else int millis)"

definition active_request_count :: "RequestLiveRegistryState \<Rightarrow> nat" where
  "active_request_count st = sat_add u64_max (hm_len (entries st)) (untracked_active st)"

definition live_row :: "RequestLiveEntry \<Rightarrow> RequestLiveRow" where
  "live_row e =
     (let l = latest e in
      \<lparr>row_log_id = map_option log_id l,
       row_live_id = live_id e,
       row_request_id = request_id e,
       row_route_alias = route_alias e,
       row_provider_id = option_or (provider_id e) (Option.bind l log_provider_id),
       row_provider_credential_id = Option.bind l log_provider_credential_id,
       row_api_key_id = option_or (api_key_id e) (Option.bind l log_api_key_id),
       row_model = (case l of Some r \<Rightarrow> log_model r | None \<Rightarrow> model e),
       row_client_protocol = (case l of Some r \<Rightarrow> log_client_protocol r | None \<Rightarrow> client_protocol e),
       row_upstream_protocol = Option.bind l log_upstream_protocol,
       row_input_tokens = Option.bind l log_input_tokens,
       row_output_tokens = Option.bind l log_output_tokens,
       row_cached_tokens = Option.bind l log_cached_tokens,
       row_cache_input_tokens = Option.bind l log_cache_input_tokens,
       row_started_at_ms = started_at_ms e\<rparr>)"

definition live_snapshot :: "RequestLiveRegistryState \<Rightarrow> RequestLiveSnapshot" where
  "live_snapshot st =
     \<lparr>snap_requests = map (\<lambda>(_, e). live_row e) (entries st), snap_truncated = truncated st,
      snap_limit = MAX_REQUEST_LIVE_ENTRIES, snap_active_count = active_request_count st\<rparr>"

definition update_capacity_locked ::
  "bool \<Rightarrow> bool \<Rightarrow> RequestLiveRegistryState \<Rightarrow> RequestLiveRegistryState \<times> RequestLiveEvent list" where
  "update_capacity_locked tr force_event st =
     (if truncated st = tr \<and> \<not> force_event then (st, [])
      else
        let st1 = st\<lparr>truncated := tr\<rparr> in
        (st1, [Capacity tr MAX_REQUEST_LIVE_ENTRIES (active_request_count st1)]))"

text \<open>\<open>start\<close>; the fresh UUID and the clock are arguments and the guard holds the returned live id.\<close>

definition live_start ::
  "string \<Rightarrow> nat option \<Rightarrow> string \<Rightarrow> string \<Rightarrow> string \<Rightarrow> string \<Rightarrow> string option
     \<Rightarrow> RequestLiveRegistryState \<Rightarrow> string option \<times> RequestLiveRegistryState \<times> RequestLiveEvent list" where
  "live_start uuid clock req alias mdl protocol key st =
     (if hm_len (entries st) < MAX_REQUEST_LIVE_ENTRIES then
        let e = \<lparr>live_id = uuid, request_id = bounded_string req 128, route_alias = bounded_string alias 256,
                 model = bounded_string mdl 256, client_protocol = bounded_string protocol 64,
                 api_key_id = map_option (\<lambda>v. bounded_string v 128) key, provider_id = None,
                 started_at_ms = unix_time_ms clock, latest = None\<rparr>;
            st1 = st\<lparr>entries := hm_insert uuid e (entries st)\<rparr>
        in (Some uuid, st1,
            case hm_get (entries st1) uuid of
              Some e' \<Rightarrow> [Started (live_row e') (active_request_count st1)]
            | None \<Rightarrow> [])
      else
        let st1 = st\<lparr>untracked_active := sat_add u64_max (untracked_active st) 1\<rparr>;
            (st2, evs) = update_capacity_locked True True st1
        in (None, st2, evs))"

definition update_provider ::
  "string \<Rightarrow> string option \<Rightarrow> RequestLiveRegistryState \<Rightarrow> RequestLiveRegistryState \<times> RequestLiveEvent list" where
  "update_provider lid prov st =
     (case hm_get (entries st) lid of
        None \<Rightarrow> (st, [])
      | Some e \<Rightarrow>
          (let p = map_option (\<lambda>v. bounded_string v 256) prov in
           if provider_id e = p then (st, [])
           else
             (st\<lparr>entries := hm_insert lid (e\<lparr>provider_id := p\<rparr>) (entries st)\<rparr>,
              [Updated lid p (map_option log_id (latest e)) (Option.bind (latest e) log_input_tokens)
                 (Option.bind (latest e) log_output_tokens) (Option.bind (latest e) log_cached_tokens)
                 (Option.bind (latest e) log_cache_input_tokens)])))"

definition update_log ::
  "string \<Rightarrow> RequestLogRecord \<Rightarrow> RequestLiveRegistryState \<Rightarrow> RequestLiveRegistryState \<times> RequestLiveEvent list" where
  "update_log lid r st =
     (case hm_get (entries st) lid of
        None \<Rightarrow> (st, [])
      | Some e \<Rightarrow>
          (st\<lparr>entries := hm_insert lid (e\<lparr>latest := Some r\<rparr>) (entries st)\<rparr>,
           [Updated lid (provider_id e) (Some (log_id r)) (log_input_tokens r) (log_output_tokens r)
              (log_cached_tokens r) (log_cache_input_tokens r)]))"

definition live_finish ::
  "string option \<Rightarrow> nat option \<Rightarrow> RequestLiveRegistryState \<Rightarrow> RequestLiveRegistryState \<times> RequestLiveEvent list" where
  "live_finish lid clock st =
     (case lid of
        Some l \<Rightarrow>
          (case hm_get (entries st) l of
             None \<Rightarrow> (st, [])
           | Some e \<Rightarrow>
               (let st1 = st\<lparr>entries := hm_remove l (entries st)\<rparr>;
                    (st2, evs) = update_capacity_locked (0 < untracked_active st1) False st1
                in (st2, Finished l (latest e) (unix_time_ms clock) (active_request_count st1) # evs)))
      | None \<Rightarrow>
          (if 0 < untracked_active st then
             let st1 = st\<lparr>untracked_active := untracked_active st - 1\<rparr>
             in update_capacity_locked (0 < untracked_active st1) True st1
           else update_capacity_locked False False st))"

section \<open>Guards\<close>

text \<open>
  The guards in use: each refers to the shared inner value of its request, which holds the live id. Dropping a
  guard first compares the reference count with one and then gives up the reference.
\<close>

record live_guards =
  registry :: RequestLiveRegistryState
  guards :: "(nat \<times> nat) list"
  inner_live_id :: "nat \<Rightarrow> string option"
  next_id :: nat

definition guard_strong_count :: "nat \<Rightarrow> live_guards \<Rightarrow> nat" where
  "guard_strong_count i r = length (filter (\<lambda>(_, j). j = i) (guards r))"

definition guard_start ::
  "string \<Rightarrow> nat option \<Rightarrow> string \<Rightarrow> string \<Rightarrow> string \<Rightarrow> string \<Rightarrow> string option \<Rightarrow> live_guards \<Rightarrow> live_guards" where
  "guard_start uuid clock req alias mdl protocol key r =
     (let (lid, st, _) = live_start uuid clock req alias mdl protocol key (registry r) in
      \<lparr>registry = st, guards = (next_id r, next_id r) # guards r,
       inner_live_id = (inner_live_id r)(next_id r := lid), next_id = next_id r + 1\<rparr>)"

definition guard_clone :: "nat \<Rightarrow> live_guards \<Rightarrow> live_guards" where
  "guard_clone g r =
     (case map_of (guards r) g of
        None \<Rightarrow> r
      | Some i \<Rightarrow> r\<lparr>guards := (next_id r, i) # guards r, next_id := next_id r + 1\<rparr>)"

definition guard_update_provider :: "nat \<Rightarrow> string option \<Rightarrow> live_guards \<Rightarrow> live_guards" where
  "guard_update_provider g prov r =
     (case map_of (guards r) g of
        None \<Rightarrow> r
      | Some i \<Rightarrow>
          (case inner_live_id r i of
             None \<Rightarrow> r
           | Some lid \<Rightarrow> r\<lparr>registry := fst (update_provider lid prov (registry r))\<rparr>))"

definition guard_update_log :: "nat \<Rightarrow> RequestLogRecord \<Rightarrow> live_guards \<Rightarrow> live_guards" where
  "guard_update_log g rec r =
     (case map_of (guards r) g of
        None \<Rightarrow> r
      | Some i \<Rightarrow>
          (case inner_live_id r i of
             None \<Rightarrow> r
           | Some lid \<Rightarrow> r\<lparr>registry := fst (update_log lid rec (registry r))\<rparr>))"

definition drop_check :: "nat \<Rightarrow> nat option \<Rightarrow> live_guards \<Rightarrow> live_guards" where
  "drop_check g clock r =
     (case map_of (guards r) g of
        None \<Rightarrow> r
      | Some i \<Rightarrow>
          if guard_strong_count i r = 1
          then r\<lparr>registry := fst (live_finish (inner_live_id r i) clock (registry r))\<rparr> else r)"

definition drop_release :: "nat \<Rightarrow> live_guards \<Rightarrow> live_guards" where
  "drop_release g r = r\<lparr>guards := filter (\<lambda>(h, _). h \<noteq> g) (guards r)\<rparr>"

datatype live_event =
    LiveStart string "nat option" string string string string "string option"
  | LiveClone nat
  | LiveProvider nat "string option"
  | LiveLog nat RequestLogRecord
  | LiveDrop nat "nat option"

text \<open>Drops one after the other; a UUID in use is not generated again.\<close>

fun live_step :: "live_guards \<Rightarrow> live_event \<Rightarrow> live_guards" where
  "live_step r (LiveStart uuid clock req alias mdl protocol key) =
     (if hm_contains_key (entries (registry r)) uuid then r else guard_start uuid clock req alias mdl protocol key r)"
| "live_step r (LiveClone g) = guard_clone g r"
| "live_step r (LiveProvider g p) = guard_update_provider g p r"
| "live_step r (LiveLog g l) = guard_update_log g l r"
| "live_step r (LiveDrop g clock) = drop_release g (drop_check g clock r)"

definition live_guards_new :: live_guards where
  "live_guards_new = \<lparr>registry = RequestLiveRegistry_new, guards = [], inner_live_id = (\<lambda>_. None), next_id = 0\<rparr>"

text \<open>The requests in flight: the inner values that a guard still refers to.\<close>

definition in_flight :: "live_guards \<Rightarrow> nat set" where
  "in_flight r = snd ` set (guards r)"


section \<open>The registry and the requests in flight\<close>

text \<open>The registry mirrors the set \<open>F\<close> of requests in flight with the live ids \<open>L\<close>.\<close>

definition registry_ok :: "RequestLiveRegistryState \<Rightarrow> nat set \<Rightarrow> (nat \<Rightarrow> string option) \<Rightarrow> bool" where
  "registry_ok st F L \<longleftrightarrow> hm_ok (entries st) \<and> hm_len (entries st) \<le> MAX_REQUEST_LIVE_ENTRIES \<and> finite F \<and>
     dom (hm_get (entries st)) = {l. \<exists>i \<in> F. L i = Some l} \<and> inj_on L {i \<in> F. L i \<noteq> None} \<and>
     untracked_active st = card {i \<in> F. L i = None} \<and> truncated st = (0 < untracked_active st)"

lemma update_capacity_eq:
  "fst (update_capacity_locked t f st) = st\<lparr>truncated := t\<rparr>"
  by (simp add: update_capacity_locked_def Let_def)

lemma registry_count:
  assumes "registry_ok st F L"
  shows "hm_len (entries st) + untracked_active st = card F"
proof -
  let ?T = "{i \<in> F. L i \<noteq> None}" and ?U = "{i \<in> F. L i = None}"
  have fin: "finite F" using assms by (simp add: registry_ok_def)
  have "hm_len (entries st) = card {l. \<exists>i \<in> F. L i = Some l}"
    using assms by (simp add: registry_ok_def hm_len_card)
  also have "{l. \<exists>i \<in> F. L i = Some l} = the ` L ` ?T" by force
  also have "card (the ` L ` ?T) = card ?T"
  proof -
    have "inj_on the (L ` ?T)" by (auto intro!: inj_onI)
    moreover have "inj_on L ?T" using assms by (simp add: registry_ok_def)
    ultimately show ?thesis by (simp add: card_image)
  qed
  also have "card ?T + card ?U = card F"
  proof -
    have "card (?T \<union> ?U) = card ?T + card ?U" using fin by (intro card_Un_disjoint) auto
    moreover have "?T \<union> ?U = F" by auto
    ultimately show ?thesis by simp
  qed
  ultimately show ?thesis using assms by (simp add: registry_ok_def)
qed

lemma start_ok:
  assumes ok: "registry_ok st F L" and i: "i \<notin> F" and uuid: "hm_get (entries st) uuid = None"
    and bound: "untracked_active st < u64_max"
    and start: "live_start uuid clock req alias mdl protocol key st = (lid, st', evs)"
  shows "registry_ok st' (insert i F) (L(i := lid))"
proof -
  have fin: "finite F" using ok by (simp add: registry_ok_def)
  have same: "\<And>j. j \<in> F \<Longrightarrow> (L(i := lid)) j = L j" using i by auto
  show ?thesis
  proof (cases "hm_len (entries st) < MAX_REQUEST_LIVE_ENTRIES")
    case True
    then have lid: "lid = Some uuid" and "\<exists>e. entries st' = hm_insert uuid e (entries st)"
      and rest: "untracked_active st' = untracked_active st" "truncated st' = truncated st"
      using start by (auto simp: live_start_def Let_def)
    then obtain e where e: "entries st' = hm_insert uuid e (entries st)" by blast
    have "dom (hm_get (entries st')) = insert uuid (dom (hm_get (entries st)))"
      unfolding e by (auto simp: hm.get_insert split: if_splits)
    moreover have "{l. \<exists>j \<in> insert i F. (L(i := lid)) j = Some l} = insert uuid {l. \<exists>j \<in> F. L j = Some l}"
      using same lid i by auto
    moreover have "{j \<in> insert i F. (L(i := lid)) j = None} = {j \<in> F. L j = None}"
      using same lid i by auto
    moreover have "inj_on (L(i := lid)) {j \<in> insert i F. (L(i := lid)) j \<noteq> None}"
    proof (rule inj_onI)
      fix x y assume x: "x \<in> {j \<in> insert i F. (L(i := lid)) j \<noteq> None}" and y: "y \<in> {j \<in> insert i F. (L(i := lid)) j \<noteq> None}"
        and eq: "(L(i := lid)) x = (L(i := lid)) y"
      have no: "L j \<noteq> Some uuid" if "j \<in> F" for j using ok uuid that by (auto simp: registry_ok_def)
      show "x = y"
      proof (cases "x = i \<or> y = i")
        case True
        then show ?thesis using x y eq no lid by (auto split: if_splits)
      next
        case False
        then have "x \<in> {j \<in> F. L j \<noteq> None}" "y \<in> {j \<in> F. L j \<noteq> None}" "L x = L y" using x y eq by auto
        moreover have "inj_on L {j \<in> F. L j \<noteq> None}" using ok unfolding registry_ok_def by blast
        ultimately show ?thesis by (metis (no_types, lifting) inj_onD)
      qed
    qed
    moreover have "hm_len (entries st') \<le> MAX_REQUEST_LIVE_ENTRIES"
      unfolding e using True by (simp add: hm.len_insert)
    ultimately show ?thesis
      using ok rest fin e by (simp add: registry_ok_def hm.ok_insert)
  next
    case False
    then have st': "lid = None" "st' = st\<lparr>untracked_active := untracked_active st + 1, truncated := True\<rparr>"
      using start bound update_capacity_eq [of True True "st\<lparr>untracked_active := sat_add u64_max (untracked_active st) 1\<rparr>"]
      by (auto simp: live_start_def Let_def sat_add_exact split: prod.splits)
    have "{l. \<exists>j \<in> insert i F. (L(i := lid)) j = Some l} = {l. \<exists>j \<in> F. L j = Some l}"
      using same st'(1) i by auto
    moreover have "{j \<in> insert i F. (L(i := lid)) j \<noteq> None} = {j \<in> F. L j \<noteq> None}" using same st'(1) i by auto
    moreover have "inj_on (L(i := lid)) {j \<in> F. L j \<noteq> None}"
      using ok same by (auto simp: registry_ok_def inj_on_def)
    moreover have "{j \<in> insert i F. (L(i := lid)) j = None} = insert i {j \<in> F. L j = None}" using same st'(1) i by auto
    moreover have "card (insert i {j \<in> F. L j = None}) = card {j \<in> F. L j = None} + 1" using fin i by simp
    ultimately show ?thesis using ok fin st'(2) by (simp add: registry_ok_def)
  qed
qed

lemma update_ok:
  assumes "registry_ok st F L" "hm_get (entries st) l \<noteq> None"
  shows "registry_ok (st\<lparr>entries := hm_insert l e (entries st)\<rparr>) F L"
proof -
  have "dom (hm_get (hm_insert l e (entries st))) = dom (hm_get (entries st))"
    using assms(2) by (auto simp: hm.get_insert split: if_splits)
  moreover obtain e' where "hm_get (entries st) l = Some e'" using assms(2) by blast
  ultimately show ?thesis using assms(1) by (simp add: registry_ok_def hm.ok_insert hm.len_insert)
qed

lemma finish_ok:
  assumes ok: "registry_ok st F L" and i: "i \<in> F"
  shows "registry_ok (fst (live_finish (L i) clock st)) (F - {i}) L"
proof -
  have fin: "finite F" using ok by (simp add: registry_ok_def)
  have inj: "inj_on L {j \<in> F - {i}. L j \<noteq> None}" using ok by (auto simp: registry_ok_def inj_on_def)
  show ?thesis
  proof (cases "L i")
    case None
    have "{j \<in> F. j \<noteq> i \<and> L j = None} = {j \<in> F. L j = None} - {i}" by auto
    then have U: "card {j \<in> F. j \<noteq> i \<and> L j = None} = card {j \<in> F. L j = None} - 1" using None i fin by simp
    have "0 < card {j \<in> F. L j = None}" using None i fin by (auto simp: card_gt_0_iff)
    moreover have "{l. \<exists>j \<in> F - {i}. L j = Some l} = {l. \<exists>j \<in> F. L j = Some l}" using None by auto
    ultimately show ?thesis
      using ok None inj fin by (simp add: registry_ok_def live_finish_def Let_def update_capacity_eq U)
  next
    case (Some l)
    then have "hm_get (entries st) l \<noteq> None" using ok i by (auto simp: registry_ok_def)
    then obtain e where e: "hm_get (entries st) l = Some e" by blast
    have U: "{j \<in> F. j \<noteq> i \<and> L j = None} = {j \<in> F. L j = None}" using Some by auto
    have "inj_on L {j \<in> F. L j \<noteq> None}" using ok unfolding registry_ok_def by blast
    then have only: "j = i" if "j \<in> F" "L j = Some l" for j
      by (rule inj_onD) (use i Some that in simp_all)
    have "{x. \<exists>j \<in> F - {i}. L j = Some x} = {x. \<exists>j \<in> F. L j = Some x} - {l}" using only Some by auto
    moreover have "dom (hm_get (hm_remove l (entries st))) = dom (hm_get (entries st)) - {l}"
      by (auto simp: hm.get_remove split: if_splits)
    moreover have "fst (live_finish (Some l) clock st) =
        st\<lparr>entries := hm_remove l (entries st), truncated := (0 < untracked_active st)\<rparr>"
      using e update_capacity_eq [of "0 < untracked_active st" False "st\<lparr>entries := hm_remove l (entries st)\<rparr>"]
      by (auto simp: live_finish_def Let_def split: prod.splits)
    ultimately show ?thesis
      using ok Some inj fin by (simp add: registry_ok_def U hm.ok_remove hm.remove_bound)
  qed
qed

section \<open>Every request ends once\<close>

definition live_inv :: "live_guards \<Rightarrow> bool" where
  "live_inv r \<longleftrightarrow> registry_ok (registry r) (in_flight r) (inner_live_id r) \<and> distinct (map fst (guards r)) \<and>
     (\<forall>(g, i) \<in> set (guards r). g < next_id r \<and> i < next_id r)"

lemma in_flight_bound: "live_inv r \<Longrightarrow> card (in_flight r) \<le> next_id r"
proof -
  assume "live_inv r"
  then have "in_flight r \<subseteq> {..< next_id r}" by (auto simp: live_inv_def in_flight_def)
  then show ?thesis by (metis card_lessThan card_mono finite_lessThan)
qed

lemma guard_drop_inv:
  assumes inv: "live_inv r"
  shows "live_inv (live_step r (LiveDrop g clock))"
proof (cases "map_of (guards r) g")
  case None
  then have "filter (\<lambda>(h, _). h \<noteq> g) (guards r) = guards r"
    by (auto simp: filter_id_conv map_of_eq_None_iff rev_image_eqI)
  then have "live_step r (LiveDrop g clock) = r" using None by (simp add: drop_check_def drop_release_def)
  with inv show ?thesis by simp
next
  case (Some i)
  have dist: "distinct (map fst (guards r))" using inv by (simp add: live_inv_def)
  have mem: "(g, i) \<in> set (guards r)" using Some by (rule map_of_SomeD)
  let ?gs = "filter (\<lambda>(h, _). h \<noteq> g) (guards r)"
  have set_gs: "set ?gs = set (guards r) - {(g, i)}"
    using map_of_is_SomeI [OF dist] Some by (auto simp: case_prod_unfold)
  have gs: "distinct (map fst ?gs)" "\<forall>(h, j) \<in> set ?gs. h < next_id r \<and> j < next_id r"
    using dist inv by (auto simp: live_inv_def distinct_map_filter)
  show ?thesis
  proof (cases "guard_strong_count i r = 1")
    case True
    have one: "length (filter (\<lambda>(_, j). j = i) (guards r)) = 1" using True by (simp add: guard_strong_count_def)
    then obtain x where "filter (\<lambda>(_, j). j = i) (guards r) = [x]" by (auto simp: length_Suc_conv)
    then have "set (filter (\<lambda>(_, j). j = i) (guards r)) = {x}" by simp
    moreover have "(h, i) \<in> set (filter (\<lambda>(_, j). j = i) (guards r))" if "(h, i) \<in> set (guards r)" for h using that by simp
    ultimately have only: "h = g" if "(h, i) \<in> set (guards r)" for h using mem that by (metis prod.inject singletonD)
    then have fl: "snd ` set ?gs = in_flight r - {i}" unfolding set_gs in_flight_def by force
    have "i \<in> in_flight r" using mem by (force simp: in_flight_def)
    from finish_ok [OF _ this] inv Some True fl gs show ?thesis
      by (simp add: live_inv_def drop_check_def drop_release_def in_flight_def)
  next
    case False
    let ?fl = "filter (\<lambda>(_, j). j = i) (guards r)"
    have "(g, i) \<in> set ?fl" using mem by simp
    then have "?fl \<noteq> []" by (metis empty_iff empty_set)
    with False have len: "1 < length ?fl" by (cases ?fl) (auto simp: guard_strong_count_def)
    have "distinct ?fl" using dist by (simp add: distinct_map)
    then have "card (set ?fl) = length ?fl" by (rule distinct_card)
    moreover have "card (set ?fl) \<le> 1" if "set ?fl \<subseteq> {(g, i)}" using card_mono [OF _ that] by simp
    ultimately have "\<not> set ?fl \<subseteq> {(g, i)}" using len by linarith
    then obtain y where "y \<in> set ?fl" "y \<noteq> (g, i)" by blast
    then have "i \<in> snd ` (set (guards r) - {(g, i)})" by force
    moreover have "set (guards r) = insert (g, i) (set (guards r) - {(g, i)})" using mem by blast
    ultimately have fl: "snd ` set ?gs = in_flight r"
      unfolding set_gs in_flight_def by (metis image_insert insert_absorb snd_conv)
    with inv Some False gs show ?thesis
      by (simp add: live_inv_def drop_check_def drop_release_def in_flight_def)
  qed
qed


lemma start_inv:
  assumes inv: "live_inv r" and bound: "next_id r < u64_max" and uuid: "hm_get (entries (registry r)) uuid = None"
  shows "live_inv (guard_start uuid clock req alias mdl protocol key r)"
proof -
  obtain lid st' evs where start: "live_start uuid clock req alias mdl protocol key (registry r) = (lid, st', evs)"
    by (metis prod_cases3)
  have ok: "registry_ok (registry r) (in_flight r) (inner_live_id r)" using inv by (simp add: live_inv_def)
  have new: "next_id r \<notin> in_flight r" using inv by (auto simp: live_inv_def in_flight_def)
  have "untracked_active (registry r) < u64_max"
    using registry_count [OF ok] in_flight_bound [OF inv] bound by linarith
  from start_ok [OF ok new uuid this start] inv start show ?thesis
    by (auto simp: live_inv_def guard_start_def in_flight_def)
qed

lemma registry_update_inv:
  assumes "live_inv r" and "st = registry r \<or> (\<exists>l e. hm_get (entries (registry r)) l \<noteq> None \<and>
     st = (registry r)\<lparr>entries := hm_insert l e (entries (registry r))\<rparr>)"
  shows "live_inv (r\<lparr>registry := st\<rparr>)"
  using assms update_ok by (auto simp: live_inv_def in_flight_def)

lemma live_step_inv:
  assumes inv: "live_inv r" and bound: "next_id r < u64_max"
  shows "live_inv (live_step r e) \<and> next_id (live_step r e) \<le> next_id r + 1"
proof (cases e)
  case (LiveStart uuid clock req route mdl protocol key)
  then show ?thesis
    using inv start_inv [OF inv bound, of uuid] by (simp add: hm_contains_key_def guard_start_def split: prod.splits)
next
  case (LiveClone g)
  have "live_inv (guard_clone g r)"
  proof (cases "map_of (guards r) g")
    case (Some i)
    then have "(g, i) \<in> set (guards r)" by (rule map_of_SomeD)
    then have "insert i (snd ` set (guards r)) = snd ` set (guards r)" "i < next_id r" using inv by (force simp: live_inv_def)+
    with Some inv show ?thesis by (auto simp: live_inv_def guard_clone_def in_flight_def)
  qed (use inv in \<open>simp add: guard_clone_def\<close>)
  with LiveClone show ?thesis by (simp add: guard_clone_def split: option.splits)
next
  case (LiveProvider g p)
  have "live_inv (guard_update_provider g p r)"
    using inv by (auto simp: guard_update_provider_def update_provider_def Let_def split: option.splits intro!: registry_update_inv)
  with LiveProvider show ?thesis by (simp add: guard_update_provider_def split: option.splits)
next
  case (LiveLog g l)
  have "live_inv (guard_update_log g l r)"
    using inv by (auto simp: guard_update_log_def update_log_def split: option.splits intro!: registry_update_inv)
  with LiveLog show ?thesis by (simp add: guard_update_log_def split: option.splits)
next
  case (LiveDrop g clock)
  then show ?thesis using guard_drop_inv [OF inv, of g clock]
    by (simp add: drop_check_def drop_release_def split: option.splits)
qed

lemma live_run_inv:
  "live_inv r \<Longrightarrow> next_id r + length es \<le> u64_max \<Longrightarrow>
     live_inv (run live_step r es) \<and> next_id (run live_step r es) \<le> next_id r + length es"
proof (induction es arbitrary: r)
  case (Cons e es)
  then have "live_inv (live_step r e) \<and> next_id (live_step r e) \<le> next_id r + 1" using live_step_inv by simp
  with Cons.IH [of "live_step r e"] Cons.prems show ?case by auto
qed simp


definition sample_live_events :: "live_event list" where
  "sample_live_events =
     [LiveStart ''u'' None ''r'' ''a'' ''m'' ''openai'' None, LiveClone 0, LiveProvider 1 (Some ''p''), LiveDrop 0 None]"


text \<open>Two clones of one guard dropped at the same time can both see a reference count of two, so that neither
  ends the request: it stays in the registry although no guard is left.\<close>

lemma concurrent_drops_leak_request:
  "let r = run live_step live_guards_new [LiveStart uuid clock req alias mdl protocol key, LiveClone 0];
       r' = drop_release 1 (drop_release 0 (drop_check 1 clock (drop_check 0 clock r)))
   in in_flight r' = {} \<and> active_request_count (registry r') = 1"
  by (simp add: live_guards_new_def RequestLiveRegistry_new_def guard_start_def live_start_def
      MAX_REQUEST_LIVE_ENTRIES_def Let_def guard_clone_def drop_check_def drop_release_def guard_strong_count_def
      in_flight_def hm_contains_key_def active_request_count_def sat_add_def hm_insert_def)

end
