(* ===== verification/ApiKeyScope.thy ===== *)
theory ApiKeyScope
  imports Storage
begin

text \<open>
  The access scope of a gateway API key (\<^verbatim>\<open>src/security/api_key_scope.rs\<close>): the providers and the model rules a
  key may use, how they are validated, stored and enforced. serde_json on lists of strings is a parameter.
\<close>

section \<open>Definitions\<close>

definition ALLOWED_PROVIDERS_FIELD :: string where "ALLOWED_PROVIDERS_FIELD = ''allowed_provider_ids''"
definition ALLOWED_MODELS_FIELD :: string where "ALLOWED_MODELS_FIELD = ''allowed_models''"
definition MAX_ALLOWED_PROVIDERS :: nat where "MAX_ALLOWED_PROVIDERS = 64"
definition MAX_ALLOWED_MODEL_RULES :: nat where "MAX_ALLOWED_MODEL_RULES = 64"
definition MAX_SCOPE_ENTRY_BYTES :: nat where "MAX_SCOPE_ENTRY_BYTES = 128"
definition MAX_SCOPE_JSON_BYTES :: nat where "MAX_SCOPE_JSON_BYTES = 8 * 1024"

datatype ModelRule = Exact string | Prefix string

abbreviation star :: char where "star \<equiv> CHR ''*''"

definition ModelRule_parse :: "string \<Rightarrow> string + ModelRule" where
  "ModelRule_parse raw =
     (let trimmed = trim raw in
      if trimmed = [] then Inl ''an allowed model entry is empty''
      else if MAX_SCOPE_ENTRY_BYTES < str_len trimmed then Inl ''an allowed model entry is longer than 128 bytes''
      else if \<exists>c \<in> set trimmed. is_whitespace c then Inl ''an allowed model entry must not contain whitespace''
      else if \<exists>c \<in> set trimmed. is_control c then Inl ''an allowed model entry must not contain control characters''
      else
        case strip_suffix [star] trimmed of
          Some pre \<Rightarrow>
            if pre = [] then Inl ''a model prefix must not be only a wildcard''
            else if star \<in> set pre then Inl (quoted ''*'' @ '' is only supported as the last character of a model rule'')
            else Inr (Prefix pre)
        | None \<Rightarrow>
            if star \<in> set trimmed then Inl (quoted ''*'' @ '' is only supported as the last character of a model rule'')
            else Inr (Exact trimmed))"

fun rule_matches :: "ModelRule \<Rightarrow> string \<Rightarrow> bool" where
  "rule_matches (Exact v) m = (m = v)"
| "rule_matches (Prefix pre) m = starts_with pre m"

fun to_stored :: "ModelRule \<Rightarrow> string" where
  "to_stored (Exact v) = v"
| "to_stored (Prefix pre) = pre @ [star]"

record ApiKeyScope =
  allowed_provider_ids :: "string list"
  allowed_models :: "ModelRule list"

fun collect_providers :: "string list \<Rightarrow> string list \<Rightarrow> string + string list" where
  "collect_providers [] acc = Inr acc"
| "collect_providers (raw # rest) acc =
     (let trimmed = trim raw in
      if trimmed = [] then Inl ''an allowed provider entry is empty''
      else if MAX_SCOPE_ENTRY_BYTES < str_len trimmed then Inl ''an allowed provider entry is longer than 128 bytes''
      else if \<exists>c \<in> set trimmed. is_control c then Inl ''an allowed provider entry must not contain control characters''
      else collect_providers rest (if trimmed \<in> set acc then acc else acc @ [trimmed]))"

fun collect_rules :: "string list \<Rightarrow> ModelRule list \<Rightarrow> string + ModelRule list" where
  "collect_rules [] acc = Inr acc"
| "collect_rules (raw # rest) acc =
     rbind (ModelRule_parse raw) (\<lambda>parsed.
       collect_rules rest (if to_stored parsed \<in> set (map to_stored acc) then acc else acc @ [parsed]))"

definition from_entries :: "string list \<Rightarrow> string list \<Rightarrow> string + ApiKeyScope" where
  "from_entries provider_ids model_rules =
     (if MAX_ALLOWED_PROVIDERS < length provider_ids then Inl ''an API key can allow at most 64 providers''
      else if MAX_ALLOWED_MODEL_RULES < length model_rules then Inl ''an API key can allow at most 64 model rules''
      else
        rbind (collect_providers provider_ids []) (\<lambda>ps.
        rbind (collect_rules model_rules []) (\<lambda>ms.
          Inr \<lparr>allowed_provider_ids = ps, allowed_models = ms\<rparr>)))"

definition is_unrestricted :: "ApiKeyScope \<Rightarrow> bool" where
  "is_unrestricted sc = (allowed_provider_ids sc = [] \<and> allowed_models sc = [])"

definition stored_model_rules :: "ApiKeyScope \<Rightarrow> string list" where
  "stored_model_rules sc = map to_stored (allowed_models sc)"

definition allows_provider :: "ApiKeyScope \<Rightarrow> string \<Rightarrow> bool" where
  "allows_provider sc provider_id = (allowed_provider_ids sc = [] \<or> provider_id \<in> set (allowed_provider_ids sc))"

definition allows_model :: "ApiKeyScope \<Rightarrow> string \<Rightarrow> bool" where
  "allows_model sc m = (allowed_models sc = [] \<or> (\<exists>rule \<in> set (allowed_models sc). rule_matches rule m))"

text \<open>serde_json on \<open>Vec<String>\<close>.\<close>

record json_strings =
  to_json :: "string list \<Rightarrow> string + string"
  from_json :: "string \<Rightarrow> string + string list"

definition write_to_record :: "json_strings \<Rightarrow> ApiKeyScope \<Rightarrow> Record \<Rightarrow> StorageError + Record" where
  "write_to_record js sc r =
     rbind (map_err Codec (to_json js (allowed_provider_ids sc))) (\<lambda>providers.
     rbind (map_err Codec (to_json js (stored_model_rules sc))) (\<lambda>models.
       Inr (hm_insert ALLOWED_MODELS_FIELD (Text models) (hm_insert ALLOWED_PROVIDERS_FIELD (Text providers) r))))"

definition optional_entry_list :: "json_strings \<Rightarrow> Record \<Rightarrow> string \<Rightarrow> StorageError + string list" where
  "optional_entry_list js r field =
     rbind (optional_text r field) (\<lambda>found.
       case found of
         None \<Rightarrow> Inr []
       | Some raw \<Rightarrow>
           if MAX_SCOPE_JSON_BYTES < str_len raw
           then Inl (Invalid (''API key scope field '' @ quoted field @ '' exceeds 8192 bytes''))
           else map_err (\<lambda>e. Invalid (''API key scope field '' @ quoted field @
                  '' is not a valid JSON string array: '' @ e)) (from_json js raw))"

definition from_record :: "json_strings \<Rightarrow> Record \<Rightarrow> StorageError + ApiKeyScope" where
  "from_record js r =
     rbind (optional_entry_list js r ALLOWED_PROVIDERS_FIELD) (\<lambda>provider_ids.
     rbind (optional_entry_list js r ALLOWED_MODELS_FIELD) (\<lambda>model_rules.
       map_err (\<lambda>m. Invalid (''API key scope is invalid: '' @ m)) (from_entries provider_ids model_rules)))"

section \<open>Model rules\<close>

text \<open>A rule that came out of the parser.\<close>

definition rule_ok :: "ModelRule \<Rightarrow> bool" where
  "rule_ok rule \<longleftrightarrow> ModelRule_parse (to_stored rule) = Inr rule"

lemma parsed_rule_ok:
  assumes "ModelRule_parse raw = Inr rule"
  shows "rule_ok rule \<and> to_stored rule = trim raw"
proof -
  let ?t = "trim raw"
  have t: "?t \<noteq> []" "\<not> MAX_SCOPE_ENTRY_BYTES < str_len ?t" "\<not> (\<exists>c \<in> set ?t. is_whitespace c)"
    "\<not> (\<exists>c \<in> set ?t. is_control c)"
    using assms by (auto simp: ModelRule_parse_def Let_def split: if_splits)
  then have cases: "(case strip_suffix [star] ?t of
          Some pre \<Rightarrow>
            if pre = [] then Inl ''a model prefix must not be only a wildcard''
            else if star \<in> set pre then Inl (quoted ''*'' @ '' is only supported as the last character of a model rule'')
            else Inr (Prefix pre)
        | None \<Rightarrow>
            if star \<in> set ?t then Inl (quoted ''*'' @ '' is only supported as the last character of a model rule'')
            else Inr (Exact ?t)) = Inr rule"
    using assms by (simp add: ModelRule_parse_def Let_def)
  have stored: "to_stored rule = ?t"
  proof (cases "strip_suffix [star] ?t")
    case None
    with cases show ?thesis by (auto split: if_splits)
  next
    case (Some pre)
    then have "?t = pre @ [star]" by (simp add: strip_suffix_eq_Some)
    with cases Some show ?thesis by (auto split: if_splits)
  qed
  have "ModelRule_parse ?t = Inr rule" using t cases by (simp add: ModelRule_parse_def Let_def)
  with stored show ?thesis by (simp add: rule_ok_def)
qed

interpretation rules: codec to_stored "\<lambda>s. case ModelRule_parse s of Inr r \<Rightarrow> Some r | Inl _ \<Rightarrow> None" rule_ok
  by unfold_locales (simp add: rule_ok_def)

text \<open>The matching behaviour of a rule in terms of the text the operator entered.\<close>

lemma parsed_rule_matches:
  assumes "ModelRule_parse raw = Inr rule"
  shows "rule_matches rule m \<longleftrightarrow>
    (if star \<in> set raw then starts_with (butlast (trim raw)) m else m = trim raw)"
proof -
  have stored: "to_stored rule = trim raw" using parsed_rule_ok [OF assms] by simp
  have sub: "set (trim raw) \<subseteq> set raw" by (rule set_trim)
  have kept: "c \<in> set (trim raw)" if "c \<in> set raw" "\<not> is_whitespace c" for c
  proof -
    have "c \<in> set (dropWhile is_whitespace s)" if "c \<in> set s" "\<not> is_whitespace c" for s
      using that by (induction s) auto
    with that show ?thesis by (simp add: trim_def trim_end_def trim_start_def)
  qed
  show ?thesis
  proof (cases rule)
    case (Exact v)
    then have "v = trim raw" using stored by simp
    moreover have "star \<notin> set (trim raw)"
      using assms Exact by (auto simp: ModelRule_parse_def Let_def split: if_splits option.splits)
    then have "star \<notin> set raw" using kept [of star] by (auto simp: is_whitespace_def)
    ultimately show ?thesis using Exact by simp
  next
    case (Prefix pre)
    then have "trim raw = pre @ [star]" using stored by simp
    moreover from this have "star \<in> set raw" using sub by auto
    ultimately show ?thesis using Prefix by simp
  qed
qed


section \<open>Entries\<close>

definition provider_ok :: "string \<Rightarrow> bool" where
  "provider_ok p \<longleftrightarrow> trim p = p \<and> p \<noteq> [] \<and> str_len p \<le> MAX_SCOPE_ENTRY_BYTES \<and> \<not> (\<exists>c \<in> set p. is_control c)"

lemma collect_providers_spec:
  "collect_providers raws acc = Inr ps \<Longrightarrow> distinct acc \<Longrightarrow> (\<forall>p \<in> set acc. provider_ok p) \<Longrightarrow>
     distinct ps \<and> (\<forall>p \<in> set ps. provider_ok p) \<and> set ps = set acc \<union> trim ` set raws \<and>
     length ps \<le> length acc + length raws"
proof (induction raws arbitrary: acc)
  case (Cons raw raws)
  let ?acc = "if trim raw \<in> set acc then acc else acc @ [trim raw]"
  from Cons.prems(1) have raw: "provider_ok (trim raw)" "collect_providers raws ?acc = Inr ps"
    by (auto simp: Let_def provider_ok_def split: if_splits)
  have "distinct ?acc" "\<forall>p \<in> set ?acc. provider_ok p" using Cons.prems raw by auto
  with Cons.IH [OF raw(2)] show ?case by (auto split: if_splits)
qed simp

lemma collect_providers_id:
  "\<forall>p \<in> set ps. provider_ok p \<Longrightarrow> distinct (acc @ ps) \<Longrightarrow> collect_providers ps acc = Inr (acc @ ps)"
proof (induction ps arbitrary: acc)
  case (Cons p ps)
  then have "collect_providers ps (acc @ [p]) = Inr (acc @ p # ps)" by simp
  with Cons.prems show ?case by (auto simp: provider_ok_def Let_def)
qed simp

lemma collect_rules_spec:
  "collect_rules raws acc = Inr ms \<Longrightarrow> distinct (map to_stored acc) \<Longrightarrow> (\<forall>r \<in> set acc. rule_ok r) \<Longrightarrow>
     distinct (map to_stored ms) \<and> (\<forall>r \<in> set ms. rule_ok r) \<and> length ms \<le> length acc + length raws \<and>
     (\<forall>raw \<in> set raws. \<exists>r. ModelRule_parse raw = Inr r) \<and>
     to_stored ` set ms = to_stored ` set acc \<union> trim ` set raws"
proof (induction raws arbitrary: acc)
  case (Cons raw raws)
  then obtain r where r: "ModelRule_parse raw = Inr r"
    "collect_rules raws (if to_stored r \<in> set (map to_stored acc) then acc else acc @ [r]) = Inr ms"
    by (auto simp: rbind_eq_Inr)
  let ?acc = "if to_stored r \<in> set (map to_stored acc) then acc else acc @ [r]"
  have p: "rule_ok r" "to_stored r = trim raw" using parsed_rule_ok [OF r(1)] by auto
  have a: "distinct (map to_stored ?acc)" "\<forall>x \<in> set ?acc. rule_ok x" using Cons.prems p(1) by auto
  have "to_stored ` set ?acc = insert (trim raw) (to_stored ` set acc)" "length ?acc \<le> length acc + 1"
    using p(2) by auto
  with Cons.IH [OF r(2) a] r(1) show ?case by auto
qed simp

lemma collect_rules_id:
  "\<forall>r \<in> set ms. rule_ok r \<Longrightarrow> distinct (map to_stored (acc @ ms)) \<Longrightarrow>
     collect_rules (map to_stored ms) acc = Inr (acc @ ms)"
proof (induction ms arbitrary: acc)
  case (Cons r ms)
  then have "collect_rules (map to_stored ms) (acc @ [r]) = Inr (acc @ r # ms)" by simp
  with Cons.prems show ?case by (auto simp: rule_ok_def)
qed simp

lemma from_entries_inv:
  assumes "from_entries ps ms = Inr sc"
  shows "distinct (allowed_provider_ids sc)" "\<forall>p \<in> set (allowed_provider_ids sc). provider_ok p"
    "distinct (stored_model_rules sc)" "\<forall>r \<in> set (allowed_models sc). rule_ok r"
    "length (allowed_provider_ids sc) \<le> 64" "length (allowed_models sc) \<le> 64"
    "set (allowed_provider_ids sc) = trim ` set ps" "set (stored_model_rules sc) = trim ` set ms"
    "\<forall>raw \<in> set ms. \<exists>r. ModelRule_parse raw = Inr r"
proof -
  obtain P M where "length ps \<le> 64" "length ms \<le> 64" "collect_providers ps [] = Inr P" "collect_rules ms [] = Inr M"
    and sc: "sc = \<lparr>allowed_provider_ids = P, allowed_models = M\<rparr>"
    using assms by (auto simp: from_entries_def rbind_eq_Inr MAX_ALLOWED_PROVIDERS_def MAX_ALLOWED_MODEL_RULES_def split: if_splits)
  with collect_providers_spec [of ps "[]" P] collect_rules_spec [of ms "[]" M]
  show "distinct (allowed_provider_ids sc)" "\<forall>p \<in> set (allowed_provider_ids sc). provider_ok p"
    "distinct (stored_model_rules sc)" "\<forall>r \<in> set (allowed_models sc). rule_ok r"
    "length (allowed_provider_ids sc) \<le> 64" "length (allowed_models sc) \<le> 64"
    "set (allowed_provider_ids sc) = trim ` set ps" "set (stored_model_rules sc) = trim ` set ms"
    "\<forall>raw \<in> set ms. \<exists>r. ModelRule_parse raw = Inr r"
    by (auto simp: stored_model_rules_def)
qed

lemma from_entries_stored:
  assumes "from_entries ps ms = Inr sc"
  shows "from_entries (allowed_provider_ids sc) (stored_model_rules sc) = Inr sc"
proof -
  note inv = from_entries_inv [OF assms]
  have "collect_providers (allowed_provider_ids sc) [] = Inr (allowed_provider_ids sc)"
    using collect_providers_id [of "allowed_provider_ids sc" "[]"] inv by simp
  moreover have "collect_rules (stored_model_rules sc) [] = Inr (allowed_models sc)"
    using collect_rules_id [of "allowed_models sc" "[]"] inv by (simp add: stored_model_rules_def)
  ultimately show ?thesis
    using inv by (simp add: from_entries_def MAX_ALLOWED_PROVIDERS_def MAX_ALLOWED_MODEL_RULES_def stored_model_rules_def)
qed

text \<open>C40: A scope made from an operator's entries allows a provider or a model exactly when the entries say so: no
  entries allow everything; a provider entry allows its trimmed id; a model entry allows its trimmed name, or every
  model with the text before its final asterisk as prefix.\<close>

theorem scope_enforces_entries:
  assumes "from_entries ps ms = Inr sc"
  shows "(allows_provider sc p \<longleftrightarrow> ps = [] \<or> (\<exists>raw \<in> set ps. p = trim raw)) \<and>
    (allows_model sc m \<longleftrightarrow> ms = [] \<or>
       (\<exists>raw \<in> set ms. if star \<in> set raw then starts_with (butlast (trim raw)) m else m = trim raw))"
proof
  note inv = from_entries_inv [OF assms]
  have "allowed_provider_ids sc = [] \<longleftrightarrow> ps = []" using inv(7) by (metis image_is_empty set_empty)
  then show "allows_provider sc p \<longleftrightarrow> ps = [] \<or> (\<exists>raw \<in> set ps. p = trim raw)"
    using inv(7) by (auto simp: allows_provider_def)
  have empty: "allowed_models sc = [] \<longleftrightarrow> ms = []"
    using inv(8) by (metis image_is_empty list.map_disc_iff set_empty stored_model_rules_def)
  have "(\<exists>rule \<in> set (allowed_models sc). rule_matches rule m) \<longleftrightarrow> (\<exists>raw \<in> set ms. \<exists>r. ModelRule_parse raw = Inr r \<and> rule_matches r m)"
  proof
    assume "\<exists>rule \<in> set (allowed_models sc). rule_matches rule m"
    then obtain rule where rule: "rule \<in> set (allowed_models sc)" "rule_matches rule m" by blast
    then have "to_stored rule \<in> trim ` set ms" using inv(8) by (auto simp: stored_model_rules_def)
    then obtain raw where raw: "raw \<in> set ms" "to_stored rule = trim raw" by blast
    obtain r where r: "ModelRule_parse raw = Inr r" using inv(9) raw(1) by blast
    have "to_stored r = to_stored rule" "rule_ok r" using parsed_rule_ok [OF r] raw(2) by simp_all
    then have "r = rule" using rules.enc_inj inv(4) rule(1) by blast
    with raw r rule show "\<exists>raw \<in> set ms. \<exists>r. ModelRule_parse raw = Inr r \<and> rule_matches r m" by blast
  next
    assume "\<exists>raw \<in> set ms. \<exists>r. ModelRule_parse raw = Inr r \<and> rule_matches r m"
    then obtain raw r where r: "raw \<in> set ms" "ModelRule_parse raw = Inr r" "rule_matches r m" by blast
    then have "to_stored r \<in> to_stored ` set (allowed_models sc)" "rule_ok r"
      using parsed_rule_ok [OF r(2)] inv(8) by (auto simp: stored_model_rules_def)
    then obtain rule where "rule \<in> set (allowed_models sc)" "to_stored rule = to_stored r" by auto
    then have "rule = r" using rules.enc_inj inv(4) \<open>rule_ok r\<close> by blast
    with r \<open>rule \<in> set (allowed_models sc)\<close> show "\<exists>rule \<in> set (allowed_models sc). rule_matches rule m" by blast
  qed
  also have "\<dots> \<longleftrightarrow> (\<exists>raw \<in> set ms. if star \<in> set raw then starts_with (butlast (trim raw)) m else m = trim raw)"
    using inv(9) parsed_rule_matches by (metis sum.inject(2))
  finally show "allows_model sc m \<longleftrightarrow> ms = [] \<or>
      (\<exists>raw \<in> set ms. if star \<in> set raw then starts_with (butlast (trim raw)) m else m = trim raw)"
    unfolding allows_model_def empty by blast
qed

text \<open>A validated scope is read back from the record it is written to, as long as each of its two JSON texts has
  at most 8 KiB; the other fields of the record do not change.\<close>

lemma scope_roundtrip:
  assumes "from_entries ps ms = Inr sc"
    and "to_json js (allowed_provider_ids sc) = Inr pj" "from_json js pj = Inr (allowed_provider_ids sc)" "str_len pj \<le> 8192"
    and "to_json js (stored_model_rules sc) = Inr mj" "from_json js mj = Inr (stored_model_rules sc)" "str_len mj \<le> 8192"
  shows "\<exists>r'. write_to_record js sc r = Inr r' \<and> from_record js r' = Inr sc \<and>
    (\<forall>f. f \<noteq> ALLOWED_PROVIDERS_FIELD \<and> f \<noteq> ALLOWED_MODELS_FIELD \<longrightarrow> hm_get r' f = hm_get r f)"
  using assms from_entries_stored [OF assms(1)]
  by (auto simp: write_to_record_def from_record_def optional_entry_list_def optional_text_def hm_get_insert
      ALLOWED_PROVIDERS_FIELD_def ALLOWED_MODELS_FIELD_def MAX_SCOPE_JSON_BYTES_def)

text \<open>A scope that passes validation can be stored and then never read again: when the JSON text of its provider
  list is longer than 8 KiB, which 64 providers of the allowed length exceed, every request with the key fails.\<close>

lemma valid_scope_unreadable:
  assumes "from_entries ps ms = Inr sc" "to_json js (allowed_provider_ids sc) = Inr pj" "8192 < str_len pj"
    and "to_json js (stored_model_rules sc) = Inr mj"
  shows "\<exists>r' e. write_to_record js sc r = Inr r' \<and> from_record js r' = Inl e"
  using assms
  by (auto simp: write_to_record_def from_record_def optional_entry_list_def optional_text_def hm_get_insert
      ALLOWED_PROVIDERS_FIELD_def ALLOWED_MODELS_FIELD_def MAX_SCOPE_JSON_BYTES_def)

section \<open>Concrete scopes\<close>

text \<open>The JSON text of a list of strings that need no escapes.\<close>

definition json_array :: "string list \<Rightarrow> string" where
  "json_array xs = ''['' @ concat (map (\<lambda>x. [CHR 0x22] @ x @ [CHR 0x22, CHR '','']) xs) @ '']''"

definition wide_ids :: "string list" where
  "wide_ids = map (\<lambda>i. char_of (i + 48) # replicate 127 CHR ''a'') [0 ..< 64]"

theorem scope_enforces_entries_witness:
  "\<exists>sc. from_entries ['' p1 ''] [''gpt-4*'', ''claude''] = Inr sc \<and> allows_provider sc ''p1'' \<and> \<not> allows_provider sc ''p2'' \<and>
     allows_model sc ''gpt-4o'' \<and> allows_model sc ''claude'' \<and> \<not> allows_model sc ''claude-3''"
proof -
  obtain sc where sc: "from_entries ['' p1 ''] [''gpt-4*'', ''claude''] = Inr sc"
  proof -
    have "from_entries ['' p1 ''] [''gpt-4*'', ''claude''] =
        Inr \<lparr>allowed_provider_ids = [''p1''], allowed_models = [Prefix ''gpt-4'', Exact ''claude'']\<rparr>" by code_simp
    with that show ?thesis by blast
  qed
  have t: "trim '' p1 '' = ''p1''" "trim ''gpt-4*'' = ''gpt-4*''" "trim ''claude'' = ''claude''" by code_simp+
  have "allows_provider sc ''p1''" "\<not> allows_provider sc ''p2''"
    using scope_enforces_entries [OF sc] by (simp_all add: t)
  moreover have "allows_model sc ''gpt-4o''" "allows_model sc ''claude''" "\<not> allows_model sc ''claude-3''"
    using scope_enforces_entries [OF sc] by (simp_all add: t starts_with_def)
  ultimately show ?thesis using sc by blast
qed

lemma wide_id_ok:
  assumes "char_utf8_len c = 1" "\<not> is_whitespace c" "\<not> is_control c" "n \<le> 127"
  shows "provider_ok (c # replicate n CHR ''a'')"
proof -
  have a: "char_utf8_len CHR ''a'' = 1" "\<not> is_whitespace CHR ''a''" "\<not> is_control CHR ''a''" by code_simp+
  have "str_len (replicate n CHR ''a'') = n" by (induction n) (simp_all add: str_len_def a)
  then have "str_len (c # replicate n CHR ''a'') = n + 1" using assms(1) by (simp add: str_len_def)
  moreover have "trim (c # replicate n CHR ''a'') = c # replicate n CHR ''a''"
    using assms(2) a by (intro trim_no_whitespace) auto
  ultimately show ?thesis using assms a by (auto simp: provider_ok_def MAX_SCOPE_ENTRY_BYTES_def)
qed

lemma wide_ids_ok: "\<forall>p \<in> set wide_ids. provider_ok p" "distinct wide_ids" "length wide_ids = 64"
proof -
  have "char_utf8_len (char_of (i + 48)) = 1 \<and> \<not> is_whitespace (char_of (i + 48)) \<and> \<not> is_control (char_of (i + 48))"
    if "i \<in> set [0 ..< 64]" for i :: nat
    using that by (auto simp: char_utf8_len_def is_whitespace_def is_control_def of_char_of)
  then show "\<forall>p \<in> set wide_ids. provider_ok p" unfolding wide_ids_def set_map using wide_id_ok by blast
  have "inj_on (\<lambda>i. char_of (i + 48 :: nat) :: char) (set [0 ..< 64])"
  proof (rule inj_onI)
    fix x y :: nat assume xy: "x \<in> set [0 ..< 64]" "y \<in> set [0 ..< 64]" "(char_of (x + 48) :: char) = char_of (y + 48)"
    from xy(3) have "(x + 48) mod 256 = (y + 48) mod 256" by (metis of_char_of)
    with xy(1,2) show "x = y" by simp
  qed
  then have "distinct (map (\<lambda>i. char_of (i + 48 :: nat) :: char) [0 ..< 64])" by (simp only: distinct_map distinct_upt)
  then have "distinct (map hd wide_ids)" unfolding wide_ids_def map_map comp_def list.sel .
  then show "distinct wide_ids" by (simp only: distinct_map)
  show "length wide_ids = 64" by (simp add: wide_ids_def)
qed

lemma json_array_length: "length (json_array xs) = 2 + sum_list (map length xs) + 3 * length xs"
  unfolding json_array_def by (induction xs) auto

lemma wide_ids_length: "sum_list (map length wide_ids) = 64 * 128"
proof -
  have "map length wide_ids = replicate 64 128"
    unfolding wide_ids_def map_map comp_def list.size length_replicate by (simp add: map_replicate_const)
  then show ?thesis by (simp only: sum_list_replicate) simp
qed

end
