(* ===== verification/Protocol.thy ===== *)
theory Protocol
  imports Text Interfaces
begin

text \<open>
  The protocol names of \<^verbatim>\<open>src/protocol/model.rs\<close> with their parsers, the handling of thinking blocks, and the
  resource limits of \<^verbatim>\<open>src/config/limits.rs\<close>.
\<close>

section \<open>Protocols\<close>

datatype Protocol = ChatCompletions | Responses | Messages

fun Protocol_as_str :: "Protocol \<Rightarrow> string" where
  "Protocol_as_str ChatCompletions = ''chat_completions''"
| "Protocol_as_str Responses = ''responses''"
| "Protocol_as_str Messages = ''messages''"

definition Protocol_from_str :: "string \<Rightarrow> string + Protocol" where
  "Protocol_from_str v =
     (if v = ''chat'' \<or> v = ''chat_completions'' then Inr ChatCompletions
      else if v = ''responses'' then Inr Responses
      else if v = ''messages'' \<or> v = ''anthropic_messages'' then Inr Messages
      else Inl (''unsupported protocol: '' @ v))"

datatype UpstreamProtocol = UpChatCompletions | UpResponses | UpMessages | GoogleGenerateContent

fun UpstreamProtocol_as_str :: "UpstreamProtocol \<Rightarrow> string" where
  "UpstreamProtocol_as_str UpChatCompletions = ''chat_completions''"
| "UpstreamProtocol_as_str UpResponses = ''responses''"
| "UpstreamProtocol_as_str UpMessages = ''messages''"
| "UpstreamProtocol_as_str GoogleGenerateContent = ''google_generate_content''"

definition UpstreamProtocol_all :: "UpstreamProtocol list" where
  "UpstreamProtocol_all = [UpChatCompletions, UpResponses, UpMessages, GoogleGenerateContent]"

definition as_str_list :: "string list" where
  "as_str_list = [''chat_completions'', ''responses'', ''messages'', ''google_generate_content'']"

fun up_client_protocol :: "UpstreamProtocol \<Rightarrow> Protocol option" where
  "up_client_protocol UpChatCompletions = Some ChatCompletions"
| "up_client_protocol UpResponses = Some Responses"
| "up_client_protocol UpMessages = Some Messages"
| "up_client_protocol GoogleGenerateContent = None"

fun UpstreamProtocol_from :: "Protocol \<Rightarrow> UpstreamProtocol" where
  "UpstreamProtocol_from ChatCompletions = UpChatCompletions"
| "UpstreamProtocol_from Responses = UpResponses"
| "UpstreamProtocol_from Messages = UpMessages"

definition UpstreamProtocol_from_str :: "string \<Rightarrow> string + UpstreamProtocol" where
  "UpstreamProtocol_from_str v =
     (if v = ''chat'' \<or> v = ''chat_completions'' then Inr UpChatCompletions
      else if v = ''responses'' then Inr UpResponses
      else if v = ''messages'' \<or> v = ''anthropic_messages'' then Inr UpMessages
      else if v = ''google_generate_content'' then Inr GoogleGenerateContent
      else Inl (''unsupported upstream protocol: '' @ v))"

definition result_ok :: "'e + 'a \<Rightarrow> 'a option" where
  "result_ok r = (case r of Inr v \<Rightarrow> Some v | Inl _ \<Rightarrow> None)"

interpretation protocol: codec Protocol_as_str "\<lambda>s. result_ok (Protocol_from_str s)" "\<lambda>_. True"
proof
  show "result_ok (Protocol_from_str (Protocol_as_str p)) = Some p" for p
    by (cases p) (simp_all add: Protocol_from_str_def result_ok_def)
qed

interpretation upstream: codec UpstreamProtocol_as_str "\<lambda>s. result_ok (UpstreamProtocol_from_str s)" "\<lambda>_. True"
proof
  show "result_ok (UpstreamProtocol_from_str (UpstreamProtocol_as_str p)) = Some p" for p
    by (cases p) (simp_all add: UpstreamProtocol_from_str_def result_ok_def)
qed

text \<open>The upstream names extend the client names, and the two directions of the conversion agree.\<close>

lemma upstream_of_client:
  "UpstreamProtocol_as_str (UpstreamProtocol_from p) = Protocol_as_str p"
  "up_client_protocol (UpstreamProtocol_from p) = Some p"
  by (cases p; simp)+

lemma client_of_upstream: "up_client_protocol u = Some p \<longleftrightarrow> u = UpstreamProtocol_from p"
  by (cases u; cases p) simp_all

lemma upstream_list: "as_str_list = map UpstreamProtocol_as_str UpstreamProtocol_all"
  by (simp add: as_str_list_def UpstreamProtocol_all_def)

section \<open>Thinking blocks\<close>

datatype ThinkingHandling = Preserve | Override string | Remove

definition DEFAULT_THINKING_MODE :: string where "DEFAULT_THINKING_MODE = ''preserve''"
definition MAX_THINKING_OVERRIDE_BYTES :: nat where "MAX_THINKING_OVERRIDE_BYTES = 4096"

definition parse_thinking_handling :: "string \<Rightarrow> string option \<Rightarrow> string + ThinkingHandling" where
  "parse_thinking_handling mode override_text =
     (if (case override_text of
            Some txt \<Rightarrow> MAX_THINKING_OVERRIDE_BYTES < str_len txt \<or> 0 \<in> set (str_bytes txt)
          | None \<Rightarrow> False)
      then Inl ''thinking replacement exceeds the 4096-byte limit or contains invalid data''
      else if mode = ''preserve'' \<and> override_text = None then Inr Preserve
      else if mode = ''remove'' \<and> override_text = None then Inr Remove
      else if mode = ''override'' then
        (case override_text of
           Some txt \<Rightarrow> if trim txt \<noteq> [] then Inr (Override txt) else Inl ''thinking override text is required''
         | None \<Rightarrow> Inl ''thinking override text is required'')
      else if mode = ''preserve'' \<or> mode = ''remove'' then
        Inl ''thinking override text is only valid in override mode''
      else Inl ''thinking mode must be preserve, override or remove'')"

section \<open>Resource limits\<close>

definition MAX_ROUTE_TARGETS :: nat where "MAX_ROUTE_TARGETS = 32"
definition MAX_COMBO_NESTING_DEPTH :: nat where "MAX_COMBO_NESTING_DEPTH = 8"

record GatewayResourceLimits =
  gateway_body_limit_bytes :: nat
  gateway_body_processing_concurrency :: nat
  sse_frame_limit_bytes :: nat
  sse_buffer_limit_bytes :: nat
  provider_max_concurrency :: nat
  stream_continuity_enabled :: bool
  stream_continuity_max_concurrency :: nat

definition KIB :: nat where "KIB = 1024"
definition MIB :: nat where "MIB = 1024 * 1024"

definition limits_validate :: "GatewayResourceLimits \<Rightarrow> string + unit" where
  "limits_validate l =
     (if \<not> (MIB \<le> gateway_body_limit_bytes l \<and> gateway_body_limit_bytes l \<le> 16 * MIB)
      then Inl ''gateway body limit must be between 1 and 16 MiB''
      else if gateway_body_processing_concurrency l \<noteq> 0 \<and>
              \<not> (1 \<le> gateway_body_processing_concurrency l \<and> gateway_body_processing_concurrency l \<le> 8)
      then Inl ''gateway body processing concurrency must be unlimited or between 1 and 8''
      else if sse_frame_limit_bytes l \<noteq> 0 \<and> sse_frame_limit_bytes l < 64 * KIB
      then Inl ''SSE frame limit must be 0 (unlimited) or at least 64 KiB''
      else if sse_frame_limit_bytes l = 0 \<and> sse_buffer_limit_bytes l \<noteq> 0
      then Inl ''SSE buffer limit must be 0 (unlimited) when the frame limit is unlimited''
      else if sse_buffer_limit_bytes l \<noteq> 0 \<and> sse_frame_limit_bytes l \<noteq> 0 \<and>
              sse_buffer_limit_bytes l < sse_frame_limit_bytes l
      then Inl ''SSE buffer limit must be 0 (unlimited) or at least the finite frame limit''
      else if provider_max_concurrency l \<noteq> 0 \<and>
              \<not> (1 \<le> provider_max_concurrency l \<and> provider_max_concurrency l \<le> 32)
      then Inl ''provider concurrency must be unlimited or between 1 and 32''
      else if \<not> (1 \<le> stream_continuity_max_concurrency l \<and> stream_continuity_max_concurrency l \<le> 64)
      then Inl ''stream continuity concurrency must be between 1 and 64''
      else Inr ())"

definition limits_default :: GatewayResourceLimits where
  "limits_default =
     \<lparr>gateway_body_limit_bytes = 16 * MIB, gateway_body_processing_concurrency = 4,
      sse_frame_limit_bytes = MIB, sse_buffer_limit_bytes = 2 * MIB, provider_max_concurrency = 32,
      stream_continuity_enabled = False, stream_continuity_max_concurrency = 16\<rparr>"

text \<open>The defaults are valid, and a valid configuration never buffers less than one whole frame.\<close>

lemma limits_default_valid: "limits_validate limits_default = Inr ()"
  by (simp add: limits_validate_def limits_default_def MIB_def KIB_def)

lemma limits_buffer_frame:
  assumes "limits_validate l = Inr ()" "sse_buffer_limit_bytes l \<noteq> 0"
  shows "64 * 1024 \<le> sse_frame_limit_bytes l \<and> sse_frame_limit_bytes l \<le> sse_buffer_limit_bytes l"
  using assms by (auto simp: limits_validate_def KIB_def split: if_splits)

end
