(* ===== verification/Json.thy ===== *)
theory Json
  imports Text "HOL-Library.Word"
begin

text \<open>
  JSON values as \<open>serde_json\<close> holds them: an object is a map sorted by its keys, a number is an unsigned or
  negative 64-bit integer or the bits of a double. The text codec is a parameter of the definitions that use it.
\<close>

section \<open>Values\<close>

datatype json_number = PosInt nat | NegInt int | Float "64 word"

datatype json =
    JNull
  | JBool bool
  | JNumber json_number
  | JString string
  | JArray "json list"
  | JObject "(string \<times> json) list"

type_synonym json_map = "(string \<times> json) list"

record json_text =
  json_from_slice :: "nat list \<Rightarrow> json option"
  json_to_string :: "json \<Rightarrow> string"

definition map_insert :: "string \<Rightarrow> 'v \<Rightarrow> (string \<times> 'v) list \<Rightarrow> (string \<times> 'v) list" where
  "map_insert k v m = filter (\<lambda>(k', _). k' < k) m @ (k, v) # filter (\<lambda>(k', _). k < k') m"

fun as_str :: "json \<Rightarrow> string option" where
  "as_str (JString s) = Some s"
| "as_str _ = None"

fun as_bool :: "json \<Rightarrow> bool option" where
  "as_bool (JBool b) = Some b"
| "as_bool _ = None"

fun as_object :: "json \<Rightarrow> json_map option" where
  "as_object (JObject m) = Some m"
| "as_object _ = None"

definition json_get :: "json \<Rightarrow> string \<Rightarrow> json option" where
  "json_get v k = Option.bind (as_object v) (\<lambda>m. map_of m k)"

text \<open>\<open>value[key] = v\<close>: a null becomes an object, any other value that is no object panics (\<open>None\<close>).\<close>

fun index_assign :: "string \<Rightarrow> json \<Rightarrow> json \<Rightarrow> json option" where
  "index_assign k v (JObject m) = Some (JObject (map_insert k v m))"
| "index_assign k v JNull = Some (JObject [(k, v)])"
| "index_assign k v _ = None"

section \<open>Well-formed values\<close>

definition sorted_map :: "(string \<times> 'v) list \<Rightarrow> bool" where
  "sorted_map m = sorted_wrt (<) (map fst m)"

fun json_ok :: "json \<Rightarrow> bool" where
  "json_ok (JArray vs) = list_all json_ok vs"
| "json_ok (JObject m) = (sorted_map m \<and> list_all (\<lambda>kv. json_ok (snd kv)) m)"
| "json_ok (JNumber n) = (case n of PosInt i \<Rightarrow> i \<le> u64_max | NegInt i \<Rightarrow> - (2 ^ 63) \<le> i \<and> i < 0 | Float w \<Rightarrow> True)"
| "json_ok _ = True"

lemma map_of_filter_key: "map_of (filter (\<lambda>(k, _). P k) m) k = (if P k then map_of m k else None)"
  by (induction m) auto

lemma map_of_insert: "map_of (map_insert k v m) k' = (if k' = k then Some v else map_of m k')"
  by (auto simp: map_insert_def map_add_def map_of_filter_key split: option.splits)

lemma sorted_map_filter: "sorted_map m \<Longrightarrow> sorted_map (filter P m)"
  by (auto simp: sorted_map_def sorted_wrt_map intro: sorted_wrt_filter)

lemma sorted_map_insert: "sorted_map m \<Longrightarrow> sorted_map (map_insert k v m)"
  using sorted_map_filter [of m "\<lambda>(k', _). k' < k"] sorted_map_filter [of m "\<lambda>(k', _). k < k'"]
  by (auto simp: map_insert_def sorted_map_def sorted_wrt_append)

lemma sorted_map_distinct: "sorted_map m \<Longrightarrow> distinct (map fst m)"
  unfolding sorted_map_def by (simp add: strict_sorted_iff)

lemma map_insert_ok:
  assumes "json_ok (JObject m)" and "json_ok v"
  shows "json_ok (JObject (map_insert k v m))"
  using assms sorted_map_insert [of m k v] by (auto simp: map_insert_def list_all_iff)

lemma json_get_ok: "json_ok v \<Longrightarrow> json_get v k = Some x \<Longrightarrow> json_ok x"
  by (cases v) (auto simp: json_get_def list_all_iff dest!: map_of_SomeD)

end
