(* ===== verification/Floats.thy ===== *)
theory Floats
  imports Json
begin

text \<open>
  The floating-point operations the protocol codecs use. A double is its 64 bits; a finite one has the value
  \<open>\<plusminus> m * 2 ^ e\<close>. A single is the double of the same value, so that \<open>as f32\<close> is a rounding of doubles and writing a
  single into JSON needs no conversion.
\<close>

section \<open>Bits\<close>

definition f64_negative :: "64 word \<Rightarrow> bool" where
  "f64_negative w = (2 ^ 63 \<le> unat w)"

definition f64_exponent :: "64 word \<Rightarrow> nat" where
  "f64_exponent w = (unat w div 2 ^ 52) mod 2048"

definition f64_fraction :: "64 word \<Rightarrow> nat" where
  "f64_fraction w = unat w mod 2 ^ 52"

definition f64_finite :: "64 word \<Rightarrow> bool" where
  "f64_finite w = (f64_exponent w \<noteq> 2047)"

text \<open>The magnitude of a finite double, \<open>m * 2 ^ e\<close>.\<close>

definition f64_parts :: "64 word \<Rightarrow> nat \<times> int" where
  "f64_parts w =
     (if f64_exponent w = 0 then (f64_fraction w, - 1074)
      else (2 ^ 52 + f64_fraction w, int (f64_exponent w) - 1075))"

section \<open>Rounding\<close>

fun bit_length :: "nat \<Rightarrow> nat" where
  "bit_length n = (if n = 0 then 0 else Suc (bit_length (n div 2)))"

declare bit_length.simps [simp del]

text \<open>To the nearest value of at most \<open>p\<close> significant bits with exponent at least \<open>emin\<close>, ties to even.\<close>

definition round_parts :: "nat \<Rightarrow> int \<Rightarrow> nat \<times> int \<Rightarrow> nat \<times> int" where
  "round_parts p emin x =
     (case x of (m, e) \<Rightarrow>
      let sh = max (int (bit_length m) - int p) (emin - e) in
      if sh \<le> 0 then (m, e)
      else
        let s = nat sh; q = m div 2 ^ s; r = m mod 2 ^ s; half = 2 ^ (s - 1)
        in (if half < r \<or> r = half \<and> odd q then q + 1 else q, e + sh))"

definition normalize_parts :: "nat \<times> int \<Rightarrow> nat \<times> int" where
  "normalize_parts x =
     (case x of (m, e) \<Rightarrow>
      if m = 2 ^ 53 then (2 ^ 52, e + 1)
      else let k = nat (min (53 - int (bit_length m)) (e + 1074)) in (m * 2 ^ k, e - int k))"

definition f64_infinity :: nat where
  "f64_infinity = 2047 * 2 ^ 52"

definition f64_encode :: "bool \<Rightarrow> nat \<times> int \<Rightarrow> 64 word" where
  "f64_encode neg x =
     (let bits = (case normalize_parts (round_parts 53 (- 1074) x) of (m, e) \<Rightarrow>
            if m < 2 ^ 52 then m
            else if 972 \<le> e then f64_infinity
            else nat (e + 1075) * 2 ^ 52 + (m - 2 ^ 52))
      in of_nat (bits + (if neg then 2 ^ 63 else 0)))"

section \<open>Conversions and arithmetic\<close>

definition f64_of_int :: "int \<Rightarrow> 64 word" where
  "f64_of_int i = f64_encode (i < 0) (nat \<bar>i\<bar>, 0)"

definition f32_of_f64 :: "64 word \<Rightarrow> 64 word" where
  "f32_of_f64 w =
     (if \<not> f64_finite w then w
      else case round_parts 24 (- 149) (f64_parts w) of (m, e) \<Rightarrow>
        if 0 \<le> e \<and> 2 ^ 128 \<le> m * 2 ^ nat e
        then of_nat (f64_infinity + (if f64_negative w then 2 ^ 63 else 0))
        else f64_encode (f64_negative w) (m, e))"

text \<open>Comparison of a finite double with two integers.\<close>

definition f64_between :: "int \<Rightarrow> int \<Rightarrow> 64 word \<Rightarrow> bool" where
  "f64_between lo hi w =
     (case f64_parts w of (m, e) \<Rightarrow>
      let s = (if f64_negative w then - int m else int m) in
      if 0 \<le> e then lo \<le> s * 2 ^ nat e \<and> s * 2 ^ nat e \<le> hi
      else lo * 2 ^ nat (- e) \<le> s \<and> s \<le> hi * 2 ^ nat (- e))"

definition f64_mul_nat :: "64 word \<Rightarrow> nat \<Rightarrow> 64 word" where
  "f64_mul_nat w n = f64_encode (f64_negative w) (case f64_parts w of (m, e) \<Rightarrow> (m * n, e))"

text \<open>\<open>f64::round\<close> on a magnitude: halves away from zero.\<close>

definition f64_round :: "64 word \<Rightarrow> nat" where
  "f64_round w =
     (case f64_parts w of (m, e) \<Rightarrow>
      if 0 \<le> e then m * 2 ^ nat e else (m + 2 ^ (nat (- e) - 1)) div 2 ^ nat (- e))"

text \<open>Division of a finite double: the quotient keeps 128 further bits and a bit that tells whether it is exact.\<close>

definition f64_div_nat :: "64 word \<Rightarrow> nat \<Rightarrow> 64 word" where
  "f64_div_nat w n =
     f64_encode (f64_negative w)
       (case f64_parts w of (m, e) \<Rightarrow>
        let q = m * 2 ^ 128 in (2 * (q div n) + (if q mod n = 0 then 0 else 1), e - 129))"

section \<open>Numbers in JSON\<close>

fun as_u64 :: "json \<Rightarrow> nat option" where
  "as_u64 (JNumber (PosInt n)) = Some n"
| "as_u64 _ = None"

fun as_f64 :: "json \<Rightarrow> 64 word option" where
  "as_f64 (JNumber (PosInt n)) = Some (f64_of_int (int n))"
| "as_f64 (JNumber (NegInt i)) = Some (f64_of_int i)"
| "as_f64 (JNumber (Float w)) = Some w"
| "as_f64 _ = None"

definition json_u64 :: "nat \<Rightarrow> json" where
  "json_u64 n = JNumber (PosInt n)"

definition json_f64 :: "64 word \<Rightarrow> json" where
  "json_f64 w = (if f64_finite w then JNumber (Float w) else JNull)"

section \<open>Checks\<close>

lemma bit_length_le: "n < 2 ^ bit_length n"
proof (induction n rule: bit_length.induct)
  case (1 n)
  show ?case
  proof (cases "n = 0")
    case True
    then show ?thesis by simp
  next
    case False
    then have "n div 2 < 2 ^ bit_length (n div 2)" using 1 by blast
    then have "n < 2 * 2 ^ bit_length (n div 2)" by linarith
    then show ?thesis using False by (simp add: bit_length.simps [of n])
  qed
qed

text \<open>Rounding is exact on what already fits.\<close>

lemma round_parts_exact: "m < 2 ^ p \<Longrightarrow> emin \<le> e \<Longrightarrow> round_parts p emin (m, e) = (m, e)"
proof -
  assume m: "m < 2 ^ p" and "emin \<le> e"
  have "bit_length m \<le> p" using m
  proof (induction m arbitrary: p rule: bit_length.induct)
    case (1 n)
    show ?case
    proof (cases "n = 0")
      case True
      then show ?thesis by (simp add: bit_length.simps)
    next
      case False
      then obtain q where q: "p = Suc q" using 1(2) by (cases p) auto
      then have "n div 2 < 2 ^ q" using 1(2) by simp
      then show ?thesis using 1(1) [OF False] q False by (simp add: bit_length.simps [of n])
    qed
  qed
  then show ?thesis using \<open>emin \<le> e\<close> by (simp add: round_parts_def Let_def)
qed

end
