(* ===== verification/ProtocolModel.thy ===== *)
theory ProtocolModel
  imports Protocol Floats
begin

text \<open>
  The canonical request and response (\<^verbatim>\<open>src/protocol/model.rs\<close>) that every protocol is translated through, and the
  operations on JSON values the codecs share. Base64, the guess of a media type from a file name and the JSON text
  codec are third-party code: they are the fields of \<open>codecs\<close>.
\<close>

section \<open>JSON\<close>

record codecs =
  cd_json :: json_text
  b64_standard :: "string \<Rightarrow> nat list option"
  b64_standard_no_pad :: "string \<Rightarrow> nat list option"
  b64_encode :: "nat list \<Rightarrow> string"
  mime_from_path :: "string \<Rightarrow> string option"

definition no_codecs :: codecs where
  "no_codecs =
     \<lparr>cd_json = \<lparr>json_from_slice = (\<lambda>_. None), json_to_string = (\<lambda>_. [])\<rparr>, b64_standard = (\<lambda>_. None),
      b64_standard_no_pad = (\<lambda>_. None), b64_encode = (\<lambda>_. []), mime_from_path = (\<lambda>_. None)\<rparr>"

definition json_from_str :: "codecs \<Rightarrow> string \<Rightarrow> json option" where
  "json_from_str cd s = json_from_slice (cd_json cd) (str_bytes s)"

definition json_text_of :: "codecs \<Rightarrow> json \<Rightarrow> string" where
  "json_text_of cd v = json_to_string (cd_json cd) v"

text \<open>The object \<open>json!({...})\<close> with the given fields.\<close>

definition json_map_of :: "(string \<times> json) list \<Rightarrow> json_map" where
  "json_map_of kvs = fold (\<lambda>(k, v). map_insert k v) kvs []"

definition json_obj :: "(string \<times> json) list \<Rightarrow> json" where
  "json_obj kvs = JObject (json_map_of kvs)"

fun as_array :: "json \<Rightarrow> json list option" where
  "as_array (JArray vs) = Some vs"
| "as_array _ = None"

definition get_str :: "json \<Rightarrow> string \<Rightarrow> string option" where
  "get_str v k = Option.bind (json_get v k) as_str"

definition get_array :: "json \<Rightarrow> string \<Rightarrow> json list option" where
  "get_array v k = Option.bind (json_get v k) as_array"

definition is_object :: "json \<Rightarrow> bool" where
  "is_object v = (as_object v \<noteq> None)"

definition unwrap_or :: "'a \<Rightarrow> 'a option \<Rightarrow> 'a" where
  "unwrap_or d x = (case x of Some v \<Rightarrow> v | None \<Rightarrow> d)"

definition json_opt :: "('a \<Rightarrow> json) \<Rightarrow> 'a option \<Rightarrow> json" where
  "json_opt f x = (case x of Some v \<Rightarrow> f v | None \<Rightarrow> JNull)"

definition insert_some :: "string \<Rightarrow> ('a \<Rightarrow> json) \<Rightarrow> 'a option \<Rightarrow> json_map \<Rightarrow> json_map" where
  "insert_some k f x m = (case x of Some v \<Rightarrow> map_insert k (f v) m | None \<Rightarrow> m)"

definition extend_fields :: "json_map \<Rightarrow> json_map \<Rightarrow> json_map" where
  "extend_fields extra m = fold (\<lambda>(k, v). map_insert k v) extra m"

text \<open>\<open>Iterator::collect\<close> into a \<open>Result\<close>: the first error ends it.\<close>

fun collect_results :: "('a \<Rightarrow> 'e + 'b) \<Rightarrow> 'a list \<Rightarrow> 'e + 'b list" where
  "collect_results f [] = Inr []"
| "collect_results f (x # xs) = rbind (f x) (\<lambda>y. rbind (collect_results f xs) (\<lambda>ys. Inr (y # ys)))"

lemma collect_results_cong [fundef_cong]:
  "xs = ys \<Longrightarrow> (\<And>x. x \<in> set ys \<Longrightarrow> f x = g x) \<Longrightarrow> collect_results f xs = collect_results g ys"
  by (induction xs arbitrary: ys) (auto intro: rbind_cong)

lemma collect_results_map: "(\<And>x. x \<in> set xs \<Longrightarrow> f x = Inr (g x)) \<Longrightarrow> collect_results f xs = Inr (map g xs)"
  by (induction xs) auto

lemma collect_results_Inr: "collect_results f xs = Inr ys \<longleftrightarrow> list_all2 (\<lambda>x y. f x = Inr y) xs ys"
  by (induction xs arbitrary: ys) (auto simp: rbind_eq_Inr list_all2_Cons1)

lemma map_of_json_map_of: "map_of (json_map_of kvs) k = map_of (rev kvs) k"
proof -
  have "map_of (fold (\<lambda>(k, v). map_insert k v) kvs m) k = (case map_of (rev kvs) k of Some v \<Rightarrow> Some v | None \<Rightarrow> map_of m k)" for m
    by (induction kvs arbitrary: m) (auto simp: map_of_insert split: option.splits)
  then show ?thesis by (simp add: json_map_of_def split: option.splits)
qed

lemma json_get_obj [simp]: "json_get (json_obj kvs) k = map_of (rev kvs) k"
  by (simp add: json_get_def json_obj_def map_of_json_map_of)

lemma json_get_JObject [simp]: "json_get (JObject m) k = map_of m k"
  by (simp add: json_get_def)

lemma json_get_other [simp]:
  "json_get JNull k = None" "json_get (JBool b) k = None" "json_get (JNumber n) k = None" "json_get (JString s) k = None"
  "json_get (JArray vs) k = None"
  by (simp_all add: json_get_def)

lemma is_object_obj [simp]: "is_object (json_obj kvs)" "is_object (JObject m)"
  by (simp_all add: is_object_def json_obj_def)

lemma unwrap_or_simps [simp]: "unwrap_or d None = d" "unwrap_or d (Some v) = v"
  by (simp_all add: unwrap_or_def)

lemma json_opt_simps [simp]: "json_opt f None = JNull" "json_opt f (Some v) = f v"
  by (simp_all add: json_opt_def)

lemma insert_some_simps [simp]: "insert_some k f None m = m" "insert_some k f (Some v) m = map_insert k (f v) m"
  by (simp_all add: insert_some_def)

lemma json_get_size: "json_get v k = Some x \<Longrightarrow> size x < size v"
proof (cases v)
  case (JObject m)
  assume "json_get v k = Some x"
  then have "(k, x) \<in> set m" using JObject by (auto dest: map_of_SomeD)
  then have "size_prod (\<lambda>_. 0) size (k, x) \<le> size_list (size_prod (\<lambda>_. 0) size) m"
    by (rule size_list_estimation') simp
  then show ?thesis using JObject by simp
qed simp_all

lemma array_size: "x \<in> set vs \<Longrightarrow> size x < size (JArray vs)"
  using size_list_estimation' [of x vs "size x" size] by simp

section \<open>The canonical model\<close>

datatype Role = System | Developer | User | Assistant | Tool

fun Role_as_str :: "Role \<Rightarrow> string" where
  "Role_as_str System = ''system''"
| "Role_as_str Developer = ''developer''"
| "Role_as_str User = ''user''"
| "Role_as_str Assistant = ''assistant''"
| "Role_as_str Tool = ''tool''"

datatype DocumentSource = DocUrl string | DocBase64 string string | DocText string

datatype ContentBlock =
    TextBlock string
  | Thinking string "string option" json_map
  | RedactedThinking string json_map
  | Image string "string option"
  | Document DocumentSource "string option"
  | GeneratedImage string string
  | ToolCall string string json
  | ToolResult string "ContentBlock list"
  | Reasoning string

record Message =
  msg_role :: Role
  msg_content :: "ContentBlock list"
  msg_name :: "string option"

record ToolDef =
  tool_name :: string
  tool_description :: "string option"
  tool_parameters :: json

record CanonicalRequest =
  source_protocol :: Protocol
  canonical_model :: string
  canonical_messages :: "Message list"
  canonical_tools :: "ToolDef list"
  tool_choice :: "json option"
  temperature :: "64 word option"
  top_p :: "64 word option"
  max_tokens :: "nat option"
  stop_sequences :: "string list"
  canonical_stream :: bool
  metadata :: json_map
  output_styles_applied :: bool

type_synonym canonical = CanonicalRequest

record Usage =
  input_tokens :: nat
  output_tokens :: nat
  cached_tokens :: nat
  cost_micro_usd :: "int option"
  cache_input_tokens :: nat

record CanonicalResponse =
  rsp_id :: string
  rsp_model :: string
  rsp_message :: Message
  finish_reason :: string
  rsp_usage :: "Usage option"

abbreviation tool_calls_of :: "ContentBlock list \<Rightarrow> ContentBlock list" where
  "tool_calls_of bs \<equiv> filter (\<lambda>b. case b of ToolCall _ _ _ \<Rightarrow> True | _ \<Rightarrow> False) bs"

fun text_of_block :: "ContentBlock \<Rightarrow> string option" where
  "text_of_block (TextBlock t) = Some t"
| "text_of_block _ = None"

definition block_texts :: "ContentBlock list \<Rightarrow> string list" where
  "block_texts bs = List.map_filter text_of_block bs"

definition is_thinking :: "ContentBlock \<Rightarrow> bool" where
  "is_thinking b = (case b of Thinking _ _ _ \<Rightarrow> True | RedactedThinking _ _ \<Rightarrow> True | _ \<Rightarrow> False)"

end
