(* ===== verification/ProtocolParse.thy ===== *)
theory ProtocolParse
  imports ProtocolModel
begin

text \<open>
  Parsing the parts of a request or response (\<^verbatim>\<open>src/protocol/parse.rs\<close> and the parsers of
  \<^verbatim>\<open>src/protocol/thinking.rs\<close>): content blocks, tools, numbers, roles and token counts.
\<close>

section \<open>Media\<close>

definition parse_data_uri :: "string \<Rightarrow> (string \<times> string) option" where
  "parse_data_uri v =
     Option.bind (strip_prefix ''data:'' v) (\<lambda>rest.
     Option.bind (split_once (CHR '','') rest) (\<lambda>(header, data).
     Option.bind (strip_suffix '';base64'' header) (\<lambda>media_type.
       if media_type = [] then None else Some (media_type, data))))"

definition decode_base64 :: "codecs \<Rightarrow> string \<Rightarrow> nat list option" where
  "decode_base64 cd v = option_or (b64_standard cd v) (b64_standard_no_pad cd v)"

definition validate_image_url :: "codecs \<Rightarrow> string \<Rightarrow> string + string" where
  "validate_image_url cd v =
     (if trim v = [] then Inl ''image URL cannot be empty''
      else if starts_with ''data:'' v then
        rbind (ok_or ''image data URI must use base64 encoding'' (parse_data_uri v)) (\<lambda>(_, data).
          if data = [] \<or> decode_base64 cd data = None then Inl ''image data URI contains invalid base64 data''
          else Inr v)
      else Inr v)"

definition file_id_error :: "string + 'a" where
  "file_id_error = Inl ''provider-scoped image file_id references are unsupported; use a URL or data URI''"

definition parse_responses_file :: "codecs \<Rightarrow> json \<Rightarrow> string + ContentBlock" where
  "parse_responses_file cd part =
     (let filename = get_str part ''filename'' in
      if json_get part ''file_id'' \<noteq> None then
        Inl ''provider-scoped document file_id references are unsupported; use file_url or file_data''
      else if json_get part ''file_url'' \<noteq> None \<and> json_get part ''file_data'' \<noteq> None then
        Inl ''input_file must provide exactly one of file_url or file_data''
      else case get_str part ''file_url'' of
        Some url \<Rightarrow>
          if trim url = [] then Inl ''input_file file_url cannot be empty''
          else Inr (Document (DocUrl url) filename)
      | None \<Rightarrow>
          (case get_str part ''file_data'' of
             None \<Rightarrow> Inl ''input_file requires file_url or file_data; file_id references are unsupported''
           | Some data \<Rightarrow>
               if data = [] then Inl ''input_file file_data cannot be empty''
               else
                 rbind (if starts_with ''data:'' data
                        then ok_or ''input_file file_data must be a base64 data URI'' (parse_data_uri data)
                        else Inr (unwrap_or ''application/pdf'' (Option.bind filename (mime_from_path cd)), data))
                   (\<lambda>(media_type, encoded).
                 rbind (ok_or ''input_file file_data is not valid base64'' (decode_base64 cd encoded)) (\<lambda>decoded.
                   if starts_with ''text/'' media_type then
                     case from_utf8 decoded of
                       Some t \<Rightarrow> Inr (Document (DocText t) filename)
                     | None \<Rightarrow> Inr (Document (DocBase64 media_type encoded) filename)
                   else Inr (Document (DocBase64 media_type encoded) filename)))))"

definition parse_anthropic_document :: "codecs \<Rightarrow> json \<Rightarrow> string + ContentBlock" where
  "parse_anthropic_document cd part =
     rbind (ok_or ''document block is missing source'' (json_get part ''source'')) (\<lambda>source.
     let filename = get_str part ''title''; kind = unwrap_or [] (get_str source ''type'') in
     if kind = ''url'' then
       (case get_str source ''url'' of
          Some url \<Rightarrow> if trim url = [] then Inl ''document URL source is missing url'' else Inr (Document (DocUrl url) filename)
        | None \<Rightarrow> Inl ''document URL source is missing url'')
     else if kind = ''base64'' then
       rbind (ok_or ''base64 document source is missing media_type'' (get_str source ''media_type'')) (\<lambda>media_type.
       rbind (ok_or ''base64 document source is missing data'' (get_str source ''data'')) (\<lambda>data.
         if data = [] \<or> decode_base64 cd data = None then Inl ''base64 document source contains invalid base64 data''
         else Inr (Document (DocBase64 media_type data) filename)))
     else if kind = ''text'' then
       rbind (ok_or ''text document source is missing media_type'' (get_str source ''media_type'')) (\<lambda>media_type.
         if media_type \<noteq> ''text/plain'' then Inl ''inline text document source must use media_type text/plain''
         else
           rbind (ok_or ''text document source is missing data'' (get_str source ''data'')) (\<lambda>t.
             Inr (Document (DocText t) filename)))
     else if kind = ''file'' then
       Inl ''Anthropic provider-scoped document source.type=file references are unsupported; use URL, base64, or text''
     else Inl (''unsupported document source type: '' @ kind))"

section \<open>Content blocks\<close>

definition other_fields :: "string list \<Rightarrow> json \<Rightarrow> json_map" where
  "other_fields ks v = (case as_object v of Some m \<Rightarrow> filter (\<lambda>(k, _). k \<notin> set ks) m | None \<Rightarrow> [])"

definition parse_thinking_part :: "json \<Rightarrow> string + ContentBlock" where
  "parse_thinking_part part =
     rbind (ok_or ''thinking block is missing its thinking text'' (get_str part ''thinking'')) (\<lambda>thinking.
     rbind (case json_get part ''signature'' of
              None \<Rightarrow> Inr None
            | Some JNull \<Rightarrow> Inr None
            | Some (JString s) \<Rightarrow> Inr (Some s)
            | Some _ \<Rightarrow> Inl ''thinking block signature must be a string'') (\<lambda>signature.
       Inr (Thinking thinking signature (other_fields [''type'', ''thinking'', ''signature''] part))))"

definition parse_image_url_part :: "codecs \<Rightarrow> json \<Rightarrow> string + ContentBlock" where
  "parse_image_url_part cd part =
     rbind (ok_or ''image_url block is missing image_url'' (json_get part ''image_url'')) (\<lambda>image.
       if json_get part ''file_id'' \<noteq> None \<or> json_get image ''file_id'' \<noteq> None then file_id_error
       else
         rbind (ok_or ''image_url must contain a URL or data URI''
                  (Option.bind (option_or (json_get image ''url'') (map_option (\<lambda>_. image) (as_str image))) as_str)) (\<lambda>url.
         rbind (validate_image_url cd url) (\<lambda>url.
           Inr (Image url (Option.bind (option_or (json_get image ''detail'') (json_get part ''detail'')) as_str)))))"

definition parse_input_image_part :: "codecs \<Rightarrow> json \<Rightarrow> string + ContentBlock" where
  "parse_input_image_part cd part =
     (if json_get part ''file_id'' \<noteq> None then file_id_error
      else
        rbind (ok_or ''input_image is missing image_url'' (json_get part ''image_url'')) (\<lambda>image.
          if json_get image ''file_id'' \<noteq> None then file_id_error
          else
            rbind (ok_or ''input_image image_url must be a URL or data URI''
                     (option_or (as_str image) (get_str image ''url''))) (\<lambda>url.
            rbind (validate_image_url cd url) (\<lambda>url.
              Inr (Image url (get_str part ''detail''))))))"

definition parse_image_part :: "codecs \<Rightarrow> json \<Rightarrow> string + ContentBlock" where
  "parse_image_part cd part =
     rbind (ok_or ''image block is missing source'' (json_get part ''source'')) (\<lambda>source.
     let kind = unwrap_or [] (get_str source ''type'') in
     if kind = ''url'' then
       rbind (ok_or ''image URL source is missing url'' (get_str source ''url'')) (\<lambda>url.
       rbind (validate_image_url cd url) (\<lambda>url. Inr (Image url None)))
     else if kind = ''base64'' then
       rbind (ok_or ''base64 image source is missing media_type'' (get_str source ''media_type'')) (\<lambda>media_type.
       rbind (ok_or ''base64 image source is missing data'' (get_str source ''data'')) (\<lambda>data.
       rbind (validate_image_url cd (''data:'' @ media_type @ '';base64,'' @ data)) (\<lambda>url. Inr (Image url None))))
     else if kind = ''file'' then
       Inl ''Anthropic provider-scoped image source.type=file is unsupported; use a URL or base64 source''
     else Inl (''unsupported image source type: '' @ kind))"

text \<open>Arguments given as a string are parsed when they are JSON.\<close>

definition parse_arguments :: "codecs \<Rightarrow> json \<Rightarrow> json" where
  "parse_arguments cd v = (case v of JString s \<Rightarrow> unwrap_or (JString s) (json_from_str cd s) | _ \<Rightarrow> v)"

definition parse_tool_use_part :: "codecs \<Rightarrow> json \<Rightarrow> ContentBlock" where
  "parse_tool_use_part cd part =
     ToolCall
       (unwrap_or ''call'' (Option.bind (option_or (json_get part ''id'') (json_get part ''call_id'')) as_str))
       (unwrap_or [] (get_str part ''name''))
       (parse_arguments cd (unwrap_or (json_obj []) (option_or (json_get part ''input'') (json_get part ''arguments''))))"

text \<open>\<open>parse_content\<close> on a value that is there, and \<open>parse_content_part\<close>.\<close>

function (sequential) parse_value :: "codecs \<Rightarrow> json \<Rightarrow> string + ContentBlock list"
  and parse_content_part :: "codecs \<Rightarrow> json \<Rightarrow> string + ContentBlock" where
  "parse_value cd (JString t) = Inr [TextBlock t]"
| "parse_value cd (JArray parts) = collect_results (parse_content_part cd) parts"
| "parse_value cd (JObject m) =
     (if map_of m ''type'' \<noteq> None then rbind (parse_content_part cd (JObject m)) (\<lambda>b. Inr [b])
      else case get_str (JObject m) ''text'' of Some t \<Rightarrow> Inr [TextBlock t] | None \<Rightarrow> Inr [])"
| "parse_value cd v = Inr []"
| "parse_content_part cd part =
     (let kind = unwrap_or [] (get_str part ''type'') in
      if kind \<in> {''text'', ''input_text'', ''output_text''} then Inr (TextBlock (unwrap_or [] (get_str part ''text'')))
      else if kind = ''thinking'' then parse_thinking_part part
      else if kind = ''redacted_thinking'' then
        rbind (ok_or ''redacted thinking block is missing its data'' (get_str part ''data'')) (\<lambda>data.
          Inr (RedactedThinking data (other_fields [''type'', ''data''] part)))
      else if kind = ''image_url'' then parse_image_url_part cd part
      else if kind = ''input_image'' then parse_input_image_part cd part
      else if kind = ''image'' then parse_image_part cd part
      else if kind = ''input_file'' then parse_responses_file cd part
      else if kind = ''document'' then parse_anthropic_document cd part
      else if kind \<in> {''tool_use'', ''function_call''} then Inr (parse_tool_use_part cd part)
      else if kind \<in> {''tool_result'', ''function_call_output''} then
        rbind (case json_get part ''content'' of
                 Some v \<Rightarrow> parse_value cd v
               | None \<Rightarrow> (case json_get part ''output'' of Some v \<Rightarrow> parse_value cd v | None \<Rightarrow> Inr [])) (\<lambda>content.
          Inr (ToolResult
            (unwrap_or [] (Option.bind (option_or (json_get part ''tool_use_id'') (json_get part ''call_id'')) as_str)) content))
      else Inl (''unsupported content block type: '' @ kind))"
  by pat_completeness auto
termination
  by (relation "measure (\<lambda>x. case x of Inl (_, v) \<Rightarrow> 2 * size v + 1 | Inr (_, v) \<Rightarrow> 2 * size v)")
    (auto dest!: json_get_size array_size)

definition parse_content :: "codecs \<Rightarrow> json option \<Rightarrow> string + ContentBlock list" where
  "parse_content cd v = (case v of Some v \<Rightarrow> parse_value cd v | None \<Rightarrow> Inr [])"

section \<open>Reasoning\<close>

definition MAX_REASONING_CONTENT_BYTES :: nat where "MAX_REASONING_CONTENT_BYTES = 4 * 1024 * 1024"

definition parse_reasoning_content :: "json option \<Rightarrow> string + string option" where
  "parse_reasoning_content v =
     (case v of
        None \<Rightarrow> Inr None
      | Some JNull \<Rightarrow> Inr None
      | Some (JString t) \<Rightarrow>
          if MAX_REASONING_CONTENT_BYTES < str_len t then Inl ''reasoning_content exceeds the 4 MiB limit''
          else if t = [] then Inr None else Inr (Some t)
      | Some _ \<Rightarrow> Inl ''reasoning_content must be a string'')"

fun reasoning_parts :: "json list \<Rightarrow> string + ContentBlock list" where
  "reasoning_parts [] = Inr []"
| "reasoning_parts (part # parts) =
     (if get_str part ''type'' \<in> {Some ''reasoning_text'', Some ''summary_text''} then
        rbind (parse_reasoning_content (json_get part ''text'')) (\<lambda>t.
        rbind (reasoning_parts parts) (\<lambda>rest.
          Inr (case t of Some t \<Rightarrow> Reasoning t # rest | None \<Rightarrow> rest)))
      else reasoning_parts parts)"

definition parse_responses_reasoning_item :: "json \<Rightarrow> string + ContentBlock list" where
  "parse_responses_reasoning_item item =
     rbind (reasoning_parts (unwrap_or [] (get_array item ''content''))) (\<lambda>a.
     rbind (reasoning_parts (unwrap_or [] (get_array item ''summary''))) (\<lambda>b. Inr (a @ b)))"

section \<open>Fields\<close>

definition parse_role :: "string \<Rightarrow> string + Role" where
  "parse_role v =
     (if v = ''system'' then Inr System else if v = ''developer'' then Inr Developer else if v = ''user'' then Inr User
      else if v = ''assistant'' then Inr Assistant else if v = ''tool'' then Inr Tool
      else Inl (''unsupported message role: '' @ v))"

definition string_field :: "json \<Rightarrow> string \<Rightarrow> string + string" where
  "string_field v key =
     (case get_str v key of
        Some s \<Rightarrow>
          if trim s = [] then Inl (key @ '' is required'')
          else if 256 < str_len s then Inl (key @ '' exceeds the 256-byte limit'') else Inr s
      | None \<Rightarrow> Inl (key @ '' is required''))"

definition not_null :: "json option \<Rightarrow> json option" where
  "not_null v = (if v = Some JNull then None else v)"

text \<open>The bounds are the integral singles the callers pass.\<close>

definition optional_f32 :: "json option \<Rightarrow> string \<Rightarrow> nat \<Rightarrow> nat \<Rightarrow> string + 64 word option" where
  "optional_f32 v name minimum maximum =
     (case not_null v of
        None \<Rightarrow> Inr None
      | Some v \<Rightarrow>
          rbind (ok_or (name @ '' must be a number'') (as_f64 v)) (\<lambda>x.
            let number = f32_of_f64 x in
            if \<not> f64_finite number \<or> \<not> f64_between (int minimum) (int maximum) number
            then Inl (name @ '' must be between '' @ show_nat minimum @ '' and '' @ show_nat maximum)
            else Inr (Some number)))"

definition optional_u32 :: "json option \<Rightarrow> string \<Rightarrow> string + nat option" where
  "optional_u32 v name =
     (case not_null v of
        None \<Rightarrow> Inr None
      | Some v \<Rightarrow>
          rbind (ok_or (name @ '' must be a non-negative integer'') (as_u64 v)) (\<lambda>n.
            if n \<le> u32_max then Inr (Some n) else Inl (name @ '' exceeds the supported maximum'')))"

definition optional_bool :: "json option \<Rightarrow> string \<Rightarrow> string + bool option" where
  "optional_bool v name =
     (case not_null v of
        None \<Rightarrow> Inr None
      | Some v \<Rightarrow> rbind (ok_or (name @ '' must be a boolean'') (as_bool v)) (\<lambda>b. Inr (Some b)))"

definition parse_string_list :: "json option \<Rightarrow> string list" where
  "parse_string_list v =
     (case v of
        Some (JString s) \<Rightarrow> [s]
      | Some (JArray a) \<Rightarrow> List.map_filter as_str a
      | _ \<Rightarrow> [])"

section \<open>Tools\<close>

definition MAX_TOOLS_PER_REQUEST :: nat where "MAX_TOOLS_PER_REQUEST = 128"

definition tool_list :: "json option \<Rightarrow> string + json list" where
  "tool_list v =
     (case v of
        None \<Rightarrow> Inr []
      | Some JNull \<Rightarrow> Inr []
      | Some (JArray tools) \<Rightarrow>
          if length tools \<le> MAX_TOOLS_PER_REQUEST then Inr tools
          else Inl (''a request may define at most '' @ show_nat MAX_TOOLS_PER_REQUEST @ '' tools'')
      | Some _ \<Rightarrow> Inl ''tools must be an array'')"

text \<open>The common part of the three tool parsers: the object that has the name and the field of the schema.\<close>

definition parse_tool :: "string \<Rightarrow> json \<Rightarrow> string + ToolDef" where
  "parse_tool schema_key v =
     rbind (string_field v ''name'') (\<lambda>name.
     let parameters = unwrap_or (json_obj [(''type'', JString ''object'')]) (json_get v schema_key) in
       if \<not> is_object parameters
       then Inl (''tool '' @ quoted name @ '' '' @ schema_key @ '' must be a JSON object'')
       else Inr \<lparr>tool_name = name, tool_description = get_str v ''description'', tool_parameters = parameters\<rparr>)"

definition parse_chat_tools :: "json option \<Rightarrow> string + ToolDef list" where
  "parse_chat_tools v =
     rbind (tool_list v) (collect_results (\<lambda>t. parse_tool ''parameters'' (unwrap_or t (json_get t ''function''))))"

definition parse_response_tools :: "json option \<Rightarrow> string + ToolDef list" where
  "parse_response_tools v =
     rbind (tool_list v) (collect_results (\<lambda>t.
       if get_str t ''type'' \<noteq> Some ''function'' then Inl ''only Responses function tools can be translated''
       else parse_tool ''parameters'' t))"

definition parse_messages_tools :: "json option \<Rightarrow> string + ToolDef list" where
  "parse_messages_tools v = rbind (tool_list v) (collect_results (parse_tool ''input_schema''))"

datatype CanonicalToolChoice = ChoiceAuto | ChoiceNone | ChoiceRequired | Named string

definition choice_of_kind :: "string \<Rightarrow> CanonicalToolChoice option" where
  "choice_of_kind k =
     (if k = ''auto'' then Some ChoiceAuto else if k = ''none'' then Some ChoiceNone
      else if k \<in> {''required'', ''any''} then Some ChoiceRequired else None)"

definition choice_name :: "string \<Rightarrow> json option \<Rightarrow> string + CanonicalToolChoice" where
  "choice_name kind name =
     (case Option.bind name as_str of
        Some n \<Rightarrow>
          if trim n \<noteq> [] \<and> str_len n \<le> 256 then Inr (Named n)
          else Inl (kind @ '' tool_choice requires a name of at most 256 bytes'')
      | None \<Rightarrow> Inl (kind @ '' tool_choice requires a name of at most 256 bytes''))"

definition parse_tool_choice :: "json \<Rightarrow> string + CanonicalToolChoice" where
  "parse_tool_choice v =
     (case as_str v of
        Some s \<Rightarrow> ok_or ''unsupported tool_choice value'' (choice_of_kind s)
      | None \<Rightarrow>
          rbind (ok_or ''tool_choice must be a supported string or object'' (get_str v ''type'')) (\<lambda>kind.
            case choice_of_kind kind of
              Some c \<Rightarrow> Inr c
            | None \<Rightarrow>
                if kind = ''function'' then
                  choice_name ''function''
                    (option_or (Option.bind (json_get v ''function'') (\<lambda>f. json_get f ''name'')) (json_get v ''name''))
                else if kind = ''tool'' then choice_name ''tool'' (json_get v ''name'')
                else Inl ''unsupported tool_choice object''))"

section \<open>Token counts\<close>

definition parse_cached_input_tokens :: "json \<Rightarrow> nat option" where
  "parse_cached_input_tokens v =
     Option.bind
       (option_or (Option.bind (json_get v ''prompt_tokens_details'') (\<lambda>d. json_get d ''cached_tokens''))
       (option_or (Option.bind (json_get v ''input_tokens_details'') (\<lambda>d. json_get d ''cached_tokens''))
       (option_or (json_get v ''cache_read_input_tokens'')
       (option_or (json_get v ''cachedContentTokenCount'') (json_get v ''cached_tokens''))))) as_u64"

definition get_u64 :: "json \<Rightarrow> string \<Rightarrow> nat option" where
  "get_u64 v k = Option.bind (json_get v k) as_u64"

definition cache_input_token_total :: "json \<Rightarrow> string \<Rightarrow> nat \<Rightarrow> nat" where
  "cache_input_token_total v input_key n =
     (if input_key \<noteq> ''input_tokens'' then n
      else sat_add u64_max (sat_add u64_max n (unwrap_or 0 (get_u64 v ''cache_read_input_tokens'')))
             (unwrap_or 0 (get_u64 v ''cache_creation_input_tokens'')))"

definition inclusive_input_tokens :: "nat \<Rightarrow> nat \<Rightarrow> nat" where
  "inclusive_input_tokens inp cache_input = max cache_input inp"

definition uncached_input_tokens :: "nat \<Rightarrow> nat \<Rightarrow> nat \<Rightarrow> nat" where
  "uncached_input_tokens inp cache_input cached = inclusive_input_tokens inp cache_input - cached"

definition parse_cost_micro_usd :: "json \<Rightarrow> int option" where
  "parse_cost_micro_usd v =
     Option.bind (as_f64 v) (\<lambda>amount.
       if \<not> f64_finite amount \<or> f64_negative amount \<and> fst (f64_parts amount) \<noteq> 0 then None
       else
         let micros = f64_mul_nat amount 1000000 in
         if \<not> f64_finite micros \<or> 2 ^ 63 < f64_round micros then None
         else Some (int (min (f64_round micros) (2 ^ 63 - 1))))"

definition parse_usage :: "json option \<Rightarrow> string \<Rightarrow> string \<Rightarrow> Usage option" where
  "parse_usage v input_key output_key =
     Option.bind v (\<lambda>v.
     Option.bind (get_u64 v input_key) (\<lambda>inp.
     Option.bind (get_u64 v output_key) (\<lambda>outp.
       Some \<lparr>input_tokens = inp, output_tokens = outp, cached_tokens = unwrap_or 0 (parse_cached_input_tokens v),
             cost_micro_usd = Option.bind (json_get v ''cost'') parse_cost_micro_usd,
             cache_input_tokens = cache_input_token_total v input_key inp\<rparr>)))"

end
