(* ===== verification/RequestDecoding.thy ===== *)
theory RequestDecoding
  imports ProtocolParse
begin

text \<open>
  Decoding the body of a client request into the canonical request (\<^verbatim>\<open>src/protocol/request_decoding.rs\<close>).
\<close>

section \<open>Chat Completions\<close>

definition chat_tool_call :: "codecs \<Rightarrow> json \<Rightarrow> ContentBlock" where
  "chat_tool_call cd call =
     (let f = unwrap_or call (json_get call ''function'') in
      ToolCall (unwrap_or ''call'' (get_str call ''id'')) (unwrap_or [] (get_str f ''name''))
        (parse_arguments cd (unwrap_or (json_obj []) (json_get f ''arguments''))))"

definition decode_chat_message :: "codecs \<Rightarrow> json \<Rightarrow> string + Message" where
  "decode_chat_message cd raw =
     rbind (ok_or ''message role is required'' (get_str raw ''role'')) (\<lambda>r.
     rbind (parse_role r) (\<lambda>role.
     rbind (if role = Assistant then parse_reasoning_content (json_get raw ''reasoning_content'') else Inr None) (\<lambda>reasoning.
     rbind (parse_content cd (json_get raw ''content'')) (\<lambda>parsed.
     let content = (case reasoning of Some t \<Rightarrow> [Reasoning t] | None \<Rightarrow> []) @ parsed
           @ map (chat_tool_call cd) (unwrap_or [] (get_array raw ''tool_calls''))
     in Inr \<lparr>msg_role = role,
             msg_content =
               (if role = Tool then [ToolResult (unwrap_or [] (get_str raw ''tool_call_id'')) content] else content),
             msg_name = get_str raw ''name''\<rparr>))))"

definition chat_options :: "string list" where
  "chat_options =
     [''model'', ''messages'', ''tools'', ''tool_choice'', ''temperature'', ''top_p'', ''max_tokens'',
      ''max_completion_tokens'', ''stop'', ''stream'']"

definition decode_chat_request :: "codecs \<Rightarrow> json \<Rightarrow> string + CanonicalRequest" where
  "decode_chat_request cd body =
     rbind (string_field body ''model'') (\<lambda>model.
     rbind (ok_or ''messages must be an array'' (get_array body ''messages'')) (\<lambda>raw.
     rbind (collect_results (decode_chat_message cd) raw) (\<lambda>messages.
     rbind (parse_chat_tools (json_get body ''tools'')) (\<lambda>tools.
     rbind (optional_f32 (json_get body ''temperature'') ''temperature'' 0 2) (\<lambda>temp.
     rbind (optional_f32 (json_get body ''top_p'') ''top_p'' 0 1) (\<lambda>p.
     rbind (optional_u32 (option_or (json_get body ''max_tokens'') (json_get body ''max_completion_tokens'')) ''max_tokens'') (\<lambda>n.
     rbind (optional_bool (json_get body ''stream'') ''stream'') (\<lambda>stream.
       Inr \<lparr>source_protocol = ChatCompletions, canonical_model = model, canonical_messages = messages,
            canonical_tools = tools, tool_choice = json_get body ''tool_choice'', temperature = temp, top_p = p,
            max_tokens = n, stop_sequences = parse_string_list (json_get body ''stop''),
            canonical_stream = unwrap_or False stream, metadata = other_fields chat_options body,
            output_styles_applied = False\<rparr>))))))))"

section \<open>Responses\<close>

definition responses_item_role :: "string option \<Rightarrow> string" where
  "responses_item_role item_type =
     (if item_type = Some ''function_call'' then ''assistant''
      else if item_type = Some ''function_call_output'' then ''tool''
      else if item_type = Some ''reasoning'' then ''assistant''
      else ''user'')"

definition responses_item_is_part :: "string option \<Rightarrow> bool" where
  "responses_item_is_part item_type =
     (item_type \<in> Some ` {''function_call'', ''function_call_output'', ''input_text'', ''input_image'', ''input_file''})"

definition decode_responses_item :: "codecs \<Rightarrow> json \<Rightarrow> string + Message" where
  "decode_responses_item cd item =
     (let item_type = get_str item ''type'' in
      rbind (parse_role (unwrap_or (responses_item_role item_type) (get_str item ''role''))) (\<lambda>role.
      rbind (if item_type = Some ''reasoning'' then parse_responses_reasoning_item item
             else parse_content cd (json_get item ''content'')) (\<lambda>content.
      rbind (if responses_item_is_part item_type then parse_content cd (Some (JArray [item])) else Inr []) (\<lambda>extra.
        Inr \<lparr>msg_role = role, msg_content = content @ extra, msg_name = get_str item ''name''\<rparr>))))"

definition text_message :: "Role \<Rightarrow> string \<Rightarrow> Message" where
  "text_message role t = \<lparr>msg_role = role, msg_content = [TextBlock t], msg_name = None\<rparr>"

definition decode_responses_request :: "codecs \<Rightarrow> json \<Rightarrow> string + CanonicalRequest" where
  "decode_responses_request cd body =
     rbind (string_field body ''model'') (\<lambda>model.
     rbind (ok_or ''input is required'' (json_get body ''input'')) (\<lambda>input.
     rbind (case as_str input of
              Some t \<Rightarrow> Inr [text_message User t]
            | None \<Rightarrow>
                (case as_array input of
                   Some items \<Rightarrow> collect_results (decode_responses_item cd) items
                 | None \<Rightarrow> Inl ''input must be a string or array'')) (\<lambda>messages.
     rbind (parse_response_tools (json_get body ''tools'')) (\<lambda>tools.
     rbind (optional_f32 (json_get body ''temperature'') ''temperature'' 0 2) (\<lambda>temp.
     rbind (optional_f32 (json_get body ''top_p'') ''top_p'' 0 1) (\<lambda>p.
     rbind (optional_u32 (json_get body ''max_output_tokens'') ''max_output_tokens'') (\<lambda>n.
     rbind (optional_bool (json_get body ''stream'') ''stream'') (\<lambda>stream.
       Inr \<lparr>source_protocol = Responses, canonical_model = model,
            canonical_messages =
              (case get_str body ''instructions'' of Some t \<Rightarrow> [text_message System t] | None \<Rightarrow> []) @ messages,
            canonical_tools = tools, tool_choice = json_get body ''tool_choice'', temperature = temp, top_p = p,
            max_tokens = n, stop_sequences = [], canonical_stream = unwrap_or False stream, metadata = [],
            output_styles_applied = False\<rparr>))))))))"

section \<open>Messages\<close>

definition thinking_misplaced :: "string + 'a" where
  "thinking_misplaced = Inl ''thinking blocks are only valid in assistant messages''"

definition decode_messages_message :: "codecs \<Rightarrow> json \<Rightarrow> string + Message" where
  "decode_messages_message cd raw =
     rbind (ok_or ''message role is required'' (get_str raw ''role'')) (\<lambda>r.
     rbind (parse_role r) (\<lambda>role.
     rbind (parse_content cd (json_get raw ''content'')) (\<lambda>content.
       if role \<noteq> Assistant \<and> list_ex is_thinking content then thinking_misplaced
       else Inr \<lparr>msg_role = role, msg_content = content, msg_name = None\<rparr>)))"

definition decode_messages_system :: "codecs \<Rightarrow> json \<Rightarrow> string + Message list" where
  "decode_messages_system cd body =
     (case json_get body ''system'' of
        None \<Rightarrow> Inr []
      | Some v \<Rightarrow>
          rbind (parse_content cd (Some v)) (\<lambda>content.
            if list_ex is_thinking content then thinking_misplaced
            else Inr [\<lparr>msg_role = System, msg_content = content, msg_name = None\<rparr>]))"

definition decode_messages_request :: "codecs \<Rightarrow> json \<Rightarrow> string + CanonicalRequest" where
  "decode_messages_request cd body =
     rbind (string_field body ''model'') (\<lambda>model.
     rbind (decode_messages_system cd body) (\<lambda>system.
     rbind (ok_or ''messages must be an array'' (get_array body ''messages'')) (\<lambda>raw.
     rbind (collect_results (decode_messages_message cd) raw) (\<lambda>messages.
     rbind (parse_messages_tools (json_get body ''tools'')) (\<lambda>tools.
     rbind (optional_f32 (json_get body ''temperature'') ''temperature'' 0 2) (\<lambda>temp.
     rbind (optional_f32 (json_get body ''top_p'') ''top_p'' 0 1) (\<lambda>p.
     rbind (optional_u32 (json_get body ''max_tokens'') ''max_tokens'') (\<lambda>n.
     rbind (optional_bool (json_get body ''stream'') ''stream'') (\<lambda>stream.
       Inr \<lparr>source_protocol = Messages, canonical_model = model, canonical_messages = system @ messages,
            canonical_tools = tools, tool_choice = json_get body ''tool_choice'', temperature = temp, top_p = p,
            max_tokens = n, stop_sequences = parse_string_list (json_get body ''stop_sequences''),
            canonical_stream = unwrap_or False stream, metadata = [], output_styles_applied = False\<rparr>)))))))))"

fun decode_request :: "codecs \<Rightarrow> Protocol \<Rightarrow> json \<Rightarrow> string + CanonicalRequest" where
  "decode_request cd ChatCompletions body = decode_chat_request cd body"
| "decode_request cd Responses body = decode_responses_request cd body"
| "decode_request cd Messages body = decode_messages_request cd body"

end
