(* ===== verification/OutputStyles.thy ===== *)
theory OutputStyles
  imports ProtocolModel
begin

text \<open>
  Output styles (\<^verbatim>\<open>src/support/output_styles/\<close>): the catalogue of styles, the classifier that decides when they must
  not be injected, the instruction and its injection into the canonical request. The prompt texts of the catalogue
  use characters outside the alphabet of \<open>string\<close> (an arrow and a dash), so the table of texts is the argument
  \<open>texts\<close> of the definitions that read it.
\<close>

section \<open>Catalogue\<close>

definition MAX_STYLE_SELECTIONS :: nat where "MAX_STYLE_SELECTIONS = 3"
definition MAX_STYLES_PAYLOAD_BYTES :: nat where "MAX_STYLES_PAYLOAD_BYTES = 4 * 1024"
definition MAX_INSTRUCTION_BYTES :: nat where "MAX_INSTRUCTION_BYTES = 16 * 1024"

definition OUTPUT_STYLE_MARKER :: string where
  "OUTPUT_STYLE_MARKER = ''[ExoRoute Output Styles]''"

definition SHARED_BOUNDARIES :: string where
  "SHARED_BOUNDARIES =
     ''Code blocks, file paths, commands, errors, URLs: keep exact. Security warnings, irreversible action confirmations, multi-step ordered sequences: write normal. Resume terse style after. Active every response until user asks for normal mode.''"

datatype OutputStyleId = TerseProse | LessCode | Ponytail

definition OutputStyleId_ALL :: "OutputStyleId list" where
  "OutputStyleId_ALL = [TerseProse, LessCode, Ponytail]"

fun style_id_str :: "OutputStyleId \<Rightarrow> string" where
  "style_id_str TerseProse = ''terse-prose''"
| "style_id_str LessCode = ''less-code''"
| "style_id_str Ponytail = ''ponytail''"

definition parse_style_id :: "string \<Rightarrow> string + OutputStyleId" where
  "parse_style_id v =
     (if v = ''terse-prose'' then Inr TerseProse else if v = ''less-code'' then Inr LessCode
      else if v = ''ponytail'' then Inr Ponytail else Inl (''unknown output style '' @ quoted v))"

fun style_index :: "OutputStyleId \<Rightarrow> nat" where
  "style_index TerseProse = 0"
| "style_index LessCode = 1"
| "style_index Ponytail = 2"

datatype OutputStyleLevel = Lite | Full | Ultra

fun style_level_str :: "OutputStyleLevel \<Rightarrow> string" where
  "style_level_str Lite = ''lite''"
| "style_level_str Full = ''full''"
| "style_level_str Ultra = ''ultra''"

definition parse_style_level :: "string \<Rightarrow> string + OutputStyleLevel" where
  "parse_style_level v =
     (if v = ''lite'' then Inr Lite else if v = ''full'' then Inr Full else if v = ''ultra'' then Inr Ultra
      else Inl (''unknown output style level '' @ quoted v))"

record OutputStyleSelection =
  style_id :: OutputStyleId
  style_level :: OutputStyleLevel

type_synonym style_texts = "OutputStyleId \<Rightarrow> OutputStyleLevel \<Rightarrow> string"

text \<open>The array indexed by the styles, filled in the order of the selection.\<close>

fun select_styles ::
  "OutputStyleSelection list \<Rightarrow> OutputStyleLevel option list \<Rightarrow> string + OutputStyleLevel option list" where
  "select_styles [] selected = Inr selected"
| "select_styles (s # ss) selected =
     (if selected ! style_index (style_id s) \<noteq> None
      then Inl (''output style '' @ quoted (style_id_str (style_id s)) @ '' is selected more than once'')
      else select_styles ss (selected[style_index (style_id s) := Some (style_level s)]))"

definition style_of_slot :: "OutputStyleLevel option list \<Rightarrow> OutputStyleId \<Rightarrow> OutputStyleSelection option" where
  "style_of_slot selected i = map_option (\<lambda>l. \<lparr>style_id = i, style_level = l\<rparr>) (selected ! style_index i)"

text \<open>\<open>bincode\<close> writes the length of a vector in 8 bytes and the variant of an enum in 4.\<close>

definition encoded_styles_len :: "OutputStyleSelection list \<Rightarrow> nat" where
  "encoded_styles_len ss = 8 + 8 * length ss"

definition normalize_styles :: "OutputStyleSelection list \<Rightarrow> string + OutputStyleSelection list" where
  "normalize_styles styles =
     (if MAX_STYLE_SELECTIONS < length styles
      then Inl (''at most '' @ show_nat MAX_STYLE_SELECTIONS @ '' output styles may be enabled'')
      else
        rbind (select_styles styles (replicate MAX_STYLE_SELECTIONS None)) (\<lambda>selected.
          let normalized = List.map_filter (style_of_slot selected) OutputStyleId_ALL in
          if MAX_STYLES_PAYLOAD_BYTES < encoded_styles_len normalized
          then Inl ''output styles configuration is too large'' else Inr normalized))"

definition build_instruction :: "style_texts \<Rightarrow> OutputStyleSelection list \<Rightarrow> string + string" where
  "build_instruction texts styles =
     (let instruction = OUTPUT_STYLE_MARKER @ CHR 0x0A #
            join_with [CHR 0x0A] (map (\<lambda>s. texts (style_id s) (style_level s)) styles) @ CHR '' '' # SHARED_BOUNDARIES
      in if MAX_INSTRUCTION_BYTES < str_len instruction then Inl ''output style instruction exceeds the supported size''
         else Inr instruction)"

definition validate_styles :: "style_texts \<Rightarrow> OutputStyleSelection list \<Rightarrow> string + OutputStyleSelection list" where
  "validate_styles texts styles =
     rbind (normalize_styles styles) (\<lambda>normalized.
       if normalized \<noteq> [] then rbind (build_instruction texts normalized) (\<lambda>_. Inr normalized) else Inr normalized)"

section \<open>The classifier\<close>

definition PER_MESSAGE_LIMIT :: nat where "PER_MESSAGE_LIMIT = 8 * 1024"
definition TOTAL_LIMIT :: nat where "TOTAL_LIMIT = 24 * 1024"

text \<open>The characters of one block that still fit: the bytes taken from the message, and the text so far.\<close>

fun push_chars :: "string \<Rightarrow> nat \<Rightarrow> string \<Rightarrow> nat \<times> string" where
  "push_chars [] n acc = (n, acc)"
| "push_chars (c # s) n acc =
     (if PER_MESSAGE_LIMIT - n < char_utf8_len c \<or> TOTAL_LIMIT - str_len acc < char_utf8_len c then (n, acc)
      else push_chars s (n + char_utf8_len c) (acc @ [c]))"

fun scanned_text :: "ContentBlock \<Rightarrow> string option" where
  "scanned_text (TextBlock t) = Some t"
| "scanned_text (Reasoning t) = Some t"
| "scanned_text (Thinking t _ _) = Some t"
| "scanned_text (Document (DocText t) _) = Some t"
| "scanned_text _ = None"

fun result_content :: "ContentBlock \<Rightarrow> ContentBlock list option" where
  "result_content (ToolResult _ content) = Some content"
| "result_content _ = None"

text \<open>The blocks still to visit are a stack of lists, to which a tool result pushes its content.\<close>

function scan_blocks :: "ContentBlock list list \<Rightarrow> nat \<Rightarrow> string \<Rightarrow> string" where
  "scan_blocks stack n acc =
     (if PER_MESSAGE_LIMIT \<le> n \<or> TOTAL_LIMIT \<le> str_len acc then acc
      else case stack of
        [] \<Rightarrow> acc
      | [] # rest \<Rightarrow> scan_blocks rest n acc
      | (b # bs) # rest \<Rightarrow>
          (case result_content b of
             Some content \<Rightarrow> scan_blocks (content # bs # rest) n acc
           | None \<Rightarrow>
               (case scanned_text b of
                  None \<Rightarrow> scan_blocks (bs # rest) n acc
                | Some t \<Rightarrow>
                    (case push_chars t n acc of (n1, acc1) \<Rightarrow>
                      let acc2 = (if str_len acc1 < TOTAL_LIMIT then acc1 @ [CHR 0x0A] else acc1) in
                      if PER_MESSAGE_LIMIT \<le> n1 then acc2 else scan_blocks (bs # rest) n1 acc2))))"
  by pat_completeness auto
termination
  by (relation "measure (\<lambda>(stack, _, _). 2 * sum_list (map (\<lambda>bs. size_list size bs) stack) + length stack)")
    (auto elim!: result_content.elims)

declare scan_blocks.simps [simp del]

fun scan_messages :: "Message list \<Rightarrow> string \<Rightarrow> string" where
  "scan_messages [] acc = acc"
| "scan_messages (m # ms) acc =
     (if TOTAL_LIMIT \<le> str_len acc then acc else scan_messages ms (scan_blocks [msg_content m] 0 acc))"

definition last_three :: "'a list \<Rightarrow> 'a list" where
  "last_three xs = drop (length xs - 3) xs"

definition is_word_char :: "char \<Rightarrow> bool" where
  "is_word_char c = (is_ascii_alphanumeric c \<or> c = CHR ''_'')"

definition is_word_boundary :: "char option \<Rightarrow> string \<Rightarrow> bool" where
  "is_word_boundary before behind =
     ((case before of None \<Rightarrow> True | Some c \<Rightarrow> \<not> is_word_char c) \<and>
      (case behind of [] \<Rightarrow> True | c # _ \<Rightarrow> \<not> is_word_char c))"

text \<open>
  The search for a term as a word: the occurrences are found from the left and do not overlap; the character in front
  of the rest of the text is carried along. The text from an occurrence on has to satisfy \<open>ok\<close>.
\<close>

function find_word :: "(string \<Rightarrow> bool) \<Rightarrow> string \<Rightarrow> char option \<Rightarrow> string \<Rightarrow> bool" where
  "find_word ok term before s =
     (if term \<noteq> [] \<and> starts_with term s then
        (let behind = drop (length term) s in
         if is_word_boundary before behind \<and> ok s then True
         else if behind = [] then False
         else find_word ok term (Some (last term)) behind)
      else case s of [] \<Rightarrow> False | c # t \<Rightarrow> find_word ok term (Some c) t)"
  by pat_completeness auto
termination
  by (relation "measure (\<lambda>(_, _, _, s). length s)") (auto simp: starts_with_iff)

declare find_word.simps [simp del]

definition contains_word :: "string \<Rightarrow> string \<Rightarrow> bool" where
  "contains_word s term = find_word (\<lambda>_. True) term None s"

text \<open>The longest prefix of at most \<open>n\<close> bytes.\<close>

fun take_bytes :: "nat \<Rightarrow> string \<Rightarrow> string" where
  "take_bytes n [] = []"
| "take_bytes n (c # s) = (if char_utf8_len c \<le> n then c # take_bytes (n - char_utf8_len c) s else [])"

definition security_terms :: "string list" where
  "security_terms =
     [''security'', ''vulnerability'', ''exploit'', ''credential leak'', ''secret leak'', ''malware'', ''phishing'']"

definition irreversible_terms :: "string list" where
  "irreversible_terms =
     [''delete'', ''drop table'', ''truncate'', ''destroy'', ''wipe'', ''irreversible'', ''permanently remove'']"

definition clarification_terms :: "string list" where
  "clarification_terms =
     [''clarify'', ''explain in detail'', ''more detail'', ''step by step'', ''why exactly'', ''what do you mean'']"

definition order_terms :: "string list" where
  "order_terms = [''first'', ''then'', ''after that'', ''before'', ''rollback'', ''backup'']"

definition sensitive_terms :: "string list" where
  "sensitive_terms = [''delete'', ''drop'', ''migrate'', ''deploy'', ''release'']"

definition order_sensitive :: "string \<Rightarrow> string \<Rightarrow> bool" where
  "order_sensitive s order =
     find_word (\<lambda>rest. list_ex (contains_word (take_bytes (str_len order + 240) rest)) sensitive_terms) order None s"

definition classify_text :: "string \<Rightarrow> string option" where
  "classify_text s =
     (if trim s = [] then None
      else if list_ex (contains_word s) security_terms then Some ''security_warning''
      else if list_ex (contains_word s) irreversible_terms then Some ''irreversible_action''
      else if list_ex (contains_word s) clarification_terms then Some ''clarification_requested''
      else if list_ex (order_sensitive s) order_terms then Some ''order_sensitive_sequence''
      else None)"

definition should_bypass :: "Message list \<Rightarrow> string option" where
  "should_bypass ms = classify_text (to_ascii_lowercase (scan_messages (last_three ms) []))"

section \<open>Injection\<close>

datatype ApplyResult =
    Disabled
  | AlreadyApplied
  | NoMessages
  | Bypassed string
  | Applied "OutputStyleId option list"

definition system_or_developer :: "Message \<Rightarrow> bool" where
  "system_or_developer m = (msg_role m \<in> {System, Developer})"

definition first_position :: "('a \<Rightarrow> bool) \<Rightarrow> 'a list \<Rightarrow> nat option" where
  "first_position P xs = (if list_ex P xs then Some (length (takeWhile (\<lambda>x. \<not> P x) xs)) else None)"

definition last_position :: "('a \<Rightarrow> bool) \<Rightarrow> 'a list \<Rightarrow> nat option" where
  "last_position P xs = map_option (\<lambda>i. length xs - Suc i) (first_position P (rev xs))"

definition insertion_point :: "Message list \<Rightarrow> nat" where
  "insertion_point ms =
     (case last_position system_or_developer ms of
        Some i \<Rightarrow> Suc i
      | None \<Rightarrow> unwrap_or 0 (first_position (\<lambda>m. msg_role m = User) ms))"

fun insert_from :: "nat \<Rightarrow> nat \<Rightarrow> Message \<Rightarrow> Message list \<Rightarrow> Message list" where
  "insert_from index insertion m [] = []"
| "insert_from index insertion m (x # xs) =
     (if index = insertion then [m] else []) @ x # insert_from (Suc index) insertion m xs"

definition insert_message :: "nat \<Rightarrow> Message \<Rightarrow> Message list \<Rightarrow> Message list" where
  "insert_message insertion m ms =
     (let next = insert_from 0 insertion m ms in if length next \<le> insertion then next @ [m] else next)"

definition instruction_message :: "string \<Rightarrow> Message" where
  "instruction_message t = \<lparr>msg_role = System, msg_content = [TextBlock t], msg_name = None\<rparr>"

definition applied_ids :: "OutputStyleSelection list \<Rightarrow> OutputStyleId option list" where
  "applied_ids styles =
     fold (\<lambda>s ids. ids[style_index (style_id s) := Some (style_id s)]) styles (replicate MAX_STYLE_SELECTIONS None)"

definition apply_styles ::
  "style_texts \<Rightarrow> OutputStyleSelection list \<Rightarrow> CanonicalRequest \<Rightarrow> string + ApplyResult \<times> CanonicalRequest" where
  "apply_styles texts styles r =
     (if output_styles_applied r then Inr (AlreadyApplied, r)
      else
        rbind (validate_styles texts styles) (\<lambda>styles.
          if styles = [] then Inr (Disabled, r)
          else if canonical_messages r = [] then Inr (NoMessages, r)
          else case should_bypass (canonical_messages r) of
            Some reason \<Rightarrow> Inr (Bypassed reason, r)
          | None \<Rightarrow>
              rbind (build_instruction texts styles) (\<lambda>instruction.
                Inr (Applied (applied_ids styles),
                  r\<lparr>canonical_messages := insert_message (insertion_point (canonical_messages r))
                       (instruction_message instruction) (canonical_messages r),
                    output_styles_applied := True\<rparr>))))"

record StyleMetrics =
  injected :: "nat list"
  bypassed :: "nat list"

definition StyleMetrics_new :: StyleMetrics where
  "StyleMetrics_new = \<lparr>injected = [0, 0, 0], bypassed = [0, 0, 0, 0]\<rparr>"

definition saturating_increment :: "nat \<Rightarrow> nat list \<Rightarrow> nat list" where
  "saturating_increment i xs = xs[i := sat_add u64_max (xs ! i) 1]"

definition bypass_index :: "string \<Rightarrow> nat option" where
  "bypass_index reason =
     (if reason = ''security_warning'' then Some 0 else if reason = ''irreversible_action'' then Some 1
      else if reason = ''clarification_requested'' then Some 2 else if reason = ''order_sensitive_sequence'' then Some 3
      else None)"

fun metrics_record :: "ApplyResult \<Rightarrow> StyleMetrics \<Rightarrow> StyleMetrics" where
  "metrics_record (Applied ids) m =
     m\<lparr>injected := fold (\<lambda>i. saturating_increment (style_index i)) (List.map_filter (\<lambda>i. i) ids) (injected m)\<rparr>"
| "metrics_record (Bypassed reason) m =
     (case bypass_index reason of Some i \<Rightarrow> m\<lparr>bypassed := saturating_increment i (bypassed m)\<rparr> | None \<Rightarrow> m)"
| "metrics_record _ m = m"

section \<open>Results\<close>

interpretation style_id: codec style_id_str "\<lambda>s. result_ok (parse_style_id s)" "\<lambda>_. True"
proof
  show "result_ok (parse_style_id (style_id_str i)) = Some i" for i
    by (cases i) (simp_all add: parse_style_id_def result_ok_def)
qed

interpretation style_level: codec style_level_str "\<lambda>s. result_ok (parse_style_level s)" "\<lambda>_. True"
proof
  show "result_ok (parse_style_level (style_level_str i)) = Some i" for i
    by (cases i) (simp_all add: parse_style_level_def result_ok_def)
qed

text \<open>A word found is an occurrence of the term.\<close>

lemma contains_iff: "contains needle s \<longleftrightarrow> (\<exists>pre. starts_with needle (drop pre s))"
proof (induction needle s rule: contains.induct)
  case (1 needle)
  then show ?case by (auto simp: starts_with_iff)
next
  case (2 needle c s)
  show ?case
  proof
    assume "contains needle (c # s)"
    then consider "starts_with needle (c # s)" | pre where "starts_with needle (drop pre s)" using 2 by auto
    then show "\<exists>pre. starts_with needle (drop pre (c # s))" by cases (metis drop0, metis drop_Suc_Cons)
  next
    assume "\<exists>pre. starts_with needle (drop pre (c # s))"
    then obtain pre where "starts_with needle (drop pre (c # s))" by blast
    then show "contains needle (c # s)" using 2 by (cases pre) auto
  qed
qed

lemma find_word_contains: "find_word ok term before s \<Longrightarrow> contains term s"
proof (induction ok "term" before s rule: find_word.induct)
  case (1 ok "term" before s)
  show ?case
  proof (cases "term \<noteq> [] \<and> starts_with term s")
    case True
    then show ?thesis unfolding contains_iff by (metis drop0)
  next
    case False
    then obtain c t where s: "s = c # t" "find_word ok term (Some c) t"
      using "1.prems" by (auto simp: find_word.simps [of ok "term" before s] split: list.splits)
    then show ?thesis using "1.IH"(2) [OF False s(1)] by simp
  qed
qed

lemma absent_word: "\<not> contains term s \<Longrightarrow> \<not> find_word ok term before s"
  using find_word_contains by blast

lemma classify_no_terms:
  assumes "\<And>t. t \<in> set (security_terms @ irreversible_terms @ clarification_terms @ order_terms) \<Longrightarrow> \<not> contains t s"
  shows "classify_text s = None"
proof -
  have "\<not> find_word ok t b s" if "t \<in> set (security_terms @ irreversible_terms @ clarification_terms @ order_terms)" for ok t b
    using absent_word [OF assms [OF that]] .
  then show ?thesis by (simp add: classify_text_def list_ex_iff contains_word_def order_sensitive_def)
qed

subsection \<open>The scan is bounded\<close>

lemma push_chars_bound:
  "push_chars s n acc = (n', acc') \<Longrightarrow> n \<le> PER_MESSAGE_LIMIT \<Longrightarrow> str_len acc \<le> TOTAL_LIMIT
   \<Longrightarrow> n' \<le> PER_MESSAGE_LIMIT \<and> str_len acc' \<le> TOTAL_LIMIT"
  by (induction s n acc rule: push_chars.induct) (auto split: if_splits)

lemma scan_blocks_bound: "str_len acc \<le> TOTAL_LIMIT \<Longrightarrow> str_len (scan_blocks stack n acc) \<le> TOTAL_LIMIT"
proof (induction stack n acc rule: scan_blocks.induct)
  case (1 stack n acc)
  note step = scan_blocks.simps [of stack n acc]
  consider (stop) "PER_MESSAGE_LIMIT \<le> n \<or> TOTAL_LIMIT \<le> str_len acc \<or> stack = []"
    | (pop) rest where "stack = [] # rest" "\<not> (PER_MESSAGE_LIMIT \<le> n \<or> TOTAL_LIMIT \<le> str_len acc)"
    | (block) b bs rest where "stack = (b # bs) # rest" "\<not> (PER_MESSAGE_LIMIT \<le> n \<or> TOTAL_LIMIT \<le> str_len acc)"
    by (metis list.exhaust)
  then show ?case
  proof cases
    case stop
    then show ?thesis using step "1.prems" by auto
  next
    case (pop rest)
    then show ?thesis using step "1.prems" "1.IH"(1) by simp
  next
    case (block b bs rest)
    note go = block(2) block(1) refl
    show ?thesis
    proof (cases "result_content b")
      case (Some content)
      then show ?thesis using step block "1.prems" "1.IH"(4) [OF go Some] by simp
    next
      case plain: None
      show ?thesis
      proof (cases "scanned_text b")
        case None
        then show ?thesis using step block plain "1.prems" "1.IH"(2) [OF go plain] by simp
      next
        case (Some t)
        obtain n1 acc1 where pc: "push_chars t n acc = (n1, acc1)" by fastforce
        let ?acc2 = "if str_len acc1 < TOTAL_LIMIT then acc1 @ [CHR 0x0A] else acc1"
        have "str_len acc1 \<le> TOTAL_LIMIT" using push_chars_bound [OF pc] block "1.prems" by simp
        then have acc2: "str_len ?acc2 \<le> TOTAL_LIMIT" by (auto simp: str_len_def char_utf8_len_def)
        have "scan_blocks stack n acc = (if PER_MESSAGE_LIMIT \<le> n1 then ?acc2 else scan_blocks (bs # rest) n1 ?acc2)"
          using step block plain Some pc by (simp add: Let_def)
        then show ?thesis using "1.IH"(3) [OF go plain Some pc [symmetric] refl] acc2 by simp
      qed
    qed
  qed
qed

lemma scan_messages_bound: "str_len acc \<le> TOTAL_LIMIT \<Longrightarrow> str_len (scan_messages ms acc) \<le> TOTAL_LIMIT"
  by (induction ms acc rule: scan_messages.induct) (auto simp: scan_blocks_bound)

subsection \<open>The injection\<close>

lemma insert_from_append:
  "index \<le> insertion \<Longrightarrow> insert_from index insertion m xs =
     (if insertion - index < length xs then take (insertion - index) xs @ m # drop (insertion - index) xs else xs)"
proof (induction xs arbitrary: index)
  case Nil
  then show ?case by simp
next
  case (Cons x xs)
  have past: "index > insertion \<Longrightarrow> insert_from index insertion m ys = ys" for index ys
    by (induction ys arbitrary: index) auto
  show ?case
  proof (cases "index = insertion")
    case True
    then show ?thesis by (simp add: past)
  next
    case False
    then have "insertion - index = Suc (insertion - Suc index)" using Cons.prems by simp
    then show ?thesis using Cons False by simp
  qed
qed

lemma insert_message_eq: "n \<le> length xs \<Longrightarrow> insert_message n m xs = take n xs @ m # drop n xs"
  by (auto simp: insert_message_def insert_from_append Let_def)

lemma first_position_Some:
  assumes "first_position P xs = Some i"
  shows "i < length xs" "P (xs ! i)" "\<forall>x\<in>set (take i xs). \<not> P x"
proof -
  let ?t = "takeWhile (\<lambda>x. \<not> P x) xs"
  have i: "i = length ?t" and ex: "\<exists>x\<in>set xs. P x"
    using assms by (auto simp: first_position_def list_ex_iff split: if_splits)
  have len: "length ?t \<le> length xs" by (rule length_takeWhile_le)
  show "i < length xs"
  proof (rule ccontr)
    assume "\<not> i < length xs"
    then have "?t = xs" using i len by (metis le_antisym not_less takeWhile_eq_take take_all)
    then show False using ex by (metis set_takeWhileD)
  qed
  then show "P (xs ! i)" using nth_length_takeWhile [of "\<lambda>x. \<not> P x" xs] i by simp
  show "\<forall>x\<in>set (take i xs). \<not> P x"
    using i by (auto simp: takeWhile_eq_take [symmetric] dest: set_takeWhileD)
qed

lemma last_position_Some:
  assumes "last_position P xs = Some i"
  shows "i < length xs" "P (xs ! i)" "\<forall>x\<in>set (drop (Suc i) xs). \<not> P x"
proof -
  obtain j where j: "first_position P (rev xs) = Some j" "i = length xs - Suc j"
    using assms by (auto simp: last_position_def)
  note f = first_position_Some [OF j(1)]
  show "i < length xs" using f(1) j(2) by simp
  show "P (xs ! i)" using f(1,2) j(2) by (simp add: rev_nth)
  have "take j (rev xs) = rev (drop (length xs - j) xs)" by (simp add: take_rev)
  moreover have "Suc i = length xs - j" using f(1) j(2) by simp
  ultimately show "\<forall>x\<in>set (drop (Suc i) xs). \<not> P x" using f(3) by simp
qed

lemma position_None:
  "first_position P xs = None \<longleftrightarrow> (\<forall>x\<in>set xs. \<not> P x)"
  "last_position P xs = None \<longleftrightarrow> (\<forall>x\<in>set xs. \<not> P x)"
  by (auto simp: last_position_def first_position_def list_ex_iff)

text \<open>Where the instruction goes: behind the last system message, or in front of the first user message.\<close>

definition after_instructions :: "Message list \<Rightarrow> Message list \<Rightarrow> bool" where
  "after_instructions pre post \<longleftrightarrow>
     (\<forall>m\<in>set post. \<not> system_or_developer m) \<and>
     (if pre = [] then True
      else system_or_developer (last pre) \<or>
        (\<forall>m\<in>set pre. \<not> system_or_developer m \<and> msg_role m \<noteq> User) \<and> post \<noteq> [] \<and> msg_role (hd post) = User)"

lemma insertion_point_splits:
  fixes ms :: "Message list"
  defines "n \<equiv> insertion_point ms"
  shows "n \<le> length ms \<and> after_instructions (take n ms) (drop n ms)"
proof (cases "last_position system_or_developer ms")
  case (Some i)
  note f = last_position_Some [OF Some]
  have n: "n = Suc i" using Some by (simp add: n_def insertion_point_def)
  have "last (take (Suc i) ms) = ms ! i" using f(1) by (simp add: take_Suc_conv_app_nth)
  then show ?thesis using f n by (auto simp: after_instructions_def)
next
  case None
  then have none: "\<forall>m\<in>set ms. \<not> system_or_developer m" by (simp add: position_None)
  then have post: "\<forall>m\<in>set (drop k ms). \<not> system_or_developer m" "\<forall>m\<in>set (take k ms). \<not> system_or_developer m" for k
    by (meson in_set_dropD in_set_takeD)+
  show ?thesis
  proof (cases "first_position (\<lambda>m. msg_role m = User) ms")
    case None
    then have "n = 0" using \<open>last_position system_or_developer ms = None\<close> by (simp add: n_def insertion_point_def)
    then show ?thesis using none by (simp add: after_instructions_def)
  next
    case (Some i)
    note f = first_position_Some [OF Some]
    have n: "n = i" using Some \<open>last_position system_or_developer ms = None\<close> by (simp add: n_def insertion_point_def)
    have "drop i ms \<noteq> []" "hd (drop i ms) = ms ! i" using f(1) by (simp_all add: hd_drop_conv_nth)
    then show ?thesis using f n post by (auto simp: after_instructions_def)
  qed
qed

lemma build_instruction_len: "build_instruction texts styles = Inr t \<Longrightarrow> str_len t \<le> MAX_INSTRUCTION_BYTES"
  by (auto simp: build_instruction_def Let_def simp del: str_len_simps split: if_splits)

lemma apply_styles_cases:
  assumes "apply_styles texts styles r = Inr (result, r')"
  shows "(\<exists>ids t. result = Applied ids \<and> \<not> output_styles_applied r \<and> str_len t \<le> MAX_INSTRUCTION_BYTES \<and>
            r' = r\<lparr>canonical_messages := insert_message (insertion_point (canonical_messages r)) (instruction_message t)
                     (canonical_messages r), output_styles_applied := True\<rparr>)
         \<or> (\<nexists>ids. result = Applied ids) \<and> r' = r"
  using assms
  by (auto simp: apply_styles_def rbind_eq_Inr dest: build_instruction_len split: if_splits option.splits)

text \<open>C21: Output styles change a request in one way only. When they are applied, the client's messages all stay in
  their order, one system message of at most 16 KiB is inserted behind the last system or developer message (without
  one: in front of the first user message), and the request is marked so that a second application changes nothing;
  with every other outcome (disabled, already applied, no messages, bypassed) the request is unchanged.\<close>

theorem styles_inserted_once:
  assumes "apply_styles texts styles r = Inr (result, r')"
  shows "(\<exists>ids t pre post.
            result = Applied ids \<and> str_len t \<le> MAX_INSTRUCTION_BYTES \<and> canonical_messages r = pre @ post \<and>
            after_instructions pre post \<and>
            r' = r\<lparr>canonical_messages := pre @ instruction_message t # post, output_styles_applied := True\<rparr> \<and>
            (\<forall>styles'. apply_styles texts styles' r' = Inr (AlreadyApplied, r')))
         \<or> (\<nexists>ids. result = Applied ids) \<and> r' = r"
proof -
  let ?ms = "canonical_messages r" let ?n = "insertion_point (canonical_messages r)"
  have split: "?n \<le> length ?ms" "after_instructions (take ?n ?ms) (drop ?n ?ms)"
    using insertion_point_splits by auto
  have eq: "insert_message ?n m ?ms = take ?n ?ms @ m # drop ?n ?ms" for m by (rule insert_message_eq [OF split(1)])
  have again: "apply_styles texts styles' (r\<lparr>canonical_messages := ms, output_styles_applied := True\<rparr>)
      = Inr (AlreadyApplied, r\<lparr>canonical_messages := ms, output_styles_applied := True\<rparr>)" for styles' ms
    by (simp add: apply_styles_def)
  show ?thesis
    using apply_styles_cases [OF assms] split(2) again unfolding eq
    by (metis append_take_drop_id)
qed

definition example_styles :: "OutputStyleSelection list" where
  "example_styles = [\<lparr>style_id = Ponytail, style_level = Lite\<rparr>, \<lparr>style_id = LessCode, style_level = Full\<rparr>]"

definition example_message :: "Role \<Rightarrow> string \<Rightarrow> Message" where
  "example_message role t = \<lparr>msg_role = role, msg_content = [TextBlock t], msg_name = None\<rparr>"

definition example_canonical :: "Message list \<Rightarrow> CanonicalRequest" where
  "example_canonical ms =
     \<lparr>source_protocol = ChatCompletions, canonical_model = ''m'', canonical_messages = ms, canonical_tools = [],
      tool_choice = None, temperature = None, top_p = None, max_tokens = None, stop_sequences = [],
      canonical_stream = False, metadata = [], output_styles_applied = False\<rparr>"

lemma example_scan: "scan_messages [example_message System ''a'', example_message User ''b''] [] = [CHR ''a'', CHR 0x0A, CHR ''b'', CHR 0x0A]"
  by (simp add: example_message_def scan_blocks.simps PER_MESSAGE_LIMIT_def TOTAL_LIMIT_def str_len_def char_utf8_len_def)

lemma str_len_le: "str_len s \<le> 2 * length s"
  by (induction s) (auto simp: char_utf8_len_def)

definition example_instruction :: string where
  "example_instruction =
     OUTPUT_STYLE_MARKER @ CHR 0x0A # ''Be brief.'' @ CHR 0x0A # ''Be brief.'' @ CHR '' '' # SHARED_BOUNDARIES"

definition example_conversation :: "Message list" where
  "example_conversation = [example_message System ''a'', example_message User ''b'']"

definition styled_canonical :: CanonicalRequest where
  "styled_canonical =
     (example_canonical [example_message System ''a'', instruction_message example_instruction, example_message User ''b''])
       \<lparr>output_styles_applied := True\<rparr>"

lemma example_apply:
  "apply_styles (\<lambda>_ _. ''Be brief.'') example_styles (example_canonical example_conversation) =
     Inr (Applied [None, Some LessCode, Some Ponytail], styled_canonical)"
proof -
  let ?styles = "[\<lparr>style_id = LessCode, style_level = Full\<rparr>, \<lparr>style_id = Ponytail, style_level = Lite\<rparr>]"
  let ?text = "[CHR ''a'', CHR 0x0A, CHR ''b'', CHR 0x0A]"
  have lower: "to_ascii_lowercase ?text = ?text" by (simp add: to_ascii_lowercase_def)
  have "\<not> contains t ?text" if "t \<in> set (security_terms @ irreversible_terms @ clarification_terms @ order_terms)" for t
    using that
    by (auto simp: security_terms_def irreversible_terms_def clarification_terms_def order_terms_def starts_with_def)
  then have "classify_text ?text = None" by (rule classify_no_terms)
  then have bypass: "should_bypass example_conversation = None"
    unfolding should_bypass_def last_three_def example_conversation_def by (simp add: example_scan lower del: scan_messages.simps)
  have norm: "normalize_styles example_styles = Inr ?styles" by code_simp
  have "str_len example_instruction \<le> MAX_INSTRUCTION_BYTES"
    using str_len_le [of example_instruction]
    by (simp add: MAX_INSTRUCTION_BYTES_def OUTPUT_STYLE_MARKER_def SHARED_BOUNDARIES_def example_instruction_def del: str_len_simps)
  then have build: "build_instruction (\<lambda>_ _. ''Be brief.'') ?styles = Inr example_instruction"
    by (simp add: build_instruction_def Let_def example_instruction_def del: str_len_simps)
  have "insertion_point example_conversation = 1" by code_simp
  then have ins: "insert_message (insertion_point example_conversation) m example_conversation =
      [example_message System ''a'', m, example_message User ''b'']" for m
    by (simp add: insert_message_def example_conversation_def)
  have ids: "applied_ids ?styles = [None, Some LessCode, Some Ponytail]" by code_simp
  have "canonical_messages (example_canonical example_conversation) = example_conversation" "example_conversation \<noteq> []"
    "\<not> output_styles_applied (example_canonical example_conversation)"
    by (simp_all add: example_canonical_def example_conversation_def)
  then show ?thesis
    using norm build bypass ids by (simp add: apply_styles_def validate_styles_def ins styled_canonical_def example_canonical_def)
qed

theorem styles_inserted_once_witness:
  "\<exists>t pre post. str_len t \<le> MAX_INSTRUCTION_BYTES \<and> example_conversation = pre @ post \<and> after_instructions pre post \<and>
     styled_canonical = (example_canonical example_conversation)
       \<lparr>canonical_messages := pre @ instruction_message t # post, output_styles_applied := True\<rparr>"
proof -
  have "canonical_messages (example_canonical example_conversation) = example_conversation"
    by (simp add: example_canonical_def)
  then show ?thesis using styles_inserted_once [OF example_apply] by auto
qed

end
