(* ===== verification/RoutePrep.thy ===== *)
theory RoutePrep
  imports KeyCursor RuntimeGates ApiKeyScope RequestDecoding OutputStyles "HOL-Library.Multiset"
begin

text \<open>
  Preparing a gateway request (\<^verbatim>\<open>src/gateway/request_preparation.rs\<close>): loading a stored route, flattening its
  nested combos, resolving a provider model alias, ordering the targets and applying the scope of the API key.
\<close>

section \<open>Definitions\<close>

record Target =
  target_provider_id :: string
  target_model :: string
  target_protocol :: "UpstreamProtocol option"
  target_model_protocol :: "UpstreamProtocol option"
  target_enabled :: bool

datatype FlattenIssue =
    TooManyTargets nat
  | MissingCombo string
  | Cycle string
  | Depth string

fun issue_combo_id :: "FlattenIssue \<Rightarrow> string option" where
  "issue_combo_id (TooManyTargets n) = None"
| "issue_combo_id (MissingCombo c) = Some c"
| "issue_combo_id (Cycle c) = Some c"
| "issue_combo_id (Depth c) = Some c"

record StoredRoute =
  route_enabled :: bool
  route_strategy :: string
  route_accepted_protocols :: "string list"
  route_targets :: "Target list"
  flatten_issue :: "FlattenIssue option"

datatype GatewayRequestPreparationError = Client status string | Database StorageError

record FlattenedTargets =
  flat_targets :: "Target list"
  flat_issue :: "FlattenIssue option"

definition route_target_prefix :: "string \<Rightarrow> StorageError + string" where
  "route_target_prefix route_id =
     (let pre = ''r/'' @ concat (map hex_byte (str_bytes route_id)) @ ''/'' in
      rbind (validate_key pre) (\<lambda>_. Inr pre))"

definition check_expanded :: "FlattenedTargets \<Rightarrow> FlattenedTargets" where
  "check_expanded out =
     (if MAX_ROUTE_TARGETS < length (flat_targets out)
      then out\<lparr>flat_issue := Some (TooManyTargets (length (flat_targets out)))\<rparr> else out)"

definition parse_protocol :: "string \<Rightarrow> string option \<Rightarrow> StorageError + UpstreamProtocol option" where
  "parse_protocol what v =
     transpose_result (map_option (\<lambda>s. map_err (\<lambda>e. Invalid (what @ e)) (UpstreamProtocol_from_str s)) v)"

definition build_target :: "'s key_db \<Rightarrow> Record \<Rightarrow> StorageError + Target" where
  "build_target db r =
     rbind (optional_text r ''protocol'') (\<lambda>pt.
     rbind (parse_protocol ''route target protocol is invalid: '' pt) (\<lambda>protocol.
     rbind (rec_text r ''provider_id'') (\<lambda>provider_id.
     rbind (rec_text r ''model'') (\<lambda>model.
     rbind (provider_model_key (kd_sha db) provider_id model) (\<lambda>model_key.
     rbind (get_record db ProviderModels model_key) (\<lambda>found.
     rbind (case found of
              Some mr \<Rightarrow>
                rbind (optional_text mr ''upstream_protocol'') (\<lambda>mp.
                  parse_protocol ''saved provider model protocol is invalid: '' mp)
            | None \<Rightarrow> Inr None) (\<lambda>model_protocol.
     rbind (rec_boolean r ''enabled'') (\<lambda>en.
       Inr \<lparr>target_provider_id = provider_id, target_model = model, target_protocol = protocol,
            target_model_protocol = model_protocol, target_enabled = en\<rparr>))))))))"

text \<open>The rows of a route, one more than allowed at most.\<close>

definition scan_route_rows :: "'s key_db \<Rightarrow> string \<Rightarrow> StorageError + (string \<times> Record) list" where
  "scan_route_rows db route_id =
     rbind (route_target_prefix route_id) (\<lambda>pre.
       scan_prefix (kd_heed db) (kd_records db) (kd_zstd db) (kd_dictionary db) (kd_snapshot db)
         RouteTargets pre (MAX_ROUTE_TARGETS + 1))"

text \<open>
  The recursion over nested combos and, inside it, the loop over the rows of one route. \<open>path\<close> holds the
  combos being expanded, innermost last.
\<close>

function flatten_route_targets ::
    "'s key_db \<Rightarrow> json_strings \<Rightarrow> string \<Rightarrow> Protocol \<Rightarrow> string list \<Rightarrow> FlattenedTargets \<Rightarrow> StorageError + FlattenedTargets"
  and flatten_rows ::
    "'s key_db \<Rightarrow> json_strings \<Rightarrow> Protocol \<Rightarrow> string list \<Rightarrow> (string \<times> Record) list \<Rightarrow> FlattenedTargets
       \<Rightarrow> StorageError + FlattenedTargets" where
  "flatten_route_targets db js route_id client path out =
     rbind (scan_route_rows db route_id) (\<lambda>records.
       if MAX_ROUTE_TARGETS < length records
       then Inr (out\<lparr>flat_issue := Some (TooManyTargets (length records))\<rparr>)
       else flatten_rows db js client path records out)"
| "flatten_rows db js client path [] out = Inr out"
| "flatten_rows db js client path ((k, r) # rest) out =
     (if flat_issue out \<noteq> None then Inr out
      else
        rbind (rec_boolean r ''enabled'') (\<lambda>en.
          if \<not> en then flatten_rows db js client path rest out
          else
            rbind (optional_text r ''combo_id'') (\<lambda>combo.
              case combo of
                None \<Rightarrow>
                  rbind (build_target db r) (\<lambda>t.
                    flatten_rows db js client path rest
                      (check_expanded (out\<lparr>flat_targets := flat_targets out @ [t]\<rparr>)))
              | Some c \<Rightarrow>
                  if c \<in> set path then Inr (out\<lparr>flat_issue := Some (Cycle c)\<rparr>)
                  else if MAX_COMBO_NESTING_DEPTH < length path then Inr (out\<lparr>flat_issue := Some (Depth c)\<rparr>)
                  else
                    rbind (get_record db Routes c) (\<lambda>found.
                      case found of
                        None \<Rightarrow> Inr (out\<lparr>flat_issue := Some (MissingCombo c)\<rparr>)
                      | Some nested \<Rightarrow>
                          rbind (rec_boolean nested ''enabled'') (\<lambda>nested_enabled.
                            if \<not> nested_enabled then flatten_rows db js client path rest out
                            else
                              rbind (rec_text nested ''accepted_protocols'') (\<lambda>txt.
                              rbind (map_err (\<lambda>e. Codec (''nested combo protocol list is invalid: '' @ e)) (from_json js txt)) (\<lambda>accepted.
                                if Protocol_as_str client \<notin> set accepted then flatten_rows db js client path rest out
                                else
                                  rbind (flatten_route_targets db js c client (path @ [c]) out) (\<lambda>out'.
                                    flatten_rows db js client path rest out'))))))))"
  by pat_completeness auto

termination
  by (relation "measures [\<lambda>x. MAX_COMBO_NESTING_DEPTH + 1 -
        length (case x of Inl (_, _, _, _, path, _) \<Rightarrow> path | Inr (_, _, _, path, _, _) \<Rightarrow> path),
      \<lambda>x. case x of Inl _ \<Rightarrow> 1 | Inr _ \<Rightarrow> 0,
      \<lambda>x. case x of Inl _ \<Rightarrow> 0 | Inr (_, _, _, _, rest, _) \<Rightarrow> length rest]")
    (auto simp: MAX_COMBO_NESTING_DEPTH_def)


definition load_stored_route :: "'s key_db \<Rightarrow> json_strings \<Rightarrow> string \<Rightarrow> Protocol \<Rightarrow> StorageError + StoredRoute option" where
  "load_stored_route db js route_id client =
     rbind (get_record db Routes route_id) (\<lambda>found.
       case found of
         None \<Rightarrow> Inr None
       | Some route \<Rightarrow>
           rbind (rec_text route ''accepted_protocols'') (\<lambda>txt.
           rbind (map_err (\<lambda>e. Codec (''route protocol list is invalid: '' @ e)) (from_json js txt)) (\<lambda>accepted.
           rbind (flatten_route_targets db js route_id client [route_id] \<lparr>flat_targets = [], flat_issue = None\<rparr>) (\<lambda>flattened.
           rbind (rec_boolean route ''enabled'') (\<lambda>en.
           rbind (rec_text route ''strategy'') (\<lambda>strategy.
             Inr (Some \<lparr>route_enabled = en, route_strategy = strategy, route_accepted_protocols = accepted,
                        route_targets = flat_targets flattened, flatten_issue = flat_issue flattened\<rparr>)))))))"

definition get_string :: "'s key_db \<Rightarrow> Table \<Rightarrow> string \<Rightarrow> StorageError + string option" where
  "get_string db table key =
     txn_get (kd_heed db) (kd_ids db) (kd_zstd db) (kd_dictionary db) (kd_snapshot db) table key"

datatype ProviderModelAliasResolution = NotFound | Found Target

definition resolve_provider_model_alias :: "'s key_db \<Rightarrow> string \<Rightarrow> StorageError + ProviderModelAliasResolution" where
  "resolve_provider_model_alias db public_model =
     (case split_once (CHR ''/'') public_model of
        None \<Rightarrow> Inr NotFound
      | Some (pre, model_name) \<Rightarrow>
          if pre = [] \<or> model_name = [] then Inr NotFound
          else
            rbind (get_string db Indexes (''provider_model_prefix/'' @ to_ascii_lowercase pre)) (\<lambda>owner.
              case owner of
                None \<Rightarrow> Inr NotFound
              | Some provider_id \<Rightarrow>
                  rbind (get_record db Providers provider_id) (\<lambda>p.
                    case p of
                      None \<Rightarrow> Inl (Invalid ''provider prefix index points to a missing provider'')
                    | Some provider \<Rightarrow>
                        rbind (rec_boolean provider ''enabled'') (\<lambda>en.
                          if \<not> en then Inr NotFound
                          else
                            rbind (provider_model_index_key (kd_sha db) provider_id model_name) (\<lambda>index_key.
                            rbind (get_string db ProviderModelIndex index_key) (\<lambda>saved.
                              case saved of
                                None \<Rightarrow> Inr NotFound
                              | Some saved_model \<Rightarrow>
                                  if saved_model \<noteq> model_name then Inr NotFound
                                  else
                                    rbind (provider_model_key (kd_sha db) provider_id model_name) (\<lambda>primary_key.
                                    rbind (get_record db ProviderModels primary_key) (\<lambda>m.
                                      case m of
                                        None \<Rightarrow> Inl (Invalid ''provider model index points to a missing model record'')
                                      | Some model_record \<Rightarrow>
                                          rbind (optional_text model_record ''upstream_protocol'') (\<lambda>mp.
                                          rbind (parse_protocol ''saved provider model protocol is invalid: '' mp) (\<lambda>model_protocol.
                                            Inr (Found \<lparr>target_provider_id = provider_id, target_model = saved_model,
                                                  target_protocol = None, target_model_protocol = model_protocol,
                                                  target_enabled = True\<rparr>)))))))))))"

definition order_priority_targets :: "nat \<Rightarrow> Target list \<Rightarrow> Target list" where
  "order_priority_targets target_rotation_offset targets =
     (if targets = [] then targets else rotate (target_rotation_offset mod length targets) targets)"

text \<open>The message for a route that cannot be flattened.\<close>

definition issue_message :: "FlattenIssue \<Rightarrow> string" where
  "issue_message issue =
     (case issue of
        TooManyTargets expanded \<Rightarrow> ''route expands to '' @ show_nat expanded @ '' targets; the maximum is 32''
      | _ \<Rightarrow> ''route has invalid nested combo references'')"

definition candidate_targets ::
  "'s key_db \<Rightarrow> json_strings \<Rightarrow> string \<Rightarrow> Protocol \<Rightarrow> GatewayRequestPreparationError + string \<times> Target list" where
  "candidate_targets db js route_alias client =
     rbind (map_err Database (load_stored_route db js route_alias client)) (\<lambda>route.
       case route of
         Some route \<Rightarrow>
           if \<not> route_enabled route then
             Inl (Client NOT_FOUND (''no enabled route for model '' @ quoted route_alias))
           else if Protocol_as_str client \<notin> set (route_accepted_protocols route) then
             Inl (Client NOT_FOUND (''route '' @ quoted route_alias @ '' does not accept '' @ Protocol_as_str client))
           else
             (case flatten_issue route of
                Some issue \<Rightarrow> Inl (Client SERVICE_UNAVAILABLE (issue_message issue))
              | None \<Rightarrow> Inr (route_strategy route, route_targets route))
       | None \<Rightarrow>
           rbind (map_err Database (resolve_provider_model_alias db route_alias)) (\<lambda>res.
             case res of
               Found target \<Rightarrow> Inr (''priority'', [target])
             | NotFound \<Rightarrow>
                 Inl (Client NOT_FOUND (''no enabled route or imported provider model for '' @ quoted route_alias))))"

definition resolve_gateway_targets ::
  "'s key_db \<Rightarrow> json_strings \<Rightarrow> string \<Rightarrow> Protocol \<Rightarrow> nat \<Rightarrow> gateway_gates
     \<Rightarrow> (GatewayRequestPreparationError + Target list) \<times> gateway_gates" where
  "resolve_gateway_targets db js route_alias client target_rotation_offset g =
     (case candidate_targets db js route_alias client of
        Inl e \<Rightarrow> (Inl e, g)
      | Inr (strategy, candidates) \<Rightarrow>
          (let targets = filter target_enabled candidates in
           if targets = [] then (Inl (Client SERVICE_UNAVAILABLE ''route has no enabled targets''), g)
           else if strategy = ''round_robin'' then
             (let current = (case hm_get (round_robin g) route_alias of Some n \<Rightarrow> n | None \<Rightarrow> 0) in
              (Inr (rotate (current mod length targets) targets),
               g\<lparr>round_robin := hm_insert route_alias ((current + 1) mod 2 ^ 64) (round_robin g)\<rparr>))
           else (Inr (order_priority_targets target_rotation_offset targets), g)))"

definition apply_api_key_scope ::
  "ApiKeyScope option \<Rightarrow> string \<Rightarrow> Target list \<Rightarrow> GatewayRequestPreparationError + Target list" where
  "apply_api_key_scope scope requested_model targets =
     (case scope of
        None \<Rightarrow> Inr targets
      | Some sc \<Rightarrow>
          if \<not> allows_model sc requested_model then
            Inl (Client FORBIDDEN (''this API key is not allowed to use model '' @ quoted requested_model))
          else if allowed_provider_ids sc = [] then Inr targets
          else
            (let kept = filter (\<lambda>t. allows_provider sc (target_provider_id t)) targets in
             if kept = [] then
               Inl (Client FORBIDDEN
                 (''this API key is not allowed to use any provider configured for '' @ quoted requested_model))
             else Inr kept))"

text \<open>
  The identifiers of a request, from its headers (those whose value is visible ASCII) or a fresh UUID.
\<close>

type_synonym headers = "string \<Rightarrow> string option"

definition request_id_of :: "headers \<Rightarrow> string \<Rightarrow> string" where
  "request_id_of hs uuid =
     (case hs ''x-request-id'' of
        Some s \<Rightarrow> if trim s \<noteq> [] \<and> str_len s \<le> 128 then s else uuid
      | None \<Rightarrow> uuid)"

definition session_id_ok :: "string \<Rightarrow> bool" where
  "session_id_ok v \<longleftrightarrow> v \<noteq> [] \<and> str_len v \<le> 128 \<and> list_all (\<lambda>c. is_ascii_alphanumeric c \<or> c \<in> set ''-_.:'') v"

definition adapter_session_id :: "headers \<Rightarrow> string \<Rightarrow> string \<Rightarrow> string" where
  "adapter_session_id hs request_id uuid =
     (let names = [''x-opencode-session'', ''session_id'', ''session-id'', ''x-session-id''];
          found = map_option trim (case List.map_filter hs names of v # _ \<Rightarrow> Some v | [] \<Rightarrow> None)
      in case (case found of Some v \<Rightarrow> if session_id_ok v then Some v else None | None \<Rightarrow> None) of
           Some v \<Rightarrow> v
         | None \<Rightarrow> if session_id_ok (trim request_id) then trim request_id else uuid)"

record PreparedGatewayRequest =
  prepared_request_id :: string
  prepared_api_key_id :: "string option"
  prepared_session_id :: string
  prepared_canonical :: canonical
  prepared_route_alias :: string
  prepared_targets :: "Target list"
  background_continuity :: bool

text \<open>The first half of \<open>prepare_gateway_request\<close>: decoding the body and applying the output styles to it.\<close>

definition decode_gateway_request ::
  "codecs \<Rightarrow> style_texts \<Rightarrow> OutputStyleSelection list \<Rightarrow> Protocol \<Rightarrow> json
     \<Rightarrow> GatewayRequestPreparationError + ApplyResult \<times> canonical" where
  "decode_gateway_request cd texts styles client body =
     rbind (map_err (Client BAD_REQUEST) (decode_request cd client body)) (\<lambda>c.
       map_err (\<lambda>_. Client INTERNAL_SERVER_ERROR ''output style configuration is invalid'') (apply_styles texts styles c))"

text \<open>
  The second half: resolving the targets of the request. The outcome of the first half is the argument \<open>decoded\<close>, the
  key of the analytics is \<open>analytics_key\<close>.
\<close>

definition prepare_gateway_request ::
  "'s key_db \<Rightarrow> json_strings \<Rightarrow> headers \<Rightarrow> string \<Rightarrow> string \<Rightarrow> GatewayRequestPreparationError + canonical \<Rightarrow> Protocol
     \<Rightarrow> GatewayResourceLimits \<Rightarrow> string option \<Rightarrow> string option \<Rightarrow> ApiKeyScope option \<Rightarrow> nat \<Rightarrow> gateway_gates
     \<Rightarrow> (GatewayRequestPreparationError + PreparedGatewayRequest) \<times> gateway_gates" where
  "prepare_gateway_request db js hs uuid uuid' decoded client limits analytics_key api_key scope offset g =
     (let request_id = request_id_of hs uuid;
          session = adapter_session_id hs request_id uuid'
      in case decoded of
           Inl e \<Rightarrow> (Inl e, g)
         | Inr c \<Rightarrow>
             (case resolve_gateway_targets db js (canonical_model c) client offset g of
                (Inl e, g') \<Rightarrow> (Inl e, g')
              | (Inr targets, g') \<Rightarrow>
                  (rbind (apply_api_key_scope scope (canonical_model c) targets) (\<lambda>kept.
                     Inr \<lparr>prepared_request_id = request_id,
                          prepared_api_key_id = option_or analytics_key api_key,
                          prepared_session_id = session, prepared_canonical = c,
                          prepared_route_alias = canonical_model c, prepared_targets = kept,
                          background_continuity = (stream_continuity_enabled limits \<and> api_key = None \<and> canonical_stream c)\<rparr>),
                   g')))"

section \<open>What flattening computes\<close>

text \<open>
  The reference definition: the leaves below a route, in the stored order, each combo expanded in place, a
  disabled row and a combo that is not routed for this protocol left out. The first argument is the number of
  levels.
\<close>

definition combo_routed :: "'s key_db \<Rightarrow> json_strings \<Rightarrow> Protocol \<Rightarrow> string \<Rightarrow> bool" where
  "combo_routed db js client c =
     (case get_record db Routes c of
        Inr (Some n) \<Rightarrow>
          rec_boolean n ''enabled'' = Inr True \<and>
          (case rbind (rec_text n ''accepted_protocols'') (\<lambda>t. map_err Codec (from_json js t)) of
             Inr accepted \<Rightarrow> Protocol_as_str client \<in> set accepted
           | Inl _ \<Rightarrow> False)
      | _ \<Rightarrow> False)"

definition row_leaves ::
  "'s key_db \<Rightarrow> json_strings \<Rightarrow> Protocol \<Rightarrow> (string \<Rightarrow> Target list) \<Rightarrow> string \<times> Record \<Rightarrow> Target list" where
  "row_leaves db js client expand row =
     (if rec_boolean (snd row) ''enabled'' \<noteq> Inr True then []
      else
        case optional_text (snd row) ''combo_id'' of
          Inr None \<Rightarrow> (case build_target db (snd row) of Inr t \<Rightarrow> [t] | Inl _ \<Rightarrow> [])
        | Inr (Some c) \<Rightarrow> if combo_routed db js client c then expand c else []
        | Inl _ \<Rightarrow> [])"

primrec leaves :: "nat \<Rightarrow> 's key_db \<Rightarrow> json_strings \<Rightarrow> Protocol \<Rightarrow> string \<Rightarrow> Target list" where
  "leaves 0 db js client route_id = []"
| "leaves (Suc d) db js client route_id =
     (case scan_route_rows db route_id of
        Inr rs \<Rightarrow> concat (map (row_leaves db js client (leaves d db js client)) rs)
      | Inl _ \<Rightarrow> [])"

lemma check_expanded_None:
  "flat_issue (check_expanded out) = None \<longleftrightarrow> flat_issue out = None \<and> length (flat_targets out) \<le> 32"
  "flat_targets (check_expanded out) = flat_targets out"
  by (auto simp: check_expanded_def MAX_ROUTE_TARGETS_def)

lemma flatten_rows_issue: "flat_issue out \<noteq> None \<Longrightarrow> flatten_rows db js client path rs out = Inr out"
  by (cases rs) auto

text \<open>A row that refers to a combo, and the six things the loop does with a row.\<close>

definition row_refers :: "Record \<Rightarrow> string \<Rightarrow> bool" where
  "row_refers r c \<longleftrightarrow> rec_boolean r ''enabled'' = Inr True \<and> optional_text r ''combo_id'' = Inr (Some c)"

lemma map_err_Inr: "map_err f r = Inr x \<longleftrightarrow> r = Inr x"
  by (cases r) simp_all

lemma flatten_row_cases [consumes 2, case_names skip leaf cycle depth missing nested]:
  assumes flat: "flatten_rows db js client path ((k, r) # rest) out = Inr out'" and no: "flat_issue out = None"
  obtains "flatten_rows db js client path rest out = Inr out'" "\<And>E. row_leaves db js client E (k, r) = []"
  | t where "\<And>E. row_leaves db js client E (k, r) = [t]"
      "flatten_rows db js client path rest (check_expanded (out\<lparr>flat_targets := flat_targets out @ [t]\<rparr>)) = Inr out'"
  | c where "row_refers r c" "c \<in> set path" "out' = out\<lparr>flat_issue := Some (Cycle c)\<rparr>"
  | c where "row_refers r c" "c \<notin> set path" "8 < length path" "out' = out\<lparr>flat_issue := Some (Depth c)\<rparr>"
  | c where "get_record db Routes c = Inr None" "row_refers r c" "out' = out\<lparr>flat_issue := Some (MissingCombo c)\<rparr>"
  | c out1 where "row_refers r c" "c \<notin> set path" "length path \<le> 8" "\<And>E. row_leaves db js client E (k, r) = E c"
      "flatten_route_targets db js c client (path @ [c]) out = Inr out1" "flatten_rows db js client path rest out1 = Inr out'"
proof -
  from flat no obtain en where en: "rec_boolean r ''enabled'' = Inr en" by (auto simp: rbind_eq_Inr)
  show thesis
  proof (cases en)
    case False
    with flat no en show thesis by (intro that(1)) (simp_all add: row_leaves_def)
  next
    case True
    then obtain combo where combo: "optional_text r ''combo_id'' = Inr combo"
      using flat no en by (auto simp: rbind_eq_Inr)
    show thesis
    proof (cases combo)
      case None
      with flat no en True combo obtain t where "build_target db r = Inr t"
        "flatten_rows db js client path rest (check_expanded (out\<lparr>flat_targets := flat_targets out @ [t]\<rparr>)) = Inr out'"
        by (auto simp: rbind_eq_Inr)
      with en True combo None show thesis by (intro that(2)) (simp_all add: row_leaves_def)
    next
      case (Some c)
      then have refers: "row_refers r c" using en True combo by (simp add: row_refers_def)
      consider "c \<in> set path" | "c \<notin> set path" "8 < length path" | "c \<notin> set path" "length path \<le> 8" by linarith
      then show thesis
      proof cases
        case 1
        with flat no en True combo Some show thesis by (intro that(3) [OF refers]) auto
      next
        case 2
        with flat no en True combo Some show thesis
          by (intro that(4) [OF refers]) (auto simp: MAX_COMBO_NESTING_DEPTH_def)
      next
        case 3
        note go = flat no en True combo Some 3
        from go obtain found where found: "get_record db Routes c = Inr found"
          by (auto simp: rbind_eq_Inr MAX_COMBO_NESTING_DEPTH_def)
        show thesis
        proof (cases found)
          case None
          with go found show thesis by (intro that(5) [OF _ refers]) (auto simp: MAX_COMBO_NESTING_DEPTH_def)
        next
          case n: (Some nested)
          from go found n obtain ne where ne: "rec_boolean nested ''enabled'' = Inr ne"
            by (auto simp: rbind_eq_Inr MAX_COMBO_NESTING_DEPTH_def)
          show thesis
          proof (cases ne)
            case False
            with go found n ne show thesis
              by (intro that(1)) (auto simp: MAX_COMBO_NESTING_DEPTH_def row_leaves_def combo_routed_def)
          next
            case e: True
            from go found n ne e obtain pt accs where acc: "rec_text nested ''accepted_protocols'' = Inr pt"
              "from_json js pt = Inr accs"
              by (auto simp: rbind_eq_Inr map_err_Inr MAX_COMBO_NESTING_DEPTH_def)
            show thesis
            proof (cases "Protocol_as_str client \<in> set accs")
              case False
              with go found n ne e acc show thesis
                by (intro that(1)) (auto simp: MAX_COMBO_NESTING_DEPTH_def row_leaves_def combo_routed_def)
            next
              case p: True
              from go found n ne e acc p obtain out1 where
                "flatten_route_targets db js c client (path @ [c]) out = Inr out1"
                "flatten_rows db js client path rest out1 = Inr out'"
                by (auto simp: rbind_eq_Inr MAX_COMBO_NESTING_DEPTH_def simp del: flatten_route_targets.simps)
              with go found n ne e acc p show thesis
                by (intro that(6) [OF refers 3]) (auto simp: row_leaves_def combo_routed_def)
            qed
          qed
        qed
      qed
    qed
  qed
qed

lemma flatten_route_rows:
  assumes "flatten_route_targets db js route_id client path out = Inr out'"
  obtains rs where "scan_route_rows db route_id = Inr rs" "32 < length rs" "out' = out\<lparr>flat_issue := Some (TooManyTargets (length rs))\<rparr>"
  | rs where "scan_route_rows db route_id = Inr rs" "length rs \<le> 32" "flatten_rows db js client path rs out = Inr out'"
proof -
  from assms obtain rs where rs: "scan_route_rows db route_id = Inr rs"
    "(if 32 < length rs then Inr (out\<lparr>flat_issue := Some (TooManyTargets (length rs))\<rparr>)
      else flatten_rows db js client path rs out) = Inr out'"
    by (auto simp: rbind_eq_Inr MAX_ROUTE_TARGETS_def)
  show thesis
    by (cases "32 < length rs") (use that rs in auto)
qed


declare flatten_rows.simps(2) [simp del] flatten_route_targets.simps [simp del]

text \<open>Without an issue the loop appends the leaves of its rows, in order, and never more than 32 in all.\<close>

lemma flatten_rows_leaves:
  assumes "flatten_rows db js client path rs out = Inr out'" "length path \<le> 9" "flat_issue out' = None"
    "length (flat_targets out) \<le> 32"
  shows "flat_targets out' = flat_targets out @ concat (map (row_leaves db js client (leaves (9 - length path) db js client)) rs)"
    and "length (flat_targets out') \<le> 32"
proof -
  have "flat_targets out' = flat_targets out @ concat (map (row_leaves db js client (leaves (9 - length path) db js client)) rs) \<and>
      length (flat_targets out') \<le> 32"
    using assms
  proof (induction "9 - length path" arbitrary: path rs out out' rule: less_induct)
    case less
    note nested_ih = less.hyps
    show ?case
      using less.prems
    proof (induction rs arbitrary: out)
      case (Cons row rest)
      obtain k r where row: "row = (k, r)" by fastforce
      have no: "flat_issue out = None"
        using Cons.prems(1,3) by (metis flatten_rows_issue sum.inject(2))
      from Cons.prems(1) [unfolded row] no show ?case
      proof (cases rule: flatten_row_cases)
        case skip
        note ih = Cons.IH [OF skip(1) Cons.prems(2-4)]
        show ?thesis by (intro conjI conjunct2 [OF ih]) (use ih row skip(2) in simp)
      next
        case (leaf t)
        let ?o = "check_expanded (out\<lparr>flat_targets := flat_targets out @ [t]\<rparr>)"
        have "flat_issue ?o = None" using leaf(2) Cons.prems(3) by (metis flatten_rows_issue sum.inject(2))
        then have "length (flat_targets ?o) \<le> 32" by (simp add: check_expanded_None)
        note ih = Cons.IH [OF leaf(2) Cons.prems(2,3) this]
        show ?thesis by (intro conjI conjunct2 [OF ih]) (use ih row leaf(1) in \<open>simp add: check_expanded_None\<close>)
      next
        case (nested c out1)
        have "flat_issue out1 = None" using nested(6) Cons.prems(3) by (metis flatten_rows_issue sum.inject(2))
        moreover from nested(5) obtain rs1 where rs1: "scan_route_rows db c = Inr rs1"
          "flatten_rows db js client (path @ [c]) rs1 out = Inr out1"
          using calculation by (cases rule: flatten_route_rows) auto
        moreover have "9 - length (path @ [c]) < 9 - length path" "length (path @ [c]) \<le> 9" using nested(3) by simp_all
        ultimately have "flat_targets out1 = flat_targets out @
            concat (map (row_leaves db js client (leaves (9 - length (path @ [c])) db js client)) rs1) \<and> length (flat_targets out1) \<le> 32"
          using nested_ih Cons.prems(4) by blast
        moreover have "9 - length path = Suc (9 - length (path @ [c]))" using nested(3) by simp
        ultimately have one: "flat_targets out1 = flat_targets out @ leaves (9 - length path) db js client c"
          and len: "length (flat_targets out1) \<le> 32"
          using rs1(1) by (simp, blast)
        note ih = Cons.IH [OF nested(6) Cons.prems(2,3) len]
        show ?thesis by (intro conjI conjunct2 [OF ih]) (use ih row nested(4) one in simp)
      qed (use Cons.prems(3) in simp_all)
    qed simp
  qed
  then show "flat_targets out' = flat_targets out @ concat (map (row_leaves db js client (leaves (9 - length path) db js client)) rs)"
    and "length (flat_targets out') \<le> 32" by blast+
qed

text \<open>The references between combos, and what each reported issue means.\<close>

definition refers :: "'s key_db \<Rightarrow> string \<Rightarrow> string \<Rightarrow> bool" where
  "refers db a c \<longleftrightarrow> (\<exists>rs k r. scan_route_rows db a = Inr rs \<and> (k, r) \<in> set rs \<and> row_refers r c)"

fun issue_justified :: "'s key_db \<Rightarrow> FlattenIssue \<Rightarrow> bool" where
  "issue_justified db (TooManyTargets n) \<longleftrightarrow> 32 < n"
| "issue_justified db (MissingCombo c) \<longleftrightarrow> get_record db Routes c = Inr None"
| "issue_justified db (Cycle c) \<longleftrightarrow> (c, c) \<in> {(a, b). refers db a b}\<^sup>+"
| "issue_justified db (Depth c) \<longleftrightarrow> (\<exists>chain. length chain = 10 \<and> distinct chain \<and> last chain = c \<and> successively (refers db) chain)"

lemma chain_trancl:
  assumes "successively R path" "path \<noteq> []" "c \<in> set path" "R (last path) c"
  shows "(c, c) \<in> {(a, b). R a b}\<^sup>+"
proof -
  have "(x, last path) \<in> {(a, b). R a b}\<^sup>*" if "x \<in> set path" for x
    using assms(1,2) that
  proof (induction path arbitrary: x)
    case (Cons a path)
    show ?case
    proof (cases path)
      case (Cons b bs)
      with Cons.prems have ab: "(a, b) \<in> {(a, b). R a b}" and "successively R path" by auto
      then have tail: "y \<in> set path \<Longrightarrow> (y, last path) \<in> {(a, b). R a b}\<^sup>*" for y
        using Cons.IH [of y] Cons by simp
      show ?thesis
      proof (cases "x = a")
        case True
        have "(b, last path) \<in> {(a, b). R a b}\<^sup>*" using tail Cons by simp
        with ab True Cons show ?thesis by (auto intro: converse_rtrancl_into_rtrancl)
      next
        case False
        with Cons.prems tail Cons show ?thesis by auto
      qed
    qed (use Cons.prems in simp)
  qed simp
  with assms(3,4) show ?thesis by (metis case_prodI mem_Collect_eq rtrancl_into_trancl1)
qed

lemma flatten_rows_issue_justified:
  assumes "flatten_rows db js client path rs out = Inr out'" "flat_issue out = None" "flat_issue out' = Some i"
    "path \<noteq> []" "length path \<le> 9" "distinct path" "successively (refers db) path"
    "\<And>k r c. (k, r) \<in> set rs \<Longrightarrow> row_refers r c \<Longrightarrow> refers db (last path) c"
  shows "issue_justified db i"
  using assms
proof (induction "9 - length path" arbitrary: path rs out rule: less_induct)
  case less
  note nested_ih = less.hyps
  show ?case
    using less.prems
  proof (induction rs arbitrary: out)
    case (Cons row rest)
    obtain k r where row: "row = (k, r)" by fastforce
    have edge: "refers db (last path) c" if "row_refers r c" for c
      by (rule Cons.prems(8) [of k r]) (use row that in simp_all)
    have rest: "refers db (last path) c" if "(k, r) \<in> set rest" "row_refers r c" for k r c
      by (rule Cons.prems(8) [of k r]) (use that in simp_all)
    from Cons.prems(1) [unfolded row] Cons.prems(2) show ?case
    proof (cases rule: flatten_row_cases)
      case skip
      show ?thesis by (rule Cons.IH [OF skip(1)]) (use Cons.prems rest in auto)
    next
      case (leaf t)
      let ?o = "check_expanded (out\<lparr>flat_targets := flat_targets out @ [t]\<rparr>)"
      show ?thesis
      proof (cases "flat_issue ?o")
        case None
        show ?thesis by (rule Cons.IH [OF leaf(2) None]) (use Cons.prems rest in auto)
      next
        case (Some j)
        then have "out' = ?o" using leaf(2) flatten_rows_issue [of ?o db js client path rest] by simp
        with Some Cons.prems(2,3) show ?thesis by (auto simp: check_expanded_def MAX_ROUTE_TARGETS_def split: if_splits)
      qed
    next
      case (cycle c)
      with Cons.prems(3) chain_trancl [OF Cons.prems(7,4) cycle(2) edge [OF cycle(1)]] show ?thesis by auto
    next
      case (depth c)
      have "successively (refers db) (path @ [c])"
        using Cons.prems(4,7) edge [OF depth(1)] by (simp add: successively_append_iff)
      moreover have "length (path @ [c]) = 10" "distinct (path @ [c])" "last (path @ [c]) = c"
        using depth(2,3) Cons.prems(5,6) by auto
      ultimately have "issue_justified db (Depth c)" unfolding issue_justified.simps by blast
      with Cons.prems(3) depth(4) show ?thesis by simp
    next
      case (missing c)
      with Cons.prems(3) show ?thesis by auto
    next
      case (nested c out1)
      let ?p = "path @ [c]"
      have p: "?p \<noteq> []" "length ?p \<le> 9" "distinct ?p" "successively (refers db) ?p"
        using nested(1-3) Cons.prems(4,6,7) edge by (simp_all add: successively_append_iff)
      show ?thesis
      proof (cases "flat_issue out1")
        case None
        show ?thesis by (rule Cons.IH [OF nested(6) None]) (use Cons.prems rest in auto)
      next
        case (Some j)
        then have eq: "out1 = out'" using nested(6) flatten_rows_issue [of out1 db js client path rest] by simp
        from nested(5) show ?thesis
        proof (cases rule: flatten_route_rows)
          case (1 rs1)
          with eq Cons.prems(3) show ?thesis by auto
        next
          case (2 rs1)
          show ?thesis
          proof (rule nested_ih [OF _ 2(3) [unfolded eq] Cons.prems(2,3) p])
            show "9 - length (path @ [c]) < 9 - length path" using nested(3) by simp
            show "refers db (last (path @ [c])) c'" if "(k', r') \<in> set rs1" "row_refers r' c'" for k' r' c'
              using 2(1) that by (auto simp: refers_def)
          qed
        qed
      qed
    qed
  qed simp
qed

lemma flatten_result:
  assumes "flatten_route_targets db js route_id client [route_id] \<lparr>flat_targets = [], flat_issue = None\<rparr> = Inr out"
  shows "case flat_issue out of
      None \<Rightarrow> flat_targets out = leaves 9 db js client route_id \<and> length (flat_targets out) \<le> 32
    | Some i \<Rightarrow> issue_justified db i"
proof (cases "flat_issue out")
  case None
  with assms obtain rs where rs: "scan_route_rows db route_id = Inr rs"
    "flatten_rows db js client [route_id] rs \<lparr>flat_targets = [], flat_issue = None\<rparr> = Inr out"
    by (cases rule: flatten_route_rows) auto
  have "leaves 9 db js client route_id = concat (map (row_leaves db js client (leaves 8 db js client)) rs)"
    using rs(1) leaves.simps(2) [of 8 db js client route_id] by simp
  with flatten_rows_leaves [OF rs(2) _ None] None show ?thesis by simp
next
  case (Some i)
  from assms show ?thesis
  proof (cases rule: flatten_route_rows)
    case (1 rs)
    with Some show ?thesis by auto
  next
    case (2 rs)
    from 2(1) have "refers db route_id c" if "(k, r) \<in> set rs" "row_refers r c" for k r c
      using that by (auto simp: refers_def)
    then have "issue_justified db i"
      using flatten_rows_issue_justified [OF 2(3) _ Some] by simp
    with Some show ?thesis by simp
  qed
qed

text \<open>C16: Flattening a stored route always ends. If it reports no issue, the targets are exactly the leaves of the
  nested combos in stored order, at most 32 of them; if it reports one, the issue is real: a combo that refers
  back to itself, a chain of ten nested combos, a reference to a combo that is not stored, or more than 32 rows or
  targets.\<close>

theorem flatten_route_correct:
  assumes "flatten_route_targets db js route_id client [route_id] \<lparr>flat_targets = [], flat_issue = None\<rparr> = Inr out"
  shows "case flat_issue out of
      None \<Rightarrow> flat_targets out = leaves 9 db js client route_id \<and> length (flat_targets out) \<le> 32
    | Some i \<Rightarrow> issue_justified db i"
  using assms by (rule flatten_result)

section \<open>The targets of a request\<close>

lemma candidate_targets_bound:
  assumes "candidate_targets db js route_alias client = Inr (strategy, cs)"
  shows "length cs \<le> 32"
proof -
  obtain route where route: "load_stored_route db js route_alias client = Inr route"
    using assms by (auto simp: candidate_targets_def rbind_eq_Inr map_err_Inr)
  show ?thesis
  proof (cases route)
    case None
    with assms route obtain res where res: "resolve_provider_model_alias db route_alias = Inr res"
      by (auto simp: candidate_targets_def rbind_eq_Inr map_err_Inr)
    show ?thesis
      by (cases res) (use assms route None res in \<open>auto simp: candidate_targets_def\<close>)
  next
    case (Some rt)
    with assms route have rt: "flatten_issue rt = None" "cs = route_targets rt"
      by (auto simp: candidate_targets_def split: if_splits option.splits)
    from route Some obtain out where "flatten_route_targets db js route_alias client [route_alias] \<lparr>flat_targets = [], flat_issue = None\<rparr> = Inr out"
      "route_targets rt = flat_targets out" "flatten_issue rt = flat_issue out"
      by (auto simp: load_stored_route_def rbind_eq_Inr split: option.splits)
    moreover from this rt have "length (flat_targets out) \<le> 32"
      using flatten_result [of db js route_alias client out] by auto
    ultimately show ?thesis using rt(2) by simp
  qed
qed

lemma resolve_targets_props:
  assumes "resolve_gateway_targets db js alias client offset g = (Inr ts, g')"
  shows "ts \<noteq> []" "\<forall>t \<in> set ts. target_enabled t" "length ts \<le> 32"
proof -
  from assms obtain strategy cs where cs: "candidate_targets db js alias client = Inr (strategy, cs)"
    by (auto simp: resolve_gateway_targets_def split: sum.splits)
  have "ts \<noteq> [] \<and> set ts \<subseteq> set (filter target_enabled cs) \<and> length ts = length (filter target_enabled cs)"
    using assms cs by (auto simp: resolve_gateway_targets_def Let_def order_priority_targets_def split: if_splits)
  moreover have "length (filter target_enabled cs) \<le> 32"
    using candidate_targets_bound [OF cs] length_filter_le [of target_enabled cs] by linarith
  ultimately show "ts \<noteq> []" "\<forall>t \<in> set ts. target_enabled t" "length ts \<le> 32" by auto
qed

lemma apply_scope_props:
  assumes "apply_api_key_scope scope m ts = Inr kept" "ts \<noteq> []"
  shows "kept \<noteq> []" "set kept \<subseteq> set ts" "length kept \<le> length ts"
    "\<And>sc. scope = Some sc \<Longrightarrow> allows_model sc m \<and> (\<forall>t \<in> set kept. allows_provider sc (target_provider_id t))"
  using assms by (auto simp: apply_api_key_scope_def Let_def allows_provider_def split: option.splits if_splits)

text \<open>C17: A prepared request has between one and 32 targets, all enabled; if its API key has a scope, the requested
  model and the provider of every target are allowed by it; and the session id given to adapters is non-empty, at
  most 128 bytes long and free of unsafe characters whatever the client's headers hold.\<close>

theorem prepared_request_ok:
  assumes "prepare_gateway_request db js hs uuid uuid' decoded client limits akey key scope offset g = (Inr p, g')"
    and "session_id_ok uuid'"
  shows "1 \<le> length (prepared_targets p) \<and> length (prepared_targets p) \<le> 32 \<and>
    (\<forall>t \<in> set (prepared_targets p). target_enabled t) \<and>
    (\<forall>sc. scope = Some sc \<longrightarrow> allows_model sc (prepared_route_alias p) \<and>
       (\<forall>t \<in> set (prepared_targets p). allows_provider sc (target_provider_id t))) \<and>
    session_id_ok (prepared_session_id p)"
proof -
  from assms(1) obtain c where d: "decoded = Inr c"
    by (cases decoded) (simp_all add: prepare_gateway_request_def Let_def)
  obtain r g1 where r: "resolve_gateway_targets db js (canonical_model c) client offset g = (r, g1)" by fastforce
  from assms(1) d r obtain ts where ts: "r = Inr ts" "g1 = g'"
    by (cases r) (simp_all add: prepare_gateway_request_def Let_def)
  note c1 = r [unfolded ts]
  from assms(1) d r ts obtain kept where c2: "apply_api_key_scope scope (canonical_model c) ts = Inr kept"
    by (auto simp: prepare_gateway_request_def Let_def rbind_eq_Inr)
  note c = c1 c2
  have p: "prepared_targets p = kept" "prepared_route_alias p = canonical_model c"
      "prepared_session_id p = adapter_session_id hs (request_id_of hs uuid) uuid'"
    using assms(1) d r ts c2 by (auto simp: prepare_gateway_request_def Let_def)
  note ts = resolve_targets_props [OF c(1)]
  note kept = apply_scope_props [OF c(2) ts(1)]
  have "session_id_ok (prepared_session_id p)"
    using assms(2) unfolding p(3) adapter_session_id_def Let_def by (auto split: option.splits if_splits)
  moreover have "1 \<le> length kept" using kept(1) by (cases kept) simp_all
  ultimately show ?thesis using p(1,2) kept ts by auto
qed

text \<open>Requests to one route, one after the other.\<close>

fun resolve_run ::
  "nat \<Rightarrow> 's key_db \<Rightarrow> json_strings \<Rightarrow> string \<Rightarrow> Protocol \<Rightarrow> gateway_gates
     \<Rightarrow> (GatewayRequestPreparationError + Target list) list" where
  "resolve_run 0 db js alias client g = []"
| "resolve_run (Suc n) db js alias client g =
     (case resolve_gateway_targets db js alias client 0 g of
        (r, g') \<Rightarrow> r # resolve_run n db js alias client g')"

definition rotation_of :: "gateway_gates \<Rightarrow> string \<Rightarrow> nat" where
  "rotation_of g alias = (case hm_get (round_robin g) alias of Some n \<Rightarrow> n | None \<Rightarrow> 0)"

lemma mset_rotate_eq: "mset (rotate n xs) = mset xs"
  by (metis append_take_drop_id mset_append rotate_drop_take union_commute)

lemma resolve_run_round_robin:
  assumes "candidate_targets db js alias client = Inr (''round_robin'', cs)" "filter target_enabled cs \<noteq> []"
  shows "rotation_of g alias + n \<le> 2 ^ 64 \<Longrightarrow> resolve_run n db js alias client g =
    map (\<lambda>i. Inr (rotate ((rotation_of g alias + i) mod length (filter target_enabled cs)) (filter target_enabled cs))) [0 ..< n]"
proof (induction n arbitrary: g)
  case (Suc n)
  let ?ts = "filter target_enabled cs"
  let ?g = "g\<lparr>round_robin := hm_insert alias ((rotation_of g alias + 1) mod 2 ^ 64) (round_robin g)\<rparr>"
  have step: "resolve_gateway_targets db js alias client 0 g = (Inr (rotate (rotation_of g alias mod length ?ts) ?ts), ?g)"
    using assms by (simp add: resolve_gateway_targets_def Let_def rotation_of_def)
  show ?case
  proof (cases n)
    case 0
    with step show ?thesis by simp
  next
    case (Suc m)
    then have "rotation_of ?g alias = rotation_of g alias + 1"
      using Suc.prems by (simp add: rotation_of_def hm_get_insert)
    with Suc.IH [of ?g] Suc.prems have "resolve_run n db js alias client ?g =
        map (\<lambda>i. Inr (rotate ((rotation_of g alias + Suc i) mod length ?ts) ?ts)) [0 ..< n]" by simp
    also have "\<dots> = map (\<lambda>i. Inr (rotate ((rotation_of g alias + i) mod length ?ts) ?ts)) (map Suc [0 ..< n])" by simp
    finally show ?thesis using step by (simp add: map_Suc_upt upt_conv_Cons del: upt_Suc)
  qed
qed simp

text \<open>C39: Round robin is fair: as many consecutive requests to a route as it has enabled targets start with each
  target exactly once, in the configured order from the current position, and every request gets all the targets.\<close>

theorem round_robin_fair:
  assumes "candidate_targets db js alias client = Inr (''round_robin'', cs)"
    and "ts = filter target_enabled cs" "ts \<noteq> []" "rotation_of g alias + length ts \<le> 2 ^ 64"
  shows "map (\<lambda>r. case r of Inr order \<Rightarrow> Some (hd order) | Inl _ \<Rightarrow> None) (resolve_run (length ts) db js alias client g) =
      map Some (rotate (rotation_of g alias) ts) \<and>
    (\<forall>r \<in> set (resolve_run (length ts) db js alias client g). \<exists>order. r = Inr order \<and> mset order = mset ts)"
proof -
  let ?c = "rotation_of g alias"
  have run: "resolve_run (length ts) db js alias client g = map (\<lambda>i. Inr (rotate ((?c + i) mod length ts) ts)) [0 ..< length ts]"
    using resolve_run_round_robin [OF assms(1)] assms(2-4) by simp
  have "map (\<lambda>i. hd (rotate ((?c + i) mod length ts) ts)) [0 ..< length ts] = rotate ?c ts"
    using assms(3) by (intro nth_equalityI) (simp_all add: hd_rotate_conv_nth nth_rotate)
  then have "map Some (rotate ?c ts) = map (\<lambda>i. Some (hd (rotate ((?c + i) mod length ts) ts))) [0 ..< length ts]"
    by (metis (no_types, lifting) comp_apply map_map map_cong)
  then show ?thesis unfolding run by (auto simp: comp_def mset_rotate_eq)
qed

section \<open>A stored example\<close>

text \<open>Route \<open>a\<close> has a target and the combo \<open>b\<close>, which has one target itself.\<close>

definition stored_row :: "bytes \<Rightarrow> Record" where
  "stored_row bs =
     (if bs = [3] then [(''enabled'', Bool True), (''accepted_protocols'', Text ''[]''), (''strategy'', Text ''round_robin'')]
      else if bs = [1] then [(''enabled'', Bool True), (''combo_id'', Text ''b'')]
      else [(''enabled'', Bool True), (''provider_id'', Text (''p'' @ map char_of bs)), (''model'', Text ''m'')])"

definition route_db :: "contents key_db" where
  "route_db =
     \<lparr>kd_heed = mem_heed,
      kd_ids = \<lparr>serialize = (\<lambda>_. Inl []), deserialize = (\<lambda>bs. Inr [])\<rparr>,
      kd_records = \<lparr>serialize = (\<lambda>_. Inl []), deserialize = (\<lambda>bs. Inr (stored_row bs))\<rparr>,
      kd_zstd = stored_zstd, kd_dictionary = None, kd_sha = (\<lambda>_. [0]),
      kd_snapshot = (\<lambda>t. if t = Routes then [(''a'', [3]), (''b'', [3])]
        else if t = RouteTargets then [(''r/61/0'', [48]), (''r/61/1'', [1]), (''r/62/0'', [50])] else []),
      kd_now = 100\<rparr>"

definition all_protocols :: json_strings where
  "all_protocols = \<lparr>to_json = (\<lambda>_. Inl []), from_json = (\<lambda>_. Inr [Protocol_as_str ChatCompletions])\<rparr>"

abbreviation leaf_target :: "string \<Rightarrow> Target" where
  "leaf_target p \<equiv> \<lparr>target_provider_id = p, target_model = ''m'', target_protocol = None,
     target_model_protocol = None, target_enabled = True\<rparr>"

lemma example_rows:
  "scan_route_rows route_db ''a'' = Inr [(''r/61/0'', stored_row [48]), (''r/61/1'', stored_row [1])]"
  "scan_route_rows route_db ''b'' = Inr [(''r/62/0'', stored_row [50])]"
  by code_simp+

lemma example_targets:
  "build_target route_db (stored_row [48]) = Inr (leaf_target ''p0'')"
  "build_target route_db (stored_row [50]) = Inr (leaf_target ''p2'')"
  by code_simp+

lemma example_flatten:
  "flatten_route_targets route_db all_protocols ''a'' ChatCompletions [''a''] \<lparr>flat_targets = [], flat_issue = None\<rparr> =
     Inr \<lparr>flat_targets = [leaf_target ''p0'', leaf_target ''p2''], flat_issue = None\<rparr>"
  by code_simp

lemma example_candidates:
  "candidate_targets route_db all_protocols ''a'' ChatCompletions = Inr (''round_robin'', [leaf_target ''p0'', leaf_target ''p2''])"
  by code_simp

theorem flatten_route_correct_witness:
  "leaves 9 route_db all_protocols ChatCompletions ''a'' = [leaf_target ''p0'', leaf_target ''p2'']"
  using flatten_route_correct [OF example_flatten] by simp

lemma example_ids:
  "request_id_of (\<lambda>_. None) ''u'' = ''u''" "adapter_session_id (\<lambda>_. None) ''u'' ''v'' = ''u''" "session_id_ok ''v''"
  by code_simp+

lemma example_prepare:
  "prepare_gateway_request route_db all_protocols (\<lambda>_. None) ''u'' ''v'' (Inr (example_canonical [] \<lparr>canonical_model := ''a'', canonical_stream := True\<rparr>))
     ChatCompletions limits_default None None (Some \<lparr>allowed_provider_ids = [''p2''], allowed_models = []\<rparr>) 0
     \<lparr>circuits = undefined, provider_in_flight = undefined, provider_key_cursors = [], round_robin = []\<rparr> =
   (Inr \<lparr>prepared_request_id = ''u'', prepared_api_key_id = None, prepared_session_id = ''u'',
       prepared_canonical = example_canonical [] \<lparr>canonical_model := ''a'', canonical_stream := True\<rparr>, prepared_route_alias = ''a'',
       prepared_targets = [leaf_target ''p2''], background_continuity = False\<rparr>,
    \<lparr>circuits = undefined, provider_in_flight = undefined, provider_key_cursors = [], round_robin = [(''a'', 1)]\<rparr>)"
  by (simp add: prepare_gateway_request_def resolve_gateway_targets_def example_candidates example_ids hm_get_def
      hm_insert_def apply_api_key_scope_def allows_model_def allows_provider_def limits_default_def option_or_def Let_def)

theorem prepared_request_ok_witness:
  "allows_provider \<lparr>allowed_provider_ids = [''p2''], allowed_models = []\<rparr> ''p2'' \<and> session_id_ok ''u''"
  using prepared_request_ok [OF example_prepare example_ids(3)] by simp

lemma rotate_three: "rotate 3 xs = rotate1 (rotate1 (rotate1 xs))"
  by (simp add: rotate_def numeral_3_eq_3)

theorem round_robin_fair_witness:
  "map (\<lambda>r. case r of Inr order \<Rightarrow> Some (hd order) | Inl _ \<Rightarrow> None)
     (resolve_run 2 route_db all_protocols ''a'' ChatCompletions
       \<lparr>circuits = undefined, provider_in_flight = undefined, provider_key_cursors = [], round_robin = [(''a'', 3)]\<rparr>) =
   [Some (leaf_target ''p2''), Some (leaf_target ''p0'')]"
  using round_robin_fair [OF example_candidates, of "[leaf_target ''p0'', leaf_target ''p2'']"
      "\<lparr>circuits = undefined, provider_in_flight = undefined, provider_key_cursors = [], round_robin = [(''a'', 3)]\<rparr>"]
  by (simp add: rotation_of_def hm_get_def rotate_three del: resolve_run.simps) (simp add: numeral_2_eq_2)

end
