(* ===== verification/IpAddresses.thy ===== *)
theory IpAddresses
  imports Text "HOL-Library.Word"
begin

text \<open>
  IP addresses as machine words with their tests from \<open>std::net\<close>, the classification of
  \<^verbatim>\<open>src/security/egress/url.rs\<close>, and a reference classification by address blocks it is compared with.
\<close>

unbundle bit_operations_syntax

section \<open>Addresses of the standard library\<close>

datatype Ipv4Addr = Ipv4Addr "8 word" "8 word" "8 word" "8 word"

datatype Ipv6Addr = Ipv6Addr "16 word" "16 word" "16 word" "16 word" "16 word" "16 word" "16 word" "16 word"

datatype IpAddr = V4 Ipv4Addr | V6 Ipv6Addr

type_synonym SocketAddr = "IpAddr \<times> nat"

fun v4_octets :: "Ipv4Addr \<Rightarrow> 8 word list" where
  "v4_octets (Ipv4Addr a b c d) = [a, b, c, d]"

fun v6_segments :: "Ipv6Addr \<Rightarrow> 16 word list" where
  "v6_segments (Ipv6Addr a b c d e f g h) = [a, b, c, d, e, f, g, h]"

fun v4_is_unspecified :: "Ipv4Addr \<Rightarrow> bool" where
  "v4_is_unspecified (Ipv4Addr a b c d) = (a = 0 \<and> b = 0 \<and> c = 0 \<and> d = 0)"

fun v4_is_multicast :: "Ipv4Addr \<Rightarrow> bool" where
  "v4_is_multicast (Ipv4Addr a b c d) = (224 \<le> a \<and> a \<le> 239)"

fun v4_is_broadcast :: "Ipv4Addr \<Rightarrow> bool" where
  "v4_is_broadcast (Ipv4Addr a b c d) = (a = 255 \<and> b = 255 \<and> c = 255 \<and> d = 255)"

fun v4_is_link_local :: "Ipv4Addr \<Rightarrow> bool" where
  "v4_is_link_local (Ipv4Addr a b c d) = (a = 169 \<and> b = 254)"

fun v4_is_loopback :: "Ipv4Addr \<Rightarrow> bool" where
  "v4_is_loopback (Ipv4Addr a b c d) = (a = 127)"

fun v4_is_private :: "Ipv4Addr \<Rightarrow> bool" where
  "v4_is_private (Ipv4Addr a b c d) = (a = 10 \<or> a = 172 \<and> 16 \<le> b \<and> b \<le> 31 \<or> a = 192 \<and> b = 168)"

fun v6_is_unspecified :: "Ipv6Addr \<Rightarrow> bool" where
  "v6_is_unspecified ip = (ip = Ipv6Addr 0 0 0 0 0 0 0 0)"

fun v6_is_loopback :: "Ipv6Addr \<Rightarrow> bool" where
  "v6_is_loopback ip = (ip = Ipv6Addr 0 0 0 0 0 0 0 1)"

fun v6_is_multicast :: "Ipv6Addr \<Rightarrow> bool" where
  "v6_is_multicast (Ipv6Addr a b c d e f g h) = (a AND 0xff00 = 0xff00)"

fun v6_is_unicast_link_local :: "Ipv6Addr \<Rightarrow> bool" where
  "v6_is_unicast_link_local (Ipv6Addr a b c d e f g h) = (a AND 0xffc0 = 0xfe80)"

fun v6_is_unique_local :: "Ipv6Addr \<Rightarrow> bool" where
  "v6_is_unique_local (Ipv6Addr a b c d e f g h) = (a AND 0xfe00 = 0xfc00)"

definition high_byte :: "16 word \<Rightarrow> 8 word" where
  "high_byte w = ucast (drop_bit 8 w)"

definition low_byte :: "16 word \<Rightarrow> 8 word" where
  "low_byte w = ucast w"

fun to_ipv4_mapped :: "Ipv6Addr \<Rightarrow> Ipv4Addr option" where
  "to_ipv4_mapped (Ipv6Addr a b c d e f g h) =
     (if a = 0 \<and> b = 0 \<and> c = 0 \<and> d = 0 \<and> e = 0 \<and> f = 0xffff
      then Some (Ipv4Addr (high_byte g) (low_byte g) (high_byte h) (low_byte h)) else None)"

fun ip_is_loopback :: "IpAddr \<Rightarrow> bool" where
  "ip_is_loopback (V4 ip) = v4_is_loopback ip"
| "ip_is_loopback (V6 ip) = v6_is_loopback ip"

section \<open>Classification of addresses\<close>

datatype IpClass = Public | Local | AlwaysBlocked

fun classify_ipv4 :: "Ipv4Addr \<Rightarrow> IpClass" where
  "classify_ipv4 (Ipv4Addr a b c d) =
     (let ip = Ipv4Addr a b c d in
      if v4_is_unspecified ip \<or> v4_is_multicast ip \<or> v4_is_broadcast ip then AlwaysBlocked
      else if v4_is_link_local ip \<or> ip = Ipv4Addr 168 63 129 16 then AlwaysBlocked
      else if v4_is_loopback ip \<or> v4_is_private ip then Local
      else if a = 0
        \<or> (a = 100 \<and> 64 \<le> b \<and> b \<le> 127)
        \<or> (a = 192 \<and> b = 0 \<and> c = 0)
        \<or> (a = 192 \<and> b = 0 \<and> c = 2)
        \<or> (a = 192 \<and> b = 88 \<and> c = 99)
        \<or> (a = 198 \<and> (b = 18 \<or> b = 19))
        \<or> (a = 198 \<and> b = 51 \<and> c = 100)
        \<or> (a = 203 \<and> b = 0 \<and> c = 113)
        \<or> 224 \<le> a then AlwaysBlocked
      else Public)"

definition classify_ipv6 :: "Ipv6Addr \<Rightarrow> IpClass" where
  "classify_ipv6 ip =
     (if v6_is_unspecified ip \<or> v6_is_multicast ip then AlwaysBlocked
      else if v6_is_unicast_link_local ip \<or> ip = Ipv6Addr 0xfd00 0x0ec2 0 0 0 0 0 0x0254 then AlwaysBlocked
      else if v6_is_loopback ip \<or> v6_is_unique_local ip then Local
      else
        case to_ipv4_mapped ip of
          Some ipv4 \<Rightarrow> classify_ipv4 ipv4
        | None \<Rightarrow>
            (let seg = v6_segments ip in
             if (seg ! 0 AND 0xffc0) = 0x2000 \<and> seg ! 1 = 0x0db8
               \<or> (seg ! 0 AND 0xff00) = 0x2000 \<and> seg ! 0 = 0x2002
               \<or> (seg ! 0 = 0x0064 \<and> seg ! 1 = 0xff9b \<and> list_all (\<lambda>v. v = 0) (drop 2 seg))
               \<or> (seg ! 0 AND 0xffe0) = 0x2000 \<and> (seg ! 0 AND 0xfff0) = 0x2000 \<and> seg ! 1 \<le> 0x01ff
             then AlwaysBlocked
             else if (seg ! 0 AND 0xe000) \<noteq> 0x2000 then AlwaysBlocked
             else Public))"

fun classify_ip :: "IpAddr \<Rightarrow> IpClass" where
  "classify_ip (V4 ip) = classify_ipv4 ip"
| "classify_ip (V6 ip) = classify_ipv6 ip"

definition validate_ip_address :: "IpAddr \<Rightarrow> bool \<Rightarrow> string + unit" where
  "validate_ip_address ip allow_local =
     (case classify_ip ip of
        Public \<Rightarrow> Inr ()
      | Local \<Rightarrow>
          if allow_local then Inr ()
          else Inl ''Local provider addresses require explicit local-provider permission''
      | AlwaysBlocked \<Rightarrow> Inl ''Provider address is reserved or unsafe'')"

section \<open>Address blocks\<close>


text \<open>Numbers written digit by digit.\<close>

definition snoc_digit :: "nat \<Rightarrow> nat \<Rightarrow> nat \<Rightarrow> nat" where
  "snoc_digit m x y = x * m + y"

lemma snoc_digit_inj: "y < m \<Longrightarrow> y' < m \<Longrightarrow> snoc_digit m x y = snoc_digit m x' y' \<longleftrightarrow> x = x' \<and> y = y'"
  unfolding snoc_digit_def
  by (metis div_mult_self3 div_less add.right_neutral mod_less mod_mult_self3 mult.commute nat_less_le not_less0)

lemma snoc_digit_div: "y < m \<Longrightarrow> snoc_digit m x y div (m * j) = x div j"
  by (simp add: snoc_digit_def div_mult2_eq)

lemma snoc_digit_div_low: "snoc_digit (n * m) x y div n = snoc_digit m x (y div n)" if "0 < n"
proof -
  have "(x * (n * m) + y) div n = (y + (x * m) * n) div n" by (simp add: ac_simps)
  also have "\<dots> = x * m + y div n" using that by (simp del: mult.assoc)
  finally show ?thesis by (simp add: snoc_digit_def)
qed

lemma div_eq_range: "x div k = q \<longleftrightarrow> q * k \<le> x \<and> x < q * k + k" if "0 < k" for x k q :: nat
proof
  assume "x div k = q"
  then show "q * k \<le> x \<and> x < q * k + k"
    using that dividend_less_div_times [of k x] by auto
next
  assume "q * k \<le> x \<and> x < q * k + k"
  then show "x div k = q" by (intro div_nat_eqI) (auto simp: mult.commute)
qed

definition v4_bits :: "Ipv4Addr \<Rightarrow> nat" where
  "v4_bits ip =
     (case ip of Ipv4Addr a b c d \<Rightarrow>
        snoc_digit 256 (snoc_digit 256 (snoc_digit 256 (unat a) (unat b)) (unat c)) (unat d))"

definition in_cidr :: "nat \<Rightarrow> nat \<Rightarrow> nat \<Rightarrow> nat \<Rightarrow> bool" where
  "in_cidr width base len v = (v div 2 ^ (width - len) = base div 2 ^ (width - len))"

abbreviation v4_cidr :: "8 word \<Rightarrow> 8 word \<Rightarrow> 8 word \<Rightarrow> 8 word \<Rightarrow> nat \<Rightarrow> Ipv4Addr \<Rightarrow> bool" where
  "v4_cidr a b c d len ip \<equiv> in_cidr 32 (v4_bits (Ipv4Addr a b c d)) len (v4_bits ip)"

lemma octet_bound: "unat (a :: 8 word) < 256"
  using unsigned_less [of a] by simp

lemma v4_div:
  "v4_bits (Ipv4Addr a b c d) div (256 * j) = snoc_digit 256 (snoc_digit 256 (unat a) (unat b)) (unat c) div j"
  "v4_bits (Ipv4Addr a b c d) div (65536 * j) = snoc_digit 256 (unat a) (unat b) div j"
  "v4_bits (Ipv4Addr a b c d) div (16777216 * j) = unat a div j"
proof -
  note shift = snoc_digit_div [OF octet_bound]
  show s1: "v4_bits (Ipv4Addr a b c d) div (256 * j) = snoc_digit 256 (snoc_digit 256 (unat a) (unat b)) (unat c) div j" for j
    by (simp add: v4_bits_def shift)
  show s2: "v4_bits (Ipv4Addr a b c d) div (65536 * j) = snoc_digit 256 (unat a) (unat b) div j" for j
    using s1 [of "256 * j"] by (simp add: shift)
  show "v4_bits (Ipv4Addr a b c d) div (16777216 * j) = unat a div j"
    using s2 [of "256 * j"] by (simp add: shift)
qed

lemmas v4_digits = snoc_digit_inj [OF octet_bound octet_bound] word_unat_eq_iff [symmetric]

lemma v4_cidr8: "v4_cidr p q r s 8 (Ipv4Addr a b c d) \<longleftrightarrow> a = p"
  using v4_div(3) [where j = 1] by (simp add: in_cidr_def v4_digits)

lemma v4_cidr16: "v4_cidr p q r s 16 (Ipv4Addr a b c d) \<longleftrightarrow> a = p \<and> b = q"
  using v4_div(2) [where j = 1] by (simp add: in_cidr_def v4_digits)

lemma v4_cidr24: "v4_cidr p q r s 24 (Ipv4Addr a b c d) \<longleftrightarrow> a = p \<and> b = q \<and> c = r"
  using v4_div(1) [where j = 1] by (simp add: in_cidr_def v4_digits)

lemma v4_cidr32: "v4_cidr p q r s 32 (Ipv4Addr a b c d) \<longleftrightarrow> a = p \<and> b = q \<and> c = r \<and> d = s"
  by (simp add: in_cidr_def v4_digits v4_bits_def)

text \<open>A prefix that ends inside the second octet.\<close>

lemma v4_cidr_second:
  assumes n: "(256::nat) = n * m" "65536 * n = (2::nat) ^ (32 - len)"
  shows "v4_cidr p q r s len (Ipv4Addr a b c d) \<longleftrightarrow> a = p \<and> unat b div n = unat q div n"
proof -
  have pos: "0 < n" using n(1) by (cases n) auto
  have bound: "unat y div n < m" for y :: "8 word"
    using octet_bound [of y] n(1) pos by (simp add: less_mult_imp_div_less mult.commute)
  have "v4_bits (Ipv4Addr x y z w) div (65536 * n) = snoc_digit m (unat x) (unat y div n)" for x y z w
    by (simp add: v4_div(2)) (simp add: n(1) snoc_digit_div_low [OF pos])
  then show ?thesis
    by (simp add: in_cidr_def flip: n(2)) (simp add: snoc_digit_inj [OF bound bound] word_unat_eq_iff [symmetric])
qed

lemma v4_cidr_partial:
  "v4_cidr 172 16 0 0 12 (Ipv4Addr a b c d) \<longleftrightarrow> a = 172 \<and> 16 \<le> b \<and> b \<le> 31"
  "v4_cidr 100 64 0 0 10 (Ipv4Addr a b c d) \<longleftrightarrow> a = 100 \<and> 64 \<le> b \<and> b \<le> 127"
  "v4_cidr 198 18 0 0 15 (Ipv4Addr a b c d) \<longleftrightarrow> a = 198 \<and> (b = 18 \<or> b = 19)"
  "v4_cidr 224 0 0 0 3 (Ipv4Addr a b c d) \<longleftrightarrow> 224 \<le> a"
proof -
  have "unat b div 16 = 1 \<longleftrightarrow> 16 \<le> unat b \<and> unat b \<le> 31" by (auto simp: div_eq_range)
  then show "v4_cidr 172 16 0 0 12 (Ipv4Addr a b c d) \<longleftrightarrow> a = 172 \<and> 16 \<le> b \<and> b \<le> 31"
    using v4_cidr_second [of 16 16 12 172 16 0 0 a b c d] by (simp add: word_le_nat_alt)
  have "unat b div 64 = 1 \<longleftrightarrow> 64 \<le> unat b \<and> unat b \<le> 127" by (auto simp: div_eq_range)
  then show "v4_cidr 100 64 0 0 10 (Ipv4Addr a b c d) \<longleftrightarrow> a = 100 \<and> 64 \<le> b \<and> b \<le> 127"
    using v4_cidr_second [of 64 4 10 100 64 0 0 a b c d] by (simp add: word_le_nat_alt)
  have "unat b div 2 = 9 \<longleftrightarrow> unat b = unat (18 :: 8 word) \<or> unat b = unat (19 :: 8 word)" by (auto simp: div_eq_range)
  moreover have "unat b = 18 \<longleftrightarrow> b = 18" "unat b = 19 \<longleftrightarrow> b = 19"
    using word_unat_eq_iff [of b 18] word_unat_eq_iff [of b 19] by simp_all
  ultimately show "v4_cidr 198 18 0 0 15 (Ipv4Addr a b c d) \<longleftrightarrow> a = 198 \<and> (b = 18 \<or> b = 19)"
    using v4_cidr_second [of 2 128 15 198 18 0 0 a b c d] by simp
  have "unat a div 32 = 7 \<longleftrightarrow> 224 \<le> unat a" using octet_bound [of a] by (auto simp: div_eq_range)
  then show "v4_cidr 224 0 0 0 3 (Ipv4Addr a b c d) \<longleftrightarrow> 224 \<le> a"
    using v4_div(3) [where j = 32] by (simp add: in_cidr_def word_le_nat_alt)
qed

section \<open>The classes as blocks\<close>

definition v4_blocked :: "Ipv4Addr \<Rightarrow> bool" where
  "v4_blocked ip \<longleftrightarrow>
     v4_cidr 0 0 0 0 8 ip \<or> v4_cidr 100 64 0 0 10 ip \<or> v4_cidr 168 63 129 16 32 ip \<or> v4_cidr 169 254 0 0 16 ip \<or>
     v4_cidr 192 0 0 0 24 ip \<or> v4_cidr 192 0 2 0 24 ip \<or> v4_cidr 192 88 99 0 24 ip \<or> v4_cidr 198 18 0 0 15 ip \<or>
     v4_cidr 198 51 100 0 24 ip \<or> v4_cidr 203 0 113 0 24 ip \<or> v4_cidr 224 0 0 0 3 ip"

definition v4_local :: "Ipv4Addr \<Rightarrow> bool" where
  "v4_local ip \<longleftrightarrow> v4_cidr 10 0 0 0 8 ip \<or> v4_cidr 127 0 0 0 8 ip \<or> v4_cidr 172 16 0 0 12 ip \<or> v4_cidr 192 168 0 0 16 ip"

lemma classify_ipv4_cidr:
  "classify_ipv4 ip = (if v4_blocked ip then AlwaysBlocked else if v4_local ip then Local else Public)"
proof (cases ip)
  case (Ipv4Addr a b c d)
  have "(239::8 word) < a \<or> a \<le> 239" by auto
  then show ?thesis
    unfolding Ipv4Addr v4_blocked_def v4_local_def v4_cidr8 v4_cidr16 v4_cidr24 v4_cidr32 v4_cidr_partial
    by (auto simp: Let_def)
qed


definition v6_bits :: "Ipv6Addr \<Rightarrow> nat" where
  "v6_bits ip = foldl (\<lambda>n s. snoc_digit 65536 n (unat s)) 0 (v6_segments ip)"

abbreviation v6_cidr :: "Ipv6Addr \<Rightarrow> nat \<Rightarrow> Ipv6Addr \<Rightarrow> bool" where
  "v6_cidr base len ip \<equiv> in_cidr 128 (v6_bits base) len (v6_bits ip)"

lemma segment_bound: "unat (a :: 16 word) < 65536"
  using unsigned_less [of a] by simp

lemma snoc_digit_zero [simp]: "snoc_digit m 0 y = y"
  by (simp add: snoc_digit_def)

lemma v6_bits_eq:
  "v6_bits (Ipv6Addr a b c d e f g h) =
     snoc_digit 65536 (snoc_digit 65536 (snoc_digit 65536 (snoc_digit 65536 (snoc_digit 65536
       (snoc_digit 65536 (snoc_digit 65536 (unat a) (unat b)) (unat c)) (unat d)) (unat e)) (unat f)) (unat g)) (unat h)"
  by (simp add: v6_bits_def)

lemma v6_shift: "snoc_digit 65536 x (unat (y :: 16 word)) div 2 ^ (16 + n) = x div 2 ^ n"
  using snoc_digit_div [OF segment_bound, of x y "2 ^ n"] by (simp add: power_add)

lemma v6_div:
  "v6_bits (Ipv6Addr a b c d e f g h) div 2 ^ (112 + n) = unat a div 2 ^ n"
  "v6_bits (Ipv6Addr a b c d e f g h) div 2 ^ (96 + n) = snoc_digit 65536 (unat a) (unat b) div 2 ^ n"
  "v6_bits (Ipv6Addr a b c d e f g h) div 2 ^ (32 + n) = snoc_digit 65536 (snoc_digit 65536 (snoc_digit 65536
     (snoc_digit 65536 (snoc_digit 65536 (unat a) (unat b)) (unat c)) (unat d)) (unat e)) (unat f) div 2 ^ n"
proof -
  show low: "v6_bits (Ipv6Addr a b c d e f g h) div 2 ^ (32 + n) = snoc_digit 65536 (snoc_digit 65536 (snoc_digit 65536
     (snoc_digit 65536 (snoc_digit 65536 (unat a) (unat b)) (unat c)) (unat d)) (unat e)) (unat f) div 2 ^ n" for n
    unfolding v6_bits_eq using v6_shift [where n = "16 + n"] v6_shift [where n = n] by simp
  show mid: "v6_bits (Ipv6Addr a b c d e f g h) div 2 ^ (96 + n) = snoc_digit 65536 (unat a) (unat b) div 2 ^ n" for n
    using low [of "16 + (16 + (16 + (16 + n)))"] unfolding v6_shift by (simp add: add.commute)
  show "v6_bits (Ipv6Addr a b c d e f g h) div 2 ^ (112 + n) = unat a div 2 ^ n"
    using mid [of "16 + n"] unfolding v6_shift by (simp add: add.commute)
qed

text \<open>A mask with the top bits set keeps the quotient.\<close>

lemma unat_and_high: "unat (a AND NOT (mask k)) = unat a div 2 ^ k * 2 ^ k" for a :: "16 word"
proof -
  have "a AND NOT (mask k) = push_bit k (drop_bit k a)"
    by (rule bit_word_eqI) (auto simp: bit_simps)
  then have "unat (a AND NOT (mask k)) = take_bit 16 (push_bit k (drop_bit k (take_bit 16 (unat a))))"
    by (simp add: unsigned_push_bit_eq unsigned_drop_bit_eq)
  also have "\<dots> = unat a div 2 ^ k * 2 ^ k mod 65536"
    using segment_bound [of a] by (simp add: take_bit_eq_mod push_bit_eq_mult drop_bit_eq_div)
  also have "\<dots> = unat a div 2 ^ k * 2 ^ k"
    using segment_bound [of a] div_times_less_eq_dividend [of "unat a" "2 ^ k"]
    by (intro mod_less) linarith
  finally show ?thesis .
qed

lemma and_high_eq:
  fixes a m :: "16 word"
  assumes "m = NOT (mask k)" "b = q * 2 ^ k" "b < 65536"
  shows "a AND m = of_nat b \<longleftrightarrow> unat a div 2 ^ k = q"
proof -
  have "unat (of_nat b :: 16 word) = b" using assms(3) by (simp add: unat_of_nat)
  then have "a AND m = of_nat b \<longleftrightarrow> unat a div 2 ^ k * 2 ^ k = q * 2 ^ k"
    using assms(1,2) unat_and_high [of a k] by (metis word_unat_eq_iff)
  then show ?thesis by simp
qed

lemma v6_masks:
  fixes a :: "16 word"
  shows "a AND 0xe000 = 0x2000 \<longleftrightarrow> unat a div 2 ^ 13 = 1"
  "a AND 0xff00 = 0xff00 \<longleftrightarrow> unat a div 2 ^ 8 = 255"
  "a AND 0xffc0 = 0xfe80 \<longleftrightarrow> unat a div 2 ^ 6 = 1018"
  "a AND 0xfe00 = 0xfc00 \<longleftrightarrow> unat a div 2 ^ 9 = 126"
proof -
  show "a AND 0xe000 = 0x2000 \<longleftrightarrow> unat a div 2 ^ 13 = 1"
    using and_high_eq [of "0xe000" 13 "0x2000" 1 a] by (simp add: mask_eq_exp_minus_1)
  show "a AND 0xff00 = 0xff00 \<longleftrightarrow> unat a div 2 ^ 8 = 255"
    using and_high_eq [of "0xff00" 8 "0xff00" 255 a] by (simp add: mask_eq_exp_minus_1)
  show "a AND 0xffc0 = 0xfe80 \<longleftrightarrow> unat a div 2 ^ 6 = 1018"
    using and_high_eq [of "0xffc0" 6 "0xfe80" 1018 a] by (simp add: mask_eq_exp_minus_1)
  show "a AND 0xfe00 = 0xfc00 \<longleftrightarrow> unat a div 2 ^ 9 = 126"
    using and_high_eq [of "0xfe00" 9 "0xfc00" 126 a] by (simp add: mask_eq_exp_minus_1)
qed

lemma v6_cidr_first:
  assumes "112 + n = 128 - len"
  shows "v6_cidr (Ipv6Addr p q r s t u v w) len (Ipv6Addr a b c d e f g h) \<longleftrightarrow> unat a div 2 ^ n = unat p div 2 ^ n"
  by (simp add: in_cidr_def v6_div(1) flip: assms)

lemma v6_prefixes:
  fixes a b :: "16 word"
  shows "v6_cidr (Ipv6Addr 0x2000 0 0 0 0 0 0 0) 3 (Ipv6Addr a b c d e f g h) \<longleftrightarrow> a AND 0xe000 = 0x2000"
  "v6_cidr (Ipv6Addr 0xff00 0 0 0 0 0 0 0) 8 (Ipv6Addr a b c d e f g h) \<longleftrightarrow> a AND 0xff00 = 0xff00"
  "v6_cidr (Ipv6Addr 0xfe80 0 0 0 0 0 0 0) 10 (Ipv6Addr a b c d e f g h) \<longleftrightarrow> a AND 0xffc0 = 0xfe80"
  "v6_cidr (Ipv6Addr 0xfc00 0 0 0 0 0 0 0) 7 (Ipv6Addr a b c d e f g h) \<longleftrightarrow> a AND 0xfe00 = 0xfc00"
  "v6_cidr (Ipv6Addr 0x2002 0 0 0 0 0 0 0) 16 (Ipv6Addr a b c d e f g h) \<longleftrightarrow> a = 0x2002"
  unfolding v6_masks
  using v6_cidr_first [of 13 3] v6_cidr_first [of 8 8] v6_cidr_first [of 6 10] v6_cidr_first [of 9 7]
    v6_cidr_first [of 0 16] word_unat_eq_iff [of a "0x2002"] by simp_all

lemma v6_cidr32: "v6_cidr (Ipv6Addr p q r s t u v w) 32 (Ipv6Addr a b c d e f g h) \<longleftrightarrow> a = p \<and> b = q"
  using v6_div(2) [where n = 0] by (simp add: in_cidr_def snoc_digit_inj [OF segment_bound segment_bound] word_unat_eq_iff [symmetric])

lemma v6_cidr23: "v6_cidr (Ipv6Addr 0x2001 0 0 0 0 0 0 0) 23 (Ipv6Addr a b c d e f g h) \<longleftrightarrow> a = 0x2001 \<and> b \<le> 0x01ff"
proof -
  have bound: "unat y div 512 < 128" for y :: "16 word"
    using segment_bound [of y] by (simp add: less_mult_imp_div_less)
  have "v6_bits (Ipv6Addr x y z0 z1 z2 z3 z4 z5) div 2 ^ 105 = snoc_digit 128 (unat x) (unat y div 512)" for x y z0 z1 z2 z3 z4 z5
    using v6_div(2) [where n = 9] snoc_digit_div_low [of 512 128] by simp
  then have "v6_cidr (Ipv6Addr 0x2001 0 0 0 0 0 0 0) 23 (Ipv6Addr a b c d e f g h) \<longleftrightarrow>
      snoc_digit 128 (unat a) (unat b div 512) = snoc_digit 128 0x2001 0"
    by (simp add: in_cidr_def)
  also have "\<dots> \<longleftrightarrow> unat a = 0x2001 \<and> unat b div 512 = 0" by (simp add: snoc_digit_inj [OF bound])
  also have "\<dots> \<longleftrightarrow> a = 0x2001 \<and> b \<le> 0x01ff"
    using word_unat_eq_iff [of a "0x2001"] by (auto simp: word_le_nat_alt div_eq_range)
  finally show ?thesis .
qed

lemma v6_cidr96:
  "v6_cidr (Ipv6Addr 0 0 0 0 0 0xffff 0 0) 96 (Ipv6Addr a b c d e f g h) \<longleftrightarrow>
     a = 0 \<and> b = 0 \<and> c = 0 \<and> d = 0 \<and> e = 0 \<and> f = 0xffff"
proof -
  have "v6_cidr (Ipv6Addr p q r s t u v w) 96 (Ipv6Addr a b c d e f g h) \<longleftrightarrow>
     a = p \<and> b = q \<and> c = r \<and> d = s \<and> e = t \<and> f = u" for p q r s t u v w
    using v6_div(3) [where n = 0]
    by (simp add: in_cidr_def snoc_digit_inj [OF segment_bound segment_bound] word_unat_eq_iff [symmetric])
  then show ?thesis .
qed


text \<open>The IPv4 address inside a mapped one is the low half of its bits.\<close>

lemma byte_split: "snoc_digit 256 (unat (high_byte w)) (unat (low_byte w)) = unat w"
proof -
  have "unat (high_byte w) = unat w div 256"
    using segment_bound [of w]
    by (simp add: high_byte_def unsigned_ucast_eq take_bit_eq_mod drop_bit_eq_div unat_div_distrib less_mult_imp_div_less)
  moreover have "unat (low_byte w) = unat w mod 256"
    by (simp add: low_byte_def unsigned_ucast_eq take_bit_eq_mod)
  ultimately show ?thesis by (simp add: snoc_digit_def)
qed

lemma mapped_bits:
  assumes "to_ipv4_mapped ip = Some v4"
  shows "v4_bits v4 = v6_bits ip mod 2 ^ 32"
proof (cases ip)
  case (Ipv6Addr a b c d e f g h)
  with assms have f: "a = 0" "b = 0" "c = 0" "d = 0" "e = 0" "f = 0xffff"
    and v4: "v4 = Ipv4Addr (high_byte g) (low_byte g) (high_byte h) (low_byte h)"
    by (auto split: if_splits)
  have "v4_bits v4 = snoc_digit 256 (snoc_digit 256 (unat g) (unat (high_byte h))) (unat (low_byte h))"
    using byte_split [of g] by (simp add: v4 v4_bits_def)
  also have "\<dots> = snoc_digit 65536 (unat g) (unat h)"
    using byte_split [of h] by (simp add: snoc_digit_def)
  finally have "v4_bits v4 = snoc_digit 65536 (unat g) (unat h)" .
  moreover have "v6_bits ip = snoc_digit 65536 (snoc_digit 65536 65535 (unat g)) (unat h)"
    using f by (simp add: Ipv6Addr v6_bits_eq)
  moreover have "snoc_digit 65536 (unat g) (unat h) < 2 ^ 32"
    using segment_bound [of g] segment_bound [of h] by (simp add: snoc_digit_def)
  moreover have "snoc_digit 65536 (snoc_digit 65536 65535 (unat g)) (unat h) =
      snoc_digit 65536 (unat g) (unat h) + 65535 * 2 ^ 32"
    by (simp add: snoc_digit_def)
  ultimately show ?thesis by (simp only: mod_mult_self1 mod_less)
qed

abbreviation v6_mapped :: "Ipv6Addr \<Rightarrow> bool" where
  "v6_mapped ip \<equiv> v6_cidr (Ipv6Addr 0 0 0 0 0 0xffff 0 0) 96 ip"

definition embedded_v4 :: "Ipv6Addr \<Rightarrow> Ipv4Addr" where
  "embedded_v4 ip =
     (let n = v6_bits ip mod 2 ^ 32 in
      Ipv4Addr (of_nat (n div 2 ^ 24)) (of_nat (n div 2 ^ 16)) (of_nat (n div 2 ^ 8)) (of_nat n))"

lemma embedded_v4_bits: "v4_bits v4 = n \<Longrightarrow>
    v4 = Ipv4Addr (of_nat (n div 2 ^ 24)) (of_nat (n div 2 ^ 16)) (of_nat (n div 2 ^ 8)) (of_nat n)"
proof -
  assume n: "v4_bits v4 = n"
  obtain a b c d where v4: "v4 = Ipv4Addr a b c d" by (cases v4)
  have zero: "(256 :: 8 word) = 0" by simp
  have of_snoc: "of_nat (snoc_digit 256 x (unat y)) = y" for x and y :: "8 word"
    by (simp add: snoc_digit_def) (simp only: zero mult_zero_right)
  have "n div 2 ^ 8 = snoc_digit 256 (snoc_digit 256 (unat a) (unat b)) (unat c)"
    "n div 2 ^ 16 = snoc_digit 256 (unat a) (unat b)" "n div 2 ^ 24 = unat a"
    using n v4_div [of a b c d 1] by (simp_all add: v4)
  moreover have "of_nat n = d" using n by (simp add: v4 v4_bits_def of_snoc flip: n)
  ultimately show ?thesis by (simp only: v4 of_snoc) simp
qed

lemma to_ipv4_mapped_eq: "to_ipv4_mapped ip = (if v6_mapped ip then Some (embedded_v4 ip) else None)"
proof (cases "to_ipv4_mapped ip")
  case None
  then show ?thesis by (cases ip) (auto simp: v6_cidr96 split: if_splits)
next
  case (Some v4)
  moreover from Some have "v6_mapped ip" by (cases ip) (auto simp: v6_cidr96 split: if_splits)
  moreover have "v4 = embedded_v4 ip"
    unfolding embedded_v4_def Let_def by (rule embedded_v4_bits) (rule mapped_bits [OF Some])
  ultimately show ?thesis by simp
qed

definition v6_metadata :: Ipv6Addr where
  "v6_metadata = Ipv6Addr 0xfd00 0x0ec2 0 0 0 0 0 0x0254"

definition public_address :: "IpAddr \<Rightarrow> bool" where
  "public_address ip =
     (case ip of
        V4 v4 \<Rightarrow> \<not> v4_blocked v4 \<and> \<not> v4_local v4
      | V6 v6 \<Rightarrow>
          if v6_mapped v6 then \<not> v4_blocked (embedded_v4 v6) \<and> \<not> v4_local (embedded_v4 v6)
          else v6_cidr (Ipv6Addr 0x2000 0 0 0 0 0 0 0) 3 v6 \<and>
            \<not> v6_cidr (Ipv6Addr 0x2001 0x0db8 0 0 0 0 0 0) 32 v6 \<and>
            \<not> v6_cidr (Ipv6Addr 0x2002 0 0 0 0 0 0 0) 16 v6 \<and>
            \<not> v6_cidr (Ipv6Addr 0x2001 0 0 0 0 0 0 0) 23 v6)"

definition local_address :: "IpAddr \<Rightarrow> bool" where
  "local_address ip =
     (case ip of
        V4 v4 \<Rightarrow> v4_local v4
      | V6 v6 \<Rightarrow>
          if v6_mapped v6 then v4_local (embedded_v4 v6)
          else v6 = Ipv6Addr 0 0 0 0 0 0 0 1 \<or>
            v6_cidr (Ipv6Addr 0xfc00 0 0 0 0 0 0 0) 7 v6 \<and> v6 \<noteq> v6_metadata)"

lemma v4_blocked_not_local: "v4_blocked ip \<Longrightarrow> \<not> v4_local ip"
proof (cases ip)
  case (Ipv4Addr a b c d)
  assume "v4_blocked ip"
  then show ?thesis
    unfolding Ipv4Addr v4_blocked_def v4_local_def v4_cidr8 v4_cidr16 v4_cidr24 v4_cidr32 v4_cidr_partial by auto
qed

lemma seg_2001: "(0x2001 AND 0xffc0) = (0x2000 :: 16 word)" "(0x2001 AND 0xffe0) = (0x2000 :: 16 word)"
    "(0x2001 AND 0xfff0) = (0x2000 :: 16 word)" "(0x2002 AND 0xff00) = (0x2000 :: 16 word)"
  by simp_all

lemma classify_unmapped:
  assumes "classify_ipv6 ip = Public" "to_ipv4_mapped ip = None" "v6_segments ip = a # b # rest"
  shows "a AND 0xe000 = 0x2000" "\<not> (a AND 0xffc0 = 0x2000 \<and> b = 0x0db8)" "\<not> (a AND 0xff00 = 0x2000 \<and> a = 0x2002)"
    "\<not> (a AND 0xffe0 = 0x2000 \<and> a AND 0xfff0 = 0x2000 \<and> b \<le> 0x01ff)"
  using assms(1) unfolding classify_ipv6_def assms(2,3) Let_def option.case nth_Cons_0 One_nat_def nth_Cons_Suc
  by (metis IpClass.distinct)+

lemma classify_public:
  assumes "classify_ip ip = Public"
  shows "public_address ip"
proof (cases ip)
  case (V4 v4)
  with assms show ?thesis by (simp add: public_address_def classify_ipv4_cidr split: if_splits)
next
  case (V6 v6)
  then have public: "classify_ipv6 v6 = Public" using assms by simp
  show ?thesis
  proof (cases "v6_mapped v6")
    case True
    with public have "classify_ipv4 (embedded_v4 v6) = Public"
      unfolding classify_ipv6_def to_ipv4_mapped_eq by (simp split: if_splits)
    with True V6 show ?thesis by (simp add: public_address_def classify_ipv4_cidr split: if_splits)
  next
    case False
    obtain a b c d e f g h where v6: "v6 = Ipv6Addr a b c d e f g h" by (cases v6)
    have "to_ipv4_mapped v6 = None" using False by (simp add: to_ipv4_mapped_eq)
    note facts = classify_unmapped [OF public this, of a b "[c, d, e, f, g, h]", unfolded v6, simplified]
    have "\<not> (a = 0x2001 \<and> b = 0x0db8)" "a \<noteq> 0x2002" "\<not> (a = 0x2001 \<and> b \<le> 0x01ff)"
      using facts(2-4) seg_2001 by auto
    with facts(1) False V6 show ?thesis
      by (simp add: public_address_def v6 v6_prefixes v6_cidr32 v6_cidr23)
  qed
qed

text \<open>The four tests that precede the mapped addresses.\<close>

lemma v6_tests:
  "v6_is_multicast ip \<longleftrightarrow> unat (hd (v6_segments ip)) div 256 = 255"
  "v6_is_unicast_link_local ip \<longleftrightarrow> unat (hd (v6_segments ip)) div 64 = 1018"
  "v6_is_unique_local ip \<longleftrightarrow> unat (hd (v6_segments ip)) div 512 = 126"
  by (cases ip; use v6_masks [of "hd (v6_segments ip)"] in simp)+

lemma classify_local: "classify_ip ip = Local \<longleftrightarrow> local_address ip"
proof (cases ip)
  case (V4 v4)
  then show ?thesis by (simp add: local_address_def classify_ipv4_cidr v4_blocked_not_local)
next
  case (V6 v6)
  obtain a b c d e f g h where v6: "v6 = Ipv6Addr a b c d e f g h" by (cases v6)
  show ?thesis
  proof (cases "v6_mapped v6")
    case True
    then have "hd (v6_segments v6) = 0" "v6 \<noteq> Ipv6Addr 0 0 0 0 0 0 0 0" "v6 \<noteq> Ipv6Addr 0 0 0 0 0 0 0 1"
        "v6 \<noteq> Ipv6Addr 0xfd00 0x0ec2 0 0 0 0 0 0x0254"
      by (auto simp: v6 v6_cidr96)
    then have "classify_ipv6 v6 = classify_ipv4 (embedded_v4 v6)"
      using True by (simp add: classify_ipv6_def v6_tests to_ipv4_mapped_eq)
    with True V6 show ?thesis by (simp add: local_address_def classify_ipv4_cidr v4_blocked_not_local)
  next
    case False
    let ?n = "unat (hd (v6_segments v6))"
    have "classify_ipv6 v6 = Local \<longleftrightarrow> \<not> v6_is_unspecified v6 \<and> \<not> v6_is_multicast v6 \<and>
        \<not> v6_is_unicast_link_local v6 \<and> v6 \<noteq> v6_metadata \<and> (v6_is_loopback v6 \<or> v6_is_unique_local v6)"
      using False by (simp add: classify_ipv6_def to_ipv4_mapped_eq v6_metadata_def Let_def)
    also have "\<dots> \<longleftrightarrow> v6_is_loopback v6 \<or> v6_is_unique_local v6 \<and> v6 \<noteq> v6_metadata"
    proof -
      have "?n div 512 = 126 \<Longrightarrow> ?n div 256 \<noteq> 255 \<and> ?n div 64 \<noteq> 1018 \<and> ?n \<noteq> 0"
        by (auto simp: div_eq_range)
      moreover have "v6_is_loopback v6 \<Longrightarrow> ?n = 0 \<and> \<not> v6_is_unspecified v6 \<and> v6 \<noteq> v6_metadata"
        by (auto simp: v6_metadata_def)
      moreover have "v6_is_unspecified v6 \<Longrightarrow> ?n = 0" by simp
      ultimately show ?thesis unfolding v6_tests by (metis div_0 zero_neq_numeral)
    qed
    also have "\<dots> \<longleftrightarrow> local_address ip"
      using False V6 v6_prefixes(4) [of a b c d e f g h] by (simp add: local_address_def v6)
    finally show ?thesis using V6 by simp
  qed
qed

text \<open>The classification of IPv4 addresses is exactly a list of address blocks: eleven blocks (0/8, 100.64/10, link
  local, the Azure platform address, documentation, benchmarking, protocol assignments, multicast and reserved) are
  always blocked, the four private and loopback blocks are local, and everything else is public.\<close>

lemma ipv4_classes_exact:
  "classify_ipv4 ip = (if v4_blocked ip then AlwaysBlocked else if v4_local ip then Local else Public)"
  by (rule classify_ipv4_cidr)

text \<open>The test meant for 2001:db8::/32 and for 2001::/23 masks too many bits: ordinary global unicast addresses
  such as those of 2003::/23, outside every block the comment names, are refused as reserved.\<close>

lemma public_ipv6_refused:
  "let ip = Ipv6Addr 0x2003 0xc0 1 2 3 4 5 6 in
     public_address (V6 ip) \<and> validate_ip_address (V6 ip) True = Inl ''Provider address is reserved or unsafe''"
proof -
  let ?ip = "Ipv6Addr 0x2003 0xc0 1 2 3 4 5 6"
  have "\<not> v6_mapped ?ip" by (simp add: v6_cidr96)
  then have "public_address (V6 ?ip)"
    by (simp add: public_address_def v6_prefixes v6_cidr32 v6_cidr23)
  moreover have "classify_ipv6 ?ip = AlwaysBlocked"
    by (simp add: classify_ipv6_def Let_def)
  ultimately show ?thesis by (simp add: validate_ip_address_def)
qed

end
