(* ===== verification/Egress.thy ===== *)
theory Egress
  imports IpAddresses Interfaces
begin

text \<open>
  The egress policy (\<^verbatim>\<open>src/security/egress/\<close>): which provider URLs may be contacted, the names of
  operator-supplied headers and the cache of pinned clients, and the client address of
  \<^verbatim>\<open>src/security/client_ip.rs\<close>. The parser of addresses is the one of the standard library; the URL parser, DNS and
  the HTTP client builder are parameters.
\<close>

section \<open>Parsing addresses\<close>

text \<open>
  \<open>str::parse::<IpAddr>\<close>: the recursive-descent parser of \<open>core::net::parser\<close>. A reader returns the value and the
  rest of the input.
\<close>

definition digit_value :: "char \<Rightarrow> nat option" where
  "digit_value c =
     (let n = code c in
      if 48 \<le> n \<and> n \<le> 57 then Some (n - 48)
      else if 97 \<le> n \<and> n \<le> 102 then Some (n - 87)
      else if 65 \<le> n \<and> n \<le> 70 then Some (n - 55) else None)"

definition is_radix_digit :: "nat \<Rightarrow> char \<Rightarrow> bool" where
  "is_radix_digit radix c = (case digit_value c of Some d \<Rightarrow> d < radix | None \<Rightarrow> False)"

definition digits_value :: "nat \<Rightarrow> string \<Rightarrow> nat" where
  "digits_value radix ds = foldl (\<lambda>n c. n * radix + the (digit_value c)) 0 ds"

text \<open>\<open>read_number\<close>: at most \<open>max_digits\<close> digits, a leading zero only where allowed.\<close>

definition read_number :: "nat \<Rightarrow> nat \<Rightarrow> bool \<Rightarrow> nat \<Rightarrow> string \<Rightarrow> (nat \<times> string) option" where
  "read_number radix max_digits allow_zero_prefix bound s =
     (let ds = takeWhile (is_radix_digit radix) s;
          rest = dropWhile (is_radix_digit radix) s
      in if ds = [] \<or> max_digits < length ds \<or> bound < digits_value radix ds then None
         else if \<not> allow_zero_prefix \<and> hd ds = CHR ''0'' \<and> 1 < length ds then None
         else Some (digits_value radix ds, rest))"

definition read_given_char :: "char \<Rightarrow> string \<Rightarrow> string option" where
  "read_given_char c s = (case s of x # rest \<Rightarrow> if x = c then Some rest else None | [] \<Rightarrow> None)"

text \<open>\<open>read_separator\<close> reads the separator before every item but the first.\<close>

definition read_separator :: "char \<Rightarrow> nat \<Rightarrow> (string \<Rightarrow> ('a \<times> string) option) \<Rightarrow> string \<Rightarrow> ('a \<times> string) option" where
  "read_separator sep i inner s = (if 0 < i then Option.bind (read_given_char sep s) inner else inner s)"

definition read_octet :: "nat \<Rightarrow> string \<Rightarrow> (nat \<times> string) option" where
  "read_octet i s = read_separator (CHR ''.'') i (read_number 10 3 False 255) s"

definition read_ipv4_addr :: "string \<Rightarrow> (Ipv4Addr \<times> string) option" where
  "read_ipv4_addr s =
     Option.bind (read_octet 0 s) (\<lambda>(a, s1).
     Option.bind (read_octet 1 s1) (\<lambda>(b, s2).
     Option.bind (read_octet 2 s2) (\<lambda>(c, s3).
     Option.bind (read_octet 3 s3) (\<lambda>(d, s4).
       Some (Ipv4Addr (of_nat a) (of_nat b) (of_nat c) (of_nat d), s4)))))"

text \<open>The groups read from position \<open>i\<close> on, with at most \<open>left\<close> more, whether an IPv4 part ended them, and the rest.\<close>

fun read_groups :: "nat \<Rightarrow> nat \<Rightarrow> string \<Rightarrow> nat list \<times> bool \<times> string" where
  "read_groups 0 i s = ([], False, s)"
| "read_groups (Suc left) i s =
     (case (if 0 < left then read_separator (CHR '':'') i read_ipv4_addr s else None) of
        Some (Ipv4Addr a b c d, rest) \<Rightarrow> ([unat a * 256 + unat b, unat c * 256 + unat d], True, rest)
      | None \<Rightarrow>
          (case read_separator (CHR '':'') i (read_number 16 4 True 65535) s of
             None \<Rightarrow> ([], False, s)
           | Some (g, rest) \<Rightarrow>
               (let (gs, v4, rest') = read_groups left (i + 1) rest in (g # gs, v4, rest'))))"

definition ipv6_of_groups :: "nat list \<Rightarrow> Ipv6Addr" where
  "ipv6_of_groups gs =
     (let w = \<lambda>i. (of_nat (gs ! i) :: 16 word) in Ipv6Addr (w 0) (w 1) (w 2) (w 3) (w 4) (w 5) (w 6) (w 7))"

definition read_ipv6_addr :: "string \<Rightarrow> (Ipv6Addr \<times> string) option" where
  "read_ipv6_addr s =
     (case read_groups 8 0 s of
        (head, head_ipv4, rest) \<Rightarrow>
          if length head = 8 then Some (ipv6_of_groups head, rest)
          else if head_ipv4 then None
          else
            Option.bind (read_given_char (CHR '':'') rest) (\<lambda>s1.
            Option.bind (read_given_char (CHR '':'') s1) (\<lambda>s2.
              case read_groups (8 - (length head + 1)) 0 s2 of
                (tail, _, rest') \<Rightarrow>
                  Some (ipv6_of_groups (head @ replicate (8 - length head - length tail) 0 @ tail), rest'))))"

definition parse_ip :: "string \<Rightarrow> IpAddr option" where
  "parse_ip s =
     (case read_ipv4_addr s of
        Some (ip, rest) \<Rightarrow> if rest = [] then Some (V4 ip) else None
      | None \<Rightarrow>
          (case read_ipv6_addr s of
             Some (ip, rest) \<Rightarrow> if rest = [] then Some (V6 ip) else None
           | None \<Rightarrow> None))"

section \<open>Host names and URLs\<close>

definition normalized_host :: "string \<Rightarrow> string" where
  "normalized_host host = to_ascii_lowercase (trim_end_matches (CHR ''.'') host)"

definition strip_ipv6_brackets :: "string \<Rightarrow> string" where
  "strip_ipv6_brackets host =
     (case Option.bind (strip_prefix ''['' host) (strip_suffix '']'') of Some h \<Rightarrow> h | None \<Rightarrow> host)"

definition is_local_hostname :: "string \<Rightarrow> bool" where
  "is_local_hostname host0 =
     (let host = normalized_host host0 in
      host = ''localhost'' \<or> ends_with ''.localhost'' host
      \<or> host = ''local'' \<or> ends_with ''.local'' host
      \<or> host = ''localdomain'' \<or> ends_with ''.localdomain'' host
      \<or> host = ''lan'' \<or> ends_with ''.lan'' host
      \<or> host = ''internal'' \<or> ends_with ''.internal'' host
      \<or> host = ''home'' \<or> ends_with ''.home'' host
      \<or> host = ''home.arpa'' \<or> ends_with ''.home.arpa'' host)"

definition is_special_hostname :: "string \<Rightarrow> bool" where
  "is_special_hostname host0 =
     (let host = normalized_host host0 in
      CHR ''.'' \<notin> set host
      \<or> list_ex (\<lambda>suffix. host = suffix \<or> ends_with (''.'' @ suffix) host) [''test'', ''invalid'', ''example'', ''onion''])"

text \<open>What the policy reads of a parsed URL. \<open>Url::parse\<close> is the parameter \<open>url_parse\<close>.\<close>

record Url =
  scheme :: string
  username :: string
  password :: "string option"
  host_str :: "string option"
  port_or_known_default :: "nat option"

definition validate_provider_url :: "(string \<Rightarrow> Url option) \<Rightarrow> string \<Rightarrow> bool \<Rightarrow> string + Url" where
  "validate_provider_url url_parse input allow_local =
     rbind (ok_or ''Invalid provider URL'' (url_parse input)) (\<lambda>url.
       if scheme url \<noteq> ''http'' \<and> scheme url \<noteq> ''https'' then Inl ''Provider URL must use http or https''
       else if scheme url = ''http'' \<and> \<not> allow_local then
         Inl ''Public provider URLs must use https; http is allowed only with explicit local-provider permission''
       else if username url \<noteq> [] \<or> password url \<noteq> None then
         Inl ''Provider URL must not contain username or password''
       else
         rbind (ok_or ''Provider URL must include a host'' (host_str url)) (\<lambda>h.
           let host = strip_ipv6_brackets h in
           case parse_ip host of
             Some ip \<Rightarrow> rbind (validate_ip_address ip allow_local) (\<lambda>_. Inr url)
           | None \<Rightarrow>
               if is_local_hostname host then
                 if \<not> allow_local then Inl ''Local provider hosts require explicit local-provider permission''
                 else Inr url
               else if is_special_hostname host \<and> \<not> allow_local then
                 Inl ''Non-public provider host requires explicit local-provider permission''
               else Inr url))"

record ResolvedProviderUrl =
  resolved_url :: Url
  addresses :: "SocketAddr list"

text \<open>\<open>tokio::net::lookup_host\<close> under its timeout: the addresses in the order they are yielded, or a failure.\<close>

datatype lookup = LookupTimeout | LookupFailed | Resolved "SocketAddr list"

fun collect_addresses :: "nat \<Rightarrow> SocketAddr list \<Rightarrow> SocketAddr list \<Rightarrow> string + SocketAddr list" where
  "collect_addresses max_addresses acc [] = Inr acc"
| "collect_addresses max_addresses acc (a # rest) =
     (if max_addresses \<le> length acc then Inl ''Provider host resolved to too many addresses''
      else collect_addresses max_addresses (acc @ [a]) rest)"

fun validate_all :: "bool \<Rightarrow> SocketAddr list \<Rightarrow> string + unit" where
  "validate_all allow_local [] = Inr ()"
| "validate_all allow_local (a # rest) = rbind (validate_ip_address (fst a) allow_local) (\<lambda>_. validate_all allow_local rest)"

definition resolve_provider_url ::
  "(string \<Rightarrow> Url option) \<Rightarrow> (string \<Rightarrow> nat \<Rightarrow> lookup) \<Rightarrow> string \<Rightarrow> bool \<Rightarrow> nat \<Rightarrow> string + ResolvedProviderUrl" where
  "resolve_provider_url url_parse lookup_host input allow_local max_addresses =
     rbind (validate_provider_url url_parse input allow_local) (\<lambda>url.
     rbind (ok_or ''Provider URL must include a host'' (host_str url)) (\<lambda>h.
     let host = strip_ipv6_brackets h in
     rbind (ok_or ''Provider URL must include a valid port'' (port_or_known_default url)) (\<lambda>port.
       case parse_ip host of
         Some ip \<Rightarrow>
           rbind (validate_ip_address ip allow_local) (\<lambda>_.
             if scheme url = ''http'' \<and> classify_ip ip \<noteq> Local
             then Inl ''HTTP is allowed only for local provider addresses''
             else Inr \<lparr>resolved_url = url, addresses = [(ip, port)]\<rparr>)
       | None \<Rightarrow>
           (case lookup_host host port of
              LookupTimeout \<Rightarrow> Inl ''Provider host resolution timed out''
            | LookupFailed \<Rightarrow> Inl ''Could not resolve provider host''
            | Resolved answers \<Rightarrow>
                rbind (collect_addresses max_addresses [] answers) (\<lambda>addrs.
                  if addrs = [] then Inl ''Provider host resolved to no addresses''
                  else
                    rbind (validate_all allow_local addrs) (\<lambda>_.
                      if scheme url = ''http'' \<and> list_ex (\<lambda>a. classify_ip (fst a) \<noteq> Local) addrs
                      then Inl ''HTTP is allowed only for local provider addresses''
                      else Inr \<lparr>resolved_url = url, addresses = addrs\<rparr>))))))"

section \<open>Pinned clients and their cache\<close>

definition PROVIDER_POOL_IDLE_TIMEOUT :: duration where
  "PROVIDER_POOL_IDLE_TIMEOUT = from_secs 30"

definition PROVIDER_STREAM_TOTAL_TIMEOUT :: duration where
  "PROVIDER_STREAM_TOTAL_TIMEOUT = from_secs (24 * 60 * 60)"

text \<open>A client is what its builder was given; \<open>can_build\<close> says whether the builder accepts it.\<close>

record client =
  pinned_host :: string
  pinned_addresses :: "SocketAddr list"
  follows_redirects :: bool
  uses_proxy :: bool
  client_connect_timeout :: duration
  client_timeout :: duration
  pool_idle_timeout :: duration
  client_user_agent :: string

definition build_pinned_client ::
  "(client \<Rightarrow> bool) \<Rightarrow> duration \<Rightarrow> duration \<Rightarrow> duration \<Rightarrow> string \<Rightarrow> ResolvedProviderUrl \<Rightarrow> string + client" where
  "build_pinned_client can_build connect_timeout total_timeout idle agent resolved =
     rbind (ok_or ''Provider URL must include a host'' (host_str (resolved_url resolved))) (\<lambda>host.
       if addresses resolved = [] then Inl ''Provider host resolved to no addresses''
       else
         (let c = \<lparr>pinned_host = strip_ipv6_brackets host, pinned_addresses = addresses resolved,
                   follows_redirects = False, uses_proxy = False, client_connect_timeout = connect_timeout,
                   client_timeout = total_timeout, pool_idle_timeout = idle, client_user_agent = agent\<rparr>
          in if can_build c then Inr c else Inl ''Could not build pinned provider HTTP client''))"

record ProviderClientKey =
  origin :: string
  key_allow_local :: bool
  key_connect_timeout :: duration
  key_request_timeout :: duration
  key_streaming :: bool
  key_user_agent :: string

definition client_key ::
  "Url \<Rightarrow> string \<Rightarrow> nat \<Rightarrow> bool \<Rightarrow> duration \<Rightarrow> duration \<Rightarrow> bool \<Rightarrow> string \<Rightarrow> ProviderClientKey" where
  "client_key url host port allow_local connect_timeout request_timeout streaming agent =
     \<lparr>origin = scheme url @ ''://'' @ to_ascii_lowercase host @ '':'' @ show_nat port, key_allow_local = allow_local,
      key_connect_timeout = connect_timeout, key_request_timeout = request_timeout, key_streaming = streaming,
      key_user_agent = agent\<rparr>"

text \<open>Resolving the host and building the client, between the two critical sections of \<open>provider_client\<close>.\<close>

definition new_client ::
  "(string \<Rightarrow> Url option) \<Rightarrow> (string \<Rightarrow> nat \<Rightarrow> lookup) \<Rightarrow> (client \<Rightarrow> bool) \<Rightarrow> string \<Rightarrow> bool \<Rightarrow> duration \<Rightarrow> duration \<Rightarrow> bool
     \<Rightarrow> string \<Rightarrow> nat \<Rightarrow> string + ResolvedProviderUrl \<times> client" where
  "new_client url_parse lookup_host can_build input allow_local connect_timeout request_timeout streaming agent max_addresses =
     rbind (resolve_provider_url url_parse lookup_host input allow_local max_addresses) (\<lambda>resolved.
     rbind (build_pinned_client can_build connect_timeout
              (if streaming then PROVIDER_STREAM_TOTAL_TIMEOUT else request_timeout)
              PROVIDER_POOL_IDLE_TIMEOUT agent resolved) (\<lambda>c.
       Inr (resolved, c)))"

record CachedProviderClient =
  cached_client :: client
  client_expires_at :: instant
  client_last_used_at :: instant

type_synonym client_cache = "(ProviderClientKey, CachedProviderClient) hmap"

definition entry_live :: "duration \<Rightarrow> instant \<Rightarrow> CachedProviderClient \<Rightarrow> bool" where
  "entry_live ttl now e =
     (now < client_expires_at e \<and> (case instant_add (client_last_used_at e) ttl of Some t \<Rightarrow> now < t | None \<Rightarrow> False))"

definition retain_live :: "duration \<Rightarrow> instant \<Rightarrow> client_cache \<Rightarrow> client_cache" where
  "retain_live ttl now cache = hm_retain (\<lambda>_ e. entry_live ttl now e) cache"

text \<open>
  \<open>provider_client\<close> takes the lock of the cache twice and resolves the host in between: \<open>lookup_client\<close> and
  \<open>insert_client\<close> are the two critical sections.
\<close>

definition touch :: "ProviderClientKey \<Rightarrow> instant \<Rightarrow> client_cache \<Rightarrow> client option \<times> client_cache" where
  "touch key now cache =
     (case hm_get cache key of
        Some e \<Rightarrow> (Some (cached_client e), hm_insert key (e\<lparr>client_last_used_at := now\<rparr>) cache)
      | None \<Rightarrow> (None, cache))"

definition lookup_client :: "ProviderClientKey \<Rightarrow> duration \<Rightarrow> instant \<Rightarrow> client_cache \<Rightarrow> client option \<times> client_cache" where
  "lookup_client key ttl now cache = touch key now (retain_live ttl now cache)"

definition insert_client ::
  "ProviderClientKey \<Rightarrow> client \<Rightarrow> duration \<Rightarrow> nat \<Rightarrow> instant \<Rightarrow> client_cache \<Rightarrow> client \<times> client_cache" where
  "insert_client key c ttl max_entries inserted_at cache =
     (case touch key inserted_at (retain_live ttl inserted_at cache) of
        (Some existing, cache') \<Rightarrow> (existing, cache')
      | (None, cache') \<Rightarrow>
          (let evicted =
             (if max_entries \<le> hm_len cache' then
                case min_by_key (\<lambda>(_, e). client_last_used_at e) cache' of
                  Some (oldest, _) \<Rightarrow> hm_remove oldest cache'
                | None \<Rightarrow> cache'
              else cache')
           in (c, hm_insert key
                 \<lparr>cached_client = c,
                  client_expires_at = (case instant_add inserted_at ttl of Some t \<Rightarrow> t | None \<Rightarrow> inserted_at),
                  client_last_used_at = inserted_at\<rparr> evicted)))"

definition provider_client ::
  "(string \<Rightarrow> Url option) \<Rightarrow> (string \<Rightarrow> nat \<Rightarrow> lookup) \<Rightarrow> (client \<Rightarrow> bool) \<Rightarrow> string \<Rightarrow> bool \<Rightarrow> duration \<Rightarrow> duration \<Rightarrow> bool
     \<Rightarrow> string \<Rightarrow> duration \<Rightarrow> nat \<Rightarrow> nat \<Rightarrow> instant \<Rightarrow> instant \<Rightarrow> client_cache
     \<Rightarrow> (string + Url \<times> client) \<times> client_cache" where
  "provider_client url_parse lookup_host can_build input allow_local connect_timeout request_timeout streaming agent
       ttl max_entries max_addresses now inserted_at cache =
     (case rbind (validate_provider_url url_parse input allow_local) (\<lambda>url.
             rbind (ok_or ''Provider URL must include a host'' (host_str url)) (\<lambda>host.
             rbind (ok_or ''Provider URL must include a valid port'' (port_or_known_default url)) (\<lambda>port.
               Inr (url, client_key url host port allow_local connect_timeout request_timeout streaming agent)))) of
        Inl e \<Rightarrow> (Inl e, cache)
      | Inr (url, key) \<Rightarrow>
          (case lookup_client key ttl now cache of
             (Some c, cache') \<Rightarrow> (Inr (url, c), cache')
           | (None, cache') \<Rightarrow>
               (case new_client url_parse lookup_host can_build input allow_local connect_timeout request_timeout streaming agent max_addresses of
                  Inl e \<Rightarrow> (Inl e, cache')
                | Inr (resolved, c) \<Rightarrow>
                    (case insert_client key c ttl max_entries inserted_at cache' of
                       (c', cache'') \<Rightarrow> (Inr (resolved_url resolved, c'), cache'')))))"

section \<open>Header names\<close>

text \<open>\<open>HeaderName::from_bytes\<close> of the \<open>http\<close> crate is the parameter \<open>header_name\<close>: it checks the name and lowers its case.\<close>

definition provider_auth_header_name :: "(string \<Rightarrow> string option) \<Rightarrow> string \<Rightarrow> string + string" where
  "provider_auth_header_name header_name raw =
     rbind (ok_or ''Provider authentication header name is invalid'' (header_name raw)) (\<lambda>n.
       if n \<in> set [''connection'', ''content-length'', ''content-type'', ''expect'', ''host'', ''keep-alive'',
                 ''proxy-authenticate'', ''proxy-authorization'', ''te'', ''trailer'', ''transfer-encoding'', ''upgrade'']
       then Inl ''Provider authentication header cannot override an HTTP transport header''
       else Inr n)"

definition provider_custom_header_name :: "(string \<Rightarrow> string option) \<Rightarrow> string \<Rightarrow> string + string" where
  "provider_custom_header_name header_name raw =
     rbind (ok_or ''Provider custom header name is invalid'' (header_name (trim raw))) (\<lambda>n.
       if n \<in> set [''authorization'', ''api-key'', ''cookie'', ''content-length'', ''content-type'', ''connection'',
                 ''expect'', ''host'', ''keep-alive'', ''proxy-authenticate'', ''proxy-authorization'', ''te'', ''trailer'',
                 ''transfer-encoding'', ''upgrade'', ''x-api-key'', ''x-goog-api-key'']
       then Inl ''Provider custom header cannot override authentication or HTTP transport headers''
       else Inr n)"

section \<open>The address of a client\<close>

text \<open>\<open>Display\<close> of addresses: dotted quads, and groups with the first longest run of zeros compressed.\<close>

definition show_v4 :: "Ipv4Addr \<Rightarrow> string" where
  "show_v4 ip = join_with ''.'' (map (\<lambda>o'. show_nat (unat o')) (v4_octets ip))"

fun show_hex :: "nat \<Rightarrow> string" where
  "show_hex n = (if n < 16 then [hex_digit n] else show_hex (n div 16) @ [hex_digit (n mod 16)])"

declare show_hex.simps [simp del]

text \<open>The longest run of zero segments as start and length, with the run that ends at the current position.\<close>

fun zero_span :: "16 word list \<Rightarrow> nat \<Rightarrow> nat \<times> nat \<Rightarrow> nat \<times> nat \<Rightarrow> nat \<times> nat" where
  "zero_span [] i current longest = longest"
| "zero_span (s # rest) i (start, len) longest =
     (if s = 0 then
        (let current = ((if len = 0 then i else start), len + 1) in
         zero_span rest (i + 1) current (if snd longest < snd current then current else longest))
      else zero_span rest (i + 1) (0, 0) longest)"

definition show_groups :: "16 word list \<Rightarrow> string" where
  "show_groups gs = join_with '':'' (map (\<lambda>g. show_hex (unat g)) gs)"

definition show_v6 :: "Ipv6Addr \<Rightarrow> string" where
  "show_v6 ip =
     (case to_ipv4_mapped ip of
        Some v4 \<Rightarrow> ''::ffff:'' @ show_v4 v4
      | None \<Rightarrow>
          (let segs = v6_segments ip; (start, len) = zero_span segs 0 (0, 0) (0, 0)
           in if 1 < len then show_groups (take start segs) @ ''::'' @ show_groups (drop (start + len) segs)
              else show_groups segs))"

fun show_ip :: "IpAddr \<Rightarrow> string" where
  "show_ip (V4 ip) = show_v4 ip"
| "show_ip (V6 ip) = show_v6 ip"

text \<open>The values of \<open>x-forwarded-for\<close>, \<open>None\<close> for one that is not visible ASCII.\<close>

definition client_ip_from_headers :: "IpAddr option \<Rightarrow> string option list \<Rightarrow> bool \<Rightarrow> string" where
  "client_ip_from_headers peer forwarded_values trust_proxy_headers =
     (let forwarded =
        (if trust_proxy_headers \<and> (case peer of Some a \<Rightarrow> ip_is_loopback a | None \<Rightarrow> False) \<and> length forwarded_values = 1
         then Option.bind (hd forwarded_values) parse_ip else None)
      in case forwarded of
           Some ip \<Rightarrow> show_ip ip
         | None \<Rightarrow> (case peer of Some a \<Rightarrow> show_ip a | None \<Rightarrow> ''unknown-peer''))"

lemma client_ip_ignores_headers:
  assumes "\<not> trust \<or> (\<forall>a. peer = Some a \<longrightarrow> \<not> ip_is_loopback a) \<or> length hs \<noteq> 1"
  shows "client_ip_from_headers peer hs trust = client_ip_from_headers peer [] False"
  using assms by (auto simp: client_ip_from_headers_def split: option.splits)

section \<open>Resolved addresses\<close>

lemma collect_addresses_eq:
  "collect_addresses m acc xs = Inr ys \<Longrightarrow> ys = acc @ xs \<and> (length acc \<le> m \<longrightarrow> length ys \<le> m)"
proof (induction xs arbitrary: acc)
  case (Cons a xs)
  then have room: "length acc < m" "collect_addresses m (acc @ [a]) xs = Inr ys" by (auto split: if_splits)
  with Cons.IH [OF room(2)] show ?case by auto
qed simp

lemma validate_ip_cases:
  "validate_ip_address ip allow = Inr () \<Longrightarrow> public_address ip \<or> allow \<and> local_address ip"
  using classify_public [of ip] classify_local [of ip]
  by (auto simp: validate_ip_address_def split: IpClass.splits if_splits)

lemma validate_all_cases:
  "validate_all allow xs = Inr () \<Longrightarrow> a \<in> set xs \<Longrightarrow> public_address (fst a) \<or> allow \<and> local_address (fst a)"
  by (induction xs) (auto simp: rbind_eq_Inr dest: validate_ip_cases)

lemma validate_provider_url_http:
  assumes "validate_provider_url up input allow = Inr url"
  shows "scheme url = ''http'' \<and> allow \<or> scheme url = ''https''"
  using assms by (auto simp: validate_provider_url_def rbind_eq_Inr Let_def split: if_splits option.splits)

definition address_allowed :: "bool \<Rightarrow> SocketAddr \<Rightarrow> bool" where
  "address_allowed allow a \<longleftrightarrow> public_address (fst a) \<or> allow \<and> local_address (fst a)"

lemma resolved_safe:
  assumes "resolve_provider_url up lk input allow m = Inr r"
  shows "addresses r \<noteq> []" "\<forall>a \<in> set (addresses r). address_allowed allow a" "length (addresses r) \<le> max m 1"
    "scheme (resolved_url r) = ''http'' \<Longrightarrow> allow \<and> (\<forall>a \<in> set (addresses r). local_address (fst a))"
    "scheme (resolved_url r) \<in> {''http'', ''https''}"
proof -
  from assms obtain url h port where url: "validate_provider_url up input allow = Inr url"
    "host_str url = Some h" "port_or_known_default url = Some port"
    by (auto simp: resolve_provider_url_def rbind_eq_Inr Let_def)
  note http = validate_provider_url_http [OF url(1)]
  consider (literal) ip where "parse_ip (strip_ipv6_brackets h) = Some ip"
      "r = \<lparr>resolved_url = url, addresses = [(ip, port)]\<rparr>" "validate_ip_address ip allow = Inr ()"
      "scheme url = ''http'' \<Longrightarrow> classify_ip ip = Local"
    | (host) answers where "collect_addresses m [] answers = Inr (addresses r)" "resolved_url r = url"
      "addresses r \<noteq> []" "validate_all allow (addresses r) = Inr ()"
      "scheme url = ''http'' \<Longrightarrow> \<forall>a \<in> set (addresses r). classify_ip (fst a) = Local"
    using assms url
    by (auto simp: resolve_provider_url_def rbind_eq_Inr Let_def list_ex_iff split: option.splits if_splits lookup.splits)
  then have "addresses r \<noteq> [] \<and> (\<forall>a \<in> set (addresses r). address_allowed allow a) \<and> length (addresses r) \<le> max m 1 \<and>
      resolved_url r = url \<and> (scheme url = ''http'' \<longrightarrow> (\<forall>a \<in> set (addresses r). local_address (fst a)))"
  proof cases
    case literal
    with validate_ip_cases [OF literal(3)] classify_local [of ip] show ?thesis by (auto simp: address_allowed_def)
  next
    case host
    with validate_all_cases [OF host(4)] collect_addresses_eq [OF host(1)] show ?thesis
      by (auto simp: address_allowed_def classify_local)
  qed
  with http show "addresses r \<noteq> []" "\<forall>a \<in> set (addresses r). address_allowed allow a" "length (addresses r) \<le> max m 1"
    "scheme (resolved_url r) = ''http'' \<Longrightarrow> allow \<and> (\<forall>a \<in> set (addresses r). local_address (fst a))"
    "scheme (resolved_url r) \<in> {''http'', ''https''}"
    by auto
qed

text \<open>C18: Whatever DNS answers, an accepted provider URL resolves to at least one and boundedly many addresses, each
  of which is public or, with the operator's permission, loopback or private; never a link-local, metadata,
  multicast or reserved one. Plain HTTP is used only with that permission and only towards local addresses.\<close>

theorem resolved_addresses_safe:
  assumes "resolve_provider_url up lk input allow m = Inr r"
  shows "addresses r \<noteq> [] \<and> length (addresses r) \<le> max m 1 \<and>
    (\<forall>a \<in> set (addresses r). public_address (fst a) \<or> allow \<and> local_address (fst a)) \<and>
    (scheme (resolved_url r) = ''https'' \<or>
     scheme (resolved_url r) = ''http'' \<and> allow \<and> (\<forall>a \<in> set (addresses r). local_address (fst a)))"
  using resolved_safe [OF assms] unfolding address_allowed_def by blast

section \<open>The cache of clients\<close>

definition client_safe :: "ProviderClientKey \<Rightarrow> client \<Rightarrow> bool" where
  "client_safe k c \<longleftrightarrow> pinned_addresses c \<noteq> [] \<and> (\<forall>a \<in> set (pinned_addresses c). address_allowed (key_allow_local k) a) \<and>
     \<not> follows_redirects c \<and> \<not> uses_proxy c"

definition built_for :: "ProviderClientKey \<Rightarrow> client \<Rightarrow> bool" where
  "built_for k c \<longleftrightarrow> (\<exists>up lk cb input allow ct rt st agent m r url host port.
     new_client up lk cb input allow ct rt st agent m = Inr (r, c) \<and> k = client_key url host port allow ct rt st agent)"

lemma built_for_safe: "built_for k c \<Longrightarrow> client_safe k c"
  unfolding built_for_def new_client_def build_pinned_client_def client_safe_def
  by (auto simp: rbind_eq_Inr Let_def client_key_def dest: resolved_safe split: if_splits)

text \<open>
  Requests take the two critical sections in any order; the run records when each entry was resolved and which
  client was handed out for which key, with the time of its resolution and of the request.
\<close>

datatype client_event = Look ProviderClientKey instant | Put ProviderClientKey client instant

record client_run =
  cr_cache :: client_cache
  cr_since :: "ProviderClientKey \<Rightarrow> instant"
  cr_handed :: "(ProviderClientKey \<times> client \<times> instant \<times> instant) list"

fun client_step :: "duration \<Rightarrow> nat \<Rightarrow> client_run \<Rightarrow> client_event \<Rightarrow> client_run" where
  "client_step ttl m r (Look k now) =
     (case lookup_client k ttl now (cr_cache r) of
        (Some c, cache) \<Rightarrow> r\<lparr>cr_cache := cache, cr_handed := (k, c, cr_since r k, now) # cr_handed r\<rparr>
      | (None, cache) \<Rightarrow> r\<lparr>cr_cache := cache\<rparr>)"
| "client_step ttl m r (Put k c now) =
     (let since = (if hm_get (retain_live ttl now (cr_cache r)) k = None then (cr_since r)(k := now) else cr_since r);
          (c', cache) = insert_client k c ttl m now (cr_cache r)
      in \<lparr>cr_cache = cache, cr_since = since, cr_handed = (k, c', since k, now) # cr_handed r\<rparr>)"

fun client_event_ok :: "client_event \<Rightarrow> bool" where
  "client_event_ok (Look k now) = True"
| "client_event_ok (Put k c now) = built_for k c"

definition client_start :: client_run where
  "client_start = \<lparr>cr_cache = [], cr_since = (\<lambda>_. 0), cr_handed = []\<rparr>"

definition entries_ok :: "duration \<Rightarrow> (ProviderClientKey \<Rightarrow> instant) \<Rightarrow> client_cache \<Rightarrow> bool" where
  "entries_ok ttl since cache \<longleftrightarrow> hm_ok cache \<and>
     (\<forall>k e. hm_get cache k = Some e \<longrightarrow> client_safe k (cached_client e) \<and> client_expires_at e \<le> since k + ttl)"

definition client_inv :: "duration \<Rightarrow> nat \<Rightarrow> client_run \<Rightarrow> bool" where
  "client_inv ttl m r \<longleftrightarrow> entries_ok ttl (cr_since r) (cr_cache r) \<and> hm_len (cr_cache r) \<le> m \<and>
     (\<forall>(k, c, since, now) \<in> set (cr_handed r). client_safe k c \<and> now < since + ttl)"

lemma retain_live_ok:
  assumes "entries_ok ttl since cache"
  shows "entries_ok ttl since (retain_live ttl now cache)" "hm_len (retain_live ttl now cache) \<le> hm_len cache"
    "hm_get (retain_live ttl now cache) k = Some e \<Longrightarrow> now < client_expires_at e"
  using assms unfolding entries_ok_def retain_live_def
  by (auto simp: hm.ok_retain hm.get_retain hm.len_retain entry_live_def split: option.splits if_splits)

lemma entries_ok_insert:
  assumes "entries_ok ttl since cache" "client_safe k (cached_client e)" "client_expires_at e \<le> since k + ttl"
  shows "entries_ok ttl since (hm_insert k e cache)"
  using assms unfolding entries_ok_def by (auto simp: hm.ok_insert hm.get_insert)

lemma entries_ok_remove: "entries_ok ttl since cache \<Longrightarrow> entries_ok ttl since (hm_remove k cache)"
  unfolding entries_ok_def by (auto simp: hm.ok_remove hm.get_remove split: if_splits)

lemma touch_cases [consumes 2, case_names hit miss]:
  assumes "entries_ok ttl since cache" "\<forall>e. hm_get cache k = Some e \<longrightarrow> now < client_expires_at e"
  obtains c cache' where "touch k now cache = (Some c, cache')" "client_safe k c" "now < since k + ttl"
      "entries_ok ttl since cache'" "hm_len cache' = hm_len cache" "hm_get cache k \<noteq> None"
  | "touch k now cache = (None, cache)" "hm_get cache k = None"
proof (cases "hm_get cache k")
  case None
  then show thesis by (intro that(2)) (simp_all add: touch_def)
next
  case (Some e)
  have e: "client_safe k (cached_client e)" "client_expires_at e \<le> since k + ttl"
    using assms(1) Some by (auto simp: entries_ok_def)
  show thesis
  proof (rule that(1))
    show "touch k now cache = (Some (cached_client e), hm_insert k (e\<lparr>client_last_used_at := now\<rparr>) cache)"
      using Some by (simp add: touch_def)
    show "entries_ok ttl since (hm_insert k (e\<lparr>client_last_used_at := now\<rparr>) cache)"
      using e by (intro entries_ok_insert assms(1)) simp_all
    show "now < since k + ttl" using assms(2) Some e(2) by auto
    show "hm_len (hm_insert k (e\<lparr>client_last_used_at := now\<rparr>) cache) = hm_len cache" using Some by (simp add: hm.len_insert)
  qed (use Some e in simp_all)
qed

lemma min_by_key_present:
  assumes "hm_ok m" "min_by_key f m = Some (k, e)"
  shows "hm_get m k = Some e"
  using assms min_by_key_Some [OF assms(2)] by (simp add: hm_get_def hm_ok_def)

lemma client_inv_lookup:
  assumes "client_inv ttl m r"
  shows "client_inv ttl m (client_step ttl m r (Look k now))"
proof -
  let ?cache = "retain_live ttl now (cr_cache r)"
  have inv: "entries_ok ttl (cr_since r) ?cache" "hm_len ?cache \<le> m" "\<forall>e. hm_get ?cache k = Some e \<longrightarrow> now < client_expires_at e"
    using assms retain_live_ok [of ttl "cr_since r" "cr_cache r" now] by (auto simp: client_inv_def intro: order_trans)
  from inv(1,3) show ?thesis
  proof (cases rule: touch_cases)
    case (hit c cache')
    with assms inv show ?thesis by (simp add: client_inv_def lookup_client_def)
  next
    case miss
    with assms inv show ?thesis by (simp add: client_inv_def lookup_client_def)
  qed
qed

lemma client_inv_insert:
  assumes "client_inv ttl m r" "client_safe k c" "0 < ttl" "1 \<le> m"
  shows "client_inv ttl m (client_step ttl m r (Put k c now))"
proof -
  let ?cache = "retain_live ttl now (cr_cache r)"
  have inv: "entries_ok ttl (cr_since r) ?cache" "hm_len ?cache \<le> m" "\<forall>e. hm_get ?cache k = Some e \<longrightarrow> now < client_expires_at e"
    using assms retain_live_ok [of ttl "cr_since r" "cr_cache r" now] by (auto simp: client_inv_def intro: order_trans)
  from inv(1,3) show ?thesis
  proof (cases rule: touch_cases)
    case (hit c' cache')
    with assms inv show ?thesis by (auto simp: client_inv_def insert_client_def Let_def)
  next
    case miss
    let ?entry = "\<lparr>cached_client = c, client_expires_at = (case instant_add now ttl of Some t \<Rightarrow> t | None \<Rightarrow> now),
      client_last_used_at = now\<rparr>"
    let ?since = "(cr_since r)(k := now)"
    let ?evicted = "if m \<le> hm_len ?cache then case min_by_key (\<lambda>(_, e). client_last_used_at e) ?cache of
        Some (oldest, _) \<Rightarrow> hm_remove oldest ?cache | None \<Rightarrow> ?cache else ?cache"
    have since: "entries_ok ttl ?since ?cache" using inv(1) miss(2) by (auto simp: entries_ok_def)
    have evicted: "entries_ok ttl ?since ?evicted"
      using since entries_ok_remove [OF since] by (auto split: option.splits)
    have len: "hm_len (hm_insert k ?entry ?evicted) \<le> m"
    proof (cases "m \<le> hm_len ?cache")
      case True
      then obtain oldest e where oldest: "min_by_key (\<lambda>(_, e). client_last_used_at e) ?cache = Some (oldest, e)"
        using assms(4) by (cases "min_by_key (\<lambda>(_, e). client_last_used_at e) ?cache") auto
      then have "hm_get ?cache oldest \<noteq> None"
        using min_by_key_present inv(1) by (fastforce simp: entries_ok_def)
      with True oldest show ?thesis using hm.evict_insert_bound [OF inv(2)] by simp
    next
      case False
      then show ?thesis by (simp add: hm.len_insert)
    qed
    have "instant_add now ttl = Some t \<Longrightarrow> t \<le> now + ttl" for t by simp
    then have "entries_ok ttl ?since (hm_insert k ?entry ?evicted)"
      using assms(2) by (intro entries_ok_insert evicted) (auto split: option.splits)
    with len assms(1-3) miss show ?thesis
      by (simp add: client_inv_def insert_client_def Let_def)
  qed
qed

interpretation clients: machine "client_step ttl m" client_event_ok "\<lambda>r. 0 < ttl \<and> 1 \<le> m \<and> client_inv ttl m r"
  for ttl m
proof
  fix r e
  assume "0 < ttl \<and> 1 \<le> m \<and> client_inv ttl m r" "client_event_ok e"
  then show "0 < ttl \<and> 1 \<le> m \<and> client_inv ttl m (client_step ttl m r e)"
    by (cases e) (auto simp del: client_step.simps intro: client_inv_lookup client_inv_insert built_for_safe)
qed


section \<open>A resolved provider\<close>

lemma parse_ip_name:
  assumes "digit_value c = None" "c \<noteq> CHR '':''"
  shows "parse_ip (c # s) = None"
proof -
  have number: "read_number radix d z bound (c # s) = None" for radix d z bound
    using assms(1) by (simp add: read_number_def is_radix_digit_def Let_def)
  then have v4: "read_ipv4_addr (c # s) = None"
    by (simp add: read_ipv4_addr_def read_octet_def read_separator_def)
  have "read_groups (Suc 7) 0 (c # s) = ([], False, c # s)"
    by (simp only: read_groups.simps) (simp add: read_separator_def v4 number)
  moreover have "Suc 7 = 8" by simp
  ultimately have "read_groups 8 0 (c # s) = ([], False, c # s)" by (simp only:)
  with v4 assms(2) show ?thesis by (simp add: parse_ip_def read_ipv6_addr_def read_given_char_def)
qed

definition provider_url :: Url where
  "provider_url = \<lparr>scheme = ''https'', username = [], password = None, host_str = Some ''models.net'', port_or_known_default = Some 443\<rparr>"

abbreviation dns_answer :: "string \<Rightarrow> nat \<Rightarrow> lookup" where
  "dns_answer h p \<equiv> Resolved [(V4 (Ipv4Addr 8 8 8 8), p)]"

abbreviation resolved_provider :: ResolvedProviderUrl where
  "resolved_provider \<equiv> \<lparr>resolved_url = provider_url, addresses = [(V4 (Ipv4Addr 8 8 8 8), 443)]\<rparr>"

lemma example_host:
  "strip_ipv6_brackets ''models.net'' = ''models.net''" "parse_ip ''models.net'' = None"
  "\<not> is_local_hostname ''models.net''" "\<not> is_special_hostname ''models.net''"
proof -
  show "parse_ip ''models.net'' = None" by (rule parse_ip_name) (simp_all add: digit_value_def)
qed code_simp+

lemma example_resolve: "resolve_provider_url (\<lambda>_. Some provider_url) dns_answer ''https://models.net'' False 64 = Inr resolved_provider"
  by (simp add: resolve_provider_url_def validate_provider_url_def provider_url_def example_host validate_ip_address_def)

theorem resolved_addresses_safe_witness: "public_address (V4 (Ipv4Addr 8 8 8 8))"
  using resolved_addresses_safe [OF example_resolve] by simp

definition example_client :: client where
  "example_client = \<lparr>pinned_host = ''models.net'', pinned_addresses = [(V4 (Ipv4Addr 8 8 8 8), 443)], follows_redirects = False,
     uses_proxy = False, client_connect_timeout = 1, client_timeout = 2, pool_idle_timeout = PROVIDER_POOL_IDLE_TIMEOUT,
     client_user_agent = ''x''\<rparr>"

abbreviation example_client_key :: ProviderClientKey where
  "example_client_key \<equiv> client_key provider_url ''models.net'' 443 False 1 2 False ''x''"

lemma example_built: "built_for example_client_key example_client"
proof -
  have "new_client (\<lambda>_. Some provider_url) dns_answer (\<lambda>_. True) ''https://models.net'' False 1 2 False ''x'' 64 =
      Inr (resolved_provider, example_client)"
    by (simp add: new_client_def example_resolve build_pinned_client_def)
      (simp add: provider_url_def example_host example_client_def)
  then show ?thesis unfolding built_for_def by blast
qed


end
