(* ===== verification/Settings.thy ===== *)
theory Settings
  imports Protocol
begin

text \<open>
  The operational settings of \<^verbatim>\<open>src/config/operational.rs\<close>: their validation, their defaults and how they are read
  from the environment.
\<close>

section \<open>Upstream settings\<close>

record UpstreamSettings =
  server_retry_max_attempts :: nat
  server_retry_delay_first :: duration
  server_retry_delay_second :: duration
  continuity_retry_base_delay :: duration
  continuity_retry_max_delay :: duration
  gateway_body_processing_queue_timeout :: duration
  continuity_replay_bytes_per_run :: nat
  continuity_replay_bytes_total :: nat
  continuity_replay_events_per_run :: int
  continuity_retained_runs :: nat
  continuity_resume_page_size :: nat
  continuity_poll_interval :: duration
  continuity_heartbeat_interval :: duration
  continuity_setup_error_bytes :: nat
  continuity_retention :: duration
  continuity_request_timeout :: duration
  provider_live_events_max_duration :: duration
  provider_live_events_keepalive :: duration
  model_discovery_max_pages :: nat
  discovery_request_timeout :: duration
  usage_response_max_bytes :: nat
  opencode_usage_timeout :: duration
  command_code_usage_timeout :: duration
  command_code_optional_usage_timeout :: duration
  freebuff_auxiliary_timeout :: duration
  freebuff_auxiliary_response_max_bytes :: nat
  remote_image_max_count :: nat
  remote_image_max_bytes :: nat
  remote_image_total_max_bytes :: nat
  remote_image_connect_timeout :: duration
  remote_image_request_timeout :: duration
  codex_image_preparation_timeout :: duration
  provider_client_cache_ttl :: duration
  provider_client_cache_max_entries :: nat
  provider_client_max_resolved_addresses :: nat

definition as_millis :: "duration \<Rightarrow> nat" where
  "as_millis d = d div 1000000"

definition subsec_nanos :: "duration \<Rightarrow> nat" where
  "subsec_nanos d = d mod nanos_per_sec"

definition within :: "nat \<Rightarrow> nat \<Rightarrow> nat \<Rightarrow> bool" where
  "within lo hi n = (lo \<le> n \<and> n \<le> hi)"

definition valid_duration_ms :: "duration \<Rightarrow> nat \<Rightarrow> nat \<Rightarrow> bool" where
  "valid_duration_ms d minimum maximum = (subsec_nanos d mod 1000000 = 0 \<and> within minimum maximum (as_millis d))"

definition upstream_validate :: "UpstreamSettings \<Rightarrow> string + unit" where
  "upstream_validate s =
     (if \<not> within 1 8 (server_retry_max_attempts s) then Inl ''server retry attempts must be between 1 and 8''
      else if \<not> valid_duration_ms (server_retry_delay_first s) 1 60000 \<or> \<not> valid_duration_ms (server_retry_delay_second s) 1 60000
      then Inl ''server retry delays must be between 1 and 60000 milliseconds''
      else if \<not> valid_duration_ms (continuity_retry_base_delay s) 1 60000
        \<or> \<not> valid_duration_ms (continuity_retry_max_delay s) 1 3600000
        \<or> continuity_retry_max_delay s < continuity_retry_base_delay s
      then Inl ''continuity retry delays are invalid''
      else if \<not> valid_duration_ms (gateway_body_processing_queue_timeout s) 100 60000
      then Inl ''gateway body queue timeout must be between 100 and 60000 milliseconds''
      else if \<not> within MIB (64 * MIB) (continuity_replay_bytes_per_run s)
        \<or> \<not> within (continuity_replay_bytes_per_run s) (1024 * MIB) (continuity_replay_bytes_total s)
        \<or> \<not> (1 \<le> continuity_replay_events_per_run s \<and> continuity_replay_events_per_run s \<le> 1000000)
        \<or> \<not> within 1 1024 (continuity_retained_runs s)
        \<or> \<not> within 1 64 (continuity_resume_page_size s)
      then Inl ''stream continuity storage limits are invalid''
      else if \<not> valid_duration_ms (continuity_poll_interval s) 10 5000
        \<or> \<not> valid_duration_ms (continuity_heartbeat_interval s) 1000 300000
        \<or> \<not> valid_duration_ms (continuity_retention s) 3600000 (7 * 24 * 60 * 60 * 1000)
        \<or> \<not> valid_duration_ms (continuity_request_timeout s) 60000 (7 * 24 * 60 * 60 * 1000)
        \<or> \<not> within 1024 (1024 * 1024) (continuity_setup_error_bytes s)
      then Inl ''stream continuity timing and error limits are invalid''
      else if \<not> valid_duration_ms (provider_live_events_max_duration s) 60000 3600000
        \<or> \<not> valid_duration_ms (provider_live_events_keepalive s) 1000 300000
        \<or> provider_live_events_max_duration s \<le> provider_live_events_keepalive s
      then Inl ''provider live event stream settings are invalid''
      else if \<not> within 1 100 (model_discovery_max_pages s)
        \<or> \<not> valid_duration_ms (discovery_request_timeout s) 100 300000
        \<or> \<not> within (64 * KIB) (16 * MIB) (usage_response_max_bytes s)
        \<or> \<not> valid_duration_ms (opencode_usage_timeout s) 100 300000
        \<or> \<not> valid_duration_ms (command_code_usage_timeout s) 100 300000
        \<or> \<not> valid_duration_ms (command_code_optional_usage_timeout s) 100 300000
        \<or> command_code_usage_timeout s < command_code_optional_usage_timeout s
        \<or> \<not> valid_duration_ms (freebuff_auxiliary_timeout s) 100 300000
        \<or> \<not> within (4 * KIB) (16 * MIB) (freebuff_auxiliary_response_max_bytes s)
      then Inl ''provider discovery and usage settings are invalid''
      else if \<not> within 1 64 (remote_image_max_count s)
        \<or> \<not> within (256 * KIB) (64 * MIB) (remote_image_max_bytes s)
        \<or> \<not> within (remote_image_max_bytes s) (256 * MIB) (remote_image_total_max_bytes s)
        \<or> \<not> valid_duration_ms (remote_image_connect_timeout s) 100 60000
        \<or> \<not> valid_duration_ms (remote_image_request_timeout s) 100 300000
        \<or> \<not> valid_duration_ms (codex_image_preparation_timeout s) 100 600000
      then Inl ''remote image settings are invalid''
      else if \<not> valid_duration_ms (provider_client_cache_ttl s) 1000 3600000
        \<or> \<not> within 1 4096 (provider_client_cache_max_entries s)
        \<or> \<not> within 1 256 (provider_client_max_resolved_addresses s)
      then Inl ''provider client cache settings are invalid''
      else Inr ())"

definition upstream_default :: UpstreamSettings where
  "upstream_default =
     \<lparr>server_retry_max_attempts = 3, server_retry_delay_first = from_millis 250,
      server_retry_delay_second = from_millis 500, continuity_retry_base_delay = from_millis 250,
      continuity_retry_max_delay = from_secs 60, gateway_body_processing_queue_timeout = from_secs 5,
      continuity_replay_bytes_per_run = 8 * MIB, continuity_replay_bytes_total = 128 * MIB,
      continuity_replay_events_per_run = 50000, continuity_retained_runs = 128, continuity_resume_page_size = 8,
      continuity_poll_interval = from_millis 200, continuity_heartbeat_interval = from_secs 15,
      continuity_setup_error_bytes = 64 * KIB, continuity_retention = from_secs (24 * 60 * 60),
      continuity_request_timeout = from_secs (24 * 60 * 60), provider_live_events_max_duration = from_secs (5 * 60),
      provider_live_events_keepalive = from_secs 30, model_discovery_max_pages = 20,
      discovery_request_timeout = from_secs 10, usage_response_max_bytes = 256 * KIB,
      opencode_usage_timeout = from_secs 8, command_code_usage_timeout = from_secs 10,
      command_code_optional_usage_timeout = from_secs 3, freebuff_auxiliary_timeout = from_secs 10,
      freebuff_auxiliary_response_max_bytes = 64 * KIB, remote_image_max_count = 8, remote_image_max_bytes = 6 * MIB,
      remote_image_total_max_bytes = 8 * MIB, remote_image_connect_timeout = from_secs 3,
      remote_image_request_timeout = from_secs 15, codex_image_preparation_timeout = from_secs 30,
      provider_client_cache_ttl = from_secs 30, provider_client_cache_max_entries = 256,
      provider_client_max_resolved_addresses = 64\<rparr>"

section \<open>Operational settings\<close>

record OperationalSettings =
  connect_timeout :: duration
  request_timeout :: duration
  stream_idle_timeout :: duration
  circuit_breaker_enabled :: bool
  circuit_breaker_threshold :: nat
  circuit_breaker_cooldown :: duration
  gateway_max_in_flight :: nat
  upstream_response_limit_bytes :: nat
  admin_api_max_requests :: nat
  admin_api_window :: duration
  gateway_key_capacity :: nat
  gateway_key_refill_tokens :: nat
  gateway_key_refill_interval :: duration
  request_log_retention_days :: nat
  request_log_max_rows :: nat
  upstream :: UpstreamSettings

definition DEFAULT_GATEWAY_MAX_IN_FLIGHT :: nat where "DEFAULT_GATEWAY_MAX_IN_FLIGHT = 64"
definition MAX_GATEWAY_MAX_IN_FLIGHT :: nat where "MAX_GATEWAY_MAX_IN_FLIGHT = 64"
definition DEFAULT_UPSTREAM_RESPONSE_LIMIT_BYTES :: nat where "DEFAULT_UPSTREAM_RESPONSE_LIMIT_BYTES = 16 * 1024 * 1024"
definition MIN_UPSTREAM_RESPONSE_LIMIT_BYTES :: nat where "MIN_UPSTREAM_RESPONSE_LIMIT_BYTES = 1024 * 1024"
definition MAX_UPSTREAM_RESPONSE_LIMIT_BYTES :: nat where "MAX_UPSTREAM_RESPONSE_LIMIT_BYTES = 16 * 1024 * 1024"
definition MAX_REQUEST_LOG_ROWS :: nat where "MAX_REQUEST_LOG_ROWS = 100000"

definition settings_validate :: "OperationalSettings \<Rightarrow> string + unit" where
  "settings_validate s =
     (if \<not> within 100 120000 (as_millis (connect_timeout s))
      then Inl ''connect timeout must be between 100 and 120000 milliseconds''
      else if \<not> within 100 86400000 (as_millis (request_timeout s))
      then Inl ''request timeout must be between 100 and 86400000 milliseconds''
      else if \<not> within 100 3600000 (as_millis (stream_idle_timeout s))
      then Inl ''stream idle timeout must be between 100 and 3600000 milliseconds''
      else if \<not> within 1 100 (circuit_breaker_threshold s)
      then Inl ''circuit breaker threshold must be between 1 and 100''
      else if \<not> within 1 86400 (as_secs (circuit_breaker_cooldown s)) \<or> subsec_nanos (circuit_breaker_cooldown s) \<noteq> 0
      then Inl ''circuit breaker cooldown must be between 1 and 86400 seconds''
      else if gateway_max_in_flight s \<noteq> 0 \<and> \<not> within 1 MAX_GATEWAY_MAX_IN_FLIGHT (gateway_max_in_flight s)
      then Inl ''gateway in-flight limit must be unlimited or between 1 and 64''
      else if \<not> within MIN_UPSTREAM_RESPONSE_LIMIT_BYTES MAX_UPSTREAM_RESPONSE_LIMIT_BYTES (upstream_response_limit_bytes s)
        \<or> upstream_response_limit_bytes s mod MIB \<noteq> 0
      then Inl ''upstream response limit must be between 1 and 16 MiB''
      else if admin_api_max_requests s = 0 \<or> admin_api_window s = 0 \<or> from_secs 86400 < admin_api_window s
      then Inl ''admin API rate limit must be positive with a window up to one day''
      else if gateway_key_capacity s = 0 \<or> gateway_key_refill_tokens s = 0 \<or> gateway_key_refill_interval s = 0
        \<or> from_secs 86400 < gateway_key_refill_interval s
      then Inl ''gateway API key rate limit values are invalid''
      else if \<not> within 1 365 (request_log_retention_days s)
      then Inl ''request log retention must be between 1 and 365 days''
      else if \<not> within 1 MAX_REQUEST_LOG_ROWS (request_log_max_rows s)
      then Inl ''request log row limit must be between 1 and 100000''
      else upstream_validate (upstream s))"

definition settings_default :: OperationalSettings where
  "settings_default =
     \<lparr>connect_timeout = from_secs 10, request_timeout = from_secs 300, stream_idle_timeout = from_secs 120,
      circuit_breaker_enabled = True, circuit_breaker_threshold = 5, circuit_breaker_cooldown = from_secs 30,
      gateway_max_in_flight = DEFAULT_GATEWAY_MAX_IN_FLIGHT,
      upstream_response_limit_bytes = DEFAULT_UPSTREAM_RESPONSE_LIMIT_BYTES, admin_api_max_requests = 300,
      admin_api_window = from_secs 60, gateway_key_capacity = 5000, gateway_key_refill_tokens = 1,
      gateway_key_refill_interval = from_millis 1, request_log_retention_days = 30,
      request_log_max_rows = MAX_REQUEST_LOG_ROWS, upstream = upstream_default\<rparr>"

section \<open>The environment\<close>

text \<open>\<open>str::parse\<close> for an unsigned integer with maximum \<open>m\<close>: an optional plus sign and digits.\<close>

definition parse_unsigned :: "nat \<Rightarrow> string \<Rightarrow> nat option" where
  "parse_unsigned m s =
     (let ds = (case strip_prefix ''+'' s of Some rest \<Rightarrow> rest | None \<Rightarrow> s);
          n = foldl (\<lambda>n c. n * 10 + (code c - 48)) 0 ds
      in if ds = [] \<or> \<not> list_all is_ascii_digit ds \<or> m < n then None else Some n)"

definition parse_env :: "(string \<Rightarrow> string option) \<Rightarrow> nat \<Rightarrow> string \<Rightarrow> nat \<Rightarrow> string + nat" where
  "parse_env env m key fallback =
     (case env key of
        Some v \<Rightarrow> ok_or (''invalid value for '' @ key) (parse_unsigned m v)
      | None \<Rightarrow> Inr fallback)"

definition checked_duration_ms :: "string \<Rightarrow> nat \<Rightarrow> nat \<Rightarrow> nat \<Rightarrow> string + duration" where
  "checked_duration_ms key milliseconds minimum maximum =
     (if \<not> within minimum maximum milliseconds
      then Inl (key @ '' must be between '' @ show_nat minimum @ '' and '' @ show_nat maximum @ '' milliseconds'')
      else Inr (from_millis milliseconds))"

definition duration_ms_env :: "(string \<Rightarrow> string option) \<Rightarrow> string \<Rightarrow> nat \<Rightarrow> nat \<Rightarrow> nat \<Rightarrow> string + duration" where
  "duration_ms_env env key fallback minimum maximum =
     rbind (parse_env env u64_max key fallback) (\<lambda>ms. checked_duration_ms key ms minimum maximum)"

definition settings_from_env :: "(string \<Rightarrow> string option) \<Rightarrow> string + OperationalSettings" where
  "settings_from_env env =
     rbind (duration_ms_env env ''CONNECT_TIMEOUT_MS'' 10000 100 120000) (\<lambda>connect.
     rbind (duration_ms_env env ''REQUEST_TIMEOUT_MS'' 300000 100 86400000) (\<lambda>request.
     rbind (duration_ms_env env ''STREAM_IDLE_TIMEOUT_MS'' 120000 100 3600000) (\<lambda>idle.
     rbind (parse_env env u32_max ''CIRCUIT_BREAKER_FAILURE_THRESHOLD'' 5) (\<lambda>threshold.
     rbind (parse_env env u64_max ''CIRCUIT_BREAKER_COOLDOWN_SECONDS'' 30) (\<lambda>cooldown_seconds.
     rbind (parse_env env u64_max ''UPSTREAM_RESPONSE_LIMIT_MIB'' 16) (\<lambda>response_mib.
     rbind (ok_or ''UPSTREAM_RESPONSE_LIMIT_MIB is invalid'' (checked_mul u64_max response_mib (1024 * 1024))) (\<lambda>response_limit.
     rbind (parse_env env u64_max ''GATEWAY_MAX_IN_FLIGHT'' 64) (\<lambda>in_flight.
       if in_flight = 0 then
         Inl ''GATEWAY_MAX_IN_FLIGHT cannot be unlimited; set unlimited from the dashboard and confirm its resource warning''
       else
     rbind (parse_env env u32_max ''ADMIN_API_RATE_LIMIT_REQUESTS'' 300) (\<lambda>admin_requests.
     rbind (parse_env env u64_max ''ADMIN_API_RATE_LIMIT_WINDOW_SECONDS'' 60) (\<lambda>admin_window.
     rbind (parse_env env u32_max ''GATEWAY_KEY_RATE_LIMIT_CAPACITY'' 5000) (\<lambda>capacity.
     rbind (parse_env env u32_max ''GATEWAY_KEY_RATE_LIMIT_REFILL_TOKENS'' 1) (\<lambda>refill_tokens.
     rbind (parse_env env u64_max ''GATEWAY_KEY_RATE_LIMIT_REFILL_INTERVAL_MS'' 1) (\<lambda>refill_ms.
     rbind (parse_env env u32_max ''REQUEST_LOG_RETENTION_DAYS'' 30) (\<lambda>retention_days.
     rbind (parse_env env u32_max ''REQUEST_LOG_MAX_ROWS'' 100000) (\<lambda>max_rows.
       (let s = \<lparr>connect_timeout = connect, request_timeout = request, stream_idle_timeout = idle,
                 circuit_breaker_enabled = (case env ''CIRCUIT_BREAKER_ENABLED'' of Some v \<Rightarrow> v \<noteq> ''false'' | None \<Rightarrow> True),
                 circuit_breaker_threshold = threshold, circuit_breaker_cooldown = from_secs cooldown_seconds,
                 gateway_max_in_flight = in_flight, upstream_response_limit_bytes = response_limit,
                 admin_api_max_requests = admin_requests, admin_api_window = from_secs admin_window,
                 gateway_key_capacity = capacity, gateway_key_refill_tokens = refill_tokens,
                 gateway_key_refill_interval = from_millis refill_ms, request_log_retention_days = retention_days,
                 request_log_max_rows = max_rows, upstream = upstream_default\<rparr>
        in rbind (settings_validate s) (\<lambda>_. Inr s)))))))))))))))))"

section \<open>What validation ensures\<close>

lemma upstream_default_valid: "upstream_validate upstream_default = Inr ()"
  by (simp add: upstream_validate_def upstream_default_def valid_duration_ms_def within_def as_millis_def subsec_nanos_def
      from_millis_def from_secs_def MIB_def KIB_def)

lemma settings_default_valid: "settings_validate settings_default = Inr ()"
  by (simp add: settings_validate_def settings_default_def upstream_default_valid within_def as_millis_def subsec_nanos_def
      as_secs_def from_millis_def from_secs_def MIB_def MAX_GATEWAY_MAX_IN_FLIGHT_def DEFAULT_GATEWAY_MAX_IN_FLIGHT_def
      DEFAULT_UPSTREAM_RESPONSE_LIMIT_BYTES_def MIN_UPSTREAM_RESPONSE_LIMIT_BYTES_def MAX_UPSTREAM_RESPONSE_LIMIT_BYTES_def
      MAX_REQUEST_LOG_ROWS_def)

lemma valid_duration_bounds:
  assumes "valid_duration_ms d lo hi"
  shows "lo * 1000000 \<le> d" "d < (hi + 1) * 1000000"
proof -
  have "lo \<le> d div 1000000" "d div 1000000 < hi + 1"
    using assms by (auto simp: valid_duration_ms_def within_def as_millis_def)
  then show "lo * 1000000 \<le> d" "d < (hi + 1) * 1000000"
    by (simp_all add: less_eq_div_iff_mult_less_eq div_less_iff_less_mult)
qed

lemma upstream_valid_facts:
  assumes "upstream_validate s = Inr ()"
  shows "1 \<le> server_retry_max_attempts s" "server_retry_max_attempts s \<le> 8"
    "0 < server_retry_delay_first s" "server_retry_delay_first s < 60001 * 1000000"
    "0 < server_retry_delay_second s" "server_retry_delay_second s < 60001 * 1000000"
    "0 < continuity_retry_base_delay s" "continuity_retry_base_delay s \<le> continuity_retry_max_delay s"
    "continuity_retry_max_delay s < 3600001 * 1000000"
    "0 < provider_client_cache_ttl s" "1 \<le> provider_client_cache_max_entries s"
    "1 \<le> provider_client_max_resolved_addresses s"
proof -
  from assms have v: "within 1 8 (server_retry_max_attempts s)"
    "valid_duration_ms (server_retry_delay_first s) 1 60000" "valid_duration_ms (server_retry_delay_second s) 1 60000"
    "valid_duration_ms (continuity_retry_base_delay s) 1 60000" "valid_duration_ms (continuity_retry_max_delay s) 1 3600000"
    "continuity_retry_base_delay s \<le> continuity_retry_max_delay s"
    "valid_duration_ms (provider_client_cache_ttl s) 1000 3600000" "within 1 4096 (provider_client_cache_max_entries s)"
    "within 1 256 (provider_client_max_resolved_addresses s)"
    by (simp_all add: upstream_validate_def split: if_splits)
  show "1 \<le> server_retry_max_attempts s" "server_retry_max_attempts s \<le> 8" "1 \<le> provider_client_cache_max_entries s"
    "1 \<le> provider_client_max_resolved_addresses s" "continuity_retry_base_delay s \<le> continuity_retry_max_delay s"
    using v(1,6,8,9) by (simp_all add: within_def)
  show "0 < server_retry_delay_first s" "server_retry_delay_first s < 60001 * 1000000"
    "0 < server_retry_delay_second s" "server_retry_delay_second s < 60001 * 1000000"
    "0 < continuity_retry_base_delay s" "continuity_retry_max_delay s < 3600001 * 1000000" "0 < provider_client_cache_ttl s"
    using valid_duration_bounds [OF v(2)] valid_duration_bounds [OF v(3)] valid_duration_bounds [OF v(4)]
      valid_duration_bounds [OF v(5)] valid_duration_bounds [OF v(7)] by simp_all
qed

lemma settings_valid_upstream: "settings_validate s = Inr () \<Longrightarrow> upstream_validate (upstream s) = Inr ()"
  by (simp add: settings_validate_def split: if_splits)

lemma settings_from_env_valid:
  assumes "settings_from_env env = Inr s"
  shows "settings_validate s = Inr ()" "1 \<le> gateway_max_in_flight s"
proof -
  from assms obtain s' where "settings_validate s' = Inr ()" "s = s'" "gateway_max_in_flight s' \<noteq> 0"
    unfolding settings_from_env_def by (auto simp: rbind_eq_Inr Let_def split: if_splits)
  then show "settings_validate s = Inr ()" "1 \<le> gateway_max_in_flight s" by simp_all
qed

end
