(* ===== verification/Retry.thy ===== *)
theory Retry
  imports Settings
begin

text \<open>
  The retries of a gateway request: the policy of \<^verbatim>\<open>src/gateway/retry_policy.rs\<close> and the loop of
  \<^verbatim>\<open>src/gateway/flow.rs\<close> around one execution of the pipeline. The execution is an argument that takes the number of
  the attempt, which is also the rotation of the targets, and the state of the gateway.
\<close>

section \<open>The policy\<close>

definition is_retryable :: "status \<Rightarrow> bool" where
  "is_retryable st = (st = REQUEST_TIMEOUT \<or> st = TOO_MANY_REQUESTS \<or> is_server_error st)"

definition can_fail_over_after_provider_rejection :: "status \<Rightarrow> bool" where
  "can_fail_over_after_provider_rejection st = (is_server_error st \<or> is_client_error st \<and> st \<noteq> REQUEST_TIMEOUT)"

definition server_retry_deadline :: "duration \<Rightarrow> UpstreamSettings \<Rightarrow> duration" where
  "server_retry_deadline per_attempt_timeout up =
     (let attempt_budget =
            fold (\<lambda>_ total. sat_add duration_max total per_attempt_timeout) [0 ..< server_retry_max_attempts up] 0;
          backoff_budget =
            (if 1 < server_retry_max_attempts up
             then sat_add duration_max (server_retry_delay_first up) (server_retry_delay_second up) else 0)
      in min (sat_add duration_max attempt_budget backoff_budget) (continuity_request_timeout up))"

definition server_retry_delay :: "nat \<Rightarrow> UpstreamSettings \<Rightarrow> duration" where
  "server_retry_delay attempt up =
     (if attempt = 0 then server_retry_delay_first up else server_retry_delay_second up)"

definition continuity_retry_delay :: "nat \<Rightarrow> duration option \<Rightarrow> UpstreamSettings \<Rightarrow> duration" where
  "continuity_retry_delay attempt retry_after up =
     (let multiplier = 2 ^ min attempt 8;
          exponential =
            min (sat_mul duration_max (continuity_retry_base_delay up) multiplier) (continuity_retry_max_delay up)
      in min (case retry_after of Some d \<Rightarrow> d | None \<Rightarrow> exponential) (continuity_retry_max_delay up))"

section \<open>The loop\<close>

text \<open>What the loop reads of a response: its status and a \<open>retry-after\<close> header that is visible ASCII.\<close>

record response =
  resp_status :: status
  retry_after_header :: "string option"

definition retry_after_of :: "response \<Rightarrow> duration option" where
  "retry_after_of r = map_option from_secs (Option.bind (retry_after_header r) (parse_unsigned u64_max))"

text \<open>
  \<open>execute_with_server_retries\<close> from a given attempt, with the delays slept so far; not returning is \<open>None\<close>.
  The attempt counter saturates in continuity mode.
\<close>

partial_function (option) retry_loop ::
  "(nat \<Rightarrow> 's \<Rightarrow> response \<times> 's) \<Rightarrow> UpstreamSettings \<Rightarrow> bool \<Rightarrow> nat \<Rightarrow> duration list \<Rightarrow> 's
     \<Rightarrow> (response \<times> duration list \<times> 's) option" where
  "retry_loop inner up continuity attempt slept s =
     (case inner attempt s of
        (r, s') \<Rightarrow>
          if continuity then
            if \<not> is_retryable (resp_status r) then Some (r, slept, s')
            else retry_loop inner up continuity (sat_add u64_max attempt 1)
                   (slept @ [continuity_retry_delay attempt (retry_after_of r) up]) s'
          else if \<not> is_server_error (resp_status r) \<or> server_retry_max_attempts up \<le> attempt + 1 then Some (r, slept, s')
          else retry_loop inner up continuity (attempt + 1) (slept @ [server_retry_delay attempt up]) s')"

definition execute_with_server_retries ::
  "(nat \<Rightarrow> 's \<Rightarrow> response \<times> 's) \<Rightarrow> UpstreamSettings \<Rightarrow> bool \<Rightarrow> 's \<Rightarrow> (response \<times> duration list \<times> 's) option" where
  "execute_with_server_retries inner up continuity s = retry_loop inner up continuity 0 [] s"

section \<open>Delays and the deadline\<close>

lemma continuity_delay_bounds:
  assumes "upstream_validate up = Inr ()"
  shows "continuity_retry_delay attempt d up \<le> continuity_retry_max_delay up"
    "d = None \<Longrightarrow> continuity_retry_base_delay up \<le> continuity_retry_delay attempt d up"
proof -
  show "continuity_retry_delay attempt d up \<le> continuity_retry_max_delay up"
    by (simp add: continuity_retry_delay_def Let_def)
  assume "d = None"
  note facts = upstream_valid_facts [OF assms]
  have "continuity_retry_base_delay up \<le> duration_max"
    using facts(8,9) by (simp add: duration_max_def)
  then have "continuity_retry_base_delay up \<le> sat_mul duration_max (continuity_retry_base_delay up) (2 ^ min attempt 8)"
    by (simp add: sat_mul_def)
  with \<open>d = None\<close> facts(8) show "continuity_retry_base_delay up \<le> continuity_retry_delay attempt d up"
    by (simp add: continuity_retry_delay_def Let_def)
qed

lemma sum_attempts:
  "n * t \<le> duration_max \<Longrightarrow> fold (\<lambda>_ total. sat_add duration_max total t) [0 ..< n] 0 = n * t"
  by (induction n) (simp_all add: sat_add_def)

text \<open>The time spent when every attempt uses its whole timeout, and the delays between \<open>n\<close> attempts.\<close>

definition backoff :: "UpstreamSettings \<Rightarrow> nat \<Rightarrow> duration" where
  "backoff up n = sum_list (map (\<lambda>a. server_retry_delay a up) [0 ..< n - 1])"

lemma backoff_eq:
  "backoff up (Suc 0) = 0"
  "backoff up (Suc (Suc n)) = server_retry_delay_first up + n * server_retry_delay_second up"
proof -
  show "backoff up (Suc 0) = 0" by (simp add: backoff_def)
  have "sum_list (map (\<lambda>a. server_retry_delay a up) [0 ..< Suc n]) =
      server_retry_delay_first up + n * server_retry_delay_second up" for n
    by (induction n) (simp_all add: server_retry_delay_def)
  then show "backoff up (Suc (Suc n)) = server_retry_delay_first up + n * server_retry_delay_second up"
    by (simp add: backoff_def)
qed

lemma deadline_eq:
  assumes "settings_validate st = Inr ()"
  shows "server_retry_deadline (request_timeout st) (upstream st) =
    min (server_retry_max_attempts (upstream st) * request_timeout st +
         (if 1 < server_retry_max_attempts (upstream st)
          then server_retry_delay_first (upstream st) + server_retry_delay_second (upstream st) else 0))
      (continuity_request_timeout (upstream st))"
proof -
  let ?up = "upstream st" let ?n = "server_retry_max_attempts (upstream st)"
  note facts = upstream_valid_facts [OF settings_valid_upstream [OF assms]]
  have "as_millis (request_timeout st) \<le> 86400000"
    using assms by (simp add: settings_validate_def within_def split: if_splits)
  then have t: "request_timeout st < 86400001 * 1000000" by (simp add: as_millis_def div_less_iff_less_mult)
  then have nt: "?n * request_timeout st \<le> 8 * (86400001 * 1000000)"
    using facts(2) by (intro mult_mono) simp_all
  have "fold (\<lambda>_ total. sat_add duration_max total (request_timeout st)) [0 ..< ?n] 0 = ?n * request_timeout st"
    using nt by (intro sum_attempts) (simp add: duration_max_def)
  moreover have "sat_add duration_max (server_retry_delay_first ?up) (server_retry_delay_second ?up) =
      server_retry_delay_first ?up + server_retry_delay_second ?up"
    using facts(4,6) by (intro sat_add_exact) (simp add: duration_max_def)
  moreover have "?n * request_timeout st + (server_retry_delay_first ?up + server_retry_delay_second ?up) \<le> duration_max"
    using nt facts(4,6) by (simp add: duration_max_def)
  ultimately show ?thesis
    unfolding server_retry_deadline_def Let_def by (auto simp: sat_add_def)
qed

text \<open>With at most three attempts the total deadline of a request leaves every attempt its whole timeout and every
  delay between attempts, up to the configured overall timeout.\<close>

lemma retry_deadline_suffices:
  assumes "settings_validate st = Inr ()" "server_retry_max_attempts (upstream st) \<le> 3"
  shows "min (server_retry_max_attempts (upstream st) * request_timeout st +
       backoff (upstream st) (server_retry_max_attempts (upstream st))) (continuity_request_timeout (upstream st))
     \<le> server_retry_deadline (request_timeout st) (upstream st)"
proof -
  let ?n = "server_retry_max_attempts (upstream st)"
  have "1 \<le> ?n" using upstream_valid_facts(1) [OF settings_valid_upstream [OF assms(1)]] .
  with assms(2) consider "?n = Suc 0" | "?n = Suc (Suc 0)" | "?n = Suc (Suc (Suc 0))" by fastforce
  then show ?thesis
    by cases (simp_all add: deadline_eq [OF assms(1)] backoff_eq)
qed

text \<open>With four to eight attempts the deadline forgets the delays after the second: if the overall timeout does not
  cut in before, a request whose attempts all use their timeout is aborted before its last attempt can end.\<close>

lemma retry_deadline_too_short:
  assumes "settings_validate st = Inr ()" "4 \<le> server_retry_max_attempts (upstream st)"
  shows "server_retry_deadline (request_timeout st) (upstream st) <
    server_retry_max_attempts (upstream st) * request_timeout st +
    backoff (upstream st) (server_retry_max_attempts (upstream st))"
proof -
  let ?n = "server_retry_max_attempts (upstream st)"
  obtain k where n: "?n = Suc (Suc (k + 2))" using assms(2) by (intro that [of "?n - 4"]) simp
  have "0 < server_retry_delay_second (upstream st)"
    using upstream_valid_facts(5) [OF settings_valid_upstream [OF assms(1)]] .
  then show ?thesis
    unfolding deadline_eq [OF assms(1)] n backoff_eq by (simp add: min_less_iff_disj)
qed

definition eight_attempts :: OperationalSettings where
  "eight_attempts = settings_default\<lparr>upstream := upstream_default\<lparr>server_retry_max_attempts := 8\<rparr>\<rparr>"

lemma eight_attempts_valid: "settings_validate eight_attempts = Inr ()"
proof -
  have "upstream_validate (upstream_default\<lparr>server_retry_max_attempts := 8\<rparr>) = Inr ()"
    by (simp add: upstream_validate_def upstream_default_def valid_duration_ms_def within_def as_millis_def subsec_nanos_def
        from_millis_def from_secs_def MIB_def KIB_def)
  then show ?thesis
    using settings_default_valid by (simp add: settings_validate_def eight_attempts_def split: if_splits)
qed

section \<open>What the loop returns\<close>

text \<open>The states before the attempts and their responses, were the loop to go on for ever.\<close>

primrec attempt_state :: "(nat \<Rightarrow> 's \<Rightarrow> response \<times> 's) \<Rightarrow> 's \<Rightarrow> nat \<Rightarrow> 's" where
  "attempt_state inner s 0 = s"
| "attempt_state inner s (Suc n) = snd (inner n (attempt_state inner s n))"

definition attempt_response :: "(nat \<Rightarrow> 's \<Rightarrow> response \<times> 's) \<Rightarrow> 's \<Rightarrow> nat \<Rightarrow> response" where
  "attempt_response inner s n = fst (inner n (attempt_state inner s n))"

definition server_final :: "UpstreamSettings \<Rightarrow> (nat \<Rightarrow> 's \<Rightarrow> response \<times> 's) \<Rightarrow> 's \<Rightarrow> nat \<Rightarrow> bool" where
  "server_final up inner s n \<longleftrightarrow>
     \<not> is_server_error (resp_status (attempt_response inner s n)) \<or> server_retry_max_attempts up \<le> n + 1"

lemma inner_attempt: "inner n (attempt_state inner s n) = (attempt_response inner s n, attempt_state inner s (Suc n))"
  by (simp add: attempt_response_def)

lemma retry_loop_server:
  assumes "server_final up inner s (k + n)" "\<forall>i < n. \<not> server_final up inner s (k + i)"
  shows "retry_loop inner up False k slept (attempt_state inner s k) =
    Some (attempt_response inner s (k + n), slept @ map (\<lambda>a. server_retry_delay a up) [k ..< k + n],
      attempt_state inner s (Suc (k + n)))"
  using assms
proof (induction n arbitrary: k slept)
  case 0
  then show ?case
    by (subst retry_loop.simps) (simp only: inner_attempt, simp add: server_final_def)
next
  case (Suc n)
  have not_final: "\<not> server_final up inner s k" using Suc.prems(2) by auto
  have "retry_loop inner up False k slept (attempt_state inner s k) =
      retry_loop inner up False (Suc k) (slept @ [server_retry_delay k up]) (attempt_state inner s (Suc k))"
    using not_final by (subst retry_loop.simps) (simp only: inner_attempt, simp add: server_final_def)
  also have "\<dots> = Some (attempt_response inner s (Suc k + n),
      (slept @ [server_retry_delay k up]) @ map (\<lambda>a. server_retry_delay a up) [Suc k ..< Suc k + n], attempt_state inner s (Suc (Suc k + n)))"
    using Suc.prems by (intro Suc.IH) auto
  finally show ?case by (simp add: upt_conv_Cons del: upt_Suc attempt_state.simps)
qed

text \<open>C28: A request outside continuity mode is executed at least once and at most the configured number of times; the
  executions rotate the targets by 0, 1, 2 and so on, wait exactly the configured delays in between, and the answer
  is the first response that is not a server error, or the last one.\<close>

theorem server_retries_bounded:
  assumes "upstream_validate up = Inr ()"
  shows "\<exists>n < server_retry_max_attempts up.
    execute_with_server_retries inner up False s =
      Some (attempt_response inner s n, map (\<lambda>a. server_retry_delay a up) [0 ..< n], attempt_state inner s (Suc n)) \<and>
    (\<forall>i < n. is_server_error (resp_status (attempt_response inner s i))) \<and>
    (\<not> is_server_error (resp_status (attempt_response inner s n)) \<or> n + 1 = server_retry_max_attempts up)"
proof -
  let ?m = "server_retry_max_attempts up"
  have m: "1 \<le> ?m" using upstream_valid_facts(1) [OF assms] .
  then have "server_final up inner s (?m - 1)" by (simp add: server_final_def)
  then obtain n where n: "server_final up inner s n" "n \<le> ?m - 1" "\<forall>i < n. \<not> server_final up inner s i"
    using ex_least_nat_le [of "server_final up inner s" "?m - 1"] by blast
  have "execute_with_server_retries inner up False s =
      Some (attempt_response inner s n, map (\<lambda>a. server_retry_delay a up) [0 ..< n], attempt_state inner s (Suc n))"
    using retry_loop_server [of up inner s 0 n "[]"] n(1,3) by (simp add: execute_with_server_retries_def)
  moreover have "\<forall>i < n. is_server_error (resp_status (attempt_response inner s i))"
    using n(3) by (simp add: server_final_def)
  moreover have "\<not> is_server_error (resp_status (attempt_response inner s n)) \<or> n + 1 = ?m"
    using n(1,2) m by (auto simp: server_final_def)
  moreover have "n < ?m" using n(2) m by linarith
  ultimately show ?thesis by blast
qed

theorem server_retries_bounded_witness:
  "\<exists>n < 3. execute_with_server_retries (\<lambda>a s. (\<lparr>resp_status = 503, retry_after_header = None\<rparr>, s @ [a])) upstream_default False [] =
     Some (\<lparr>resp_status = 503, retry_after_header = None\<rparr>, map (\<lambda>a. server_retry_delay a upstream_default) [0 ..< n], [0 ..< Suc n])"
proof -
  let ?inner = "\<lambda>a s. (\<lparr>resp_status = 503, retry_after_header = None\<rparr>, s @ [a])"
  have "attempt_state ?inner [] n = [0 ..< n]" for n by (induction n) simp_all
  then show ?thesis
    using server_retries_bounded [OF upstream_default_valid, of ?inner "[]"]
    by (auto simp: attempt_response_def upstream_default_def simp del: attempt_state.simps upt_Suc)
qed

text \<open>In continuity mode the loop goes on until a response is not retryable.\<close>

definition continuity_delays :: "(nat \<Rightarrow> 's \<Rightarrow> response \<times> 's) \<Rightarrow> UpstreamSettings \<Rightarrow> 's \<Rightarrow> nat \<Rightarrow> nat \<Rightarrow> duration list" where
  "continuity_delays inner up s k n =
     map (\<lambda>a. continuity_retry_delay a (retry_after_of (attempt_response inner s a)) up) [k ..< k + n]"

lemma retry_loop_continuity:
  assumes "\<not> is_retryable (resp_status (attempt_response inner s (k + n)))" "k + n \<le> u64_max"
    "\<forall>i < n. is_retryable (resp_status (attempt_response inner s (k + i)))"
  shows "retry_loop inner up True k slept (attempt_state inner s k) =
    Some (attempt_response inner s (k + n), slept @ continuity_delays inner up s k n, attempt_state inner s (Suc (k + n)))"
  using assms
proof (induction n arbitrary: k slept)
  case 0
  then show ?case
    by (subst retry_loop.simps) (simp only: inner_attempt, simp add: continuity_delays_def)
next
  case (Suc n)
  have retryable: "is_retryable (resp_status (attempt_response inner s k))" using Suc.prems(3) by auto
  have "sat_add u64_max k 1 = Suc k" using Suc.prems(2) by (simp add: sat_add_def)
  with retryable have "retry_loop inner up True k slept (attempt_state inner s k) =
      retry_loop inner up True (Suc k)
        (slept @ [continuity_retry_delay k (retry_after_of (attempt_response inner s k)) up]) (attempt_state inner s (Suc k))"
    by (subst retry_loop.simps) (simp only: inner_attempt, simp)
  also have "\<dots> = Some (attempt_response inner s (Suc k + n),
      (slept @ [continuity_retry_delay k (retry_after_of (attempt_response inner s k)) up]) @ continuity_delays inner up s (Suc k) n,
      attempt_state inner s (Suc (Suc k + n)))"
    using Suc.prems by (intro Suc.IH) auto
  finally show ?case by (simp add: continuity_delays_def upt_conv_Cons del: upt_Suc attempt_state.simps)
qed

text \<open>C29: In continuity mode the request ends with the first response that is not retryable, however late it comes; the
  waits in between never exceed the configured maximum and, without a \<open>retry-after\<close>, are at least the base delay.\<close>

theorem continuity_retries_until_final:
  assumes "upstream_validate up = Inr ()" "n \<le> u64_max"
    and "\<not> is_retryable (resp_status (attempt_response inner s n))"
    and "\<forall>i < n. is_retryable (resp_status (attempt_response inner s i))"
  shows "\<exists>slept. execute_with_server_retries inner up True s = Some (attempt_response inner s n, slept, attempt_state inner s (Suc n)) \<and>
    length slept = n \<and> (\<forall>d \<in> set slept. d \<le> continuity_retry_max_delay up) \<and>
    (\<forall>i < n. retry_after_of (attempt_response inner s i) = None \<longrightarrow> continuity_retry_base_delay up \<le> slept ! i)"
proof -
  have "retry_loop inner up True 0 [] (attempt_state inner s 0) =
      Some (attempt_response inner s (0 + n), [] @ continuity_delays inner up s 0 n, attempt_state inner s (Suc (0 + n)))"
    using assms(2-4) by (intro retry_loop_continuity) auto
  moreover note continuity_delay_bounds [OF assms(1)]
  ultimately show ?thesis
    by (auto simp: execute_with_server_retries_def continuity_delays_def simp del: attempt_state.simps(2))
qed

theorem continuity_retries_until_final_witness:
  "\<exists>slept. execute_with_server_retries (\<lambda>a s. (\<lparr>resp_status = (if a < 2 then 502 else 200), retry_after_header = None\<rparr>, s + 1)) upstream_default True (0::nat) =
     Some (\<lparr>resp_status = 200, retry_after_header = None\<rparr>, slept, 3) \<and> length slept = 2"
proof -
  let ?inner = "\<lambda>a s. (\<lparr>resp_status = (if a < 2 then 502 else 200), retry_after_header = None\<rparr>, s + 1) :: response \<times> nat"
  have "attempt_state ?inner 0 n = n" for n by (induction n) simp_all
  then have "attempt_response ?inner 0 n = \<lparr>resp_status = (if n < 2 then 502 else 200), retry_after_header = None\<rparr>" for n
    by (simp add: attempt_response_def)
  then show ?thesis
    using continuity_retries_until_final [OF upstream_default_valid, of 2 ?inner 0] \<open>\<And>n. attempt_state ?inner 0 n = n\<close>
    by (auto simp: is_retryable_def is_server_error_def simp del: attempt_state.simps)
qed

end
