(* ===== verification/GatewayIntake.thy ===== *)
theory GatewayIntake
  imports KeyHealth ApiKeyScope RuntimeControls Settings Json "HOL-Library.Product_Lexorder"
begin

text \<open>
  The intake of a gateway request: error responses (\<^verbatim>\<open>src/gateway/errors.rs\<close>), authentication
  (\<^verbatim>\<open>src/gateway/auth.rs\<close>), the admission of \<open>require_api_key\<close> and the listing of models
  (\<^verbatim>\<open>src/gateway/routes.rs\<close>), and reading the JSON body (\<^verbatim>\<open>src/gateway/flow.rs\<close>).
\<close>

section \<open>Error responses\<close>

record gateway_response =
  gr_status :: status
  gr_message :: string
  gr_type :: string
  gr_retry_after :: "string option"

definition gateway_error :: "status \<Rightarrow> string \<Rightarrow> gateway_response" where
  "gateway_error st message =
     \<lparr>gr_status = st, gr_message = message,
      gr_type = (if st = UNAUTHORIZED then ''authentication_error'' else ''gateway_error''), gr_retry_after = None\<rparr>"

definition gateway_database_error :: "StorageError \<Rightarrow> gateway_response" where
  "gateway_database_error e =
     gateway_error (if e = Busy \<or> e = MapFull then SERVICE_UNAVAILABLE else INTERNAL_SERVER_ERROR)
       ''Gateway storage is unavailable.''"

definition retry_after_seconds :: "duration \<Rightarrow> nat" where
  "retry_after_seconds delay =
     max (sat_add u64_max (as_secs delay) (if 0 < delay mod nanos_per_sec then 1 else 0)) 1"

definition rate_limited_response :: "duration option \<Rightarrow> gateway_response" where
  "rate_limited_response delay_hint =
     (gateway_error TOO_MANY_REQUESTS ''gateway rate limit exceeded'')
       \<lparr>gr_retry_after := map_option (\<lambda>delay. show_nat (retry_after_seconds delay)) delay_hint\<rparr>"

section \<open>Authentication\<close>

record AuthenticatedClient =
  client_key_id :: string
  client_scope :: ApiKeyScope

definition hex_bytes :: "bytes \<Rightarrow> string" where
  "hex_bytes v = concat (map hex_byte v)"

definition token_hash :: "sha256 \<Rightarrow> string \<Rightarrow> bytes" where
  "token_hash sha token = sha (str_bytes token)"

definition secure_eq :: "bytes \<Rightarrow> bytes \<Rightarrow> bool" where
  "secure_eq l r = (length l = length r \<and> l = r)"

definition presented_token :: "header_map \<Rightarrow> string option" where
  "presented_token hs =
     option_or (Option.bind (header_text hs ''authorization'') (strip_prefix ''Bearer ''))
       (header_text hs ''x-api-key'')"

text \<open>The read transaction: the key whose stored hash is the one of the token, with its scope.\<close>

definition lookup_token ::
  "'s key_db \<Rightarrow> json_strings \<Rightarrow> string \<Rightarrow> StorageError + (string \<times> ApiKeyScope) option" where
  "lookup_token db js token =
     (let candidate = token_hash (kd_sha db) token in
      rbind (get_id db (kd_snapshot db) ApiKeyTokenIndex (''token/'' @ hex_bytes candidate)) (\<lambda>found.
        case found of
          None \<Rightarrow> Inr None
        | Some i \<Rightarrow>
            rbind (get_record db ApiKeys i) (\<lambda>r.
              case r of
                None \<Rightarrow> Inl (Invalid ''API key token index points to a missing key'')
              | Some r \<Rightarrow>
                  rbind (rec_boolean r ''enabled'') (\<lambda>enabled.
                  rbind (if enabled then rbind (rec_bytes r ''token_hash'') (\<lambda>h. Inr (secure_eq h candidate))
                         else Inr False) (\<lambda>accepted.
                    if \<not> accepted then Inr None
                    else rbind (from_record js r) (\<lambda>scope. Inr (Some (i, scope))))))))"

definition touch_api_key :: "'s key_db \<Rightarrow> string \<Rightarrow> string \<Rightarrow> 's \<Rightarrow> StorageError + 's" where
  "touch_api_key db timestamp i s =
     rbind (get_in db s ApiKeys i) (\<lambda>found.
       case found of
         None \<Rightarrow> Inr s
       | Some r \<Rightarrow> put_in db ApiKeys i (hm_insert ''last_used_at'' (Text timestamp) r) s)"

text \<open>
  \<open>authenticate_client\<close>. The limiter is \<open>API_KEY_LAST_USED_UPDATES\<close>; \<open>None\<close> is a panic inside it. A failed
  update of the time stamp is only logged.
\<close>

definition authenticate_client ::
  "json_strings \<Rightarrow> header_map \<Rightarrow> instant \<Rightarrow> nat option \<Rightarrow> RateLimiter \<Rightarrow> 's key_db
     \<Rightarrow> ((gateway_response + AuthenticatedClient) \<times> RateLimiter \<times> 's key_db) option" where
  "authenticate_client js hs now clock limiter db =
     (case presented_token hs of
        None \<Rightarrow> Some (Inl (gateway_error UNAUTHORIZED ''gateway API key required''), limiter, db)
      | Some token \<Rightarrow>
          if token = [] \<or> 4096 < str_len token then
            Some (Inl (gateway_error UNAUTHORIZED ''invalid gateway API key''), limiter, db)
          else
            (case lookup_token db js token of
               Inl e \<Rightarrow> Some (Inl (gateway_database_error e), limiter, db)
             | Inr None \<Rightarrow> Some (Inl (gateway_error UNAUTHORIZED ''invalid gateway API key''), limiter, db)
             | Inr (Some (key_id, scope)) \<Rightarrow>
                 (case check_at limiter key_id now of
                    None \<Rightarrow> None
                  | Some (limiter', decision) \<Rightarrow>
                      let client = \<lparr>client_key_id = key_id, client_scope = scope\<rparr> in
                      if \<not> allowed decision then Some (Inr client, limiter', db)
                      else
                        (case utc_timestamp_now clock of
                           Inl e \<Rightarrow> Some (Inl (gateway_database_error e), limiter', db)
                         | Inr timestamp \<Rightarrow>
                             Some (Inr client, limiter', snd (write_attempt (touch_api_key db timestamp key_id) db))))))"

section \<open>Admission\<close>

record 's intake =
  admin_password_change_required :: bool
  trust_proxy_headers :: bool
  in_db :: "'s key_db"
  api_key_last_used :: RateLimiter
  gateway_key_limiter :: RateLimiter
  gateway_auth_failure_limiter :: RateLimiter
  gateway_in_flight :: DynamicSemaphore
  gateway_body_processing :: DynamicSemaphore
  settings_now :: OperationalSettings
  resource_limits_now :: GatewayResourceLimits
  request_count :: nat

record GatewayRequestContext =
  ctx_resource_limits :: GatewayResourceLimits
  ctx_operational_settings :: OperationalSettings
  ctx_api_key_id :: string
  ctx_api_key_scope :: ApiKeyScope

datatype admission = Refused gateway_response | Forwarded GatewayRequestContext

text \<open>
  \<open>acquire_owned\<close> under its timeout: if no slot is free, other requests run (\<open>wait\<close>) until one is or the time is
  over.
\<close>

definition acquire_body_slot :: "('s intake \<Rightarrow> 's intake) \<Rightarrow> 's intake \<Rightarrow> bool \<times> 's intake" where
  "acquire_body_slot wait st =
     (case try_acquire_owned (gateway_body_processing st) of
        (True, s) \<Rightarrow> (True, st\<lparr>gateway_body_processing := s\<rparr>)
      | (False, _) \<Rightarrow>
          (let st1 = wait st in
           case try_acquire_owned (gateway_body_processing st1) of
             (ok, s) \<Rightarrow> (ok, st1\<lparr>gateway_body_processing := s\<rparr>)))"

definition key_policy :: "OperationalSettings \<Rightarrow> RateLimitPolicy" where
  "key_policy settings =
     TokenBucket (gateway_key_capacity settings) (gateway_key_refill_tokens settings) (gateway_key_refill_interval settings)"

text \<open>What follows a successful authentication, up to the call of the handler.\<close>

definition admit_client ::
  "('s intake \<Rightarrow> 's intake) \<Rightarrow> instant \<Rightarrow> bool \<Rightarrow> AuthenticatedClient \<Rightarrow> 's intake \<Rightarrow> (admission \<times> 's intake) option" where
  "admit_client wait now is_post client st =
     (let settings = settings_now st in
      case check_at_with_policy (gateway_key_limiter st) (client_key_id client) now (key_policy settings) of
        None \<Rightarrow> None
      | Some (limiter, decision) \<Rightarrow>
          (let st1 = st\<lparr>gateway_key_limiter := limiter\<rparr> in
           if \<not> allowed decision then Some (Refused (rate_limited_response (retry_after decision)), st1)
           else
             (case try_acquire_owned (gateway_in_flight st1) of
                (False, _) \<Rightarrow>
                  Some (Refused (gateway_error SERVICE_UNAVAILABLE
                    ''gateway is at its in-flight request limit; retry shortly''), st1)
              | (True, flight) \<Rightarrow>
                  (case (if is_post then acquire_body_slot wait (st1\<lparr>gateway_in_flight := flight\<rparr>)
                         else (True, st1\<lparr>gateway_in_flight := flight\<rparr>)) of
                     (False, st2) \<Rightarrow>
                       Some (Refused (gateway_error SERVICE_UNAVAILABLE
                         ''gateway request processing is busy; retry shortly''),
                         st2\<lparr>gateway_in_flight := release_slot (gateway_in_flight st2)\<rparr>)
                   | (True, st2) \<Rightarrow>
                       Some (Forwarded
                         \<lparr>ctx_resource_limits = resource_limits_now st2, ctx_operational_settings = settings,
                          ctx_api_key_id = client_key_id client, ctx_api_key_scope = client_scope client\<rparr>,
                         st2\<lparr>request_count := (request_count st2 + 1) mod 2 ^ 64\<rparr>)))))"

definition require_api_key ::
  "json_strings \<Rightarrow> ('s intake \<Rightarrow> 's intake) \<Rightarrow> header_map \<Rightarrow> string \<Rightarrow> bool \<Rightarrow> instant \<Rightarrow> nat option \<Rightarrow> 's intake
     \<Rightarrow> (admission \<times> 's intake) option" where
  "require_api_key js wait hs peer_ip is_post now clock st =
     (if admin_password_change_required st then
        Some (Refused (gateway_error SERVICE_UNAVAILABLE
          ''change the admin password before enabling gateway traffic''), st)
      else
        case authenticate_client js hs now clock (api_key_last_used st) (in_db st) of
          None \<Rightarrow> None
        | Some (outcome, limiter, db) \<Rightarrow>
            (let st1 = st\<lparr>api_key_last_used := limiter, in_db := db\<rparr> in
             case outcome of
               Inr client \<Rightarrow> admit_client wait now is_post client st1
             | Inl response \<Rightarrow>
                 if gr_status response = UNAUTHORIZED then
                   (case check_at (gateway_auth_failure_limiter st1) peer_ip now of
                      None \<Rightarrow> None
                    | Some (failures, decision) \<Rightarrow>
                        Some (Refused (if \<not> allowed decision then rate_limited_response (retry_after decision) else response),
                          st1\<lparr>gateway_auth_failure_limiter := failures\<rparr>))
                 else Some (Refused response, st1)))"

section \<open>The JSON body\<close>

definition is_json_content_type :: "header_map \<Rightarrow> bool" where
  "is_json_content_type hs =
     (let content_type = (case header_text hs ''content-type'' of
            Some v \<Rightarrow> trim (case split_once (CHR '';'') v of Some (a, _) \<Rightarrow> a | None \<Rightarrow> v)
          | None \<Rightarrow> [])
      in case split_once (CHR ''/'') content_type of
           None \<Rightarrow> False
         | Some (top_level, subtype) \<Rightarrow>
             eq_ignore_ascii_case top_level ''application'' \<and>
             (eq_ignore_ascii_case subtype ''json'' \<or> ends_with ''+json'' (to_ascii_lowercase subtype)))"

definition too_large :: gateway_response where
  "too_large = gateway_error PAYLOAD_TOO_LARGE ''request body exceeds the configured gateway body limit''"

text \<open>The loop over the chunks; an unreadable chunk is \<open>None\<close>.\<close>

fun read_body :: "nat \<Rightarrow> bytes \<Rightarrow> bytes option list \<Rightarrow> gateway_response + bytes" where
  "read_body max_bytes body [] = Inr body"
| "read_body max_bytes body (None # chunks) = Inl (gateway_error BAD_REQUEST ''request body could not be read'')"
| "read_body max_bytes body (Some chunk # chunks) =
     (if max_bytes - length body < length chunk then Inl too_large
      else read_body max_bytes (body @ chunk) chunks)"

definition gateway_json_request ::
  "json_text \<Rightarrow> GatewayRequestContext option \<Rightarrow> header_map \<Rightarrow> bytes option list
     \<Rightarrow> gateway_response + (json \<times> GatewayRequestContext)" where
  "gateway_json_request jt context hs chunks =
     (case context of
        None \<Rightarrow> Inl (gateway_error INTERNAL_SERVER_ERROR ''gateway request context was not initialized'')
      | Some ctx \<Rightarrow>
          (let max_bytes = gateway_body_limit_bytes (ctx_resource_limits ctx) in
           if \<not> is_json_content_type hs then
             Inl (gateway_error UNSUPPORTED_MEDIA_TYPE ''request Content-Type must be application/json'')
           else
             rbind (case header_get hs ''content-length'' of
                      None \<Rightarrow> Inr ()
                    | Some v \<Rightarrow>
                        (case Option.bind (to_str v) (parse_unsigned u64_max) of
                           None \<Rightarrow> Inl (gateway_error BAD_REQUEST ''request Content-Length is invalid'')
                         | Some n \<Rightarrow> if max_bytes < n then Inl too_large else Inr ())) (\<lambda>_.
             rbind (read_body max_bytes [] chunks) (\<lambda>body.
               case json_from_slice jt body of
                 None \<Rightarrow> Inl (gateway_error BAD_REQUEST ''request body is not valid JSON'')
               | Some v \<Rightarrow> Inr (v, ctx)))))"

section \<open>The listing of models\<close>

definition MAX_PUBLIC_MODEL_RECORDS :: nat where "MAX_PUBLIC_MODEL_RECORDS = 100000"

text \<open>\<open>to_lowercase\<close> on the scalar values up to U+00FF.\<close>

definition to_lowercase :: "string \<Rightarrow> string" where
  "to_lowercase =
     map (\<lambda>c. if 65 \<le> code c \<and> code c \<le> 90 \<or> 192 \<le> code c \<and> code c \<le> 222 \<and> code c \<noteq> 215
              then char_of (code c + 32) else c)"

record model_entry =
  model_entry_id :: string
  owned_by :: string

type_synonym rows_of = "(string \<times> Record) list"

definition scan_all :: "'s key_db \<Rightarrow> Table \<Rightarrow> StorageError + rows_of" where
  "scan_all db table =
     scan_prefix (kd_heed db) (kd_records db) (kd_zstd db) (kd_dictionary db) (kd_snapshot db) table []
       (MAX_PUBLIC_MODEL_RECORDS + 1)"

fun scoped_routes :: "ApiKeyScope \<Rightarrow> rows_of \<Rightarrow> StorageError + string list" where
  "scoped_routes scope [] = Inr []"
| "scoped_routes scope ((k, target) # rest) =
     rbind (rec_boolean target ''enabled'') (\<lambda>enabled.
       if \<not> enabled then scoped_routes scope rest
       else
         rbind (optional_text target ''provider_id'') (\<lambda>provider_id.
         rbind (if (case provider_id of Some p \<Rightarrow> allows_provider scope p | None \<Rightarrow> False)
                then rbind (rec_text target ''route_id'') (\<lambda>route_id. Inr [route_id]) else Inr []) (\<lambda>found.
         rbind (scoped_routes scope rest) (\<lambda>others. Inr (found @ others)))))"

definition scoped_route_ids :: "'s key_db \<Rightarrow> ApiKeyScope option \<Rightarrow> StorageError + string list option" where
  "scoped_route_ids db scope =
     (case scope of
        Some sc \<Rightarrow>
          if allowed_provider_ids sc = [] then Inr None
          else
            rbind (scan_all db RouteTargets) (\<lambda>targets.
              if MAX_PUBLIC_MODEL_RECORDS < length targets then Inl Busy
              else rbind (scoped_routes sc targets) (\<lambda>ids. Inr (Some ids)))
      | None \<Rightarrow> Inr None)"

definition scope_allows_model :: "ApiKeyScope option \<Rightarrow> string \<Rightarrow> bool" where
  "scope_allows_model scope m = (case scope of Some sc \<Rightarrow> allows_model sc m | None \<Rightarrow> True)"

definition scope_allows_provider :: "ApiKeyScope option \<Rightarrow> string \<Rightarrow> bool" where
  "scope_allows_provider scope p = (case scope of Some sc \<Rightarrow> allows_provider sc p | None \<Rightarrow> True)"

text \<open>The loop over the routes; the ids already listed are the set \<open>seen\<close> of the code.\<close>

fun list_routes ::
  "ApiKeyScope option \<Rightarrow> string list option \<Rightarrow> rows_of \<Rightarrow> model_entry list \<Rightarrow> StorageError + model_entry list" where
  "list_routes scope routes_allowed [] models = Inr models"
| "list_routes scope routes_allowed ((k, route) # rest) models =
     rbind (rec_boolean route ''enabled'') (\<lambda>enabled.
       if \<not> enabled then list_routes scope routes_allowed rest models
       else
         rbind (rec_text route ''id'') (\<lambda>i.
           if \<not> scope_allows_model scope i \<or> (case routes_allowed of Some ids \<Rightarrow> i \<notin> set ids | None \<Rightarrow> False)
              \<or> i \<in> model_entry_id ` set models
           then list_routes scope routes_allowed rest models
           else list_routes scope routes_allowed rest
                  (models @ [\<lparr>model_entry_id = i, owned_by = ''exoroute''\<rparr>])))"

fun enabled_prefixes :: "rows_of \<Rightarrow> (string, string) hmap \<Rightarrow> StorageError + (string, string) hmap" where
  "enabled_prefixes [] m = Inr m"
| "enabled_prefixes ((k, provider) # rest) m =
     rbind (rec_boolean provider ''enabled'') (\<lambda>enabled.
       if \<not> enabled then enabled_prefixes rest m
       else
         rbind (rec_text provider ''id'') (\<lambda>i.
         rbind (optional_text provider ''model_prefix'') (\<lambda>pre.
           enabled_prefixes rest
             (hm_insert i (case pre of
                Some v \<Rightarrow> if trim v = [] then to_ascii_lowercase i else to_ascii_lowercase (trim v)
              | None \<Rightarrow> to_ascii_lowercase i) m))))"

fun provider_aliases ::
  "ApiKeyScope option \<Rightarrow> (string, string) hmap \<Rightarrow> rows_of \<Rightarrow> StorageError + (string \<times> string) list" where
  "provider_aliases scope prefixes [] = Inr []"
| "provider_aliases scope prefixes ((k, r) # rest) =
     rbind (rec_text r ''provider_id'') (\<lambda>provider_id.
       case hm_get prefixes provider_id of
         None \<Rightarrow> provider_aliases scope prefixes rest
       | Some pre \<Rightarrow>
           if \<not> scope_allows_provider scope provider_id then provider_aliases scope prefixes rest
           else
             rbind (rec_text r ''model'') (\<lambda>m.
             rbind (provider_aliases scope prefixes rest) (\<lambda>others. Inr ((pre, m) # others))))"

fun list_aliases ::
  "ApiKeyScope option \<Rightarrow> (string \<times> string) list \<Rightarrow> model_entry list \<Rightarrow> StorageError + model_entry list" where
  "list_aliases scope [] models = Inr models"
| "list_aliases scope ((pre, m) # rest) models =
     (let i = pre @ ''/'' @ m in
      if \<not> scope_allows_model scope i \<or> i \<in> model_entry_id ` set models then list_aliases scope rest models
      else if length models = MAX_PUBLIC_MODEL_RECORDS then Inl Busy
      else list_aliases scope rest (models @ [\<lparr>model_entry_id = i, owned_by = pre\<rparr>]))"

definition list_models :: "'s key_db \<Rightarrow> ApiKeyScope option \<Rightarrow> StorageError + model_entry list" where
  "list_models db scope =
     rbind (scan_all db Routes) (\<lambda>routes.
     rbind (scan_all db Providers) (\<lambda>providers.
     rbind (scan_all db ProviderModels) (\<lambda>provider_models.
       if MAX_PUBLIC_MODEL_RECORDS < length routes \<or> MAX_PUBLIC_MODEL_RECORDS < length providers
          \<or> MAX_PUBLIC_MODEL_RECORDS < length provider_models
       then Inl Busy
       else
         rbind (scoped_route_ids db scope) (\<lambda>routes_allowed.
         rbind (list_routes scope routes_allowed routes []) (\<lambda>models.
         rbind (enabled_prefixes providers []) (\<lambda>prefixes.
         rbind (provider_aliases scope prefixes provider_models) (\<lambda>found.
           list_aliases scope (sort_key (\<lambda>(pre, m). (pre, to_lowercase m, m)) found) models)))))))"

section \<open>Who is admitted\<close>

lemma secure_eq_iff [simp]: "secure_eq l r \<longleftrightarrow> l = r"
  by (auto simp: secure_eq_def)

lemma lookup_token_sound:
  assumes "lookup_token db js token = Inr (Some (i, scope))"
  obtains r where "get_record db ApiKeys i = Inr (Some r)" "rec_boolean r ''enabled'' = Inr True"
    "rec_bytes r ''token_hash'' = Inr (token_hash (kd_sha db) token)" "from_record js r = Inr scope"
  using assms that
  by (auto simp: lookup_token_def Let_def rbind_eq_Inr split: option.splits if_splits)

definition key_of_token :: "json_strings \<Rightarrow> 's key_db \<Rightarrow> header_map \<Rightarrow> string \<Rightarrow> ApiKeyScope \<Rightarrow> bool" where
  "key_of_token js db hs i scope \<longleftrightarrow>
     (\<exists>token r. presented_token hs = Some token \<and> token \<noteq> [] \<and> str_len token \<le> 4096 \<and>
        get_record db ApiKeys i = Inr (Some r) \<and> rec_boolean r ''enabled'' = Inr True \<and>
        rec_bytes r ''token_hash'' = Inr (token_hash (kd_sha db) token) \<and> from_record js r = Inr scope)"

lemma authenticate_sound:
  assumes "authenticate_client js hs now clock limiter db = Some (Inr client, limiter', db')"
  shows "key_of_token js db hs (client_key_id client) (client_scope client)"
proof -
  obtain token i scope where t: "presented_token hs = Some token" "token \<noteq> []" "str_len token \<le> 4096"
    "lookup_token db js token = Inr (Some (i, scope))" "client = \<lparr>client_key_id = i, client_scope = scope\<rparr>"
    using assms
    by (auto simp: authenticate_client_def Let_def split: option.splits sum.splits if_splits prod.splits)
  from t(4) show ?thesis
    by (rule lookup_token_sound) (use t in \<open>auto simp: key_of_token_def\<close>)
qed

lemma authenticate_refusal:
  assumes "authenticate_client js hs now clock limiter db = Some (Inl response, limiter', db')"
  shows "gr_status response \<in> {UNAUTHORIZED, INTERNAL_SERVER_ERROR, SERVICE_UNAVAILABLE}"
  using assms
  by (auto simp: authenticate_client_def gateway_error_def gateway_database_error_def Let_def
      split: option.splits sum.splits if_splits prod.splits)

lemma acquired_slot:
  "try_acquire_owned s = (True, s') \<Longrightarrow>
     active s' = active s + 1 \<and> limit s' = limit s \<and> (limit s = 0 \<or> active s' \<le> limit s) \<and> release_slot s' = s"
  by (auto simp: try_acquire_owned_def release_slot_def int_simps split: if_splits option.splits)

lemma body_slot_keeps_flight:
  assumes "\<And>s. gateway_in_flight (wait s) = gateway_in_flight s"
  shows "gateway_in_flight (snd (acquire_body_slot wait st)) = gateway_in_flight st"
  using assms by (auto simp: acquire_body_slot_def Let_def split: prod.splits bool.splits)

lemma admit_forwarded:
  assumes "admit_client wait now is_post client st = Some (Forwarded ctx, st')"
    and "\<And>s. gateway_in_flight (wait s) = gateway_in_flight s"
  shows "ctx_api_key_id ctx = client_key_id client \<and> ctx_api_key_scope ctx = client_scope client \<and>
    (\<exists>l d. check_at_with_policy (gateway_key_limiter st) (client_key_id client) now (key_policy (settings_now st)) =
       Some (l, d) \<and> allowed d) \<and>
    active (gateway_in_flight st') = active (gateway_in_flight st) + 1 \<and>
    (limit (gateway_in_flight st) = 0 \<or> active (gateway_in_flight st') \<le> limit (gateway_in_flight st))"
proof -
  obtain l d flight st2 where d: "check_at_with_policy (gateway_key_limiter st) (client_key_id client) now
      (key_policy (settings_now st)) = Some (l, d)" "allowed d"
    "try_acquire_owned (gateway_in_flight st) = (True, flight)"
    "(if is_post then acquire_body_slot wait (st\<lparr>gateway_key_limiter := l, gateway_in_flight := flight\<rparr>)
      else (True, st\<lparr>gateway_key_limiter := l, gateway_in_flight := flight\<rparr>)) = (True, st2)"
    "ctx_api_key_id ctx = client_key_id client" "ctx_api_key_scope ctx = client_scope client"
    "gateway_in_flight st' = gateway_in_flight st2"
    using assms(1) by (auto simp: admit_client_def Let_def split: option.splits if_splits prod.splits bool.splits)
  have "gateway_in_flight st2 = flight"
    using d(4) body_slot_keeps_flight [OF assms(2), of "st\<lparr>gateway_key_limiter := l, gateway_in_flight := flight\<rparr>"]
    by (cases is_post) auto
  with acquired_slot [OF d(3)] d show ?thesis by auto
qed

lemma admit_refused:
  assumes "admit_client wait now is_post client st = Some (Refused r, st')"
    and "\<And>s. gateway_in_flight (wait s) = gateway_in_flight s"
  shows "gateway_in_flight st' = gateway_in_flight st \<and> gr_status r \<in> {TOO_MANY_REQUESTS, SERVICE_UNAVAILABLE}"
proof -
  obtain l d where d: "check_at_with_policy (gateway_key_limiter st) (client_key_id client) now
      (key_policy (settings_now st)) = Some (l, d)"
    using assms(1) by (auto simp: admit_client_def Let_def split: option.splits)
  show ?thesis
  proof (cases "allowed d")
    case False
    with assms(1) d show ?thesis by (auto simp: admit_client_def Let_def rate_limited_response_def gateway_error_def)
  next
    case True
    obtain b flight where f: "try_acquire_owned (gateway_in_flight st) = (b, flight)" by force
    show ?thesis
    proof (cases b)
      case False
      with assms(1) d True f show ?thesis by (auto simp: admit_client_def Let_def gateway_error_def)
    next
      case ok: True
      obtain st2 where s: "(if is_post then acquire_body_slot wait (st\<lparr>gateway_key_limiter := l, gateway_in_flight := flight\<rparr>)
          else (True, st\<lparr>gateway_key_limiter := l, gateway_in_flight := flight\<rparr>)) = (False, st2)"
        "st' = st2\<lparr>gateway_in_flight := release_slot (gateway_in_flight st2)\<rparr>" "gr_status r = SERVICE_UNAVAILABLE"
        using assms(1) d True f ok
        by (auto simp: admit_client_def Let_def gateway_error_def split: prod.splits bool.splits)
      then have "gateway_in_flight st2 = flight"
        using body_slot_keeps_flight [OF assms(2), of "st\<lparr>gateway_key_limiter := l, gateway_in_flight := flight\<rparr>"]
        by (cases is_post) auto
      with acquired_slot f ok s show ?thesis by auto
    qed
  qed
qed

text \<open>C4: A request reaches the handler only with the secret of an enabled key: the hash of the presented token is the
  one stored with the key, the scope attached to the request is the stored scope, the key's rate limit granted the
  request, and the request occupies exactly one in-flight slot within the limit. What other requests do while this one
  waits for a body slot is arbitrary, apart from this request's own in-flight slot.\<close>

theorem admitted_requests_authenticated:
  assumes "require_api_key js wait hs peer_ip is_post now clock st = Some (Forwarded ctx, st')"
    and "\<forall>s. gateway_in_flight (wait s) = gateway_in_flight s"
  shows "\<not> admin_password_change_required st \<and>
    key_of_token js (in_db st) hs (ctx_api_key_id ctx) (ctx_api_key_scope ctx) \<and>
    (\<exists>l d. check_at_with_policy (gateway_key_limiter st) (ctx_api_key_id ctx) now (key_policy (settings_now st)) =
       Some (l, d) \<and> allowed d) \<and>
    active (gateway_in_flight st') = active (gateway_in_flight st) + 1 \<and>
    (limit (gateway_in_flight st) = 0 \<or> active (gateway_in_flight st') \<le> limit (gateway_in_flight st))"
proof -
  obtain client limiter db where a: "\<not> admin_password_change_required st"
    "authenticate_client js hs now clock (api_key_last_used st) (in_db st) = Some (Inr client, limiter, db)"
    "admit_client wait now is_post client (st\<lparr>api_key_last_used := limiter, in_db := db\<rparr>) = Some (Forwarded ctx, st')"
    using assms(1) by (auto simp: require_api_key_def Let_def split: if_splits option.splits sum.splits prod.splits)
  from admit_forwarded [OF a(3)] assms(2) authenticate_sound [OF a(2)] a(1) show ?thesis by auto
qed

text \<open>C5: A refused request holds nothing: the in-flight counter is the one before the request, on every path of the
  admission including the time-out of the body queue, and the answer is one of 401, 429, 500 and 503; a 401 or 500 is
  given only to a request that was not authenticated.\<close>

theorem refused_requests_hold_nothing:
  assumes "require_api_key js wait hs peer_ip is_post now clock st = Some (Refused r, st')"
    and "\<forall>s. gateway_in_flight (wait s) = gateway_in_flight s"
  shows "gateway_in_flight st' = gateway_in_flight st \<and>
    gr_status r \<in> {UNAUTHORIZED, TOO_MANY_REQUESTS, INTERNAL_SERVER_ERROR, SERVICE_UNAVAILABLE} \<and>
    (gr_status r = UNAUTHORIZED \<or> gr_status r = INTERNAL_SERVER_ERROR \<longrightarrow>
       (\<forall>client limiter db. authenticate_client js hs now clock (api_key_last_used st) (in_db st) \<noteq>
          Some (Inr client, limiter, db)))"
proof (cases "admin_password_change_required st")
  case True
  with assms(1) show ?thesis by (auto simp: require_api_key_def gateway_error_def)
next
  case ready: False
  obtain outcome limiter db where a:
    "authenticate_client js hs now clock (api_key_last_used st) (in_db st) = Some (outcome, limiter, db)"
    using assms(1) ready by (auto simp: require_api_key_def split: option.splits)
  show ?thesis
  proof (cases outcome)
    case (Inr client)
    then have "admit_client wait now is_post client (st\<lparr>api_key_last_used := limiter, in_db := db\<rparr>) = Some (Refused r, st')"
      using assms(1) ready a by (simp add: require_api_key_def)
    from admit_refused [OF this] assms(2) show ?thesis by auto
  next
    case (Inl response)
    with assms(1) ready a have "gateway_in_flight st' = gateway_in_flight st" "r = response \<or> gr_status r = TOO_MANY_REQUESTS"
      by (auto simp: require_api_key_def Let_def rate_limited_response_def gateway_error_def split: if_splits option.splits)
    with authenticate_refusal [OF a [unfolded Inl]] a Inl show ?thesis by auto
  qed
qed

section \<open>The announced delay\<close>

lemma retry_after_seconds_covers:
  assumes "delay \<le> from_secs 86400"
  shows "delay \<le> from_secs (retry_after_seconds delay)"
proof -
  have "as_secs delay \<le> 86400" using assms div_le_mono [of delay "from_secs 86400" nanos_per_sec]
    by (simp add: as_secs_def from_secs_def)
  then have s: "retry_after_seconds delay \<ge> as_secs delay + (if 0 < delay mod nanos_per_sec then 1 else 0)"
    by (simp add: retry_after_seconds_def sat_add_def)
  have "delay = as_secs delay * nanos_per_sec + delay mod nanos_per_sec"
    by (simp add: as_secs_def)
  also have "\<dots> \<le> (as_secs delay + (if 0 < delay mod nanos_per_sec then 1 else 0)) * nanos_per_sec"
    using mod_less_divisor [of nanos_per_sec delay] by (auto simp: add_mult_distrib)
  also have "\<dots> \<le> from_secs (retry_after_seconds delay)"
    using s unfolding from_secs_def by (rule mult_le_mono1)
  finally show ?thesis .
qed

lemma key_policy_ok:
  assumes "settings_validate settings = Inr ()"
  shows "policy_ok (key_policy settings)" "gateway_key_refill_interval settings \<le> from_secs 86400"
  using assms by (auto simp: settings_validate_def key_policy_def split: if_splits)

text \<open>C6: The delay that a rate-limited client is told, in whole seconds, is long enough: under validated settings, a
  client that waits at least that long is granted its next request by the limiter of its key.\<close>

theorem announced_delay_suffices:
  assumes "admit_client wait now is_post client st = Some (Refused r, st')" and "gr_retry_after r = Some text"
    and "settings_validate (settings_now st) = Inr ()" and "limiter_ok (gateway_key_limiter st)"
    and "quota_fits (key_policy (settings_now st))
           (map_option quota (hm_get (entries (state (gateway_key_limiter st))) (client_key_id client)))"
    and "\<forall>e. hm_get (entries (state (gateway_key_limiter st))) (client_key_id client) = Some e \<longrightarrow> stamp (quota e) \<le> now"
  shows "\<exists>seconds. text = show_nat seconds \<and> 1 \<le> seconds \<and>
    (\<forall>later \<ge> now + from_secs seconds. \<exists>l d.
       check_at_with_policy (gateway_key_limiter st') (client_key_id client) later (key_policy (settings_now st)) =
         Some (l, d) \<and> allowed d)"
proof -
  let ?p = "key_policy (settings_now st)"
  obtain l d where c: "check_at_internal (gateway_key_limiter st) (client_key_id client) now (Some ?p) = Some (l, d)"
    "\<not> allowed d" "st' = st\<lparr>gateway_key_limiter := l\<rparr>" "r = rate_limited_response (retry_after d)"
    using assms(1,2)
    by (auto simp: admit_client_def check_at_with_policy_def Let_def gateway_error_def
        split: option.splits if_splits prod.splits bool.splits)
  obtain w where w: "retry_after d = Some w" "text = show_nat (retry_after_seconds w)"
    using assms(2) c(4) by (auto simp: rate_limited_response_def gateway_error_def)
  note ok = key_policy_ok [OF assms(3)]
  have "w \<le> gateway_key_refill_interval (settings_now st)"
    using retry_delay_le [OF assms(4) ok(1) [unfolded key_policy_def] c(1) [unfolded key_policy_def] w(1)
        assms(5) [unfolded key_policy_def]] .
  then have "w \<le> from_secs (retry_after_seconds w)"
    using ok(2) by (intro retry_after_seconds_covers) (rule order_trans)
  then have "\<exists>l' d'. check_at_internal l (client_key_id client) later (Some ?p) = Some (l', d') \<and> allowed d'"
    if "now + from_secs (retry_after_seconds w) \<le> later" for later
    using that ok(1) assms(5,6) c(2)
    by (intro retry_granted [OF assms(4) _ c(1) w(1)]) (auto simp: requested_def)
  moreover have "1 \<le> retry_after_seconds w" by (simp add: retry_after_seconds_def)
  ultimately show ?thesis using w(2) c(3) unfolding check_at_with_policy_def by auto
qed

section \<open>The size of a body\<close>

lemma read_body_concat:
  assumes "length body \<le> max_bytes"
  shows "read_body max_bytes body (map Some chunks) =
    (if length (body @ concat chunks) \<le> max_bytes then Inr (body @ concat chunks) else Inl too_large)"
  using assms
proof (induction chunks arbitrary: body)
  case (Cons chunk chunks)
  show ?case
  proof (cases "max_bytes - length body < length chunk")
    case False
    then have "length (body @ chunk) \<le> max_bytes" using Cons.prems by simp
    from Cons.IH [OF this] False show ?thesis by (simp add: add.assoc)
  qed (use Cons.prems in auto)
qed simp

text \<open>The loop that reads a body in chunks does what reading the whole body and comparing its length with the limit
  would do: a body that the client sends completely is accepted exactly if it fits the limit, however it is split into
  chunks, and otherwise answered with 413; an interrupted body is never accepted.\<close>

lemma body_limit_exact:
  "read_body max_bytes [] (map Some chunks) =
     (if length (concat chunks) \<le> max_bytes then Inr (concat chunks) else Inl too_large) \<and>
   gr_status too_large = PAYLOAD_TOO_LARGE \<and>
   (\<exists>e. read_body max_bytes [] (map Some chunks @ None # rest) = Inl e \<and> gr_status e \<in> {BAD_REQUEST, PAYLOAD_TOO_LARGE})"
proof -
  have "\<exists>e. read_body max_bytes body (map Some chunks @ None # rest) = Inl e \<and> gr_status e \<in> {BAD_REQUEST, PAYLOAD_TOO_LARGE}"
    for body
    by (induction chunks arbitrary: body) (auto simp: too_large_def gateway_error_def)
  then show ?thesis using read_body_concat [of "[]"] by (simp add: too_large_def gateway_error_def)
qed

section \<open>What the listing shows\<close>

definition ids_ok :: "ApiKeyScope option \<Rightarrow> model_entry list \<Rightarrow> bool" where
  "ids_ok scope models \<longleftrightarrow> distinct (map model_entry_id models) \<and>
     (\<forall>m \<in> set models. scope_allows_model scope (model_entry_id m))"

definition enabled_row :: "rows_of \<Rightarrow> string \<Rightarrow> bool" where
  "enabled_row rs i \<longleftrightarrow> (\<exists>k r. (k, r) \<in> set rs \<and> rec_boolean r ''enabled'' = Inr True \<and> rec_text r ''id'' = Inr i)"

lemma ids_ok_snoc:
  "ids_ok scope models \<Longrightarrow> scope_allows_model scope (model_entry_id m) \<Longrightarrow> model_entry_id m \<notin> model_entry_id ` set models \<Longrightarrow>
     ids_ok scope (models @ [m])"
  by (auto simp: ids_ok_def)

lemma list_routes_sound:
  assumes "list_routes scope routes_allowed rs models = Inr models'" and "ids_ok scope models"
    and "\<forall>m \<in> set models. enabled_row all (model_entry_id m)" and "set rs \<subseteq> set all"
  shows "ids_ok scope models' \<and> (\<forall>m \<in> set models'. enabled_row all (model_entry_id m)) \<and>
    length models' \<le> length models + length rs"
  using assms
proof (induction scope routes_allowed rs models rule: list_routes.induct)
  case (2 scope routes_allowed k route rest models)
  obtain enabled where e: "rec_boolean route ''enabled'' = Inr enabled"
    using 2(4) by (auto simp: rbind_eq_Inr)
  show ?case
  proof (cases enabled)
    case False
    then have "list_routes scope routes_allowed rest models = Inr models'" using 2(4) e by simp
    from 2(1) [OF e False this] 2(5-7) show ?thesis by auto
  next
    case True
    then obtain i where i: "rec_text route ''id'' = Inr i" using 2(4) e by (auto simp: rbind_eq_Inr)
    let ?skip = "\<not> scope_allows_model scope i \<or> (case routes_allowed of Some ids \<Rightarrow> i \<notin> set ids | None \<Rightarrow> False)
        \<or> i \<in> model_entry_id ` set models"
    let ?new = "\<lparr>model_entry_id = i, owned_by = ''exoroute''\<rparr>"
    show ?thesis
    proof (cases ?skip)
      case skip: True
      then have "list_routes scope routes_allowed rest models = Inr models'" using 2(4) e True i by simp
      from 2(2) [OF e _ i skip this] True 2(5-7) show ?thesis by auto
    next
      case False
      then have l: "list_routes scope routes_allowed rest (models @ [?new]) = Inr models'" using 2(4) e True i by auto
      have "ids_ok scope (models @ [?new])" using False 2(5) by (intro ids_ok_snoc) auto
      moreover have "enabled_row all i" using 2(7) e True i by (auto simp: enabled_row_def)
      ultimately show ?thesis using 2(3) [OF e _ i False l] True 2(6,7) by auto
    qed
  qed
qed simp

lemma list_aliases_sound:
  assumes "list_aliases scope found models = Inr models'" and "ids_ok scope models"
    and "length models \<le> MAX_PUBLIC_MODEL_RECORDS"
  shows "ids_ok scope models' \<and> length models' \<le> MAX_PUBLIC_MODEL_RECORDS \<and>
    (\<forall>m \<in> set models'. m \<in> set models \<or>
       (\<exists>model. (owned_by m, model) \<in> set found \<and> model_entry_id m = owned_by m @ ''/'' @ model))"
  using assms
proof (induction scope found models rule: list_aliases.induct)
  case (2 scope pre m rest models)
  let ?i = "pre @ ''/'' @ m"
  let ?skip = "\<not> scope_allows_model scope ?i \<or> ?i \<in> model_entry_id ` set models"
  let ?new = "\<lparr>model_entry_id = ?i, owned_by = pre\<rparr>"
  show ?case
  proof (cases ?skip)
    case True
    then have "list_aliases scope rest models = Inr models'" using 2(3) by (simp add: Let_def)
    from 2(1) [OF refl True this 2(4,5)] show ?thesis by auto
  next
    case False
    then have n: "length models \<noteq> MAX_PUBLIC_MODEL_RECORDS" and
      l: "list_aliases scope rest (models @ [?new]) = Inr models'"
      using 2(3) by (auto simp: Let_def split: if_splits)
    have "ids_ok scope (models @ [?new])" using False 2(4) by (intro ids_ok_snoc) auto
    from 2(2) [OF refl False n l this] n 2(5) show ?thesis by auto
  qed
qed simp

lemma enabled_prefixes_sound:
  assumes "enabled_prefixes rs m = Inr m'" and "set rs \<subseteq> set all"
    and "\<forall>i. hm_get m i \<noteq> None \<longrightarrow> enabled_row all i"
  shows "\<forall>i. hm_get m' i \<noteq> None \<longrightarrow> enabled_row all i"
  using assms
proof (induction rs m rule: enabled_prefixes.induct)
  case (2 k provider rest m)
  obtain enabled where e: "rec_boolean provider ''enabled'' = Inr enabled"
    using 2(3) by (auto simp: rbind_eq_Inr)
  show ?case
  proof (cases enabled)
    case False
    then have "enabled_prefixes rest m = Inr m'" using 2(3) e by simp
    from 2(1) [OF e False this] 2(4,5) show ?thesis by auto
  next
    case True
    then obtain i pre where i: "rec_text provider ''id'' = Inr i" "optional_text provider ''model_prefix'' = Inr pre"
      using 2(3) e by (auto simp: rbind_eq_Inr)
    let ?m = "hm_insert i (case pre of
                Some v \<Rightarrow> if trim v = [] then to_ascii_lowercase i else to_ascii_lowercase (trim v)
              | None \<Rightarrow> to_ascii_lowercase i) m"
    have l: "enabled_prefixes rest ?m = Inr m'" using 2(3) e True i by simp
    have "enabled_row all i" using 2(4) e True i(1) by (auto simp: enabled_row_def)
    then have "\<forall>j. hm_get ?m j \<noteq> None \<longrightarrow> enabled_row all j"
      using 2(5) by (auto simp: hm.get_insert)
    with 2(2) [OF e _ i l] True 2(4) show ?thesis by simp
  qed
qed simp

lemma provider_aliases_sound:
  assumes "provider_aliases scope prefixes rs = Inr found" and "(pre, m) \<in> set found"
  shows "\<exists>p. hm_get prefixes p = Some pre \<and> scope_allows_provider scope p"
  using assms
  by (induction scope prefixes rs arbitrary: found rule: provider_aliases.induct)
    (fastforce simp: rbind_eq_Inr split: option.splits if_splits)+


section \<open>A concrete gateway\<close>

definition intake_records :: "bytes \<Rightarrow> Record" where
  "intake_records bs =
     (if bs = [0] then [(''enabled'', Bool True), (''token_hash'', Bytes [0])]
      else if bs = [1] then [(''id'', Text ''p''), (''enabled'', Bool True)]
      else if bs = [2] then [(''id'', Text ''fast''), (''enabled'', Bool True)]
      else [(''provider_id'', Text ''p''), (''model'', Text ''m'')])"

definition intake_db :: "contents key_db" where
  "intake_db =
     \<lparr>kd_heed = mem_heed,
      kd_ids = \<lparr>serialize = (\<lambda>i. Inr (map of_char i)), deserialize = (\<lambda>bs. Inr (map char_of bs))\<rparr>,
      kd_records = \<lparr>serialize = (\<lambda>r. Inl []), deserialize = (\<lambda>bs. Inr (intake_records bs))\<rparr>,
      kd_zstd = stored_zstd, kd_dictionary = None, kd_sha = (\<lambda>_. [0]),
      kd_snapshot = (\<lambda>t. if t = ApiKeyTokenIndex then [(''token/00'', [107])]
        else if t = ApiKeys then [(''k'', [0])] else if t = Providers then [(''p'', [1])]
        else if t = Routes then [(''fast'', [2])] else if t = ProviderModels then [(''x'', [3])] else []),
      kd_now = 0\<rparr>"

definition no_json :: json_strings where
  "no_json = \<lparr>to_json = (\<lambda>_. Inl []), from_json = (\<lambda>_. Inl [])\<rparr>"

definition empty_key :: Entry where
  "empty_key = \<lparr>quota = TokenBucketQuota 0 5, last_seen = 5\<rparr>"

definition key_limiter :: "bool \<Rightarrow> RateLimiter" where
  "key_limiter used =
     \<lparr>config = RateLimiterConfig_new (key_policy settings_default) 2,
      state = \<lparr>entries = (if used then [(''k'', empty_key)] else []), prune_queue = (if used then [''k''] else []),
               next_prune_at = 1000, policy = key_policy settings_default\<rparr>\<rparr>"

definition intake_state :: "bool \<Rightarrow> contents intake" where
  "intake_state used =
     \<lparr>admin_password_change_required = False, trust_proxy_headers = False, in_db = intake_db,
      api_key_last_used = example_limiter (FixedWindow 1 60), gateway_key_limiter = key_limiter used,
      gateway_auth_failure_limiter = example_limiter (FixedWindow 1 60),
      gateway_in_flight = \<lparr>active = 2, limit = 64\<rparr>, gateway_body_processing = \<lparr>active = 0, limit = 4\<rparr>,
      settings_now = settings_default, resource_limits_now = limits_default, request_count = 0\<rparr>"

abbreviation intake_client :: AuthenticatedClient where
  "intake_client \<equiv> \<lparr>client_key_id = ''k'', client_scope = \<lparr>allowed_provider_ids = [], allowed_models = []\<rparr>\<rparr>"

abbreviation intake_headers :: header_map where
  "intake_headers \<equiv> [(''authorization'', ''Bearer secret'')]"

lemma intake_token: "presented_token intake_headers = Some ''secret''" "presented_token [] = None"
  by code_simp+

lemma intake_lookup: "lookup_token intake_db no_json ''secret'' =
    Inr (Some (''k'', \<lparr>allowed_provider_ids = [], allowed_models = []\<rparr>))"
  by code_simp

lemma intake_authenticated:
  "\<exists>l' db'. authenticate_client no_json intake_headers 5 (Some 1000) (example_limiter (FixedWindow 1 60)) intake_db =
     Some (Inr intake_client, l', db')"
proof -
  obtain l' d where "check_at (example_limiter (FixedWindow 1 60)) ''k'' 5 = Some (l', d)" "allowed d"
    by (rule sample_check)
  moreover have "str_len ''secret'' \<le> 4096" by code_simp
  ultimately show ?thesis
    by (simp add: authenticate_client_def intake_token intake_lookup utc_timestamp_now_def del: str_len_simps)
qed

lemmas limiter_eval =
  check_at_with_policy_def check_at_def check_at_internal_def key_limiter_def empty_key_def prune_state_def RateLimiterConfig_new_def
  consume_quota_def apply_policy_def initial_quota_def refill_bucket_def hm_get_def hm_insert_def MAX_KEY_BYTES_def
  char_utf8_len_def time_simps str_len_def allowed_decision_def key_policy_def settings_default_def from_millis_def

lemma intake_forwarded:
  "\<exists>ctx st'. admit_client id 5 True intake_client ((intake_state False)\<lparr>api_key_last_used := l, in_db := db\<rparr>) =
     Some (Forwarded ctx, st')"
  by (simp add: admit_client_def intake_state_def limiter_eval try_acquire_owned_def acquire_body_slot_def checked_add_def Let_def)

lemma intake_refused_delay:
  "admit_client id 7 True intake_client (intake_state True) =
     Some (Refused (rate_limited_response (Some 999998)),
       (intake_state True)\<lparr>gateway_key_limiter := (key_limiter True)\<lparr>state := (state (key_limiter True))\<lparr>entries :=
          [(''k'', \<lparr>quota = TokenBucketQuota 0 5, last_seen = 7\<rparr>)]\<rparr>\<rparr>\<rparr>)"
  by (simp add: admit_client_def intake_state_def limiter_eval rejected_def Let_def)

lemma key_limiter_ok: "limiter_ok (key_limiter True)"
  by (simp add: limiter_ok_def key_limiter_def state_ok_def hm_ok_def queue_ok_def hm_get_def RateLimiterConfig_new_def
      key_policy_def settings_default_def from_millis_def)

theorem admitted_requests_authenticated_witness:
  "\<exists>ctx st'. require_api_key no_json id intake_headers ''peer'' True 5 (Some 1000) (intake_state False) =
       Some (Forwarded ctx, st') \<and>
     key_of_token no_json intake_db intake_headers (ctx_api_key_id ctx) (ctx_api_key_scope ctx) \<and>
     active (gateway_in_flight st') = 3"
proof -
  obtain l' db' where a: "authenticate_client no_json intake_headers 5 (Some 1000) (example_limiter (FixedWindow 1 60)) intake_db =
     Some (Inr intake_client, l', db')" using intake_authenticated by blast
  obtain ctx st' where f: "admit_client id 5 True intake_client
      ((intake_state False)\<lparr>api_key_last_used := l', in_db := db'\<rparr>) = Some (Forwarded ctx, st')"
    using intake_forwarded by blast
  have "require_api_key no_json id intake_headers ''peer'' True 5 (Some 1000) (intake_state False) =
       Some (Forwarded ctx, st')"
    using a f by (simp add: require_api_key_def intake_state_def)
  from this admitted_requests_authenticated [OF this] show ?thesis
    by (intro exI [of _ ctx] exI [of _ st']) (simp add: intake_state_def)
qed

theorem refused_requests_hold_nothing_witness:
  "\<exists>r st'. require_api_key no_json id [] ''peer'' True 5 (Some 1000) (intake_state False) = Some (Refused r, st') \<and>
     gateway_in_flight st' = \<lparr>active = 2, limit = 64\<rparr> \<and>
     gr_status r \<in> {UNAUTHORIZED, TOO_MANY_REQUESTS, INTERNAL_SERVER_ERROR, SERVICE_UNAVAILABLE}"
proof -
  obtain l d where "check_at (example_limiter (FixedWindow 1 60)) ''peer'' 5 = Some (l, d)"
    using check_preserves_limiter [OF example_limiter_ok, of "FixedWindow 1 60" None "''peer''" 5]
    by (auto simp: check_at_def)
  then obtain r st' where r: "require_api_key no_json id [] ''peer'' True 5 (Some 1000) (intake_state False) = Some (Refused r, st')"
    by (simp add: require_api_key_def authenticate_client_def intake_token intake_state_def gateway_error_def Let_def)
  from this refused_requests_hold_nothing [OF this] show ?thesis
    by (intro exI [of _ r] exI [of _ st']) (simp add: intake_state_def)
qed

theorem announced_delay_suffices_witness:
  "\<exists>seconds l d. gr_retry_after (rate_limited_response (Some 999998)) = Some (show_nat seconds) \<and>
     check_at_with_policy ((key_limiter True)\<lparr>state := (state (key_limiter True))\<lparr>entries :=
          [(''k'', \<lparr>quota = TokenBucketQuota 0 5, last_seen = 7\<rparr>)]\<rparr>\<rparr>) ''k'' (7 + from_secs seconds)
       (key_policy settings_default) = Some (l, d) \<and> allowed d"
proof -
  have "\<exists>seconds. show_nat (retry_after_seconds 999998) = show_nat seconds \<and> 1 \<le> seconds \<and>
    (\<forall>later \<ge> 7 + from_secs seconds. \<exists>l d.
       check_at_with_policy ((key_limiter True)\<lparr>state := (state (key_limiter True))\<lparr>entries :=
          [(''k'', \<lparr>quota = TokenBucketQuota 0 5, last_seen = 7\<rparr>)]\<rparr>\<rparr>) ''k'' later (key_policy settings_default) =
         Some (l, d) \<and> allowed d)"
    using announced_delay_suffices [OF intake_refused_delay, of "show_nat (retry_after_seconds 999998)"]
      settings_default_valid key_limiter_ok
    by (simp add: rate_limited_response_def gateway_error_def intake_state_def)
      (simp add: key_limiter_def hm_get_def empty_key_def key_policy_def settings_default_def)
  then show ?thesis by (auto simp: rate_limited_response_def)
qed

lemma intake_scans:
  "scan_all intake_db Routes = Inr [(''fast'', intake_records [2])]"
  "scan_all intake_db Providers = Inr [(''p'', intake_records [1])]"
  "scan_all intake_db ProviderModels = Inr [(''x'', intake_records [3])]"
  by (simp_all add: scan_all_def scan_prefix_def scan_prefix_after_def intake_db_def mem_heed_def database_def
      validate_prefix_def MAX_PUBLIC_MODEL_RECORDS_def starts_with_def decode_stored_record_def str_bytes_def)

lemma intake_models:
  "list_models intake_db None = Inr [\<lparr>model_entry_id = ''fast'', owned_by = ''exoroute''\<rparr>, \<lparr>model_entry_id = ''p/m'', owned_by = ''p''\<rparr>]"
  by (simp add: list_models_def intake_scans scoped_route_ids_def intake_records_def field_defs scope_allows_model_def
      scope_allows_provider_def hm_get_def hm_insert_def to_ascii_lowercase_def MAX_PUBLIC_MODEL_RECORDS_def Let_def)


end
