(* ===== verification/ErrorSanitizer.thy ===== *)
theory ErrorSanitizer
  imports Json
begin

text \<open>
  Redaction of provider errors (\<^verbatim>\<open>src/gateway/error_sanitizer.rs\<close>): what of a provider's error body reaches the
  request log and the client.
\<close>

section \<open>Definitions\<close>

definition MAX_PROVIDER_DIAGNOSTIC_CHARS :: nat where "MAX_PROVIDER_DIAGNOSTIC_CHARS = 300"

definition sensitive_fields :: "string list" where
  "sensitive_fields =
     [''apikey'', ''authorization'', ''token'', ''accesstoken'', ''refreshtoken'', ''password'', ''secret'',
      ''clientsecret'', ''credential'', ''credentials'', ''cookie'', ''cookies'', ''setcookie'', ''prompt'', ''input'',
      ''inputs'', ''messages'', ''content'', ''contents'', ''request'', ''requestbody'', ''body'', ''headers'']"

definition normalized_field :: "string \<Rightarrow> string" where
  "normalized_field field = to_ascii_lowercase (filter is_ascii_alphanumeric field)"

definition provider_error_field_is_sensitive :: "string \<Rightarrow> bool" where
  "provider_error_field_is_sensitive field = (normalized_field field \<in> set sensitive_fields)"

lemmas sensitive_simps =
  provider_error_field_is_sensitive_def normalized_field_def sensitive_fields_def to_ascii_lowercase_def
  is_ascii_alphanumeric_def is_ascii_digit_def

definition redacted_mark :: string where "redacted_mark = ''[redacted]''"

text \<open>One word of a text: what is written for it and how many of the following words are dropped.\<close>

definition redact_word :: "string \<Rightarrow> string \<times> nat" where
  "redact_word word =
     (case (case split_once (CHR ''='') word of Some kv \<Rightarrow> Some kv | None \<Rightarrow> split_once (CHR '':'') word) of
        Some (key, rest) \<Rightarrow>
          if provider_error_field_is_sensitive key then
            (key @ ''='' @ redacted_mark,
             if rest = [] then (if eq_ignore_ascii_case key ''authorization'' then 2 else 1) else 0)
          else if eq_ignore_ascii_case word ''bearer'' \<or> eq_ignore_ascii_case word ''basic'' then (redacted_mark, 1)
          else (word, 0)
      | None \<Rightarrow>
          if eq_ignore_ascii_case word ''bearer'' \<or> eq_ignore_ascii_case word ''basic'' then (redacted_mark, 1)
          else (word, 0))"

fun redact_words :: "nat \<Rightarrow> string list \<Rightarrow> string list" where
  "redact_words n [] = []"
| "redact_words (Suc n) (w # ws) = redacted_mark # redact_words n ws"
| "redact_words 0 (w # ws) = fst (redact_word w) # redact_words (snd (redact_word w)) ws"

definition redact_provider_error_text :: "string \<Rightarrow> string" where
  "redact_provider_error_text t = join_with '' '' (redact_words 0 (split_whitespace t))"

fun redact_provider_error_value :: "json \<Rightarrow> json" where
  "redact_provider_error_value (JObject fs) =
     JObject (map (\<lambda>kv. (fst kv,
       if provider_error_field_is_sensitive (fst kv) then JString redacted_mark
       else redact_provider_error_value (snd kv))) fs)"
| "redact_provider_error_value (JArray values) = JArray (map redact_provider_error_value values)"
| "redact_provider_error_value (JString t) = JString (redact_provider_error_text t)"
| "redact_provider_error_value v = v"

text \<open>\<open>from_utf8\<close> is the argument \<open>utf8\<close>; serialising a value does not fail.\<close>

definition sanitize_provider_error_body ::
  "json_text \<Rightarrow> (nat list \<Rightarrow> string option) \<Rightarrow> nat list \<Rightarrow> string" where
  "sanitize_provider_error_body jt utf8 body =
     (if body = [] then []
      else
        case json_from_slice jt body of
          Some v \<Rightarrow> json_to_string jt (redact_provider_error_value v)
        | None \<Rightarrow>
            (case utf8 body of
               Some t \<Rightarrow> redact_provider_error_text t
             | None \<Rightarrow> ''provider returned a non-text error body ('' @ show_nat (length body) @ '' bytes)''))"

definition provider_http_error_message :: "string \<Rightarrow> status \<Rightarrow> string \<Rightarrow> string" where
  "provider_http_error_message provider_id st detail =
     (if trim detail = [] then ''provider '' @ quoted provider_id @ '' returned HTTP '' @ show_nat st
      else ''provider '' @ quoted provider_id @ '' returned HTTP '' @ show_nat st @ '': '' @ trim detail)"

fun provider_diagnostic_text :: "json option \<Rightarrow> string option" where
  "provider_diagnostic_text (Some (JString t)) = Some t"
| "provider_diagnostic_text (Some (JObject fs)) = Option.bind (map_of fs ''message'') as_str"
| "provider_diagnostic_text _ = None"

fun find_map :: "('a \<Rightarrow> 'b option) \<Rightarrow> 'a list \<Rightarrow> 'b option" where
  "find_map f [] = None"
| "find_map f (x # xs) = (case f x of Some y \<Rightarrow> Some y | None \<Rightarrow> find_map f xs)"

definition provider_response_diagnostic :: "json \<Rightarrow> string option" where
  "provider_response_diagnostic body =
     Option.bind (find_map (\<lambda>field. provider_diagnostic_text (json_get body field))
                    [''error'', ''detail'', ''message'', ''error_description'']) (\<lambda>raw.
       let t = trim (redact_provider_error_text raw) in
       if t = [] then None
       else Some (take MAX_PROVIDER_DIAGNOSTIC_CHARS t @
                  (if MAX_PROVIDER_DIAGNOSTIC_CHARS < length t then ''...'' else [])))"

definition provider_failure_message :: "string \<Rightarrow> json \<Rightarrow> string" where
  "provider_failure_message summary body =
     (case provider_response_diagnostic body of
        Some detail \<Rightarrow> summary @ '' (provider said: '' @ detail @ '')''
      | None \<Rightarrow> summary)"

definition provider_decode_failure_message :: "string \<Rightarrow> json \<Rightarrow> string" where
  "provider_decode_failure_message decode_error body =
     provider_failure_message (''could not decode provider response: '' @ decode_error) body"

section \<open>What redaction hides\<close>

text \<open>
  A word that assigns a secret: a sensitive key, a separator and a value. After a colon the value has no equals
  sign, which the code would take for the separator.
\<close>

definition is_separator :: "char \<Rightarrow> bool" where
  "is_separator c = (c = CHR ''='' \<or> c = CHR '':'')"

definition secret_key :: "string \<Rightarrow> string option" where
  "secret_key w =
     (let key = takeWhile (\<lambda>c. \<not> is_separator c) w in
      case dropWhile (\<lambda>c. \<not> is_separator c) w of
        [] \<Rightarrow> None
      | sep # v \<Rightarrow>
          if provider_error_field_is_sensitive key \<and> v \<noteq> [] \<and> (sep = CHR ''='' \<or> CHR ''='' \<notin> set v) then Some key
          else None)"

definition same_word :: "string \<Rightarrow> string \<Rightarrow> bool" where
  "same_word w w' = (w = w' \<or> secret_key w \<noteq> None \<and> secret_key w = secret_key w')"

definition same_text :: "string \<Rightarrow> string \<Rightarrow> bool" where
  "same_text s t = list_all2 same_word (split_whitespace s) (split_whitespace t)"

text \<open>Two values that differ at most below sensitive fields and in the secrets of their texts.\<close>

fun same_public :: "json \<Rightarrow> json \<Rightarrow> bool" where
  "same_public (JObject fs) (JObject gs) =
     list_all2 (\<lambda>kv kv'. fst kv = fst kv' \<and>
       (provider_error_field_is_sensitive (fst kv) \<or> same_public (snd kv) (snd kv'))) fs gs"
| "same_public (JArray vs) (JArray ws) = list_all2 same_public vs ws"
| "same_public (JString s) (JString t) = same_text s t"
| "same_public v w = (v = w)"

text \<open>At every depth a sensitive field holds the mark only.\<close>

fun redacted :: "json \<Rightarrow> bool" where
  "redacted (JObject fs) =
     list_all (\<lambda>kv. if provider_error_field_is_sensitive (fst kv) then snd kv = JString redacted_mark
                    else redacted (snd kv)) fs"
| "redacted (JArray vs) = list_all redacted vs"
| "redacted v = True"

lemma secret_key_Some:
  assumes "secret_key w = Some key"
  obtains sep v where "w = key @ sep # v" "is_separator sep" "\<forall>c \<in> set key. \<not> is_separator c" "v \<noteq> []"
    "provider_error_field_is_sensitive key" "sep = CHR ''='' \<or> CHR ''='' \<notin> set v"
proof -
  let ?k = "takeWhile (\<lambda>c. \<not> is_separator c) w"
  obtain sep v where d: "dropWhile (\<lambda>c. \<not> is_separator c) w = sep # v"
    using assms by (cases "dropWhile (\<lambda>c. \<not> is_separator c) w") (auto simp: secret_key_def)
  have sep: "is_separator sep" using d by (simp add: dropWhile_eq_Cons_conv)
  have w: "w = ?k @ sep # v" using d by (metis takeWhile_dropWhile_id)
  have k: "\<forall>c \<in> set ?k. \<not> is_separator c" by (auto dest: set_takeWhileD)
  have s: "key = ?k \<and> provider_error_field_is_sensitive ?k \<and> v \<noteq> [] \<and> (sep = CHR ''='' \<or> CHR ''='' \<notin> set v)"
    using assms by (auto simp: secret_key_def Let_def d split: if_splits)
  show thesis using that [of sep v] sep w k s by metis
qed

lemma split_once_None: "c \<notin> set s \<Longrightarrow> split_once c s = None"
  by (induction s) auto

lemma redact_secret:
  assumes "secret_key w = Some key"
  shows "redact_word w = (key @ ''='' @ redacted_mark, 0)"
  using assms
proof (rule secret_key_Some)
  fix sep v
  assume w: "w = key @ sep # v" "is_separator sep" "\<forall>c \<in> set key. \<not> is_separator c" "v \<noteq> []"
    "provider_error_field_is_sensitive key" "sep = CHR ''='' \<or> CHR ''='' \<notin> set v"
  have k: "CHR ''='' \<notin> set key" "CHR '':'' \<notin> set key" using w(3) by (auto simp: is_separator_def)
  show ?thesis
  proof (cases "sep = CHR ''=''")
    case True
    with w k show ?thesis by (simp add: redact_word_def)
  next
    case False
    with w(2,6) k have "sep = CHR '':''" "split_once (CHR ''='') w = None"
      by (auto simp: is_separator_def w(1) intro!: split_once_None)
    with w k show ?thesis by (simp add: redact_word_def)
  qed
qed

lemma redact_same_word: "same_word w w' \<Longrightarrow> redact_word w = redact_word w'"
  unfolding same_word_def by (metis not_None_eq redact_secret)

lemma redact_same_words: "list_all2 same_word ws ws' \<Longrightarrow> redact_words n ws = redact_words n ws'"
proof (induction n ws arbitrary: ws' rule: redact_words.induct)
  case (2 n w ws)
  then show ?case by (cases ws') auto
next
  case (3 w ws)
  then show ?case by (cases ws') (auto dest: redact_same_word)
qed simp

lemma redact_same_text: "same_text s t \<Longrightarrow> redact_provider_error_text s = redact_provider_error_text t"
  using redact_same_words unfolding same_text_def redact_provider_error_text_def by metis

lemma redact_redacted: "redacted (redact_provider_error_value v)"
  by (induction v rule: redact_provider_error_value.induct) (auto simp: list_all_iff)

lemma redact_same_public: "same_public v w \<Longrightarrow> redact_provider_error_value v = redact_provider_error_value w"
proof (induction v w rule: same_public.induct)
  case (1 fs gs)
  have "redact_provider_error_value (snd (fs ! i)) = redact_provider_error_value (snd (gs ! i))"
    if "i < length gs" "\<not> provider_error_field_is_sensitive (fst (gs ! i))" for i
  proof (rule 1(1))
    show "fs ! i \<in> set fs" "gs ! i \<in> set gs" using 1(2) that by (auto simp: list_all2_conv_all_nth)
    show "same_public (snd (fs ! i)) (snd (gs ! i))" using 1(2) that by (auto simp: list_all2_conv_all_nth)
  qed
  with 1(2) show ?case by (auto simp: list_all2_conv_all_nth intro!: nth_equalityI)
next
  case (2 vs ws)
  then show ?case by (auto simp: list_all2_conv_all_nth intro!: nth_equalityI)
qed (auto dest: redact_same_text)



section \<open>What redaction keeps\<close>

fun json_type :: "json \<Rightarrow> string" where
  "json_type JNull = ''null''"
| "json_type (JBool b) = ''boolean''"
| "json_type (JNumber n) = ''number''"
| "json_type (JString s) = ''string''"
| "json_type (JArray vs) = ''array''"
| "json_type (JObject m) = ''object''"

fun same_type :: "json \<Rightarrow> json \<Rightarrow> bool" where
  "same_type (JObject fs) (JObject gs) =
     list_all2 (\<lambda>kv kv'. fst kv = fst kv' \<and>
       (provider_error_field_is_sensitive (fst kv) \<or> same_type (snd kv) (snd kv'))) fs gs"
| "same_type (JArray vs) (JArray ws) = list_all2 same_type vs ws"
| "same_type v w = (json_type v = json_type w)"

lemma redact_same_type: "same_type v (redact_provider_error_value v)"
  by (induction v rule: redact_provider_error_value.induct)
    (auto simp: list_all2_conv_all_nth)

lemma redact_ok: "json_ok v \<Longrightarrow> json_ok (redact_provider_error_value v)"
  by (induction v rule: redact_provider_error_value.induct)
    (auto simp: list_all_iff sorted_map_def comp_def)



section \<open>What redaction misses\<close>

lemma normalized_append: "normalized_field (s @ t) = normalized_field s @ normalized_field t"
  by (simp add: normalized_field_def to_ascii_lowercase_def)

lemma token_prefix_not_sensitive: "normalized_field v \<noteq> [] \<Longrightarrow> \<not> provider_error_field_is_sensitive (''token:'' @ v)"
  by (simp add: provider_error_field_is_sensitive_def normalized_append)
    (simp add: sensitive_simps)

text \<open>A secret that ends in the padding of base64 is not hidden after a colon: the equals sign of the padding is
  taken for the separator, the key then is not recognised and the word with its secret is passed on unchanged.\<close>

lemma padded_secret_shown:
  assumes "word_ok v" and "CHR ''='' \<notin> set v" and "\<exists>c \<in> set v. is_ascii_alphanumeric c"
  shows "redact_provider_error_text (''token:'' @ v @ ''='') = ''token:'' @ v @ ''='' \<and>
    provider_error_field_is_sensitive ''token''"
proof -
  have w: "word_ok (''token:'' @ v @ ''='')" using assms(1) by (simp add: word_ok_def is_whitespace_def)
  have "normalized_field v \<noteq> []"
    using assms(3) by (auto simp: normalized_field_def to_ascii_lowercase_def filter_empty_conv)
  then have "\<not> provider_error_field_is_sensitive (''token:'' @ v)" by (rule token_prefix_not_sensitive)
  moreover have "split_once (CHR ''='') (''token:'' @ v @ ''='') = Some (''token:'' @ v, [])"
    using assms(2) split_once_append [of "CHR ''=''" "''token:'' @ v" "[]"] by simp
  moreover have "\<not> eq_ignore_ascii_case (''token:'' @ v @ ''='') ''bearer''"
    "\<not> eq_ignore_ascii_case (''token:'' @ v @ ''='') ''basic''"
    by (simp_all add: eq_ignore_ascii_case_def to_ascii_lowercase_def)
  ultimately have "redact_word (''token:'' @ v @ ''='') = (''token:'' @ v @ ''='', 0)"
    by (simp only: redact_word_def option.case prod.case if_False HOL.simp_thms)
  then show ?thesis
    using split_whitespace_word [OF w, of "[]"]
    by (simp add: redact_provider_error_text_def sensitive_simps)
qed

text \<open>A quoted key is sensitive but not recognised as \<open>authorization\<close>, so only the scheme after it is dropped.\<close>

lemma quoted_authorization_shown:
  assumes "word_ok v" and "\<forall>c \<in> set v. \<not> is_separator c" and "length v > 6"
  shows "redact_words 0 [CHR 0x22 # ''authorization'' @ [CHR 0x22, CHR '':''], CHR 0x22 # ''Bearer'', v] =
    [CHR 0x22 # ''authorization'' @ [CHR 0x22] @ ''='' @ redacted_mark, redacted_mark, v]"
proof -
  have "CHR ''='' \<notin> set v" "CHR '':'' \<notin> set v" using assms(2) by (auto simp: is_separator_def)
  moreover have "length (to_ascii_lowercase v) > 6" using assms(3) by (simp add: to_ascii_lowercase_def)
  then have "to_ascii_lowercase v \<noteq> to_ascii_lowercase ''bearer''" "to_ascii_lowercase v \<noteq> to_ascii_lowercase ''basic''"
    by (auto simp: to_ascii_lowercase_def)
  ultimately have "redact_word v = (v, 0)"
    by (simp add: redact_word_def split_once_None eq_ignore_ascii_case_def)
  moreover have "redact_word (CHR 0x22 # ''authorization'' @ [CHR 0x22, CHR '':'']) =
      (CHR 0x22 # ''authorization'' @ [CHR 0x22] @ ''='' @ redacted_mark, 1)"
    by (simp add: redact_word_def sensitive_simps eq_ignore_ascii_case_def)
  ultimately show ?thesis by (simp add: redact_word_def)
qed

lemma diagnostic_bounded:
  "provider_response_diagnostic body = Some t \<Longrightarrow> t \<noteq> [] \<and> length t \<le> MAX_PROVIDER_DIAGNOSTIC_CHARS + 3"
  by (auto simp: provider_response_diagnostic_def Let_def bind_eq_Some_conv split: if_splits)

end
