(* ===== verification/ProviderRecords.thy ===== *)
theory ProviderRecords
  imports Egress KeyCursor Protocol Json
begin

text \<open>
  What a provider record stores: sealed secrets (\<^verbatim>\<open>src/security/credential_secrets.rs\<close>), custom headers
  (\<^verbatim>\<open>src/admin/providers/custom_headers.rs\<close>), the key strategy and the local request target
  (\<^verbatim>\<open>src/admin/providers/validation.rs\<close>). The cipher, UTF-8 decoding and the JSON text of a header map are
  parameters.
\<close>

section \<open>Secrets\<close>

type_synonym master_key = "nat list option"

text \<open>ChaCha20-Poly1305 under a key and a nonce: \<open>seal\<close> and \<open>unseal\<close> fail with \<open>None\<close>.\<close>

record aead =
  seal :: "nat list \<Rightarrow> bytes \<Rightarrow> bytes \<Rightarrow> bytes option"
  unseal :: "nat list \<Rightarrow> bytes \<Rightarrow> bytes \<Rightarrow> bytes option"

definition encrypt_secret :: "aead \<Rightarrow> bytes \<Rightarrow> master_key \<Rightarrow> string \<Rightarrow> string + bytes option" where
  "encrypt_secret a nonce master_key v =
     (if v = [] then Inr None
      else
        rbind (ok_or ''set EXOROUTE_MASTER_KEY before saving provider credentials'' master_key) (\<lambda>key.
        rbind (ok_or ''could not encrypt provider credential'' (seal a key nonce (str_bytes v))) (\<lambda>ciphertext.
          Inr (Some (nonce @ ciphertext)))))"

definition decrypt_secret :: "aead \<Rightarrow> (bytes \<Rightarrow> string option) \<Rightarrow> master_key \<Rightarrow> bytes option \<Rightarrow> string + string option" where
  "decrypt_secret a utf8 master_key stored =
     (case stored of
        None \<Rightarrow> Inr None
      | Some bs \<Rightarrow>
          if length bs < 13 then Inl ''stored provider credential is invalid''
          else
            rbind (ok_or ''set EXOROUTE_MASTER_KEY to use saved provider credentials'' master_key) (\<lambda>key.
            rbind (ok_or ''could not decrypt provider credential; check EXOROUTE_MASTER_KEY''
                     (unseal a key (take 12 bs) (drop 12 bs))) (\<lambda>plaintext.
            rbind (ok_or ''stored provider credential is not valid UTF-8'' (utf8 plaintext)) (\<lambda>s.
              Inr (Some s)))))"

section \<open>Custom headers\<close>

definition MAX_PROVIDER_CUSTOM_HEADER_NAME_BYTES :: nat where "MAX_PROVIDER_CUSTOM_HEADER_NAME_BYTES = 128"
definition MAX_PROVIDER_CUSTOM_HEADER_VALUE_BYTES :: nat where "MAX_PROVIDER_CUSTOM_HEADER_VALUE_BYTES = 4096"
definition MAX_PROVIDER_CUSTOM_HEADERS_BYTES :: nat where "MAX_PROVIDER_CUSTOM_HEADERS_BYTES = 256 * 1024"

record ProviderCustomHeaderInput =
  input_name :: string
  input_value :: "string option"

type_synonym header_entries = "(string \<times> string) list"

record headers_json =
  headers_to_string :: "header_entries \<Rightarrow> string option"
  headers_from_str :: "string \<Rightarrow> header_entries option"

definition header_value_valid :: "string \<Rightarrow> bool" where
  "header_value_valid v = (str_len v \<le> MAX_PROVIDER_CUSTOM_HEADER_VALUE_BYTES \<and> list_all is_visible_ascii v)"

fun validate_entries_from ::
  "(string \<Rightarrow> string option) \<Rightarrow> string list \<Rightarrow> ProviderCustomHeaderInput list \<Rightarrow> string + unit" where
  "validate_entries_from header_name names [] = Inr ()"
| "validate_entries_from header_name names (h # rest) =
     (let name = trim (input_name h) in
      if name = [] \<or> MAX_PROVIDER_CUSTOM_HEADER_NAME_BYTES < str_len name
      then Inl ''custom header names must contain between 1 and 128 bytes''
      else
        rbind (map_err (\<lambda>_. ''custom header name is invalid or reserved'') (provider_custom_header_name header_name name))
          (\<lambda>canonical.
            if canonical \<in> set names then Inl ''custom header names cannot be duplicated''
            else if (case input_value h of Some v \<Rightarrow> \<not> header_value_valid v | None \<Rightarrow> False)
            then Inl ''custom header values must contain at most 4096 valid header bytes''
            else validate_entries_from header_name (canonical # names) rest))"

definition validate_custom_header_entries ::
  "(string \<Rightarrow> string option) \<Rightarrow> ProviderCustomHeaderInput list \<Rightarrow> string + unit" where
  "validate_custom_header_entries header_name hs = validate_entries_from header_name [] hs"

fun collect_headers ::
  "(string \<Rightarrow> string option) \<Rightarrow> header_entries \<Rightarrow> header_entries \<Rightarrow> ProviderCustomHeaderInput list \<Rightarrow> string + header_entries" where
  "collect_headers header_name existing normalized [] = Inr normalized"
| "collect_headers header_name existing normalized (h # rest) =
     rbind (map_err (\<lambda>_. ''custom header name is invalid or reserved'')
              (provider_custom_header_name header_name (trim (input_name h)))) (\<lambda>name.
     rbind (case input_value h of
              Some v \<Rightarrow> Inr v
            | None \<Rightarrow> ok_or ''a new custom header must include a value'' (map_of existing name)) (\<lambda>v.
       collect_headers header_name existing (map_insert name v normalized) rest))"

definition normalize_custom_headers ::
  "headers_json \<Rightarrow> (string \<Rightarrow> string option) \<Rightarrow> ProviderCustomHeaderInput list \<Rightarrow> header_entries \<Rightarrow> string + header_entries" where
  "normalize_custom_headers hj header_name hs existing =
     rbind (validate_custom_header_entries header_name hs) (\<lambda>_.
     rbind (collect_headers header_name existing [] hs) (\<lambda>normalized.
     rbind (ok_or ''custom headers could not be serialized'' (headers_to_string hj normalized)) (\<lambda>serialized.
       if MAX_PROVIDER_CUSTOM_HEADERS_BYTES < str_len serialized
       then Inl ''custom headers exceed the 256 KiB total limit'' else Inr normalized)))"

definition encrypt_custom_headers ::
  "headers_json \<Rightarrow> aead \<Rightarrow> bytes \<Rightarrow> header_entries \<Rightarrow> master_key \<Rightarrow> string + bytes option" where
  "encrypt_custom_headers hj a nonce headers master_key =
     (if headers = [] then Inr None
      else
        rbind (ok_or ''could not serialize provider custom headers'' (headers_to_string hj headers)) (\<lambda>serialized.
          encrypt_secret a nonce master_key serialized))"

fun StorageError_display :: "StorageError \<Rightarrow> string" where
  "StorageError_display Busy = ''storage is busy''"
| "StorageError_display MapFull = ''storage map is full''"
| "StorageError_display Conflict = ''conflicting concurrent write''"
| "StorageError_display NotFound = ''record not found''"
| "StorageError_display (Invalid m) = ''invalid record: '' @ m"
| "StorageError_display (Codec m) = ''record codec failure: '' @ m"
| "StorageError_display (Task m) = ''storage task failed: '' @ m"
| "StorageError_display (Backend m) = ''storage backend error: '' @ m"
| "StorageError_display (Io m) = ''storage I/O error: '' @ m"

definition stored_custom_headers ::
  "headers_json \<Rightarrow> (string \<Rightarrow> string option) \<Rightarrow> aead \<Rightarrow> (bytes \<Rightarrow> string option) \<Rightarrow> Record \<Rightarrow> master_key
     \<Rightarrow> string + header_entries" where
  "stored_custom_headers hj header_name a utf8 r master_key =
     rbind (map_err StorageError_display (optional_bytes r ''custom_headers'')) (\<lambda>stored.
       case stored of
         None \<Rightarrow> Inr []
       | Some bs \<Rightarrow>
           rbind (decrypt_secret a utf8 master_key (Some bs)) (\<lambda>s.
           rbind (ok_or ''stored provider custom headers are empty'' s) (\<lambda>serialized.
           rbind (ok_or ''stored provider custom headers are invalid'' (headers_from_str hj serialized)) (\<lambda>headers.
             normalize_custom_headers hj header_name
               (map (\<lambda>(n, v). \<lparr>input_name = n, input_value = Some v\<rparr>) headers) []))))"

definition custom_headers_for_input ::
  "headers_json \<Rightarrow> (string \<Rightarrow> string option) \<Rightarrow> ProviderCustomHeaderInput list option \<Rightarrow> header_entries
     \<Rightarrow> string + header_entries option" where
  "custom_headers_for_input hj header_name inp existing =
     transpose_result (map_option (\<lambda>hs. normalize_custom_headers hj header_name hs existing) inp)"

section \<open>Stored provider settings\<close>

definition DEFAULT_LOCAL_RPM_TARGET :: nat where "DEFAULT_LOCAL_RPM_TARGET = 40"
definition DEFAULT_KEY_STRATEGY :: string where "DEFAULT_KEY_STRATEGY = ''priority''"
definition KEY_STRATEGY_ROUND_ROBIN :: string where "KEY_STRATEGY_ROUND_ROBIN = ''round_robin''"

definition stored_local_rpm_target :: "(string \<Rightarrow> bool) \<Rightarrow> Record \<Rightarrow> string \<Rightarrow> StorageError + nat option" where
  "stored_local_rpm_target has_local_quota_tracking r aid =
     (if \<not> has_local_quota_tracking aid then Inr None
      else
        rbind (optional_integer r ''local_rpm_target'') (\<lambda>stored.
        rbind (case stored of
                 None \<Rightarrow> Inr DEFAULT_LOCAL_RPM_TARGET
               | Some n \<Rightarrow>
                   if 0 \<le> n \<and> n < 2 ^ 32 then Inr (nat n)
                   else Inl (Invalid ''stored local RPM target is invalid'')) (\<lambda>target.
          if target = 0 then Inl (Invalid ''stored local RPM target must be positive'') else Inr (Some target))))"

definition stored_thinking_settings :: "Record \<Rightarrow> StorageError + string \<times> string option" where
  "stored_thinking_settings r =
     rbind (optional_text r ''thinking_mode'') (\<lambda>m.
     let mode = (case m of Some s \<Rightarrow> s | None \<Rightarrow> DEFAULT_THINKING_MODE) in
     rbind (optional_text r ''thinking_override'') (\<lambda>override_text.
     rbind (map_err Invalid (parse_thinking_handling mode override_text)) (\<lambda>_.
       Inr (mode, override_text))))"

definition stored_key_strategy :: "Record \<Rightarrow> StorageError + string" where
  "stored_key_strategy r =
     rbind (optional_text r ''key_strategy'') (\<lambda>s.
     let strategy = (case s of Some v \<Rightarrow> v | None \<Rightarrow> DEFAULT_KEY_STRATEGY) in
     if strategy \<noteq> DEFAULT_KEY_STRATEGY \<and> strategy \<noteq> KEY_STRATEGY_ROUND_ROBIN
     then Inl (Invalid ''stored provider key strategy is invalid'') else Inr strategy)"

section \<open>Round trips\<close>

text \<open>What is assumed of the cipher, of header names and of the JSON text.\<close>

definition aead_ok :: "aead \<Rightarrow> bool" where
  "aead_ok a \<longleftrightarrow> (\<forall>key nonce m c. length nonce = 12 \<longrightarrow> seal a key nonce m = Some c \<longrightarrow>
     unseal a key nonce c = Some m \<and> c \<noteq> [])"

definition header_names_ok :: "(string \<Rightarrow> string option) \<Rightarrow> bool" where
  "header_names_ok header_name \<longleftrightarrow> (\<forall>n c. header_name n = Some c \<longrightarrow>
     header_name c = Some c \<and> c \<noteq> [] \<and> trim c = c \<and> str_len c = str_len n)"

definition headers_json_ok :: "headers_json \<Rightarrow> bool" where
  "headers_json_ok hj \<longleftrightarrow> (\<forall>m s. headers_to_string hj m = Some s \<longrightarrow> s \<noteq> [] \<and> headers_from_str hj s = Some m)"

lemma secret_roundtrip:
  assumes a: "aead_ok a" and u: "\<And>s. utf8 (str_bytes s) = Some s" and n: "length nonce = 12"
    and e: "encrypt_secret a nonce mk v = Inr stored"
  shows "decrypt_secret a utf8 mk stored = Inr (if v = [] then None else Some v)"
proof (cases "v = []")
  case True
  then show ?thesis using e by (auto simp: encrypt_secret_def decrypt_secret_def)
next
  case False
  then obtain key c where k: "mk = Some key" and c: "seal a key nonce (str_bytes v) = Some c"
    and s: "stored = Some (nonce @ c)"
    using e by (auto simp: encrypt_secret_def rbind_eq_Inr)
  have "unseal a key nonce c = Some (str_bytes v)" "c \<noteq> []"
    using a n c by (auto simp: aead_ok_def)
  then show ?thesis using n k s False u [of v] by (cases c) (auto simp: decrypt_secret_def)
qed

definition stored_name :: "(string \<Rightarrow> string option) \<Rightarrow> string \<Rightarrow> bool" where
  "stored_name header_name n \<longleftrightarrow> trim n = n \<and> n \<noteq> [] \<and> str_len n \<le> MAX_PROVIDER_CUSTOM_HEADER_NAME_BYTES \<and>
     provider_custom_header_name header_name n = Inr n"

definition stored_headers_ok :: "(string \<Rightarrow> string option) \<Rightarrow> header_entries \<Rightarrow> bool" where
  "stored_headers_ok header_name m \<longleftrightarrow> sorted_map m \<and> (\<forall>(n, v) \<in> set m. stored_name header_name n \<and> header_value_valid v)"

lemma custom_name_stored:
  assumes "header_names_ok header_name" "provider_custom_header_name header_name (trim n) = Inr c"
    "str_len (trim n) \<le> MAX_PROVIDER_CUSTOM_HEADER_NAME_BYTES"
  shows "stored_name header_name c"
proof -
  obtain k where k: "header_name (trim n) = Some k" and "k = c" and cc: "provider_custom_header_name header_name (trim n) = Inr k"
    using assms(2) by (auto simp: provider_custom_header_name_def rbind_eq_Inr split: if_splits)
  then have ok: "header_name c = Some c" "c \<noteq> []" "trim c = c" "str_len c = str_len (trim n)"
    using assms(1) unfolding header_names_ok_def by auto
  then have "provider_custom_header_name header_name c = provider_custom_header_name header_name (trim n)"
    using k \<open>k = c\<close> by (simp add: provider_custom_header_name_def)
  then show ?thesis using ok assms by (simp add: stored_name_def)
qed

lemma validated_entry:
  assumes "validate_entries_from header_name names hs = Inr ()" "h \<in> set hs"
  shows "str_len (trim (input_name h)) \<le> MAX_PROVIDER_CUSTOM_HEADER_NAME_BYTES \<and>
    (\<forall>v. input_value h = Some v \<longrightarrow> header_value_valid v)"
  using assms
  by (induction header_name names hs rule: validate_entries_from.induct)
    (auto simp: Let_def rbind_eq_Inr split: if_splits option.splits)

lemma set_map_insert: "set (map_insert k v m) \<subseteq> insert (k, v) (set m)"
  by (auto simp: map_insert_def)

lemma collect_headers_ok:
  assumes hn: "header_names_ok header_name"
    and ex: "\<And>n v. map_of existing n = Some v \<Longrightarrow> header_value_valid v"
    and "\<forall>h \<in> set hs. str_len (trim (input_name h)) \<le> MAX_PROVIDER_CUSTOM_HEADER_NAME_BYTES \<and>
      (\<forall>v. input_value h = Some v \<longrightarrow> header_value_valid v)"
    and "stored_headers_ok header_name acc" "collect_headers header_name existing acc hs = Inr m"
  shows "stored_headers_ok header_name m"
  using assms(3-)
proof (induction hs arbitrary: acc)
  case Nil
  then show ?case by simp
next
  case (Cons h hs)
  obtain n where n: "provider_custom_header_name header_name (trim (input_name h)) = Inr n"
    using Cons.prems(3) by (cases "provider_custom_header_name header_name (trim (input_name h))") auto
  obtain v where v: "(case input_value h of Some v \<Rightarrow> Inr v
      | None \<Rightarrow> ok_or ''a new custom header must include a value'' (map_of existing n)) = Inr v"
    and rest: "collect_headers header_name existing (map_insert n v acc) hs = Inr m"
    using Cons.prems(3) n by (auto simp: rbind_eq_Inr)
  have "stored_name header_name n" using custom_name_stored [OF hn n] Cons.prems(1) by simp
  moreover have "header_value_valid v" using v Cons.prems(1) ex by (auto split: option.splits)
  ultimately have "stored_headers_ok header_name (map_insert n v acc)"
    using Cons.prems(2) set_map_insert [of n v acc] sorted_map_insert [of acc n v]
    by (fastforce simp: stored_headers_ok_def)
  then show ?case using Cons.IH [OF _ _ rest] Cons.prems(1) by simp
qed

lemma normalized_headers_ok:
  assumes "header_names_ok header_name" "\<And>n v. map_of existing n = Some v \<Longrightarrow> header_value_valid v"
    and "normalize_custom_headers hj header_name hs existing = Inr m"
  shows "stored_headers_ok header_name m"
proof -
  have v: "validate_entries_from header_name [] hs = Inr ()" and c: "collect_headers header_name existing [] hs = Inr m"
    using assms(3)
    by (auto simp: normalize_custom_headers_def validate_custom_header_entries_def rbind_eq_Inr split: if_splits)
  show ?thesis
    by (rule collect_headers_ok [OF assms(1,2) _ _ c])
      (use validated_entry [OF v] in \<open>auto simp: stored_headers_ok_def sorted_map_def\<close>)
qed

abbreviation entry_of :: "string \<times> string \<Rightarrow> ProviderCustomHeaderInput" where
  "entry_of e \<equiv> (case e of (n, v) \<Rightarrow> \<lparr>input_name = n, input_value = Some v\<rparr>)"

lemma revalidates:
  assumes "\<forall>(n, v) \<in> set m. stored_name header_name n \<and> header_value_valid v" "distinct (map fst m)"
    "set names \<inter> fst ` set m = {}"
  shows "validate_entries_from header_name names (map entry_of m) = Inr ()"
  using assms
proof (induction m arbitrary: names)
  case Nil
  then show ?case by simp
next
  case (Cons e m)
  obtain n v where e: "e = (n, v)" by fastforce
  have "validate_entries_from header_name (n # names) (map entry_of m) = Inr ()"
    using Cons.prems by (intro Cons.IH) (auto simp: e)
  then show ?case using Cons.prems by (auto simp: e stored_name_def Let_def)
qed

lemma map_insert_last: "sorted_map (acc @ [(n, v)]) \<Longrightarrow> map_insert n v acc = acc @ [(n, v)]"
proof -
  assume "sorted_map (acc @ [(n, v)])"
  then have lt: "\<forall>x \<in> set acc. fst x < n" by (auto simp: sorted_map_def sorted_wrt_append)
  have "filter (\<lambda>(k', _). k' < n) acc = acc" using lt by (intro filter_True) auto
  moreover have "filter (\<lambda>(k', _). n < k') acc = []" using lt by (intro filter_False) (auto dest: less_asym)
  ultimately show ?thesis by (simp add: map_insert_def)
qed

lemma recollects:
  assumes "\<forall>(n, v) \<in> set m. stored_name header_name n" "sorted_map (acc @ m)"
  shows "collect_headers header_name ex acc (map entry_of m) = Inr (acc @ m)"
  using assms
proof (induction m arbitrary: acc)
  case Nil
  then show ?case by simp
next
  case (Cons e m)
  obtain n v where e: "e = (n, v)" by fastforce
  have "sorted_map (acc @ [(n, v)])" using Cons.prems(2) by (auto simp: e sorted_map_def sorted_wrt_append)
  then have "map_insert n v acc = acc @ [(n, v)]" by (rule map_insert_last)
  moreover have "collect_headers header_name ex (acc @ [(n, v)]) (map entry_of m) = Inr ((acc @ [(n, v)]) @ m)"
    using Cons.prems by (intro Cons.IH) (auto simp: e)
  ultimately show ?case using Cons.prems(1) by (auto simp: e stored_name_def)
qed

lemma renormalizes:
  assumes "stored_headers_ok header_name m" "headers_to_string hj m = Some s"
    "str_len s \<le> MAX_PROVIDER_CUSTOM_HEADERS_BYTES"
  shows "normalize_custom_headers hj header_name (map entry_of m) ex = Inr m"
proof -
  have "validate_entries_from header_name [] (map entry_of m) = Inr ()"
    using assms(1) by (intro revalidates) (auto simp: stored_headers_ok_def sorted_map_distinct)
  moreover have "collect_headers header_name ex [] (map entry_of m) = Inr m"
    using recollects [of m header_name "[]" ex] assms(1) by (fastforce simp: stored_headers_ok_def)
  ultimately show ?thesis
    using assms(2,3) by (simp add: normalize_custom_headers_def validate_custom_header_entries_def)
qed

text \<open>C14: Custom headers survive storage: the headers an update accepts, sealed with the master key and written
  to the record of the provider, are read back unchanged, every name in its canonical form.\<close>

theorem custom_headers_roundtrip:
  assumes "aead_ok a" "header_names_ok header_name" "headers_json_ok hj" "\<And>s. utf8 (str_bytes s) = Some s"
    and "length nonce = 12" "\<And>n v. map_of existing n = Some v \<Longrightarrow> header_value_valid v"
    and n: "normalize_custom_headers hj header_name hs existing = Inr m"
    and e: "encrypt_custom_headers hj a nonce m mk = Inr stored"
    and r: "optional_bytes r ''custom_headers'' = Inr stored"
  shows "stored_custom_headers hj header_name a utf8 r mk = Inr m"
proof (cases "m = []")
  case True
  then show ?thesis using e r by (simp add: encrypt_custom_headers_def stored_custom_headers_def)
next
  case False
  obtain s where s: "headers_to_string hj m = Some s" and le: "str_len s \<le> MAX_PROVIDER_CUSTOM_HEADERS_BYTES"
    using n by (auto simp: normalize_custom_headers_def rbind_eq_Inr split: if_splits)
  have ne: "s \<noteq> []" "headers_from_str hj s = Some m" using assms(3) s by (auto simp: headers_json_ok_def)
  have enc: "encrypt_secret a nonce mk s = Inr stored" using e s False by (simp add: encrypt_custom_headers_def)
  then obtain bs where bs: "stored = Some bs" using ne by (auto simp: encrypt_secret_def rbind_eq_Inr)
  have "decrypt_secret a utf8 mk stored = Inr (Some s)"
    using secret_roundtrip [OF assms(1,4,5) enc] ne by simp
  then show ?thesis
    using renormalizes [OF normalized_headers_ok [OF assms(2,6) n] s le] r bs ne
    by (simp add: stored_custom_headers_def)
qed

definition example_cipher :: aead where
  "example_cipher = \<lparr>seal = (\<lambda>key nonce m. Some (m @ [sum_list key])), unseal = (\<lambda>key nonce c. Some (butlast c))\<rparr>"

definition example_name :: "string \<Rightarrow> string option" where
  "example_name n = (if n = ''X-A'' \<or> n = ''x-a'' then Some ''x-a'' else None)"

definition example_headers_json :: headers_json where
  "example_headers_json =
     \<lparr>headers_to_string = (\<lambda>m. if m = [(''x-a'', ''1'')] then Some ''{x-a:1}'' else None),
      headers_from_str = (\<lambda>s. Some [(''x-a'', ''1'')])\<rparr>"

theorem custom_headers_roundtrip_witness:
  "normalize_custom_headers example_headers_json example_name [\<lparr>input_name = '' X-A '', input_value = Some ''1''\<rparr>] []
     = Inr [(''x-a'', ''1'')] \<and>
   stored_custom_headers example_headers_json example_name example_cipher from_utf8
     [(''custom_headers'', Bytes (replicate 12 0 @ str_bytes ''{x-a:1}'' @ [5]))] (Some [5]) = Inr [(''x-a'', ''1'')]"
proof
  show n: "normalize_custom_headers example_headers_json example_name [\<lparr>input_name = '' X-A '', input_value = Some ''1''\<rparr>] []
     = Inr [(''x-a'', ''1'')]"
    by (simp add: normalize_custom_headers_def validate_custom_header_entries_def provider_custom_header_name_def
        example_name_def example_headers_json_def trim_def trim_start_def trim_end_def is_whitespace_def
        char_utf8_len_def MAX_PROVIDER_CUSTOM_HEADER_NAME_BYTES_def MAX_PROVIDER_CUSTOM_HEADER_VALUE_BYTES_def
        MAX_PROVIDER_CUSTOM_HEADERS_BYTES_def header_value_valid_def is_visible_ascii_def map_insert_def)
  show "stored_custom_headers example_headers_json example_name example_cipher from_utf8
     [(''custom_headers'', Bytes (replicate 12 0 @ str_bytes ''{x-a:1}'' @ [5]))] (Some [5]) = Inr [(''x-a'', ''1'')]"
  proof (rule custom_headers_roundtrip [OF _ _ _ _ _ _ n, of _ _ "replicate 12 0"])
    show "aead_ok example_cipher" by (simp add: aead_ok_def example_cipher_def)
    show "header_names_ok example_name"
      by (auto simp: header_names_ok_def example_name_def is_whitespace_def char_utf8_len_def intro!: trim_no_whitespace split: if_splits)
    show "headers_json_ok example_headers_json" by (auto simp: headers_json_ok_def example_headers_json_def split: if_splits)
    show "encrypt_custom_headers example_headers_json example_cipher (replicate 12 0) [(''x-a'', ''1'')] (Some [5])
      = Inr (Some (replicate 12 0 @ str_bytes ''{x-a:1}'' @ [5]))"
      by (simp add: encrypt_custom_headers_def encrypt_secret_def example_headers_json_def example_cipher_def)
  qed (simp_all add: optional_bytes_def hm_get_def)
qed

end
