(* ===== verification/Antigravity.thy ===== *)
theory Antigravity
  imports ErrorSanitizer
begin

text \<open>
  The Antigravity adapter's request (\<^verbatim>\<open>src/provider_adapters/antigravity/\<close>): the model names and session ids it
  sends, the ban messages it recognises and the envelope it puts around a Google request.
\<close>

section \<open>Definitions\<close>

definition is_permanent_antigravity_ban :: "string \<Rightarrow> bool" where
  "is_permanent_antigravity_ban message =
     (let lower = to_ascii_lowercase message in
      if contains ''verify your account to continue'' lower then False
      else if contains ''has not been used in project'' lower \<or> contains ''service_disabled'' lower
        \<or> contains ''accessnotconfigured'' lower \<or> contains ''permission_denied'' lower \<or> contains ''it is disabled'' lower
      then False
      else contains ''this service has been disabled in this account'' lower \<or> contains ''account_deactivated'' lower
        \<or> contains ''account has been deactivated'' lower \<or> contains ''account has been disabled'' lower
        \<or> contains ''your account has been suspended'' lower \<or> contains ''this account is deactivated'' lower)"

text \<open>An \<open>i64\<close> is a 64-bit word read with its sign.\<close>

definition show_int :: "int \<Rightarrow> string" where
  "show_int i = (if i < 0 then CHR ''-'' # show_nat (nat (- i)) else show_nat (nat i))"

unbundle bit_operations_syntax

fun fnv_hash :: "64 word \<Rightarrow> nat list \<Rightarrow> 64 word" where
  "fnv_hash h [] = h"
| "fnv_hash h (b # bs) = fnv_hash ((h XOR of_nat b) * 1099511628211) bs"

definition format_antigravity_session_id :: "string \<Rightarrow> string" where
  "format_antigravity_session_id session_id =
     (let trimmed = trim session_id in
      if starts_with ''-'' trimmed \<and> list_all is_ascii_digit (drop 1 trimmed) then trimmed
      else
        (let h = fnv_hash (- 3750763034362895579) (str_bytes trimmed);
             h' = (if 0 < sint h then - h else h)
         in show_int (sint h')))"

definition model_suffix :: "string \<Rightarrow> string" where
  "model_suffix m =
     (let t = trim m in
      case option_or (strip_prefix ''antigravity/'' t) (strip_prefix ''ag/'' t) of Some s \<Rightarrow> s | None \<Rightarrow> t)"

definition normalize_model_id :: "string \<Rightarrow> string" where
  "normalize_model_id m =
     (let s = model_suffix m in
      if s \<in> {''gemini-3.7-flash'', ''gemini-3.7-flash-high'', ''gemini-3.7-flash-medium'', ''gemini-3.7-flash-low''}
      then ''gemini-3.7-flash-tiered''
      else if s = ''gpt-oss-120b'' then ''gpt-oss-120b-medium''
      else if s = ''gemini-3.1-pro-high'' then ''gemini-pro-agent''
      else s)"

definition model_thinking_level :: "string \<Rightarrow> string option" where
  "model_thinking_level m =
     (let s = model_suffix m in
      if s \<in> {''gemini-3.6-flash-high'', ''gemini-3.7-flash-high'', ''gemini-3.8-flash-high''} then Some ''high''
      else if s \<in> {''gemini-3.6-flash-medium'', ''gemini-3.7-flash-medium'', ''gemini-3.8-flash-medium''}
      then Some ''medium''
      else if s \<in> {''gemini-3.6-flash-low'', ''gemini-3.7-flash-low'', ''gemini-3.8-flash-low''} then Some ''low''
      else None)"

text \<open>\<open>entry(key).or_insert_with(|| json!({}))\<close>, then an update of the value if it is an object.\<close>

definition update_entry :: "string \<Rightarrow> (json_map \<Rightarrow> json_map) \<Rightarrow> json_map \<Rightarrow> json_map" where
  "update_entry k f m =
     map_insert k (case map_of m k of
         None \<Rightarrow> JObject (f [])
       | Some (JObject inner) \<Rightarrow> JObject (f inner)
       | Some other \<Rightarrow> other) m"

definition set_tiered_thinking_config :: "string \<Rightarrow> json \<Rightarrow> json" where
  "set_tiered_thinking_config level request =
     (case request of
        JObject m \<Rightarrow>
          JObject (update_entry ''generationConfig'' (update_entry ''thinkingConfig'' (\<lambda>c.
            map_insert ''includeThoughts'' (JBool False) (map_insert ''thinkingLevel'' (JString level) c))) m)
      | _ \<Rightarrow> request)"

definition apply_tiered_thinking_config :: "string \<Rightarrow> json \<Rightarrow> json" where
  "apply_tiered_thinking_config m request =
     (case model_thinking_level m of None \<Rightarrow> request | Some level \<Rightarrow> set_tiered_thinking_config level request)"

fun strip_enum_descriptions :: "json \<Rightarrow> json" where
  "strip_enum_descriptions (JObject m) =
     JObject (map (\<lambda>kv. (fst kv, strip_enum_descriptions (snd kv))) (filter (\<lambda>kv. fst kv \<noteq> ''enumDescriptions'') m))"
| "strip_enum_descriptions (JArray vs) = JArray (map strip_enum_descriptions vs)"
| "strip_enum_descriptions v = v"

record OAuthRequestAuth =
  access_token :: string
  account_id :: "string option"
  project_id :: "string option"

record AdapterRequestError =
  adapter_error_status :: "status option"
  adapter_error_retry_after :: "string option"
  adapter_error_message :: string

definition adapter_error :: "status option \<Rightarrow> string \<Rightarrow> AdapterRequestError" where
  "adapter_error st message =
     \<lparr>adapter_error_status = st, adapter_error_retry_after = None, adapter_error_message = message\<rparr>"

text \<open>
  \<open>prepare_upstream_request\<close> of the adapter, with the body it leaves; what it reads of the context is the account,
  the session, the model and the request id.
\<close>

definition antigravity_prepare ::
  "OAuthRequestAuth option \<Rightarrow> string \<Rightarrow> string \<Rightarrow> string \<Rightarrow> json \<Rightarrow> (AdapterRequestError + unit) \<times> json" where
  "antigravity_prepare oauth session_id m request_id body =
     (case oauth of
        None \<Rightarrow> (Inl (adapter_error (Some UNAUTHORIZED) ''Antigravity OAuth account is unavailable''), body)
      | Some auth \<Rightarrow>
          (case project_id auth of
             None \<Rightarrow> (Inl (adapter_error (Some UNPROCESSABLE_ENTITY) ''Antigravity account has no Cloud Code project; reconnect the account after completing Gemini Code Assist onboarding''), body)
           | Some project \<Rightarrow>
               if trim project = [] then
                 (Inl (adapter_error (Some UNPROCESSABLE_ENTITY) ''Antigravity account has no Cloud Code project; reconnect the account after completing Gemini Code Assist onboarding''), body)
               else
                 (case body of
                    JObject fs \<Rightarrow>
                      (let fs1 = map_insert ''sessionId'' (JString (format_antigravity_session_id session_id)) fs;
                           fs2 = (case map_of fs1 ''tools'' of
                                    Some tools \<Rightarrow> map_insert ''tools'' (strip_enum_descriptions tools) fs1
                                  | None \<Rightarrow> fs1)
                       in (Inr (), JObject
                            [(''model'', JString (normalize_model_id m)), (''project'', JString project),
                             (''request'', apply_tiered_thinking_config m (JObject fs2)),
                             (''requestId'', JString request_id), (''requestType'', JString ''agent''),
                             (''userAgent'', JString ''antigravity'')]))
                  | _ \<Rightarrow> (Inl (adapter_error (Some BAD_REQUEST) ''Antigravity Google request is invalid''), JNull))))"

section \<open>Session ids\<close>

lemma sint_uminus_pos:
  fixes h :: "64 word"
  assumes "0 < sint h"
  shows "sint (- h) = - sint h"
proof -
  have "sint h < 2 ^ 63" using sint_lt [of h] by simp
  then have "- (2 ^ 63) \<le> - sint h \<and> - sint h < 2 ^ 63" using assms by simp
  then have "signed_take_bit 63 (- sint h) = - sint h"
    by (simp add: signed_take_bit_int_eq_self_iff)
  then show ?thesis by (simp add: sint_word_ariths)
qed

lemma session_id_number:
  assumes "\<not> (starts_with ''-'' (trim s) \<and> list_all is_ascii_digit (drop 1 (trim s)))"
  shows "\<exists>i. format_antigravity_session_id s = show_int i \<and> - (2 ^ 63) \<le> i \<and> i \<le> 0"
proof -
  let ?h = "fnv_hash (- 3750763034362895579) (str_bytes (trim s))"
  let ?i = "sint (if 0 < sint ?h then - ?h else ?h)"
  have "- (2 ^ 63) \<le> ?i" using sint_ge [of "if 0 < sint ?h then - ?h else ?h"] by simp
  moreover have "?i \<le> 0" by (simp add: sint_uminus_pos)
  moreover have "format_antigravity_session_id s = show_int ?i"
    using assms by (auto simp: format_antigravity_session_id_def Let_def)
  ultimately show ?thesis by blast
qed

text \<open>A session id that already starts with a minus sign is kept even when no number follows.\<close>

lemma session_id_bare_minus: "format_antigravity_session_id ''-'' = ''-''"
  by (simp add: format_antigravity_session_id_def trim_def trim_start_def trim_end_def is_whitespace_def starts_with_def)

section \<open>The envelope\<close>

fun has_key :: "string \<Rightarrow> json \<Rightarrow> bool" where
  "has_key k (JObject m) = list_ex (\<lambda>kv. fst kv = k \<or> has_key k (snd kv)) m"
| "has_key k (JArray vs) = list_ex (has_key k) vs"
| "has_key k v = False"

lemma stripped_no_key: "\<not> has_key ''enumDescriptions'' (strip_enum_descriptions v)"
  by (induction v rule: strip_enum_descriptions.induct) (auto simp: list_ex_iff)

lemma update_entry_other: "k' \<noteq> k \<Longrightarrow> map_of (update_entry k f m) k' = map_of m k'"
  by (simp add: update_entry_def map_of_insert)

lemma tiered_config_other:
  assumes "k \<noteq> ''generationConfig''"
  shows "json_get (apply_tiered_thinking_config m v) k = json_get v k"
  using assms
  by (cases v) (auto simp: apply_tiered_thinking_config_def set_tiered_thinking_config_def json_get_def
      update_entry_other split: option.splits)

lemma prepared_envelope:
  assumes "antigravity_prepare oauth session_id m request_id body = (Inr (), body')"
  obtains auth project fs request where "oauth = Some auth" "project_id auth = Some project" "trim project \<noteq> []"
    "body = JObject fs" "json_get body' ''project'' = Some (JString project)"
    "json_get body' ''model'' = Some (JString (normalize_model_id m))"
    "json_get body' ''request'' = Some request" "\<And>k. k \<notin> {''model'', ''project'', ''request'', ''requestId'', ''requestType'', ''userAgent''} \<Longrightarrow> json_get body' k = None"
    "json_get request ''sessionId'' = Some (JString (format_antigravity_session_id session_id))"
    "json_get request ''tools'' = map_option strip_enum_descriptions (map_of fs ''tools'')"
    "\<And>k. k \<notin> {''sessionId'', ''tools'', ''generationConfig''} \<Longrightarrow> json_get request k = map_of fs k"
proof -
  obtain auth project fs where a: "oauth = Some auth" "project_id auth = Some project" "trim project \<noteq> []" "body = JObject fs"
    using assms by (auto simp: antigravity_prepare_def split: option.splits if_splits json.splits)
  let ?fs1 = "map_insert ''sessionId'' (JString (format_antigravity_session_id session_id)) fs"
  let ?fs2 = "case map_of ?fs1 ''tools'' of
      Some tools \<Rightarrow> map_insert ''tools'' (strip_enum_descriptions tools) ?fs1 | None \<Rightarrow> ?fs1"
  let ?request = "apply_tiered_thinking_config m (JObject ?fs2)"
  have b: "body' = JObject
      [(''model'', JString (normalize_model_id m)), (''project'', JString project), (''request'', ?request),
       (''requestId'', JString request_id), (''requestType'', JString ''agent''), (''userAgent'', JString ''antigravity'')]"
    using assms a by (simp add: antigravity_prepare_def Let_def)
  have g: "json_get ?request k = map_of ?fs2 k" if "k \<noteq> ''generationConfig''" for k
    using that by (simp add: tiered_config_other) (simp add: json_get_def)
  show thesis
  proof (rule that [OF a])
    show "json_get body' ''project'' = Some (JString project)" "json_get body' ''model'' = Some (JString (normalize_model_id m))"
      "json_get body' ''request'' = Some ?request" by (simp_all add: b json_get_def)
    show "json_get body' k = None"
      if "k \<notin> {''model'', ''project'', ''request'', ''requestId'', ''requestType'', ''userAgent''}" for k
      using that by (simp add: b json_get_def)
    show "json_get ?request ''sessionId'' = Some (JString (format_antigravity_session_id session_id))"
      by (subst g) (simp_all add: map_of_insert split: option.splits)
    show "json_get ?request ''tools'' = map_option strip_enum_descriptions (map_of fs ''tools'')"
      by (subst g) (simp_all add: map_of_insert split: option.splits)
    show "json_get ?request k = map_of fs k" if "k \<notin> {''sessionId'', ''tools'', ''generationConfig''}" for k
      using that by (subst g) (simp_all add: map_of_insert split: option.splits)
  qed
qed

text \<open>Preparing the same request for a second account, as the rotation does after the first account was rejected,
  wraps it twice: what Google gets as the request is the envelope of the first account, with its project and without
  the contents, which sit one level deeper.\<close>

lemma second_account_gets_envelope:
  assumes "antigravity_prepare (Some auth1) session_id m request_id (JObject fs) = (Inr (), body1)"
    and "antigravity_prepare (Some auth2) session_id m request_id body1 = (Inr (), body2)"
    and "project_id auth1 = Some project1" and "map_of fs ''contents'' = Some contents"
  shows "\<exists>request inner. json_get body2 ''request'' = Some request \<and>
    json_get request ''contents'' = None \<and> json_get request ''project'' = Some (JString project1) \<and>
    json_get request ''request'' = Some inner \<and> json_get inner ''contents'' = Some contents"
proof -
  obtain request1 where r1: "json_get body1 ''project'' = Some (JString project1)" "json_get body1 ''request'' = Some request1"
    "json_get body1 ''contents'' = None" "json_get request1 ''contents'' = Some contents"
  proof (rule prepared_envelope [OF assms(1)])
    fix auth project fs' request
    assume e: "Some auth1 = Some auth" "project_id auth = Some project" "JObject fs = JObject fs'"
      "json_get body1 ''project'' = Some (JString project)" "json_get body1 ''request'' = Some request"
      "\<And>k. k \<notin> {''model'', ''project'', ''request'', ''requestId'', ''requestType'', ''userAgent''} \<Longrightarrow> json_get body1 k = None"
      "\<And>k. k \<notin> {''sessionId'', ''tools'', ''generationConfig''} \<Longrightarrow> json_get request k = map_of fs' k"
    show ?thesis by (rule that [of request]) (use e assms(3,4) in auto)
  qed
  show ?thesis
  proof (rule prepared_envelope [OF assms(2)])
    fix fs' request
    assume e: "body1 = JObject fs'" "json_get body2 ''request'' = Some request"
      "\<And>k. k \<notin> {''sessionId'', ''tools'', ''generationConfig''} \<Longrightarrow> json_get request k = map_of fs' k"
    have "map_of fs' k = json_get body1 k" for k using e(1) by (simp add: json_get_def)
    with e(2,3) r1 show ?thesis by (intro exI [of _ request] exI [of _ request1]) simp
  qed
qed

abbreviation sample_account :: "string \<Rightarrow> OAuthRequestAuth" where
  "sample_account project \<equiv> \<lparr>access_token = ''t'', account_id = None, project_id = Some project\<rparr>"

lemma sample_prepare: "\<exists>body'. antigravity_prepare (Some (sample_account p)) s m i (JObject fs) = (Inr (), body')"
  if "trim p \<noteq> []"
  using that by (simp add: antigravity_prepare_def Let_def)

end
