(* ===== verification/Adapters.thy ===== *)
theory Adapters
  imports Antigravity Protocol Egress
begin

text \<open>
  The boundary to provider adapters (\<^verbatim>\<open>src/provider_adapters/\<close>): the trait \<open>ProviderAdapter\<close> as a record of its
  methods, with the defaults of the trait, the registry and its dispatch functions, and the reading of upstream
  responses (\<^verbatim>\<open>sse.rs\<close>). A method that may touch the gateway's state takes and returns it; its type is \<open>'w\<close>.
\<close>

section \<open>Presets and capabilities\<close>

record AdapterCapabilities =
  cap_api_keys :: bool
  cap_oauth_accounts :: bool
  local_usage_meter :: bool
  local_quota_tracking :: bool
  model_discovery :: bool
  usage_limits :: bool
  api_key_usage :: bool
  api_key_usage_status :: string
  model_protocol_routing :: bool
  cap_upstream_protocols :: "string list"
  api_key_auth_assist :: bool
  cap_catalog_authoritative :: bool
  event_stream_response :: bool
  auth_panel :: "string option"

datatype ProviderCategory = Custom | CloudApi | Gateway | Oauth
datatype ProviderLabel = Free | FreeTier

record ProviderPreset =
  preset_id :: string
  preset_adapter_id :: string
  preset_name :: string
  preset_description :: string
  category :: ProviderCategory
  labels :: "ProviderLabel list"
  default_base_url :: "string option"
  default_logo_url :: "string option"
  default_model_prefix :: "string option"
  preset_models :: "string list"
  preset_auth_type :: string
  supported_auth_types :: "string list"
  default_preferred_protocol :: string
  default_supported_protocols :: "string list"
  protocol_selectable :: bool
  preset_capabilities :: AdapterCapabilities

definition GENERIC_ADAPTER_ID :: string where "GENERIC_ADAPTER_ID = ''generic''"
definition OPENCODE_GO_ADAPTER_ID :: string where "OPENCODE_GO_ADAPTER_ID = ''opencode_go''"
definition OPENCODE_ZEN_ADAPTER_ID :: string where "OPENCODE_ZEN_ADAPTER_ID = ''opencode_zen''"
definition ANTIGRAVITY_ADAPTER_ID :: string where "ANTIGRAVITY_ADAPTER_ID = ''antigravity''"

definition CUSTOM_PROVIDER_PRESET :: ProviderPreset where
  "CUSTOM_PROVIDER_PRESET =
     \<lparr>preset_id = ''custom'', preset_adapter_id = GENERIC_ADAPTER_ID, preset_name = ''Custom provider'',
      preset_description = ''Connect an OpenAI-compatible API using an API key or custom header.'',
      category = Custom, labels = [], default_base_url = None, default_logo_url = None,
      default_model_prefix = None, preset_models = [], preset_auth_type = ''bearer'',
      supported_auth_types = [''none'', ''bearer'', ''header''], default_preferred_protocol = ''chat_completions'',
      default_supported_protocols = [''chat_completions'', ''responses'', ''messages''], protocol_selectable = True,
      preset_capabilities =
        \<lparr>cap_api_keys = True, cap_oauth_accounts = False, local_usage_meter = False, local_quota_tracking = False,
         model_discovery = True, usage_limits = False, api_key_usage = False, api_key_usage_status = ''unsupported'',
         model_protocol_routing = False, cap_upstream_protocols = [''chat_completions'', ''responses'', ''messages''],
         api_key_auth_assist = False, cap_catalog_authoritative = True, event_stream_response = False,
         auth_panel = None\<rparr>\<rparr>"

text \<open>The presets generated from YAML at build time are the argument \<open>yaml\<close>.\<close>

definition all_presets :: "ProviderPreset list \<Rightarrow> ProviderPreset list" where
  "all_presets yaml = CUSTOM_PROVIDER_PRESET # yaml"

definition preset_for_adapter :: "ProviderPreset list \<Rightarrow> string \<Rightarrow> ProviderPreset option" where
  "preset_for_adapter yaml aid = find (\<lambda>p. preset_adapter_id p = aid) (all_presets yaml)"

definition default_models :: "ProviderPreset list \<Rightarrow> string \<Rightarrow> string list" where
  "default_models yaml aid = (case preset_for_adapter yaml aid of Some p \<Rightarrow> preset_models p | None \<Rightarrow> [])"

definition capabilities :: "ProviderPreset list \<Rightarrow> string \<Rightarrow> AdapterCapabilities option" where
  "capabilities yaml aid = map_option preset_capabilities (preset_for_adapter yaml aid)"

definition supported_upstream_protocols :: "ProviderPreset list \<Rightarrow> string \<Rightarrow> string list" where
  "supported_upstream_protocols yaml aid =
     (case capabilities yaml aid of Some c \<Rightarrow> cap_upstream_protocols c | None \<Rightarrow> [])"

section \<open>Requests and responses\<close>

record RequestBuilder =
  rb_url :: string
  rb_headers :: header_map
  rb_body :: json

definition rb_header :: "string \<Rightarrow> string \<Rightarrow> RequestBuilder \<Rightarrow> RequestBuilder" where
  "rb_header n v r = r\<lparr>rb_headers := rb_headers r @ [(n, v)]\<rparr>"

definition bearer_auth :: "string \<Rightarrow> RequestBuilder \<Rightarrow> RequestBuilder" where
  "bearer_auth token r = rb_header ''authorization'' (''Bearer '' @ token) r"

datatype ErrorKind = KTimedOut | KConnectionReset | KConnectionAborted | KBrokenPipe | KUnexpectedEof | KOther

record TransportError =
  te_is_timeout :: bool
  te_is_connect :: bool
  te_io_kind :: "ErrorKind option"

datatype UpstreamTransportErrorKind =
    TimedOut | ConnectionReset | ConnectionAborted | BrokenPipe | UnexpectedEof | CouldNotConnect | Other

fun transport_message :: "UpstreamTransportErrorKind \<Rightarrow> string" where
  "transport_message TimedOut = ''timed out''"
| "transport_message ConnectionReset = ''connection reset by upstream server''"
| "transport_message ConnectionAborted = ''connection aborted by upstream server''"
| "transport_message BrokenPipe = ''connection closed while sending the request''"
| "transport_message UnexpectedEof = ''upstream closed the connection unexpectedly''"
| "transport_message CouldNotConnect = ''could not connect''"
| "transport_message Other = ''failed before receiving a response''"

definition classify_transport_error :: "TransportError \<Rightarrow> UpstreamTransportErrorKind" where
  "classify_transport_error e =
     (if te_is_timeout e \<or> te_io_kind e = Some KTimedOut then TimedOut
      else if te_io_kind e = Some KConnectionReset then ConnectionReset
      else if te_io_kind e = Some KConnectionAborted then ConnectionAborted
      else if te_io_kind e = Some KBrokenPipe then BrokenPipe
      else if te_io_kind e = Some KUnexpectedEof then UnexpectedEof
      else if te_is_connect e then CouldNotConnect
      else Other)"

definition upstream_transport_error_message :: "TransportError \<Rightarrow> string" where
  "upstream_transport_error_message e = transport_message (classify_transport_error e)"

record upstream_response =
  up_status :: status
  up_headers :: header_map
  up_content_length :: "nat option"
  up_chunks :: "(TransportError + nat list) list"

definition is_event_stream_content_type :: "upstream_response \<Rightarrow> bool" where
  "is_event_stream_content_type r =
     (let v = (case header_text (up_headers r) ''content-type'' of Some v \<Rightarrow> v | None \<Rightarrow> [])
      in eq_ignore_ascii_case (trim (case split_once (CHR '';'') v of Some (a, _) \<Rightarrow> a | None \<Rightarrow> v)) ''text/event-stream'')"

definition accepts_event_stream_response :: "upstream_response \<Rightarrow> bool \<Rightarrow> bool" where
  "accepts_event_stream_response r allows_missing =
     (is_event_stream_content_type r \<or> allows_missing \<and> header_get (up_headers r) ''content-type'' = None)"

definition over_limit :: "nat \<Rightarrow> string" where
  "over_limit max_bytes = ''response exceeds the '' @ show_nat max_bytes @ ''-byte limit''"

fun read_chunks :: "nat \<Rightarrow> nat list \<Rightarrow> (TransportError + nat list) list \<Rightarrow> string + nat list" where
  "read_chunks max_bytes body [] = Inr body"
| "read_chunks max_bytes body (Inl e # rest) =
     Inl (''upstream response body could not be read: '' @ upstream_transport_error_message e)"
| "read_chunks max_bytes body (Inr chunk # rest) =
     (if max_bytes < sat_add u64_max (length body) (length chunk) then Inl (over_limit max_bytes)
      else read_chunks max_bytes (body @ chunk) rest)"

definition read_limited_response :: "upstream_response \<Rightarrow> nat \<Rightarrow> string + nat list" where
  "read_limited_response r max_bytes =
     (if (case up_content_length r of Some n \<Rightarrow> max_bytes < n | None \<Rightarrow> False) then Inl (over_limit max_bytes)
      else read_chunks max_bytes [] (up_chunks r))"

record AdapterSseError =
  sse_message :: string
  safe_to_fail_over :: bool

definition adapter_sse_error_can_fail_over :: "bool \<Rightarrow> AdapterSseError \<Rightarrow> bool" where
  "adapter_sse_error_can_fail_over stream_requested e = (\<not> stream_requested \<and> safe_to_fail_over e)"

definition MAX_PROVIDER_ERROR_BODY_BYTES :: nat where "MAX_PROVIDER_ERROR_BODY_BYTES = 64 * 1024"

definition read_provider_error_detail ::
  "json_text \<Rightarrow> (nat list \<Rightarrow> string option) \<Rightarrow> upstream_response \<Rightarrow> nat \<Rightarrow> string" where
  "read_provider_error_detail jt utf8 r response_limit =
     (case read_limited_response r (min response_limit MAX_PROVIDER_ERROR_BODY_BYTES) of
        Inr body \<Rightarrow> sanitize_provider_error_body jt utf8 body
      | Inl e \<Rightarrow> ''provider error body unavailable: '' @ e)"

section \<open>The trait\<close>

record UpstreamAuthContext =
  auth_type :: string
  auth_header :: "string option"
  auth_secret :: "string option"
  auth_oauth :: "OAuthRequestAuth option"
  auth_session_id :: string
  auth_protocol :: UpstreamProtocol
  auth_model :: "string option"

record AdapterRequestContext =
  ctx_base_url :: string
  ctx_base_url_override :: "string option"
  ctx_model :: string
  ctx_request_id :: string
  ctx_streaming :: bool
  ctx_auth :: UpstreamAuthContext

record AdapterRequestPreparation =
  prep_headers :: header_map
  finish_endpoint :: "string option"
  finish_run_id :: "string option"

definition no_preparation :: AdapterRequestPreparation where
  "no_preparation = \<lparr>prep_headers = [], finish_endpoint = None, finish_run_id = None\<rparr>"

record 'w ProviderAdapter =
  adapter_id :: string
  ad_upstream_endpoint :: "string \<Rightarrow> UpstreamProtocol \<Rightarrow> string \<Rightarrow> bool \<Rightarrow> string option \<Rightarrow> string + string"
  ad_prepare_body :: "string \<Rightarrow> json \<Rightarrow> json"
  ad_normalize_response :: "json \<Rightarrow> string + json"
  ad_apply_client_headers :: "header_map \<Rightarrow> RequestBuilder \<Rightarrow> RequestBuilder"
  ad_apply_upstream_request_auth :: "UpstreamAuthContext \<Rightarrow> RequestBuilder \<Rightarrow> string + RequestBuilder"
  ad_wants_event_stream :: bool
  ad_allows_missing_event_stream_content_type :: bool
  ad_prepare_images :: "json \<Rightarrow> 'w \<Rightarrow> (string + json) \<times> 'w"
  ad_prepare_upstream_request ::
    "AdapterRequestContext \<Rightarrow> json \<Rightarrow> 'w \<Rightarrow> (AdapterRequestError + AdapterRequestPreparation) \<times> json \<times> 'w"
  ad_retry_upstream_response_as_key_rejection :: bool
  ad_is_key_rejection_status :: "status \<Rightarrow> bool"
  ad_repair_rejected_credential :: "string \<Rightarrow> string \<Rightarrow> status \<Rightarrow> 'w \<Rightarrow> bool \<times> 'w"
  ad_finish_upstream_request ::
    "AdapterRequestPreparation \<Rightarrow> UpstreamAuthContext \<Rightarrow> status option \<Rightarrow> 'w \<Rightarrow> 'w"
  ad_read_event_stream :: "upstream_response \<Rightarrow> nat \<Rightarrow> 'w \<Rightarrow> (AdapterSseError + json) \<times> 'w"
  ad_resolve_oauth_request_auth :: "string \<Rightarrow> 'w \<Rightarrow> (string + OAuthRequestAuth option) \<times> 'w"

text \<open>The defaults of the trait. The header-name parser of the \<open>http\<close> crate is \<open>header_name\<close>.\<close>

definition default_upstream_endpoint ::
  "(string \<Rightarrow> Protocol \<Rightarrow> string option \<Rightarrow> string + string) \<Rightarrow> string \<Rightarrow> UpstreamProtocol \<Rightarrow> string \<Rightarrow> bool
     \<Rightarrow> string option \<Rightarrow> string + string" where
  "default_upstream_endpoint endpoint base_url protocol m streaming base_override =
     rbind (ok_or ''provider adapter does not support the selected upstream protocol'' (up_client_protocol protocol))
       (\<lambda>client. endpoint base_url client base_override)"

definition default_apply_request_auth ::
  "(string \<Rightarrow> string option) \<Rightarrow> UpstreamAuthContext \<Rightarrow> RequestBuilder \<Rightarrow> string + RequestBuilder" where
  "default_apply_request_auth header_name auth request =
     (if auth_oauth auth \<noteq> None then Inl ''provider adapter OAuth request authentication is unavailable''
      else
        case auth_secret auth of
          None \<Rightarrow> Inr request
        | Some secret \<Rightarrow>
            if auth_type auth = ''none'' then Inr request
            else if auth_type auth = ''bearer'' then Inr (bearer_auth secret request)
            else if auth_type auth = ''header'' then
              rbind (ok_or ''provider auth header is missing'' (auth_header auth)) (\<lambda>name.
              rbind (provider_auth_header_name header_name name) (\<lambda>name.
                if list_all is_visible_ascii secret then Inr (rb_header name secret request)
                else Inl ''provider credential contains invalid header characters''))
            else Inl (''unsupported provider auth type: '' @ auth_type auth))"

definition default_is_key_rejection_status :: "status \<Rightarrow> bool" where
  "default_is_key_rejection_status st = (st \<in> {UNAUTHORIZED, FORBIDDEN, TOO_MANY_REQUESTS})"

definition default_adapter ::
  "(string \<Rightarrow> string option) \<Rightarrow> ProviderPreset list \<Rightarrow> string \<Rightarrow>
     (string \<Rightarrow> Protocol \<Rightarrow> string option \<Rightarrow> string + string) \<Rightarrow> (string \<Rightarrow> json \<Rightarrow> json) \<Rightarrow> 'w ProviderAdapter" where
  "default_adapter header_name yaml aid endpoint prepare_body =
     \<lparr>adapter_id = aid, ad_upstream_endpoint = default_upstream_endpoint endpoint, ad_prepare_body = prepare_body,
      ad_normalize_response = Inr, ad_apply_client_headers = (\<lambda>_ r. r),
      ad_apply_upstream_request_auth = default_apply_request_auth header_name,
      ad_wants_event_stream = (case capabilities yaml aid of Some c \<Rightarrow> event_stream_response c | None \<Rightarrow> False),
      ad_allows_missing_event_stream_content_type = False,
      ad_prepare_images = (\<lambda>body w. (Inr body, w)),
      ad_prepare_upstream_request = (\<lambda>_ body w. (Inr no_preparation, body, w)),
      ad_retry_upstream_response_as_key_rejection = True,
      ad_is_key_rejection_status = default_is_key_rejection_status,
      ad_repair_rejected_credential = (\<lambda>_ _ _ w. (False, w)),
      ad_finish_upstream_request = (\<lambda>_ _ _ w. w),
      ad_read_event_stream = (\<lambda>_ _ w. (Inl \<lparr>sse_message = ''provider adapter does not support event-stream response decoding'', safe_to_fail_over = False\<rparr>, w)),
      ad_resolve_oauth_request_auth = (\<lambda>_ w. (Inr None, w))\<rparr>"

text \<open>
  The Antigravity adapter. Its endpoint, the lookup of its accounts and the decoder of its stream are arguments.
\<close>

definition ANTIGRAVITY_ADAPTER ::
  "string \<Rightarrow> (string \<Rightarrow> UpstreamProtocol \<Rightarrow> string \<Rightarrow> bool \<Rightarrow> string option \<Rightarrow> string + string)
     \<Rightarrow> (string \<Rightarrow> 'w \<Rightarrow> (string + OAuthRequestAuth option) \<times> 'w) \<Rightarrow> (nat list \<Rightarrow> AdapterSseError + json)
     \<Rightarrow> 'w ProviderAdapter \<Rightarrow> 'w ProviderAdapter" where
  "ANTIGRAVITY_ADAPTER ide_version endpoint accounts parse_stream defaults =
     defaults\<lparr>adapter_id := ANTIGRAVITY_ADAPTER_ID, ad_upstream_endpoint := endpoint, ad_prepare_body := (\<lambda>_ b. b),
      ad_apply_upstream_request_auth := (\<lambda>auth request.
        rbind (ok_or ''Antigravity OAuth account is unavailable'' (auth_oauth auth)) (\<lambda>account.
          Inr (rb_header ''x-client-version'' ide_version (rb_header ''x-client-name'' ''antigravity''
            (rb_header ''accept'' ''text/event-stream''
              (rb_header ''user-agent'' (''antigravity/ide/'' @ ide_version @ '' darwin/arm64'')
                (bearer_auth (access_token account) request))))))),
      ad_apply_client_headers := (\<lambda>_ r. r), ad_wants_event_stream := True,
      ad_allows_missing_event_stream_content_type := True,
      ad_is_key_rejection_status := (\<lambda>st. st \<in> {UNAUTHORIZED, FORBIDDEN, CONFLICT, TOO_MANY_REQUESTS}),
      ad_prepare_upstream_request := (\<lambda>c body w.
        case antigravity_prepare (auth_oauth (ctx_auth c)) (auth_session_id (ctx_auth c)) (ctx_model c) (ctx_request_id c) body of
          (Inl e, body') \<Rightarrow> (Inl e, body', w)
        | (Inr _, body') \<Rightarrow> (Inr no_preparation, body', w)),
      ad_read_event_stream := (\<lambda>r max_bytes w.
        (rbind (map_err (\<lambda>m. \<lparr>sse_message = m, safe_to_fail_over = True\<rparr>) (read_limited_response r max_bytes)) parse_stream, w)),
      ad_resolve_oauth_request_auth := accounts\<rparr>"

section \<open>Dispatch\<close>

definition adapter_of :: "'w ProviderAdapter list \<Rightarrow> string \<Rightarrow> 'w ProviderAdapter option" where
  "adapter_of registry aid = find (\<lambda>a. adapter_id a = aid) registry"

definition supports_upstream_protocol ::
  "'w ProviderAdapter list \<Rightarrow> ProviderPreset list \<Rightarrow> string \<Rightarrow> UpstreamProtocol \<Rightarrow> bool" where
  "supports_upstream_protocol registry yaml aid protocol =
     (adapter_of registry aid \<noteq> None \<and>
      UpstreamProtocol_as_str protocol \<in> set (supported_upstream_protocols yaml aid))"

definition model_upstream_protocol ::
  "'w ProviderAdapter list \<Rightarrow> ProviderPreset list \<Rightarrow> (string \<Rightarrow> string \<Rightarrow> UpstreamProtocol option) \<Rightarrow> string \<Rightarrow> string
     \<Rightarrow> UpstreamProtocol option" where
  "model_upstream_protocol registry yaml opencode_protocol aid m =
     Option.bind (capabilities yaml aid) (\<lambda>c.
       if \<not> model_protocol_routing c then None
       else Option.bind (opencode_protocol aid m) (\<lambda>p.
         if supports_upstream_protocol registry yaml aid p then Some p else None))"

definition not_registered :: string where "not_registered = ''provider adapter is not registered''"

definition upstream_endpoint ::
  "'w ProviderAdapter list \<Rightarrow> ProviderPreset list \<Rightarrow> string \<Rightarrow> string \<Rightarrow> UpstreamProtocol \<Rightarrow> string \<Rightarrow> bool \<Rightarrow> string option
     \<Rightarrow> string + string" where
  "upstream_endpoint registry yaml aid base_url protocol m streaming base_override =
     rbind (ok_or not_registered (adapter_of registry aid)) (\<lambda>a.
       if \<not> supports_upstream_protocol registry yaml aid protocol
       then Inl ''provider adapter does not support the selected upstream protocol''
       else ad_upstream_endpoint a base_url protocol m streaming base_override)"

definition prepare_request_body :: "'w ProviderAdapter list \<Rightarrow> string \<Rightarrow> json \<Rightarrow> string \<Rightarrow> string + json" where
  "prepare_request_body registry aid body request_id =
     rbind (ok_or not_registered (adapter_of registry aid)) (\<lambda>a. Inr (ad_prepare_body a request_id body))"

definition prepare_provider_images ::
  "'w ProviderAdapter list \<Rightarrow> string \<Rightarrow> json \<Rightarrow> 'w \<Rightarrow> (string + json) \<times> 'w" where
  "prepare_provider_images registry aid body w =
     (case adapter_of registry aid of
        None \<Rightarrow> (Inl not_registered, w)
      | Some a \<Rightarrow> ad_prepare_images a body w)"

definition prepare_upstream_request ::
  "'w ProviderAdapter list \<Rightarrow> string \<Rightarrow> AdapterRequestContext \<Rightarrow> json \<Rightarrow> 'w
     \<Rightarrow> (AdapterRequestError + AdapterRequestPreparation) \<times> json \<times> 'w" where
  "prepare_upstream_request registry aid c body w =
     (case adapter_of registry aid of
        None \<Rightarrow> (Inl (adapter_error None not_registered), body, w)
      | Some a \<Rightarrow> ad_prepare_upstream_request a c body w)"

text \<open>\<open>HeaderName::from_bytes\<close> is \<open>header_name\<close>; a value must be visible ASCII.\<close>

fun apply_custom_headers ::
  "(string \<Rightarrow> string option) \<Rightarrow> (string \<times> string) list \<Rightarrow> RequestBuilder \<Rightarrow> string + RequestBuilder" where
  "apply_custom_headers header_name [] request = Inr request"
| "apply_custom_headers header_name ((n, v) # rest) request =
     rbind (ok_or ''stored provider custom header name is invalid'' (header_name n)) (\<lambda>name.
       if list_all is_visible_ascii v then apply_custom_headers header_name rest (rb_header name v request)
       else Inl ''stored provider custom header value is invalid'')"

definition retry_upstream_response_as_key_rejection :: "'w ProviderAdapter list \<Rightarrow> string \<Rightarrow> bool" where
  "retry_upstream_response_as_key_rejection registry aid =
     (case adapter_of registry aid of Some a \<Rightarrow> ad_retry_upstream_response_as_key_rejection a | None \<Rightarrow> True)"

definition repair_rejected_credential ::
  "'w ProviderAdapter list \<Rightarrow> string \<Rightarrow> string \<Rightarrow> string \<Rightarrow> status \<Rightarrow> 'w \<Rightarrow> bool \<times> 'w" where
  "repair_rejected_credential registry aid pid cid st w =
     (case adapter_of registry aid of
        Some a \<Rightarrow> ad_repair_rejected_credential a pid cid st w
      | None \<Rightarrow> (False, w))"

definition finish_upstream_request ::
  "'w ProviderAdapter list \<Rightarrow> string \<Rightarrow> AdapterRequestPreparation \<Rightarrow> UpstreamAuthContext \<Rightarrow> status option \<Rightarrow> 'w \<Rightarrow> 'w" where
  "finish_upstream_request registry aid prep auth st w =
     (case adapter_of registry aid of
        Some a \<Rightarrow> ad_finish_upstream_request a prep auth st w
      | None \<Rightarrow> w)"

definition resolve_oauth_request_auth ::
  "'w ProviderAdapter list \<Rightarrow> string \<Rightarrow> string \<Rightarrow> 'w \<Rightarrow> (string + OAuthRequestAuth option) \<times> 'w" where
  "resolve_oauth_request_auth registry aid cid w =
     (case adapter_of registry aid of
        None \<Rightarrow> (Inl not_registered, w)
      | Some a \<Rightarrow> ad_resolve_oauth_request_auth a cid w)"

definition apply_upstream_request_auth ::
  "'w ProviderAdapter list \<Rightarrow> ProviderPreset list \<Rightarrow> string \<Rightarrow> UpstreamAuthContext \<Rightarrow> RequestBuilder \<Rightarrow> string + RequestBuilder" where
  "apply_upstream_request_auth registry yaml aid auth request =
     rbind (ok_or not_registered (adapter_of registry aid)) (\<lambda>a.
       if \<not> supports_upstream_protocol registry yaml aid (auth_protocol auth)
       then Inl ''provider adapter does not support the selected upstream protocol''
       else ad_apply_upstream_request_auth a auth request)"

definition wants_event_stream :: "'w ProviderAdapter list \<Rightarrow> string \<Rightarrow> bool" where
  "wants_event_stream registry aid =
     (case adapter_of registry aid of Some a \<Rightarrow> ad_wants_event_stream a | None \<Rightarrow> False)"

definition is_key_rejection_status :: "'w ProviderAdapter list \<Rightarrow> string \<Rightarrow> status \<Rightarrow> bool" where
  "is_key_rejection_status registry aid st =
     (case adapter_of registry aid of Some a \<Rightarrow> ad_is_key_rejection_status a st | None \<Rightarrow> False)"

definition normalize_response :: "'w ProviderAdapter list \<Rightarrow> string \<Rightarrow> json \<Rightarrow> string + json" where
  "normalize_response registry aid v =
     rbind (ok_or not_registered (adapter_of registry aid)) (\<lambda>a. ad_normalize_response a v)"

definition read_adapter_event_stream ::
  "'w ProviderAdapter list \<Rightarrow> string \<Rightarrow> upstream_response \<Rightarrow> nat \<Rightarrow> 'w \<Rightarrow> (AdapterSseError + json) \<times> 'w" where
  "read_adapter_event_stream registry aid r max_bytes w =
     (case adapter_of registry aid of
        None \<Rightarrow> (Inl \<lparr>sse_message = not_registered, safe_to_fail_over = False\<rparr>, w)
      | Some a \<Rightarrow> ad_read_event_stream a r max_bytes w)"

end
