(* ===== verification/RequestEncoding.thy ===== *)
theory RequestEncoding
  imports RequestDecoding
begin

text \<open>
  Encoding the canonical request for the OpenAI family of protocols (\<^verbatim>\<open>src/protocol/request_encode.rs\<close>), the
  options of Responses (\<^verbatim>\<open>src/protocol/request_metadata.rs\<close>) and thinking blocks (\<^verbatim>\<open>src/protocol/thinking.rs\<close>).
  An object under construction is its map of fields.
\<close>

section \<open>Options of Responses\<close>

definition MAX_TRANSLATION_OPTION_DIAGNOSTICS :: nat where "MAX_TRANSLATION_OPTION_DIAGNOSTICS = 8"
definition MAX_TRANSLATION_OPTION_NAME_CHARS :: nat where "MAX_TRANSLATION_OPTION_NAME_CHARS = 128"
definition MAX_SAFE_PASSTHROUGH_VALUE_CHARS :: nat where "MAX_SAFE_PASSTHROUGH_VALUE_CHARS = 256"

definition CHAT_ONLY_DROPPED_OPTIONS :: "string list" where
  "CHAT_ONLY_DROPPED_OPTIONS =
     [''n'', ''seed'', ''user'', ''metadata'', ''logprobs'', ''top_logprobs'', ''logit_bias'', ''frequency_penalty'',
      ''presence_penalty'', ''safety_identifier'', ''stream_options'']"

definition SAFE_PASSTHROUGH_OPTIONS :: "string list" where
  "SAFE_PASSTHROUGH_OPTIONS = [''prompt_cache_key'']"

datatype ResponsesThinkingIntent = IntentEnabled | IntentDisabled | IntentEffort string

definition option_text :: "string \<Rightarrow> string \<Rightarrow> string" where
  "option_text name rest = ''request option '' @ quoted name @ rest"

definition bound_option_name :: "string \<Rightarrow> string" where
  "bound_option_name name =
     (if length name \<le> MAX_TRANSLATION_OPTION_NAME_CHARS then name
      else take MAX_TRANSLATION_OPTION_NAME_CHARS name @ ''...'')"

definition effort_suffixes :: "string list" where
  "effort_suffixes = [''-none'', ''-minimal'', ''-low'', ''-medium'', ''-high'', ''-xhigh'', ''-max'', ''-ultra'']"

definition supports_native_reasoning_effort :: "string \<Rightarrow> string \<Rightarrow> bool" where
  "supports_native_reasoning_effort model effort =
     (let m = to_ascii_lowercase (trim model);
          m1 = unwrap_or m (option_or (strip_prefix ''codex/'' m) (strip_prefix ''cx/'' m));
          base = (case List.map_filter (\<lambda>suffix. strip_suffix suffix m1) effort_suffixes of b # _ \<Rightarrow> b | [] \<Rightarrow> m1);
          codex_tier = (base \<in> {''gpt-5.6-sol'', ''gpt-5.6-terra'', ''gpt-5.6-luna'', ''gpt-6-astra''})
      in if effort = ''max'' then codex_tier else if effort = ''minimal'' then \<not> codex_tier else True)"

definition normalize_responses_effort :: "json \<Rightarrow> string \<Rightarrow> string \<Rightarrow> string + string" where
  "normalize_responses_effort v option_name model =
     rbind (ok_or (option_text option_name '' must be a string'') (as_str v)) (\<lambda>s.
     let effort = to_ascii_lowercase (trim s) in
     if effort \<notin> {''none'', ''minimal'', ''low'', ''medium'', ''high'', ''xhigh'', ''max'', ''ultra''} then
       Inl (option_text option_name '' must be one of none, minimal, low, medium, high, xhigh, max or ultra'')
     else if effort = ''minimal'' \<and> \<not> supports_native_reasoning_effort model ''minimal'' then Inr ''low''
     else if effort \<in> {''max'', ''ultra''} \<and> \<not> supports_native_reasoning_effort model ''max'' then Inr ''xhigh''
     else if effort = ''ultra'' then Inr ''max''
     else Inr effort)"

definition normalize_responses_reasoning :: "json \<Rightarrow> string \<Rightarrow> string + json" where
  "normalize_responses_reasoning v model =
     (case v of
        JString _ \<Rightarrow>
          rbind (normalize_responses_effort v ''reasoning'' model) (\<lambda>e. Inr (json_obj [(''effort'', JString e)]))
      | JObject m \<Rightarrow>
          (case map_of m ''effort'' of
             Some e \<Rightarrow>
               rbind (normalize_responses_effort e ''reasoning.effort'' model) (\<lambda>e.
                 Inr (JObject (map_insert ''effort'' (JString e) m)))
           | None \<Rightarrow> Inr (JObject m))
      | _ \<Rightarrow> Inl (option_text ''reasoning'' '' must be an object or string''))"

definition budget_effort :: "nat \<Rightarrow> string option" where
  "budget_effort budget =
     (if budget = 0 then None else if budget \<le> 1024 then Some ''low'' else if budget \<le> 10240 then Some ''medium''
      else if budget < 131072 then Some ''high'' else Some ''xhigh'')"

definition thinking_object_intent :: "string \<Rightarrow> json \<Rightarrow> string \<Rightarrow> string + ResponsesThinkingIntent" where
  "thinking_object_intent option_name v model =
     rbind (transpose_result (map_option (\<lambda>t.
              rbind (ok_or (option_text (option_name @ ''.type'') '' must be a string'') (as_str t)) (\<lambda>s.
                Inr (to_ascii_lowercase (trim s)))) (json_get v ''type''))) (\<lambda>explicit_type.
     rbind (transpose_result (map_option (\<lambda>e. normalize_responses_effort e (option_name @ ''.effort'') model)
              (json_get v ''effort''))) (\<lambda>explicit_effort.
     rbind (transpose_result (map_option (\<lambda>b.
              rbind (ok_or (option_text (option_name @ ''.budget_tokens'') '' must be a non-negative integer'') (as_u64 b))
                (\<lambda>n. Inr (budget_effort n))) (json_get v ''budget_tokens''))) (\<lambda>budget.
     let requested = option_or explicit_effort (Option.bind budget (\<lambda>b. b));
         disabled = explicit_type \<in> Some ` {''disabled'', ''disable'', ''off'', ''none''};
         enabled = explicit_type \<in> Some ` {''enabled'', ''enable'', ''on'', ''adaptive'', ''auto''}
     in if explicit_type \<noteq> None \<and> \<not> disabled \<and> \<not> enabled then
          Inl (option_text (option_name @ ''.type'') '' must be one of disabled, enabled or adaptive'')
        else if disabled then
          if requested \<noteq> None \<and> requested \<noteq> Some ''none''
          then Inl (option_text option_name '' disables thinking but also specifies an active effort'')
          else Inr IntentDisabled
        else Inr (case requested of Some e \<Rightarrow> IntentEffort e | None \<Rightarrow> IntentEnabled))))"

definition normalize_responses_thinking_intent :: "string \<Rightarrow> json \<Rightarrow> string \<Rightarrow> string + ResponsesThinkingIntent" where
  "normalize_responses_thinking_intent option_name v model =
     (case v of
        JBool enabled \<Rightarrow> Inr (if enabled then IntentEnabled else IntentDisabled)
      | JObject _ \<Rightarrow> thinking_object_intent option_name v model
      | _ \<Rightarrow> Inl (option_text option_name '' must be a boolean or object''))"

definition normalize_responses_response_format :: "json \<Rightarrow> string + json option" where
  "normalize_responses_response_format v =
     rbind (ok_or (option_text ''response_format'' '' must be an object'') (as_object v)) (\<lambda>_.
     rbind (ok_or (option_text ''response_format.type'' '' must be a string'') (get_str v ''type'')) (\<lambda>t.
     let format_type = to_ascii_lowercase (trim t) in
     if format_type = ''text'' then Inr None
     else if format_type = ''json_object'' then Inr (Some (json_obj [(''type'', JString ''json_object'')]))
     else if format_type = ''json_schema'' then
       rbind (ok_or (option_text ''response_format.json_schema'' '' must be an object'')
                (Option.bind (json_get v ''json_schema'') as_object)) (\<lambda>js.
       rbind (ok_or (option_text ''response_format.json_schema.schema'' '' is required'') (map_of js ''schema'')) (\<lambda>schema.
       let name = (case Option.bind (map_of js ''name'') as_str of
             Some n \<Rightarrow> if trim n = [] then ''codex_output_schema'' else n
           | None \<Rightarrow> ''codex_output_schema'')
       in Inr (Some (JObject (insert_some ''strict'' (\<lambda>x. x) (map_of js ''strict'')
            (insert_some ''description'' (\<lambda>x. x) (map_of js ''description'')
              (json_map_of [(''type'', JString ''json_schema''), (''name'', JString name), (''schema'', schema)])))))))
     else Inl (option_text ''response_format.type'' ('' is not supported: '' @ format_type))))"

text \<open>The options that may be given once, the diagnostics and the fields written while the options are read.\<close>

definition single_options :: "string list" where
  "single_options =
     [''effort'', ''reasoning_effort'', ''reasoning'', ''thinking'', ''enable_thinking'', ''verbosity'',
      ''response_format'', ''store'', ''parallel_tool_calls'']"

record option_scan =
  os_unsupported :: "string list"
  os_supported :: nat
  os_seen :: "(string \<times> json) list"
  os_target :: json_map

definition passthrough_value :: "string \<Rightarrow> json \<Rightarrow> string + string option" where
  "passthrough_value key v =
     (case v of
        JString t \<Rightarrow>
          if trim t = [] then Inl (option_text key '' must be a non-empty string'')
          else if \<not> list_all (\<lambda>c. code c < 128) t then Inl (option_text key '' must be an ASCII string'')
          else if MAX_SAFE_PASSTHROUGH_VALUE_CHARS < length t then
            Inl (option_text key ('' must be at most '' @ show_nat MAX_SAFE_PASSTHROUGH_VALUE_CHARS @ '' characters''))
          else Inr (Some t)
      | JNull \<Rightarrow> Inr None
      | _ \<Rightarrow> Inl (option_text key '' must be a string when provided''))"

definition scan_option :: "string \<times> json \<Rightarrow> option_scan \<Rightarrow> string + option_scan" where
  "scan_option kv st =
     (case kv of (key, v) \<Rightarrow>
      case find (eq_ignore_ascii_case key) single_options of
        Some name \<Rightarrow>
          if map_of (os_seen st) name \<noteq> None then Inl (option_text name '' was provided more than once'')
          else Inr (st\<lparr>os_supported := os_supported st + 1, os_seen := (name, v) # os_seen st\<rparr>)
      | None \<Rightarrow>
          if list_ex (eq_ignore_ascii_case key) CHAT_ONLY_DROPPED_OPTIONS
          then Inr (st\<lparr>os_supported := os_supported st + 1\<rparr>)
          else case find (eq_ignore_ascii_case key) SAFE_PASSTHROUGH_OPTIONS of
            Some name \<Rightarrow>
              rbind (passthrough_value key v) (\<lambda>t.
                Inr (st\<lparr>os_supported := os_supported st + 1, os_target := insert_some name JString t (os_target st)\<rparr>))
          | None \<Rightarrow>
              if length (os_unsupported st) < MAX_TRANSLATION_OPTION_DIAGNOSTICS
              then Inr (st\<lparr>os_unsupported := os_unsupported st @ [bound_option_name key]\<rparr>)
              else Inr st)"

fun scan_options :: "json_map \<Rightarrow> option_scan \<Rightarrow> string + option_scan" where
  "scan_options [] st = Inr st"
| "scan_options (kv # rest) st = rbind (scan_option kv st) (scan_options rest)"

definition thinking_intent :: "(string \<times> json) list \<Rightarrow> string \<Rightarrow> string + ResponsesThinkingIntent option" where
  "thinking_intent seen model =
     rbind (transpose_result (map_option (\<lambda>v. normalize_responses_thinking_intent ''thinking'' v model)
              (map_of seen ''thinking''))) (\<lambda>thinking.
     rbind (transpose_result (map_option (\<lambda>v. normalize_responses_thinking_intent ''enable_thinking'' v model)
              (map_of seen ''enable_thinking''))) (\<lambda>enable_thinking.
       if thinking \<noteq> None \<and> enable_thinking \<noteq> None \<and> thinking \<noteq> enable_thinking
          \<and> map_of seen ''reasoning'' = None \<and> map_of seen ''reasoning_effort'' = None \<and> map_of seen ''effort'' = None
       then Inl (''request options '' @ quoted ''thinking'' @ '' and '' @ quoted ''enable_thinking'' @ '' conflict'')
       else Inr (option_or thinking enable_thinking)))"

definition reasoning_option :: "(string \<times> json) list \<Rightarrow> string \<Rightarrow> ResponsesThinkingIntent option \<Rightarrow> string + json option" where
  "reasoning_option seen model intent =
     (let effort = (\<lambda>name v. rbind (normalize_responses_effort v name model) (\<lambda>e. Inr (Some (json_obj [(''effort'', JString e)]))))
      in case map_of seen ''reasoning'' of
           Some v \<Rightarrow> rbind (normalize_responses_reasoning v model) (\<lambda>r. Inr (Some r))
         | None \<Rightarrow>
             (case map_of seen ''reasoning_effort'' of
                Some v \<Rightarrow> effort ''reasoning_effort'' v
              | None \<Rightarrow>
                  (case map_of seen ''effort'' of
                     Some v \<Rightarrow> effort ''effort'' v
                   | None \<Rightarrow>
                       Inr (case intent of
                              Some IntentDisabled \<Rightarrow> Some (json_obj [(''effort'', JString ''none'')])
                            | Some (IntentEffort e) \<Rightarrow> Some (json_obj [(''effort'', JString e)])
                            | _ \<Rightarrow> None))))"

definition text_option :: "(string \<times> json) list \<Rightarrow> json_map \<Rightarrow> string + json_map" where
  "text_option seen target =
     rbind (case map_of seen ''verbosity'' of
              None \<Rightarrow> Inr target
            | Some v \<Rightarrow>
                rbind (ok_or (option_text ''verbosity'' '' must be a string'') (as_str v)) (\<lambda>s.
                  if s \<notin> {''low'', ''medium'', ''high''}
                  then Inl (option_text ''verbosity'' '' must be one of low, medium or high'')
                  else Inr (map_insert ''text'' (json_obj [(''verbosity'', JString s)]) target))) (\<lambda>target.
     rbind (case map_of seen ''response_format'' of None \<Rightarrow> Inr None | Some v \<Rightarrow> normalize_responses_response_format v)
       (\<lambda>format.
         Inr (case format of
                None \<Rightarrow> target
              | Some format \<Rightarrow>
                  (case Option.bind (map_of target ''text'') as_object of
                     Some m \<Rightarrow> map_insert ''text'' (JObject (map_insert ''format'' format m)) target
                   | None \<Rightarrow> map_insert ''text'' (json_obj [(''format'', format)]) target))))"

definition bool_option :: "string \<Rightarrow> (string \<times> json) list \<Rightarrow> json_map \<Rightarrow> string + json_map" where
  "bool_option name seen target =
     (case not_null (map_of seen name) of
        None \<Rightarrow> Inr target
      | Some v \<Rightarrow>
          rbind (ok_or (option_text name '' must be a boolean'') (as_bool v)) (\<lambda>b.
            Inr (map_insert name (JBool b) target)))"

definition apply_responses_metadata :: "json_map \<Rightarrow> json_map \<Rightarrow> string \<Rightarrow> string + json_map" where
  "apply_responses_metadata meta target model =
     (if meta = [] then Inr target
      else
        rbind (scan_options meta \<lparr>os_unsupported = [], os_supported = 0, os_seen = [], os_target = target\<rparr>) (\<lambda>st.
          if os_unsupported st \<noteq> [] then
            (let omitted = length meta - (length (os_unsupported st) + os_supported st) in
             Inl (''request options cannot be translated to Responses: '' @ join_with '', '' (os_unsupported st)
               @ (if 0 < omitted then '', and '' @ show_nat omitted @ '' more'' else [])))
          else
            rbind (thinking_intent (os_seen st) model) (\<lambda>intent.
            rbind (reasoning_option (os_seen st) model intent) (\<lambda>reasoning.
            rbind (text_option (os_seen st) (insert_some ''reasoning'' (\<lambda>x. x) reasoning (os_target st))) (\<lambda>target.
            rbind (bool_option ''store'' (os_seen st) target) (bool_option ''parallel_tool_calls'' (os_seen st)))))))"

section \<open>Blocks\<close>

fun contains_thinking_block :: "ContentBlock \<Rightarrow> bool" where
  "contains_thinking_block (Thinking _ _ _) = True"
| "contains_thinking_block (RedactedThinking _ _) = True"
| "contains_thinking_block (ToolResult _ content) = list_ex contains_thinking_block content"
| "contains_thinking_block _ = False"

fun contains_document :: "ContentBlock \<Rightarrow> bool" where
  "contains_document (Document _ _) = True"
| "contains_document (ToolResult _ content) = list_ex contains_document content"
| "contains_document _ = False"

fun is_non_text_media :: "ContentBlock \<Rightarrow> bool" where
  "is_non_text_media (Image _ _) = True"
| "is_non_text_media (Document _ _) = True"
| "is_non_text_media (GeneratedImage _ _) = True"
| "is_non_text_media _ = False"

definition INTERNAL_THINKING_BLOCK_TYPE :: string where
  "INTERNAL_THINKING_BLOCK_TYPE = ''__exoroute_internal_thinking_block''"

fun internal_thinking_block :: "ContentBlock \<Rightarrow> json" where
  "internal_thinking_block (Thinking t signature extra) =
     JObject (insert_some ''signature'' JString signature
       (json_map_of [(''type'', JString INTERNAL_THINKING_BLOCK_TYPE), (''kind'', JString ''thinking''),
          (''thinking'', JString t), (''extra'', JObject extra)]))"
| "internal_thinking_block (RedactedThinking data extra) =
     json_obj [(''type'', JString INTERNAL_THINKING_BLOCK_TYPE), (''kind'', JString ''redacted_thinking''),
       (''data'', JString data), (''extra'', JObject extra)]"
| "internal_thinking_block _ = JNull"

definition text_part :: "string \<Rightarrow> string \<Rightarrow> json" where
  "text_part kind t = json_obj [(''type'', JString kind), (''text'', JString t)]"

definition data_uri :: "string \<Rightarrow> string \<Rightarrow> string" where
  "data_uri media_type data = ''data:'' @ media_type @ '';base64,'' @ data"

definition joined_texts :: "ContentBlock list \<Rightarrow> string" where
  "joined_texts bs = join_with [CHR 0x0A] (block_texts bs)"

fun content_to_chat :: "ContentBlock \<Rightarrow> json option" where
  "content_to_chat (TextBlock t) = Some (text_part ''text'' t)"
| "content_to_chat (Image url detail) =
     Some (json_obj [(''type'', JString ''image_url''),
       (''image_url'', JObject (insert_some ''detail'' JString detail (json_map_of [(''url'', JString url)])))])"
| "content_to_chat (GeneratedImage data media_type) =
     Some (json_obj [(''type'', JString ''image_url''),
       (''image_url'', json_obj [(''url'', JString (data_uri media_type data))])])"
| "content_to_chat (Document _ _) = None"
| "content_to_chat (ToolResult _ content) = Some (text_part ''text'' (joined_texts content))"
| "content_to_chat (Reasoning t) = Some (text_part ''text'' t)"
| "content_to_chat (Thinking _ _ _) = None"
| "content_to_chat (RedactedThinking _ _) = None"
| "content_to_chat (ToolCall _ _ _) = None"

definition content_to_chat_request :: "ContentBlock \<Rightarrow> json option" where
  "content_to_chat_request b = (if is_thinking b then Some (internal_thinking_block b) else content_to_chat b)"

definition chat_content_part_is_empty :: "json \<Rightarrow> bool" where
  "chat_content_part_is_empty part =
     (case part of
        JString t \<Rightarrow> t = []
      | JObject _ \<Rightarrow> get_str part ''type'' = Some ''text'' \<and> get_str part ''text'' = Some []
      | _ \<Rightarrow> False)"

fun responses_document :: "codecs \<Rightarrow> DocumentSource \<Rightarrow> json_map" where
  "responses_document cd (DocUrl url) = json_map_of [(''type'', JString ''input_file''), (''file_url'', JString url)]"
| "responses_document cd (DocBase64 media_type data) =
     json_map_of [(''type'', JString ''input_file''), (''file_data'', JString (data_uri media_type data))]"
| "responses_document cd (DocText t) =
     json_map_of [(''type'', JString ''input_file''),
       (''file_data'', JString (data_uri ''text/plain'' (b64_encode cd (str_bytes t))))]"

definition responses_text :: "bool \<Rightarrow> string \<Rightarrow> json" where
  "responses_text assistant t = text_part (if assistant then ''output_text'' else ''input_text'') t"

fun content_to_responses_input :: "codecs \<Rightarrow> ContentBlock \<Rightarrow> bool \<Rightarrow> json option" where
  "content_to_responses_input cd (TextBlock t) assistant = Some (responses_text assistant t)"
| "content_to_responses_input cd (Image url detail) assistant =
     Some (if assistant then text_part ''output_text'' (''[Image: '' @ url @ '']'')
           else JObject (insert_some ''detail'' JString detail
                  (json_map_of [(''type'', JString ''input_image''), (''image_url'', JString url)])))"
| "content_to_responses_input cd (GeneratedImage data media_type) assistant =
     Some (if assistant then text_part ''output_text'' ''[Generated image]''
           else json_obj [(''type'', JString ''input_image''), (''image_url'', JString (data_uri media_type data))])"
| "content_to_responses_input cd (Document source filename) assistant =
     Some (if assistant
           then text_part ''output_text'' (case filename of Some f \<Rightarrow> ''[Document: '' @ f @ '']'' | None \<Rightarrow> ''[Document]'')
           else JObject (insert_some ''filename'' JString filename (responses_document cd source)))"
| "content_to_responses_input cd (ToolResult _ _) assistant = None"
| "content_to_responses_input cd (Reasoning t) assistant = Some (responses_text assistant t)"
| "content_to_responses_input cd (Thinking t s x) assistant = Some (internal_thinking_block (Thinking t s x))"
| "content_to_responses_input cd (RedactedThinking d x) assistant = Some (internal_thinking_block (RedactedThinking d x))"
| "content_to_responses_input cd (ToolCall _ _ _) assistant = None"

definition anthropic_content_block_is_empty :: "json \<Rightarrow> bool" where
  "anthropic_content_block_is_empty b = (get_str b ''type'' = Some ''text'' \<and> get_str b ''text'' = Some [])"

fun anthropic_document :: "DocumentSource \<Rightarrow> json_map" where
  "anthropic_document (DocUrl url) =
     json_map_of [(''type'', JString ''document''),
       (''source'', json_obj [(''type'', JString ''url''), (''url'', JString url)])]"
| "anthropic_document (DocBase64 media_type data) =
     json_map_of [(''type'', JString ''document''),
       (''source'', json_obj [(''type'', JString ''base64''), (''media_type'', JString media_type), (''data'', JString data)])]"
| "anthropic_document (DocText t) =
     json_map_of [(''type'', JString ''document''),
       (''source'', json_obj [(''type'', JString ''text''), (''media_type'', JString ''text/plain''), (''data'', JString t)])]"

definition anthropic_image :: "string \<Rightarrow> string \<Rightarrow> json" where
  "anthropic_image media_type data =
     json_obj [(''type'', JString ''image''),
       (''source'', json_obj [(''type'', JString ''base64''), (''media_type'', JString media_type), (''data'', JString data)])]"

definition anthropic_tool_use :: "string \<Rightarrow> string \<Rightarrow> json \<Rightarrow> json" where
  "anthropic_tool_use i name arguments =
     json_obj [(''type'', JString ''tool_use''), (''id'', JString i), (''name'', JString name), (''input'', arguments)]"

fun content_to_anthropic :: "ContentBlock \<Rightarrow> json option" where
  "content_to_anthropic (TextBlock t) = Some (text_part ''text'' t)"
| "content_to_anthropic (Image url _) =
     (if starts_with ''data:'' url then
        Option.bind (split_once (CHR '','') url) (\<lambda>(kind, data).
        Option.bind (strip_prefix ''data:'' kind) (\<lambda>k.
        Option.bind (strip_suffix '';base64'' k) (\<lambda>media_type. Some (anthropic_image media_type data))))
      else Some (json_obj [(''type'', JString ''image''),
             (''source'', json_obj [(''type'', JString ''url''), (''url'', JString url)])]))"
| "content_to_anthropic (GeneratedImage data media_type) = Some (anthropic_image media_type data)"
| "content_to_anthropic (Document source filename) =
     Some (JObject (insert_some ''title'' JString filename (anthropic_document source)))"
| "content_to_anthropic (ToolResult call_id content) =
     (let blocks = map (text_part ''text'') (block_texts content) in
      Some (json_obj [(''type'', JString ''tool_result''), (''tool_use_id'', JString call_id),
        (''content'', if list_ex (\<lambda>b. \<not> anthropic_content_block_is_empty b) blocks then JArray blocks else JString [])]))"
| "content_to_anthropic (ToolCall i name arguments) = Some (anthropic_tool_use i name arguments)"
| "content_to_anthropic (Reasoning t) = Some (text_part ''text'' t)"
| "content_to_anthropic (Thinking t signature extra) =
     Some (JObject (extend_fields extra (insert_some ''signature'' JString signature
       (json_map_of [(''type'', JString ''thinking''), (''thinking'', JString t)]))))"
| "content_to_anthropic (RedactedThinking data extra) =
     Some (JObject (extend_fields extra (json_map_of [(''type'', JString ''redacted_thinking''), (''data'', JString data)])))"

definition content_to_anthropic_request :: "ContentBlock \<Rightarrow> json option" where
  "content_to_anthropic_request b = (if is_thinking b then Some (internal_thinking_block b) else content_to_anthropic b)"

section \<open>Requests\<close>

definition encode_tool_choice :: "json \<Rightarrow> Protocol \<Rightarrow> string + json" where
  "encode_tool_choice v target =
     rbind (parse_tool_choice v) (\<lambda>c.
       case (target, c) of
         (Messages, ChoiceAuto) \<Rightarrow> Inr (json_obj [(''type'', JString ''auto'')])
       | (Messages, ChoiceNone) \<Rightarrow> Inl (''Anthropic Messages cannot represent tool_choice '' @ quoted ''none'')
       | (Messages, ChoiceRequired) \<Rightarrow> Inr (json_obj [(''type'', JString ''any'')])
       | (Messages, Named n) \<Rightarrow> Inr (json_obj [(''type'', JString ''tool''), (''name'', JString n)])
       | (ChatCompletions, Named n) \<Rightarrow>
           Inr (json_obj [(''type'', JString ''function''), (''function'', json_obj [(''name'', JString n)])])
       | (Responses, Named n) \<Rightarrow> Inr (json_obj [(''type'', JString ''function''), (''name'', JString n)])
       | (_, ChoiceAuto) \<Rightarrow> Inr (JString ''auto'')
       | (_, ChoiceNone) \<Rightarrow> Inr (JString ''none'')
       | (_, ChoiceRequired) \<Rightarrow> Inr (JString ''required''))"

definition copy_options :: "CanonicalRequest \<Rightarrow> json_map \<Rightarrow> bool \<Rightarrow> json_map" where
  "copy_options r target responses =
     (let t1 = insert_some ''temperature'' json_f64 (temperature r) target;
          t2 = insert_some ''top_p'' json_f64 (top_p r) t1;
          t3 = insert_some (if responses then ''max_output_tokens'' else ''max_tokens'') json_u64 (max_tokens r) t2
      in if stop_sequences r \<noteq> [] \<and> \<not> responses then map_insert ''stop'' (JArray (map JString (stop_sequences r))) t3 else t3)"

definition function_call_json :: "codecs \<Rightarrow> string \<Rightarrow> json \<Rightarrow> json" where
  "function_call_json cd name arguments =
     json_obj [(''name'', JString name), (''arguments'', JString (json_text_of cd arguments))]"

fun chat_call :: "codecs \<Rightarrow> ContentBlock \<Rightarrow> json option" where
  "chat_call cd (ToolCall i name arguments) =
     Some (json_obj [(''id'', JString i), (''type'', JString ''function''), (''function'', function_call_json cd name arguments)])"
| "chat_call cd _ = None"

fun reasoning_of_block :: "ContentBlock \<Rightarrow> string option" where
  "reasoning_of_block (Reasoning t) = Some t"
| "reasoning_of_block _ = None"

definition chat_parts :: "ContentBlock list \<Rightarrow> json list" where
  "chat_parts bs = filter (\<lambda>p. \<not> chat_content_part_is_empty p) (List.map_filter content_to_chat_request bs)"

definition chat_tool_message :: "string \<Rightarrow> ContentBlock list \<Rightarrow> json" where
  "chat_tool_message call_id content =
     json_obj [(''role'', JString ''tool''), (''tool_call_id'', JString call_id), (''content'', JString (joined_texts content))]"

definition chat_plain_message :: "codecs \<Rightarrow> Message \<Rightarrow> json" where
  "chat_plain_message cd m =
     (let assistant = (msg_role m = Assistant);
          visible = filter (\<lambda>b. \<not> assistant \<or> reasoning_of_block b = None) (msg_content m);
          calls = List.map_filter (chat_call cd) (msg_content m);
          parts = chat_parts visible;
          r0 = json_map_of [(''role'', JString (Role_as_str (msg_role m)))];
          r1 = (case visible of
                  [TextBlock t] \<Rightarrow> map_insert ''content'' (JString t) r0
                | _ \<Rightarrow> if parts \<noteq> [] then map_insert ''content'' (JArray parts) r0
                       else if calls = [] then map_insert ''content'' (JString []) r0 else r0);
          reasoning = join_with [CHR 0x0A] (List.map_filter reasoning_of_block (msg_content m));
          r2 = (if assistant \<and> reasoning \<noteq> [] then map_insert ''reasoning_content'' (JString reasoning) r1 else r1);
          r3 = (if calls \<noteq> [] then map_insert ''tool_calls'' (JArray calls) r2 else r2)
      in JObject (insert_some ''name'' JString (msg_name m) r3))"

definition encode_chat_message :: "codecs \<Rightarrow> Message \<Rightarrow> json" where
  "encode_chat_message cd m =
     (case msg_content m of
        ToolResult call_id content # _ \<Rightarrow>
          if msg_role m = Tool then chat_tool_message call_id content else chat_plain_message cd m
      | _ \<Rightarrow> chat_plain_message cd m)"

definition is_system :: "Message \<Rightarrow> bool" where
  "is_system m = (msg_role m \<in> {System, Developer})"

definition system_text :: "Message list \<Rightarrow> string" where
  "system_text ms = joined_texts (concat (map msg_content (filter is_system ms)))"

definition option_is_unsafe :: "string \<Rightarrow> bool" where
  "option_is_unsafe key =
     (let lower = to_ascii_lowercase key in
      \<not> list_ex (eq_ignore_ascii_case lower) SAFE_PASSTHROUGH_OPTIONS \<and>
      (contains ''key'' lower \<or> contains ''token'' lower \<or> contains ''authorization'' lower \<or> contains ''secret'' lower))"

fun copy_chat_metadata :: "json_map \<Rightarrow> json_map \<Rightarrow> string + json_map" where
  "copy_chat_metadata [] target = Inr target"
| "copy_chat_metadata ((key, v) # rest) target =
     (if option_is_unsafe key then Inl (option_text key '' cannot be forwarded safely'')
      else copy_chat_metadata rest (map_insert key v target))"

definition chat_tool :: "ToolDef \<Rightarrow> json" where
  "chat_tool t =
     json_obj [(''type'', JString ''function''),
       (''function'', json_obj [(''name'', JString (tool_name t)), (''description'', json_opt JString (tool_description t)),
          (''parameters'', tool_parameters t)])]"

definition insert_tools :: "(ToolDef \<Rightarrow> json) \<Rightarrow> ToolDef list \<Rightarrow> json_map \<Rightarrow> json_map" where
  "insert_tools f tools target = (if tools = [] then target else map_insert ''tools'' (JArray (map f tools)) target)"

definition insert_tool_choice :: "json option \<Rightarrow> Protocol \<Rightarrow> json_map \<Rightarrow> string + json_map" where
  "insert_tool_choice choice p target =
     (case choice of
        None \<Rightarrow> Inr target
      | Some c \<Rightarrow> rbind (encode_tool_choice c p) (\<lambda>v. Inr (map_insert ''tool_choice'' v target)))"

definition encode_chat_request :: "codecs \<Rightarrow> CanonicalRequest \<Rightarrow> string \<Rightarrow> string + json_map" where
  "encode_chat_request cd r model =
     (if list_ex (\<lambda>m. list_ex contains_document (msg_content m) \<or> is_system m \<and> list_ex is_non_text_media (msg_content m))
           (canonical_messages r)
      then Inl ''Chat Completions cannot represent document inputs or media in system/developer messages''
      else
        rbind (copy_chat_metadata (metadata r)
                 (json_map_of [(''model'', JString model), (''messages'', JArray (map (encode_chat_message cd) (canonical_messages r))),
                    (''stream'', JBool (canonical_stream r))])) (\<lambda>target.
        rbind (insert_tool_choice (tool_choice r) ChatCompletions
                 (insert_tools chat_tool (canonical_tools r) (copy_options r target False))) (\<lambda>target.
          Inr target)))"

text \<open>The items one block adds to the input of Responses, and the parts it adds to the content of its message.\<close>

fun responses_items :: "codecs \<Rightarrow> ContentBlock \<Rightarrow> json list" where
  "responses_items cd (ToolCall i name arguments) =
     [json_obj [(''type'', JString ''function_call''), (''call_id'', JString i), (''name'', JString name),
        (''arguments'', JString (json_text_of cd arguments))]]"
| "responses_items cd (ToolResult call_id content) =
     [json_obj [(''type'', JString ''function_call_output''), (''call_id'', JString call_id),
        (''output'', JString (joined_texts content))]]"
| "responses_items cd _ = []"

definition responses_part :: "codecs \<Rightarrow> bool \<Rightarrow> ContentBlock \<Rightarrow> json option" where
  "responses_part cd assistant b =
     (if assistant \<and> reasoning_of_block b \<noteq> None then None else content_to_responses_input cd b assistant)"

definition responses_message :: "codecs \<Rightarrow> Message \<Rightarrow> json list" where
  "responses_message cd m =
     (let parts = List.map_filter (responses_part cd (msg_role m = Assistant)) (msg_content m)
      in concat (map (responses_items cd) (msg_content m)) @
         (if parts = [] then []
          else [json_obj [(''role'', JString (if msg_role m = Tool then ''user'' else Role_as_str (msg_role m))),
                  (''content'', JArray parts)]]))"

definition responses_tool :: "ToolDef \<Rightarrow> json" where
  "responses_tool t =
     json_obj [(''type'', JString ''function''), (''name'', JString (tool_name t)),
       (''description'', json_opt JString (tool_description t)), (''parameters'', tool_parameters t)]"

definition encode_responses_request :: "codecs \<Rightarrow> CanonicalRequest \<Rightarrow> string \<Rightarrow> string + json_map" where
  "encode_responses_request cd r model =
     (if list_ex (\<lambda>m. is_system m \<and> list_ex is_non_text_media (msg_content m)) (canonical_messages r)
      then Inl ''Responses instructions cannot contain image or document blocks; place them in a user message''
      else
        let input = concat (map (responses_message cd) (filter (\<lambda>m. \<not> is_system m) (canonical_messages r)));
            instructions = system_text (canonical_messages r);
            t0 = json_map_of [(''model'', JString model), (''input'', JArray input), (''stream'', JBool (canonical_stream r))];
            t1 = (if instructions = [] then t0 else map_insert ''instructions'' (JString instructions) t0)
        in rbind (insert_tool_choice (tool_choice r) Responses (insert_tools responses_tool (canonical_tools r) t1)) (\<lambda>target.
           rbind (apply_responses_metadata (metadata r) target model) (\<lambda>target.
             Inr (copy_options r target True))))"

definition messages_tool :: "ToolDef \<Rightarrow> json" where
  "messages_tool t =
     json_obj [(''name'', JString (tool_name t)), (''description'', json_opt JString (tool_description t)),
       (''input_schema'', tool_parameters t)]"

definition anthropic_blocks :: "ContentBlock list \<Rightarrow> json list" where
  "anthropic_blocks bs = filter (\<lambda>b. \<not> anthropic_content_block_is_empty b) (List.map_filter content_to_anthropic_request bs)"

definition messages_message :: "Message \<Rightarrow> json" where
  "messages_message m =
     (let blocks = anthropic_blocks (msg_content m) in
      json_obj [(''role'', JString (if msg_role m = Tool then ''user'' else Role_as_str (msg_role m))),
        (''content'', if blocks = [] then JString [] else JArray blocks)])"

definition encode_messages_request :: "CanonicalRequest \<Rightarrow> string \<Rightarrow> string + json_map" where
  "encode_messages_request r model =
     (if list_ex (\<lambda>m. is_system m \<and> list_ex is_non_text_media (msg_content m)) (canonical_messages r)
      then Inl ''Anthropic system prompts cannot contain image or document blocks; place them in a user message''
      else
        let system = system_text (canonical_messages r);
            t0 = json_map_of [(''model'', JString model),
              (''messages'', JArray (map messages_message (filter (\<lambda>m. \<not> is_system m) (canonical_messages r)))),
              (''max_tokens'', json_u64 (unwrap_or 1024 (max_tokens r))), (''stream'', JBool (canonical_stream r))];
            t1 = (if system = [] then t0 else map_insert ''system'' (JString system) t0);
            t2 = insert_tools messages_tool (canonical_tools r) t1;
            t3 = (if stop_sequences r = [] then t2
                  else map_insert ''stop_sequences'' (JArray (map JString (stop_sequences r))) t2)
        in rbind (insert_tool_choice (tool_choice r) Messages t3) (\<lambda>target.
             Inr (insert_some ''top_p'' json_f64 (top_p r) (insert_some ''temperature'' json_f64 (temperature r) target))))"

definition option_untranslatable :: "string \<Rightarrow> bool" where
  "option_untranslatable key =
     (\<not> list_ex (eq_ignore_ascii_case key) CHAT_ONLY_DROPPED_OPTIONS \<and> \<not> list_ex (eq_ignore_ascii_case key) SAFE_PASSTHROUGH_OPTIONS)"

definition encode_openai_family_request :: "codecs \<Rightarrow> Protocol \<Rightarrow> CanonicalRequest \<Rightarrow> string \<Rightarrow> string + json_map" where
  "encode_openai_family_request cd p r model =
     (if p \<noteq> source_protocol r \<and> p \<noteq> Responses \<and> list_ex (\<lambda>(k, _). option_untranslatable k) (metadata r)
      then Inl ''request contains protocol-specific options that cannot be translated''
      else case p of
        ChatCompletions \<Rightarrow> encode_chat_request cd r model
      | Responses \<Rightarrow> encode_responses_request cd r model
      | Messages \<Rightarrow> encode_messages_request r model)"

end
