(* ===== verification/ThinkingPayload.thy ===== *)
theory ThinkingPayload
  imports RequestEncoding
begin

text \<open>
  Thinking blocks on their way to a provider (\<^verbatim>\<open>src/protocol/thinking.rs\<close>): the encoders leave a private marker in the
  content of a message, and finalizing the payload rewrites or removes it as the provider is configured.
\<close>

definition is_marker :: "json \<Rightarrow> bool" where
  "is_marker b = (get_str b ''type'' = Some INTERNAL_THINKING_BLOCK_TYPE)"

definition copy_thinking_extra :: "json \<Rightarrow> json_map \<Rightarrow> json_map" where
  "copy_thinking_extra source target =
     (case Option.bind (json_get source ''extra'') as_object of Some extra \<Rightarrow> extend_fields extra target | None \<Rightarrow> target)"

fun thinking_text :: "UpstreamProtocol \<Rightarrow> bool \<Rightarrow> string \<Rightarrow> json" where
  "thinking_text UpResponses assistant t = responses_text assistant t"
| "thinking_text GoogleGenerateContent assistant t = json_obj [(''text'', JString t)]"
| "thinking_text _ assistant t = text_part ''text'' t"

definition preserved_thinking :: "UpstreamProtocol \<Rightarrow> bool \<Rightarrow> json \<Rightarrow> json option" where
  "preserved_thinking p assistant b =
     (if get_str b ''kind'' = Some ''thinking'' then
        (case get_str b ''thinking'' of
           None \<Rightarrow> None
         | Some t \<Rightarrow>
             Some (if p = UpMessages then
                     JObject (copy_thinking_extra b (insert_some ''signature'' (\<lambda>x. x) (json_get b ''signature'')
                       (json_map_of [(''type'', JString ''thinking''), (''thinking'', JString t)])))
                   else thinking_text p assistant t))
      else if get_str b ''kind'' = Some ''redacted_thinking'' \<and> p = UpMessages then
        map_option (\<lambda>d. JObject (copy_thinking_extra b (json_map_of [(''type'', JString ''redacted_thinking''), (''data'', JString d)])))
          (get_str b ''data'')
      else None)"

definition replacement :: "UpstreamProtocol \<Rightarrow> ThinkingHandling \<Rightarrow> bool \<Rightarrow> json \<Rightarrow> json option" where
  "replacement p handling assistant b =
     (case handling of
        Remove \<Rightarrow> None
      | Preserve \<Rightarrow> preserved_thinking p assistant b
      | Override t \<Rightarrow> Some (thinking_text p assistant t))"

text \<open>What becomes of a block, and of a list of blocks: whether one was removed, and the blocks that stay.\<close>

definition rewrite_block :: "UpstreamProtocol \<Rightarrow> ThinkingHandling \<Rightarrow> bool \<Rightarrow> json \<Rightarrow> json option" where
  "rewrite_block p handling assistant b = (if is_marker b then replacement p handling assistant b else Some b)"

definition rewrite_content_blocks :: "UpstreamProtocol \<Rightarrow> ThinkingHandling \<Rightarrow> bool \<Rightarrow> json option \<Rightarrow> bool \<times> json option" where
  "rewrite_content_blocks p handling assistant blocks =
     (case blocks of
        Some (JArray bs) \<Rightarrow>
          (list_ex (\<lambda>b. rewrite_block p handling assistant b = None) bs,
           Some (JArray (List.map_filter (rewrite_block p handling assistant) bs)))
      | _ \<Rightarrow> (False, blocks))"

definition put_field :: "string \<Rightarrow> json option \<Rightarrow> json_map \<Rightarrow> json_map" where
  "put_field k v m = insert_some k (\<lambda>x. x) v m"

text \<open>One message: whether something was removed from it, and the message unless it is dropped.\<close>

definition rewrite_message ::
  "string \<Rightarrow> string option \<Rightarrow> UpstreamProtocol \<Rightarrow> ThinkingHandling \<Rightarrow> json \<Rightarrow> bool \<times> json option" where
  "rewrite_message content_key preserve_empty_field p handling message =
     (case as_object message of
        None \<Rightarrow> (False, Some message)
      | Some m \<Rightarrow>
          (case rewrite_content_blocks p handling (p = UpResponses \<and> get_str message ''role'' = Some ''assistant'')
                  (map_of m content_key) of
             (removed, content) \<Rightarrow>
               (let m1 = put_field content_key content m in
                (removed,
                 if removed \<and> content = Some (JArray []) \<and>
                    (case preserve_empty_field of None \<Rightarrow> True | Some f \<Rightarrow> map_of m1 f = None)
                 then None else Some (JObject m1)))))"

definition rewrite_messages_field ::
  "json option \<Rightarrow> string \<Rightarrow> string option \<Rightarrow> UpstreamProtocol \<Rightarrow> ThinkingHandling \<Rightarrow> bool \<times> json option" where
  "rewrite_messages_field messages content_key preserve_empty_field p handling =
     (case messages of
        Some (JArray ms) \<Rightarrow>
          (let rs = map (rewrite_message content_key preserve_empty_field p handling) ms;
               ms1 = List.map_filter snd rs
           in (list_ex fst rs \<and> ms1 = [], Some (JArray ms1)))
      | _ \<Rightarrow> (False, messages))"

definition rewrite_system_instruction :: "UpstreamProtocol \<Rightarrow> ThinkingHandling \<Rightarrow> json_map \<Rightarrow> json_map" where
  "rewrite_system_instruction p handling body =
     (case Option.bind (map_of body ''systemInstruction'') as_object of
        None \<Rightarrow> body
      | Some m \<Rightarrow>
          (case rewrite_content_blocks p handling False (map_of m ''parts'') of
             (removed, parts) \<Rightarrow>
               if removed \<and> parts = Some (JArray []) then filter (\<lambda>(k, _). k \<noteq> ''systemInstruction'') body
               else map_insert ''systemInstruction'' (JObject (put_field ''parts'' parts m)) body))"

definition messages_field :: "UpstreamProtocol \<Rightarrow> string \<times> string \<times> string option" where
  "messages_field p =
     (case p of
        UpChatCompletions \<Rightarrow> (''messages'', ''content'', Some ''tool_calls'')
      | UpMessages \<Rightarrow> (''messages'', ''content'', None)
      | UpResponses \<Rightarrow> (''input'', ''content'', None)
      | GoogleGenerateContent \<Rightarrow> (''contents'', ''parts'', Some ''functionCall''))"

definition finalize_thinking_payload :: "json_map \<Rightarrow> UpstreamProtocol \<Rightarrow> ThinkingHandling \<Rightarrow> string + json_map" where
  "finalize_thinking_payload body p handling =
     (case messages_field p of (field, content_key, preserve_empty_field) \<Rightarrow>
      case rewrite_messages_field (map_of body field) content_key preserve_empty_field p handling of
        (request_is_empty, messages) \<Rightarrow>
          (let body1 = put_field field messages body;
               body2 = (if p = GoogleGenerateContent then rewrite_system_instruction p handling body1 else body1)
           in if handling = Remove \<and> request_is_empty then Inl ''removing thinking blocks left no provider messages''
              else Inr body2))"

end
