(* ===== verification/GoogleCodec.thy ===== *)
theory GoogleCodec
  imports ThinkingPayload
begin

text \<open>
  Google's Generate Content (\<^verbatim>\<open>src/protocol/google/\<close>): encoding a request and decoding a response.
\<close>

section \<open>Shared\<close>

definition MAX_GOOGLE_FUNCTION_NAME_BYTES :: nat where "MAX_GOOGLE_FUNCTION_NAME_BYTES = 128"

definition validate_function_name :: "string \<Rightarrow> string + unit" where
  "validate_function_name name =
     (if name \<noteq> [] \<and> str_len name \<le> MAX_GOOGLE_FUNCTION_NAME_BYTES \<and>
         list_all (\<lambda>c. is_ascii_alphanumeric c \<or> c \<in> set ''_-:.'') name
      then Inr ()
      else Inl (''Google function name must use ASCII letters, digits, underscore, dash, colon, or dot and be at most ''
        @ show_nat MAX_GOOGLE_FUNCTION_NAME_BYTES @ '' bytes''))"

definition misplaced_call :: "string + 'a" where
  "misplaced_call = Inl ''Google function calls are valid only in assistant messages''"

fun collect_call_names :: "Role \<Rightarrow> ContentBlock list \<Rightarrow> (string \<times> string) list \<Rightarrow> string + (string \<times> string) list" where
  "collect_call_names role [] names = Inr names"
| "collect_call_names role (ToolCall i name _ # rest) names =
     (if role \<noteq> Assistant then misplaced_call
      else
        rbind (validate_function_name name) (\<lambda>_.
          if i = [] then collect_call_names role rest names
          else if map_of names i \<noteq> None then Inl (''Google conversation repeats tool call id '' @ quoted i)
          else collect_call_names role rest (map_insert i name names)))"
| "collect_call_names role (_ # rest) names = collect_call_names role rest names"

fun tool_call_names_from :: "Message list \<Rightarrow> (string \<times> string) list \<Rightarrow> string + (string \<times> string) list" where
  "tool_call_names_from [] names = Inr names"
| "tool_call_names_from (m # ms) names = rbind (collect_call_names (msg_role m) (msg_content m) names) (tool_call_names_from ms)"

definition tool_call_names :: "Message list \<Rightarrow> string + (string \<times> string) list" where
  "tool_call_names ms = tool_call_names_from ms []"

fun tool_result_text :: "ContentBlock list \<Rightarrow> string \<Rightarrow> string + string" where
  "tool_result_text [] acc = Inr acc"
| "tool_result_text (b # rest) acc =
     (let add = (\<lambda>t. tool_result_text rest (if acc = [] then t else acc @ CHR 0x0A # t)) in
      case b of
        TextBlock t \<Rightarrow> add t
      | Reasoning t \<Rightarrow> add t
      | Thinking t _ _ \<Rightarrow> add t
      | RedactedThinking _ _ \<Rightarrow> Inl ''Google function responses cannot preserve redacted thinking blocks''
      | _ \<Rightarrow> Inl ''Google function responses can preserve text results only'')"

definition encode_tool_result :: "codecs \<Rightarrow> ContentBlock list \<Rightarrow> string + json" where
  "encode_tool_result cd content =
     rbind (tool_result_text content []) (\<lambda>t.
       case json_from_str cd t of
         Some v \<Rightarrow> if is_object v then Inr v else Inr (json_obj [(''content'', JString t)])
       | None \<Rightarrow> Inr (json_obj [(''content'', JString t)]))"

definition google_choice_mode :: "string \<Rightarrow> string option" where
  "google_choice_mode k =
     (if k = ''auto'' then Some ''AUTO'' else if k = ''none'' then Some ''NONE''
      else if k \<in> {''required'', ''any''} then Some ''ANY'' else None)"

definition google_named_choice :: "json \<Rightarrow> string + string" where
  "google_named_choice choice =
     (case Option.bind (option_or (Option.bind (json_get choice ''function'') (\<lambda>f. json_get f ''name'')) (json_get choice ''name'')) as_str of
        Some n \<Rightarrow> if trim n = [] then Inl ''named tool_choice requires a function name'' else Inr n
      | None \<Rightarrow> Inl ''named tool_choice requires a function name'')"

definition google_choice :: "json \<Rightarrow> string + string \<times> string option" where
  "google_choice choice =
     (case as_str choice of
        Some s \<Rightarrow> rbind (ok_or ''unsupported tool_choice value for Google'' (google_choice_mode s)) (\<lambda>m. Inr (m, None))
      | None \<Rightarrow>
          rbind (ok_or ''tool_choice must be a supported string or object'' (get_str choice ''type'')) (\<lambda>kind.
            case google_choice_mode kind of
              Some m \<Rightarrow> Inr (m, None)
            | None \<Rightarrow>
                if kind \<in> {''function'', ''tool''} then rbind (google_named_choice choice) (\<lambda>n. Inr (''ANY'', Some n))
                else Inl ''unsupported tool_choice object for Google''))"

definition google_encode_tool_choice :: "json \<Rightarrow> ToolDef list \<Rightarrow> string + json" where
  "google_encode_tool_choice choice tools =
     rbind (google_choice choice) (\<lambda>(mode, named).
       case named of
         None \<Rightarrow> Inr (json_obj [(''functionCallingConfig'', json_obj [(''mode'', JString mode)])])
       | Some n \<Rightarrow>
           if \<not> list_ex (\<lambda>t. tool_name t = n) tools then Inl (''tool_choice references undeclared function '' @ quoted n)
           else Inr (json_obj [(''functionCallingConfig'',
                  json_obj [(''mode'', JString mode), (''allowedFunctionNames'', JArray [JString n])])]))"

datatype InlineKind = InlineImage | InlinePdf

definition classify_inline_mime :: "string \<Rightarrow> InlineKind option" where
  "classify_inline_mime mime =
     (if eq_ignore_ascii_case mime ''application/pdf'' then Some InlinePdf
      else if list_ex (eq_ignore_ascii_case mime) [''image/png'', ''image/jpeg'', ''image/webp'', ''image/heic'', ''image/heif'']
      then Some InlineImage
      else None)"

definition is_base64_char :: "char \<Rightarrow> bool" where
  "is_base64_char c = (is_ascii_alphanumeric c \<or> c = CHR ''+'' \<or> c = CHR ''/'')"

definition valid_base64 :: "string \<Rightarrow> bool" where
  "valid_base64 v =
     (let data = takeWhile (\<lambda>c. c \<noteq> CHR ''='') v; padding = dropWhile (\<lambda>c. c \<noteq> CHR ''='') v; pl = length padding in
      str_len v \<noteq> 0 \<and> str_len v mod 4 \<noteq> 1 \<and>
      (padding = [] \<or>
       pl \<le> 2 \<and> str_len v mod 4 = 0 \<and> list_all (\<lambda>c. c = CHR ''='') padding \<and>
       (pl = 1 \<longrightarrow> str_len data mod 4 = 3) \<and> (pl = 2 \<longrightarrow> str_len data mod 4 = 2)) \<and>
      list_all is_base64_char data)"

definition validate_inline_data :: "string \<Rightarrow> string \<Rightarrow> InlineKind \<Rightarrow> string + unit" where
  "validate_inline_data mime data expected =
     (if classify_inline_mime mime \<noteq> Some expected then
        Inl (case expected of
               InlineImage \<Rightarrow> ''unsupported Google inline image MIME type '' @ quoted mime
             | InlinePdf \<Rightarrow> ''unsupported Google inline document MIME type '' @ quoted mime)
      else if \<not> valid_base64 data then Inl ''Google inline media must contain valid base64 data''
      else Inr ())"

definition image_data_uri :: "string \<Rightarrow> string + string \<times> string" where
  "image_data_uri v =
     rbind (ok_or ''Google image input requires an inline base64 data URI; remote URLs are unsupported'' (strip_prefix ''data:'' v)) (\<lambda>uri.
     rbind (ok_or ''Google image data URI is malformed'' (split_once (CHR '','') uri)) (\<lambda>(header, data).
     rbind (ok_or ''Google image data URI must use base64 encoding'' (strip_suffix '';base64'' header)) (\<lambda>mime.
     rbind (validate_inline_data (to_ascii_lowercase mime) data InlineImage) (\<lambda>_.
       Inr (take (length mime) header, data)))))"

section \<open>Requests\<close>

definition google_text :: "string \<Rightarrow> json" where
  "google_text t = json_obj [(''text'', JString t)]"

definition inline_part :: "string \<Rightarrow> string \<Rightarrow> json" where
  "inline_part mime data = json_obj [(''inlineData'', json_obj [(''mimeType'', JString mime), (''data'', JString data)])]"

definition google_system_part :: "ContentBlock \<Rightarrow> string + json" where
  "google_system_part b =
     (case b of
        TextBlock t \<Rightarrow> Inr (google_text t)
      | Reasoning t \<Rightarrow> Inr (google_text t)
      | Thinking _ _ _ \<Rightarrow> Inr (internal_thinking_block b)
      | RedactedThinking _ _ \<Rightarrow> Inr (internal_thinking_block b)
      | ToolCall _ _ _ \<Rightarrow> Inl ''Google system instructions cannot contain tool calls or results''
      | ToolResult _ _ \<Rightarrow> Inl ''Google system instructions cannot contain tool calls or results''
      | _ \<Rightarrow> Inl ''Google system instructions support text only; move media to a user message'')"

definition google_document :: "DocumentSource \<Rightarrow> string option \<Rightarrow> string + json" where
  "google_document source filename =
     (case source of
        DocUrl _ \<Rightarrow> Inl ''Google Generate Content cannot forward remote document URLs''
      | DocText t \<Rightarrow>
          if filename \<noteq> None then Inl ''Google Generate Content cannot preserve a filename for text documents''
          else Inr (google_text t)
      | DocBase64 media_type data \<Rightarrow>
          if \<not> eq_ignore_ascii_case media_type ''application/pdf'' then Inl ''Google inline document input supports PDF files only''
          else rbind (validate_inline_data media_type data InlinePdf) (\<lambda>_. Inr (inline_part ''application/pdf'' data)))"

definition google_call :: "string \<Rightarrow> string \<Rightarrow> json \<Rightarrow> string + json" where
  "google_call i name arguments =
     rbind (validate_function_name name) (\<lambda>_.
       if \<not> is_object arguments then Inl (''arguments for Google function '' @ quoted name @ '' must be a JSON object'')
       else
         let call = json_map_of [(''name'', JString name), (''args'', arguments)] in
         Inr (json_obj [(''functionCall'', JObject (if i = [] then call else map_insert ''id'' (JString i) call))]))"

definition google_result :: "codecs \<Rightarrow> (string \<times> string) list \<Rightarrow> string \<Rightarrow> ContentBlock list \<Rightarrow> string + json" where
  "google_result cd names call_id content =
     rbind (ok_or (''Google tool result references unknown call '' @ quoted call_id) (map_of names call_id)) (\<lambda>name.
     rbind (encode_tool_result cd content) (\<lambda>response.
     let r = json_map_of [(''name'', JString name), (''response'', response)] in
       Inr (json_obj [(''functionResponse'', JObject (if call_id = [] then r else map_insert ''id'' (JString call_id) r))])))"

definition google_part :: "codecs \<Rightarrow> (string \<times> string) list \<Rightarrow> Role \<Rightarrow> ContentBlock \<Rightarrow> string + json" where
  "google_part cd names role b =
     (let results_only = Inl ''Google tool messages must contain tool results only'';
          no_media = Inl ''Google tool messages cannot contain media''
      in case b of
           TextBlock t \<Rightarrow> if role = Tool then results_only else Inr (google_text t)
         | Reasoning t \<Rightarrow> if role = Tool then results_only else Inr (google_text t)
         | Thinking _ _ _ \<Rightarrow> if role = Tool then results_only else Inr (internal_thinking_block b)
         | RedactedThinking _ _ \<Rightarrow> if role = Tool then results_only else Inr (internal_thinking_block b)
         | Image url _ \<Rightarrow>
             if role = Tool then no_media else rbind (image_data_uri url) (\<lambda>(mime, data). Inr (inline_part mime data))
         | GeneratedImage data media_type \<Rightarrow>
             if role = Tool then no_media
             else rbind (validate_inline_data media_type data InlineImage) (\<lambda>_. Inr (inline_part media_type data))
         | Document source filename \<Rightarrow>
             if role = Tool then Inl ''Google tool messages cannot contain documents'' else google_document source filename
         | ToolCall i name arguments \<Rightarrow> if role \<noteq> Assistant then misplaced_call else google_call i name arguments
         | ToolResult call_id content \<Rightarrow>
             if role \<noteq> Tool then Inl ''Google function responses must be in tool-role messages''
             else google_result cd names call_id content)"

fun google_messages ::
  "codecs \<Rightarrow> (string \<times> string) list \<Rightarrow> Message list \<Rightarrow> json list \<Rightarrow> json list \<Rightarrow> string + json list \<times> json list" where
  "google_messages cd names [] system_parts contents = Inr (system_parts, contents)"
| "google_messages cd names (m # ms) system_parts contents =
     (if msg_name m \<noteq> None then Inl ''Google Generate Content cannot represent message names''
      else if is_system m then
        rbind (collect_results google_system_part (msg_content m)) (\<lambda>ps.
          google_messages cd names ms (system_parts @ ps) contents)
      else
        rbind (collect_results (google_part cd names (msg_role m)) (msg_content m)) (\<lambda>parts.
          google_messages cd names ms system_parts
            (contents @ (if parts = [] then []
               else [json_obj [(''role'', JString (if msg_role m \<in> {Tool, User} then ''user'' else ''model'')),
                      (''parts'', JArray parts)]]))))"

definition google_declaration :: "ToolDef \<Rightarrow> string + json" where
  "google_declaration t =
     rbind (validate_function_name (tool_name t)) (\<lambda>_.
       if \<not> is_object (tool_parameters t)
       then Inl (''parameters for Google function '' @ quoted (tool_name t) @ '' must be a JSON object'')
       else Inr (JObject (insert_some ''description'' JString (tool_description t)
              (json_map_of [(''name'', JString (tool_name t)), (''parameters'', tool_parameters t)]))))"

definition disabled_thinking :: json where
  "disabled_thinking = json_obj [(''thinkingBudget'', json_u64 0)]"

definition google_penalty :: "string \<Rightarrow> string \<Rightarrow> json \<Rightarrow> json_map \<Rightarrow> string + json_map" where
  "google_penalty name field v config =
     (case as_f64 v of
        Some x \<Rightarrow>
          (let n = f32_of_f64 x in
           if \<not> f64_finite n \<or> \<not> f64_between (- 2) 2 n then Inl (name @ '' must be between -2 and 2'')
           else Inr (map_insert field (json_f64 n) config))
      | None \<Rightarrow> if v = JNull then Inr config else Inl (name @ '' must be a number''))"

definition google_format_text :: "string \<Rightarrow> json_map \<Rightarrow> string + json_map" where
  "google_format_text s config =
     (let t = to_ascii_lowercase (trim s) in
      if t = ''text'' then Inr config
      else if t \<in> {''json'', ''json_object''} then Inr (map_insert ''responseMimeType'' (JString ''application/json'') config)
      else Inl (''unsupported response_format type for Google: '' @ t))"

definition google_format_object :: "json \<Rightarrow> json_map \<Rightarrow> string + json_map" where
  "google_format_object v config =
     (let t = to_ascii_lowercase (trim (unwrap_or ''text'' (get_str v ''type'')));
          json_config = map_insert ''responseMimeType'' (JString ''application/json'') config
      in if t = ''text'' then Inr config
         else if t = ''json_object'' then Inr json_config
         else if t = ''json_schema'' then
           Inr (insert_some ''responseSchema'' (\<lambda>x. x)
             (Option.bind (json_get v ''json_schema'') (\<lambda>js. json_get js ''schema'')) json_config)
         else Inl (''unsupported response_format type for Google: '' @ t))"

definition google_response_format :: "json \<Rightarrow> json_map \<Rightarrow> string + json_map" where
  "google_response_format v config =
     (case as_str v of
        Some s \<Rightarrow> google_format_text s config
      | None \<Rightarrow>
          if is_object v then google_format_object v config
          else if v = JNull then Inr config
          else Inl (option_text ''response_format'' '' must be an object or string''))"

definition google_effort :: "json \<Rightarrow> json_map \<Rightarrow> json_map" where
  "google_effort v config =
     (case as_str v of
        None \<Rightarrow> config
      | Some s \<Rightarrow>
          (let effort = to_ascii_lowercase (trim s) in
           if effort = ''none'' then map_insert ''thinkingConfig'' disabled_thinking config
           else if effort \<in> {''low'', ''medium'', ''high''} then
             (case unwrap_or (json_obj []) (map_of config ''thinkingConfig'') of
                JObject tc \<Rightarrow> map_insert ''thinkingConfig'' (JObject (map_insert ''thinkingLevel'' (JString effort) tc)) config
              | tc \<Rightarrow> map_insert ''thinkingConfig'' tc config)
           else config))"

definition google_thinking :: "json \<Rightarrow> json_map \<Rightarrow> json_map" where
  "google_thinking v config =
     (if is_object v then
        (case Option.bind (option_or (json_get v ''budget_tokens'') (json_get v ''budget'')) as_u64 of
           Some budget \<Rightarrow> map_insert ''thinkingConfig'' (json_obj [(''thinkingBudget'', json_u64 budget)]) config
         | None \<Rightarrow>
             if get_str v ''type'' = Some ''disabled'' then map_insert ''thinkingConfig'' disabled_thinking config else config)
      else if as_bool v = Some False then map_insert ''thinkingConfig'' disabled_thinking config
      else config)"

definition google_dropped_options :: "string list" where
  "google_dropped_options =
     [''n'', ''seed'', ''user'', ''metadata'', ''logprobs'', ''top_logprobs'', ''logit_bias'', ''safety_identifier'',
      ''stream_options'', ''parallel_tool_calls'', ''store'', ''service_tier'', ''prompt_cache_key'',
      ''prompt_cache_keys'', ''echo'', ''verbosity'']"

text \<open>One option: \<open>None\<close> when Google has no place for it.\<close>

definition google_option :: "string \<Rightarrow> json \<Rightarrow> json_map \<Rightarrow> (string + json_map) option" where
  "google_option lower v config =
     (if lower \<in> set google_dropped_options then Some (Inr config)
      else if lower \<in> {''frequency_penalty'', ''frequencypenalty''} then
        Some (google_penalty ''frequency_penalty'' ''frequencyPenalty'' v config)
      else if lower \<in> {''presence_penalty'', ''presencepenalty''} then
        Some (google_penalty ''presence_penalty'' ''presencePenalty'' v config)
      else if lower \<in> {''top_k'', ''topk''} then
        Some (Inr (case as_u64 v of Some k \<Rightarrow> if 0 < k then map_insert ''topK'' (json_u64 k) config else config | None \<Rightarrow> config))
      else if lower \<in> {''response_format'', ''responseformat''} then Some (google_response_format v config)
      else if lower \<in> {''reasoning_effort'', ''reasoningeffort'', ''effort''} then Some (Inr (google_effort v config))
      else if lower \<in> {''enable_thinking'', ''enablethinking''} then
        Some (Inr (if as_bool v = Some False then map_insert ''thinkingConfig'' disabled_thinking config else config))
      else if lower = ''thinking'' then Some (Inr (google_thinking v config))
      else None)"

fun google_options :: "json_map \<Rightarrow> string list \<Rightarrow> json_map \<Rightarrow> string + string list \<times> json_map" where
  "google_options [] unsupported config = Inr (unsupported, config)"
| "google_options ((key, v) # rest) unsupported config =
     (case google_option (to_ascii_lowercase key) v config of
        None \<Rightarrow> google_options rest (unsupported @ [key]) config
      | Some r \<Rightarrow> rbind r (google_options rest unsupported))"

definition apply_google_metadata :: "json_map \<Rightarrow> json_map \<Rightarrow> string + json_map" where
  "apply_google_metadata meta config =
     rbind (google_options meta [] config) (\<lambda>(unsupported, config).
       if unsupported \<noteq> []
       then Inl (''Google Generate Content cannot preserve protocol-specific request metadata: '' @ join_with '', '' unsupported)
       else Inr config)"

definition google_number :: "string \<Rightarrow> string \<Rightarrow> nat \<Rightarrow> 64 word option \<Rightarrow> json_map \<Rightarrow> string + json_map" where
  "google_number name field maximum x config =
     (case x of
        None \<Rightarrow> Inr config
      | Some w \<Rightarrow>
          if \<not> f64_finite w \<or> \<not> f64_between 0 (int maximum) w
          then Inl (name @ '' must be between 0 and '' @ show_nat maximum)
          else Inr (map_insert field (json_f64 w) config))"

definition google_generation_config :: "CanonicalRequest \<Rightarrow> string + json_map" where
  "google_generation_config r =
     rbind (google_number ''temperature'' ''temperature'' 2 (temperature r) []) (\<lambda>c.
     rbind (google_number ''top_p'' ''topP'' 1 (top_p r) c) (\<lambda>c.
     rbind (case max_tokens r of
              None \<Rightarrow> Inr c
            | Some n \<Rightarrow>
                if n = 0 then Inl ''max_tokens must be greater than zero''
                else Inr (map_insert ''maxOutputTokens'' (json_u64 n) c)) (\<lambda>c.
       apply_google_metadata (metadata r)
         (if stop_sequences r = [] then c else map_insert ''stopSequences'' (JArray (map JString (stop_sequences r))) c))))"

definition google_encode_request :: "codecs \<Rightarrow> CanonicalRequest \<Rightarrow> string \<Rightarrow> string + json_map" where
  "google_encode_request cd r model =
     (if trim model = [] then Inl ''Google model is required''
      else if canonical_messages r = [] then Inl ''at least one message is required''
      else
        rbind (tool_call_names (canonical_messages r)) (\<lambda>names.
        rbind (google_messages cd names (canonical_messages r) [] []) (\<lambda>(system_parts, contents).
          if contents = [] then Inl ''Google Generate Content requires at least one non-system message''
          else
            let b0 = json_map_of [(''contents'', JArray contents)];
                b1 = (if system_parts = [] then b0
                      else map_insert ''systemInstruction'' (json_obj [(''parts'', JArray system_parts)]) b0)
            in rbind (collect_results google_declaration (canonical_tools r)) (\<lambda>declarations.
               let b2 = (if canonical_tools r = [] then b1
                     else map_insert ''tools'' (JArray [json_obj [(''functionDeclarations'', JArray declarations)]]) b1)
               in rbind (case tool_choice r of
                           None \<Rightarrow> Inr b2
                         | Some choice \<Rightarrow>
                             if canonical_tools r = [] then Inl ''Google tool_choice requires at least one declared tool''
                             else rbind (google_encode_tool_choice choice (canonical_tools r)) (\<lambda>v.
                                    Inr (map_insert ''toolConfig'' v b2))) (\<lambda>b3.
                  rbind (google_generation_config r) (\<lambda>config.
                    Inr (if config = [] then b3 else map_insert ''generationConfig'' (JObject config) b3)))))))"

section \<open>Responses\<close>

definition has_tool_call :: "ContentBlock list \<Rightarrow> bool" where
  "has_tool_call bs = list_ex (\<lambda>b. case b of ToolCall _ _ _ \<Rightarrow> True | _ \<Rightarrow> False) bs"

definition normalize_finish_reason :: "string \<Rightarrow> ContentBlock list \<Rightarrow> string + string" where
  "normalize_finish_reason reason content =
     (if reason = ''STOP'' then Inr (if has_tool_call content then ''tool_calls'' else ''stop'')
      else if reason = ''MAX_TOKENS'' then Inr ''length''
      else if reason \<in> {''SAFETY'', ''RECITATION'', ''BLOCKLIST'', ''PROHIBITED_CONTENT'', ''SPII'', ''IMAGE_SAFETY'',
        ''IMAGE_PROHIBITED_CONTENT'', ''IMAGE_RECITATION'', ''MODEL_ARMOR'', ''LANGUAGE''} then Inr ''content_filter''
      else if reason \<in> {''MALFORMED_FUNCTION_CALL'', ''UNEXPECTED_TOOL_CALL''} then
        Inl (''Google provider returned finish reason '' @ quoted reason)
      else if reason \<in> {''OTHER'', ''NO_IMAGE'', ''IMAGE_OTHER''} then Inr ''stop''
      else Inl (''Google provider returned unknown finish reason '' @ quoted reason))"

definition parse_google_usage :: "json option \<Rightarrow> Usage option" where
  "parse_google_usage v =
     Option.bind v (\<lambda>usage.
     Option.bind (get_u64 usage ''promptTokenCount'') (\<lambda>inp.
     Option.bind
       (case get_u64 usage ''candidatesTokenCount'' of
          Some n \<Rightarrow> Some (sat_add u64_max n (unwrap_or 0 (get_u64 usage ''thoughtsTokenCount'')))
        | None \<Rightarrow> map_option (\<lambda>total. total - inp) (get_u64 usage ''totalTokenCount'')) (\<lambda>outp.
       Some \<lparr>input_tokens = inp, output_tokens = outp, cached_tokens = unwrap_or 0 (parse_cached_input_tokens usage),
             cost_micro_usd = None, cache_input_tokens = inp\<rparr>)))"

definition decode_google_call :: "nat \<Rightarrow> json \<Rightarrow> string + ContentBlock" where
  "decode_google_call index call =
     rbind (case get_str call ''name'' of
              Some n \<Rightarrow> if trim n = [] then Inl ''Google function call has no name'' else Inr n
            | None \<Rightarrow> Inl ''Google function call has no name'') (\<lambda>name.
     rbind (validate_function_name name) (\<lambda>_.
     let arguments = unwrap_or (json_obj []) (json_get call ''args'') in
       if \<not> is_object arguments then Inl (''arguments for Google function '' @ quoted name @ '' are not a JSON object'')
       else
         Inr (ToolCall (case get_str call ''id'' of
                          Some i \<Rightarrow> if i = [] then ''google_call_'' @ show_nat index else i
                        | None \<Rightarrow> ''google_call_'' @ show_nat index) name arguments)))"

definition decode_google_inline :: "json \<Rightarrow> string + ContentBlock" where
  "decode_google_inline inline =
     rbind (ok_or ''Google inline response data has no MIME type'' (get_str inline ''mimeType'')) (\<lambda>mime.
     rbind (ok_or ''Google inline response data has no base64 data'' (get_str inline ''data'')) (\<lambda>data.
       case classify_inline_mime mime of
         Some InlineImage \<Rightarrow>
           rbind (validate_inline_data mime data InlineImage) (\<lambda>_. Inr (GeneratedImage data (to_ascii_lowercase mime)))
       | Some InlinePdf \<Rightarrow>
           rbind (validate_inline_data mime data InlinePdf) (\<lambda>_. Inr (Document (DocBase64 ''application/pdf'' data) None))
       | None \<Rightarrow> Inl (''Google returned unsupported inline media type '' @ quoted mime)))"

definition decode_google_part :: "nat \<Rightarrow> json \<Rightarrow> string + ContentBlock" where
  "decode_google_part index part =
     (case get_str part ''text'' of
        Some t \<Rightarrow> Inr (TextBlock t)
      | None \<Rightarrow>
          (case json_get part ''functionCall'' of
             Some call \<Rightarrow> decode_google_call index call
           | None \<Rightarrow>
               (case json_get part ''inlineData'' of
                  Some inline \<Rightarrow> decode_google_inline inline
                | None \<Rightarrow>
                    if list_ex (\<lambda>k. json_get part k \<noteq> None)
                         [''fileData'', ''functionResponse'', ''executableCode'', ''codeExecutionResult'', ''toolCall'', ''toolResponse'']
                    then Inl ''Google response contains an unsupported part type''
                    else Inl ''Google response contains an unrecognized content part'')))"

fun decode_google_parts :: "nat \<Rightarrow> json list \<Rightarrow> string + ContentBlock list" where
  "decode_google_parts index [] = Inr []"
| "decode_google_parts index (part # parts) =
     rbind (decode_google_part index part) (\<lambda>b. rbind (decode_google_parts (Suc index) parts) (\<lambda>bs. Inr (b # bs)))"

definition block_reason :: "json \<Rightarrow> string option" where
  "block_reason v = Option.bind (json_get v ''promptFeedback'') (\<lambda>f. get_str f ''blockReason'')"

definition nonempty_or :: "string \<Rightarrow> string option \<Rightarrow> string" where
  "nonempty_or d s = (case s of Some t \<Rightarrow> if t = [] then d else t | None \<Rightarrow> d)"

definition google_decode_response :: "json \<Rightarrow> string \<Rightarrow> string + CanonicalResponse" where
  "google_decode_response v requested_model =
     (case get_array v ''candidates'' of
        None \<Rightarrow>
          Inl (case block_reason v of
                 Some reason \<Rightarrow> ''Google provider blocked the prompt ('' @ reason @ '')''
               | None \<Rightarrow> ''Google response has no candidates array'')
      | Some [] \<Rightarrow> Inl (''Google provider returned no candidates ('' @ unwrap_or ''unknown reason'' (block_reason v) @ '')'')
      | Some [candidate] \<Rightarrow>
          rbind (ok_or ''Google candidate has no content parts''
                   (Option.bind (json_get candidate ''content'') (\<lambda>c. get_array c ''parts''))) (\<lambda>parts.
          rbind (decode_google_parts 0 parts) (\<lambda>content.
          rbind (ok_or ''Google candidate has no finishReason'' (get_str candidate ''finishReason'')) (\<lambda>raw.
          rbind (normalize_finish_reason raw content) (\<lambda>finish.
            Inr \<lparr>rsp_id = nonempty_or ''google-response'' (get_str v ''responseId''),
                 rsp_model = nonempty_or requested_model (get_str v ''modelVersion''),
                 rsp_message = \<lparr>msg_role = Assistant, msg_content = content, msg_name = None\<rparr>,
                 finish_reason = finish, rsp_usage = parse_google_usage (json_get v ''usageMetadata'')\<rparr>))))
      | Some _ \<Rightarrow> Inl ''Google response returned multiple candidates that cannot be represented'')"

end
