(* ===== verification/ResponseCodec.thy ===== *)
theory ResponseCodec
  imports GoogleCodec
begin

text \<open>
  Decoding the response of a provider (\<^verbatim>\<open>src/protocol/response_decoding.rs\<close>), encoding it for the client
  (\<^verbatim>\<open>src/protocol/response_encode.rs\<close>), and the entry points of \<^verbatim>\<open>src/protocol/mod.rs\<close>.
\<close>

section \<open>Recognizing a payload\<close>

definition typed_blocks :: "json \<Rightarrow> bool" where
  "typed_blocks v = (case get_array v ''content'' of Some bs \<Rightarrow> list_ex (\<lambda>b. get_str b ''type'' \<noteq> None) bs | None \<Rightarrow> False)"

definition detected_payload_protocol :: "json \<Rightarrow> UpstreamProtocol option" where
  "detected_payload_protocol v =
     (if \<not> is_object v then None
      else if json_get v ''candidates'' \<noteq> None \<or> json_get v ''usageMetadata'' \<noteq> None then Some GoogleGenerateContent
      else if get_str v ''object'' = Some ''response'' \<or> get_array v ''output'' \<noteq> None \<or> get_str v ''output_text'' \<noteq> None
      then Some UpResponses
      else if typed_blocks v \<and>
              (json_get v ''stop_reason'' \<noteq> None \<or> get_str v ''role'' = Some ''assistant'' \<or> get_str v ''type'' = Some ''message'')
      then Some UpMessages
      else if json_get v ''choices'' \<noteq> None then Some UpChatCompletions
      else None)"

definition protocol_mismatch_suffix :: "UpstreamProtocol \<Rightarrow> json \<Rightarrow> string" where
  "protocol_mismatch_suffix expected v =
     (case detected_payload_protocol v of
        None \<Rightarrow> []
      | Some detected \<Rightarrow>
          if detected = expected then []
          else '' (provider returned a '' @ UpstreamProtocol_as_str detected @
            '' payload; check this model'' @ [CHR 0x27] @ ''s upstream protocol)'')"

section \<open>Output\<close>

fun content_block_has_output :: "ContentBlock \<Rightarrow> bool" where
  "content_block_has_output (TextBlock t) = (trim t \<noteq> [])"
| "content_block_has_output (Reasoning t) = (trim t \<noteq> [])"
| "content_block_has_output (Thinking t _ _) = (trim t \<noteq> [])"
| "content_block_has_output (RedactedThinking data _) = (trim data \<noteq> [])"
| "content_block_has_output (Image url _) = (trim url \<noteq> [])"
| "content_block_has_output (Document source _) =
     (trim (case source of DocUrl url \<Rightarrow> url | DocText t \<Rightarrow> t | DocBase64 _ data \<Rightarrow> data) \<noteq> [])"
| "content_block_has_output (GeneratedImage data _) = (trim data \<noteq> [])"
| "content_block_has_output (ToolCall _ name _) = (trim name \<noteq> [])"
| "content_block_has_output (ToolResult _ content) = list_ex content_block_has_output content"

definition response_has_output :: "CanonicalResponse \<Rightarrow> bool" where
  "response_has_output r = list_ex content_block_has_output (msg_content (rsp_message r))"

section \<open>Decoding\<close>

definition decoded_response :: "json \<Rightarrow> string \<Rightarrow> ContentBlock list \<Rightarrow> string \<Rightarrow> Usage option \<Rightarrow> CanonicalResponse" where
  "decoded_response v requested_model content reason usage =
     \<lparr>rsp_id = unwrap_or ''exo-response'' (get_str v ''id''), rsp_model = unwrap_or requested_model (get_str v ''model''),
      rsp_message = \<lparr>msg_role = Assistant, msg_content = content, msg_name = None\<rparr>,
      finish_reason = reason, rsp_usage = usage\<rparr>"

definition chat_response_call :: "codecs \<Rightarrow> json \<Rightarrow> ContentBlock" where
  "chat_response_call cd call =
     (let f = unwrap_or call (json_get call ''function'') in
      ToolCall (unwrap_or ''call'' (get_str call ''id'')) (unwrap_or [] (get_str f ''name''))
        (unwrap_or (json_obj []) (json_from_str cd (unwrap_or ''{}'' (get_str f ''arguments'')))))"

definition decode_chat_response :: "codecs \<Rightarrow> json \<Rightarrow> string \<Rightarrow> string + CanonicalResponse" where
  "decode_chat_response cd v requested_model =
     (case get_array v ''choices'' of
        Some [] \<Rightarrow> Inl ''chat response has no choices (the provider returned an empty choices list)''
      | None \<Rightarrow> Inl (''chat response has no choices'' @ protocol_mismatch_suffix UpChatCompletions v)
      | Some (choice # _) \<Rightarrow>
          rbind (ok_or ''chat response has no message'' (json_get choice ''message'')) (\<lambda>raw.
          rbind (parse_reasoning_content (json_get raw ''reasoning_content'')) (\<lambda>reasoning.
          rbind (parse_content cd (json_get raw ''content'')) (\<lambda>parsed.
            Inr (decoded_response v requested_model
              ((case reasoning of Some t \<Rightarrow> [Reasoning t] | None \<Rightarrow> []) @ parsed
                 @ map (chat_response_call cd) (unwrap_or [] (get_array raw ''tool_calls'')))
              (unwrap_or ''stop'' (get_str choice ''finish_reason''))
              (parse_usage (json_get v ''usage'') ''prompt_tokens'' ''completion_tokens''))))))"

definition image_call :: "json \<Rightarrow> ContentBlock list" where
  "image_call item =
     (if get_str item ''type'' = Some ''image_generation_call'' then
        (case get_str item ''result'' of
           Some data \<Rightarrow> [GeneratedImage data (unwrap_or ''image/png'' (get_str item ''media_type''))]
         | None \<Rightarrow> [])
      else [])"

definition responses_output_part :: "json \<Rightarrow> ContentBlock list" where
  "responses_output_part part = (case get_str part ''text'' of Some t \<Rightarrow> [TextBlock t] | None \<Rightarrow> []) @ image_call part"

definition responses_call_id :: "json \<Rightarrow> string" where
  "responses_call_id item = unwrap_or ''call'' (Option.bind (option_or (json_get item ''call_id'') (json_get item ''id'')) as_str)"

definition custom_call :: "codecs \<Rightarrow> json \<Rightarrow> ContentBlock list" where
  "custom_call cd item =
     (let name = unwrap_or [] (get_str item ''name'');
          input = (case json_get item ''input'' of Some v \<Rightarrow> parse_arguments cd v | None \<Rightarrow> JString [])
      in if get_str item ''type'' = Some ''custom_tool_call'' \<and> name \<noteq> []
         then [ToolCall (responses_call_id item) name input] else [])"

definition function_call :: "codecs \<Rightarrow> json \<Rightarrow> ContentBlock list" where
  "function_call cd item =
     (if get_str item ''type'' = Some ''function_call'' then
        [ToolCall (responses_call_id item) (unwrap_or [] (get_str item ''name''))
           (unwrap_or (unwrap_or (json_obj []) (json_get item ''arguments''))
             (Option.bind (get_str item ''arguments'') (json_from_str cd)))]
      else [])"

definition decode_output_item :: "codecs \<Rightarrow> json \<Rightarrow> string + ContentBlock list" where
  "decode_output_item cd item =
     (if get_str item ''type'' = Some ''reasoning'' then parse_responses_reasoning_item item
      else Inr (image_call item @ concat (map responses_output_part (unwrap_or [] (get_array item ''content'')))
             @ custom_call cd item @ function_call cd item))"

definition responses_finish_reason :: "json \<Rightarrow> ContentBlock list \<Rightarrow> string + string" where
  "responses_finish_reason v content =
     (let status = unwrap_or ''completed'' (get_str v ''status'') in
      if status = ''completed'' then Inr (if has_tool_call content then ''tool_calls'' else ''stop'')
      else if status = ''incomplete'' then Inr ''length''
      else if status \<in> {''failed'', ''cancelled''} then Inl ''Responses provider reported a failed or cancelled response''
      else Inl (''Responses provider returned non-terminal status '' @ quoted status))"

definition decode_responses_response :: "codecs \<Rightarrow> json \<Rightarrow> string \<Rightarrow> string + CanonicalResponse" where
  "decode_responses_response cd v requested_model =
     rbind (collect_results (decode_output_item cd) (unwrap_or [] (get_array v ''output''))) (\<lambda>items.
     let content = concat items;
         content1 = content @ (if block_texts content = [] then
                                 (case get_str v ''output_text'' of Some t \<Rightarrow> [TextBlock t] | None \<Rightarrow> [])
                               else [])
     in rbind (responses_finish_reason v content1) (\<lambda>reason.
          Inr (decoded_response v requested_model content1 reason
            (parse_usage (json_get v ''usage'') ''input_tokens'' ''output_tokens''))))"

definition decode_messages_block :: "codecs \<Rightarrow> json \<Rightarrow> string + ContentBlock list" where
  "decode_messages_block cd block =
     (let kind = get_str block ''type'' in
      if kind = Some ''text'' then Inr (case get_str block ''text'' of Some t \<Rightarrow> [TextBlock t] | None \<Rightarrow> [])
      else if kind \<in> Some ` {''thinking'', ''redacted_thinking'', ''image'', ''document''} then parse_value cd (JArray [block])
      else if kind = Some ''tool_use'' then
        Inr [ToolCall (unwrap_or ''call'' (get_str block ''id'')) (unwrap_or [] (get_str block ''name''))
               (unwrap_or (json_obj []) (json_get block ''input''))]
      else Inr [])"

definition decode_messages_response :: "codecs \<Rightarrow> json \<Rightarrow> string \<Rightarrow> string + CanonicalResponse" where
  "decode_messages_response cd v requested_model =
     rbind (collect_results (decode_messages_block cd) (unwrap_or [] (get_array v ''content''))) (\<lambda>blocks.
       Inr (decoded_response v requested_model (concat blocks) (unwrap_or ''end_turn'' (get_str v ''stop_reason''))
         (parse_usage (json_get v ''usage'') ''input_tokens'' ''output_tokens'')))"

fun decode_openai_family_response :: "codecs \<Rightarrow> Protocol \<Rightarrow> json \<Rightarrow> string \<Rightarrow> string + CanonicalResponse" where
  "decode_openai_family_response cd ChatCompletions v m = decode_chat_response cd v m"
| "decode_openai_family_response cd Responses v m = decode_responses_response cd v m"
| "decode_openai_family_response cd Messages v m = decode_messages_response cd v m"

definition decode_upstream_response :: "codecs \<Rightarrow> UpstreamProtocol \<Rightarrow> json \<Rightarrow> string \<Rightarrow> string + CanonicalResponse" where
  "decode_upstream_response cd p v requested_model =
     rbind (case p of
              GoogleGenerateContent \<Rightarrow> google_decode_response v requested_model
            | _ \<Rightarrow> rbind (ok_or ''upstream protocol cannot decode this response'' (up_client_protocol p)) (\<lambda>q.
                     decode_openai_family_response cd q v requested_model)) (\<lambda>response.
       if \<not> response_has_output response
       then Inl (''upstream completed the response without content'' @ protocol_mismatch_suffix p v)
       else Inr response)"

section \<open>Encoding\<close>

definition normalize_chat_finish :: "string \<Rightarrow> string" where
  "normalize_chat_finish v =
     (if contains ''tool'' v then ''tool_calls''
      else if contains ''length'' v \<or> contains ''max_tokens'' v then ''length'' else ''stop'')"

definition messages_finish_reason :: "string \<Rightarrow> string" where
  "messages_finish_reason v =
     (if contains ''tool'' v then ''tool_use''
      else if contains ''length'' v \<or> contains ''max_tokens'' v then ''max_tokens''
      else if contains ''stop_sequence'' v then ''stop_sequence'' else ''end_turn'')"

definition cost_json :: "Usage \<Rightarrow> json" where
  "cost_json u = json_opt (\<lambda>micros. json_f64 (f64_div_nat (f64_of_int micros) 1000000)) (cost_micro_usd u)"

text \<open>The usage of Chat Completions and of Responses, which differ in the names of its fields.\<close>

definition inclusive_usage_json :: "string \<Rightarrow> string \<Rightarrow> string \<Rightarrow> Usage \<Rightarrow> json" where
  "inclusive_usage_json input_key output_key details_key u =
     (let inp = inclusive_input_tokens (input_tokens u) (cache_input_tokens u) in
      json_obj [(input_key, json_u64 inp), (output_key, json_u64 (output_tokens u)),
        (''total_tokens'', json_u64 (sat_add u64_max inp (output_tokens u))),
        (details_key, json_obj [(''cached_tokens'', json_u64 (cached_tokens u))]), (''cost'', cost_json u)])"

definition messages_usage_json :: "Usage \<Rightarrow> json" where
  "messages_usage_json u =
     json_obj [(''input_tokens'', json_u64 (uncached_input_tokens (input_tokens u) (cache_input_tokens u) (cached_tokens u))),
       (''output_tokens'', json_u64 (output_tokens u)), (''cache_read_input_tokens'', json_u64 (cached_tokens u)),
       (''cost'', cost_json u)]"

definition response_text :: "ContentBlock list \<Rightarrow> string" where
  "response_text bs = concat (block_texts bs)"

definition reasoning_text :: "ContentBlock list \<Rightarrow> string" where
  "reasoning_text bs = join_with [CHR 0x0A] (List.map_filter reasoning_of_block bs)"

fun is_image :: "ContentBlock \<Rightarrow> bool" where
  "is_image (Image _ _) = True"
| "is_image (GeneratedImage _ _) = True"
| "is_image _ = False"

definition chat_response_content :: "ContentBlock list \<Rightarrow> json" where
  "chat_response_content bs =
     (if list_ex is_image bs then JArray (List.map_filter content_to_chat bs)
      else if response_text bs = [] then JNull else JString (response_text bs))"

definition chat_response_message :: "codecs \<Rightarrow> ContentBlock list \<Rightarrow> json" where
  "chat_response_message cd bs =
     (let calls = List.map_filter (chat_call cd) bs;
          m0 = json_map_of [(''role'', JString ''assistant''), (''content'', chat_response_content bs)];
          m1 = (if reasoning_text bs = [] then m0 else map_insert ''reasoning_content'' (JString (reasoning_text bs)) m0)
      in JObject (if calls = [] then m1 else map_insert ''tool_calls'' (JArray calls) m1))"

definition encode_chat_response :: "codecs \<Rightarrow> CanonicalResponse \<Rightarrow> json" where
  "encode_chat_response cd r =
     json_obj [(''id'', JString (rsp_id r)), (''object'', JString ''chat.completion''), (''created'', json_u64 0),
       (''model'', JString (rsp_model r)),
       (''choices'', JArray [json_obj [(''index'', json_u64 0),
          (''message'', chat_response_message cd (msg_content (rsp_message r))),
          (''finish_reason'', JString (normalize_chat_finish (finish_reason r)))]]),
       (''usage'', json_opt (inclusive_usage_json ''prompt_tokens'' ''completion_tokens'' ''prompt_tokens_details'') (rsp_usage r))]"

definition reasoning_item :: "nat \<Rightarrow> string \<Rightarrow> json" where
  "reasoning_item n t =
     json_obj [(''id'', JString (''rs_'' @ show_nat n)), (''type'', JString ''reasoning''),
       (''content'', JArray [text_part ''reasoning_text'' t]), (''summary'', JArray [])]"

fun push_reasoning :: "ContentBlock list \<Rightarrow> json list \<Rightarrow> json list" where
  "push_reasoning [] output = output"
| "push_reasoning (b # bs) output =
     (case reasoning_of_block b of
        Some t \<Rightarrow> push_reasoning bs (if trim t = [] then output else output @ [reasoning_item (length output) t])
      | None \<Rightarrow> push_reasoning bs output)"

definition message_item :: "string \<Rightarrow> json" where
  "message_item t =
     json_obj [(''id'', JString ''msg_0''), (''type'', JString ''message''), (''role'', JString ''assistant''),
       (''content'', JArray [json_obj [(''type'', JString ''output_text''), (''text'', JString t), (''annotations'', JArray [])]])]"

fun call_item :: "codecs \<Rightarrow> nat \<Rightarrow> ContentBlock \<Rightarrow> json option" where
  "call_item cd n (GeneratedImage data _) =
     Some (json_obj [(''id'', JString (''ig_'' @ show_nat n)), (''type'', JString ''image_generation_call''),
       (''status'', JString ''completed''), (''result'', JString data)])"
| "call_item cd n (ToolCall i name arguments) =
     Some (json_obj [(''id'', JString i), (''type'', JString ''function_call''), (''call_id'', JString i),
       (''name'', JString name), (''arguments'', JString (json_text_of cd arguments))])"
| "call_item cd n _ = None"

fun push_calls :: "codecs \<Rightarrow> ContentBlock list \<Rightarrow> json list \<Rightarrow> json list" where
  "push_calls cd [] output = output"
| "push_calls cd (b # bs) output =
     push_calls cd bs (case call_item cd (length output) b of Some item \<Rightarrow> output @ [item] | None \<Rightarrow> output)"

definition responses_output :: "codecs \<Rightarrow> ContentBlock list \<Rightarrow> json list" where
  "responses_output cd bs =
     push_calls cd bs (push_reasoning bs [] @ (if response_text bs = [] then [] else [message_item (response_text bs)]))"

definition encode_responses_response :: "codecs \<Rightarrow> CanonicalResponse \<Rightarrow> json" where
  "encode_responses_response cd r =
     (let bs = msg_content (rsp_message r) in
      json_obj [(''id'', JString (rsp_id r)), (''object'', JString ''response''),
        (''status'', JString (if contains ''length'' (finish_reason r) then ''incomplete'' else ''completed'')),
        (''model'', JString (rsp_model r)), (''output'', JArray (responses_output cd bs)),
        (''output_text'', JString (response_text bs)),
        (''usage'', json_opt (inclusive_usage_json ''input_tokens'' ''output_tokens'' ''input_tokens_details'') (rsp_usage r))])"

fun is_tool_call :: "ContentBlock \<Rightarrow> bool" where
  "is_tool_call (ToolCall _ _ _) = True"
| "is_tool_call _ = False"

definition messages_content :: "ContentBlock list \<Rightarrow> json list" where
  "messages_content bs =
     (let content = List.map_filter content_to_anthropic (filter (\<lambda>b. \<not> is_tool_call b) bs)
      in (if content = [] then [text_part ''text'' (response_text bs)] else content)
         @ List.map_filter content_to_anthropic (filter is_tool_call bs))"

definition encode_messages_response :: "CanonicalResponse \<Rightarrow> json" where
  "encode_messages_response r =
     json_obj [(''id'', JString (rsp_id r)), (''type'', JString ''message''), (''role'', JString ''assistant''),
       (''model'', JString (rsp_model r)), (''content'', JArray (messages_content (msg_content (rsp_message r)))),
       (''stop_reason'', JString (messages_finish_reason (finish_reason r))), (''stop_sequence'', JNull),
       (''usage'', json_opt messages_usage_json (rsp_usage r))]"

fun encode_response :: "codecs \<Rightarrow> Protocol \<Rightarrow> CanonicalResponse \<Rightarrow> json" where
  "encode_response cd ChatCompletions r = encode_chat_response cd r"
| "encode_response cd Responses r = encode_responses_response cd r"
| "encode_response cd Messages r = encode_messages_response r"

text \<open>An encoded response is an object, so its fields can be replaced.\<close>

lemma encode_response_object: "\<exists>m. encode_response cd p r = JObject m"
  by (cases p) (simp_all add: encode_chat_response_def encode_responses_response_def encode_messages_response_def json_obj_def Let_def)

section \<open>Encoding a request\<close>

definition misplaced_thinking :: "Message list \<Rightarrow> bool" where
  "misplaced_thinking ms = list_ex (\<lambda>m. msg_role m \<noteq> Assistant \<and> list_ex is_thinking (msg_content m)) ms"

fun is_redacted :: "ContentBlock \<Rightarrow> bool" where
  "is_redacted (RedactedThinking _ _) = True"
| "is_redacted _ = False"

definition encode_upstream_request_with_thinking ::
  "codecs \<Rightarrow> UpstreamProtocol \<Rightarrow> CanonicalRequest \<Rightarrow> string \<Rightarrow> ThinkingHandling \<Rightarrow> string + json" where
  "encode_upstream_request_with_thinking cd p r model handling =
     (if p = UpMessages \<and> misplaced_thinking (canonical_messages r)
      then Inl ''Anthropic thinking blocks are only valid in assistant messages''
      else if p \<noteq> UpMessages \<and> handling = Preserve \<and> list_ex (\<lambda>m. list_ex is_redacted (msg_content m)) (canonical_messages r)
      then Inl ''redacted thinking cannot be represented by this provider protocol; choose override or remove''
      else
        rbind (case p of
                 GoogleGenerateContent \<Rightarrow> google_encode_request cd r model
               | _ \<Rightarrow> rbind (ok_or ''upstream protocol cannot encode this request'' (up_client_protocol p)) (\<lambda>q.
                        encode_openai_family_request cd q r model)) (\<lambda>encoded.
        rbind (if list_ex (\<lambda>m. list_ex contains_thinking_block (msg_content m)) (canonical_messages r)
               then finalize_thinking_payload encoded p handling else Inr encoded) (\<lambda>encoded.
          Inr (JObject encoded))))"

end
