(* ===== verification/Credentials.thy ===== *)
theory Credentials
  imports ProviderRecords Adapters KeyHealth LocalRpm ProviderUsage RequestLive RoutePrep Retry GatewayIntake ResponseCodec
begin

text \<open>
  The state a gateway request works on and its credentials (\<^verbatim>\<open>src/gateway/execution.rs\<close>, \<^verbatim>\<open>execution/provider.rs\<close>,
  \<^verbatim>\<open>execution/credential_rotation.rs\<close>, \<^verbatim>\<open>execution/log_payload.rs\<close>, \<^verbatim>\<open>logging.rs\<close>). Whatever lies outside the
  process (clocks, the network, random ids) is an environment that maps a state to a result and a later state, so that
  other requests may have run in between. \<open>None\<close> stands for a computation that does not return: it panicked, or the
  fuel of a loop was too small.
\<close>

section \<open>State and environment\<close>

text \<open>
  The parts of \<open>AppState\<close> the execution of a request reads and writes. The request logs, the usage of a credential and
  the token counts of the request analytics are kept in the order they are reported.
\<close>

record ('s, 'v, 'x) app =
  app_db :: "'s key_db"
  app_gates :: gateway_gates
  app_circuit_settings :: CircuitBreakerRuntimeSettings
  app_provider_max_concurrency :: nat
  app_usage :: "'v ProviderUsageRuntime"
  app_key_updates :: RateLimiter
  app_rpm :: ProviderRpmTracker
  app_live :: live_guards
  app_clients :: client_cache
  app_logs :: "RequestLogRecord list"
  app_provider_usage :: "(string \<times> int option \<times> int option \<times> int option) list"
  app_token_usage :: "(nat option \<times> nat option \<times> nat option \<times> nat option) list"
  app_output_styles :: "OutputStyleSelection list"
  app_style_metrics :: StyleMetrics
  app_external :: 'x

record ('s, 'v, 'x) environment =
  instant_now :: "('s, 'v, 'x) app \<Rightarrow> instant"
  unix_now :: "('s, 'v, 'x) app \<Rightarrow> nat option"
  new_v4 :: "('s, 'v, 'x) app \<Rightarrow> string \<times> ('s, 'v, 'x) app"
  sleep_for :: "duration \<Rightarrow> ('s, 'v, 'x) app \<Rightarrow> ('s, 'v, 'x) app"
  http_send :: "client \<Rightarrow> RequestBuilder \<Rightarrow> ('s, 'v, 'x) app \<Rightarrow> (TransportError + upstream_response) \<times> ('s, 'v, 'x) app"
  adapters :: "('s, 'v, 'x) app ProviderAdapter list"
  yaml_presets :: "ProviderPreset list"
  opencode_protocol :: "string \<Rightarrow> string \<Rightarrow> UpstreamProtocol option"
  url_parse :: "string \<Rightarrow> Url option"
  lookup_host :: "string \<Rightarrow> nat \<Rightarrow> lookup"
  can_build_client :: "client \<Rightarrow> bool"
  allow_private_provider_urls :: bool
  http_header_name :: "string \<Rightarrow> string option"
  cipher :: aead
  env_utf8 :: "bytes \<Rightarrow> string option"
  env_master_key :: master_key
  env_headers_json :: headers_json
  env_strings_json :: json_strings
  env_codecs :: codecs
  env_style_texts :: style_texts
  exoroute_agent :: string
  status_display :: "status \<Rightarrow> string"
  preflight_stream ::
    "upstream_response \<Rightarrow> UpstreamProtocol \<Rightarrow> Protocol \<Rightarrow> string \<Rightarrow> duration \<Rightarrow> GatewayResourceLimits \<Rightarrow> ('s, 'v, 'x) app
       \<Rightarrow> (string + (TransportError + nat list) list) \<times> ('s, 'v, 'x) app"

section \<open>Providers and credentials\<close>

record Provider =
  prov_id :: string
  prov_adapter_id :: string
  prov_base_url :: string
  prov_enabled :: bool
  prov_auth_type :: string
  prov_auth_header :: "string option"
  prov_custom_headers :: header_entries
  prov_secret :: "string option"
  preferred_protocol :: UpstreamProtocol
  prov_supported_protocols :: "string list"
  prov_thinking_mode :: string
  prov_thinking_override :: "string option"
  prov_key_strategy :: string

record ProviderCredential =
  cred_id :: "string option"
  cred_secret :: "string option"
  cred_encrypted_secret :: "bytes option"
  cred_type :: "ProviderCredentialType option"

abbreviation text_field :: "Record \<Rightarrow> string \<Rightarrow> string + string" where
  "text_field r name \<equiv> map_err StorageError_display (rec_text r name)"

definition decode_provider :: "('s, 'v, 'x) environment \<Rightarrow> Record \<Rightarrow> string + Provider" where
  "decode_provider e r =
     rbind (text_field r ''adapter_id'') (\<lambda>aid.
       if adapter_of (adapters e) aid = None then Inl ''provider adapter is not registered''
       else
     rbind (text_field r ''preferred_protocol'') (\<lambda>preferred.
     rbind (text_field r ''supported_protocols'') (\<lambda>protocols.
     rbind (map_err StorageError_display (optional_text r ''thinking_mode'')) (\<lambda>m.
     let mode = (case m of Some s \<Rightarrow> s | None \<Rightarrow> DEFAULT_THINKING_MODE) in
     rbind (map_err StorageError_display (optional_text r ''thinking_override'')) (\<lambda>override_text.
     rbind (parse_thinking_handling mode override_text) (\<lambda>_.
     rbind (map_err StorageError_display (optional_bytes r ''secret'')) (\<lambda>secret_bytes.
     rbind (stored_custom_headers (env_headers_json e) (http_header_name e) (cipher e) (env_utf8 e) r (env_master_key e))
       (\<lambda>custom.
     rbind (text_field r ''id'') (\<lambda>pid.
     rbind (text_field r ''base_url'') (\<lambda>base_url.
     rbind (map_err StorageError_display (rec_boolean r ''enabled'')) (\<lambda>enabled.
     rbind (text_field r ''auth_type'') (\<lambda>atype.
     rbind (map_err StorageError_display (optional_text r ''auth_header'')) (\<lambda>aheader.
     rbind (decrypt_secret (cipher e) (env_utf8 e) (env_master_key e) secret_bytes) (\<lambda>secret.
     rbind (UpstreamProtocol_from_str preferred) (\<lambda>preferred'.
     rbind (from_json (env_strings_json e) protocols) (\<lambda>supported.
     rbind (map_err StorageError_display (stored_key_strategy r)) (\<lambda>strategy.
       Inr \<lparr>prov_id = pid, prov_adapter_id = aid, prov_base_url = base_url, prov_enabled = enabled,
            prov_auth_type = atype, prov_auth_header = aheader, prov_custom_headers = custom, prov_secret = secret,
            preferred_protocol = preferred', prov_supported_protocols = supported, prov_thinking_mode = mode,
            prov_thinking_override = override_text, prov_key_strategy = strategy\<rparr>)))))))))))))))))"

text \<open>\<open>mark_provider_key_used\<close> and \<open>mark_provider_key_invalid\<close> on the state.\<close>

definition mark_used :: "('s, 'v, 'x) environment \<Rightarrow> ProviderCredential \<Rightarrow> ('s, 'v, 'x) app \<Rightarrow> ('s, 'v, 'x) app option" where
  "mark_used e credential a =
     map_option (\<lambda>(updates, db). a\<lparr>app_key_updates := updates, app_db := db\<rparr>)
       (mark_provider_key_used (app_key_updates a) (instant_now e a) (unix_now e a) (cred_id credential) (app_db a))"

definition mark_invalid ::
  "('s, 'v, 'x) environment \<Rightarrow> string \<Rightarrow> string \<Rightarrow> status \<Rightarrow> ('s, 'v, 'x) app \<Rightarrow> (StorageError + unit) \<times> ('s, 'v, 'x) app" where
  "mark_invalid e pid key st a =
     (case mark_provider_key_invalid (unix_now e a) pid key (Some st) (app_db a) of
        (res, db) \<Rightarrow> (res, a\<lparr>app_db := db\<rparr>))"

definition retry_after_duration :: "string \<Rightarrow> duration option" where
  "retry_after_duration v =
     Option.bind (to_str v) (\<lambda>s.
       map_option (\<lambda>seconds. from_secs (min seconds (24 * 60 * 60))) (parse_unsigned u64_max (trim s)))"

definition is_quota_rejection :: "string \<Rightarrow> status \<Rightarrow> bool" where
  "is_quota_rejection aid st = (st = TOO_MANY_REQUESTS \<or> aid = ANTIGRAVITY_ADAPTER_ID \<and> st = CONFLICT)"

section \<open>Rotation\<close>

datatype ResolvedAuth = Ready "string option" "OAuthRequestAuth option" | Rotate string

definition quota_cooldown_skip ::
  "('s, 'v, 'x) environment \<Rightarrow> Provider \<Rightarrow> ProviderCredential \<Rightarrow> string \<Rightarrow> ('s, 'v, 'x) app \<Rightarrow> bool \<times> ('s, 'v, 'x) app" where
  "quota_cooldown_skip e provider credential m a =
     (if prov_adapter_id provider \<noteq> ANTIGRAVITY_ADAPTER_ID then (False, a)
      else
        case cred_id credential of
          None \<Rightarrow> (False, a)
        | Some key \<Rightarrow>
            (case antigravity_quota_is_blocked (prov_id provider) key m (instant_now e a) (app_usage a) of
               (blocked, rt) \<Rightarrow> (blocked, a\<lparr>app_usage := rt\<rparr>)))"

definition resolve_credential_auth ::
  "('s, 'v, 'x) environment \<Rightarrow> Provider \<Rightarrow> ProviderCredential \<Rightarrow> ('s, 'v, 'x) app \<Rightarrow> ResolvedAuth \<times> ('s, 'v, 'x) app" where
  "resolve_credential_auth e provider credential a =
     (if cred_type credential = Some OAuth then
        (case cred_id credential of
           None \<Rightarrow>
             (Rotate (''provider '' @ quoted (prov_id provider) @ '' has an invalid provider OAuth account record''), a)
         | Some key \<Rightarrow>
             (case resolve_oauth_request_auth (adapters e) (prov_adapter_id provider) key a of
                (Inr (Some auth), a') \<Rightarrow> (Ready None (Some auth), a')
              | (Inr None, a') \<Rightarrow>
                  (Rotate (''provider '' @ quoted (prov_id provider) @ '' OAuth account is unavailable''), a')
              | (Inl err, a') \<Rightarrow> (Rotate err, a')))
      else
        case cred_encrypted_secret credential of
          Some encrypted \<Rightarrow>
            (case decrypt_secret (cipher e) (env_utf8 e) (env_master_key e) (Some encrypted) of
               Inr secret \<Rightarrow> (Ready secret None, a)
             | Inl _ \<Rightarrow> (Rotate (''provider '' @ quoted (prov_id provider) @ '' has an unreadable API key''), a))
        | None \<Rightarrow> (Ready (cred_secret credential) None, a))"

record CredentialRotation =
  rot_cursor :: "ProviderApiKeyCursor option"
  rot_current :: "ProviderCredential option"

definition credential_from_row :: "ProviderApiKeyRow \<Rightarrow> ProviderCredential" where
  "credential_from_row row =
     \<lparr>cred_id = Some (row_id row), cred_secret = None, cred_encrypted_secret = Some (encrypted_secret row),
      cred_type = Some (credential_type row)\<rparr>"

definition provider_secret_credential :: "Provider \<Rightarrow> ProviderCredential option" where
  "provider_secret_credential provider =
     map_option (\<lambda>secret. \<lparr>cred_id = None, cred_secret = Some secret, cred_encrypted_secret = None, cred_type = Some ApiKey\<rparr>)
       (prov_secret provider)"

definition no_credential :: ProviderCredential where
  "no_credential = \<lparr>cred_id = None, cred_secret = None, cred_encrypted_secret = None, cred_type = None\<rparr>"

definition rotation_of_started :: "Provider \<Rightarrow> (ProviderApiKeyCursor \<times> ProviderApiKeyRow) option \<Rightarrow> CredentialRotation" where
  "rotation_of_started provider started =
     (case started of
        Some (cursor, key) \<Rightarrow> \<lparr>rot_cursor = Some cursor, rot_current = Some (credential_from_row key)\<rparr>
      | None \<Rightarrow> \<lparr>rot_cursor = None, rot_current = provider_secret_credential provider\<rparr>)"

definition rotation_start_rotating ::
  "nat \<Rightarrow> Provider \<Rightarrow> ('s, 'v, 'x) app \<Rightarrow> ((StorageError + CredentialRotation) \<times> ('s, 'v, 'x) app) option" where
  "rotation_start_rotating fuel provider a =
     (let previous = provider_key_cursor (prov_id provider) (app_gates a) in
      Option.bind (start_rotating fuel (app_db a) (prov_id provider) previous) (\<lambda>r.
      Option.bind (case r of
                     Inr None \<Rightarrow>
                       if previous \<noteq> None then start_rotating fuel (app_db a) (prov_id provider) None else Some (Inr None)
                   | _ \<Rightarrow> Some r) (\<lambda>started.
        case started of
          Inl err \<Rightarrow> Some (Inl err, a)
        | Inr s \<Rightarrow>
            Some (Inr (rotation_of_started provider s),
              case Option.bind s (\<lambda>(cursor, _). after cursor) of
                Some position \<Rightarrow> a\<lparr>app_gates := set_provider_key_cursor (prov_id provider) position (app_gates a)\<rparr>
              | None \<Rightarrow> a))))"

definition rotation_start ::
  "nat \<Rightarrow> Provider \<Rightarrow> ('s, 'v, 'x) app \<Rightarrow> ((StorageError + CredentialRotation) \<times> ('s, 'v, 'x) app) option" where
  "rotation_start fuel provider a =
     (if prov_auth_type provider = ''none''
      then Some (Inr \<lparr>rot_cursor = None, rot_current = Some no_credential\<rparr>, a)
      else if prov_key_strategy provider = KEY_STRATEGY_ROUND_ROBIN then rotation_start_rotating fuel provider a
      else
        map_option (\<lambda>r. (rbind r (\<lambda>s. Inr (rotation_of_started provider s)), a))
          (cursor_start fuel (app_db a) (prov_id provider)))"

definition rotation_advance ::
  "nat \<Rightarrow> CredentialRotation \<Rightarrow> ('s, 'v, 'x) app \<Rightarrow> (StorageError + CredentialRotation) option" where
  "rotation_advance fuel rot a =
     (case rot_cursor rot of
        None \<Rightarrow> Some (Inr (rot\<lparr>rot_current := None\<rparr>))
      | Some cursor \<Rightarrow>
          map_option (\<lambda>r. rbind r (\<lambda>(row, cursor').
            Inr \<lparr>rot_cursor = Some cursor', rot_current = map_option credential_from_row row\<rparr>))
            (cursor_next fuel (app_db a) cursor))"

section \<open>Request logs\<close>

definition MAX_REQUEST_LOG_ERROR_CHARS :: nat where "MAX_REQUEST_LOG_ERROR_CHARS = 8 * 1024"

record GatewayRequestLog =
  gl_request_id :: string
  gl_route :: string
  gl_provider :: "string option"
  gl_provider_credential_id :: "string option"
  gl_api_key_id :: "string option"
  gl_model :: string
  gl_client :: Protocol
  gl_upstream :: "UpstreamProtocol option"
  gl_status :: status
  gl_duration_ms :: int
  gl_input_tokens :: "int option"
  gl_output_tokens :: "int option"
  gl_cached_tokens :: "int option"
  gl_cache_input_tokens :: "int option"
  gl_cost_micro_usd :: "int option"
  gl_error :: "string option"

definition request_log_record :: "string \<Rightarrow> GatewayRequestLog \<Rightarrow> RequestLogRecord" where
  "request_log_record uuid g =
     \<lparr>log_id = uuid, log_request_id = take 128 (gl_request_id g), log_route_alias = take 256 (gl_route g),
      log_provider_id = map_option (take 256) (gl_provider g),
      log_provider_credential_id = map_option (take 256) (gl_provider_credential_id g),
      log_api_key_id = map_option (take 128) (gl_api_key_id g), log_model = take 256 (gl_model g),
      log_client_protocol = Protocol_as_str (gl_client g),
      log_upstream_protocol = map_option UpstreamProtocol_as_str (gl_upstream g), log_status = int (gl_status g),
      log_duration_ms = max (gl_duration_ms g) 0, log_input_tokens = gl_input_tokens g,
      log_output_tokens = gl_output_tokens g, log_cached_tokens = gl_cached_tokens g,
      log_cache_input_tokens = gl_cache_input_tokens g, log_cost_micro_usd = gl_cost_micro_usd g,
      log_error = map_option (take MAX_REQUEST_LOG_ERROR_CHARS) (gl_error g)\<rparr>"

definition log_request ::
  "('s, 'v, 'x) environment \<Rightarrow> nat option \<Rightarrow> GatewayRequestLog \<Rightarrow> ('s, 'v, 'x) app \<Rightarrow> ('s, 'v, 'x) app" where
  "log_request e live_guard g a =
     (case new_v4 e a of
        (uuid, a1) \<Rightarrow>
          (let r = request_log_record uuid g;
               a2 = (case live_guard of Some lg \<Rightarrow> a1\<lparr>app_live := guard_update_log lg r (app_live a1)\<rparr> | None \<Rightarrow> a1);
               a3 = a2\<lparr>app_logs := app_logs a2 @ [r]\<rparr>
           in case gl_provider_credential_id g of
                Some cid \<Rightarrow>
                  a3\<lparr>app_provider_usage :=
                       app_provider_usage a3 @ [(cid, gl_cost_micro_usd g, gl_input_tokens g, gl_output_tokens g)]\<rparr>
              | None \<Rightarrow> a3))"

text \<open>\<open>as i64\<close> on an unsigned value.\<close>

definition as_i64 :: "nat \<Rightarrow> int" where
  "as_i64 n = (int n + 2 ^ 63) mod 2 ^ 64 - 2 ^ 63"

record RequestScope =
  sc_request_id :: string
  sc_adapter_session_id :: string
  sc_adapter_base_url_override :: "string option"
  sc_settings :: OperationalSettings
  sc_resource_limits :: GatewayResourceLimits
  sc_stream :: bool
  sc_client_protocol :: Protocol
  sc_client_headers :: header_map

record RequestLogPayload =
  lp_scope :: RequestScope
  lp_route_alias :: string
  lp_api_key_id :: "string option"
  lp_started :: instant

definition elapsed_ms :: "instant \<Rightarrow> instant \<Rightarrow> int" where
  "elapsed_ms started now = as_i64 (as_millis (saturating_duration_since now started))"

definition provider_failure ::
  "RequestLogPayload \<Rightarrow> instant \<Rightarrow> string \<Rightarrow> UpstreamProtocol \<Rightarrow> string option \<Rightarrow> status \<Rightarrow> string \<Rightarrow> string \<Rightarrow> GatewayRequestLog" where
  "provider_failure l now pid protocol cid st err m =
     \<lparr>gl_request_id = sc_request_id (lp_scope l), gl_route = lp_route_alias l, gl_provider = Some pid,
      gl_provider_credential_id = cid, gl_api_key_id = lp_api_key_id l, gl_model = m,
      gl_client = sc_client_protocol (lp_scope l), gl_upstream = Some protocol, gl_status = st,
      gl_duration_ms = elapsed_ms (lp_started l) now, gl_input_tokens = None, gl_output_tokens = None,
      gl_cached_tokens = None, gl_cache_input_tokens = None, gl_cost_micro_usd = None, gl_error = Some err\<rparr>"

definition provider_success ::
  "RequestLogPayload \<Rightarrow> instant \<Rightarrow> string \<Rightarrow> UpstreamProtocol \<Rightarrow> string option \<Rightarrow> string \<Rightarrow> int option \<Rightarrow> int option \<Rightarrow> int option
     \<Rightarrow> int option \<Rightarrow> int option \<Rightarrow> GatewayRequestLog" where
  "provider_success l now pid protocol cid m inp outp cached cache_in cost_micro =
     \<lparr>gl_request_id = sc_request_id (lp_scope l), gl_route = lp_route_alias l, gl_provider = Some pid,
      gl_provider_credential_id = cid, gl_api_key_id = lp_api_key_id l, gl_model = m,
      gl_client = sc_client_protocol (lp_scope l), gl_upstream = Some protocol, gl_status = OK,
      gl_duration_ms = elapsed_ms (lp_started l) now, gl_input_tokens = inp, gl_output_tokens = outp,
      gl_cached_tokens = cached, gl_cache_input_tokens = cache_in, gl_cost_micro_usd = cost_micro, gl_error = None\<rparr>"

end
