(* ===== verification/Dispatch.thy ===== *)
theory Dispatch
  imports Credentials
begin

text \<open>
  One route target (\<^verbatim>\<open>src/gateway/execution/\<close>): preparing it (\<^verbatim>\<open>target_preparation.rs\<close>), the credential loop
  (\<^verbatim>\<open>dispatch.rs\<close>), sending (\<^verbatim>\<open>send.rs\<close>), classifying the response (\<^verbatim>\<open>classify.rs\<close>) and recording failures
  (\<^verbatim>\<open>outcome.rs\<close>, \<^verbatim>\<open>errors.rs\<close>).
\<close>

section \<open>Failures\<close>

record TargetLoopFailures =
  last_status :: status
  fl_error :: string
  upstream_retry_after :: "string option"
  translation_failed :: bool
  request_encodable :: bool
  last_key_rejection :: "status option"
  last_adapter_sse_failure :: "AdapterSseError option"
  selected_credential_id :: "string option"

definition TargetLoopFailures_new :: TargetLoopFailures where
  "TargetLoopFailures_new =
     \<lparr>last_status = BAD_GATEWAY, fl_error = ''all route targets failed'', upstream_retry_after = None,
      translation_failed = False, request_encodable = False, last_key_rejection = None,
      last_adapter_sse_failure = None, selected_credential_id = None\<rparr>"

section \<open>Preparing a target\<close>

record ('s, 'v, 'x) AttemptContext =
  at_scope :: RequestScope
  at_provider :: Provider
  at_protocol :: UpstreamProtocol
  at_adapter :: "('s, 'v, 'x) app ProviderAdapter"
  at_endpoint :: string
  at_http :: client
  circuit_probe :: CircuitProbePermit
  provider_permit :: nat
  at_body :: json
  at_model :: string

datatype TargetPreparationError =
    PrepDatabase StorageError
  | Skip string
  | SkipWithStatus string status
  | SkipUnencodable string

definition about :: "Provider \<Rightarrow> string \<Rightarrow> string" where
  "about p rest = ''provider '' @ quoted (prov_id p) @ rest"

definition target_upstream_protocol :: "('s, 'v, 'x) environment \<Rightarrow> Provider \<Rightarrow> Target \<Rightarrow> UpstreamProtocol option" where
  "target_upstream_protocol e p t =
     option_or (target_protocol t) (option_or (target_model_protocol t)
       (option_or (model_upstream_protocol (adapters e) (yaml_presets e) (opencode_protocol e) (prov_adapter_id p) (target_model t))
          (if (case capabilities (yaml_presets e) (prov_adapter_id p) of Some c \<Rightarrow> model_protocol_routing c | None \<Rightarrow> False)
           then None else Some (preferred_protocol p))))"

definition negotiate_protocol ::
  "('s, 'v, 'x) environment \<Rightarrow> Provider \<Rightarrow> Target \<Rightarrow> TargetPreparationError + UpstreamProtocol" where
  "negotiate_protocol e p t =
     (case target_upstream_protocol e p t of
        None \<Rightarrow>
          Inl (SkipUnencodable (about p ('' model '' @ quoted (target_model t)
            @ '' has no configured upstream protocol; set it in the provider model settings'')))
      | Some up \<Rightarrow>
          if \<not> supports_upstream_protocol (adapters e) (yaml_presets e) (prov_adapter_id p) up
          then Inl (SkipUnencodable (about p ('' adapter does not support '' @ UpstreamProtocol_as_str up)))
          else if UpstreamProtocol_as_str up \<notin> set (prov_supported_protocols p)
          then Inl (Skip (about p ('' does not declare support for '' @ UpstreamProtocol_as_str up)))
          else Inr up)"

definition encode_target ::
  "('s, 'v, 'x) environment \<Rightarrow> RequestScope \<Rightarrow> Provider \<Rightarrow> UpstreamProtocol \<Rightarrow> canonical \<Rightarrow> string \<Rightarrow> TargetPreparationError + json" where
  "encode_target e sc p up c m =
     rbind (map_err (\<lambda>_. Skip (about p '' has invalid thinking settings''))
              (parse_thinking_handling (prov_thinking_mode p) (prov_thinking_override p))) (\<lambda>thinking.
     rbind (map_err (\<lambda>err. SkipUnencodable (about p ('' cannot accept this request through ''
                @ UpstreamProtocol_as_str up @ '': '' @ err))) (encode_upstream_request_with_thinking (env_codecs e) up c m thinking)) (\<lambda>body.
       map_err (\<lambda>err. Skip (about p ('' adapter rejected the request: '' @ err)))
         (prepare_request_body (adapters e) (prov_adapter_id p) body (sc_adapter_session_id sc))))"

definition target_client ::
  "('s, 'v, 'x) environment \<Rightarrow> RequestScope \<Rightarrow> Provider \<Rightarrow> string \<Rightarrow> ('s, 'v, 'x) app
     \<Rightarrow> (string + client) \<times> ('s, 'v, 'x) app" where
  "target_client e sc p endpoint a =
     (let up = upstream (sc_settings sc) in
      case provider_client (url_parse e) (lookup_host e) (can_build_client e) endpoint (allow_private_provider_urls e)
             (connect_timeout (sc_settings sc)) (request_timeout (sc_settings sc))
             (sc_stream sc \<or> wants_event_stream (adapters e) (prov_adapter_id p)) (exoroute_agent e)
             (provider_client_cache_ttl up) (provider_client_cache_max_entries up)
             (provider_client_max_resolved_addresses up) (instant_now e a) (instant_now e a) (app_clients a) of
        (Inl err, cache) \<Rightarrow> (Inl err, a\<lparr>app_clients := cache\<rparr>)
      | (Inr (_, c), cache) \<Rightarrow> (Inr c, a\<lparr>app_clients := cache\<rparr>))"

abbreviation breakers_of :: "('s, 'v, 'x) app \<Rightarrow> breakers" where
  "breakers_of a \<equiv> circuit_breakers (circuits (app_gates a))"

definition set_breakers :: "breakers \<Rightarrow> ('s, 'v, 'x) app \<Rightarrow> ('s, 'v, 'x) app" where
  "set_breakers bs a =
     a\<lparr>app_gates := (app_gates a)\<lparr>circuits := (circuits (app_gates a))\<lparr>circuit_breakers := bs\<rparr>\<rparr>\<rparr>"

definition set_bulkhead :: "bulkhead \<Rightarrow> ('s, 'v, 'x) app \<Rightarrow> ('s, 'v, 'x) app" where
  "set_bulkhead b a = a\<lparr>app_gates := (app_gates a)\<lparr>provider_in_flight := b\<rparr>\<rparr>"

text \<open>The circuit permit, then the permit of the bulkhead; a circuit permit that is not used is dropped.\<close>

definition admit_target ::
  "('s, 'v, 'x) environment \<Rightarrow> RequestScope \<Rightarrow> Provider \<Rightarrow> ('s, 'v, 'x) app
     \<Rightarrow> (TargetPreparationError + CircuitProbePermit \<times> nat) \<times> ('s, 'v, 'x) app" where
  "admit_target e sc p a =
     (case permit_provider_with_settings (circuit_breaker_enabled (sc_settings sc)) (instant_now e a) (prov_id p)
             (circuits (app_gates a)) of
        (None, g) \<Rightarrow> (Inl (Skip (about p '' circuit is open'')), a\<lparr>app_gates := (app_gates a)\<lparr>circuits := g\<rparr>\<rparr>)
      | (Some probe, g) \<Rightarrow>
          (let a1 = a\<lparr>app_gates := (app_gates a)\<lparr>circuits := g\<rparr>\<rparr> in
           case try_provider_permit (app_provider_max_concurrency a1) (prov_id p) (provider_in_flight (app_gates a1)) of
             (Some permit, b) \<Rightarrow> (Inr (probe, permit), set_bulkhead b a1)
           | (None, b) \<Rightarrow>
               (Inl (SkipWithStatus (about p '' is at its concurrency limit'') SERVICE_UNAVAILABLE),
                set_breakers (snd (release_probe probe (breakers_of a1))) (set_bulkhead b a1))))"

definition prepare_target ::
  "('s, 'v, 'x) environment \<Rightarrow> RequestScope \<Rightarrow> canonical \<Rightarrow> Target \<Rightarrow> nat \<Rightarrow> ('s, 'v, 'x) app
     \<Rightarrow> (TargetPreparationError + ('s, 'v, 'x) AttemptContext) \<times> canonical \<times> ('s, 'v, 'x) app" where
  "prepare_target e sc c t live_guard a =
     (case get_record (app_db a) Providers (target_provider_id t) of
        Inl err \<Rightarrow> (Inl (PrepDatabase err), c, a)
      | Inr None \<Rightarrow> (Inl (Skip (''provider '' @ quoted (target_provider_id t) @ '' not found'')), c, a)
      | Inr (Some r) \<Rightarrow>
     (case decode_provider e r of
        Inl err \<Rightarrow> (Inl (Skip err), c, a)
      | Inr p \<Rightarrow>
     if \<not> prov_enabled p then (Inl (Skip (about p '' is disabled'')), c, a)
     else
     (let a1 = a\<lparr>app_live := guard_update_provider live_guard (Some (prov_id p)) (app_live a)\<rparr> in
      case negotiate_protocol e p t of
        Inl err \<Rightarrow> (Inl err, c, a1)
      | Inr up \<Rightarrow>
     (let c1 = c\<lparr>canonical_model := target_model t\<rparr> in
      case encode_target e sc p up c1 (target_model t) of
        Inl err \<Rightarrow> (Inl err, c1, a1)
      | Inr body \<Rightarrow>
     (case prepare_provider_images (adapters e) (prov_adapter_id p) body a1 of
        (Inl err, a2) \<Rightarrow>
          (Inl (SkipWithStatus (about p ('' could not prepare adapter input: '' @ err)) BAD_GATEWAY), c1, a2)
      | (Inr body, a2) \<Rightarrow>
     (case adapter_of (adapters e) (prov_adapter_id p) of
        None \<Rightarrow> (Inl (Skip (about p '' uses an unregistered adapter'')), c1, a2)
      | Some ad \<Rightarrow>
     (case upstream_endpoint (adapters e) (yaml_presets e) (prov_adapter_id p) (prov_base_url p) up (target_model t)
             (canonical_stream c1) (sc_adapter_base_url_override sc) of
        Inl err \<Rightarrow> (Inl (Skip err), c1, a2)
      | Inr endpoint \<Rightarrow>
     (case target_client e sc p endpoint a2 of
        (Inl err, a3) \<Rightarrow> (Inl (Skip (about p ('' egress rejected: '' @ err))), c1, a3)
      | (Inr http, a3) \<Rightarrow>
     (case admit_target e sc p a3 of
        (Inl err, a4) \<Rightarrow> (Inl err, c1, a4)
      | (Inr (probe, permit), a4) \<Rightarrow>
          (Inr \<lparr>at_scope = sc, at_provider = p, at_protocol = up, at_adapter = ad, at_endpoint = endpoint, at_http = http,
                circuit_probe = probe, provider_permit = permit, at_body = body, at_model = target_model t\<rparr>,
           c1, a4))))))))))"

section \<open>Outcomes\<close>

type_synonym chunks = "(TransportError + nat list) list"

datatype ProviderUpstreamResult =
    Response upstream_response
  | Stream chunks
  | AdapterResponse json
  | AdapterSseFailure AdapterSseError

record ('s, 'v, 'x) CompletedUpstream =
  cu_result :: ProviderUpstreamResult
  cu_circuit_probe :: CircuitProbePermit
  cu_provider_permit :: nat
  cu_adapter :: "('s, 'v, 'x) app ProviderAdapter"
  cu_adapter_id :: string
  cu_provider_id :: string
  cu_protocol :: UpstreamProtocol
  cu_model :: string

datatype ('s, 'v, 'x) DispatchOutcome =
    Completed "('s, 'v, 'x) CompletedUpstream"
  | TargetFailed
  | Terminal
  | StorageFailed StorageError

datatype ('s, 'v, 'x) SendStep =
    SendRotate
  | SendCompleted ProviderUpstreamResult
  | SendFailed "('s, 'v, 'x) DispatchOutcome"

text \<open>What the stages mutate: the attempt, the failures and the state.\<close>

type_synonym ('s, 'v, 'x) progress = "('s, 'v, 'x) AttemptContext \<times> TargetLoopFailures \<times> ('s, 'v, 'x) app"

definition settle_probe ::
  "(CircuitProbePermit \<Rightarrow> breakers \<Rightarrow> CircuitProbePermit \<times> breakers) \<Rightarrow> ('s, 'v, 'x) AttemptContext \<Rightarrow> ('s, 'v, 'x) app
     \<Rightarrow> ('s, 'v, 'x) AttemptContext \<times> ('s, 'v, 'x) app" where
  "settle_probe f at a =
     (case f (circuit_probe at) (breakers_of a) of (p, bs) \<Rightarrow> (at\<lparr>circuit_probe := p\<rparr>, set_breakers bs a))"

definition probe_failed ::
  "('s, 'v, 'x) environment \<Rightarrow> ('s, 'v, 'x) AttemptContext \<Rightarrow> ('s, 'v, 'x) app \<Rightarrow> ('s, 'v, 'x) AttemptContext \<times> ('s, 'v, 'x) app" where
  "probe_failed e at a = settle_probe (failed (app_circuit_settings a) (instant_now e a)) at a"

definition drop_attempt :: "('s, 'v, 'x) AttemptContext \<Rightarrow> ('s, 'v, 'x) app \<Rightarrow> ('s, 'v, 'x) app" where
  "drop_attempt at a =
     (let a1 = set_breakers (snd (release_probe (circuit_probe at) (breakers_of a))) a
      in set_bulkhead (drop_provider_permit (provider_permit at) (provider_in_flight (app_gates a1))) a1)"

definition log_failure ::
  "('s, 'v, 'x) environment \<Rightarrow> RequestLogPayload \<Rightarrow> nat \<Rightarrow> ('s, 'v, 'x) AttemptContext \<Rightarrow> string option \<Rightarrow> status \<Rightarrow> string
     \<Rightarrow> ('s, 'v, 'x) app \<Rightarrow> ('s, 'v, 'x) app" where
  "log_failure e l live_guard at cid st err a =
     log_request e (Some live_guard)
       (provider_failure l (instant_now e a) (prov_id (at_provider at)) (at_protocol at) cid st err (at_model at)) a"

definition adapter_sse_failure_outcome ::
  "('s, 'v, 'x) environment \<Rightarrow> RequestLogPayload \<Rightarrow> nat \<Rightarrow> ('s, 'v, 'x) progress \<Rightarrow> ('s, 'v, 'x) DispatchOutcome \<times> ('s, 'v, 'x) progress" where
  "adapter_sse_failure_outcome e l live_guard pr =
     (case pr of (at, f, a) \<Rightarrow>
      case last_adapter_sse_failure f of
        None \<Rightarrow> (TargetFailed, pr)
      | Some err \<Rightarrow>
          (case probe_failed e at a of
             (at1, a1) \<Rightarrow>
               (let f1 = f\<lparr>last_adapter_sse_failure := None, last_status := BAD_GATEWAY,
                           fl_error := about (at_provider at) ('' provider adapter stream failed: '' @ sse_message err)\<rparr>
                in (TargetFailed, at1, f1,
                    log_failure e l live_guard at1 (selected_credential_id f1) (last_status f1) (fl_error f1) a1))))"

definition all_credentials_rejected ::
  "('s, 'v, 'x) environment \<Rightarrow> RequestLogPayload \<Rightarrow> nat \<Rightarrow> ('s, 'v, 'x) progress \<Rightarrow> ('s, 'v, 'x) DispatchOutcome \<times> ('s, 'v, 'x) progress" where
  "all_credentials_rejected e l live_guard pr =
     (case pr of (at, f, a) \<Rightarrow>
      case last_key_rejection f of
        None \<Rightarrow> adapter_sse_failure_outcome e l live_guard pr
      | Some st \<Rightarrow>
          (let f1 = f\<lparr>last_status :=
                        (if is_quota_rejection (prov_adapter_id (at_provider at)) st then TOO_MANY_REQUESTS else BAD_GATEWAY),
                      fl_error :=
                        about (at_provider at) ('' rejected or rate-limited all available API keys (last response HTTP ''
                          @ show_nat st @ '')'')
                        @ (if upstream_retry_after f \<noteq> None then ''; retry after the provider's cooldown'' else [])\<rparr>
           in (TargetFailed, at, f1, log_failure e l live_guard at (selected_credential_id f1) st (fl_error f1) a)))"

text \<open>Whether a rejection withdraws the credential, from the detail the provider gave.\<close>

definition should_mark_invalid :: "string \<Rightarrow> status \<Rightarrow> string \<Rightarrow> bool" where
  "should_mark_invalid aid st detail =
     (if aid = ANTIGRAVITY_ADAPTER_ID \<and> st = FORBIDDEN then is_permanent_antigravity_ban detail
      else st = UNAUTHORIZED \<or> st = FORBIDDEN)"

definition note_quota_rejection ::
  "('s, 'v, 'x) environment \<Rightarrow> ('s, 'v, 'x) AttemptContext \<Rightarrow> ProviderCredential \<Rightarrow> duration option \<Rightarrow> ('s, 'v, 'x) app
     \<Rightarrow> ('s, 'v, 'x) app option" where
  "note_quota_rejection e at credential delay a =
     (if prov_adapter_id (at_provider at) \<noteq> ANTIGRAVITY_ADAPTER_ID then Some a
      else
        case cred_id credential of
          None \<Rightarrow> Some a
        | Some key \<Rightarrow>
            map_option (\<lambda>rt. a\<lparr>app_usage := rt\<rparr>)
              (record_antigravity_quota_rejection (prov_id (at_provider at)) key (at_model at) delay (instant_now e a) (app_usage a)))"

definition record_credential_rejection ::
  "('s, 'v, 'x) environment \<Rightarrow> RequestLogPayload \<Rightarrow> nat \<Rightarrow> ProviderCredential \<Rightarrow> AdapterRequestError \<Rightarrow> ('s, 'v, 'x) progress
     \<Rightarrow> ((StorageError + unit) \<times> ('s, 'v, 'x) progress) option" where
  "record_credential_rejection e l live_guard credential err pr =
     (case pr of (at, f, a) \<Rightarrow>
      let st = (case adapter_error_status err of Some s \<Rightarrow> s | None \<Rightarrow> BAD_GATEWAY);
          aid = prov_adapter_id (at_provider at);
          pid = prov_id (at_provider at);
          quota = is_quota_rejection aid st;
          f1 = f\<lparr>last_key_rejection := Some st,
                 upstream_retry_after := (if quota then adapter_error_retry_after err else upstream_retry_after f)\<rparr>
      in Option.bind
           (if quota then note_quota_rejection e at credential (Option.bind (adapter_error_retry_after err) retry_after_duration) a
            else Some a) (\<lambda>a1.
         case (if should_mark_invalid aid st (adapter_error_message err)
               then case cred_id credential of Some key \<Rightarrow> mark_invalid e pid key st a1 | None \<Rightarrow> (Inr (), a1)
               else (Inr (), a1)) of
           (Inl se, a2) \<Rightarrow> Some (Inl se, at, f1, a2)
         | (Inr _, a2) \<Rightarrow>
             Some (Inr (), at, f1, log_failure e l live_guard at (cred_id credential) st
               (provider_http_error_message pid st (adapter_error_message err)) a2)))"

definition transport_failure ::
  "('s, 'v, 'x) environment \<Rightarrow> RequestLogPayload \<Rightarrow> nat \<Rightarrow> TransportError \<Rightarrow> ('s, 'v, 'x) progress
     \<Rightarrow> ('s, 'v, 'x) DispatchOutcome \<times> ('s, 'v, 'x) progress" where
  "transport_failure e l live_guard err pr =
     (case pr of (at, f, a) \<Rightarrow>
      case probe_failed e at a of
        (at1, a1) \<Rightarrow>
          (let f1 = f\<lparr>last_status := BAD_GATEWAY,
                      fl_error := about (at_provider at) ('' request '' @ upstream_transport_error_message err)\<rparr>
           in (TargetFailed, at1, f1,
               log_failure e l live_guard at1 (selected_credential_id f1) (last_status f1) (fl_error f1) a1)))"

definition retry_after_value :: "upstream_response \<Rightarrow> string option" where
  "retry_after_value r =
     (case header_get (up_headers r) ''retry-after'' of
        Some v \<Rightarrow> if length v \<le> 128 then Some v else None
      | None \<Rightarrow> None)"

definition recorded_status :: "string \<Rightarrow> status \<Rightarrow> status" where
  "recorded_status aid st =
     (if is_quota_rejection aid st then TOO_MANY_REQUESTS
      else if st = UNAUTHORIZED \<or> st = FORBIDDEN \<or> is_server_error st \<or> st = REQUEST_TIMEOUT then BAD_GATEWAY
      else if is_client_error st \<and> st \<noteq> REQUEST_TIMEOUT \<and> st \<noteq> TOO_MANY_REQUESTS then st
      else BAD_GATEWAY)"

definition error_detail :: "('s, 'v, 'x) environment \<Rightarrow> RequestScope \<Rightarrow> upstream_response \<Rightarrow> string" where
  "error_detail e sc r =
     read_provider_error_detail (cd_json (env_codecs e)) (env_utf8 e) r (upstream_response_limit_bytes (sc_settings sc))"

definition unsuccessful_status ::
  "('s, 'v, 'x) environment \<Rightarrow> RequestLogPayload \<Rightarrow> nat \<Rightarrow> upstream_response \<Rightarrow> status \<Rightarrow> ('s, 'v, 'x) progress
     \<Rightarrow> ('s, 'v, 'x) DispatchOutcome \<times> ('s, 'v, 'x) progress" where
  "unsuccessful_status e l live_guard r st pr =
     (case pr of (at, f, a) \<Rightarrow>
      let aid = prov_adapter_id (at_provider at);
          pid = prov_id (at_provider at);
          quota = is_quota_rejection aid st;
          f1 = f\<lparr>upstream_retry_after := (if quota then retry_after_value r else upstream_retry_after f),
                 last_status := recorded_status aid st,
                 fl_error := about (at_provider at) ('' returned HTTP '' @ status_display e st)\<rparr>
      in case (if \<not> quota \<and> is_retryable st then probe_failed e at a else settle_probe abort at a) of
           (at1, a1) \<Rightarrow>
             (if can_fail_over_after_provider_rejection st then TargetFailed else Terminal, at1, f1,
              log_failure e l live_guard at1 (selected_credential_id f1) st
                (provider_http_error_message pid st (error_detail e (at_scope at) r)) a1))"

section \<open>Sending\<close>

definition auth_context ::
  "('s, 'v, 'x) AttemptContext \<Rightarrow> string option \<Rightarrow> OAuthRequestAuth option \<Rightarrow> string \<Rightarrow> UpstreamAuthContext" where
  "auth_context at secret oauth session_id =
     \<lparr>auth_type = prov_auth_type (at_provider at), auth_header = prov_auth_header (at_provider at),
      auth_secret = secret, auth_oauth = oauth, auth_session_id = session_id, auth_protocol = at_protocol at,
      auth_model = Some (at_model at)\<rparr>"

definition build_upstream_request ::
  "('s, 'v, 'x) environment \<Rightarrow> ('s, 'v, 'x) AttemptContext \<Rightarrow> string option \<Rightarrow> OAuthRequestAuth option \<Rightarrow> AdapterRequestPreparation
     \<Rightarrow> string \<Rightarrow> string + RequestBuilder" where
  "build_upstream_request e at secret oauth prep session_id =
     (let p = at_provider at;
          r0 = rb_header ''x-request-id'' (sc_request_id (at_scope at))
                 \<lparr>rb_url = at_endpoint at, rb_headers = [(''content-type'', ''application/json'')], rb_body = at_body at\<rparr>;
          r1 = (if wants_event_stream (adapters e) (prov_adapter_id p)
                   \<or> sc_stream (at_scope at) \<and> at_protocol at = GoogleGenerateContent
                then rb_header ''accept'' ''text/event-stream'' r0 else r0);
          r2 = (if at_protocol at = UpMessages then rb_header ''anthropic-version'' ''2023-06-01'' r1 else r1)
      in rbind (apply_custom_headers (http_header_name e) (prov_custom_headers p) r2) (\<lambda>r3.
           let r4 = ad_apply_client_headers (at_adapter at) (sc_client_headers (at_scope at)) r3;
               r5 = fold (\<lambda>(n, v) r. rb_header n v r) (prep_headers prep) r4
           in apply_upstream_request_auth (adapters e) (yaml_presets e) (prov_adapter_id p)
                (auth_context at secret oauth session_id) r5))"

fun response_status :: "TransportError + upstream_response \<Rightarrow> status option" where
  "response_status (Inr r) = Some (up_status r)"
| "response_status (Inl _) = None"

definition opencode_auth_rejection :: "string \<Rightarrow> TransportError + upstream_response \<Rightarrow> bool" where
  "opencode_auth_rejection aid response =
     (response_status response \<in> {Some UNAUTHORIZED, Some FORBIDDEN} \<and>
      (aid = OPENCODE_GO_ADAPTER_ID \<or> aid = OPENCODE_ZEN_ADAPTER_ID))"

text \<open>The request, and for OpenCode one more with a fresh session after a rejection; only a success replaces the first response.\<close>

definition exchange ::
  "('s, 'v, 'x) environment \<Rightarrow> ('s, 'v, 'x) AttemptContext \<Rightarrow> string option \<Rightarrow> OAuthRequestAuth option \<Rightarrow> AdapterRequestPreparation
     \<Rightarrow> RequestBuilder \<Rightarrow> ('s, 'v, 'x) app \<Rightarrow> (TransportError + upstream_response) \<times> ('s, 'v, 'x) app" where
  "exchange e at secret oauth prep request a =
     (case http_send e (at_http at) request a of
        (response, a1) \<Rightarrow>
          if \<not> opencode_auth_rejection (prov_adapter_id (at_provider at)) response then (response, a1)
          else
            (case new_v4 e (sleep_for e (from_millis 500) a1) of
               (fresh_session_id, a2) \<Rightarrow>
                 (case build_upstream_request e at secret oauth prep fresh_session_id of
                    Inl _ \<Rightarrow> (response, a2)
                  | Inr retry_request \<Rightarrow>
                      (case http_send e (at_http at) retry_request a2 of
                         (retried, a3) \<Rightarrow>
                           ((case response_status retried of
                               Some st \<Rightarrow> if is_success st then retried else response
                             | None \<Rightarrow> response), a3)))))"

section \<open>Classifying a response\<close>

definition key_rejected :: "('s, 'v, 'x) environment \<Rightarrow> string \<Rightarrow> ProviderCredential \<Rightarrow> status \<Rightarrow> bool" where
  "key_rejected e aid credential st =
     (cred_id credential \<noteq> None \<and> retry_upstream_response_as_key_rejection (adapters e) aid \<and>
      is_key_rejection_status (adapters e) aid st)"

text \<open>A rejected credential that the adapter cannot repair is marked invalid.\<close>

definition withdraw_rejected ::
  "('s, 'v, 'x) environment \<Rightarrow> string \<Rightarrow> string \<Rightarrow> status \<Rightarrow> string \<Rightarrow> ProviderCredential \<Rightarrow> ('s, 'v, 'x) app
     \<Rightarrow> (StorageError + unit) \<times> ('s, 'v, 'x) app" where
  "withdraw_rejected e aid pid st detail credential a =
     (case cred_id credential of
        Some key \<Rightarrow>
          if \<not> should_mark_invalid aid st detail then (Inr (), a)
          else (case repair_rejected_credential (adapters e) aid pid key st a of
                  (True, a1) \<Rightarrow> (Inr (), a1)
                | (False, a1) \<Rightarrow> mark_invalid e pid key st a1)
      | None \<Rightarrow> (Inr (), a))"

definition reject_key ::
  "('s, 'v, 'x) environment \<Rightarrow> RequestLogPayload \<Rightarrow> nat \<Rightarrow> ProviderCredential \<Rightarrow> upstream_response \<Rightarrow> ('s, 'v, 'x) progress
     \<Rightarrow> (('s, 'v, 'x) SendStep \<times> ('s, 'v, 'x) progress) option" where
  "reject_key e l live_guard credential r pr =
     (case pr of (at, f, a) \<Rightarrow>
      let st = up_status r;
          aid = prov_adapter_id (at_provider at);
          pid = prov_id (at_provider at);
          quota = is_quota_rejection aid st;
          f1 = f\<lparr>last_key_rejection := Some st,
                 upstream_retry_after := (if quota then retry_after_value r else upstream_retry_after f)\<rparr>;
          detail = error_detail e (at_scope at) r
      in Option.bind
           (if quota then note_quota_rejection e at credential (Option.bind (upstream_retry_after f1) retry_after_duration) a
            else Some a) (\<lambda>a1.
         case withdraw_rejected e aid pid st detail credential a1 of
           (Inl se, a3) \<Rightarrow> Some (SendFailed (StorageFailed se), at, f1, a3)
         | (Inr _, a3) \<Rightarrow>
             Some (SendRotate, at, f1, log_failure e l live_guard at (cred_id credential) st
               (provider_http_error_message pid st detail) a3)))"

definition decode_adapter_stream ::
  "('s, 'v, 'x) environment \<Rightarrow> upstream_response \<Rightarrow> ('s, 'v, 'x) progress \<Rightarrow> ('s, 'v, 'x) SendStep \<times> ('s, 'v, 'x) progress" where
  "decode_adapter_stream e r pr =
     (case pr of (at, f, a) \<Rightarrow>
      if \<not> accepts_event_stream_response r (ad_allows_missing_event_stream_content_type (at_adapter at))
      then (SendCompleted (Response r), pr)
      else
        case read_adapter_event_stream (adapters e) (prov_adapter_id (at_provider at)) r
               (upstream_response_limit_bytes (sc_settings (at_scope at))) a of
          (Inr v, a1) \<Rightarrow> (SendCompleted (AdapterResponse v), at, f, a1)
        | (Inl err, a1) \<Rightarrow>
            if adapter_sse_error_can_fail_over False err
            then (SendRotate, at, f\<lparr>last_adapter_sse_failure := Some err\<rparr>, a1)
            else (SendCompleted (AdapterSseFailure err), at, f, a1))"

definition preflight_response ::
  "('s, 'v, 'x) environment \<Rightarrow> upstream_response \<Rightarrow> ('s, 'v, 'x) progress \<Rightarrow> ('s, 'v, 'x) SendStep \<times> ('s, 'v, 'x) progress" where
  "preflight_response e r pr =
     (case pr of (at, f, a) \<Rightarrow>
      if \<not> accepts_event_stream_response r (ad_allows_missing_event_stream_content_type (at_adapter at))
      then (SendCompleted (Response r), pr)
      else
        case preflight_stream e r (at_protocol at) (sc_client_protocol (at_scope at)) (at_model at)
               (stream_idle_timeout (sc_settings (at_scope at))) (sc_resource_limits (at_scope at)) a of
          (Inr cs, a1) \<Rightarrow> (SendCompleted (Stream cs), at, f, a1)
        | (Inl err, a1) \<Rightarrow>
            (SendRotate, at,
             f\<lparr>last_status := BAD_GATEWAY, fl_error := about (at_provider at) ('' stream failed before output: '' @ err),
               last_adapter_sse_failure := Some \<lparr>sse_message = err, safe_to_fail_over = True\<rparr>\<rparr>, a1))"

definition select_credential :: "ProviderCredential \<Rightarrow> TargetLoopFailures \<Rightarrow> TargetLoopFailures" where
  "select_credential credential f = f\<lparr>selected_credential_id := cred_id credential\<rparr>"

definition plain_response ::
  "('s, 'v, 'x) environment \<Rightarrow> RequestLogPayload \<Rightarrow> nat \<Rightarrow> ProviderCredential \<Rightarrow> upstream_response \<Rightarrow> ('s, 'v, 'x) progress
     \<Rightarrow> ('s, 'v, 'x) SendStep \<times> ('s, 'v, 'x) progress" where
  "plain_response e l live_guard credential r pr =
     (case pr of (at, f, a) \<Rightarrow>
      if is_success (up_status r) then
        (SendCompleted (Response r), at, f,
         case cred_id credential of
           Some key \<Rightarrow>
             if prov_adapter_id (at_provider at) = ANTIGRAVITY_ADAPTER_ID
             then a\<lparr>app_usage := clear_antigravity_quota_breaker (prov_id (at_provider at)) key (at_model at) (app_usage a)\<rparr>
             else a
         | None \<Rightarrow> a)
      else
        case unsuccessful_status e l live_guard r (up_status r) pr of
          (out, pr') \<Rightarrow> (SendFailed out, pr'))"

definition classify_response ::
  "('s, 'v, 'x) environment \<Rightarrow> RequestLogPayload \<Rightarrow> nat \<Rightarrow> ProviderCredential \<Rightarrow> TransportError + upstream_response
     \<Rightarrow> ('s, 'v, 'x) progress \<Rightarrow> (('s, 'v, 'x) SendStep \<times> ('s, 'v, 'x) progress) option" where
  "classify_response e l live_guard credential response pr =
     (case pr of (at, f, a) \<Rightarrow>
      case response of
        Inl err \<Rightarrow>
          (case transport_failure e l live_guard err (at, select_credential credential f, a) of
             (out, pr') \<Rightarrow> Some (SendFailed out, pr'))
      | Inr r \<Rightarrow>
          if key_rejected e (prov_adapter_id (at_provider at)) credential (up_status r)
          then reject_key e l live_guard credential r pr
          else
            map_option (\<lambda>a1.
              let pr1 = (at, select_credential credential f, a1) in
              if ad_wants_event_stream (at_adapter at) \<and> \<not> sc_stream (at_scope at) \<and> is_success (up_status r)
              then decode_adapter_stream e r pr1
              else if sc_stream (at_scope at) \<and> is_success (up_status r) then preflight_response e r pr1
              else plain_response e l live_guard credential r pr1)
              (mark_used e credential a))"

definition send_request ::
  "('s, 'v, 'x) environment \<Rightarrow> RequestLogPayload \<Rightarrow> nat \<Rightarrow> ProviderCredential \<Rightarrow> string option \<Rightarrow> OAuthRequestAuth option
     \<Rightarrow> AdapterRequestPreparation \<Rightarrow> ('s, 'v, 'x) progress \<Rightarrow> (('s, 'v, 'x) SendStep \<times> ('s, 'v, 'x) progress) option" where
  "send_request e l live_guard credential secret oauth prep pr =
     (case pr of (at, f, a) \<Rightarrow>
      let aid = prov_adapter_id (at_provider at);
          session_id = sc_adapter_session_id (at_scope at)
      in case build_upstream_request e at secret oauth prep session_id of
           Inl err \<Rightarrow> Some (SendFailed TargetFailed, at, f\<lparr>fl_error := err\<rparr>, a)
         | Inr request \<Rightarrow>
             (let a1 = (if (case capabilities (yaml_presets e) aid of Some c \<Rightarrow> local_quota_tracking c | None \<Rightarrow> False)
                        then a\<lparr>app_rpm := snd (rpm_record (prov_id (at_provider at)) (instant_now e a) (app_rpm a))\<rparr> else a)
              in case exchange e at secret oauth prep request a1 of
                   (response, a2) \<Rightarrow>
                     classify_response e l live_guard credential response
                       (at, f, finish_upstream_request (adapters e) aid prep (auth_context at secret oauth session_id)
                          (response_status response) a2)))"

section \<open>The credential loop\<close>

text \<open>The body of the loop for one credential: \<open>None\<close> asks for the next credential.\<close>

definition request_context ::
  "('s, 'v, 'x) AttemptContext \<Rightarrow> string option \<Rightarrow> OAuthRequestAuth option \<Rightarrow> AdapterRequestContext" where
  "request_context at secret oauth =
     \<lparr>ctx_base_url = prov_base_url (at_provider at),
      ctx_base_url_override = sc_adapter_base_url_override (at_scope at), ctx_model = at_model at,
      ctx_request_id = sc_request_id (at_scope at), ctx_streaming = sc_stream (at_scope at),
      ctx_auth = auth_context at secret oauth (sc_adapter_session_id (at_scope at))\<rparr>"

definition completed_upstream ::
  "ProviderUpstreamResult \<Rightarrow> ('s, 'v, 'x) AttemptContext \<Rightarrow> ('s, 'v, 'x) CompletedUpstream" where
  "completed_upstream result at =
     \<lparr>cu_result = result, cu_circuit_probe = circuit_probe at, cu_provider_permit = provider_permit at,
      cu_adapter = at_adapter at, cu_adapter_id = prov_adapter_id (at_provider at),
      cu_provider_id = prov_id (at_provider at), cu_protocol = at_protocol at, cu_model = at_model at\<rparr>"

definition handle_key_rejection ::
  "('s, 'v, 'x) environment \<Rightarrow> RequestLogPayload \<Rightarrow> nat \<Rightarrow> ProviderCredential \<Rightarrow> AdapterRequestError \<Rightarrow> ('s, 'v, 'x) progress
     \<Rightarrow> (bool \<times> ('s, 'v, 'x) progress) option" where
  "handle_key_rejection e l live_guard credential err pr =
     map_option (\<lambda>(res, at, f, a).
       case res of
         Inr _ \<Rightarrow> (True, at, f, a)
       | Inl _ \<Rightarrow>
           (False, at, f\<lparr>last_status := SERVICE_UNAVAILABLE, fl_error := ''could not persist provider key failure state''\<rparr>, a))
       (record_credential_rejection e l live_guard credential err pr)"

definition preflight_failed ::
  "('s, 'v, 'x) environment \<Rightarrow> RequestLogPayload \<Rightarrow> nat \<Rightarrow> ProviderCredential \<Rightarrow> AdapterRequestError \<Rightarrow> ('s, 'v, 'x) progress
     \<Rightarrow> ('s, 'v, 'x) progress" where
  "preflight_failed e l live_guard credential err pr =
     (case pr of (at, f, a) \<Rightarrow>
      let st = (case adapter_error_status err of Some s \<Rightarrow> s | None \<Rightarrow> BAD_GATEWAY);
          f1 = f\<lparr>last_status := st,
                 fl_error := about (at_provider at) ('' adapter preflight failed: '' @ adapter_error_message err)\<rparr>
      in case probe_failed e at a of
           (at1, a1) \<Rightarrow> (at1, f1, log_failure e l live_guard at1 (cred_id credential) st (fl_error f1) a1))"

definition attempt_credential ::
  "('s, 'v, 'x) environment \<Rightarrow> RequestLogPayload \<Rightarrow> nat \<Rightarrow> ProviderCredential \<Rightarrow> ('s, 'v, 'x) progress
     \<Rightarrow> (('s, 'v, 'x) DispatchOutcome option \<times> ('s, 'v, 'x) progress) option" where
  "attempt_credential e l live_guard credential pr =
     (case pr of (at, f, a) \<Rightarrow>
      let p = at_provider at in
      case quota_cooldown_skip e p credential (at_model at) a of
        (True, a1) \<Rightarrow>
          Some (None, at, f\<lparr>last_status := TOO_MANY_REQUESTS,
            fl_error := about p ('' account is in an Antigravity quota cooldown for model '' @ quoted (at_model at))\<rparr>, a1)
      | (False, a1) \<Rightarrow>
      (case resolve_credential_auth e p credential a1 of
         (Rotate message, a2) \<Rightarrow> Some (None, at, f\<lparr>fl_error := message\<rparr>, a2)
       | (Ready secret oauth, a2) \<Rightarrow>
      (case prepare_upstream_request (adapters e) (prov_adapter_id p) (request_context at secret oauth) (at_body at) a2 of
         (Inl err, body, a3) \<Rightarrow>
           (let at1 = at\<lparr>at_body := body\<rparr> in
            if cred_id credential \<noteq> None \<and> (case adapter_error_status err of
                 Some st \<Rightarrow> is_key_rejection_status (adapters e) (prov_adapter_id p) st | None \<Rightarrow> False)
            then map_option (\<lambda>(rotate_on, pr'). (if rotate_on then None else Some Terminal, pr'))
                   (handle_key_rejection e l live_guard credential err (at1, f, a3))
            else Some (Some Terminal, preflight_failed e l live_guard credential err (at1, f, a3)))
       | (Inr prep, body, a3) \<Rightarrow>
           map_option (\<lambda>(step, at', f', a').
             (case step of
                SendRotate \<Rightarrow> None
              | SendCompleted result \<Rightarrow> Some (Completed (completed_upstream result at'))
              | SendFailed out \<Rightarrow> Some out, at', f', a'))
             (send_request e l live_guard credential secret oauth prep (at\<lparr>at_body := body\<rparr>, f, a3)))))"

fun credential_loop ::
  "nat \<Rightarrow> ('s, 'v, 'x) environment \<Rightarrow> RequestLogPayload \<Rightarrow> nat \<Rightarrow> CredentialRotation \<Rightarrow> ('s, 'v, 'x) progress
     \<Rightarrow> (('s, 'v, 'x) DispatchOutcome \<times> ('s, 'v, 'x) progress) option" where
  "credential_loop 0 e l live_guard rot pr = None"
| "credential_loop (Suc n) e l live_guard rot pr =
     (case rot_current rot of
        None \<Rightarrow> Some (all_credentials_rejected e l live_guard pr)
      | Some credential \<Rightarrow>
          (case attempt_credential e l live_guard credential pr of
             None \<Rightarrow> None
           | Some (Some out, pr1) \<Rightarrow> Some (out, pr1)
           | Some (None, at1, f1, a1) \<Rightarrow>
               (case rotation_advance n rot a1 of
                  None \<Rightarrow> None
                | Some (Inl err) \<Rightarrow> Some (StorageFailed err, at1, f1, a1)
                | Some (Inr rot1) \<Rightarrow> credential_loop n e l live_guard rot1 (at1, f1, a1))))"

text \<open>\<open>dispatch_target\<close>: the permits move into a completed result, and are dropped with the attempt otherwise.\<close>

definition dispatch_target ::
  "nat \<Rightarrow> ('s, 'v, 'x) environment \<Rightarrow> RequestLogPayload \<Rightarrow> nat \<Rightarrow> CredentialRotation \<Rightarrow> ('s, 'v, 'x) progress
     \<Rightarrow> (('s, 'v, 'x) DispatchOutcome \<times> TargetLoopFailures \<times> ('s, 'v, 'x) app) option" where
  "dispatch_target fuel e l live_guard rot pr =
     map_option (\<lambda>(out, at, f, a). (out, f, case out of Completed _ \<Rightarrow> a | _ \<Rightarrow> drop_attempt at a))
       (credential_loop fuel e l live_guard rot pr)"

end
