(* ===== verification/CredentialLoop.thy ===== *)
theory CredentialLoop
  imports Dispatch
begin

text \<open>
  The credential loop ends. The keys of a provider are tried in the order of an index that requests do not change, so
  every call of the cursor moves it strictly forward, whatever other requests write to the records of the keys.
\<close>

section \<open>The cursor moves forward\<close>

definition window_positions :: "string option \<Rightarrow> (string \<times> string) list \<Rightarrow> string set" where
  "window_positions stop W = {fst e | e. e \<in> set W \<and> before_stop stop (fst e)}"

lemma inspect_window_positions:
  assumes "inspect_window db p b stop ex lp W = Inr (fo, lp', ex')"
  shows "(\<forall>x. fo = Some x \<longrightarrow> fst x \<in> window_positions stop W) \<and> (lp' = lp \<or> (\<exists>q \<in> window_positions stop W. lp' = Some q))"
  using assms
proof (induction W arbitrary: lp)
  case Nil
  then show ?case by simp
next
  case (Cons e W)
  obtain q k where e: "e = (q, k)" by fastforce
  show ?case
  proof (cases "before_stop stop q")
    case False
    then have "(case stop of Some l \<Rightarrow> l \<le> q | None \<Rightarrow> False)" by (cases stop) (auto simp: before_stop_def)
    then show ?thesis using Cons.prems by (auto simp: e)
  next
    case True
    have mem: "q \<in> window_positions stop (e # W)" using True by (auto simp: window_positions_def e)
    have sub: "window_positions stop W \<subseteq> window_positions stop (e # W)" by (auto simp: window_positions_def)
    have go: "\<not> (case stop of Some l \<Rightarrow> l \<le> q | None \<Rightarrow> False)"
      using True by (cases stop) (auto simp: before_stop_def)
    then consider "inspect_window db p b stop ex (Some q) W = Inr (fo, lp', ex')"
      | r ad where "fo = Some (q, k, r, ad)" "lp' = Some q"
      using Cons.prems by (auto simp: e rbind_eq_Inr split: option.splits)
    then show ?thesis
    proof cases
      case 1
      show ?thesis using Cons.IH [OF 1] mem sub by blast
    next
      case 2
      then show ?thesis using mem by auto
    qed
  qed
qed

definition cursor_at :: "string \<Rightarrow> (string \<times> string) list \<Rightarrow> ProviderApiKeyCursor \<Rightarrow> bool" where
  "cursor_at p E cur \<longleftrightarrow> cursor_provider cur = p \<and> (\<forall>q. after cur = Some q \<longrightarrow> q \<in> fst ` set E)"

definition cursor_fits :: "'s key_db \<Rightarrow> string \<Rightarrow> ProviderApiKeyCursor \<Rightarrow> bool" where
  "cursor_fits db p cur \<longleftrightarrow> cursor_provider cur = p \<and> position_ok db p (after cur)"

lemma cursor_at_fits: "key_order db p E \<Longrightarrow> cursor_at p E cur \<Longrightarrow> cursor_fits db p cur"
  using key_order_position [of db p E] unfolding cursor_at_def cursor_fits_def position_ok_def by fastforce

lemma read_window_positions:
  assumes "key_order db p E" "cursor_fits db p cur" "read_window db cur = Inr (fo, lp, ex)"
  shows "(\<forall>x. fo = Some x \<longrightarrow> fst x \<in> fst ` set (pass E cur)) \<and> (\<forall>q. lp = Some q \<longrightarrow> q \<in> fst ` set (pass E cur))"
proof -
  let ?stop = "if wrapped cur then stop_before cur else None"
  let ?W = "take KEY_ORDER_SCAN_WINDOW (filter (\<lambda>e. after_start (after cur) (fst e)) E)"
  obtain pre where w: "provider_api_key_created_prefix (kd_sha db) p = Inr pre"
    "scan_prefix_after (kd_heed db) (kd_ids db) (kd_zstd db) (kd_dictionary db) (kd_snapshot db)
      ProviderApiKeyCreatedIndex pre (after cur) KEY_ORDER_SCAN_WINDOW = Inr ?W"
    using window_entries [OF assms(1)] assms(2) unfolding cursor_fits_def by blast
  have "inspect_window db p (recovering cur) ?stop (length ?W < KEY_ORDER_SCAN_WINDOW) None ?W = Inr (fo, lp, ex)"
    using w assms(2,3) by (simp add: read_window_def cursor_fits_def)
  from inspect_window_positions [OF this]
  have "(\<forall>x. fo = Some x \<longrightarrow> fst x \<in> window_positions ?stop ?W) \<and> (\<forall>q. lp = Some q \<longrightarrow> q \<in> window_positions ?stop ?W)"
    by auto
  moreover have "window_positions ?stop ?W \<subseteq> fst ` set (pass E cur)"
  proof
    fix q
    assume "q \<in> window_positions ?stop ?W"
    then obtain e where e: "e \<in> set ?W" "q = fst e" "before_stop ?stop (fst e)" by (auto simp: window_positions_def)
    then have "e \<in> set (pass E cur)" using in_set_takeD [OF e(1)] by (simp add: in_pass_def)
    then show "q \<in> fst ` set (pass E cur)" using e(2) by simp
  qed
  ultimately show ?thesis by blast
qed

text \<open>How much a cursor still has to visit: the passes ahead of it and the entries of its own pass.\<close>

definition passes_ahead :: "ProviderApiKeyCursor \<Rightarrow> nat" where
  "passes_ahead cur = (if recovering cur then 0 else 1) + (if wrapped cur \<or> stop_before cur = None then 0 else 1)"

definition cursor_rank :: "(string \<times> string) list \<Rightarrow> ProviderApiKeyCursor \<Rightarrow> nat" where
  "cursor_rank E cur = passes_ahead cur * (length E + 2) + (if finished cur then 0 else length (pass E cur) + 1)"

lemma cursor_rank_le: "cursor_rank E cur \<le> 3 * length E + 5"
proof -
  obtain n where "n = length (pass E cur)" "n \<le> length E" by simp
  then show ?thesis by (auto simp: cursor_rank_def passes_ahead_def simp flip: \<open>n = length (pass E cur)\<close>)
qed

lemma next_pass_rank:
  assumes "next_pass cur = Some cur1" "finished cur"
  shows "cursor_rank E cur1 < cursor_rank E cur"
proof -
  obtain n where n: "n = length (pass E cur1)" "n \<le> length E" by simp
  have "passes_ahead cur1 < passes_ahead cur" "\<not> finished cur1"
    using assms by (auto simp: next_pass_def passes_ahead_def split: if_splits)
  then have "passes_ahead cur1 * (length E + 2) + (length E + 2) \<le> passes_ahead cur * (length E + 2)"
    by (metis Suc_leI add.commute mult_Suc mult_le_mono1)
  then have "passes_ahead cur1 * (length E + 2) + (n + 1) < passes_ahead cur * (length E + 2)" using n(2) by linarith
  then show ?thesis using assms(2) \<open>\<not> finished cur1\<close> by (simp add: cursor_rank_def n(1))
qed

lemma next_pass_not_finished: "next_pass cur = Some cur1 \<Longrightarrow> \<not> finished cur1"
  by (auto simp: next_pass_def split: if_splits)

lemma next_pass_rank_le: "next_pass cur = Some cur1 \<Longrightarrow> cursor_rank E cur1 \<le> cursor_rank E cur"
proof (cases "finished cur")
  case True
  then show "next_pass cur = Some cur1 \<Longrightarrow> ?thesis" using next_pass_rank [of cur cur1 E] by simp
next
  case False
  then show "next_pass cur = Some cur1 \<Longrightarrow> ?thesis" by (simp add: next_pass_def)
qed

lemma next_pass_fits: "next_pass cur = Some cur1 \<Longrightarrow> cursor_fits db p cur \<Longrightarrow> cursor_fits db p cur1"
  by (auto simp: next_pass_def cursor_fits_def position_ok_def split: if_splits)

lemma pass_shrinks:
  assumes "q \<in> fst ` set (pass E cur)"
  shows "length (pass E (cur\<lparr>after := Some q\<rparr>)) < length (pass E cur)"
proof -
  obtain e where e: "e \<in> set (pass E cur)" "q = fst e" using assms by auto
  have "pass E (cur\<lparr>after := Some q\<rparr>) = filter (\<lambda>x. q < fst x) (pass E cur)"
    using e by (auto simp: in_pass_def after_start_def intro!: filter_cong split: option.splits)
  then show ?thesis using length_filter_less [of e "pass E cur" "\<lambda>x. q < fst x"] e by simp
qed

lemma moved_rank:
  assumes "\<not> finished cur" "q \<in> fst ` set (pass E cur)"
  shows "cursor_rank E (cur\<lparr>after := Some q\<rparr>) < cursor_rank E cur"
  using pass_shrinks [OF assms(2)] assms(1) by (simp add: cursor_rank_def passes_ahead_def)

lemma moved_at: "cursor_fits db p cur \<Longrightarrow> q \<in> fst ` set (pass E cur) \<Longrightarrow> cursor_at p E (cur\<lparr>after := Some q\<rparr>)"
  by (auto simp: cursor_at_def cursor_fits_def)

definition moved_to :: "ProviderApiKeyCursor \<Rightarrow> string option \<Rightarrow> bool \<Rightarrow> ProviderApiKeyCursor" where
  "moved_to cur lp ex =
     (let cur2 = (case lp of Some q \<Rightarrow> cur\<lparr>after := Some q\<rparr> | None \<Rightarrow> cur\<lparr>finished := True\<rparr>)
      in if ex then cur2\<lparr>finished := True\<rparr> else cur2)"

lemma moved_to_rank:
  assumes "\<not> finished cur" "\<And>q. lp = Some q \<Longrightarrow> q \<in> fst ` set (pass E cur)"
  shows "cursor_rank E (moved_to cur lp ex) < cursor_rank E cur"
proof -
  have fin: "cursor_rank E (c\<lparr>finished := True\<rparr>) \<le> cursor_rank E c" for c
    by (simp add: cursor_rank_def passes_ahead_def)
  have "cursor_rank E (cur\<lparr>finished := True\<rparr>) < cursor_rank E cur"
    using assms(1) by (simp add: cursor_rank_def passes_ahead_def)
  then show ?thesis
    using moved_rank [OF assms(1) assms(2)] fin
    by (cases lp) (auto simp: moved_to_def Let_def intro: le_less_trans)
qed

lemma moved_to_fits:
  assumes "key_order db p E" "cursor_fits db p cur" "\<And>q. lp = Some q \<Longrightarrow> q \<in> fst ` set (pass E cur)"
  shows "cursor_fits db p (moved_to cur lp ex)"
proof (cases lp)
  case None
  then show ?thesis using assms(2) by (simp add: moved_to_def cursor_fits_def Let_def)
next
  case (Some q)
  have "cursor_fits db p (cur\<lparr>after := Some q\<rparr>)"
    by (rule cursor_at_fits [OF assms(1) moved_at [OF assms(2)]]) (use assms(3) Some in simp)
  then show ?thesis using Some by (simp add: moved_to_def cursor_fits_def Let_def)
qed

text \<open>
  With more fuel than its rank a call returns, and a row it returns moves the cursor strictly forward.
\<close>

definition moved_on :: "string \<Rightarrow> (string \<times> string) list \<Rightarrow> ProviderApiKeyCursor
    \<Rightarrow> StorageError + ProviderApiKeyRow option \<times> ProviderApiKeyCursor \<Rightarrow> bool" where
  "moved_on p E cur res \<longleftrightarrow>
     (\<forall>row cur'. res = Inr (Some row, cur') \<longrightarrow> cursor_at p E cur' \<and> cursor_rank E cur' < cursor_rank E cur)"

lemma moved_on_trans: "moved_on p E cur1 res \<Longrightarrow> cursor_rank E cur1 \<le> cursor_rank E cur \<Longrightarrow> moved_on p E cur res"
  by (fastforce simp: moved_on_def)

lemma cursor_next_returns:
  assumes "key_order db p E" "cursor_fits db p cur" "cursor_rank E cur < fuel"
  shows "\<exists>res. cursor_next fuel db cur = Some res \<and> moved_on p E cur res"
  using assms(2,3)
proof (induction fuel arbitrary: cur)
  case 0
  then show ?case by simp
next
  case (Suc fuel)
  show ?case
  proof (cases "next_pass cur")
    case None
    then show ?thesis by (simp add: moved_on_def)
  next
    case (Some cur1)
    note np = this
    have nf: "\<not> finished cur1" by (rule next_pass_not_finished [OF np])
    have fits: "cursor_fits db p cur1" by (rule next_pass_fits [OF np Suc.prems(1)])
    have le1: "cursor_rank E cur1 \<le> cursor_rank E cur" by (rule next_pass_rank_le [OF np])
    show ?thesis
    proof (cases "read_window db cur1")
      case (Inl err)
      then show ?thesis using np by (simp add: moved_on_def)
    next
      case (Inr w)
      obtain fo lp ex where w: "w = (fo, lp, ex)" by (cases w)
      have pos: "(\<forall>x. fo = Some x \<longrightarrow> fst x \<in> fst ` set (pass E cur1)) \<and> (\<forall>q. lp = Some q \<longrightarrow> q \<in> fst ` set (pass E cur1))"
        by (rule read_window_positions [OF assms(1) fits]) (use Inr w in simp)
      show ?thesis
      proof (cases fo)
        case (Some x)
        obtain q k r ad where x: "x = (q, k, r, ad)" by (cases x)
        have q: "q \<in> fst ` set (pass E cur1)" using pos Some x by simp
        have "moved_on p E cur (Inr (Some row, cur1\<lparr>after := Some q\<rparr>))" for row
          using moved_rank [OF nf q] moved_at [OF fits q] le1 by (simp add: moved_on_def)
        then show ?thesis
          using np Inr w Some x by (cases "provider_api_key_row k r ad") (simp_all add: moved_on_def)
      next
        case None
        have m: "cursor_rank E (moved_to cur1 lp ex) < cursor_rank E cur1"
          by (rule moved_to_rank [OF nf]) (use pos in simp)
        have f: "cursor_fits db p (moved_to cur1 lp ex)"
          by (rule moved_to_fits [OF assms(1) fits]) (use pos in simp)
        have step: "cursor_next (Suc fuel) db cur = cursor_next fuel db (moved_to cur1 lp ex)"
          using np Inr w None by (simp add: moved_to_def Let_def)
        have "cursor_rank E (moved_to cur1 lp ex) < fuel" using m le1 Suc.prems(2) by simp
        from Suc.IH [OF f this] obtain res where "cursor_next fuel db (moved_to cur1 lp ex) = Some res"
          "moved_on p E (moved_to cur1 lp ex) res" by blast
        then show ?thesis unfolding step using m le1 moved_on_trans by (meson less_imp_le le_trans)
      qed
    qed
  qed
qed

section \<open>The order of the keys is kept\<close>

text \<open>Writing to other tables leaves the index of the keys as it is.\<close>

definition keeps_index :: "'s heed \<Rightarrow> 's \<Rightarrow> 's \<Rightarrow> bool" where
  "keeps_index H s s' \<longleftrightarrow> (\<forall>c. lmdb_view H s c \<longrightarrow>
     (\<exists>c'. lmdb_view H s' c' \<and> c' ProviderApiKeyCreatedIndex = c ProviderApiKeyCreatedIndex))"

lemma keeps_index_refl [simp]: "keeps_index H s s"
  by (auto simp: keeps_index_def)

lemma keeps_index_trans: "keeps_index H s s1 \<Longrightarrow> keeps_index H s1 s2 \<Longrightarrow> keeps_index H s s2"
  unfolding keeps_index_def by metis

lemma put_keeps_index:
  assumes "lmdb_writes H" "txn_put H bc z d t k v s = Inr s'" "t \<noteq> ProviderApiKeyCreatedIndex"
  shows "keeps_index H s s'"
  unfolding keeps_index_def
proof (intro allI impI)
  fix c
  assume c: "lmdb_view H s c"
  obtain bs where "h_put H t k bs s = Inr s'" using assms(2) by (auto simp: txn_put_def rbind_eq_Inr)
  moreover obtain s1 where "h_put H t k bs s = Inr s1" "lmdb_view H s1 (c(t := kv_put k bs (c t)))"
    using lmdb_put [OF assms(1) c] .
  ultimately show "\<exists>c'. lmdb_view H s' c' \<and> c' ProviderApiKeyCreatedIndex = c ProviderApiKeyCreatedIndex"
    using assms(3) by (metis Inr_inject fun_upd_other)
qed

lemma delete_keeps_index:
  assumes "lmdb_writes H" "txn_delete H t k s = Inr (b, s')" "t \<noteq> ProviderApiKeyCreatedIndex"
  shows "keeps_index H s s'"
  unfolding keeps_index_def
proof (intro allI impI)
  fix c
  assume c: "lmdb_view H s c"
  have "h_delete H t k s = Inr (b, s')" using assms(2) by (auto simp: txn_delete_def rbind_eq_Inr)
  moreover obtain s1 where "h_delete H t k s = Inr (map_of (c t) k \<noteq> None, s1)" "lmdb_view H s1 (c(t := kv_delete k (c t)))"
    using lmdb_delete [OF assms(1) c] .
  ultimately show "\<exists>c'. lmdb_view H s' c' \<and> c' ProviderApiKeyCreatedIndex = c ProviderApiKeyCreatedIndex"
    using assms(3) by (metis Inr_inject fun_upd_other prod.inject)
qed

lemma recover_key_keeps_index:
  assumes "lmdb_writes (kd_heed db)" "recover_key db p key r s = Inr (r', s')"
  shows "keeps_index (kd_heed db) s s'"
  using assms(2)
  by (auto simp: recover_key_def Let_def rbind_eq_Inr put_in_def put_id_def split: option.splits
      dest!: put_keeps_index [OF assms(1)] intro: keeps_index_trans)

lemma key_used_txn_keeps_index:
  assumes "lmdb_writes (kd_heed db)" "key_used_txn db ts key s = Inr s'"
  shows "keeps_index (kd_heed db) s s'"
  using assms(2)
  by (auto simp: key_used_txn_def Let_def rbind_eq_Inr put_in_def split: option.splits if_splits
      dest!: put_keeps_index [OF assms(1)] recover_key_keeps_index [OF assms(1)]) (blast intro: keeps_index_trans)

lemma withdraw_key_keeps_index:
  assumes "lmdb_writes (kd_heed db)" "withdraw_key db p ix s = Inr s'"
  shows "keeps_index (kd_heed db) s s'"
  using assms(2)
  by (auto simp: withdraw_key_def rbind_eq_Inr put_in_def split: option.splits prod.splits
      dest!: put_keeps_index [OF assms(1)] delete_keeps_index [OF assms(1)] intro: keeps_index_trans)

lemma key_invalid_txn_keeps_index:
  assumes "lmdb_writes (kd_heed db)" "key_invalid_txn db p key ts err ix s = Inr s'"
  shows "keeps_index (kd_heed db) s s'"
  using assms(2)
  by (auto simp: key_invalid_txn_def rbind_eq_Inr put_in_def split: option.splits if_splits
      dest!: put_keeps_index [OF assms(1)] withdraw_key_keeps_index [OF assms(1)]) (blast intro: keeps_index_trans)

lemma key_order_kept:
  assumes "key_order db p E" "keeps_index (kd_heed db) (kd_snapshot db) s'"
  shows "key_order (db\<lparr>kd_snapshot := s'\<rparr>) p E"
proof -
  obtain c pre f where o: "lmdb_view (kd_heed db) (kd_snapshot db) c"
    "provider_api_key_created_prefix (kd_sha db) p = Inr pre"
    "\<forall>x \<in> set (c ProviderApiKeyCreatedIndex). validate_key (fst x) = Inr () \<and>
        decode_stored_record (kd_ids db) (kd_zstd db) (kd_dictionary db) ProviderApiKeyCreatedIndex (snd x) =
          Inr (f (snd x))"
    "E = map (\<lambda>(k, v). (k, f v)) (prefix_entries c ProviderApiKeyCreatedIndex pre None)"
    using assms(1) unfolding key_order_def by blast
  obtain c' where c': "lmdb_view (kd_heed db) s' c'" "c' ProviderApiKeyCreatedIndex = c ProviderApiKeyCreatedIndex"
    using assms(2) o(1) unfolding keeps_index_def by blast
  have "E = map (\<lambda>(k, v). (k, f v)) (prefix_entries c' ProviderApiKeyCreatedIndex pre None)"
    using o(4) c'(2) by (simp add: prefix_entries_def)
  then show ?thesis unfolding key_order_def using o c'
    by (intro exI [of _ c'] exI [of _ pre] exI [of _ f]) simp
qed

definition db_ok :: "string \<Rightarrow> (string \<times> string) list \<Rightarrow> 's key_db \<Rightarrow> bool" where
  "db_ok p E db \<longleftrightarrow> lmdb_writes (kd_heed db) \<and> key_order db p E"

lemma write_attempt_ok:
  assumes "db_ok p E db"
    and "\<And>s'. lmdb_writes (kd_heed db) \<Longrightarrow> op (kd_snapshot db) = Inr s' \<Longrightarrow> keeps_index (kd_heed db) (kd_snapshot db) s'"
  shows "db_ok p E (snd (write_attempt op db))"
proof (cases "op (kd_snapshot db)")
  case (Inl err)
  then show ?thesis using assms(1) by (simp add: write_attempt_def)
next
  case (Inr s')
  then show ?thesis using assms key_order_kept [of db p E s'] by (simp add: write_attempt_def db_ok_def)
qed

lemma mark_provider_key_invalid_ok:
  assumes "db_ok p E db"
  shows "db_ok p E (snd (mark_provider_key_invalid unix pid key st db))"
proof (cases "utc_timestamp_now unix")
  case (Inl err)
  then show ?thesis using assms by (simp add: mark_provider_key_invalid_def)
next
  case (Inr ts)
  show ?thesis
  proof (cases "provider_api_key_index_key (kd_sha db) pid key True")
    case (Inl err)
    then show ?thesis using assms Inr by (simp add: mark_provider_key_invalid_def Let_def)
  next
    case (Inr ix)
    show ?thesis
      using write_attempt_ok [OF assms key_invalid_txn_keeps_index] \<open>utc_timestamp_now unix = Inr ts\<close> Inr
      by (simp add: mark_provider_key_invalid_def Let_def)
  qed
qed

text \<open>What the loop relies on: the database keeps the order of the keys, and the limiter of last-used updates is sound.\<close>

definition app_ok :: "string \<Rightarrow> (string \<times> string) list \<Rightarrow> ('s, 'v, 'x) app \<Rightarrow> bool" where
  "app_ok p E a \<longleftrightarrow> db_ok p E (app_db a) \<and> limiter_ok (app_key_updates a)"

lemma app_ok_updates [simp]:
  "app_ok p E (a\<lparr>app_gates := g\<rparr>) = app_ok p E a" "app_ok p E (a\<lparr>app_usage := u\<rparr>) = app_ok p E a"
  "app_ok p E (a\<lparr>app_rpm := t\<rparr>) = app_ok p E a" "app_ok p E (a\<lparr>app_live := lv\<rparr>) = app_ok p E a"
  "app_ok p E (a\<lparr>app_clients := c\<rparr>) = app_ok p E a" "app_ok p E (a\<lparr>app_logs := ls\<rparr>) = app_ok p E a"
  "app_ok p E (a\<lparr>app_provider_usage := us\<rparr>) = app_ok p E a" "app_ok p E (a\<lparr>app_token_usage := ts\<rparr>) = app_ok p E a"
  "app_ok p E (a\<lparr>app_style_metrics := sm\<rparr>) = app_ok p E a"
  "app_ok p E (set_breakers bs a) = app_ok p E a" "app_ok p E (set_bulkhead b a) = app_ok p E a"
  by (simp_all add: app_ok_def set_breakers_def set_bulkhead_def)

lemma app_ok_order: "app_ok p E a \<Longrightarrow> key_order (app_db a) p E"
  by (simp add: app_ok_def db_ok_def)

lemma mark_used_ok:
  assumes "app_ok p E a"
  shows "\<exists>a'. mark_used e credential a = Some a' \<and> app_ok p E a'"
proof (cases "cred_id credential")
  case None
  then show ?thesis using assms by (simp add: mark_used_def mark_provider_key_used_def)
next
  case (Some key)
  have l: "limiter_ok (app_key_updates a)" and d: "db_ok p E (app_db a)" using assms by (simp_all add: app_ok_def)
  obtain l' dec where c: "check_at (app_key_updates a) key (instant_now e a) = Some (l', dec)" "limiter_ok l'"
    by (rule check_at_internal_ok [OF l, of None key "instant_now e a"])
      (use l in \<open>auto simp: check_at_def requested_def limiter_ok_def\<close>)
  have "db_ok p E (snd (write_attempt (key_used_txn (app_db a) ts key) (app_db a)))" for ts
    by (rule write_attempt_ok [OF d key_used_txn_keeps_index])
  then show ?thesis
    using c d Some by (cases "utc_timestamp_now (unix_now e a)") (auto simp: mark_used_def mark_provider_key_used_def app_ok_def)
qed

lemma mark_invalid_ok: "app_ok p E a \<Longrightarrow> app_ok p E (snd (mark_invalid e pid key st a))"
  using mark_provider_key_invalid_ok [of p E "app_db a" "unix_now e a" pid key "Some st"]
  by (auto simp: mark_invalid_def app_ok_def split: prod.splits)

lemma strike_returns: "now + MAX_ANTIGRAVITY_RETRY_AFTER \<le> instant_max \<Longrightarrow> strike now d en \<noteq> None"
  by (auto simp: strike_def Let_def option_or_def ANTIGRAVITY_QUOTA_BLOCK_def MAX_ANTIGRAVITY_RETRY_AFTER_def
      from_secs_def instant_add_def split: option.splits if_splits)

section \<open>Steady invariants\<close>

text \<open>
  A property of the attempt and the state that every step of the credential loop keeps: the steps of the environment,
  the marks on keys, which have to return, and the updates the loop makes itself.
\<close>

type_synonym ('s, 'v, 'x) invariant = "('s, 'v, 'x) AttemptContext \<Rightarrow> ('s, 'v, 'x) app \<Rightarrow> bool"

definition adapter_steady :: "('s, 'v, 'x) invariant \<Rightarrow> ('s, 'v, 'x) app ProviderAdapter \<Rightarrow> bool" where
  "adapter_steady I ad \<longleftrightarrow> (\<forall>at a. I at a \<longrightarrow>
     (\<forall>c b. I at (snd (snd (ad_prepare_upstream_request ad c b a)))) \<and>
     (\<forall>pid cid st. I at (snd (ad_repair_rejected_credential ad pid cid st a))) \<and>
     (\<forall>prep auth st. I at (ad_finish_upstream_request ad prep auth st a)) \<and>
     (\<forall>r n. I at (snd (ad_read_event_stream ad r n a))) \<and>
     (\<forall>cid. I at (snd (ad_resolve_oauth_request_auth ad cid a))))"

definition updates_steady :: "('s, 'v, 'x) invariant \<Rightarrow> bool" where
  "updates_steady I \<longleftrightarrow> (\<forall>at a. I at a \<longrightarrow>
     (\<forall>q. I (at\<lparr>circuit_probe := q\<rparr>) a) \<and> (\<forall>b. I (at\<lparr>at_body := b\<rparr>) a) \<and> (\<forall>bs. I at (set_breakers bs a)) \<and>
     (\<forall>u. I at (a\<lparr>app_usage := u\<rparr>)) \<and> (\<forall>t. I at (a\<lparr>app_rpm := t\<rparr>)) \<and> (\<forall>lv. I at (a\<lparr>app_live := lv\<rparr>)) \<and>
     (\<forall>ls. I at (a\<lparr>app_logs := ls\<rparr>)) \<and> (\<forall>us. I at (a\<lparr>app_provider_usage := us\<rparr>)))"

definition environment_steady :: "('s, 'v, 'x) environment \<Rightarrow> ('s, 'v, 'x) invariant \<Rightarrow> bool" where
  "environment_steady e I \<longleftrightarrow> (\<forall>ad \<in> set (adapters e). adapter_steady I ad) \<and> (\<forall>at a. I at a \<longrightarrow>
     I at (snd (new_v4 e a)) \<and> (\<forall>d. I at (sleep_for e d a)) \<and> (\<forall>c r. I at (snd (http_send e c r a))) \<and>
     (\<forall>r up client m idle rl. I at (snd (preflight_stream e r up client m idle rl a))))"

definition marks_steady :: "('s, 'v, 'x) environment \<Rightarrow> ('s, 'v, 'x) invariant \<Rightarrow> bool" where
  "marks_steady e I \<longleftrightarrow> (\<forall>at a. I at a \<longrightarrow>
     (\<forall>credential. \<exists>a'. mark_used e credential a = Some a' \<and> I at a') \<and>
     (\<forall>pid key st. I at (snd (mark_invalid e pid key st a))) \<and>
     (\<forall>at' credential d. \<exists>u. note_quota_rejection e at' credential d a = Some (a\<lparr>app_usage := u\<rparr>)))"

definition steady :: "('s, 'v, 'x) environment \<Rightarrow> ('s, 'v, 'x) invariant \<Rightarrow> bool" where
  "steady e I \<longleftrightarrow> updates_steady I \<and> environment_steady e I \<and> marks_steady e I"

lemma steady_updates:
  assumes "steady e I" "I at a"
  shows "I (at\<lparr>circuit_probe := q\<rparr>) a" "I (at\<lparr>at_body := b\<rparr>) a" "I at (set_breakers bs a)"
    "I at (a\<lparr>app_usage := u\<rparr>)" "I at (a\<lparr>app_rpm := t\<rparr>)" "I at (a\<lparr>app_live := lv\<rparr>)" "I at (a\<lparr>app_logs := ls\<rparr>)"
    "I at (a\<lparr>app_provider_usage := us\<rparr>)"
  using assms unfolding steady_def updates_steady_def by blast+

lemma steady_env:
  assumes "steady e I" "I at a"
  shows "new_v4 e a = (v, a1) \<Longrightarrow> I at a1" "I at (sleep_for e d a)" "http_send e c r a = (x, a1) \<Longrightarrow> I at a1"
    "preflight_stream e rs up client m idle rl a = (y, a1) \<Longrightarrow> I at a1"
  using assms unfolding steady_def environment_steady_def by (metis snd_conv)+

lemma steady_adapter:
  assumes "steady e I" "I at a"
  shows "prepare_upstream_request (adapters e) aid c b a = (x, b', a1) \<Longrightarrow> I at a1"
    "repair_rejected_credential (adapters e) aid pid cid st a = (y, a1) \<Longrightarrow> I at a1"
    "I at (finish_upstream_request (adapters e) aid prep auth st' a)"
    "read_adapter_event_stream (adapters e) aid r n a = (z, a1) \<Longrightarrow> I at a1"
    "resolve_oauth_request_auth (adapters e) aid cid' a = (w, a1) \<Longrightarrow> I at a1"
proof -
  have ad: "adapter_steady I ad" if "adapter_of (adapters e) aid = Some ad" for ad
    using that assms(1) unfolding steady_def environment_steady_def adapter_of_def by (auto simp: find_Some_iff)
  show "prepare_upstream_request (adapters e) aid c b a = (x, b', a1) \<Longrightarrow> I at a1"
    using ad assms(2) unfolding prepare_upstream_request_def adapter_steady_def
    by (cases "adapter_of (adapters e) aid") (auto, metis snd_conv)
  show "repair_rejected_credential (adapters e) aid pid cid st a = (y, a1) \<Longrightarrow> I at a1"
    using ad assms(2) unfolding repair_rejected_credential_def adapter_steady_def
    by (cases "adapter_of (adapters e) aid") (auto, metis snd_conv)
  show "I at (finish_upstream_request (adapters e) aid prep auth st' a)"
    using ad assms(2) unfolding finish_upstream_request_def adapter_steady_def
    by (cases "adapter_of (adapters e) aid") auto
  show "read_adapter_event_stream (adapters e) aid r n a = (z, a1) \<Longrightarrow> I at a1"
    using ad assms(2) unfolding read_adapter_event_stream_def adapter_steady_def
    by (cases "adapter_of (adapters e) aid") (auto, metis snd_conv)
  show "resolve_oauth_request_auth (adapters e) aid cid' a = (w, a1) \<Longrightarrow> I at a1"
    using ad assms(2) unfolding resolve_oauth_request_auth_def adapter_steady_def
    by (cases "adapter_of (adapters e) aid") (auto, metis snd_conv)
qed

lemma steady_marks:
  assumes "steady e I" "I at a"
  obtains a1 where "mark_used e credential a = Some a1" "I at a1"
  using assms unfolding steady_def marks_steady_def by blast

lemma steady_invalid: "steady e I \<Longrightarrow> I at a \<Longrightarrow> mark_invalid e pid key st a = (res, a1) \<Longrightarrow> I at a1"
  unfolding steady_def marks_steady_def by (metis snd_conv)

lemma quota_noted:
  assumes "steady e I" "I at a"
  obtains a1 where "(if b then note_quota_rejection e at' credential d a else Some a) = Some a1" "I at a1"
proof (cases b)
  case True
  obtain u where "note_quota_rejection e at' credential d a = Some (a\<lparr>app_usage := u\<rparr>)"
    using assms unfolding steady_def marks_steady_def by blast
  then show ?thesis using True steady_updates(4) [OF assms, of u] that by simp
next
  case False
  then show ?thesis using assms(2) that by simp
qed

lemma log_request_steady:
  assumes "steady e I" "I at a"
  shows "I at (log_request e lg g a)"
proof -
  obtain v a1 where v: "new_v4 e a = (v, a1)" by fastforce
  have "I at a1" by (rule steady_env(1) [OF assms v])
  then show ?thesis
    by (auto simp: log_request_def v Let_def split: option.splits intro!: steady_updates [OF assms(1)])
qed

lemma log_failure_steady: "steady e I \<Longrightarrow> I at a \<Longrightarrow> I at (log_failure e l lg at' cid st err a)"
  unfolding log_failure_def by (rule log_request_steady)

lemma settle_probe_steady:
  assumes "steady e I" "I at a" "settle_probe h at a = (at', a')"
  shows "I at' a'"
  using assms(2,3) by (auto simp: settle_probe_def split: prod.splits intro: steady_updates [OF assms(1)])

lemma probe_failed_steady:
  "steady e I \<Longrightarrow> I at a \<Longrightarrow> probe_failed e at a = (at', a') \<Longrightarrow> I at' a'"
  unfolding probe_failed_def by (rule settle_probe_steady)

section \<open>Every stage returns\<close>

definition kept :: "('s, 'v, 'x) invariant \<Rightarrow> 'r \<times> ('s, 'v, 'x) progress \<Rightarrow> bool" where
  "kept I r \<longleftrightarrow> (case r of (_, at, _, a) \<Rightarrow> I at a)"

definition returns :: "('s, 'v, 'x) invariant \<Rightarrow> ('r \<times> ('s, 'v, 'x) progress) option \<Rightarrow> bool" where
  "returns I r \<longleftrightarrow> (\<exists>x. r = Some x \<and> kept I x)"

lemma kept_simp [simp]: "kept I (res, at, f, a) = I at a"
  by (simp add: kept_def)

lemma returns_simps [simp]: "returns I (Some x) = kept I x" "\<not> returns I None"
  by (simp_all add: returns_def)

lemma returnsE:
  assumes "returns I r"
  obtains res at f a where "r = Some (res, at, f, a)" "I at a"
  using assms by (auto simp: returns_def kept_def)

lemma adapter_sse_failure_outcome_kept:
  assumes "steady e I" "I at a"
  shows "kept I (adapter_sse_failure_outcome e l lg (at, f, a))"
  using assms(2) by (auto simp: adapter_sse_failure_outcome_def Let_def split: option.splits prod.splits
      intro!: log_failure_steady [OF assms(1)] dest: probe_failed_steady [OF assms(1,2)])

lemma all_credentials_rejected_kept:
  assumes "steady e I" "I at a"
  shows "kept I (all_credentials_rejected e l lg (at, f, a))"
  using assms(2) by (auto simp: all_credentials_rejected_def Let_def split: option.splits
      intro!: log_failure_steady [OF assms(1)] adapter_sse_failure_outcome_kept [OF assms(1)])

lemma transport_failure_kept:
  assumes "steady e I" "I at a"
  shows "kept I (transport_failure e l lg err (at, f, a))"
  using assms(2) by (auto simp: transport_failure_def Let_def split: prod.splits intro!: log_failure_steady [OF assms(1)] dest: probe_failed_steady [OF assms(1,2)])

lemma unsuccessful_status_kept:
  assumes "steady e I" "I at a"
  shows "kept I (unsuccessful_status e l lg r st (at, f, a))"
  using assms(2) by (auto simp: unsuccessful_status_def Let_def split: prod.splits if_splits
      intro!: log_failure_steady [OF assms(1)] dest: probe_failed_steady [OF assms(1,2)] settle_probe_steady [OF assms(1,2)])

lemma preflight_failed_kept:
  assumes "steady e I" "I at a" "preflight_failed e l lg credential err (at, f, a) = (at', f', a')"
  shows "I at' a'"
  using assms(2,3)
  by (auto simp: preflight_failed_def Let_def split: prod.splits intro!: log_failure_steady [OF assms(1)] dest: probe_failed_steady [OF assms(1,2)])

lemma record_credential_rejection_returns:
  assumes "steady e I" "I at a"
  shows "returns I (record_credential_rejection e l lg credential err (at, f, a))"
proof -
  let ?st = "case adapter_error_status err of Some s \<Rightarrow> s | None \<Rightarrow> BAD_GATEWAY"
  let ?quota = "is_quota_rejection (prov_adapter_id (at_provider at)) ?st"
  obtain a1 where n: "(if ?quota then note_quota_rejection e at credential
      (Option.bind (adapter_error_retry_after err) retry_after_duration) a else Some a) = Some a1" and a1: "I at a1"
    using quota_noted [OF assms] .
  have m: "I at a2" if "mark_invalid e pid key st a1 = (res, a2)" for pid key st res a2
    by (rule steady_invalid [OF assms(1) a1 that])
  then show ?thesis
    using n a1
    by (auto simp: record_credential_rejection_def Let_def split: prod.splits sum.splits option.splits if_splits
        intro!: log_failure_steady [OF assms(1)])
qed

lemma withdraw_rejected_steady:
  assumes "steady e I" "I at a" "withdraw_rejected e aid pid st detail credential a = (res, a')"
  shows "I at a'"
  using assms(2,3)
  by (auto simp: withdraw_rejected_def split: option.splits if_splits prod.splits bool.splits)
    (blast intro: steady_adapter(2) [OF assms(1)] steady_invalid [OF assms(1)])+

lemma reject_key_returns:
  assumes "steady e I" "I at a"
  shows "returns I (reject_key e l lg credential r (at, f, a))"
proof -
  let ?aid = "prov_adapter_id (at_provider at)" and ?st = "up_status r"
  let ?d = "Option.bind (if is_quota_rejection ?aid ?st then retry_after_value r else upstream_retry_after f) retry_after_duration"
  obtain a1 where n: "(if is_quota_rejection ?aid ?st then note_quota_rejection e at credential ?d a else Some a) = Some a1"
    and a1: "I at a1"
    using quota_noted [OF assms] .
  obtain res a3 where m: "withdraw_rejected e ?aid (prov_id (at_provider at)) ?st (error_detail e (at_scope at) r) credential a1 = (res, a3)"
    by fastforce
  have a3: "I at a3" by (rule withdraw_rejected_steady [OF assms(1) a1 m])
  show ?thesis
    using n m a3
    by (cases "is_quota_rejection ?aid ?st"; cases res)
      (simp_all add: reject_key_def Let_def log_failure_steady [OF assms(1) a3])
qed

lemma decode_adapter_stream_kept:
  assumes "steady e I" "I at a"
  shows "kept I (decode_adapter_stream e r (at, f, a))"
  using assms(2) by (auto simp: decode_adapter_stream_def split: prod.splits sum.splits dest: steady_adapter(4) [OF assms])

lemma preflight_response_kept:
  assumes "steady e I" "I at a"
  shows "kept I (preflight_response e r (at, f, a))"
  using assms(2) by (auto simp: preflight_response_def split: prod.splits sum.splits dest: steady_env(4) [OF assms])

lemma plain_response_kept:
  assumes "steady e I" "I at a"
  shows "kept I (plain_response e l lg credential r (at, f, a))"
  using unsuccessful_status_kept [OF assms, of l lg r "up_status r" f] assms(2) steady_updates(4) [OF assms]
  by (auto simp: plain_response_def kept_def split: prod.splits option.splits)

lemma classify_response_returns:
  assumes "steady e I" "I at a"
  shows "returns I (classify_response e l lg credential response (at, f, a))"
proof (cases response)
  case (Inl err)
  then show ?thesis
    using transport_failure_kept [OF assms, of l lg err "select_credential credential f"]
    by (auto simp: classify_response_def kept_def split: prod.splits)
next
  case (Inr r)
  obtain a1 where "mark_used e credential a = Some a1" and a1: "I at a1" using steady_marks [OF assms] .
  then show ?thesis
    using Inr reject_key_returns [OF assms] decode_adapter_stream_kept [OF assms(1) a1]
      preflight_response_kept [OF assms(1) a1] plain_response_kept [OF assms(1) a1]
    by (simp add: classify_response_def Let_def)
qed

lemma exchange_steady:
  assumes "steady e I" "I at a" "exchange e at' secret oauth prep request a = (response, a')"
  shows "I at a'"
proof -
  obtain r1 a1 where s1: "http_send e (at_http at') request a = (r1, a1)" by fastforce
  have a1: "I at a1" by (rule steady_env(3) [OF assms(1,2) s1])
  obtain v a2 where s2: "new_v4 e (sleep_for e (from_millis 500) a1) = (v, a2)" by fastforce
  have a2: "I at a2" by (rule steady_env(1) [OF assms(1) steady_env(2) [OF assms(1) a1] s2])
  have "I at a3" if "http_send e (at_http at') q a2 = (r2, a3)" for q r2 a3
    by (rule steady_env(3) [OF assms(1) a2 that])
  then show ?thesis
    using assms(3) a1 a2 s1 s2 by (auto simp: exchange_def split: if_splits sum.splits prod.splits)
qed

lemma send_request_returns:
  assumes "steady e I" "I at a"
  shows "returns I (send_request e l lg credential secret oauth prep (at, f, a))"
proof (cases "build_upstream_request e at secret oauth prep (sc_adapter_session_id (at_scope at))")
  case (Inl err)
  then show ?thesis using assms(2) by (simp add: send_request_def)
next
  case (Inr request)
  let ?a1 = "if (case capabilities (yaml_presets e) (prov_adapter_id (at_provider at)) of Some c \<Rightarrow> local_quota_tracking c | None \<Rightarrow> False)
      then a\<lparr>app_rpm := snd (rpm_record (prov_id (at_provider at)) (instant_now e a) (app_rpm a))\<rparr> else a"
  obtain response a2 where x: "exchange e at secret oauth prep request ?a1 = (response, a2)" by fastforce
  have "I at ?a1" using assms(2) steady_updates(5) [OF assms] by simp
  then have "I at a2" using exchange_steady [OF assms(1) _ x] by blast
  then show ?thesis
    using classify_response_returns [OF assms(1) steady_adapter(3) [OF assms(1)]] Inr x by (simp add: send_request_def Let_def)
qed

lemma handle_key_rejection_returns:
  assumes "steady e I" "I at a"
  shows "returns I (handle_key_rejection e l lg credential err (at, f, a))"
proof -
  obtain res at' f' a' where "record_credential_rejection e l lg credential err (at, f, a) = Some (res, at', f', a')" "I at' a'"
    using record_credential_rejection_returns [OF assms] by (rule returnsE)
  then show ?thesis by (cases res) (simp_all add: handle_key_rejection_def)
qed

lemma resolve_auth_steady:
  assumes "steady e I" "I at a" "resolve_credential_auth e prov credential a = (res, a')"
  shows "I at a'"
  using assms(2,3)
  by (auto simp: resolve_credential_auth_def split: if_splits option.splits prod.splits sum.splits
      dest: steady_adapter(5) [OF assms(1,2)])

lemma quota_cooldown_skip_steady:
  assumes "steady e I" "I at a" "quota_cooldown_skip e prov credential m a = (b, a')"
  shows "I at a'"
  using assms(2,3)
  by (auto simp: quota_cooldown_skip_def split: if_splits option.splits prod.splits intro: steady_updates [OF assms(1)])

lemma attempt_credential_returns:
  assumes "steady e I" "I at a"
  shows "returns I (attempt_credential e l lg credential (at, f, a))"
proof -
  obtain skip a1 where s: "quota_cooldown_skip e (at_provider at) credential (at_model at) a = (skip, a1)" by fastforce
  have a1: "I at a1" by (rule quota_cooldown_skip_steady [OF assms s])
  obtain auth a2 where r: "resolve_credential_auth e (at_provider at) credential a1 = (auth, a2)" by fastforce
  have a2: "I at a2" by (rule resolve_auth_steady [OF assms(1) a1 r])
  show ?thesis
  proof (cases skip)
    case True
    then show ?thesis using s a1 by (simp add: attempt_credential_def)
  next
    case False
    show ?thesis
    proof (cases auth)
      case (Rotate message)
      then show ?thesis using s False r a2 by (simp add: attempt_credential_def)
    next
      case (Ready secret oauth)
      obtain res body a3 where q: "prepare_upstream_request (adapters e) (prov_adapter_id (at_provider at))
          (request_context at secret oauth) (at_body at) a2 = (res, body, a3)" by (metis prod_cases3)
      let ?at = "at\<lparr>at_body := body\<rparr>"
      have a3: "I ?at a3" by (rule steady_updates(2) [OF assms(1) steady_adapter(1) [OF assms(1) a2 q]])
      note unfolded = attempt_credential_def s False r Ready q Let_def
      show ?thesis
      proof (cases res)
        case (Inl err)
        obtain b at' f' a' where h: "handle_key_rejection e l lg credential err (?at, f, a3) = Some (b, at', f', a')" "I at' a'"
          using handle_key_rejection_returns [OF assms(1) a3] by (rule returnsE)
        obtain at1 f1 a4 where pf: "preflight_failed e l lg credential err (?at, f, a3) = (at1, f1, a4)"
          by (metis prod_cases3)
        have "I at1 a4" by (rule preflight_failed_kept [OF assms(1) a3 pf])
        then show ?thesis using Inl h pf by (simp add: unfolded)
      next
        case (Inr prep)
        obtain step at' f' a' where "send_request e l lg credential secret oauth prep (?at, f, a3) = Some (step, at', f', a')"
          "I at' a'"
          using send_request_returns [OF assms(1) a3] by (rule returnsE)
        then show ?thesis using Inr by (simp add: unfolded)
      qed
    qed
  qed
qed

section \<open>The loop ends\<close>

definition rotation_rank :: "(string \<times> string) list \<Rightarrow> CredentialRotation \<Rightarrow> nat" where
  "rotation_rank E rot = (case rot_cursor rot of Some cur \<Rightarrow> cursor_rank E cur | None \<Rightarrow> 0)"

definition rotation_at :: "string \<Rightarrow> (string \<times> string) list \<Rightarrow> CredentialRotation \<Rightarrow> bool" where
  "rotation_at p E rot \<longleftrightarrow>
     (rot_current rot = None \<or> (\<forall>cur. rot_cursor rot = Some cur \<longrightarrow> cursor_at p E cur))"

lemma rotation_advance_returns:
  assumes "key_order (app_db a) p E" "rotation_at p E rot" "rot_current rot \<noteq> None" "rotation_rank E rot < n"
  shows "\<exists>res. rotation_advance n rot a = Some res \<and> (\<forall>rot'. res = Inr rot' \<longrightarrow>
     rotation_at p E rot' \<and> (rot_current rot' = None \<or> rotation_rank E rot' < rotation_rank E rot))"
proof (cases "rot_cursor rot")
  case None
  then show ?thesis by (simp add: rotation_advance_def rotation_at_def)
next
  case (Some cur)
  have "cursor_at p E cur" using assms(2,3) Some by (simp add: rotation_at_def)
  then obtain res where res: "cursor_next n (app_db a) cur = Some res" "moved_on p E cur res"
    using cursor_next_returns [OF assms(1) cursor_at_fits [OF assms(1)], of cur n] assms(4) Some
    by (auto simp: rotation_rank_def)
  show ?thesis
  proof (cases res)
    case (Inl err)
    then show ?thesis using res Some by (simp add: rotation_advance_def)
  next
    case (Inr x)
    obtain row cur' where x: "x = (row, cur')" by fastforce
    show ?thesis
      using res Some Inr x
      by (cases row) (simp_all add: rotation_advance_def rotation_at_def rotation_rank_def moved_on_def)
  qed
qed

lemma credential_loop_returns:
  assumes st: "steady e I" and ord: "\<And>at a. I at a \<Longrightarrow> key_order (app_db a) p E"
    and "I at a" "rotation_at p E rot" "rotation_rank E rot + 1 < fuel"
  shows "returns I (credential_loop fuel e l lg rot (at, f, a))"
  using assms(3-)
proof (induction fuel arbitrary: rot at f a)
  case 0
  then show ?case by simp
next
  case (Suc n)
  show ?case
  proof (cases "rot_current rot")
    case None
    then show ?thesis using all_credentials_rejected_kept [OF st Suc.prems(1)] by simp
  next
    case (Some credential)
    obtain o1 at1 f1 a1 where t: "attempt_credential e l lg credential (at, f, a) = Some (o1, at1, f1, a1)" "I at1 a1"
      using attempt_credential_returns [OF st Suc.prems(1)] by (rule returnsE)
    show ?thesis
    proof (cases o1)
      case (Some out)
      then show ?thesis using t \<open>rot_current rot = Some credential\<close> by simp
    next
      case None
      obtain res where res: "rotation_advance n rot a1 = Some res" "\<forall>rot'. res = Inr rot' \<longrightarrow>
          rotation_at p E rot' \<and> (rot_current rot' = None \<or> rotation_rank E rot' < rotation_rank E rot)"
        using rotation_advance_returns [OF ord [OF t(2)] Suc.prems(2)] Some Suc.prems(3) by fastforce
      show ?thesis
      proof (cases res)
        case (Inl err)
        then show ?thesis using t None res Some by simp
      next
        case (Inr rot')
        have "returns I (credential_loop n e l lg rot' (at1, f1, a1))"
        proof (cases "rot_current rot'")
          case None
          then obtain m where "n = Suc m" using Suc.prems(3) by (cases n) auto
          then show ?thesis using None all_credentials_rejected_kept [OF st t(2)] by simp
        next
          case (Some c)
          then show ?thesis using Suc.IH [OF t(2)] res(2) Inr Suc.prems(3) by simp
        qed
        then show ?thesis using t None res Some Inr by simp
      qed
    qed
  qed
qed

section \<open>The environment\<close>

text \<open>
  What is assumed of the network, of the adapters and of the other requests that run during an await: they keep the
  order of the provider's keys, and the clock stays a day away from the last instant.
\<close>

definition env_ok :: "('s, 'v, 'x) environment \<Rightarrow> string \<Rightarrow> (string \<times> string) list \<Rightarrow> bool" where
  "env_ok e p E \<longleftrightarrow> (\<forall>a. instant_now e a + MAX_ANTIGRAVITY_RETRY_AFTER \<le> instant_max) \<and>
     environment_steady e (\<lambda>_. app_ok p E)"

lemma env_ok_clock: "env_ok e p E \<Longrightarrow> instant_now e a + MAX_ANTIGRAVITY_RETRY_AFTER \<le> instant_max"
  by (simp add: env_ok_def)

lemma note_quota_returns:
  assumes "\<And>a. instant_now e a + MAX_ANTIGRAVITY_RETRY_AFTER \<le> instant_max"
  shows "\<exists>u. note_quota_rejection e at credential d a = Some (a\<lparr>app_usage := u\<rparr>)"
proof (cases "cred_id credential")
  case None
  then show ?thesis by (simp add: note_quota_rejection_def) (metis app.surjective app.update_convs(5))
next
  case (Some key)
  obtain u where "record_antigravity_quota_rejection (prov_id (at_provider at)) key (at_model at) d (instant_now e a) (app_usage a) = Some u"
    using strike_returns [OF assms] by (fastforce simp: record_antigravity_quota_rejection_def Let_def)
  then show ?thesis using Some
    by (simp add: note_quota_rejection_def) (metis app.surjective app.update_convs(5))
qed

lemma app_ok_steady:
  assumes "env_ok e p E"
  shows "steady e (\<lambda>_. app_ok p E)"
proof -
  have "updates_steady (\<lambda>_. app_ok p E)" by (simp add: updates_steady_def)
  moreover have "marks_steady e (\<lambda>_. app_ok p E)"
    using mark_used_ok mark_invalid_ok note_quota_returns [OF env_ok_clock [OF assms]] unfolding marks_steady_def by blast
  ultimately show ?thesis using assms unfolding steady_def env_ok_def by blast
qed

section \<open>A target is dispatched\<close>

lemma advance_to_returns:
  assumes "key_order db p E" "cursor_fits db p cur" "3 * length E + 5 < fuel"
  shows "\<exists>res. advance_to fuel db cur = Some res \<and> (\<forall>cur' row. res = Inr (Some (cur', row)) \<longrightarrow> cursor_at p E cur')"
proof -
  have "cursor_rank E cur < fuel" using cursor_rank_le [of E cur] assms(3) by simp
  then obtain res where "cursor_next fuel db cur = Some res" "moved_on p E cur res"
    using cursor_next_returns [OF assms(1,2)] by blast
  then show ?thesis by (cases res) (auto simp: advance_to_def moved_on_def)
qed

lemma start_rotating_returns:
  assumes "key_order db p E" "position_ok db p a" "3 * length E + 5 < fuel"
  shows "\<exists>res. start_rotating fuel db p a = Some res \<and> (\<forall>cur row. res = Inr (Some (cur, row)) \<longrightarrow> cursor_at p E cur)"
proof -
  obtain res where "advance_to fuel db (cursor_new p a) = Some res" "\<forall>cur row. res = Inr (Some (cur, row)) \<longrightarrow> cursor_at p E cur"
    using advance_to_returns [OF assms(1) _ assms(3), of "cursor_new p a"] assms(2) by (auto simp: cursor_fits_def cursor_new_def)
  then show ?thesis by (cases res) (auto simp: start_rotating_def cursor_at_def)
qed

lemma rotation_of_started_at:
  "(\<And>cur row. s = Some (cur, row) \<Longrightarrow> cursor_at p E cur) \<Longrightarrow> rotation_at p E (rotation_of_started prov s)"
  by (auto simp: rotation_of_started_def rotation_at_def split: option.splits)

lemma rotation_start_rotating_returns:
  assumes "app_ok (prov_id prov) E a" "3 * length E + 5 < fuel"
    "position_ok (app_db a) (prov_id prov) (provider_key_cursor (prov_id prov) (app_gates a))"
  shows "\<exists>res a1. rotation_start_rotating fuel prov a = Some (res, a1) \<and> app_ok (prov_id prov) E a1 \<and>
    (\<forall>rot. res = Inr rot \<longrightarrow> rotation_at (prov_id prov) E rot)"
proof -
  let ?p = "prov_id prov" and ?prev = "provider_key_cursor (prov_id prov) (app_gates a)"
  have ko: "key_order (app_db a) ?p E" using assms(1) by (simp add: app_ok_def db_ok_def)
  obtain r0 where r0: "start_rotating fuel (app_db a) ?p ?prev = Some r0"
      "\<forall>cur row. r0 = Inr (Some (cur, row)) \<longrightarrow> cursor_at ?p E cur"
    using start_rotating_returns [OF ko assms(3,2)] by blast
  have "position_ok (app_db a) ?p None" by (simp add: position_ok_def)
  then obtain r1 where r1: "start_rotating fuel (app_db a) ?p None = Some r1"
      "\<forall>cur row. r1 = Inr (Some (cur, row)) \<longrightarrow> cursor_at ?p E cur"
    using start_rotating_returns [OF ko _ assms(2)] by blast
  obtain s where s: "(case r0 of Inr None \<Rightarrow> if ?prev \<noteq> None then start_rotating fuel (app_db a) ?p None else Some (Inr None)
      | _ \<Rightarrow> Some r0) = Some s" and at: "\<forall>cur row. s = Inr (Some (cur, row)) \<longrightarrow> cursor_at ?p E cur"
  proof (cases "r0 = Inr None \<and> ?prev \<noteq> None")
    case True
    then show ?thesis using r1 by (intro that [of r1]) simp_all
  next
    case False
    then show ?thesis using r0(2) by (intro that [of r0]) (auto split: sum.splits option.splits)
  qed
  show ?thesis
  proof (cases s)
    case (Inl err)
    then show ?thesis using r0(1) s assms(1) by (auto simp: rotation_start_rotating_def)
  next
    case (Inr st)
    have "rotation_at ?p E (rotation_of_started prov st)" by (rule rotation_of_started_at) (use at Inr in blast)
    then show ?thesis
      using r0(1) s Inr assms(1) by (auto simp: rotation_start_rotating_def split: option.splits)
  qed
qed

lemma rotation_start_returns:
  assumes "app_ok (prov_id prov) E a" "3 * length E + 5 < fuel"
    "position_ok (app_db a) (prov_id prov) (provider_key_cursor (prov_id prov) (app_gates a))"
  shows "\<exists>res a1. rotation_start fuel prov a = Some (res, a1) \<and> app_ok (prov_id prov) E a1 \<and>
    (\<forall>rot. res = Inr rot \<longrightarrow> rotation_at (prov_id prov) E rot)"
proof -
  have ko: "key_order (app_db a) (prov_id prov) E" using assms(1) by (simp add: app_ok_def db_ok_def)
  have "cursor_fits (app_db a) (prov_id prov) (cursor_new (prov_id prov) None)"
    by (simp add: cursor_fits_def cursor_new_def position_ok_def)
  then obtain res where r: "cursor_start fuel (app_db a) (prov_id prov) = Some res"
      "\<forall>cur row. res = Inr (Some (cur, row)) \<longrightarrow> cursor_at (prov_id prov) E cur"
    using advance_to_returns [OF ko _ assms(2)] unfolding cursor_start_def by blast
  have "rotation_at (prov_id prov) E (rotation_of_started prov s)" if "res = Inr s" for s
    by (rule rotation_of_started_at) (use r(2) that in blast)
  moreover have "rotation_at (prov_id prov) E \<lparr>rot_cursor = None, rot_current = c\<rparr>" for c by (simp add: rotation_at_def)
  ultimately show ?thesis
    using rotation_start_rotating_returns [OF assms] r(1) assms(1) unfolding rotation_start_def
    by (cases res) auto
qed

text \<open>C2: The credential loop of a target ends, whatever the provider answers and whatever other requests write: for a
  provider with \<open>n\<close> stored keys, \<open>3 n + 7\<close> turns are enough to start the rotation and to reach an outcome.\<close>

theorem target_dispatch_ends:
  assumes "env_ok e (prov_id prov) E" "app_ok (prov_id prov) E a"
    and "position_ok (app_db a) (prov_id prov) (provider_key_cursor (prov_id prov) (app_gates a))"
    and "3 * length E + 7 \<le> fuel"
  shows "\<exists>res a1. rotation_start fuel prov a = Some (res, a1) \<and>
    (\<forall>rot at f. res = Inr rot \<longrightarrow> (\<exists>r. dispatch_target fuel e l lg rot (at, f, a1) = Some r))"
proof -
  have "3 * length E + 5 < fuel" using assms(4) by simp
  then obtain res a1 where r: "rotation_start fuel prov a = Some (res, a1)" "app_ok (prov_id prov) E a1"
    "\<forall>rot. res = Inr rot \<longrightarrow> rotation_at (prov_id prov) E rot"
    using rotation_start_returns [OF assms(2) _ assms(3)] by blast
  have "\<exists>x. dispatch_target fuel e l lg rot (at, f, a1) = Some x" if "res = Inr rot" for rot at f
  proof -
    have "rotation_rank E rot \<le> 3 * length E + 5"
      using cursor_rank_le [of E] by (simp add: rotation_rank_def split: option.splits)
    then have "rotation_rank E rot + 1 < fuel" using assms(4) by simp
    then have "returns (\<lambda>_. app_ok (prov_id prov) E) (credential_loop fuel e l lg rot (at, f, a1))"
      using r(3) that by (intro credential_loop_returns [OF app_ok_steady [OF assms(1)] app_ok_order r(2)]) blast+
    then show ?thesis by (auto simp: dispatch_target_def returns_def)
  qed
  then show ?thesis using r(1) by blast
qed

subsection \<open>An environment in which nothing else runs\<close>

definition idle_env :: "TransportError + upstream_response \<Rightarrow> ('s, 'v, 'x) environment" where
  "idle_env response =
     \<lparr>instant_now = (\<lambda>_. 5), unix_now = (\<lambda>_. Some 1000), new_v4 = (\<lambda>a. (''id'', a)), sleep_for = (\<lambda>_ a. a),
      http_send = (\<lambda>_ _ a. (response, a)),
      adapters = [default_adapter Some [] GENERIC_ADAPTER_ID (\<lambda>u _ _. Inr u) (\<lambda>_ b. b)], yaml_presets = [],
      opencode_protocol = (\<lambda>_ _. None), url_parse = (\<lambda>_. None), lookup_host = (\<lambda>_ _. LookupFailed),
      can_build_client = (\<lambda>_. True), allow_private_provider_urls = False, http_header_name = Some,
      cipher = example_cipher, env_utf8 = from_utf8, env_master_key = Some [5], env_headers_json = example_headers_json,
      env_strings_json = \<lparr>to_json = (\<lambda>_. Inl []), from_json = (\<lambda>_. Inl [])\<rparr>,
      env_codecs = no_codecs, env_style_texts = (\<lambda>_ _. []), exoroute_agent = ''ExoRoute'',
      status_display = show_nat, preflight_stream = (\<lambda>_ _ _ _ _ _ a. (Inl [], a))\<rparr>"

definition idle_app :: "'s key_db \<Rightarrow> ('s, unit, unit) app" where
  "idle_app db =
     \<lparr>app_db = db,
      app_gates = \<lparr>circuits = circuit_gates_new, provider_in_flight = bulkhead_new, provider_key_cursors = [], round_robin = []\<rparr>,
      app_circuit_settings = open_settings, app_provider_max_concurrency = 1, app_usage = ProviderUsageRuntime_new,
      app_key_updates = example_limiter (FixedWindow 1 60), app_rpm = ProviderRpmTracker_new 0, app_live = live_guards_new,
      app_clients = [], app_logs = [], app_provider_usage = [], app_token_usage = [], app_output_styles = [],
      app_style_metrics = StyleMetrics_new, app_external = ()\<rparr>"

definition keyed_provider :: Provider where
  "keyed_provider =
     \<lparr>prov_id = ''p'', prov_adapter_id = GENERIC_ADAPTER_ID, prov_base_url = [], prov_enabled = True,
      prov_auth_type = ''bearer'', prov_auth_header = None, prov_custom_headers = [], prov_secret = None,
      preferred_protocol = UpChatCompletions, prov_supported_protocols = [], prov_thinking_mode = DEFAULT_THINKING_MODE,
      prov_thinking_override = None, prov_key_strategy = DEFAULT_KEY_STRATEGY\<rparr>"

definition keyed_scope :: RequestScope where
  "keyed_scope =
     \<lparr>sc_request_id = ''r'', sc_adapter_session_id = ''s'', sc_adapter_base_url_override = None,
      sc_settings = settings_default, sc_resource_limits = limits_default, sc_stream = False,
      sc_client_protocol = ChatCompletions, sc_client_headers = []\<rparr>"

definition keyed_attempt :: "('s, 'v, 'x) AttemptContext" where
  "keyed_attempt =
     \<lparr>at_scope = keyed_scope, at_provider = keyed_provider, at_protocol = UpChatCompletions,
      at_adapter = default_adapter Some [] GENERIC_ADAPTER_ID (\<lambda>u _ _. Inr u) (\<lambda>_ b. b), at_endpoint = ''https://p'',
      at_http = \<lparr>pinned_host = ''p'', pinned_addresses = [], follows_redirects = False, uses_proxy = False,
        client_connect_timeout = 0, client_timeout = 0, pool_idle_timeout = 0, client_user_agent = []\<rparr>,
      circuit_probe = \<lparr>permit_provider = ''p'', permit_generation = None, probe_id = None\<rparr>, provider_permit = 0,
      at_body = JNull, at_model = ''m''\<rparr>"

definition keyed_log :: RequestLogPayload where
  "keyed_log = \<lparr>lp_scope = keyed_scope, lp_route_alias = ''m'', lp_api_key_id = None, lp_started = 0\<rparr>"

lemma idle_environment_steady: "environment_steady (idle_env response) I"
  by (simp add: environment_steady_def adapter_steady_def idle_env_def default_adapter_def)

lemma idle_env_ok: "env_ok (idle_env response) p E"
  using idle_environment_steady
  by (auto simp: env_ok_def idle_env_def MAX_ANTIGRAVITY_RETRY_AFTER_def from_secs_def instant_max_def)

lemma idle_app_ok: "app_ok ''p'' example_order (idle_app example_db)"
  using example_key_order mem_heed_writes example_limiter_ok [of "FixedWindow 1 60"]
  by (simp add: app_ok_def db_ok_def idle_app_def example_db_def)

theorem target_dispatch_ends_witness:
  "\<exists>rot a1 r. rotation_start 16 keyed_provider (idle_app example_db) = Some (Inr rot, a1) \<and>
    dispatch_target 16 (idle_env (Inl \<lparr>te_is_timeout = True, te_is_connect = False, te_io_kind = None\<rparr>)) keyed_log 0 rot
      (keyed_attempt, TargetLoopFailures_new, a1) = Some r"
proof -
  have started: "case cursor_start 16 example_db ''p'' of Some (Inr (Some _)) \<Rightarrow> True | _ \<Rightarrow> False" by code_simp
  have "prov_id keyed_provider = ''p''" by (simp add: keyed_provider_def)
  moreover have "position_ok (app_db (idle_app example_db)) ''p'' (provider_key_cursor ''p'' (app_gates (idle_app example_db)))"
    by (simp add: idle_app_def provider_key_cursor_def hm_get_def position_ok_def)
  moreover have "3 * length example_order + 7 \<le> (16 :: nat)" by (simp add: example_order_def)
  ultimately obtain res a1 where r: "rotation_start 16 keyed_provider (idle_app example_db) = Some (res, a1)"
    "\<And>rot at f. res = Inr rot \<Longrightarrow> \<exists>r. dispatch_target 16 (idle_env (Inl \<lparr>te_is_timeout = True, te_is_connect = False, te_io_kind = None\<rparr>))
       keyed_log 0 rot (at, f, a1) = Some r"
    using target_dispatch_ends [of "idle_env (Inl \<lparr>te_is_timeout = True, te_is_connect = False, te_io_kind = None\<rparr>)" keyed_provider
        example_order "idle_app example_db" 16 keyed_log 0] idle_env_ok idle_app_ok by metis
  moreover have "\<exists>rot. res = Inr rot"
    using r(1) started
    by (auto simp: rotation_start_def keyed_provider_def DEFAULT_KEY_STRATEGY_def KEY_STRATEGY_ROUND_ROBIN_def idle_app_def
        split: option.splits sum.splits)
  ultimately show ?thesis by blast
qed

end
