(* ===== verification/DispatchResults.thy ===== *)
theory DispatchResults
  imports CredentialLoop
begin

text \<open>
  What dispatching a target leaves behind: the permits of the attempt, the state of the keys it tried.
\<close>

section \<open>Permits\<close>

text \<open>A failed step never carries a completed result, so the permits of an attempt end up in one place.\<close>

lemma failed_not_completed:
  "fst (transport_failure e l lg err (at, f, a)) \<noteq> Completed u"
  "fst (unsuccessful_status e l lg r st (at, f, a)) \<noteq> Completed u"
  by (simp_all add: transport_failure_def unsuccessful_status_def Let_def split: prod.splits)

lemma reject_key_step:
  assumes "reject_key e l lg credential r (at, f, a) = Some (step, pr)"
  shows "step = SendRotate \<or> (\<exists>se. step = SendFailed (StorageFailed se))"
  using assms
  apply (clarsimp simp: reject_key_def Let_def bind_eq_Some_conv)
  subgoal for y
    by (cases "withdraw_rejected e (prov_adapter_id (at_provider at)) (prov_id (at_provider at)) (up_status r)
        (error_detail e (at_scope at) r) credential y"; cases "fst (withdraw_rejected e (prov_adapter_id (at_provider at))
        (prov_id (at_provider at)) (up_status r) (error_detail e (at_scope at) r) credential y)") auto
  done

lemma classify_not_completed:
  assumes "classify_response e l lg credential response (at, f, a) = Some (SendFailed out, pr)"
  shows "out \<noteq> Completed u"
proof -
  have plain: "out \<noteq> Completed u" if "plain_response e l lg credential r (at, f', a1) = (SendFailed out, pr)" for r f' a1
    using that failed_not_completed(2) [of e l lg r "up_status r" at f' a1 u]
    by (auto simp: plain_response_def split: if_splits prod.splits)
  have reject: "out \<noteq> Completed u" if "reject_key e l lg credential r (at, f, a) = Some (SendFailed out, pr)" for r
    using reject_key_step [OF that] by auto
  have streams: "decode_adapter_stream e r (at, f', a1) \<noteq> (SendFailed out, pr)"
    "preflight_response e r (at, f', a1) \<noteq> (SendFailed out, pr)" for r f' a1
    by (auto simp: decode_adapter_stream_def preflight_response_def split: prod.splits sum.splits if_splits)
  show ?thesis
  proof (cases response)
    case (Inl err)
    then show ?thesis
      using assms failed_not_completed(1) [of e l lg err at "select_credential credential f" a u]
      by (auto simp: classify_response_def split: prod.splits)
  next
    case (Inr r)
    then show ?thesis using assms reject plain streams
      by (auto simp: classify_response_def Let_def split: if_splits)
  qed
qed

lemma send_not_completed:
  assumes "send_request e l lg credential secret oauth prep (at, f, a) = Some (SendFailed out, pr)"
  shows "out \<noteq> Completed u"
  using assms
  by (auto simp: send_request_def Let_def split: sum.splits prod.splits dest: classify_not_completed [where u = u])

lemma attempt_completed:
  assumes "attempt_credential e l lg credential (at, f, a) = Some (Some (Completed u), at', f', a')"
  shows "\<exists>result. u = completed_upstream result at'"
proof -
  have "\<exists>result. u = completed_upstream result at'"
    if m: "map_option (\<lambda>(step, at', f', a').
             (case step of
                SendRotate \<Rightarrow> None
              | SendCompleted result \<Rightarrow> Some (Completed (completed_upstream result at'))
              | SendFailed out \<Rightarrow> Some out, at', f', a'))
             (send_request e l lg credential secret oauth prep pr) = Some (Some (Completed u), at', f', a')" for secret oauth prep pr
  proof -
    obtain step where s: "send_request e l lg credential secret oauth prep pr = Some (step, at', f', a')"
      and c: "(case step of SendRotate \<Rightarrow> None | SendCompleted result \<Rightarrow> Some (Completed (completed_upstream result at'))
        | SendFailed out \<Rightarrow> Some out) = Some (Completed u)"
      using m by auto
    show ?thesis
      using c s by (cases step; cases pr) (auto dest: send_not_completed [where u = u])
  qed
  then show ?thesis
    using assms by (auto simp: attempt_credential_def Let_def split: prod.splits bool.splits ResolvedAuth.splits sum.splits if_splits)
qed

lemma loop_completed:
  "credential_loop n e l lg rot (at, f, a) = Some (Completed u, at', f', a') \<Longrightarrow> \<exists>result. u = completed_upstream result at'"
proof (induction n arbitrary: rot at f a)
  case 0
  then show ?case by simp
next
  case (Suc n)
  show ?case
  proof (cases "rot_current rot")
    case None
    then show ?thesis
      using Suc.prems
      by (auto simp: all_credentials_rejected_def adapter_sse_failure_outcome_def Let_def split: option.splits prod.splits)
  next
    case (Some credential)
    then show ?thesis
      using Suc.prems Suc.IH attempt_completed
      by (auto split: option.splits prod.splits sum.splits)
  qed
qed

text \<open>Requests that run during an await keep the bulkhead as it is.\<close>

definition bulkhead_quiet :: "('s, 'v, 'x) environment \<Rightarrow> bool" where
  "bulkhead_quiet e \<longleftrightarrow> (\<forall>b. environment_steady e (\<lambda>_ a. provider_in_flight (app_gates a) = b))"

definition holds_permit :: "string \<Rightarrow> (string \<times> string) list \<Rightarrow> bulkhead \<Rightarrow> nat \<Rightarrow> ('s, 'v, 'x) invariant" where
  "holds_permit p E b k = (\<lambda>at a. app_ok p E a \<and> provider_in_flight (app_gates a) = b \<and> provider_permit at = k)"

lemma environment_steady_conj:
  "environment_steady e I \<Longrightarrow> environment_steady e J \<Longrightarrow> environment_steady e (\<lambda>at a. I at a \<and> J at a)"
  unfolding environment_steady_def adapter_steady_def by simp

lemma holds_permit_steady:
  fixes e :: "('s, 'v, 'x) environment"
  assumes "env_ok e p E" "bulkhead_quiet e"
  shows "steady e (holds_permit p E b k)"
proof -
  have "updates_steady (holds_permit p E b k)"
    by (simp add: updates_steady_def holds_permit_def set_breakers_def)
  moreover have "environment_steady e (holds_permit p E b k)"
  proof -
    have "environment_steady e (\<lambda>_ a. app_ok p E a)" using assms(1) by (simp add: env_ok_def)
    moreover have "environment_steady e (\<lambda>_ a. provider_in_flight (app_gates a) = b)"
      using assms(2) unfolding bulkhead_quiet_def by blast
    moreover have "environment_steady e (\<lambda>at a. provider_permit at = k)"
      by (simp add: environment_steady_def adapter_steady_def)
    ultimately show ?thesis unfolding holds_permit_def by (intro environment_steady_conj)
  qed
  moreover have "marks_steady e (holds_permit p E b k)"
    unfolding marks_steady_def
  proof (intro allI impI conjI)
    fix at :: "('s, 'v, 'x) AttemptContext" and a credential
    assume "holds_permit p E b k at a"
    moreover obtain a' where a': "mark_used e credential a = Some a'" "app_ok p E a'"
      using mark_used_ok [of p E a e credential] calculation unfolding holds_permit_def by blast
    moreover have "app_gates a' = app_gates a" using a'(1) by (auto simp: mark_used_def)
    ultimately show "\<exists>a'. mark_used e credential a = Some a' \<and> holds_permit p E b k at a'"
      by (auto simp: holds_permit_def)
  next
    fix at :: "('s, 'v, 'x) AttemptContext" and a pid key st
    assume "holds_permit p E b k at a"
    moreover have "app_gates (snd (mark_invalid e pid key st a)) = app_gates a" by (simp add: mark_invalid_def split: prod.splits)
    ultimately show "holds_permit p E b k at (snd (mark_invalid e pid key st a))"
      using mark_invalid_ok [of p E a e pid key st] by (simp add: holds_permit_def)
  next
    fix a :: "('s, 'v, 'x) app" and at' credential d
    show "\<exists>u. note_quota_rejection e at' credential d a = Some (a\<lparr>app_usage := u\<rparr>)"
      by (rule note_quota_returns [OF env_ok_clock [OF assms(1)]])
  qed
  ultimately show ?thesis unfolding steady_def by blast
qed

text \<open>The permit of an attempt is released exactly once: a dispatch that fails returns it to the bulkhead, one that
  completes hands the same permit on with its result and leaves the bulkhead as it was.\<close>

lemma dispatch_settles_permit:
  assumes "env_ok e p E" "bulkhead_quiet e" "app_ok p E a" "rotation_at p E rot" "3 * length E + 7 \<le> fuel"
  shows "case dispatch_target fuel e l lg rot (at, f, a) of
      None \<Rightarrow> False
    | Some (Completed u, f', a') \<Rightarrow>
        cu_provider_permit u = provider_permit at \<and> provider_in_flight (app_gates a') = provider_in_flight (app_gates a)
    | Some (_, f', a') \<Rightarrow>
        provider_in_flight (app_gates a') = drop_provider_permit (provider_permit at) (provider_in_flight (app_gates a))"
proof -
  let ?I = "holds_permit p E (provider_in_flight (app_gates a)) (provider_permit at)"
  have "rotation_rank E rot \<le> 3 * length E + 5"
    using cursor_rank_le [of E] by (simp add: rotation_rank_def split: option.splits)
  then have "rotation_rank E rot + 1 < fuel" using assms(5) by simp
  moreover have "?I at a" using assms(3) by (simp add: holds_permit_def)
  ultimately have "returns ?I (credential_loop fuel e l lg rot (at, f, a))"
    using assms(4)
    by (intro credential_loop_returns [OF holds_permit_steady [OF assms(1,2)]])
      (auto simp: holds_permit_def intro: app_ok_order)
  then obtain out at' f' a' where r: "credential_loop fuel e l lg rot (at, f, a) = Some (out, at', f', a')" "?I at' a'"
    by (rule returnsE)
  show ?thesis
  proof (cases out)
    case (Completed u)
    obtain result where "u = completed_upstream result at'" using loop_completed [of fuel e l lg rot at f a u at' f' a'] r(1) Completed by blast
    then show ?thesis using r Completed by (simp add: dispatch_target_def completed_upstream_def holds_permit_def)
  qed (use r in \<open>simp_all add: dispatch_target_def holds_permit_def drop_attempt_def set_breakers_def set_bulkhead_def Let_def\<close>)
qed

section \<open>What becomes of a key\<close>

definition ids_quiet :: "('s, 'v, 'x) environment \<Rightarrow> bool" where
  "ids_quiet e \<longleftrightarrow> (\<forall>a. app_db (snd (new_v4 e a)) = app_db a)"

lemma log_failure_db [simp]: "ids_quiet e \<Longrightarrow> app_db (log_failure e l lg at cid st err a) = app_db a"
  by (auto simp: ids_quiet_def log_failure_def log_request_def Let_def split: prod.splits option.splits) (metis snd_conv)+

lemma settle_probe_db: "settle_probe h at a = (at', a') \<Longrightarrow> app_db a' = app_db a"
  by (auto simp: settle_probe_def set_breakers_def split: prod.splits)

lemma quota_not_invalid: "is_quota_rejection aid st \<Longrightarrow> \<not> should_mark_invalid aid st detail"
  by (auto simp: is_quota_rejection_def should_mark_invalid_def)

lemma note_quota_db: "note_quota_rejection e at credential d a = Some a' \<Longrightarrow> app_db a' = app_db a"
  by (auto simp: note_quota_rejection_def split: if_splits option.splits)


definition answer :: "status \<Rightarrow> upstream_response" where
  "answer st = \<lparr>up_status = st, up_headers = [], up_content_length = None, up_chunks = []\<rparr>"

definition stored_credential :: "string \<Rightarrow> ProviderCredential" where
  "stored_credential key = \<lparr>cred_id = Some key, cred_secret = None, cred_encrypted_secret = Some [7], cred_type = Some ApiKey\<rparr>"

lemma idle_ids: "ids_quiet (idle_env response)"
  by (simp add: ids_quiet_def idle_env_def)

lemma idle_adapter: "adapter_of (adapters (idle_env response)) GENERIC_ADAPTER_ID =
    Some (default_adapter Some [] GENERIC_ADAPTER_ID (\<lambda>u _ _. Inr u) (\<lambda>_ b. b))"
  by (simp add: adapter_of_def idle_env_def default_adapter_def)

lemma keyed_simps [simp]:
  "at_provider keyed_attempt = keyed_provider" "prov_adapter_id keyed_provider = GENERIC_ADAPTER_ID"
  "prov_id keyed_provider = ''p''" "cred_id (stored_credential key) = Some key" "up_status (answer st) = st"
  by (simp_all add: keyed_attempt_def keyed_provider_def stored_credential_def answer_def)

lemma idle_rejections:
  "key_rejected (idle_env response) GENERIC_ADAPTER_ID (stored_credential key) st \<longleftrightarrow> st \<in> {401, 403, 429}"
  by (simp add: key_rejected_def retry_upstream_response_as_key_rejection_def is_key_rejection_status_def idle_adapter
      default_is_key_rejection_status_def) (simp add: default_adapter_def default_is_key_rejection_status_def)


text \<open>C15: A failed request counts as a use of its key: when the provider answers a recovery attempt on an invalid key with
  a server error, the request fails but the key is marked valid and is offered as an active key again.\<close>

theorem failed_request_recovers_key:
  assumes "codecs_ok (app_db a)" "viewed (app_db a) (kd_snapshot (app_db a))"
    and "get_record (app_db a) ProviderApiKeys key = Inr (Some rec)" "rec_text rec ''provider_id'' = Inr p"
    and "rec_boolean rec ''enabled'' = Inr True" "rec_boolean rec ''invalid'' = Inr True"
    and "get_record (app_db a) Providers p = Inr (Some provider)" "provider_is_deleting provider = Inr False"
    and "rec_integer provider ''invalid_api_key_count'' = Inr n" "1 \<le> n"
    and "rec_text provider ''adapter_id'' = Inr ad" "provider_api_key_row key rec (Some ad) = Inr row"
    and "provider_api_key_index_key (kd_sha (app_db a)) p key True = Inr idx"
    and "check_at (app_key_updates a) key (instant_now e a) = Some (limiter', decision)" "allowed decision"
    and "unix_now e a = Some seconds" "ids_quiet e" "cred_id credential = Some key" "is_server_error (up_status r)"
    and "\<not> key_rejected e (prov_adapter_id (at_provider at)) credential (up_status r)"
  shows "\<exists>at' f' a'. classify_response e l lg credential (Inr r) (at, f, a) = Some (SendFailed TargetFailed, at', f', a') \<and>
    offered (app_db a') p False key = Some row"
proof -
  obtain db' where db': "mark_provider_key_used (app_key_updates a) (instant_now e a) (Some seconds) (Some key) (app_db a) = Some (limiter', db')"
    "offered db' p False key = Some row"
    using successful_key_recovers [OF assms(1-15)] by blast
  let ?a1 = "a\<lparr>app_key_updates := limiter', app_db := db'\<rparr>"
  have used: "mark_used e credential a = Some ?a1" using db'(1) assms(16,18) by (simp add: mark_used_def)
  have ns: "\<not> is_success (up_status r)" using assms(19) by (simp add: status_simps)
  have fo: "can_fail_over_after_provider_rejection (up_status r)"
    using assms(19) by (simp add: can_fail_over_after_provider_rejection_def)
  obtain at' f' a' where u: "unsuccessful_status e l lg r (up_status r) (at, select_credential credential f, ?a1) = (TargetFailed, at', f', a')"
    "app_db a' = db'"
  proof -
    let ?probe = "if \<not> is_quota_rejection (prov_adapter_id (at_provider at)) (up_status r) \<and> is_retryable (up_status r)
      then probe_failed e at ?a1 else settle_probe abort at ?a1"
    obtain at1 a2 where x: "?probe = (at1, a2)" by fastforce
    then have "app_db a2 = db'" by (auto simp: probe_failed_def dest!: settle_probe_db split: if_splits)
    then show ?thesis using x fo assms(17) that by (simp add: unsuccessful_status_def Let_def)
  qed
  then have "classify_response e l lg credential (Inr r) (at, f, a) = Some (SendFailed TargetFailed, at', f', a')"
    using used ns assms(20) by (simp add: classify_response_def plain_response_def Let_def)
  then show ?thesis using u(2) db'(2) by blast
qed

theorem failed_request_recovers_key_witness:
  "\<exists>at' f' a'. classify_response (idle_env (Inr (answer 500))) keyed_log 0 (stored_credential ''k'') (Inr (answer 500))
      (keyed_attempt, TargetLoopFailures_new, idle_app (sample_db (sample_key True True))) = Some (SendFailed TargetFailed, at', f', a') \<and>
    offered (app_db a') ''p'' False ''k'' = Some (example_row ''k'')"
proof -
  let ?a = "idle_app (sample_db (sample_key True True))"
  have db: "app_db ?a = sample_db (sample_key True True)" and lim: "app_key_updates ?a = example_limiter (FixedWindow 1 60)"
    by (simp_all add: idle_app_def)
  obtain l' d where c: "check_at (example_limiter (FixedWindow 1 60)) ''k'' 5 = Some (l', d)" "allowed d" using sample_check .
  have env: "instant_now (idle_env (Inr (answer 500))) ?a = 5" "unix_now (idle_env (Inr (answer 500))) ?a = Some 1000"
    by (simp_all add: idle_env_def)
  have st: "is_server_error (up_status (answer 500))" by (simp add: status_simps)
  have rej: "\<not> key_rejected (idle_env (Inr (answer 500)) :: (contents, unit, unit) environment)
      (prov_adapter_id (at_provider keyed_attempt)) (stored_credential ''k'') (up_status (answer 500))"
    by (simp add: idle_rejections)
  show ?thesis
    by (rule failed_request_recovers_key [where a = ?a, unfolded db lim, OF sample_ok sample_records(1) sample_fields(1-3)
        sample_records(2) sample_fields(4,5) order.refl sample_fields(6,7) sample_keys(3) _ c(2) env(2) idle_ids _ st rej])
      (use c env in simp_all)
qed

end
