(* ===== verification/Orchestrator.thy ===== *)
theory Orchestrator
  imports DispatchResults
begin

text \<open>
  One execution of a gateway request (\<^verbatim>\<open>src/gateway/execution/orchestrator.rs\<close>, \<^verbatim>\<open>execution/respond.rs\<close>): the loop over
  the route targets, the response made from a completed upstream result, and the final failure.
\<close>

section \<open>Responses\<close>

text \<open>
  A response holds a guard of the live request as an extension. A stream owns the permits of its attempt until it ends;
  its translation is not part of the model.
\<close>

record StreamStart =
  st_chunks :: chunks
  st_provider_id :: string
  st_model :: string
  st_credential_id :: "string option"
  st_protocol :: UpstreamProtocol
  st_provider_permit :: nat
  st_circuit_probe :: CircuitProbePermit
  st_overall_timeout :: "duration option"

datatype response_body = ErrorBody gateway_response | JsonBody json | StreamBody StreamStart

record client_response =
  cl_status :: status
  cl_request_id :: "string option"
  cl_body :: response_body
  cl_live :: "nat option"

definition error_response :: "gateway_response \<Rightarrow> nat option \<Rightarrow> client_response" where
  "error_response g live_guard =
     \<lparr>cl_status = gr_status g, cl_request_id = None, cl_body = ErrorBody g, cl_live = live_guard\<rparr>"

definition preparation_error_response :: "GatewayRequestPreparationError \<Rightarrow> client_response" where
  "preparation_error_response err =
     error_response (case err of Client st m \<Rightarrow> gateway_error st m | Database se \<Rightarrow> gateway_database_error se) None"

definition clone_guard :: "nat \<Rightarrow> ('s, 'v, 'x) app \<Rightarrow> nat \<times> ('s, 'v, 'x) app" where
  "clone_guard lg a = (next_id (app_live a), a\<lparr>app_live := guard_clone lg (app_live a)\<rparr>)"

definition drop_guard :: "('s, 'v, 'x) environment \<Rightarrow> nat \<Rightarrow> ('s, 'v, 'x) app \<Rightarrow> ('s, 'v, 'x) app" where
  "drop_guard e lg a = a\<lparr>app_live := drop_release lg (drop_check lg (unix_now e a) (app_live a))\<rparr>"

section \<open>From an upstream result to a response\<close>

text \<open>The permits of a completed result: the outcome of the probe, then the permit is dropped, then what is left of the probe.\<close>

definition settle_completed ::
  "(CircuitProbePermit \<Rightarrow> breakers \<Rightarrow> CircuitProbePermit \<times> breakers) \<Rightarrow> CircuitProbePermit \<Rightarrow> ('s, 'v, 'x) app
     \<Rightarrow> CircuitProbePermit \<times> ('s, 'v, 'x) app" where
  "settle_completed h probe a = (case h probe (breakers_of a) of (q, bs) \<Rightarrow> (q, set_breakers bs a))"

definition drop_permits :: "CircuitProbePermit \<Rightarrow> nat \<Rightarrow> ('s, 'v, 'x) app \<Rightarrow> ('s, 'v, 'x) app" where
  "drop_permits probe permit a =
     (let a1 = set_bulkhead (drop_provider_permit permit (provider_in_flight (app_gates a))) a
      in set_breakers (snd (release_probe probe (breakers_of a1))) a1)"

definition fail_completed ::
  "('s, 'v, 'x) environment \<Rightarrow> RequestLogPayload \<Rightarrow> nat \<Rightarrow> ('s, 'v, 'x) CompletedUpstream \<Rightarrow> string \<Rightarrow> TargetLoopFailures
     \<Rightarrow> ('s, 'v, 'x) app \<Rightarrow> TargetLoopFailures \<times> ('s, 'v, 'x) app" where
  "fail_completed e l lg u err f a =
     (case settle_completed (failed (app_circuit_settings a) (instant_now e a)) (cu_circuit_probe u) a of
        (probe, a1) \<Rightarrow>
          (let f1 = f\<lparr>last_status := BAD_GATEWAY, fl_error := err\<rparr>;
               a2 = log_request e (Some lg)
                 (provider_failure l (instant_now e a1) (cu_provider_id u) (cu_protocol u) (selected_credential_id f1)
                    (last_status f1) err (cu_model u)) a1
           in (f1, drop_permits probe (cu_provider_permit u) a2)))"

definition stream_response ::
  "('s, 'v, 'x) environment \<Rightarrow> RequestScope \<Rightarrow> RequestLogPayload \<Rightarrow> nat \<Rightarrow> bool \<Rightarrow> ('s, 'v, 'x) CompletedUpstream
     \<Rightarrow> TargetLoopFailures \<Rightarrow> ('s, 'v, 'x) app \<Rightarrow> client_response option \<times> TargetLoopFailures \<times> ('s, 'v, 'x) app" where
  "stream_response e sc l lg continuity u f a =
     (let start = (\<lambda>cs. case clone_guard lg a of
            (lg', a1) \<Rightarrow>
              (Some \<lparr>cl_status = OK, cl_request_id = Some (sc_request_id sc),
                cl_body = StreamBody
                  \<lparr>st_chunks = cs, st_provider_id = cu_provider_id u, st_model = cu_model u,
                   st_credential_id = selected_credential_id f, st_protocol = cu_protocol u,
                   st_provider_permit = cu_provider_permit u, st_circuit_probe = cu_circuit_probe u,
                   st_overall_timeout =
                     (if continuity then Some (continuity_request_timeout (upstream (sc_settings sc))) else None)\<rparr>,
                cl_live = Some lg'\<rparr>, f, a1));
          fail = (\<lambda>err. case fail_completed e l lg u err f a of (f1, a1) \<Rightarrow> (None, f1, a1))
      in case cu_result u of
           Response r \<Rightarrow>
             if \<not> accepts_event_stream_response r (ad_allows_missing_event_stream_content_type (cu_adapter u))
             then fail (''provider '' @ quoted (cu_provider_id u) @ '' returned a non-SSE response to a streaming request'')
             else start (up_chunks r)
         | Stream cs \<Rightarrow> start cs
         | _ \<Rightarrow> fail (''provider '' @ quoted (cu_provider_id u) @ '' returned an invalid adapter stream result''))"

definition read_upstream_value ::
  "('s, 'v, 'x) environment \<Rightarrow> ('s, 'v, 'x) CompletedUpstream \<Rightarrow> nat \<Rightarrow> ('s, 'v, 'x) app \<Rightarrow> (string + json) \<times> ('s, 'v, 'x) app" where
  "read_upstream_value e u response_limit a =
     (case cu_result u of
        AdapterResponse v \<Rightarrow> (Inr v, a)
      | Response r \<Rightarrow>
          if ad_wants_event_stream (cu_adapter u) then
            if \<not> accepts_event_stream_response r (ad_allows_missing_event_stream_content_type (cu_adapter u))
            then (Inl ''provider adapter returned a non-SSE response'', a)
            else (case read_adapter_event_stream (adapters e) (cu_adapter_id u) r response_limit a of
                    (res, a1) \<Rightarrow> (map_err sse_message res, a1))
          else
            (rbind (map_err (\<lambda>m. ''provider response failed: '' @ m) (read_limited_response r response_limit)) (\<lambda>bs.
             rbind (ok_or ''provider returned invalid JSON'' (json_from_slice (cd_json (env_codecs e)) bs)) (\<lambda>v.
               normalize_response (adapters e) (cu_adapter_id u) v)), a)
      | Stream _ \<Rightarrow> (Inl ''preflighted stream result cannot reach non-stream decoding'', a)
      | AdapterSseFailure err \<Rightarrow> (Inl (''provider adapter stream failed: '' @ sse_message err), a))"

definition success_log ::
  "RequestLogPayload \<Rightarrow> instant \<Rightarrow> ('s, 'v, 'x) CompletedUpstream \<Rightarrow> string option \<Rightarrow> Usage option \<Rightarrow> GatewayRequestLog" where
  "success_log l now u cid usage =
     provider_success l now (cu_provider_id u) (cu_protocol u) cid (cu_model u)
       (map_option (\<lambda>x. as_i64 (input_tokens x)) usage) (map_option (\<lambda>x. as_i64 (output_tokens x)) usage)
       (map_option (\<lambda>x. as_i64 (cached_tokens x)) usage) (map_option (\<lambda>x. as_i64 (cache_input_tokens x)) usage)
       (Option.bind usage cost_micro_usd)"

text \<open>\<open>None\<close> is the panic of the assignment to the field \<open>model\<close> of a response that is not an object.\<close>

definition decode_response ::
  "('s, 'v, 'x) environment \<Rightarrow> RequestScope \<Rightarrow> RequestLogPayload \<Rightarrow> nat \<Rightarrow> bool \<Rightarrow> ('s, 'v, 'x) CompletedUpstream
     \<Rightarrow> TargetLoopFailures \<Rightarrow> ('s, 'v, 'x) app
     \<Rightarrow> (client_response option \<times> TargetLoopFailures \<times> ('s, 'v, 'x) app) option" where
  "decode_response e sc l lg analytics u f a =
     (let fail = (\<lambda>err a. case fail_completed e l lg u err f a of (f1, a1) \<Rightarrow> Some (None, f1, a1)) in
      case read_upstream_value e u (upstream_response_limit_bytes (sc_settings sc)) a of
        (Inl err, a1) \<Rightarrow> fail (''provider '' @ quoted (cu_provider_id u) @ '' response failed: '' @ err) a1
      | (Inr v, a1) \<Rightarrow>
          (case decode_upstream_response (env_codecs e) (cu_protocol u) v (cu_model u) of
             Inl err \<Rightarrow> fail (provider_decode_failure_message err v) a1
           | Inr decoded \<Rightarrow>
               (let usage = rsp_usage decoded;
                    a2 = (if analytics
                          then a1\<lparr>app_token_usage := app_token_usage a1 @
                                 [(map_option input_tokens usage, map_option output_tokens usage,
                                   map_option cached_tokens usage, map_option cache_input_tokens usage)]\<rparr>
                          else a1)
                in case settle_completed succeeded (cu_circuit_probe u) a2 of
                     (probe, a3) \<Rightarrow>
                       (let a4 = log_request e (Some lg) (success_log l (instant_now e a3) u (selected_credential_id f) usage) a3;
                            a5 = drop_permits probe (cu_provider_permit u) a4
                        in map_option (\<lambda>result.
                             case clone_guard lg a5 of
                               (lg', a6) \<Rightarrow>
                                 (Some \<lparr>cl_status = OK, cl_request_id = Some (sc_request_id sc), cl_body = JsonBody result,
                                    cl_live = Some lg'\<rparr>, f, a6))
                             (index_assign ''model'' (JString (lp_route_alias l)) (encode_response (env_codecs e) (sc_client_protocol sc) decoded))))))"

definition respond ::
  "('s, 'v, 'x) environment \<Rightarrow> RequestScope \<Rightarrow> RequestLogPayload \<Rightarrow> nat \<Rightarrow> bool \<Rightarrow> bool \<Rightarrow> ('s, 'v, 'x) CompletedUpstream
     \<Rightarrow> TargetLoopFailures \<Rightarrow> ('s, 'v, 'x) app
     \<Rightarrow> (client_response option \<times> TargetLoopFailures \<times> ('s, 'v, 'x) app) option" where
  "respond e sc l lg continuity analytics u f a =
     (if sc_stream sc then Some (stream_response e sc l lg continuity u f a)
      else decode_response e sc l lg analytics u f a)"

definition final_status :: "TargetLoopFailures \<Rightarrow> status" where
  "final_status f = (if translation_failed f \<and> \<not> request_encodable f then BAD_REQUEST else last_status f)"

definition final_failure_response ::
  "('s, 'v, 'x) environment \<Rightarrow> RequestLogPayload \<Rightarrow> canonical \<Rightarrow> nat \<Rightarrow> TargetLoopFailures \<Rightarrow> ('s, 'v, 'x) app
     \<Rightarrow> client_response \<times> ('s, 'v, 'x) app" where
  "final_failure_response e l c lg f a =
     (let a1 = log_request e (Some lg)
            \<lparr>gl_request_id = sc_request_id (lp_scope l), gl_route = lp_route_alias l, gl_provider = None,
             gl_provider_credential_id = None, gl_api_key_id = lp_api_key_id l, gl_model = canonical_model c,
             gl_client = sc_client_protocol (lp_scope l), gl_upstream = None, gl_status = final_status f,
             gl_duration_ms = elapsed_ms (lp_started l) (instant_now e a), gl_input_tokens = None,
             gl_output_tokens = None, gl_cached_tokens = None, gl_cache_input_tokens = None,
             gl_cost_micro_usd = None, gl_error = Some (fl_error f)\<rparr> a;
          g = (gateway_error (final_status f) (fl_error f))\<lparr>gr_retry_after := upstream_retry_after f\<rparr>
      in (error_response g (Some lg), a1))"

section \<open>The target loop\<close>

datatype loop_end = Respond client_response | Exhausted

fun target_loop ::
  "nat \<Rightarrow> ('s, 'v, 'x) environment \<Rightarrow> RequestScope \<Rightarrow> RequestLogPayload \<Rightarrow> nat \<Rightarrow> bool \<Rightarrow> bool \<Rightarrow> Target list \<Rightarrow> canonical
     \<Rightarrow> TargetLoopFailures \<Rightarrow> ('s, 'v, 'x) app \<Rightarrow> (loop_end \<times> canonical \<times> TargetLoopFailures \<times> ('s, 'v, 'x) app) option" where
  "target_loop fuel e sc l lg continuity analytics [] c f a = Some (Exhausted, c, f, a)"
| "target_loop fuel e sc l lg continuity analytics (t # ts) c f a =
     (case prepare_target e sc c t lg a of
        (Inl (PrepDatabase err), c1, a1) \<Rightarrow>
          Some (Respond (error_response (gateway_database_error err) (Some lg)), c1, f, a1)
      | (Inl (Skip m), c1, a1) \<Rightarrow> target_loop fuel e sc l lg continuity analytics ts c1 (f\<lparr>fl_error := m\<rparr>) a1
      | (Inl (SkipWithStatus m st), c1, a1) \<Rightarrow>
          target_loop fuel e sc l lg continuity analytics ts c1 (f\<lparr>last_status := st, fl_error := m\<rparr>) a1
      | (Inl (SkipUnencodable m), c1, a1) \<Rightarrow>
          target_loop fuel e sc l lg continuity analytics ts c1
            (f\<lparr>last_status := BAD_REQUEST, fl_error := m, translation_failed := True\<rparr>) a1
      | (Inr at, c1, a1) \<Rightarrow>
          (let f1 = f\<lparr>request_encodable := True\<rparr> in
           case rotation_start fuel (at_provider at) a1 of
             None \<Rightarrow> None
           | Some (Inl err, a2) \<Rightarrow>
               Some (Respond (error_response (gateway_database_error err) (Some lg)), c1, f1, drop_attempt at a2)
           | Some (Inr rot, a2) \<Rightarrow>
               if rot_current rot = None
               then target_loop fuel e sc l lg continuity analytics ts c1
                      (f1\<lparr>fl_error := about (at_provider at) '' has no usable API keys''\<rparr>) (drop_attempt at a2)
               else
                 (case dispatch_target fuel e l lg rot
                         (at, f1\<lparr>last_key_rejection := None, last_adapter_sse_failure := None, selected_credential_id := None\<rparr>, a2) of
                    None \<Rightarrow> None
                  | Some (Completed u, f2, a3) \<Rightarrow>
                      (case respond e sc l lg continuity analytics u f2 a3 of
                         None \<Rightarrow> None
                       | Some (Some response, f3, a4) \<Rightarrow> Some (Respond response, c1, f3, a4)
                       | Some (None, f3, a4) \<Rightarrow> target_loop fuel e sc l lg continuity analytics ts c1 f3 a4)
                  | Some (TargetFailed, f2, a3) \<Rightarrow> target_loop fuel e sc l lg continuity analytics ts c1 f2 a3
                  | Some (Terminal, f2, a3) \<Rightarrow> Some (Exhausted, c1, f2, a3)
                  | Some (StorageFailed err, f2, a3) \<Rightarrow>
                      Some (Respond (error_response (gateway_database_error err) (Some lg)), c1, f2, a3))))"

record orchestrator =
  o_headers :: header_map
  o_client_protocol :: Protocol
  o_adapter_base_url_override :: "string option"
  o_resource_limits :: GatewayResourceLimits
  o_settings :: OperationalSettings
  o_api_key_id :: "string option"
  o_api_key_scope :: "ApiKeyScope option"
  o_analytics_key :: "string option"
  o_target_rotation_offset :: nat
  o_body :: json

text \<open>Decoding the body with the current snapshot of the output styles; the outcome of the styles is counted.\<close>

definition decode_body ::
  "('s, 'v, 'x) environment \<Rightarrow> orchestrator \<Rightarrow> ('s, 'v, 'x) app
     \<Rightarrow> (GatewayRequestPreparationError + canonical) \<times> ('s, 'v, 'x) app" where
  "decode_body e orc a =
     (case decode_gateway_request (env_codecs e) (env_style_texts e) (app_output_styles a) (o_client_protocol orc) (o_body orc) of
        Inl err \<Rightarrow> (Inl err, a)
      | Inr (result, c) \<Rightarrow> (Inr c, a\<lparr>app_style_metrics := metrics_record result (app_style_metrics a)\<rparr>))"

text \<open>
  The guard of the run moves into an error response of the database; the other responses hold a clone, and the guard
  is dropped when the run returns.
\<close>

definition orchestrator_run ::
  "nat \<Rightarrow> ('s, 'v, 'x) environment \<Rightarrow> orchestrator \<Rightarrow> ('s, 'v, 'x) app
     \<Rightarrow> (client_response \<times> ('s, 'v, 'x) app) option" where
  "orchestrator_run fuel e orc a0 =
     (let started = instant_now e a0 in
      case new_v4 e a0 of (uuid, a1) \<Rightarrow>
      case new_v4 e a1 of (uuid', a1) \<Rightarrow>
      case decode_body e orc a1 of (decoded, a2) \<Rightarrow>
      case prepare_gateway_request (app_db a2) (env_strings_json e) (\<lambda>n. header_text (o_headers orc) n) uuid uuid' decoded
             (o_client_protocol orc) (o_resource_limits orc) (o_analytics_key orc) (o_api_key_id orc) (o_api_key_scope orc)
             (o_target_rotation_offset orc) (app_gates a2) of
        (Inl err, g) \<Rightarrow> Some (preparation_error_response err, a2\<lparr>app_gates := g\<rparr>)
      | (Inr p, g) \<Rightarrow>
          (case new_v4 e (a2\<lparr>app_gates := g\<rparr>) of
             (live_uuid, a3) \<Rightarrow>
               (let c = prepared_canonical p;
                    lg = next_id (app_live a3);
                    a4 = a3\<lparr>app_live := guard_start live_uuid (unix_now e a3) (prepared_request_id p) (prepared_route_alias p)
                           (canonical_model c) (Protocol_as_str (o_client_protocol orc)) (prepared_api_key_id p) (app_live a3)\<rparr>;
                    sc = \<lparr>sc_request_id = prepared_request_id p, sc_adapter_session_id = prepared_session_id p,
                          sc_adapter_base_url_override = o_adapter_base_url_override orc, sc_settings = o_settings orc,
                          sc_resource_limits = o_resource_limits orc, sc_stream = canonical_stream c,
                          sc_client_protocol = o_client_protocol orc, sc_client_headers = o_headers orc\<rparr>;
                    l = \<lparr>lp_scope = sc, lp_route_alias = prepared_route_alias p, lp_api_key_id = prepared_api_key_id p,
                         lp_started = started\<rparr>
                in case target_loop fuel e sc l lg (background_continuity p) (o_analytics_key orc \<noteq> None) (prepared_targets p) c
                          TargetLoopFailures_new a4 of
                     None \<Rightarrow> None
                   | Some (Respond response, c1, f, a5) \<Rightarrow>
                       Some (response, if cl_live response = Some lg then a5 else drop_guard e lg a5)
                   | Some (Exhausted, c1, f, a5) \<Rightarrow>
                       (case clone_guard lg a5 of
                          (lg', a6) \<Rightarrow>
                            (case final_failure_response e l c1 lg' f a6 of
                               (response, a7) \<Rightarrow> Some (response, drop_guard e lg a7))))))"

end
