(* ===== verification/RequestRun.thy ===== *)
theory RequestRun
  imports Orchestrator
begin

text \<open>
  What a whole gateway request promises: it returns, and the permits of the provider bulkhead are as it found them, up
  to the one that a stream it answers with still holds.
\<close>

section \<open>The state between two requests\<close>

text \<open>
  Every provider's key order is kept, its stored cursor stands on a position of that order, and the bulkhead is in use
  by exactly the permits \<open>hs\<close>.
\<close>

definition gateway_ok :: "nat \<Rightarrow> (string \<Rightarrow> (string \<times> string) list) \<Rightarrow> (string \<times> nat) list \<Rightarrow> ('s, 'v, 'x) app \<Rightarrow> bool" where
  "gateway_ok mx E hs a \<longleftrightarrow>
     (\<forall>p. app_ok p (E p) a \<and> position_ok (app_db a) p (provider_key_cursor p (app_gates a))) \<and>
     app_provider_max_concurrency a = mx \<and> bulk_ok mx (provider_in_flight (app_gates a)) hs"

text \<open>
  What the other requests that run during an await keep, and what the code outside relies on: the clock stays a day
  away from the last instant.
\<close>

definition gateway_env :: "nat \<Rightarrow> (string \<Rightarrow> (string \<times> string) list) \<Rightarrow> ('s, 'v, 'x) environment \<Rightarrow> bool" where
  "gateway_env mx E e \<longleftrightarrow>
     (\<forall>a. instant_now e a + MAX_ANTIGRAVITY_RETRY_AFTER \<le> instant_max) \<and>
     (\<forall>hs. environment_steady e (\<lambda>_. gateway_ok mx E hs)) \<and>
     (\<forall>ad \<in> set (adapters e). \<forall>hs b a. gateway_ok mx E hs a \<longrightarrow> gateway_ok mx E hs (snd (ad_prepare_images ad b a)))"

lemma gateway_ok_updates [simp]:
  "gateway_ok mx E hs (a\<lparr>app_usage := u\<rparr>) = gateway_ok mx E hs a"
  "gateway_ok mx E hs (a\<lparr>app_rpm := t\<rparr>) = gateway_ok mx E hs a"
  "gateway_ok mx E hs (a\<lparr>app_live := lv\<rparr>) = gateway_ok mx E hs a"
  "gateway_ok mx E hs (a\<lparr>app_clients := c\<rparr>) = gateway_ok mx E hs a"
  "gateway_ok mx E hs (a\<lparr>app_logs := ls\<rparr>) = gateway_ok mx E hs a"
  "gateway_ok mx E hs (a\<lparr>app_provider_usage := us\<rparr>) = gateway_ok mx E hs a"
  "gateway_ok mx E hs (a\<lparr>app_token_usage := ts\<rparr>) = gateway_ok mx E hs a"
  "gateway_ok mx E hs (a\<lparr>app_style_metrics := sm\<rparr>) = gateway_ok mx E hs a"
  "gateway_ok mx E hs (set_breakers bs a) = gateway_ok mx E hs a"
  "gateway_ok mx E hs (a\<lparr>app_gates := (app_gates a)\<lparr>circuits := cg\<rparr>\<rparr>) = gateway_ok mx E hs a"
  by (simp_all add: gateway_ok_def set_breakers_def provider_key_cursor_def)

lemma gateway_ok_bulkhead:
  "gateway_ok mx E hs a \<Longrightarrow> bulk_ok mx b hs' \<Longrightarrow> gateway_ok mx E hs' (set_bulkhead b a)"
  by (simp add: gateway_ok_def set_bulkhead_def provider_key_cursor_def)

lemma released:
  assumes "gateway_ok mx E ((pr, k) # hs) a" "mx \<le> u64_max"
  shows "gateway_ok mx E hs (set_bulkhead (drop_provider_permit k (provider_in_flight (app_gates a))) a)"
proof -
  have "bulk_ok mx (provider_in_flight (app_gates a)) ((pr, k) # hs)" using assms(1) by (simp add: gateway_ok_def)
  from drop_provider_permit_ok [OF this _ assms(2), of pr k] show ?thesis
    by (intro gateway_ok_bulkhead [OF assms(1)]) simp
qed

lemma position_ok_sha: "kd_sha db' = kd_sha db \<Longrightarrow> position_ok db' p q = position_ok db p q"
  by (simp add: position_ok_def)

lemma write_attempt_sha [simp]: "kd_sha (snd (write_attempt op db)) = kd_sha db"
  by (simp add: write_attempt_def split: sum.splits)

lemma mark_used_fields:
  assumes "mark_used e credential a = Some a'"
  shows "app_gates a' = app_gates a" "app_provider_max_concurrency a' = app_provider_max_concurrency a"
    "kd_sha (app_db a') = kd_sha (app_db a)"
  using assms by (auto simp: mark_used_def mark_provider_key_used_def Let_def split: option.splits sum.splits prod.splits if_splits)

lemma mark_invalid_fields:
  "app_gates (snd (mark_invalid e pid key st a)) = app_gates a"
  "app_provider_max_concurrency (snd (mark_invalid e pid key st a)) = app_provider_max_concurrency a"
  "kd_sha (app_db (snd (mark_invalid e pid key st a))) = kd_sha (app_db a)"
proof -
  have sha: "kd_sha (snd (mark_provider_key_invalid u pid key s db)) = kd_sha db" for u s db
    by (simp add: mark_provider_key_invalid_def Let_def split: sum.splits)
  show "app_gates (snd (mark_invalid e pid key st a)) = app_gates a"
    "app_provider_max_concurrency (snd (mark_invalid e pid key st a)) = app_provider_max_concurrency a"
    by (simp_all add: mark_invalid_def split: prod.splits)
  show "kd_sha (app_db (snd (mark_invalid e pid key st a))) = kd_sha (app_db a)"
    using sha by (simp add: mark_invalid_def case_prod_beta)
qed

section \<open>Dispatching a target\<close>

text \<open>While a target is dispatched, the permit of the attempt is the first one in use.\<close>

definition attempt_ok ::
  "nat \<Rightarrow> (string \<Rightarrow> (string \<times> string) list) \<Rightarrow> string \<Rightarrow> nat \<Rightarrow> (string \<times> nat) list \<Rightarrow> ('s, 'v, 'x) invariant" where
  "attempt_ok mx E pr k hs = (\<lambda>at a. gateway_ok mx E ((pr, k) # hs) a \<and> prov_id (at_provider at) = pr \<and> provider_permit at = k)"

lemma gateway_env_clock: "gateway_env mx E e \<Longrightarrow> instant_now e a + MAX_ANTIGRAVITY_RETRY_AFTER \<le> instant_max"
  by (simp add: gateway_env_def)

lemma mark_used_gateway:
  assumes "gateway_ok mx E hs a"
  shows "\<exists>a'. mark_used e credential a = Some a' \<and> gateway_ok mx E hs a'"
proof -
  have ok: "app_ok p (E p) a" for p using assms by (simp add: gateway_ok_def)
  obtain a' where a': "mark_used e credential a = Some a'" using mark_used_ok [OF ok] by blast
  have "app_ok p (E p) a'" for p using mark_used_ok [OF ok, of e credential p] a' by auto
  then show ?thesis
    using a' assms mark_used_fields [OF a'] position_ok_sha [OF mark_used_fields(3) [OF a']]
    by (auto simp: gateway_ok_def)
qed

lemma mark_invalid_gateway: "gateway_ok mx E hs a \<Longrightarrow> gateway_ok mx E hs (snd (mark_invalid e pid key st a))"
  using mark_invalid_ok [of _ _ a e pid key st] mark_invalid_fields [of e pid key st a]
  by (simp add: gateway_ok_def position_ok_def)

lemma attempt_ok_steady:
  fixes e :: "('s, 'v, 'x) environment"
  assumes "gateway_env mx E e"
  shows "steady e (attempt_ok mx E pr k hs)"
proof -
  have "updates_steady (attempt_ok mx E pr k hs)"
    by (simp add: updates_steady_def attempt_ok_def)
  moreover have "environment_steady e (attempt_ok mx E pr k hs)"
  proof -
    have "environment_steady e (\<lambda>at a. gateway_ok mx E ((pr, k) # hs) a)" using assms unfolding gateway_env_def by blast
    moreover have "environment_steady e (\<lambda>at a. prov_id (at_provider at) = pr \<and> provider_permit at = k)"
      by (simp add: environment_steady_def adapter_steady_def)
    ultimately show ?thesis unfolding attempt_ok_def by (rule environment_steady_conj)
  qed
  moreover have "marks_steady e (attempt_ok mx E pr k hs)"
    unfolding marks_steady_def
  proof (intro allI impI conjI)
    fix at :: "('s, 'v, 'x) AttemptContext" and a credential
    assume "attempt_ok mx E pr k hs at a"
    then show "\<exists>a'. mark_used e credential a = Some a' \<and> attempt_ok mx E pr k hs at a'"
      using mark_used_gateway [of mx E "(pr, k) # hs" a e credential] by (auto simp: attempt_ok_def)
  next
    fix at :: "('s, 'v, 'x) AttemptContext" and a pid key st
    assume "attempt_ok mx E pr k hs at a"
    then show "attempt_ok mx E pr k hs at (snd (mark_invalid e pid key st a))"
      using mark_invalid_gateway [of mx E "(pr, k) # hs" a e pid key st] by (simp add: attempt_ok_def)
  next
    fix a :: "('s, 'v, 'x) app" and at' credential d
    show "\<exists>u. note_quota_rejection e at' credential d a = Some (a\<lparr>app_usage := u\<rparr>)"
      by (rule note_quota_returns [OF gateway_env_clock [OF assms]])
  qed
  ultimately show ?thesis unfolding steady_def by blast
qed

lemma dispatch_gateway:
  assumes "gateway_env mx E e" "mx \<le> u64_max" "gateway_ok mx E ((prov_id (at_provider at), provider_permit at) # hs) a"
    and "rotation_at (prov_id (at_provider at)) (E (prov_id (at_provider at))) rot" "3 * length (E (prov_id (at_provider at))) + 7 \<le> fuel"
  shows "\<exists>out f' a'. dispatch_target fuel e l lg rot (at, f, a) = Some (out, f', a') \<and>
    (case out of
       Completed u \<Rightarrow> gateway_ok mx E ((cu_provider_id u, cu_provider_permit u) # hs) a'
     | _ \<Rightarrow> gateway_ok mx E hs a')"
proof -
  let ?p = "prov_id (at_provider at)"
  let ?I = "attempt_ok mx E ?p (provider_permit at) hs"
  have "rotation_rank (E ?p) rot \<le> 3 * length (E ?p) + 5"
    using cursor_rank_le [of "E ?p"] by (simp add: rotation_rank_def split: option.splits)
  then have "rotation_rank (E ?p) rot + 1 < fuel" using assms(5) by simp
  moreover have "?I at a" using assms(3) by (simp add: attempt_ok_def)
  moreover have "key_order (app_db a') ?p (E ?p)" if "?I at' a'" for at' a'
    using that by (auto simp: attempt_ok_def gateway_ok_def intro: app_ok_order)
  ultimately have "returns ?I (credential_loop fuel e l lg rot (at, f, a))"
    using assms(4) by (intro credential_loop_returns [OF attempt_ok_steady [OF assms(1)]])
  then obtain out at' f' a' where r: "credential_loop fuel e l lg rot (at, f, a) = Some (out, at', f', a')" "?I at' a'"
    by (rule returnsE)
  have g: "gateway_ok mx E ((?p, provider_permit at') # hs) a'" and i: "prov_id (at_provider at') = ?p"
    using r(2) by (simp_all add: attempt_ok_def)
  have "gateway_ok mx E hs (drop_attempt at' a')"
    using released [of mx E ?p "provider_permit at'" hs "set_breakers (snd (release_probe (circuit_probe at') (breakers_of a'))) a'"] g assms(2)
    by (simp add: drop_attempt_def Let_def)
  moreover have "\<exists>result. u = completed_upstream result at'" if "out = Completed u" for u
    using loop_completed [of fuel e l lg rot at f a u at' f' a'] r(1) that by blast
  ultimately show ?thesis
    using r(1) g i by (cases out) (auto simp: dispatch_target_def completed_upstream_def)
qed

section \<open>Preparing a target\<close>

lemma gateway_env_images:
  assumes "gateway_env mx E e" "gateway_ok mx E hs a" "prepare_provider_images (adapters e) aid b a = (res, a')"
  shows "gateway_ok mx E hs a'"
proof (cases "adapter_of (adapters e) aid")
  case None
  then show ?thesis using assms(2,3) by (simp add: prepare_provider_images_def)
next
  case (Some ad)
  then have "ad \<in> set (adapters e)" by (auto simp: adapter_of_def find_Some_iff)
  then have "gateway_ok mx E hs (snd (ad_prepare_images ad b a))" using assms(1,2) unfolding gateway_env_def by blast
  then show ?thesis using Some assms(3) by (simp add: prepare_provider_images_def)
qed

lemma target_client_gateway:
  "gateway_ok mx E hs a \<Longrightarrow> target_client e sc p endpoint a = (res, a') \<Longrightarrow> gateway_ok mx E hs a'"
  by (auto simp: target_client_def Let_def split: prod.splits sum.splits)

lemma admit_target_gateway:
  assumes "gateway_ok mx E hs a" "0 < mx" "mx \<le> u64_max" "admit_target e sc p a = (res, a')"
  shows "gateway_ok mx E (case res of Inl _ \<Rightarrow> hs | Inr (_, k) \<Rightarrow> (prov_id p, k) # hs) a'"
proof -
  obtain pe g where c: "permit_provider_with_settings (circuit_breaker_enabled (sc_settings sc)) (instant_now e a) (prov_id p)
      (circuits (app_gates a)) = (pe, g)" by fastforce
  let ?a = "a\<lparr>app_gates := (app_gates a)\<lparr>circuits := g\<rparr>\<rparr>"
  obtain pk b where t: "try_provider_permit mx (prov_id p) (provider_in_flight (app_gates ?a)) = (pk, b)" by fastforce
  have a: "gateway_ok mx E hs ?a" "app_provider_max_concurrency a = mx" using assms(1) by (simp, simp add: gateway_ok_def)
  have "bulk_ok mx b (case pk of None \<Rightarrow> hs | Some k \<Rightarrow> (prov_id p, k) # hs)"
    by (rule try_provider_permit_ok [OF _ assms(2,3) t]) (use a(1) in \<open>simp add: gateway_ok_def\<close>)
  from gateway_ok_bulkhead [OF a(1) this] show ?thesis
    using assms(4) c t a by (cases pe; cases pk) (auto simp: admit_target_def Let_def)
qed

lemma prepare_target_gateway:
  assumes "gateway_env mx E e" "0 < mx" "mx \<le> u64_max" "gateway_ok mx E hs a" "prepare_target e sc c t lg a = (res, c', a')"
  shows "gateway_ok mx E (case res of Inl _ \<Rightarrow> hs | Inr at \<Rightarrow> (prov_id (at_provider at), provider_permit at) # hs) a'"
proof -
  have images: "gateway_ok mx E hs a2"
    if "prepare_provider_images (adapters e) aid b (a\<lparr>app_live := lv\<rparr>) = (x, a2)" for aid b lv x a2
    by (rule gateway_env_images [OF assms(1) _ that]) (simp add: assms(4))
  have admit: "gateway_ok mx E (case res of Inl _ \<Rightarrow> hs | Inr (_, k) \<Rightarrow> (prov_id p, k) # hs) a4"
    if "gateway_ok mx E hs a2" "target_client e sc p endpoint a2 = (y, a3)" "admit_target e sc p a3 = (res, a4)"
    for p endpoint a2 y a3 res a4
    using target_client_gateway [OF that(1,2)] that(3) by (rule admit_target_gateway [OF _ assms(2,3)])
  show ?thesis
    using assms(4,5) unfolding prepare_target_def Let_def
    by (auto split: sum.splits option.splits prod.splits if_splits dest!: images dest: target_client_gateway admit)
qed

section \<open>The rotation of the keys\<close>

lemma bind_SomeD: "Option.bind x f = Some y \<Longrightarrow> \<exists>z. f z = Some y"
  by (cases x) auto

lemma rotation_start_state:
  assumes "rotation_start fuel prov a = Some (res, a1)"
  shows "a1 = a \<or> (\<exists>rot cur q. res = Inr rot \<and> rot_current rot \<noteq> None \<and> rot_cursor rot = Some cur \<and> after cur = Some q \<and>
    a1 = a\<lparr>app_gates := set_provider_key_cursor (prov_id prov) q (app_gates a)\<rparr>)"
proof (cases "prov_auth_type prov \<noteq> ''none'' \<and> prov_key_strategy prov = KEY_STRATEGY_ROUND_ROBIN")
  case False
  then show ?thesis using assms by (auto simp: rotation_start_def split: if_splits)
next
  case True
  then have "rotation_start_rotating fuel prov a = Some (res, a1)" using assms by (simp add: rotation_start_def)
  then obtain started where "(case started of
          Inl err \<Rightarrow> Some (Inl err, a)
        | Inr s \<Rightarrow>
            Some (Inr (rotation_of_started prov s),
              case Option.bind s (\<lambda>(cursor, _). after cursor) of
                Some position \<Rightarrow> a\<lparr>app_gates := set_provider_key_cursor (prov_id prov) position (app_gates a)\<rparr>
              | None \<Rightarrow> a)) = Some (res, a1)"
    unfolding rotation_start_rotating_def Let_def by (blast dest!: bind_SomeD)
  then show ?thesis
    by (auto simp: rotation_of_started_def split: sum.splits option.splits prod.splits)
qed

lemma rotation_start_gateway:
  assumes "gateway_ok mx E hs a" "3 * length (E (prov_id prov)) + 7 \<le> fuel"
  shows "\<exists>res a1. rotation_start fuel prov a = Some (res, a1) \<and> gateway_ok mx E hs a1 \<and>
    (\<forall>rot. res = Inr rot \<longrightarrow> rotation_at (prov_id prov) (E (prov_id prov)) rot)"
proof -
  let ?p = "prov_id prov"
  have ok: "app_ok ?p (E ?p) a" "position_ok (app_db a) ?p (provider_key_cursor ?p (app_gates a))"
    using assms(1) by (simp_all add: gateway_ok_def)
  obtain res a1 where r: "rotation_start fuel prov a = Some (res, a1)" "\<forall>rot. res = Inr rot \<longrightarrow> rotation_at ?p (E ?p) rot"
    using rotation_start_returns [OF ok(1) _ ok(2), of fuel] assms(2) by auto
  have "gateway_ok mx E hs a1"
  proof (cases "a1 = a")
    case True
    then show ?thesis using assms(1) by simp
  next
    case False
    then obtain rot cur q where q: "res = Inr rot" "rot_current rot \<noteq> None" "rot_cursor rot = Some cur" "after cur = Some q"
      "a1 = a\<lparr>app_gates := set_provider_key_cursor ?p q (app_gates a)\<rparr>"
      using rotation_start_state [OF r(1)] by blast
    have "q \<in> fst ` set (E ?p)" using r(2) q(1-4) by (simp add: rotation_at_def cursor_at_def)
    then have "position_ok (app_db a) ?p (Some q)" using key_order_position [OF app_ok_order [OF ok(1)]] by auto
    then show ?thesis using assms(1) q(5)
      by (auto simp: gateway_ok_def provider_key_cursor_def set_provider_key_cursor_def hm.get_insert)
  qed
  then show ?thesis using r by blast
qed

section \<open>The response\<close>

text \<open>The permits a response still holds: a stream keeps the permit of its attempt.\<close>

definition stream_permits :: "client_response \<Rightarrow> (string \<times> nat) list" where
  "stream_permits r = (case cl_body r of StreamBody st \<Rightarrow> [(st_provider_id st, st_provider_permit st)] | _ \<Rightarrow> [])"

lemma gateway_env_steady: "gateway_env mx E e \<Longrightarrow> environment_steady e (\<lambda>_. gateway_ok mx E hs)"
  unfolding gateway_env_def by blast

lemma log_request_gateway:
  assumes "gateway_env mx E e" "gateway_ok mx E hs a"
  shows "gateway_ok mx E hs (log_request e lg g a)"
proof -
  have "gateway_ok mx E hs (snd (new_v4 e a))"
    using gateway_env_steady [OF assms(1)] assms(2) unfolding environment_steady_def by blast
  then show ?thesis
    by (auto simp: log_request_def Let_def split: prod.splits option.splits)
qed

lemma drop_permits_gateway:
  assumes "gateway_ok mx E ((pr, k) # hs) a" "mx \<le> u64_max"
  shows "gateway_ok mx E hs (drop_permits probe k a)"
  using released [OF assms] by (simp add: drop_permits_def Let_def)

lemma fail_completed_gateway:
  assumes "gateway_env mx E e" "mx \<le> u64_max" "gateway_ok mx E ((pr, cu_provider_permit u) # hs) a"
    and "fail_completed e l lg u err f a = (f1, a1)"
  shows "gateway_ok mx E hs a1"
  using assms(3,4)
  by (auto simp: fail_completed_def settle_completed_def Let_def split: prod.splits
      intro!: drop_permits_gateway [OF _ assms(2)] log_request_gateway [OF assms(1)])

lemma stream_response_gateway:
  assumes "gateway_env mx E e" "mx \<le> u64_max" "gateway_ok mx E ((cu_provider_id u, cu_provider_permit u) # hs) a"
    and "stream_response e sc l lg continuity u f a = (res, f1, a1)"
  shows "gateway_ok mx E (case res of Some r \<Rightarrow> stream_permits r @ hs | None \<Rightarrow> hs) a1"
  using assms(3,4) fail_completed_gateway [OF assms(1,2,3)]
  by (auto simp: stream_response_def Let_def clone_guard_def stream_permits_def
      split: ProviderUpstreamResult.splits if_splits prod.splits)

lemma read_upstream_gateway:
  assumes "gateway_env mx E e" "gateway_ok mx E hs a" "read_upstream_value e u n a = (res, a1)"
  shows "gateway_ok mx E hs a1"
proof -
  have "gateway_ok mx E hs a2" if "read_adapter_event_stream (adapters e) aid r n a = (z, a2)" for aid r z a2
  proof (cases "adapter_of (adapters e) aid")
    case None
    then show ?thesis using that assms(2) by (simp add: read_adapter_event_stream_def)
  next
    case (Some ad)
    then have "ad \<in> set (adapters e)" by (auto simp: adapter_of_def find_Some_iff)
    then have "gateway_ok mx E hs (snd (ad_read_event_stream ad r n a))"
      using gateway_env_steady [OF assms(1), of hs] assms(2) unfolding environment_steady_def adapter_steady_def by blast
    then show ?thesis using Some that by (simp add: read_adapter_event_stream_def)
  qed
  then show ?thesis
    using assms(2,3) by (auto simp: read_upstream_value_def split: ProviderUpstreamResult.splits if_splits prod.splits)
qed

lemma decode_response_gateway:
  assumes "gateway_env mx E e" "mx \<le> u64_max" "gateway_ok mx E ((cu_provider_id u, cu_provider_permit u) # hs) a"
  shows "\<exists>res f1 a1. decode_response e sc l lg analytics u f a = Some (res, f1, a1) \<and>
    (\<forall>r. res = Some r \<longrightarrow> stream_permits r = []) \<and> gateway_ok mx E hs a1"
proof -
  let ?hs = "(cu_provider_id u, cu_provider_permit u) # hs"
  obtain v a1 where v: "read_upstream_value e u (upstream_response_limit_bytes (sc_settings sc)) a = (v, a1)" by fastforce
  have a1: "gateway_ok mx E ?hs a1" by (rule read_upstream_gateway [OF assms(1,3) v])
  have fail: "\<exists>f1 a2. fail_completed e l lg u err f a1 = (f1, a2) \<and> gateway_ok mx E hs a2" for err
    using fail_completed_gateway [OF assms(1,2) a1] by (metis prod.exhaust)
  have granted: "gateway_ok mx E hs (drop_permits probe (cu_provider_permit u) (log_request e g lo (set_breakers bs a2)))"
    if "gateway_ok mx E ?hs a2" for probe g lo bs a2
    using that by (intro drop_permits_gateway [OF log_request_gateway [OF assms(1)] assms(2)]) simp
  show ?thesis
  proof (cases v)
    case (Inl err)
    then show ?thesis using v fail by (simp add: decode_response_def Let_def case_prod_beta)
  next
    case (Inr x)
    show ?thesis
    proof (cases "decode_upstream_response (env_codecs e) (cu_protocol u) x (cu_model u)")
      case (Inl err)
      then show ?thesis using v Inr fail by (simp add: decode_response_def Let_def case_prod_beta)
    next
      case (Inr decoded)
      obtain m where "encode_response (env_codecs e) (sc_client_protocol sc) decoded = JObject m"
        using encode_response_object by blast
      then show ?thesis using v \<open>v = Inr x\<close> Inr a1
        by (simp add: decode_response_def Let_def case_prod_beta settle_completed_def clone_guard_def stream_permits_def granted)
    qed
  qed
qed

lemma respond_gateway:
  assumes "gateway_env mx E e" "mx \<le> u64_max" "gateway_ok mx E ((cu_provider_id u, cu_provider_permit u) # hs) a"
  shows "\<exists>res f1 a1. respond e sc l lg continuity analytics u f a = Some (res, f1, a1) \<and>
    gateway_ok mx E (case res of Some r \<Rightarrow> stream_permits r @ hs | None \<Rightarrow> hs) a1"
proof (cases "sc_stream sc")
  case True
  obtain res f1 a1 where "stream_response e sc l lg continuity u f a = (res, f1, a1)" by (metis prod_cases3)
  then show ?thesis using stream_response_gateway [OF assms] True by (simp add: respond_def)
next
  case False
  then show ?thesis using decode_response_gateway [OF assms, of sc l lg analytics f]
    by (fastforce simp: respond_def split: option.splits)
qed

section \<open>The target loop returns\<close>

text \<open>The permits in use when the loop ends: those of before, and that of the stream it answers with.\<close>

definition loop_permits :: "loop_end \<Rightarrow> (string \<times> nat) list" where
  "loop_permits out = (case out of Respond r \<Rightarrow> stream_permits r | Exhausted \<Rightarrow> [])"

definition loop_returns ::
  "nat \<Rightarrow> (string \<Rightarrow> (string \<times> string) list) \<Rightarrow> (string \<times> nat) list
     \<Rightarrow> (loop_end \<times> canonical \<times> TargetLoopFailures \<times> ('s, 'v, 'x) app) option \<Rightarrow> bool" where
  "loop_returns mx E hs r \<longleftrightarrow> (\<exists>out c f a. r = Some (out, c, f, a) \<and> gateway_ok mx E (loop_permits out @ hs) a)"

lemma loop_returns_simps [simp]:
  "loop_returns mx E hs (Some (out, c, f, a)) = gateway_ok mx E (loop_permits out @ hs) a"
  by (simp add: loop_returns_def)

lemma loop_returnsE:
  assumes "loop_returns mx E hs r"
  obtains out c f a where "r = Some (out, c, f, a)" "gateway_ok mx E (loop_permits out @ hs) a"
  using assms by (auto simp: loop_returns_def)

lemma loop_permits_simps [simp]:
  "loop_permits Exhausted = []" "loop_permits (Respond r) = stream_permits r" "stream_permits (error_response g lg) = []"
  by (simp_all add: loop_permits_def stream_permits_def error_response_def)

lemma drop_attempt_gateway:
  assumes "gateway_ok mx E ((pr, provider_permit at) # hs) a" "mx \<le> u64_max"
  shows "gateway_ok mx E hs (drop_attempt at a)"
  using released [of mx E pr "provider_permit at" hs "set_breakers (snd (release_probe (circuit_probe at) (breakers_of a))) a"] assms
  by (simp add: drop_attempt_def Let_def)

lemma target_loop_returns:
  assumes env: "gateway_env mx E e" and mx: "0 < mx" "mx \<le> u64_max" and fuel: "\<And>p. 3 * length (E p) + 7 \<le> fuel"
    and "gateway_ok mx E hs a"
  shows "loop_returns mx E hs (target_loop fuel e sc l lg continuity analytics ts c f a)"
  using assms(5)
proof (induction ts arbitrary: c f a)
  case Nil
  then show ?case by simp
next
  case (Cons t ts)
  obtain res c1 a1 where p: "prepare_target e sc c t lg a = (res, c1, a1)" by (metis prod_cases3)
  note a1 = prepare_target_gateway [OF env mx Cons.prems p]
  show ?case
  proof (cases res)
    case (Inl err)
    then show ?thesis using p a1 Cons.IH by (cases err) simp_all
  next
    case (Inr at)
    let ?p = "prov_id (at_provider at)"
    have held: "gateway_ok mx E ((?p, provider_permit at) # hs) a1" using a1 Inr by simp
    obtain rs a2 where r: "rotation_start fuel (at_provider at) a1 = Some (rs, a2)"
      "gateway_ok mx E ((?p, provider_permit at) # hs) a2" "\<forall>rot. rs = Inr rot \<longrightarrow> rotation_at ?p (E ?p) rot"
      using rotation_start_gateway [OF held fuel] by blast
    note freed = drop_attempt_gateway [OF r(2) mx(2)]
    show ?thesis
    proof (cases "\<exists>rot. rs = Inr rot \<and> rot_current rot \<noteq> None")
      case False
      then show ?thesis using p Inr r(1) freed Cons.IH by (cases rs) (simp_all add: Let_def)
    next
      case True
      then obtain rot cr where rot: "rs = Inr rot" "rot_current rot = Some cr" by blast
      let ?f = "f\<lparr>request_encodable := True, last_key_rejection := None, last_adapter_sse_failure := None, selected_credential_id := None\<rparr>"
      obtain out f2 a3 where d: "dispatch_target fuel e l lg rot (at, ?f, a2) = Some (out, f2, a3)"
        "case out of
           Completed u \<Rightarrow> gateway_ok mx E ((cu_provider_id u, cu_provider_permit u) # hs) a3
         | _ \<Rightarrow> gateway_ok mx E hs a3"
        using dispatch_gateway [OF env mx(2) r(2) _ fuel, of rot] r(3) rot(1) by blast
      note step = p Inr r(1) rot d(1)
      show ?thesis
      proof (cases out)
        case (Completed u)
        then have "gateway_ok mx E ((cu_provider_id u, cu_provider_permit u) # hs) a3" using d(2) by simp
        from respond_gateway [OF env mx(2) this] obtain rsp f3 a4 where
          "respond e sc l lg continuity analytics u f2 a3 = Some (rsp, f3, a4)"
          "gateway_ok mx E (case rsp of Some r \<Rightarrow> stream_permits r @ hs | None \<Rightarrow> hs) a4" by blast
        then show ?thesis using step Completed Cons.IH by (cases rsp) (simp_all add: Let_def)
      qed (use step d(2) Cons.IH in \<open>simp_all add: Let_def\<close>)
    qed
  qed
qed

lemma new_id_gateway:
  assumes "gateway_env mx E e" "gateway_ok mx E hs a" "new_v4 e a = (v, a1)"
  shows "gateway_ok mx E hs a1"
  using gateway_env_steady [OF assms(1), of hs] assms(2,3) unfolding environment_steady_def by (metis snd_conv)

lemma prepare_request_gates:
  assumes "prepare_gateway_request db js h uuid uuid' decoded client limits ak k scope offset g = (res, g')"
  shows "provider_in_flight g' = provider_in_flight g" "provider_key_cursors g' = provider_key_cursors g"
proof -
  have "provider_in_flight (snd (resolve_gateway_targets db js m client offset g)) = provider_in_flight g \<and>
      provider_key_cursors (snd (resolve_gateway_targets db js m client offset g)) = provider_key_cursors g" for m
    by (simp add: resolve_gateway_targets_def Let_def split: sum.splits prod.splits)
  then have "provider_in_flight (snd (prepare_gateway_request db js h uuid uuid' decoded client limits ak k scope offset g)) = provider_in_flight g \<and>
      provider_key_cursors (snd (prepare_gateway_request db js h uuid uuid' decoded client limits ak k scope offset g)) = provider_key_cursors g"
    by (simp add: prepare_gateway_request_def Let_def case_prod_beta split: sum.splits)
  then show "provider_in_flight g' = provider_in_flight g" "provider_key_cursors g' = provider_key_cursors g"
    using assms by simp_all
qed

lemma final_failure_gateway:
  assumes "gateway_env mx E e" "gateway_ok mx E hs a" "final_failure_response e l c lg f a = (r, a1)"
  shows "stream_permits r = []" "gateway_ok mx E hs a1"
  using assms(2,3) by (auto simp: final_failure_response_def Let_def intro!: log_request_gateway [OF assms(1)])

lemma run_end:
  assumes "gateway_env mx E e" "loop_returns mx E hs r"
  shows "\<exists>response a'. (case r of
      None \<Rightarrow> None
    | Some (Respond response, c1, f, a5) \<Rightarrow> Some (response, if cl_live response = Some lg then a5 else drop_guard e lg a5)
    | Some (Exhausted, c1, f, a5) \<Rightarrow>
        (case clone_guard lg a5 of
           (lg', a6) \<Rightarrow> (case final_failure_response e l c1 lg' f a6 of (response, a7) \<Rightarrow> Some (response, drop_guard e lg a7))))
      = Some (response, a') \<and> gateway_ok mx E (stream_permits response @ hs) a'"
proof -
  obtain out c f a where r: "r = Some (out, c, f, a)" "gateway_ok mx E (loop_permits out @ hs) a"
    using assms(2) by (rule loop_returnsE)
  show ?thesis
  proof (cases out)
    case (Respond response)
    then show ?thesis using r by (simp add: drop_guard_def)
  next
    case Exhausted
    obtain response a7 where ff: "final_failure_response e l c (next_id (app_live a)) f (a\<lparr>app_live := guard_clone lg (app_live a)\<rparr>) = (response, a7)"
      by fastforce
    have "gateway_ok mx E hs (a\<lparr>app_live := guard_clone lg (app_live a)\<rparr>)" using r(2) Exhausted by simp
    from final_failure_gateway [OF assms(1) this ff] show ?thesis
      using r(1) Exhausted ff by (simp add: clone_guard_def drop_guard_def)
  qed
qed


subsection \<open>A request while nothing else runs\<close>

lemma example_order_any: "key_order example_db p example_order"
proof -
  have "provider_api_key_created_prefix (kd_sha example_db) p = provider_api_key_created_prefix (kd_sha example_db) ''p''"
    by (simp add: provider_api_key_created_prefix_def hash_component_def example_db_def)
  then show ?thesis using example_key_order unfolding key_order_def by metis
qed

lemma idle_gateway_ok: "gateway_ok 1 (\<lambda>_. example_order) [] (idle_app example_db)"
proof -
  have "app_ok p example_order (idle_app example_db)" for p
    using example_order_any [of p] idle_app_ok by (simp add: app_ok_def db_ok_def idle_app_def)
  moreover have "bulk_ok 1 bulkhead_new []" by (auto simp: bulk_ok_def bulkhead_new_def hm_ok_def)
  ultimately show ?thesis
    by (simp add: gateway_ok_def idle_app_def provider_key_cursor_def hm_get_def position_ok_def)
qed

lemma idle_gateway_env: "gateway_env mx E (idle_env response :: ('s, 'v, 'x) environment)"
proof -
  let ?e = "idle_env response :: ('s, 'v, 'x) environment"
  have "snd (ad_prepare_images ad b a) = a" if "ad \<in> set (adapters ?e)" for ad b a
    using that by (simp add: idle_env_def default_adapter_def)
  moreover have "instant_now ?e a + MAX_ANTIGRAVITY_RETRY_AFTER \<le> instant_max" for a
    by (rule env_ok_clock [OF idle_env_ok])
  ultimately show ?thesis
    unfolding gateway_env_def by (intro conjI allI ballI impI) (auto intro: idle_environment_steady)
qed

definition plain_request :: orchestrator where
  "plain_request =
     \<lparr>o_headers = [], o_client_protocol = ChatCompletions, o_adapter_base_url_override = None, o_resource_limits = limits_default,
      o_settings = settings_default, o_api_key_id = None, o_api_key_scope = None, o_analytics_key = None, o_target_rotation_offset = 0,
      o_body = json_obj [(''model'', JString ''m''), (''messages'', JArray [])]\<rparr>"


end
