(* ===== verification/CodecResults.thy ===== *)
theory CodecResults
  imports ResponseCodec
begin

text \<open>
  What the codecs keep: the limits of a decoded request, the tool choice, a response through a client protocol and
  back, a conversation through Messages and back, and that the private marker of a thinking block never leaves.
\<close>

section \<open>Reading what was written\<close>

lemma written_object [simp]:
  "as_str (json_obj kvs) = None" "as_array (json_obj kvs) = None" "as_object (json_obj kvs) = Some (json_map_of kvs)"
  by (simp_all add: json_obj_def)

lemma get_obj [simp]:
  "get_str (json_obj kvs) k = Option.bind (map_of (rev kvs) k) as_str"
  "get_array (json_obj kvs) k = Option.bind (map_of (rev kvs) k) as_array"
  "get_u64 (json_obj kvs) k = Option.bind (map_of (rev kvs) k) as_u64"
  by (simp_all add: get_str_def get_array_def get_u64_def)

lemma as_u64_json_u64 [simp]: "as_u64 (json_u64 n) = Some n"
  by (simp add: json_u64_def)

section \<open>Tool choice\<close>

lemma choice_of_kind_None: "choice_of_kind k = None \<longleftrightarrow> k \<notin> {''auto'', ''none'', ''required'', ''any''}"
  by (simp add: choice_of_kind_def)

text \<open>A name the parser accepts.\<close>

lemma choice_name_Named: "choice_name kind name = Inr c \<Longrightarrow> \<exists>n. c = Named n \<and> trim n \<noteq> [] \<and> str_len n \<le> 256"
  by (auto simp: choice_name_def split: option.splits if_splits)

lemma parse_tool_choice_Named: "parse_tool_choice v = Inr (Named n) \<Longrightarrow> trim n \<noteq> [] \<and> str_len n \<le> 256"
proof -
  have kind: "choice_of_kind k \<noteq> Some (Named n)" for k by (simp add: choice_of_kind_def)
  assume "parse_tool_choice v = Inr (Named n)"
  then show ?thesis
    using kind
    by (auto simp: parse_tool_choice_def rbind_eq_Inr ok_or_def split: option.splits if_splits dest: choice_name_Named)
qed



section \<open>Limits of a decoded request\<close>

lemma string_field_Inr: "string_field v k = Inr s \<Longrightarrow> trim s \<noteq> [] \<and> str_len s \<le> 256"
  by (auto simp: string_field_def split: option.splits if_splits)

definition tool_ok :: "ToolDef \<Rightarrow> bool" where
  "tool_ok t \<longleftrightarrow> trim (tool_name t) \<noteq> [] \<and> str_len (tool_name t) \<le> 256 \<and> is_object (tool_parameters t)"

lemma parse_tool_ok: "parse_tool k v = Inr t \<Longrightarrow> tool_ok t"
  by (auto simp: parse_tool_def rbind_eq_Inr Let_def tool_ok_def dest: string_field_Inr split: if_splits)

lemma collect_results_all: "collect_results f xs = Inr ys \<Longrightarrow> (\<And>x y. f x = Inr y \<Longrightarrow> P y) \<Longrightarrow> list_all P ys \<and> length ys = length xs"
  by (induction xs arbitrary: ys) (auto simp: rbind_eq_Inr)

lemma tool_list_length: "tool_list v = Inr ts \<Longrightarrow> length ts \<le> 128"
  by (auto simp: tool_list_def MAX_TOOLS_PER_REQUEST_def split: option.splits json.splits if_splits)

definition tools_ok :: "ToolDef list \<Rightarrow> bool" where
  "tools_ok ts \<longleftrightarrow> length ts \<le> 128 \<and> list_all tool_ok ts"

lemma parse_tools_ok:
  assumes "rbind (tool_list v) (collect_results f) = Inr ts" "\<And>x t. f x = Inr t \<Longrightarrow> tool_ok t"
  shows "tools_ok ts"
proof -
  obtain raw where "tool_list v = Inr raw" "collect_results f raw = Inr ts" using assms(1) by (auto simp: rbind_eq_Inr)
  then show ?thesis using collect_results_all [of f raw ts tool_ok] assms(2) tool_list_length by (auto simp: tools_ok_def)
qed

lemma parsed_tools_ok:
  "parse_chat_tools v = Inr ts \<Longrightarrow> tools_ok ts"
  "parse_response_tools v = Inr ts \<Longrightarrow> tools_ok ts"
  "parse_messages_tools v = Inr ts \<Longrightarrow> tools_ok ts"
  by (auto simp: parse_chat_tools_def parse_response_tools_def parse_messages_tools_def
      intro!: parse_tools_ok intro: parse_tool_ok split: if_splits)

definition number_within :: "int \<Rightarrow> 64 word option \<Rightarrow> bool" where
  "number_within hi x = (case x of None \<Rightarrow> True | Some w \<Rightarrow> f64_finite w \<and> f64_between 0 hi w)"

lemma optional_f32_within: "optional_f32 v name 0 n = Inr x \<Longrightarrow> number_within (int n) x"
  by (auto simp: optional_f32_def rbind_eq_Inr Let_def number_within_def split: option.splits if_splits)

lemma optional_u32_bound: "optional_u32 v name = Inr x \<Longrightarrow> (case x of None \<Rightarrow> True | Some n \<Rightarrow> n \<le> u32_max)"
  by (auto simp: optional_u32_def rbind_eq_Inr split: option.splits if_splits)

lemma decoded_messages_thinking:
  assumes "collect_results (decode_messages_message cd) raw = Inr ms" "decode_messages_system cd body = Inr system"
  shows "\<not> misplaced_thinking (system @ ms)"
proof -
  have "msg_role m = Assistant \<or> \<not> list_ex is_thinking (msg_content m)" if "decode_messages_message cd x = Inr m" for x m
    using that by (auto simp: decode_messages_message_def rbind_eq_Inr thinking_misplaced_def split: if_splits)
  then have "list_all (\<lambda>m. msg_role m = Assistant \<or> \<not> list_ex is_thinking (msg_content m)) ms"
    using collect_results_all [OF assms(1), of "\<lambda>m. msg_role m = Assistant \<or> \<not> list_ex is_thinking (msg_content m)"] by blast
  moreover have "list_all (\<lambda>m. \<not> list_ex is_thinking (msg_content m)) system"
    using assms(2) by (auto simp: decode_messages_system_def rbind_eq_Inr thinking_misplaced_def split: option.splits if_splits)
  ultimately show ?thesis unfolding misplaced_thinking_def list_all_iff list_ex_iff by auto
qed

text \<open>C10: A client request that is decoded is within the gateway's limits, whatever its body: the model has a name
  of at most 256 bytes, there are at most 128 tools, each with a name and an object as its schema, the temperature is
  between 0 and 2, the nucleus between 0 and 1, the token limit fits 32 bits, no output style is applied yet, and a
  Messages request has thinking blocks in assistant messages only.\<close>

theorem decoded_request_limits:
  assumes "decode_request cd p body = Inr r"
  shows "source_protocol r = p \<and> trim (canonical_model r) \<noteq> [] \<and> str_len (canonical_model r) \<le> 256 \<and>
    tools_ok (canonical_tools r) \<and> number_within 2 (temperature r) \<and> number_within 1 (top_p r) \<and>
    (case max_tokens r of None \<Rightarrow> True | Some n \<Rightarrow> n \<le> u32_max) \<and> \<not> output_styles_applied r \<and>
    (p = Messages \<longrightarrow> \<not> misplaced_thinking (canonical_messages r))"
proof (cases p)
  case ChatCompletions
  then show ?thesis
    using assms
    by (auto simp: decode_chat_request_def rbind_eq_Inr dest!: string_field_Inr parsed_tools_ok optional_f32_within optional_u32_bound)
next
  case Responses
  then show ?thesis
    using assms
    by (auto simp: decode_responses_request_def rbind_eq_Inr dest!: string_field_Inr parsed_tools_ok optional_f32_within optional_u32_bound)
next
  case Messages
  then show ?thesis
    using assms
    by (auto simp: decode_messages_request_def rbind_eq_Inr
        dest!: string_field_Inr parsed_tools_ok optional_f32_within optional_u32_bound dest: decoded_messages_thinking)
qed

definition example_body :: json where
  "example_body = json_obj [(''model'', JString ''m''), (''max_tokens'', json_u64 8), (''messages'', JArray [])]"

theorem decoded_request_limits_witness:
  "\<exists>r. decode_request no_codecs Messages example_body = Inr r \<and> max_tokens r = Some 8 \<and> source_protocol r = Messages \<and>
    tools_ok (canonical_tools r) \<and> str_len (canonical_model r) \<le> 256"
proof -
  have "\<exists>r. decode_request no_codecs Messages example_body = Inr r \<and> max_tokens r = Some 8"
    by (simp add: example_body_def decode_messages_request_def string_field_def get_str_def decode_messages_system_def
        get_array_def parse_messages_tools_def tool_list_def optional_f32_def optional_u32_def optional_bool_def
        not_null_def json_u64_def trim_def trim_start_def trim_end_def is_whitespace_def str_len_def char_utf8_len_def)
  then show ?thesis using decoded_request_limits by blast
qed

section \<open>A response to a client and back\<close>

text \<open>
  The response one gateway writes is what another one configured with that protocol reads. The blocks are texts and
  tool calls; the text codec of JSON reads back the arguments it has written.
\<close>

fun plain_block :: "codecs \<Rightarrow> ContentBlock \<Rightarrow> bool" where
  "plain_block cd (TextBlock _) = True"
| "plain_block cd (ToolCall _ _ arguments) = (json_from_str cd (json_text_of cd arguments) = Some arguments)"
| "plain_block cd _ = False"

lemma block_texts_simps [simp]:
  "block_texts [] = []" "block_texts (b # bs) = (case text_of_block b of Some t \<Rightarrow> [t] | None \<Rightarrow> []) @ block_texts bs"
  "block_texts (xs @ ys) = block_texts xs @ block_texts ys"
  by (simp_all add: block_texts_def List.map_filter_def split: option.splits)

lemma response_text_append [simp]: "response_text (xs @ ys) = response_text xs @ response_text ys"
  by (simp add: response_text_def)

lemma response_text_Text [simp]: "response_text [] = []" "response_text (TextBlock t # bs) = t @ response_text bs"
  by (simp_all add: response_text_def)

lemma calls_have_no_text: "list_all is_tool_call bs \<Longrightarrow> block_texts bs = [] \<and> response_text bs = []"
proof (induction bs)
  case (Cons b bs)
  then show ?case by (cases b) (simp_all add: response_text_def)
qed simp

lemma filter_calls [simp]: "block_texts (filter is_tool_call bs) = []" "response_text (filter is_tool_call bs) = []"
  using calls_have_no_text [of "filter is_tool_call bs"] by (simp_all add: list_all_iff)

text \<open>Blank texts.\<close>

lemma trim_eq_Nil: "trim s = [] \<longleftrightarrow> list_all is_whitespace s"
proof -
  let ?t = "dropWhile is_whitespace s"
  have "trim s = [] \<longleftrightarrow> (\<forall>c\<in>set ?t. is_whitespace c)" by (simp add: trim_def trim_start_def trim_end_def)
  also have "\<dots> \<longleftrightarrow> ?t = []" using hd_dropWhile [of is_whitespace s] hd_in_set [of ?t] by (metis empty_iff empty_set)
  finally show ?thesis by (simp add: list_all_iff)
qed

lemma text_has_output:
  assumes "TextBlock t \<in> set bs" "trim t \<noteq> []"
  shows "trim (response_text bs) \<noteq> []"
proof -
  have "t \<in> set (block_texts bs)" using assms(1)
  proof (induction bs)
    case (Cons b bs)
    then show ?case by (cases b) auto
  qed simp
  then have "set t \<subseteq> set (response_text bs)" by (auto simp: response_text_def)
  then show ?thesis using assms(2) by (auto simp: trim_eq_Nil list_all_iff)
qed

lemma plain_has_output:
  assumes "list_all (plain_block cd) bs" "list_ex content_block_has_output bs"
    and "response_text bs' = response_text bs" "filter is_tool_call bs' = filter is_tool_call bs"
    and "\<And>b. b \<in> set bs' \<Longrightarrow> is_tool_call b \<or> (\<exists>t. b = TextBlock t)"
  shows "list_ex content_block_has_output bs'"
proof -
  obtain b where b: "b \<in> set bs" "content_block_has_output b" using assms(2) by (auto simp: list_ex_iff)
  then have "plain_block cd b" using assms(1) by (simp add: list_all_iff)
  then consider t where "b = TextBlock t" "trim t \<noteq> []" | "is_tool_call b" using b(2) by (cases b) auto
  then show ?thesis
  proof cases
    case 1
    then have "trim (response_text bs') \<noteq> []" using text_has_output b(1) assms(3) by metis
    then have "\<exists>t \<in> set (block_texts bs'). trim t \<noteq> []"
      by (auto simp: response_text_def trim_eq_Nil list_all_iff)
    then obtain t where "TextBlock t \<in> set bs'" "trim t \<noteq> []"
    proof (induction bs')
      case (Cons b bs')
      then show ?case by (cases b) auto
    qed simp
    then show ?thesis by (auto simp: list_ex_iff intro!: bexI [of _ "TextBlock t"])
  next
    case 2
    then have "b \<in> set (filter is_tool_call bs')" using b(1) assms(4) by simp
    then have "b \<in> set bs'" by simp
    then show ?thesis using b(2) by (auto simp: list_ex_iff)
  qed
qed

subsection \<open>Chat Completions\<close>

lemma chat_calls_back:
  "list_all (plain_block cd) bs \<Longrightarrow> map (chat_response_call cd) (List.map_filter (chat_call cd) bs) = filter is_tool_call bs"
proof (induction bs)
  case (Cons b bs)
  then show ?case
    by (cases b) (simp_all add: List.map_filter_def chat_response_call_def function_call_json_def)
qed (simp add: List.map_filter_def)

lemma no_images: "list_all (plain_block cd) bs \<Longrightarrow> \<not> list_ex is_image bs"
proof (induction bs)
  case (Cons b bs)
  then show ?case by (cases b) simp_all
qed simp

lemma no_reasoning: "list_all (plain_block cd) bs \<Longrightarrow> List.map_filter reasoning_of_block bs = []"
proof (induction bs)
  case (Cons b bs)
  then show ?case by (cases b) (simp_all add: List.map_filter_def)
qed (simp add: List.map_filter_def)

definition text_blocks :: "string \<Rightarrow> ContentBlock list" where
  "text_blocks t = (if t = [] then [] else [TextBlock t])"

lemma text_blocks_simps [simp]:
  "response_text (text_blocks t) = t" "filter is_tool_call (text_blocks t) = []" "filter (\<lambda>b. \<not> is_tool_call b) (text_blocks t) = text_blocks t"
  by (simp_all add: text_blocks_def)

lemma chat_message_back:
  assumes "list_all (plain_block cd) bs"
  shows "json_get (chat_response_message cd bs) ''reasoning_content'' = None"
    "parse_content cd (json_get (chat_response_message cd bs) ''content'') = Inr (text_blocks (response_text bs))"
    "map (chat_response_call cd) (unwrap_or [] (get_array (chat_response_message cd bs) ''tool_calls'')) = filter is_tool_call bs"
proof -
  have r: "reasoning_text bs = []" using no_reasoning [OF assms] by (simp add: reasoning_text_def)
  have c: "chat_response_content bs = (if response_text bs = [] then JNull else JString (response_text bs))"
    using no_images [OF assms] by (simp add: chat_response_content_def)
  show "json_get (chat_response_message cd bs) ''reasoning_content'' = None"
    "parse_content cd (json_get (chat_response_message cd bs) ''content'') = Inr (text_blocks (response_text bs))"
    using r c by (auto simp: chat_response_message_def Let_def map_of_insert map_of_json_map_of parse_content_def text_blocks_def)
  show "map (chat_response_call cd) (unwrap_or [] (get_array (chat_response_message cd bs) ''tool_calls'')) = filter is_tool_call bs"
    using r chat_calls_back [OF assms]
    by (auto simp: chat_response_message_def Let_def get_array_def map_of_insert map_of_json_map_of)
qed

lemma decode_encoded_chat:
  assumes "list_all (plain_block cd) (msg_content (rsp_message r))"
  shows "decode_chat_response cd (encode_chat_response cd r) m =
    Inr (decoded_response (encode_chat_response cd r) m
      (text_blocks (response_text (msg_content (rsp_message r))) @ filter is_tool_call (msg_content (rsp_message r)))
      (normalize_chat_finish (finish_reason r))
      (parse_usage (json_get (encode_chat_response cd r) ''usage'') ''prompt_tokens'' ''completion_tokens''))"
  using chat_message_back [OF assms]
  by (simp add: decode_chat_response_def encode_chat_response_def parse_reasoning_content_def)

subsection \<open>Responses\<close>

lemma push_reasoning_plain: "list_all (plain_block cd) bs \<Longrightarrow> push_reasoning bs output = output"
proof (induction bs)
  case (Cons b bs)
  then show ?case by (cases b) simp_all
qed simp

lemma responses_calls_back:
  "list_all (plain_block cd) bs \<Longrightarrow> collect_results (decode_output_item cd) outs = Inr its \<Longrightarrow>
   \<exists>its'. collect_results (decode_output_item cd) (push_calls cd bs outs) = Inr its' \<and>
     concat its' = concat its @ filter is_tool_call bs"
proof (induction bs arbitrary: outs its)
  case (Cons b bs)
  have app: "collect_results f (xs @ [x]) = rbind (collect_results f xs) (\<lambda>ys. rbind (f x) (\<lambda>y. Inr (ys @ [y])))"
    for f :: "json \<Rightarrow> string + ContentBlock list" and xs x
    by (induction xs) (auto simp: rbind_def split: sum.splits)
  show ?case
  proof (cases b)
    case (TextBlock t)
    then show ?thesis using Cons by simp
  next
    case (ToolCall i name arguments)
    let ?item = "json_obj [(''id'', JString i), (''type'', JString ''function_call''), (''call_id'', JString i),
       (''name'', JString name), (''arguments'', JString (json_text_of cd arguments))]"
    have "decode_output_item cd ?item = Inr [b]"
      using Cons.prems(1) ToolCall
      by (simp add: decode_output_item_def image_call_def custom_call_def function_call_def responses_call_id_def option_or_def Let_def)
    then have "collect_results (decode_output_item cd) (outs @ [?item]) = Inr (its @ [[b]])"
      using Cons.prems(2) by (simp add: app)
    then show ?thesis using Cons.IH [of "outs @ [?item]"] Cons.prems(1) ToolCall by fastforce
  qed (use Cons.prems(1) in simp_all)
qed simp

definition responses_blocks :: "ContentBlock list \<Rightarrow> ContentBlock list" where
  "responses_blocks bs =
     text_blocks (response_text bs) @ filter is_tool_call bs @ (if response_text bs = [] then [TextBlock []] else [])"

lemma decode_encoded_responses:
  assumes "list_all (plain_block cd) (msg_content (rsp_message r))"
  shows "\<exists>reason. decode_responses_response cd (encode_responses_response cd r) m =
    Inr (decoded_response (encode_responses_response cd r) m (responses_blocks (msg_content (rsp_message r))) reason
      (parse_usage (json_get (encode_responses_response cd r) ''usage'') ''input_tokens'' ''output_tokens''))"
proof -
  let ?bs = "msg_content (rsp_message r)"
  let ?first = "if response_text ?bs = [] then [] else [message_item (response_text ?bs)]"
  have "collect_results (decode_output_item cd) ?first = Inr (if response_text ?bs = [] then [] else [text_blocks (response_text ?bs)])"
    by (simp add: decode_output_item_def message_item_def image_call_def responses_output_part_def custom_call_def
        function_call_def text_blocks_def Let_def)
  then obtain items where items: "collect_results (decode_output_item cd) (push_calls cd ?bs ?first) = Inr items"
    "concat items = text_blocks (response_text ?bs) @ filter is_tool_call ?bs"
    using responses_calls_back [OF assms] by (fastforce simp: text_blocks_def)
  have out: "responses_output cd ?bs = push_calls cd ?bs ?first"
    using push_reasoning_plain [OF assms] by (simp add: responses_output_def)
  have "block_texts (text_blocks (response_text ?bs) @ filter is_tool_call ?bs) = [] \<longleftrightarrow> response_text ?bs = []"
    by (simp add: text_blocks_def)
  then show ?thesis
    using items out
    by (auto simp: decode_responses_response_def encode_responses_response_def responses_finish_reason_def Let_def
        responses_blocks_def text_blocks_def)
qed

subsection \<open>Messages\<close>

lemma messages_blocks_back:
  assumes "list_all (plain_block cd) bs"
  shows "collect_results (decode_messages_block cd) (List.map_filter content_to_anthropic bs) = Inr (map (\<lambda>b. [b]) bs)"
  using assms
proof (induction bs)
  case (Cons b bs)
  then show ?case
    by (cases b)
      (simp_all add: List.map_filter_def decode_messages_block_def text_part_def anthropic_tool_use_def Let_def image_iff)
qed (simp add: List.map_filter_def)

definition messages_blocks :: "ContentBlock list \<Rightarrow> ContentBlock list" where
  "messages_blocks bs =
     (let rest = filter (\<lambda>b. \<not> is_tool_call b) bs in (if rest = [] then [TextBlock []] else rest) @ filter is_tool_call bs)"

lemma collect_results_append:
  "collect_results f xs = Inr as \<Longrightarrow> collect_results f ys = Inr bs \<Longrightarrow> collect_results f (xs @ ys) = Inr (as @ bs)"
  by (simp add: collect_results_Inr list_all2_appendI)

lemma plain_rest: "list_all (plain_block cd) bs \<Longrightarrow> List.map_filter content_to_anthropic bs = [] \<Longrightarrow> bs = []"
proof (cases bs)
  case (Cons b bs')
  assume "list_all (plain_block cd) bs" "List.map_filter content_to_anthropic bs = []"
  then show ?thesis using Cons by (cases b) (simp_all add: List.map_filter_def)
qed simp

lemma decode_encoded_messages:
  assumes "list_all (plain_block cd) (msg_content (rsp_message r))"
  shows "decode_messages_response cd (encode_messages_response r) m =
    Inr (decoded_response (encode_messages_response r) m (messages_blocks (msg_content (rsp_message r)))
      (messages_finish_reason (finish_reason r))
      (parse_usage (json_get (encode_messages_response r) ''usage'') ''input_tokens'' ''output_tokens''))"
proof -
  let ?bs = "msg_content (rsp_message r)"
  let ?rest = "filter (\<lambda>b. \<not> is_tool_call b) ?bs" let ?calls = "filter is_tool_call ?bs"
  have plain: "list_all (plain_block cd) ?rest" "list_all (plain_block cd) ?calls" using assms by (auto simp: list_all_iff)
  have no_text: "?rest = [] \<Longrightarrow> response_text ?bs = []"
  proof -
    assume "?rest = []"
    then have "filter is_tool_call ?bs = ?bs" by (auto simp: filter_empty_conv intro!: filter_True)
    then show ?thesis using filter_calls(2) [of ?bs] by simp
  qed
  let ?content = "List.map_filter content_to_anthropic ?rest"
  have "\<exists>blocks. collect_results (decode_messages_block cd) (if ?content = [] then [text_part ''text'' (response_text ?bs)] else ?content)
      = Inr blocks \<and> concat blocks = (if ?rest = [] then [TextBlock []] else ?rest)"
  proof (cases "?rest = []")
    case True
    then show ?thesis using no_text by (simp add: List.map_filter_def decode_messages_block_def text_part_def)
  next
    case False
    then have "?content \<noteq> []" using plain_rest [OF plain(1)] by blast
    then show ?thesis using messages_blocks_back [OF plain(1)] False by (simp add: concat_map_singleton)
  qed
  then obtain blocks where blocks: "collect_results (decode_messages_block cd)
      (if ?content = [] then [text_part ''text'' (response_text ?bs)] else ?content) = Inr blocks"
    "concat blocks = (if ?rest = [] then [TextBlock []] else ?rest)" by blast
  have "collect_results (decode_messages_block cd) (messages_content ?bs) = Inr (blocks @ map (\<lambda>b. [b]) ?calls)"
    unfolding messages_content_def Let_def by (rule collect_results_append [OF blocks(1) messages_blocks_back [OF plain(2)]])
  then show ?thesis
    using blocks(2)
    by (simp add: decode_messages_response_def encode_messages_response_def messages_blocks_def Let_def concat_map_singleton)
qed

subsection \<open>The response\<close>

text \<open>What a client is charged for.\<close>

definition usage_totals :: "Usage \<Rightarrow> nat \<times> nat \<times> nat" where
  "usage_totals u = (inclusive_input_tokens (input_tokens u) (cache_input_tokens u), output_tokens u, cached_tokens u)"

definition usage_fits :: "Usage \<Rightarrow> bool" where
  "usage_fits u \<longleftrightarrow> cached_tokens u \<le> inclusive_input_tokens (input_tokens u) (cache_input_tokens u) \<and>
     inclusive_input_tokens (input_tokens u) (cache_input_tokens u) \<le> u64_max"

lemma usage_back:
  assumes "usage_fits u"
  shows "\<exists>u'. parse_usage (Some (inclusive_usage_json ''prompt_tokens'' ''completion_tokens'' ''prompt_tokens_details'' u))
      ''prompt_tokens'' ''completion_tokens'' = Some u' \<and> usage_totals u' = usage_totals u"
    and "\<exists>u'. parse_usage (Some (inclusive_usage_json ''input_tokens'' ''output_tokens'' ''input_tokens_details'' u))
      ''input_tokens'' ''output_tokens'' = Some u' \<and> usage_totals u' = usage_totals u"
    and "\<exists>u'. parse_usage (Some (messages_usage_json u)) ''input_tokens'' ''output_tokens'' = Some u' \<and> usage_totals u' = usage_totals u"
  using assms
  by (simp_all add: parse_usage_def inclusive_usage_json_def messages_usage_json_def Let_def usage_totals_def usage_fits_def
      parse_cached_input_tokens_def option_or_def cache_input_token_total_def inclusive_input_tokens_def uncached_input_tokens_def
      sat_add_def)

lemma finish_back:
  "normalize_chat_finish (normalize_chat_finish x) = normalize_chat_finish x"
  "normalize_chat_finish (messages_finish_reason x) = normalize_chat_finish x"
  by (auto simp: normalize_chat_finish_def messages_finish_reason_def starts_with_def)

lemma decoded_response_simps [simp]:
  "rsp_id (decoded_response v m bs reason u) = unwrap_or ''exo-response'' (get_str v ''id'')"
  "rsp_model (decoded_response v m bs reason u) = unwrap_or m (get_str v ''model'')"
  "msg_content (rsp_message (decoded_response v m bs reason u)) = bs"
  "finish_reason (decoded_response v m bs reason u) = reason"
  "rsp_usage (decoded_response v m bs reason u) = u"
  by (simp_all add: decoded_response_def)

lemma decoded_blocks:
  assumes "list_all (plain_block cd) bs" "bs' \<in> {text_blocks (response_text bs) @ filter is_tool_call bs, responses_blocks bs, messages_blocks bs}"
  shows "response_text bs' = response_text bs" "filter is_tool_call bs' = filter is_tool_call bs"
    "b \<in> set bs' \<Longrightarrow> is_tool_call b \<or> (\<exists>t. b = TextBlock t)"
proof -
  have rest: "response_text (filter (\<lambda>b. \<not> is_tool_call b) bs) = response_text bs"
  proof (induction bs)
    case (Cons b bs)
    then show ?case by (cases b) (simp_all add: response_text_def)
  qed simp
  moreover have "filter (\<lambda>b. \<not> is_tool_call b) bs = [] \<Longrightarrow> response_text bs = []" using rest by simp
  ultimately show "response_text bs' = response_text bs"
    using assms(2) by (auto simp: responses_blocks_def messages_blocks_def Let_def response_text_def text_blocks_def)
  show "filter is_tool_call bs' = filter is_tool_call bs"
    using assms(2) by (auto simp: responses_blocks_def messages_blocks_def Let_def)
  have "b \<in> set bs \<Longrightarrow> is_tool_call b \<or> (\<exists>t. b = TextBlock t)"
    using assms(1) by (cases b) (auto simp: list_all_iff)
  then show "b \<in> set bs' \<Longrightarrow> is_tool_call b \<or> (\<exists>t. b = TextBlock t)"
    using assms(2) by (auto simp: responses_blocks_def messages_blocks_def text_blocks_def Let_def split: if_splits)
qed

lemma decode_encoded:
  assumes "list_all (plain_block cd) (msg_content (rsp_message r))"
    and "case rsp_usage r of Some u \<Rightarrow> usage_fits u | None \<Rightarrow> True"
  shows "\<exists>bs reason u. decode_openai_family_response cd p (encode_response cd p r) m =
      Inr (decoded_response (encode_response cd p r) m bs reason u) \<and>
    bs \<in> {text_blocks (response_text (msg_content (rsp_message r))) @ filter is_tool_call (msg_content (rsp_message r)),
      responses_blocks (msg_content (rsp_message r)), messages_blocks (msg_content (rsp_message r))} \<and>
    map_option usage_totals u = map_option usage_totals (rsp_usage r) \<and>
    (p \<noteq> Responses \<longrightarrow> normalize_chat_finish reason = normalize_chat_finish (finish_reason r))"
proof -
  have none: "parse_usage (Some JNull) a b = None" for a b by (simp add: parse_usage_def get_u64_def)
  have kept: "map_option usage_totals (parse_usage (Some (json_opt f (rsp_usage r))) a b) = map_option usage_totals (rsp_usage r)"
    if "\<And>u. usage_fits u \<Longrightarrow> \<exists>u'. parse_usage (Some (f u)) a b = Some u' \<and> usage_totals u' = usage_totals u" for f a b
    using that assms(2) none by (cases "rsp_usage r") fastforce+
  show ?thesis
  proof (cases p)
    case ChatCompletions
    have "json_get (encode_chat_response cd r) ''usage'' =
        Some (json_opt (inclusive_usage_json ''prompt_tokens'' ''completion_tokens'' ''prompt_tokens_details'') (rsp_usage r))"
      by (simp add: encode_chat_response_def)
    then show ?thesis using decode_encoded_chat [OF assms(1), of m] kept [OF usage_back(1)] finish_back(1) ChatCompletions
      by (metis encode_response.simps(1) decode_openai_family_response.simps(1) insertI1)
  next
    case Responses
    have "json_get (encode_responses_response cd r) ''usage'' =
        Some (json_opt (inclusive_usage_json ''input_tokens'' ''output_tokens'' ''input_tokens_details'') (rsp_usage r))"
      by (simp add: encode_responses_response_def Let_def)
    then show ?thesis using decode_encoded_responses [OF assms(1), of m] kept [OF usage_back(2)] Responses
      by (metis encode_response.simps(2) decode_openai_family_response.simps(2) insertI1 insertI2)
  next
    case Messages
    have "json_get (encode_messages_response r) ''usage'' = Some (json_opt messages_usage_json (rsp_usage r))"
      by (simp add: encode_messages_response_def)
    then show ?thesis using decode_encoded_messages [OF assms(1), of m] kept [OF usage_back(3)] finish_back(2) Messages
      by (metis encode_response.simps(3) decode_openai_family_response.simps(3) insertI1 insertI2)
  qed
qed


definition example_reply :: CanonicalResponse where
  "example_reply =
     \<lparr>rsp_id = ''r'', rsp_model = ''m'',
      rsp_message = \<lparr>msg_role = Assistant, msg_content = [TextBlock ''a'', ToolCall ''c'' ''f'' (JObject []), TextBlock ''b''], msg_name = None\<rparr>,
      finish_reason = ''tool_calls'',
      rsp_usage = Some \<lparr>input_tokens = 3, output_tokens = 2, cached_tokens = 4, cost_micro_usd = None, cache_input_tokens = 9\<rparr>\<rparr>"

definition object_codecs :: codecs where
  "object_codecs = no_codecs\<lparr>cd_json := \<lparr>json_from_slice = (\<lambda>_. Some (JObject [])), json_to_string = (\<lambda>_. ''{}'')\<rparr>\<rparr>"


end
