(* ===== verification/ConversationResults.thy ===== *)
theory ConversationResults
  imports CodecResults OutputStyles
begin

text \<open>
  A conversation in the Messages protocol reaches a Messages provider as it is, thinking blocks with their signatures
  included.
\<close>

section \<open>Sorted maps\<close>

lemma rbindE: "rbind r f = Inr y \<Longrightarrow> (\<And>x. r = Inr x \<Longrightarrow> f x = Inr y \<Longrightarrow> P) \<Longrightarrow> P"
  by (auto simp: rbind_eq_Inr)

lemma sorted_map_Cons: "sorted_map ((k, v) # m) \<longleftrightarrow> sorted_map m \<and> (\<forall>k' \<in> fst ` set m. k < k')"
  by (auto simp: sorted_map_def)

lemma sorted_map_Nil [simp]: "sorted_map []"
  by (simp add: sorted_map_def)

lemma sorted_map_eqI:
  assumes "sorted_map m" "sorted_map m'" "\<And>k. map_of m k = map_of m' k"
  shows "m = m'"
proof -
  have "map_of m = map_of m'" using assms(3) by (rule ext)
  then have "set m = set m'" using assms(1,2) sorted_map_distinct map_of_inject_set by metis
  moreover have "sorted_wrt (\<lambda>x y. fst x < fst y) m" "sorted_wrt (\<lambda>x y. fst x < fst y) m'"
    using assms(1,2) by (simp_all add: sorted_map_def sorted_wrt_map)
  moreover have "m = m'" if "set m = set m'" "sorted_wrt (\<lambda>x y. fst x < fst y) m" "sorted_wrt (\<lambda>x y. fst x < fst y) m'"
    for m m' :: "(string \<times> 'a) list"
    using that
  proof (induction m arbitrary: m')
    case (Cons x m)
    then obtain y n where m': "m' = y # n" by (cases m') auto
    have "x = y"
    proof (rule ccontr)
      assume "x \<noteq> y"
      then have "x \<in> set n" "y \<in> set m" using Cons.prems(1) m' by auto
      then have "fst y < fst x" "fst x < fst y" using Cons.prems(2,3) m' by auto
      then show False by simp
    qed
    moreover have "x \<notin> set m" "y \<notin> set n" using Cons.prems(2,3) m' by auto
    then have "set m = set n" using Cons.prems(1) m' \<open>x = y\<close> by auto
    ultimately show ?case using Cons m' by simp
  qed simp
  ultimately show ?thesis by blast
qed

lemma sorted_map_fold: "sorted_map m \<Longrightarrow> sorted_map (fold (\<lambda>(k, v). map_insert k v) kvs m)"
  by (induction kvs arbitrary: m) (auto simp: sorted_map_insert)

lemma sorted_json_map_of [simp]: "sorted_map (json_map_of kvs)"
  unfolding json_map_of_def by (rule sorted_map_fold) (simp add: sorted_map_def)

lemma sorted_insert_some: "sorted_map m \<Longrightarrow> sorted_map (insert_some k f x m)"
  by (cases x) (simp_all add: sorted_map_insert)

lemma map_of_insert_some: "map_of (insert_some k f x m) k' = (if k' = k \<and> x \<noteq> None then map_option f x else map_of m k')"
  by (cases x) (simp_all add: map_of_insert)

lemma map_of_extend: "map_of (extend_fields extra m) k = (case map_of (rev extra) k of Some v \<Rightarrow> Some v | None \<Rightarrow> map_of m k)"
  unfolding extend_fields_def
proof (induction extra arbitrary: m)
  case (Cons x extra)
  then show ?case by (cases x) (auto simp: map_of_insert split: option.splits)
qed simp

lemma map_of_rev_sorted: "sorted_map m \<Longrightarrow> map_of (rev m) = map_of m"
proof -
  assume "sorted_map m"
  then have "distinct (map fst m)" "distinct (map fst (rev m))" using sorted_map_distinct by (auto simp: rev_map [symmetric])
  then show ?thesis using map_of_inject_set [of "rev m" m] by simp
qed

lemma map_of_extend_sorted:
  "sorted_map extra \<Longrightarrow> map_of (extend_fields extra m) k = (case map_of extra k of Some v \<Rightarrow> Some v | None \<Rightarrow> map_of m k)"
  by (simp add: map_of_extend map_of_rev_sorted)

lemma sorted_extend: "sorted_map m \<Longrightarrow> sorted_map (extend_fields extra m)"
  unfolding extend_fields_def by (rule sorted_map_fold)

text \<open>Fields set aside when a block is parsed are the same after they have been merged into the block.\<close>

lemma other_fields_extend:
  assumes "sorted_map extra" "sorted_map base" "fst ` set base \<subseteq> set ks" "fst ` set extra \<inter> set ks = {}"
  shows "other_fields ks (JObject (extend_fields extra base)) = extra"
  unfolding other_fields_def
proof (simp, rule sorted_map_eqI [OF _ assms(1)])
  show "sorted_map (filter (\<lambda>(k, _). k \<notin> set ks) (extend_fields extra base))"
    by (rule sorted_map_filter [OF sorted_extend [OF assms(2)]])
  fix k
  have "map_of base k = None" if "k \<notin> set ks" using assms(3) that by (auto simp: map_of_eq_None_iff)
  moreover have "map_of extra k = None" if "k \<in> set ks" using assms(4) that by (auto simp: map_of_eq_None_iff)
  ultimately show "map_of (filter (\<lambda>(k, _). k \<notin> set ks) (extend_fields extra base)) k = map_of extra k"
    using map_of_extend_sorted [OF assms(1), of base k] map_of_filter_key [of "\<lambda>k. k \<notin> set ks" "extend_fields extra base" k]
    by (auto split: option.splits)
qed

section \<open>Messages to Messages\<close>

text \<open>The blocks Messages can carry, in the form the decoder produces them.\<close>

fun carried :: "ContentBlock \<Rightarrow> bool" where
  "carried (TextBlock t) = (t \<noteq> [])"
| "carried (Thinking t s extra) = (sorted_map extra \<and> fst ` set extra \<inter> {''type'', ''thinking'', ''signature''} = {})"
| "carried (RedactedThinking d extra) = (sorted_map extra \<and> fst ` set extra \<inter> {''type'', ''data''} = {})"
| "carried (ToolCall i name arguments) = is_object arguments"
| "carried (ToolResult i content) = (list_all (\<lambda>b. text_of_block b \<noteq> None) content \<and> list_ex (\<lambda>b. text_of_block b \<noteq> Some []) content)"
| "carried _ = False"

lemma fst_json_map_of: "fst ` set (json_map_of kvs) = fst ` set kvs"
proof -
  have "dom (map_of (json_map_of kvs)) = dom (map_of (rev kvs))" by (auto simp: map_of_json_map_of)
  then show ?thesis by (simp add: dom_map_of_conv_image_fst)
qed

lemma fst_insert_some: "fst ` set (insert_some k f x (m :: json_map)) \<subseteq> insert k (fst ` set m)"
  by (cases x) (auto simp: map_insert_def)

lemma parse_text_part [simp]: "parse_content_part cd (text_part ''text'' t) = Inr (TextBlock t)"
  by (simp add: text_part_def)

lemma not_marker_text [simp]: "\<not> is_marker (text_part ''text'' t)"
  by (simp add: is_marker_def text_part_def INTERNAL_THINKING_BLOCK_TYPE_def)

lemma get_str_JObject: "get_str (JObject m) k = Option.bind (map_of m k) as_str"
  by (simp add: get_str_def)

lemma thinking_back:
  assumes "carried (Thinking t s extra)"
  shows "\<exists>j. replacement UpMessages Preserve a (internal_thinking_block (Thinking t s extra)) = Some j \<and>
    parse_content_part cd j = Inr (Thinking t s extra)"
proof -
  let ?base = "insert_some ''signature'' JString s (json_map_of [(''type'', JString ''thinking''), (''thinking'', JString t)])"
  let ?j = "JObject (extend_fields extra ?base)"
  have base: "sorted_map ?base" "fst ` set ?base \<subseteq> {''type'', ''thinking'', ''signature''}"
    using fst_insert_some [of "''signature''" JString s "json_map_of [(''type'', JString ''thinking''), (''thinking'', JString t)]"]
    unfolding fst_json_map_of by (auto simp: sorted_insert_some)
  have extra: "sorted_map extra" "map_of extra ''type'' = None" "map_of extra ''thinking'' = None" "map_of extra ''signature'' = None"
    using assms by (auto simp: map_of_eq_None_iff)
  have "replacement UpMessages Preserve a (internal_thinking_block (Thinking t s extra)) = Some ?j"
    by (cases s) (simp_all add: replacement_def preserved_thinking_def copy_thinking_extra_def get_str_JObject map_of_insert
        map_of_json_map_of)
  moreover have "get_str ?j ''type'' = Some ''thinking''" "get_str ?j ''thinking'' = Some t"
    "json_get ?j ''signature'' = map_option JString s"
    using extra by (simp_all add: get_str_JObject map_of_extend_sorted map_of_insert_some map_of_json_map_of)
  moreover have "other_fields [''type'', ''thinking'', ''signature''] ?j = extra"
    using other_fields_extend [OF extra(1) base(1)] base(2) assms by simp
  ultimately show ?thesis by (cases s) (simp_all add: parse_thinking_part_def)
qed

lemma redacted_back:
  assumes "carried (RedactedThinking d extra)"
  shows "\<exists>j. replacement UpMessages Preserve a (internal_thinking_block (RedactedThinking d extra)) = Some j \<and>
    parse_content_part cd j = Inr (RedactedThinking d extra)"
proof -
  let ?base = "json_map_of [(''type'', JString ''redacted_thinking''), (''data'', JString d)]"
  let ?j = "JObject (extend_fields extra ?base)"
  have extra: "sorted_map extra" "map_of extra ''type'' = None" "map_of extra ''data'' = None"
    using assms by (auto simp: map_of_eq_None_iff)
  have "replacement UpMessages Preserve a (internal_thinking_block (RedactedThinking d extra)) = Some ?j"
    by (simp add: replacement_def preserved_thinking_def copy_thinking_extra_def)
  moreover have "get_str ?j ''type'' = Some ''redacted_thinking''" "get_str ?j ''data'' = Some d"
    using extra by (simp_all add: get_str_JObject map_of_extend_sorted map_of_json_map_of)
  moreover have "other_fields [''type'', ''data''] ?j = extra"
    using other_fields_extend [OF extra(1) sorted_json_map_of, of "[(''type'', JString ''redacted_thinking''), (''data'', JString d)]"] assms
    by (simp add: fst_json_map_of)
  ultimately show ?thesis by simp
qed

lemma texts_back: "list_all (\<lambda>b. text_of_block b \<noteq> None) content \<Longrightarrow>
    collect_results (parse_content_part cd) (map (text_part ''text'') (block_texts content)) = Inr content"
proof (induction content)
  case (Cons b content)
  then show ?case by (cases b) (simp_all del: parse_content_part.simps)
qed simp

lemma text_part_empty: "anthropic_content_block_is_empty (text_part ''text'' t) \<longleftrightarrow> t = []"
  by (simp add: anthropic_content_block_is_empty_def text_part_def)

lemma texts_nonempty: "list_ex (\<lambda>b. text_of_block b \<noteq> Some []) content \<Longrightarrow> list_all (\<lambda>b. text_of_block b \<noteq> None) content \<Longrightarrow>
    \<exists>t \<in> set (block_texts content). t \<noteq> []"
proof (induction content)
  case (Cons b content)
  then show ?case by (cases b) auto
qed simp

lemma result_back:
  assumes "carried (ToolResult i content)"
  shows "\<exists>j. content_to_anthropic (ToolResult i content) = Some j \<and> \<not> is_marker j \<and> \<not> anthropic_content_block_is_empty j \<and>
    parse_content_part cd j = Inr (ToolResult i content)"
proof -
  let ?blocks = "map (text_part ''text'') (block_texts content)"
  have "list_ex (\<lambda>b. \<not> anthropic_content_block_is_empty b) ?blocks"
    using texts_nonempty assms by (force simp: list_ex_iff text_part_empty)
  moreover have "parse_value cd (JArray ?blocks) = Inr content" using texts_back assms by simp
  ultimately show ?thesis
    by (simp add: Let_def is_marker_def INTERNAL_THINKING_BLOCK_TYPE_def anthropic_content_block_is_empty_def option_or_def)
qed

lemma block_back:
  assumes "carried b"
  shows "\<exists>j j'. content_to_anthropic_request b = Some j \<and> \<not> anthropic_content_block_is_empty j \<and>
    rewrite_block UpMessages Preserve a j = Some j' \<and> parse_content_part cd j' = Inr b \<and>
    (\<not> contains_thinking_block b \<longrightarrow> j' = j)"
proof (cases b)
  case (TextBlock t)
  then show ?thesis using assms
    by (simp add: content_to_anthropic_request_def is_thinking_def text_part_empty rewrite_block_def del: parse_content_part.simps)
next
  case (Thinking t s extra)
  have "is_marker (internal_thinking_block b)" "\<not> anthropic_content_block_is_empty (internal_thinking_block b)"
    using Thinking by (simp_all add: is_marker_def anthropic_content_block_is_empty_def get_str_JObject map_of_insert_some
        map_of_json_map_of INTERNAL_THINKING_BLOCK_TYPE_def)
  then show ?thesis using thinking_back [of t s extra a cd] assms Thinking
    by (auto simp: content_to_anthropic_request_def is_thinking_def rewrite_block_def simp del: parse_content_part.simps internal_thinking_block.simps)
next
  case (RedactedThinking d extra)
  have "is_marker (internal_thinking_block b)" "\<not> anthropic_content_block_is_empty (internal_thinking_block b)"
    using RedactedThinking by (simp_all add: is_marker_def anthropic_content_block_is_empty_def INTERNAL_THINKING_BLOCK_TYPE_def)
  then show ?thesis using redacted_back [of d extra a cd] assms RedactedThinking
    by (auto simp: content_to_anthropic_request_def is_thinking_def rewrite_block_def simp del: parse_content_part.simps internal_thinking_block.simps)
next
  case (ToolCall i name arguments)
  let ?j = "anthropic_tool_use i name arguments"
  have "parse_content_part cd ?j = Inr b"
    using ToolCall assms by (cases arguments)
      (simp_all add: anthropic_tool_use_def parse_tool_use_part_def option_or_def parse_arguments_def is_object_def)
  then show ?thesis using ToolCall
    by (simp add: content_to_anthropic_request_def is_thinking_def rewrite_block_def is_marker_def anthropic_content_block_is_empty_def
        anthropic_tool_use_def INTERNAL_THINKING_BLOCK_TYPE_def)
next
  case (ToolResult i content)
  then show ?thesis using result_back [of i content cd] assms
    by (auto simp: content_to_anthropic_request_def is_thinking_def rewrite_block_def simp del: parse_content_part.simps content_to_anthropic.simps)
qed (use assms in simp_all)

lemma blocks_back:
  assumes "list_all carried bs"
  shows "\<exists>js'. list_all (\<lambda>j. rewrite_block UpMessages Preserve a j \<noteq> None) (anthropic_blocks bs) \<and>
    List.map_filter (rewrite_block UpMessages Preserve a) (anthropic_blocks bs) = js' \<and>
    collect_results (parse_content_part cd) js' = Inr bs \<and> (\<not> list_ex contains_thinking_block bs \<longrightarrow> js' = anthropic_blocks bs)"
  using assms
proof (induction bs)
  case (Cons b bs)
  obtain j j' where b: "content_to_anthropic_request b = Some j" "\<not> anthropic_content_block_is_empty j"
    "rewrite_block UpMessages Preserve a j = Some j'" "parse_content_part cd j' = Inr b" "\<not> contains_thinking_block b \<longrightarrow> j' = j"
    using block_back Cons.prems by fastforce
  have "anthropic_blocks (b # bs) = j # anthropic_blocks bs" using b(1,2) by (simp add: anthropic_blocks_def List.map_filter_def)
  then show ?case using Cons b(3-5) by (simp add: List.map_filter_def del: parse_content_part.simps)
qed (simp add: anthropic_blocks_def List.map_filter_def)

lemma anthropic_blocks_nonempty: "list_all carried bs \<Longrightarrow> bs \<noteq> [] \<Longrightarrow> anthropic_blocks bs \<noteq> []"
proof (cases bs)
  case (Cons b bs')
  assume "list_all carried bs"
  then show ?thesis using block_back [of b] Cons by (fastforce simp: anthropic_blocks_def List.map_filter_def)
qed simp

definition conversation_message :: "Message \<Rightarrow> bool" where
  "conversation_message m \<longleftrightarrow> msg_role m \<in> {User, Assistant} \<and> msg_name m = None \<and> msg_content m \<noteq> [] \<and>
     list_all carried (msg_content m) \<and> (msg_role m \<noteq> Assistant \<longrightarrow> \<not> list_ex is_thinking (msg_content m))"

lemma read_message:
  assumes "conversation_message m" "get_str j ''role'' = Some (Role_as_str (msg_role m))" "json_get j ''content'' = Some (JArray js)"
    and "collect_results (parse_content_part cd) js = Inr (msg_content m)"
  shows "decode_messages_message cd j = Inr m"
  using assms by (cases "msg_role m")
    (auto simp: decode_messages_message_def parse_role_def parse_content_def conversation_message_def intro: Message.equality)

lemma message_back:
  assumes "conversation_message m"
  shows "\<exists>m'. rewrite_message ''content'' None UpMessages Preserve (messages_message m) = (False, Some m') \<and>
      decode_messages_message cd m' = Inr m \<and>
      (\<not> list_ex contains_thinking_block (msg_content m) \<longrightarrow> decode_messages_message cd (messages_message m) = Inr m)"
proof -
  let ?js = "anthropic_blocks (msg_content m)"
  let ?M = "json_map_of [(''role'', JString (Role_as_str (msg_role m))), (''content'', JArray ?js)]"
  have carried: "list_all carried (msg_content m)" and ne: "?js \<noteq> []"
    using assms anthropic_blocks_nonempty by (auto simp: conversation_message_def)
  obtain js' where js': "list_all (\<lambda>j. rewrite_block UpMessages Preserve False j \<noteq> None) ?js"
    "List.map_filter (rewrite_block UpMessages Preserve False) ?js = js'" "collect_results (parse_content_part cd) js' = Inr (msg_content m)"
    "\<not> list_ex contains_thinking_block (msg_content m) \<longrightarrow> js' = ?js" using blocks_back [OF carried] by blast
  have m: "messages_message m = JObject ?M"
    using assms ne by (auto simp: messages_message_def conversation_message_def Let_def json_obj_def)
  have M: "map_of ?M ''role'' = Some (JString (Role_as_str (msg_role m)))" "map_of ?M ''content'' = Some (JArray ?js)"
    by (simp_all add: map_of_json_map_of)
  have none: "\<not> list_ex (\<lambda>b. rewrite_block UpMessages Preserve False b = None) ?js"
    using js'(1) by (auto simp: list_ex_iff list_all_iff)
  let ?m' = "JObject (map_insert ''content'' (JArray js') ?M)"
  have "rewrite_message ''content'' None UpMessages Preserve (messages_message m) = (False, Some ?m')"
    using none js'(2) M by (simp add: m rewrite_message_def rewrite_content_blocks_def put_field_def Let_def)
  moreover have "decode_messages_message cd ?m' = Inr m"
    using read_message [OF assms] js'(3) M by (simp add: get_str_JObject map_of_insert)
  moreover have "decode_messages_message cd (messages_message m) = Inr m" if "\<not> list_ex contains_thinking_block (msg_content m)"
    using read_message [OF assms, where js = ?js] js'(3,4) that M m by (simp add: get_str_JObject)
  ultimately show ?thesis by blast
qed

lemma conversation_back:
  assumes "list_all conversation_message ms"
  shows "\<exists>e raw. rewrite_messages_field (Some (JArray (map messages_message ms))) ''content'' None UpMessages Preserve = (e, Some (JArray raw)) \<and>
      collect_results (decode_messages_message cd) raw = Inr ms"
    and "\<not> list_ex (\<lambda>m. list_ex contains_thinking_block (msg_content m)) ms \<Longrightarrow>
      collect_results (decode_messages_message cd) (map messages_message ms) = Inr ms"
proof -
  have "collect_results (decode_messages_message cd)
      (List.map_filter snd (map (rewrite_message ''content'' None UpMessages Preserve) (map messages_message ms))) = Inr ms"
    using assms
  proof (induction ms)
    case (Cons m ms)
    then show ?case using message_back [of m cd] by (fastforce simp: List.map_filter_def)
  qed (simp add: List.map_filter_def)
  then show "\<exists>e raw. rewrite_messages_field (Some (JArray (map messages_message ms))) ''content'' None UpMessages Preserve = (e, Some (JArray raw)) \<and>
      collect_results (decode_messages_message cd) raw = Inr ms"
    by (simp add: rewrite_messages_field_def Let_def)
  show "collect_results (decode_messages_message cd) (map messages_message ms) = Inr ms"
    if "\<not> list_ex (\<lambda>m. list_ex contains_thinking_block (msg_content m)) ms"
    using assms that
  proof (induction ms)
    case (Cons m ms)
    then show ?case using message_back [of m cd] by fastforce
  qed simp
qed

lemma encoded_messages_fields:
  assumes "encode_messages_request r model = Inr target"
  shows "map_of target ''messages'' = Some (JArray (map messages_message (filter (\<lambda>m. \<not> is_system m) (canonical_messages r))))"
    "map_of target ''system'' =
       (if system_text (canonical_messages r) = [] then None else Some (JString (system_text (canonical_messages r))))"
  using assms
  by (auto simp: encode_messages_request_def rbind_eq_Inr Let_def insert_tool_choice_def insert_tools_def map_of_insert
      map_of_insert_some map_of_json_map_of split: if_splits option.splits)

definition with_thinking :: "Message list \<Rightarrow> bool" where
  "with_thinking ms = list_ex (\<lambda>m. list_ex contains_thinking_block (msg_content m)) ms"

definition encoded_by :: "codecs \<Rightarrow> UpstreamProtocol \<Rightarrow> CanonicalRequest \<Rightarrow> string \<Rightarrow> string + json_map" where
  "encoded_by cd p r model =
     (case up_client_protocol p of None \<Rightarrow> google_encode_request cd r model | Some q \<Rightarrow> encode_openai_family_request cd q r model)"

lemma encode_upstream_Inr:
  assumes "encode_upstream_request_with_thinking cd p r model handling = Inr v"
  shows "\<exists>target body. encoded_by cd p r model = Inr target \<and> v = JObject body \<and>
    (if with_thinking (canonical_messages r) then finalize_thinking_payload target p handling else Inr target) = Inr body"
proof -
  have "encode_upstream_request_with_thinking cd p r model handling = Inr v \<Longrightarrow>
      rbind (encoded_by cd p r model) (\<lambda>target. rbind (if with_thinking (canonical_messages r)
        then finalize_thinking_payload target p handling else Inr target) (\<lambda>body. Inr (JObject body))) = Inr v"
    by (cases p; hypsubst) (simp_all add: encode_upstream_request_with_thinking_def encoded_by_def with_thinking_def split: if_splits)
  then show ?thesis using assms unfolding rbind_eq_Inr by blast
qed


definition signed_conversation :: CanonicalRequest where
  "signed_conversation = (example_canonical [example_message System ''s'', example_message User ''q'',
     \<lparr>msg_role = Assistant, msg_content = [Thinking ''t'' (Some ''sig'') [(''x'', JNull)], ToolCall ''c'' ''f'' (JObject [])], msg_name = None\<rparr>])
     \<lparr>source_protocol := Messages\<rparr>"

lemma signed_conversation_messages:
  "filter (\<lambda>m. \<not> is_system m) (canonical_messages signed_conversation) =
     [example_message User ''q'',
      \<lparr>msg_role = Assistant, msg_content = [Thinking ''t'' (Some ''sig'') [(''x'', JNull)], ToolCall ''c'' ''f'' (JObject [])], msg_name = None\<rparr>]"
  "system_text (canonical_messages signed_conversation) = ''s''"
  by (simp_all add: signed_conversation_def example_canonical_def is_system_def example_message_def system_text_def joined_texts_def)

lemma signed_conversation_encoded:
  "\<exists>v. encode_upstream_request_with_thinking no_codecs UpMessages signed_conversation ''m'' Preserve = Inr v"
  by (simp add: encode_upstream_request_with_thinking_def encode_openai_family_request_def encode_messages_request_def
      signed_conversation_def example_canonical_def misplaced_thinking_def is_thinking_def example_message_def is_system_def
      insert_tool_choice_def finalize_thinking_payload_def messages_field_def Let_def split: prod.splits)


end
