(* ===== verification/MarkerResults.thy ===== *)
theory MarkerResults
  imports ConversationResults
begin

text \<open>
  No provider sees the private marker that stands for a thinking block while a request is encoded: what the encoders
  write, what finalizing the payload makes of it, and the requests the decoders produce.
\<close>

section \<open>Finalizing a payload\<close>

definition parts_of :: "string \<Rightarrow> json \<Rightarrow> json list" where
  "parts_of key m = unwrap_or [] (get_array m key)"

text \<open>The content parts of a payload: those of its messages, and for Google those of the system instruction.\<close>

definition payload_parts :: "UpstreamProtocol \<Rightarrow> json \<Rightarrow> json list" where
  "payload_parts p v =
     (case messages_field p of (field, key, _) \<Rightarrow>
        concat (map (parts_of key) (parts_of field v)) @
        (if p = GoogleGenerateContent then unwrap_or [] (map_option (parts_of ''parts'') (json_get v ''systemInstruction'')) else []))"

definition part_ok :: "json \<Rightarrow> bool" where
  "part_ok b \<longleftrightarrow> (is_marker b \<longrightarrow> (\<exists>extra. json_get b ''extra'' = Some (JObject extra) \<and> sorted_map extra \<and> map_of extra ''type'' = None))"

lemma thinking_text_not_marker: "\<not> is_marker (thinking_text p a t)"
  by (cases p) (simp_all add: is_marker_def responses_text_def text_part_def INTERNAL_THINKING_BLOCK_TYPE_def)

lemma typed_not_marker:
  assumes "sorted_map extra" "map_of extra ''type'' = None" "map_of m ''type'' = Some (JString t)" "t \<noteq> INTERNAL_THINKING_BLOCK_TYPE"
  shows "\<not> is_marker (JObject (extend_fields extra m))"
  using assms by (simp add: is_marker_def get_str_JObject map_of_extend_sorted)

lemma preserved_not_marker: "is_marker b \<Longrightarrow> part_ok b \<Longrightarrow> preserved_thinking p a b = Some b' \<Longrightarrow> \<not> is_marker b'"
proof -
  assume "is_marker b" "part_ok b"
  then obtain extra where extra: "json_get b ''extra'' = Some (JObject extra)" "sorted_map extra" "map_of extra ''type'' = None"
    by (auto simp: part_ok_def)
  assume "preserved_thinking p a b = Some b'"
  then consider t where "b' = JObject (extend_fields extra (insert_some ''signature'' (\<lambda>x. x) (json_get b ''signature'')
        (json_map_of [(''type'', JString ''thinking''), (''thinking'', JString t)])))"
    | t where "b' = thinking_text p a t"
    | d where "b' = JObject (extend_fields extra (json_map_of [(''type'', JString ''redacted_thinking''), (''data'', JString d)]))"
    using extra(1) by (auto simp: preserved_thinking_def copy_thinking_extra_def split: if_splits option.splits)
  then show ?thesis
  proof cases
    case 1
    show ?thesis unfolding 1
      by (rule typed_not_marker [OF extra(2,3), where t = "''thinking''"])
        (simp_all add: map_of_insert_some map_of_json_map_of INTERNAL_THINKING_BLOCK_TYPE_def)
  next
    case 2
    then show ?thesis using thinking_text_not_marker by simp
  next
    case 3
    show ?thesis unfolding 3
      by (rule typed_not_marker [OF extra(2,3), where t = "''redacted_thinking''"])
        (simp_all add: map_of_json_map_of INTERNAL_THINKING_BLOCK_TYPE_def)
  qed
qed

lemma rewritten_not_marker: "part_ok b \<Longrightarrow> rewrite_block p handling a b = Some b' \<Longrightarrow> \<not> is_marker b'"
  using preserved_not_marker thinking_text_not_marker
  by (auto simp: rewrite_block_def replacement_def split: if_splits ThinkingHandling.splits)

definition array_of :: "json option \<Rightarrow> json list" where
  "array_of x = unwrap_or [] (Option.bind x as_array)"

lemma parts_of_JObject: "parts_of key (JObject m) = array_of (map_of m key)"
  by (simp add: parts_of_def get_array_def array_of_def)

lemma in_map_filter: "b \<in> set (List.map_filter f xs) \<longleftrightarrow> (\<exists>x\<in>set xs. f x = Some b)"
  by (force simp: List.map_filter_def)

lemma rewrite_array:
  assumes "rewrite_content_blocks p handling a x = (removed, x')"
  shows "array_of x' = List.map_filter (rewrite_block p handling a) (array_of x)" "x' = None \<longleftrightarrow> x = None"
proof -
  have "array_of x' = List.map_filter (rewrite_block p handling a) (array_of x) \<and> (x' = None \<longleftrightarrow> x = None)"
  proof (cases x)
    case (Some v)
    then show ?thesis using assms
      by (cases v) (auto simp: rewrite_content_blocks_def array_of_def List.map_filter_def)
  qed (use assms in \<open>auto simp: rewrite_content_blocks_def array_of_def List.map_filter_def\<close>)
  then show "array_of x' = List.map_filter (rewrite_block p handling a) (array_of x)" "x' = None \<longleftrightarrow> x = None" by auto
qed

lemma rewritten_field:
  assumes "rewrite_content_blocks p handling a (map_of m key) = (removed, x')" "\<forall>b\<in>set (parts_of key (JObject m)). part_ok b"
    "b \<in> set (parts_of key (JObject (put_field key x' m)))"
  shows "\<not> is_marker b"
proof -
  have "array_of (map_of (put_field key x' m) key) = array_of x'"
    using rewrite_array(2) [OF assms(1)] by (auto simp: put_field_def map_of_insert_some)
  then have "b \<in> set (List.map_filter (rewrite_block p handling a) (array_of (map_of m key)))"
    using assms(3) rewrite_array(1) [OF assms(1)] by (simp add: parts_of_JObject)
  then obtain x where x: "x \<in> set (array_of (map_of m key))" "rewrite_block p handling a x = Some b"
    unfolding in_map_filter by blast
  have "part_ok x" using assms(2) x(1) by (simp add: parts_of_JObject)
  then show ?thesis by (rule rewritten_not_marker [OF _ x(2)])
qed

lemma rewritten_message:
  assumes "rewrite_message key pf p handling m = (removed, Some m')" "\<forall>b\<in>set (parts_of key m). part_ok b" "b \<in> set (parts_of key m')"
  shows "\<not> is_marker b"
proof (cases "as_object m")
  case None
  then have "m' = m" using assms(1) by (simp add: rewrite_message_def)
  moreover have "parts_of key m = []" using None by (simp add: parts_of_def get_array_def json_get_def)
  ultimately show ?thesis using assms(3) by simp
next
  case (Some fields)
  then have m: "m = JObject fields" by (cases m) simp_all
  obtain a removed' content where c: "rewrite_content_blocks p handling a (map_of fields key) = (removed', content)"
    "m' = JObject (put_field key content fields)"
    using assms(1) Some by (auto simp: rewrite_message_def Let_def split: prod.splits if_splits)
  show ?thesis using rewritten_field [OF c(1)] assms(2,3) m c(2) by blast
qed

lemma rewritten_messages:
  assumes "rewrite_messages_field (map_of body field) key pf p handling = (e, x)"
    and "\<forall>m\<in>set (parts_of field (JObject body)). \<forall>b\<in>set (parts_of key m). part_ok b"
    and "m' \<in> set (parts_of field (JObject (put_field field x body)))" "b \<in> set (parts_of key m')"
  shows "\<not> is_marker b"
proof (cases "Option.bind (map_of body field) as_array")
  case None
  then have "x = map_of body field"
    using assms(1) by (auto simp: rewrite_messages_field_def split: option.splits json.splits)
  then have "array_of (map_of (put_field field x body) field) = []"
    using None by (auto simp: put_field_def map_of_insert_some array_of_def split: option.splits)
  then show ?thesis using assms(3) by (simp add: parts_of_JObject)
next
  case (Some ms)
  then have ms: "map_of body field = Some (JArray ms)"
    by (auto simp: bind_eq_Some_conv elim: as_array.elims)
  then have "m' \<in> set (List.map_filter snd (map (rewrite_message key pf p handling) ms))"
    using assms(1,3) by (auto simp: rewrite_messages_field_def Let_def parts_of_JObject array_of_def put_field_def map_of_insert)
  then obtain m removed where m: "m \<in> set ms" "rewrite_message key pf p handling m = (removed, Some m')"
    unfolding in_map_filter set_map by (metis imageE prod.collapse)
  then show ?thesis using rewritten_message [OF m(2)] assms(2,4) ms by (simp add: parts_of_JObject array_of_def)
qed

text \<open>Finalizing a payload rewrites every marker.\<close>

lemma payload_parts_JObject:
  "b \<in> set (payload_parts p (JObject body)) \<longleftrightarrow>
     (case messages_field p of (field, key, _) \<Rightarrow> \<exists>m \<in> set (parts_of field (JObject body)). b \<in> set (parts_of key m)) \<or>
     p = GoogleGenerateContent \<and> (\<exists>s. map_of body ''systemInstruction'' = Some s \<and> b \<in> set (parts_of ''parts'' s))"
  by (cases "map_of body ''systemInstruction''") (auto simp: payload_parts_def split: prod.splits)

lemma rewritten_system:
  assumes "\<forall>s. map_of body ''systemInstruction'' = Some s \<longrightarrow> (\<forall>b\<in>set (parts_of ''parts'' s). part_ok b)"
    and "map_of (rewrite_system_instruction p handling body) ''systemInstruction'' = Some s" "b \<in> set (parts_of ''parts'' s)"
  shows "\<not> is_marker b"
proof (cases "Option.bind (map_of body ''systemInstruction'') as_object")
  case None
  then have "map_of body ''systemInstruction'' = Some s" using assms(2) by (simp add: rewrite_system_instruction_def)
  then have "parts_of ''parts'' s = []" using None by (cases s) (simp_all add: parts_of_def get_array_def)
  then show ?thesis using assms(3) by simp
next
  case (Some m)
  then have m: "map_of body ''systemInstruction'' = Some (JObject m)"
    by (auto simp: bind_eq_Some_conv elim: as_object.elims)
  obtain removed x where x: "rewrite_content_blocks p handling False (map_of m ''parts'') = (removed, x)" by fastforce
  have "s = JObject (put_field ''parts'' x m)"
    using assms(2) Some x
    by (auto simp: rewrite_system_instruction_def map_of_insert map_of_filter_key split: if_splits)
  then show ?thesis using rewritten_field [OF x] assms(1,3) m by blast
qed

lemma map_of_rewrite_system: "k \<noteq> ''systemInstruction'' \<Longrightarrow> map_of (rewrite_system_instruction p handling body) k = map_of body k"
  by (auto simp: rewrite_system_instruction_def map_of_insert map_of_filter_key split: option.splits prod.splits)

lemma finalized_no_marker:
  assumes "finalize_thinking_payload body p handling = Inr body'" "\<forall>b\<in>set (payload_parts p (JObject body)). part_ok b"
    "b \<in> set (payload_parts p (JObject body'))"
  shows "\<not> is_marker b"
proof -
  obtain field key pf where f: "messages_field p = (field, key, pf)" by (metis prod_cases3)
  obtain e x where x: "rewrite_messages_field (map_of body field) key pf p handling = (e, x)" by fastforce
  let ?b1 = "put_field field x body"
  have body': "body' = (if p = GoogleGenerateContent then rewrite_system_instruction p handling ?b1 else ?b1)"
    using assms(1) f x by (auto simp: finalize_thinking_payload_def Let_def split: if_splits)
  have field: "field \<noteq> ''systemInstruction''" using f by (cases p) (auto simp: messages_field_def)
  have parts: "\<forall>m\<in>set (parts_of field (JObject body)). \<forall>b\<in>set (parts_of key m). part_ok b"
    using assms(2) f by (auto simp: payload_parts_JObject)
  from assms(3) f consider m where "m \<in> set (parts_of field (JObject body'))" "b \<in> set (parts_of key m)"
    | sys where "p = GoogleGenerateContent" "map_of body' ''systemInstruction'' = Some sys" "b \<in> set (parts_of ''parts'' sys)"
    by (auto simp: payload_parts_JObject)
  then show ?thesis
  proof cases
    case 1
    have "parts_of field (JObject body') = parts_of field (JObject ?b1)"
      using field by (simp add: body' parts_of_JObject map_of_rewrite_system)
    then show ?thesis using rewritten_messages [OF x parts] 1 by simp
  next
    case 2
    have "map_of ?b1 ''systemInstruction'' = map_of body ''systemInstruction''"
      using field by (simp add: put_field_def map_of_insert_some)
    then have "\<forall>s. map_of ?b1 ''systemInstruction'' = Some s \<longrightarrow> (\<forall>b\<in>set (parts_of ''parts'' s). part_ok b)"
      using assms(2) 2(1) by (auto simp: payload_parts_JObject)
    then show ?thesis using rewritten_system 2 body' by (metis (full_types))
  qed
qed

subsection \<open>What the encoders write\<close>

text \<open>A block whose further fields do not replace its type, and the part it becomes.\<close>

fun extra_ok :: "ContentBlock \<Rightarrow> bool" where
  "extra_ok (Thinking _ _ extra) = (sorted_map extra \<and> map_of extra ''type'' = None)"
| "extra_ok (RedactedThinking _ extra) = (sorted_map extra \<and> map_of extra ''type'' = None)"
| "extra_ok _ = True"

definition part_of :: "bool \<Rightarrow> json \<Rightarrow> bool" where
  "part_of thinking j \<longleftrightarrow> part_ok j \<and> (is_marker j \<longrightarrow> thinking)"

lemma no_marker_part: "\<not> is_marker j \<Longrightarrow> part_of w j"
  by (simp add: part_of_def part_ok_def)

lemma internal_part: "is_thinking b \<Longrightarrow> extra_ok b \<Longrightarrow> part_of True (internal_thinking_block b)"
  by (cases b) (auto simp: is_thinking_def part_of_def part_ok_def map_of_insert_some map_of_json_map_of)

lemma internal_parts:
  "sorted_map x \<Longrightarrow> map_of x ''type'' = None \<Longrightarrow> part_of True (internal_thinking_block (Thinking t s x))"
  "sorted_map x \<Longrightarrow> map_of x ''type'' = None \<Longrightarrow> part_of True (internal_thinking_block (RedactedThinking d x))"
  by (rule internal_part; simp add: is_thinking_def)+

lemma typed_part: "get_str j ''type'' \<noteq> Some INTERNAL_THINKING_BLOCK_TYPE \<Longrightarrow> part_of w j"
  by (rule no_marker_part) (simp add: is_marker_def)

lemma chat_part: "content_to_chat_request b = Some j \<Longrightarrow> extra_ok b \<Longrightarrow> part_of (is_thinking b) j"
proof (cases "is_thinking b")
  case True
  assume "content_to_chat_request b = Some j" "extra_ok b"
  then show ?thesis using True internal_part by (auto simp: content_to_chat_request_def)
next
  case False
  assume "content_to_chat_request b = Some j"
  then show ?thesis using False
    by (intro typed_part) (cases b; auto simp: content_to_chat_request_def text_part_def INTERNAL_THINKING_BLOCK_TYPE_def)
qed

lemma responses_input_part: "content_to_responses_input cd b a = Some j \<Longrightarrow> extra_ok b \<Longrightarrow> part_of (is_thinking b) j"
proof (cases "is_thinking b")
  case True
  assume "content_to_responses_input cd b a = Some j" "extra_ok b"
  then show ?thesis using True internal_part [of b] by (cases b) (auto simp: is_thinking_def simp del: internal_thinking_block.simps)
next
  case False
  have doc: "map_of (responses_document cd source) ''type'' = Some (JString ''input_file'')" for source
    by (cases source) (simp_all add: map_of_json_map_of)
  assume "content_to_responses_input cd b a = Some j"
  then show ?thesis using False doc
    by (intro typed_part) (cases b; auto simp: is_thinking_def responses_text_def text_part_def get_str_JObject map_of_insert_some
        map_of_json_map_of INTERNAL_THINKING_BLOCK_TYPE_def split: if_splits)
qed

lemma anthropic_part: "content_to_anthropic_request b = Some j \<Longrightarrow> extra_ok b \<Longrightarrow> part_of (is_thinking b) j"
proof (cases "is_thinking b")
  case True
  assume "content_to_anthropic_request b = Some j" "extra_ok b"
  then show ?thesis using True internal_part by (auto simp: content_to_anthropic_request_def)
next
  case False
  have doc: "map_of (anthropic_document source) ''type'' = Some (JString ''document'')" for source
    by (cases source) (simp_all add: map_of_json_map_of)
  assume "content_to_anthropic_request b = Some j"
  then show ?thesis using False doc
    by (intro typed_part) (cases b; auto simp: content_to_anthropic_request_def is_thinking_def text_part_def anthropic_image_def
        anthropic_tool_use_def get_str_JObject map_of_insert_some INTERNAL_THINKING_BLOCK_TYPE_def Let_def bind_eq_Some_conv split: if_splits)
qed

lemma google_system_part_of: "google_system_part b = Inr j \<Longrightarrow> extra_ok b \<Longrightarrow> part_of (is_thinking b) j"
  by (cases b) (auto simp: google_system_part_def google_text_def is_thinking_def INTERNAL_THINKING_BLOCK_TYPE_def
      intro: typed_part internal_parts simp del: internal_thinking_block.simps)

lemma google_untyped:
  "google_document source filename = Inr j \<Longrightarrow> get_str j ''type'' = None"
  "google_call i name arguments = Inr j \<Longrightarrow> get_str j ''type'' = None"
  "google_result cd names i content = Inr j \<Longrightarrow> get_str j ''type'' = None"
  by (auto simp: google_document_def google_call_def google_result_def google_text_def inline_part_def rbind_eq_Inr Let_def
      split: DocumentSource.splits if_splits)

lemma google_part_of: "google_part cd names role b = Inr j \<Longrightarrow> extra_ok b \<Longrightarrow> part_of (is_thinking b) j"
  by (cases b) (auto simp: google_part_def google_text_def inline_part_def is_thinking_def rbind_eq_Inr google_untyped misplaced_call_def Let_def
      intro: typed_part internal_parts simp del: internal_thinking_block.simps split: if_splits)

lemma part_of_mono: "part_of w j \<Longrightarrow> (w \<Longrightarrow> w') \<Longrightarrow> part_of w' j"
  by (auto simp: part_of_def)

definition blocks_ok :: "bool \<Rightarrow> ContentBlock list \<Rightarrow> bool" where
  "blocks_ok w bs \<longleftrightarrow> (\<forall>b\<in>set bs. extra_ok b \<and> (is_thinking b \<longrightarrow> w))"

definition parts_ok :: "bool \<Rightarrow> string \<Rightarrow> json \<Rightarrow> bool" where
  "parts_ok w key m \<longleftrightarrow> (\<forall>j\<in>set (parts_of key m). part_of w j)"

lemma mapped_parts:
  assumes "blocks_ok w bs" "\<And>b j. f b = Some j \<Longrightarrow> extra_ok b \<Longrightarrow> part_of (is_thinking b) j" "j \<in> set (List.map_filter f bs)"
  shows "part_of w j"
proof -
  obtain b where "b \<in> set bs" "f b = Some j" using assms(3) by (auto simp: in_map_filter)
  then show ?thesis using assms(1,2) part_of_mono by (metis blocks_ok_def)
qed

lemma list_all2_set2: "list_all2 P xs ys \<Longrightarrow> y \<in> set ys \<Longrightarrow> \<exists>x\<in>set xs. P x y"
  by (induction rule: list_all2_induct) auto

lemma collected_parts:
  assumes "blocks_ok w bs" "\<And>b j. f b = Inr j \<Longrightarrow> extra_ok b \<Longrightarrow> part_of (is_thinking b) j" "collect_results f bs = Inr js" "j \<in> set js"
  shows "part_of w j"
proof -
  have "list_all2 (\<lambda>b j. f b = Inr j) bs js" using assms(3) by (simp add: collect_results_Inr)
  from list_all2_set2 [OF this assms(4)] obtain b where "b \<in> set bs" "f b = Inr j" by blast
  then show ?thesis using assms(1,2) part_of_mono by (metis blocks_ok_def)
qed

lemma parts_of_other: "get_array m key = None \<Longrightarrow> parts_ok w key m"
  by (simp add: parts_ok_def parts_of_def)

lemma parts_of_obj_array: "parts_of key (json_obj kvs) = array_of (map_of (rev kvs) key)"
  by (simp add: parts_of_def array_of_def)

lemma array_of_simps [simp]: "array_of (Some (JArray js)) = js" "array_of (Some (JString t)) = []" "array_of None = []"
  by (simp_all add: array_of_def)

lemma single_text_cases:
  "(\<And>t. P (f t)) \<Longrightarrow> P y \<Longrightarrow> P (case vs of [TextBlock t] \<Rightarrow> f t | _ \<Rightarrow> y)"
  by (auto split: list.split ContentBlock.split)

lemma chat_message_parts: "blocks_ok w (msg_content m) \<Longrightarrow> parts_ok w ''content'' (encode_chat_message cd m)"
proof -
  assume ok: "blocks_ok w (msg_content m)"
  have parts: "part_of w j" if "j \<in> set (chat_parts (filter P (msg_content m)))" for P j
    using mapped_parts [of w "filter P (msg_content m)" content_to_chat_request j] ok that chat_part
    by (auto simp: chat_parts_def blocks_ok_def)
  let ?visible = "filter (\<lambda>b. \<not> (msg_role m = Assistant) \<or> reasoning_of_block b = None) (msg_content m)"
  have "parts_of ''content'' (chat_plain_message cd m) \<in> {[], chat_parts ?visible}"
    unfolding chat_plain_message_def Let_def parts_of_JObject
    by (rule single_text_cases [where vs = ?visible]) (simp_all add: map_of_insert_some map_of_insert map_of_json_map_of)
  then have plain: "parts_ok w ''content'' (chat_plain_message cd m)" using parts by (auto simp: parts_ok_def)
  have "parts_ok w ''content'' (chat_tool_message i content)" for i content
    by (simp add: parts_ok_def chat_tool_message_def parts_of_obj_array)
  then show ?thesis using plain by (simp add: encode_chat_message_def split: list.splits ContentBlock.splits)
qed

lemma responses_message_parts:
  assumes "blocks_ok w (msg_content m)" "item \<in> set (responses_message cd m)"
  shows "parts_ok w ''content'' item"
proof -
  let ?parts = "List.map_filter (responses_part cd (msg_role m = Assistant)) (msg_content m)"
  have "part_of (is_thinking b) j" if "responses_part cd a b = Some j" "extra_ok b" for a b j
    using responses_input_part that by (auto simp: responses_part_def split: if_splits)
  then have "part_of w j" if "j \<in> set ?parts" for j
    using mapped_parts [OF assms(1) _ that] by blast
  moreover have "parts_ok w ''content'' x" if "x \<in> set (responses_items cd b)" for x b
    using that by (cases b) (auto simp: parts_ok_def parts_of_obj_array)
  ultimately show ?thesis
    using assms(2) by (auto simp: responses_message_def Let_def parts_ok_def parts_of_obj_array split: if_splits)
qed

lemma messages_message_parts: "blocks_ok w (msg_content m) \<Longrightarrow> parts_ok w ''content'' (messages_message m)"
  using mapped_parts [of w "msg_content m" content_to_anthropic_request] anthropic_part
  by (auto simp: messages_message_def anthropic_blocks_def parts_ok_def parts_of_obj_array Let_def)

lemma google_messages_parts:
  assumes "google_messages cd names ms sys contents = Inr (sys', contents')" "list_all (\<lambda>m. blocks_ok w (msg_content m)) ms"
    "\<forall>j\<in>set sys. part_of w j" "\<forall>c\<in>set contents. parts_ok w ''parts'' c"
  shows "(\<forall>j\<in>set sys'. part_of w j) \<and> (\<forall>c\<in>set contents'. parts_ok w ''parts'' c)"
  using assms
proof (induction ms arbitrary: sys contents)
  case (Cons m ms)
  have ok: "blocks_ok w (msg_content m)" "list_all (\<lambda>m. blocks_ok w (msg_content m)) ms" using Cons.prems(2) by simp_all
  have name: "msg_name m = None" using Cons.prems(1) by (auto split: if_splits)
  show ?case
  proof (cases "is_system m")
    case True
    then obtain ps where ps: "collect_results google_system_part (msg_content m) = Inr ps"
      "google_messages cd names ms (sys @ ps) contents = Inr (sys', contents')"
      using Cons.prems(1) name by (auto simp: rbind_eq_Inr)
    have "\<forall>j\<in>set ps. part_of w j" by (intro ballI collected_parts [OF ok(1) _ ps(1)]) (auto intro: google_system_part_of)
    then show ?thesis using Cons.IH [OF ps(2) ok(2)] Cons.prems(3,4) by auto
  next
    case False
    then obtain ps where ps: "collect_results (google_part cd names (msg_role m)) (msg_content m) = Inr ps"
      "google_messages cd names ms sys (contents @ (if ps = [] then [] else
         [json_obj [(''role'', JString (if msg_role m \<in> {Tool, User} then ''user'' else ''model'')), (''parts'', JArray ps)]]))
       = Inr (sys', contents')"
      using Cons.prems(1) name by (auto simp: rbind_eq_Inr)
    have "\<forall>j\<in>set ps. part_of w j" by (intro ballI collected_parts [OF ok(1) _ ps(1)]) (auto intro: google_part_of)
    then have "parts_ok w ''parts'' (json_obj [(''role'', r), (''parts'', JArray ps)])" for r
      by (simp add: parts_ok_def parts_of_obj_array)
    then show ?thesis using Cons.prems(4) by (intro Cons.IH [OF ps(2) ok(2) Cons.prems(3)]) auto
  qed
qed simp

subsection \<open>The fields of the payload\<close>

lemma copy_chat_metadata_keeps: "copy_chat_metadata meta target = Inr target' \<Longrightarrow> map_of meta k = None \<Longrightarrow> map_of target' k = map_of target k"
proof (induction meta arbitrary: target)
  case (Cons kv meta)
  then show ?case by (cases kv) (auto simp: map_of_insert split: if_splits)
qed simp

lemma encode_chat_field:
  assumes "encode_chat_request cd r model = Inr target" "map_of (metadata r) ''messages'' = None"
  shows "map_of target ''messages'' = Some (JArray (map (encode_chat_message cd) (canonical_messages r)))"
  using assms
  by (auto simp: encode_chat_request_def rbind_eq_Inr insert_tool_choice_def insert_tools_def copy_options_def Let_def map_of_insert
      map_of_insert_some map_of_json_map_of dest!: copy_chat_metadata_keeps split: if_splits option.splits)

lemma scan_options_keeps: "scan_options meta st = Inr st' \<Longrightarrow> map_of (os_target st') ''input'' = map_of (os_target st) ''input''"
proof (induction meta arbitrary: st)
  case (Cons kv meta)
  then obtain st1 where st1: "scan_option kv st = Inr st1" "scan_options meta st1 = Inr st'" by (auto simp: rbind_eq_Inr)
  have "map_of (os_target st1) ''input'' = map_of (os_target st) ''input''"
    using st1(1)
    by (auto simp: scan_option_def rbind_eq_Inr map_of_insert_some SAFE_PASSTHROUGH_OPTIONS_def split: prod.splits option.splits if_splits)
  then show ?case using Cons.IH [OF st1(2)] by simp
qed simp

lemma responses_metadata_keeps:
  assumes "apply_responses_metadata meta target model = Inr target'"
  shows "map_of target' ''input'' = map_of target ''input''"
proof -
  have tx: "map_of t' ''input'' = map_of t ''input''" if "text_option seen t = Inr t'" for seen t t'
    using that unfolding text_option_def
    by (elim rbindE) (auto simp: rbind_eq_Inr map_of_insert split: option.splits if_splits)
  have bool: "map_of t' ''input'' = map_of t ''input''" if "bool_option n seen t = Inr t'" "n \<noteq> ''input''" for n seen t t'
    using that by (auto simp: bool_option_def rbind_eq_Inr map_of_insert split: option.splits)
  show ?thesis
  proof (cases "meta = []")
    case True
    then show ?thesis using assms by (simp add: apply_responses_metadata_def)
  next
    case False
    then obtain st i reasoning t1 t2 where
      "scan_options meta \<lparr>os_unsupported = [], os_supported = 0, os_seen = [], os_target = target\<rparr> = Inr st"
      "reasoning_option (os_seen st) model i = Inr reasoning"
      "text_option (os_seen st) (insert_some ''reasoning'' (\<lambda>x. x) reasoning (os_target st)) = Inr t1"
      "bool_option ''store'' (os_seen st) t1 = Inr t2" "bool_option ''parallel_tool_calls'' (os_seen st) t2 = Inr target'"
      using assms by (auto simp: apply_responses_metadata_def rbind_eq_Inr Let_def split: if_splits)
    then show ?thesis using scan_options_keeps tx bool by (force simp: map_of_insert_some)
  qed
qed

lemma encode_responses_field:
  assumes "encode_responses_request cd r model = Inr target"
  shows "map_of target ''input'' =
    Some (JArray (concat (map (responses_message cd) (filter (\<lambda>m. \<not> is_system m) (canonical_messages r)))))"
  using assms
  by (auto simp: encode_responses_request_def rbind_eq_Inr Let_def insert_tool_choice_def insert_tools_def copy_options_def map_of_insert
      map_of_insert_some map_of_json_map_of dest!: responses_metadata_keeps split: if_splits option.splits)

lemma encode_google_fields:
  assumes "google_encode_request cd r model = Inr target"
  shows "\<exists>names sys contents. google_messages cd names (canonical_messages r) [] [] = Inr (sys, contents) \<and>
    map_of target ''contents'' = Some (JArray contents) \<and>
    map_of target ''systemInstruction'' = (if sys = [] then None else Some (json_obj [(''parts'', JArray sys)]))"
proof -
  obtain names where n: "tool_call_names (canonical_messages r) = Inr names"
    using assms by (auto simp: google_encode_request_def rbind_eq_Inr split: if_splits)
  obtain sys contents where g: "google_messages cd names (canonical_messages r) [] [] = Inr (sys, contents)"
    using assms n by (auto simp: google_encode_request_def rbind_eq_Inr split: if_splits)
  have "map_of target ''contents'' = Some (JArray contents)"
    "map_of target ''systemInstruction'' = (if sys = [] then None else Some (json_obj [(''parts'', JArray sys)]))"
    using assms n g
    by (auto simp: google_encode_request_def rbind_eq_Inr Let_def map_of_insert map_of_json_map_of split: if_splits option.splits)
  then show ?thesis using g by blast
qed

definition request_ok :: "CanonicalRequest \<Rightarrow> bool" where
  "request_ok r \<longleftrightarrow> list_all (\<lambda>m. list_all extra_ok (msg_content m)) (canonical_messages r) \<and> map_of (metadata r) ''messages'' = None"

lemma request_blocks:
  "request_ok r \<Longrightarrow> m \<in> set (canonical_messages r) \<Longrightarrow> blocks_ok (with_thinking (canonical_messages r)) (msg_content m)"
proof -
  have thinking: "is_thinking b \<Longrightarrow> contains_thinking_block b" for b by (cases b) (auto simp: is_thinking_def)
  assume "request_ok r" "m \<in> set (canonical_messages r)"
  then show ?thesis using thinking by (auto simp: request_ok_def blocks_ok_def with_thinking_def list_all_iff list_ex_iff)
qed

lemma encoded_parts:
  assumes "encoded_by cd p r model = Inr target" "request_ok r" "b \<in> set (payload_parts p (JObject target))"
  shows "part_of (with_thinking (canonical_messages r)) b"
proof -
  let ?w = "with_thinking (canonical_messages r)"
  note ok = request_blocks [OF assms(2)]
  show ?thesis
  proof (cases p)
    case UpChatCompletions
    then have "encode_chat_request cd r model = Inr target" using assms(1)
      by (simp add: encoded_by_def encode_openai_family_request_def split: if_splits)
    then have "map_of target ''messages'' = Some (JArray (map (encode_chat_message cd) (canonical_messages r)))"
      using encode_chat_field assms(2) by (simp add: request_ok_def)
    then show ?thesis using assms(3) chat_message_parts [OF ok] UpChatCompletions
      by (auto simp: payload_parts_JObject messages_field_def parts_of_JObject parts_ok_def)
  next
    case UpResponses
    then have "encode_responses_request cd r model = Inr target" using assms(1)
      by (simp add: encoded_by_def encode_openai_family_request_def split: if_splits)
    then show ?thesis using assms(3) responses_message_parts [OF ok] UpResponses encode_responses_field
      by (fastforce simp: payload_parts_JObject messages_field_def parts_of_JObject parts_ok_def)
  next
    case UpMessages
    then have "encode_messages_request r model = Inr target" using assms(1)
      by (simp add: encoded_by_def encode_openai_family_request_def split: if_splits)
    then show ?thesis using assms(3) messages_message_parts [OF ok] UpMessages encoded_messages_fields(1)
      by (fastforce simp: payload_parts_JObject messages_field_def parts_of_JObject parts_ok_def)
  next
    case GoogleGenerateContent
    then have "google_encode_request cd r model = Inr target" using assms(1) by (simp add: encoded_by_def)
    then obtain names sys contents where g: "google_messages cd names (canonical_messages r) [] [] = Inr (sys, contents)"
      "map_of target ''contents'' = Some (JArray contents)"
      "map_of target ''systemInstruction'' = (if sys = [] then None else Some (json_obj [(''parts'', JArray sys)]))"
      using encode_google_fields by blast
    have "list_all (\<lambda>m. blocks_ok ?w (msg_content m)) (canonical_messages r)" using ok by (simp add: list_all_iff)
    then have "\<forall>j\<in>set sys. part_of ?w j" "\<forall>c\<in>set contents. parts_ok ?w ''parts'' c"
      using google_messages_parts [OF g(1)] by auto
    then show ?thesis using assms(3) GoogleGenerateContent g(2,3)
      by (auto simp: payload_parts_JObject messages_field_def parts_of_JObject parts_ok_def parts_of_obj_array split: if_splits)
  qed
qed

subsection \<open>Decoded requests\<close>

lemma other_fields_ok: "json_ok v \<Longrightarrow> ''type'' \<in> set ks \<Longrightarrow> sorted_map (other_fields ks v) \<and> map_of (other_fields ks v) ''type'' = None"
  by (cases v) (auto simp: other_fields_def sorted_map_filter map_of_filter_key)

lemma parse_part_extra: "json_ok v \<Longrightarrow> parse_content_part cd v = Inr b \<Longrightarrow> extra_ok b"
  using other_fields_ok [of v "[''type'', ''thinking'', ''signature'']"] other_fields_ok [of v "[''type'', ''data'']"]
  by (auto simp: Let_def parse_thinking_part_def parse_image_url_part_def parse_input_image_part_def parse_image_part_def file_id_error_def
      parse_responses_file_def parse_anthropic_document_def parse_tool_use_part_def rbind_eq_Inr split: if_splits option.splits)

lemma parse_value_extra: "json_ok v \<Longrightarrow> parse_value cd v = Inr bs \<Longrightarrow> list_all extra_ok bs"
proof (cases v)
  case (JArray parts)
  assume "json_ok v" "parse_value cd v = Inr bs"
  then have "list_all2 (\<lambda>x y. parse_content_part cd x = Inr y) parts bs" "list_all json_ok parts"
    using JArray by (simp_all add: collect_results_Inr del: parse_content_part.simps)
  then show ?thesis
    by (induction rule: list_all2_induct) (auto simp del: parse_content_part.simps dest: parse_part_extra)
next
  case (JObject m)
  assume "json_ok v" "parse_value cd v = Inr bs"
  then show ?thesis using JObject parse_part_extra [of v cd]
    by (auto simp: rbind_eq_Inr simp del: parse_content_part.simps split: if_splits option.splits)
qed auto

lemma parse_content_extra: "(\<And>v. x = Some v \<Longrightarrow> json_ok v) \<Longrightarrow> parse_content cd x = Inr bs \<Longrightarrow> list_all extra_ok bs"
  by (auto simp: parse_content_def parse_value_extra split: option.splits)

lemma reasoning_parts_extra: "reasoning_parts ps = Inr bs \<Longrightarrow> list_all extra_ok bs"
  by (induction ps arbitrary: bs) (auto simp: rbind_eq_Inr split: if_splits option.splits)

lemma reasoning_item_extra: "parse_responses_reasoning_item item = Inr bs \<Longrightarrow> list_all extra_ok bs"
  by (auto simp: parse_responses_reasoning_item_def rbind_eq_Inr dest!: reasoning_parts_extra)

lemma array_ok: "json_ok v \<Longrightarrow> get_array v k = Some vs \<Longrightarrow> x \<in> set vs \<Longrightarrow> json_ok x"
  using json_get_ok [of v k] by (auto simp: get_array_def bind_eq_Some_conv list_all_iff elim!: as_array.elims)

lemma chat_message_extra: "json_ok raw \<Longrightarrow> decode_chat_message cd raw = Inr m \<Longrightarrow> list_all extra_ok (msg_content m)"
proof -
  assume raw: "json_ok raw" and "decode_chat_message cd raw = Inr m"
  then obtain role reasoning parsed where parsed: "parse_content cd (json_get raw ''content'') = Inr parsed"
    and m: "(let content = (case reasoning of Some t \<Rightarrow> [Reasoning t] | None \<Rightarrow> []) @ parsed
           @ map (chat_tool_call cd) (unwrap_or [] (get_array raw ''tool_calls''))
     in Inr \<lparr>msg_role = role,
             msg_content =
               (if role = Tool then [ToolResult (unwrap_or [] (get_str raw ''tool_call_id'')) content] else content),
             msg_name = get_str raw ''name''\<rparr>) = (Inr m :: string + Message)"
    unfolding decode_chat_message_def rbind_eq_Inr by blast
  have "list_all extra_ok parsed" by (rule parse_content_extra [OF json_get_ok [OF raw] parsed])
  moreover have "extra_ok (chat_tool_call cd c)" for c by (simp add: chat_tool_call_def Let_def)
  ultimately show ?thesis using m by (cases reasoning) (auto simp: list_all_iff Let_def split: if_splits)
qed

lemma responses_item_extra: "json_ok item \<Longrightarrow> decode_responses_item cd item = Inr m \<Longrightarrow> list_all extra_ok (msg_content m)"
  by (auto simp: decode_responses_item_def rbind_eq_Inr Let_def split: if_splits
      dest!: parse_content_extra [rotated] reasoning_item_extra intro: json_get_ok)

lemma messages_message_extra: "json_ok raw \<Longrightarrow> decode_messages_message cd raw = Inr m \<Longrightarrow> list_all extra_ok (msg_content m)"
  by (auto simp: decode_messages_message_def rbind_eq_Inr thinking_misplaced_def split: if_splits
      dest!: parse_content_extra [rotated] intro: json_get_ok)

lemma collected_messages_extra:
  assumes "collect_results f raw = Inr ms" "\<And>x. x \<in> set raw \<Longrightarrow> json_ok x" "\<And>x m. json_ok x \<Longrightarrow> f x = Inr m \<Longrightarrow> list_all extra_ok (msg_content m)"
  shows "list_all (\<lambda>m. list_all extra_ok (msg_content m)) ms"
proof -
  have all2: "list_all2 (\<lambda>x m. f x = Inr m) raw ms" using assms(1) by (simp add: collect_results_Inr)
  have "\<exists>x\<in>set raw. f x = Inr m" if "m \<in> set ms" for m by (rule list_all2_set2 [OF all2 that])
  then have "list_all extra_ok (msg_content m)" if "m \<in> set ms" for m using that assms(2,3) by meson
  then show ?thesis by (simp add: list_all_iff)
qed

lemma decoded_request_ok:
  assumes "decode_request cd q body = Inr r" "json_ok body"
  shows "request_ok r"
proof (cases q)
  case ChatCompletions
  then obtain raw where raw: "get_array body ''messages'' = Some raw" "collect_results (decode_chat_message cd) raw = Inr (canonical_messages r)"
    and meta: "metadata r = other_fields chat_options body"
    using assms(1) by (auto simp: decode_chat_request_def rbind_eq_Inr)
  have "map_of (metadata r) ''messages'' = None"
    by (cases body) (auto simp: meta other_fields_def map_of_filter_key chat_options_def)
  moreover have "list_all (\<lambda>m. list_all extra_ok (msg_content m)) (canonical_messages r)"
    by (rule collected_messages_extra [OF raw(2) array_ok [OF assms(2) raw(1)] chat_message_extra])
  ultimately show ?thesis by (simp add: request_ok_def)
next
  case Responses
  then obtain input ms where inp: "json_get body ''input'' = Some input" and meta: "metadata r = []"
    and ms: "case as_str input of Some t \<Rightarrow> ms = [text_message User t]
      | None \<Rightarrow> \<exists>items. as_array input = Some items \<and> collect_results (decode_responses_item cd) items = Inr ms"
    and r: "canonical_messages r = (case get_str body ''instructions'' of Some t \<Rightarrow> [text_message System t] | None \<Rightarrow> []) @ ms"
    using assms(1) by (fastforce simp: decode_responses_request_def rbind_eq_Inr split: option.splits)
  have input: "json_ok input" by (rule json_get_ok [OF assms(2) inp])
  have "list_all (\<lambda>m. list_all extra_ok (msg_content m)) ms"
  proof (cases "as_str input")
    case None
    then obtain items where items: "as_array input = Some items" "collect_results (decode_responses_item cd) items = Inr ms" using ms by auto
    then have "x \<in> set items \<Longrightarrow> json_ok x" for x using input by (auto simp: list_all_iff elim!: as_array.elims)
    then show ?thesis by (rule collected_messages_extra [OF items(2) _ responses_item_extra])
  qed (use ms in \<open>simp add: text_message_def\<close>)
  then show ?thesis using r meta by (auto simp: request_ok_def text_message_def split: option.splits)
next
  case Messages
  then obtain raw ms system where raw: "get_array body ''messages'' = Some raw" "collect_results (decode_messages_message cd) raw = Inr ms"
    and sys: "decode_messages_system cd body = Inr system" and r: "canonical_messages r = system @ ms" "metadata r = []"
    using assms(1) by (auto simp: decode_messages_request_def rbind_eq_Inr)
  have "list_all (\<lambda>m. list_all extra_ok (msg_content m)) ms"
    by (rule collected_messages_extra [OF raw(2) array_ok [OF assms(2) raw(1)] messages_message_extra])
  moreover have "list_all (\<lambda>m. list_all extra_ok (msg_content m)) system"
    using sys json_get_ok [OF assms(2), of "''system''"]
    by (auto simp: decode_messages_system_def rbind_eq_Inr thinking_misplaced_def split: option.splits if_splits dest!: parse_content_extra [rotated])
  ultimately show ?thesis using r by (simp add: request_ok_def)
qed

text \<open>C7: The private marker that stands for a thinking block while a request is encoded never reaches a provider: for
  every body of a client request, every provider protocol and every handling of thinking blocks, no content part of the
  payload, and for Google none of the system instruction, is a marker. (The body is a JSON value as the parser builds it.)\<close>

theorem no_marker_reaches_provider:
  assumes "json_ok body" "decode_request cd q body = Inr r"
    and "encode_upstream_request_with_thinking cd p (r\<lparr>canonical_model := m\<rparr>) model handling = Inr v"
  shows "\<forall>b \<in> set (payload_parts p v). \<not> is_marker b"
proof -
  let ?r = "r\<lparr>canonical_model := m\<rparr>"
  have ok: "request_ok ?r" using decoded_request_ok [OF assms(2,1)] by (simp add: request_ok_def)
  obtain target body' where t: "encoded_by cd p ?r model = Inr target" and v: "v = JObject body'"
    and fin: "(if with_thinking (canonical_messages ?r) then finalize_thinking_payload target p handling else Inr target) = Inr body'"
    using encode_upstream_Inr [OF assms(3)] by blast
  note parts = encoded_parts [OF t ok]
  show ?thesis
  proof (cases "with_thinking (canonical_messages ?r)")
    case True
    then show ?thesis using finalized_no_marker [of target p handling body'] fin parts v by (auto simp: part_of_def)
  next
    case False
    then show ?thesis using fin parts v by (auto simp: part_of_def)
  qed
qed

lemma json_ok_obj: "list_all (\<lambda>kv. json_ok (snd kv)) kvs \<Longrightarrow> json_ok (json_obj kvs)"
proof -
  have "json_ok (JObject m) \<Longrightarrow> list_all (\<lambda>kv. json_ok (snd kv)) kvs \<Longrightarrow>
      json_ok (JObject (fold (\<lambda>(k, v). map_insert k v) kvs m))" for m
  proof (induction kvs arbitrary: m)
    case (Cons kv kvs)
    then show ?case using map_insert_ok by (cases kv) fastforce
  qed simp
  then show "list_all (\<lambda>kv. json_ok (snd kv)) kvs \<Longrightarrow> json_ok (json_obj kvs)" by (simp add: json_obj_def json_map_of_def)
qed

definition thinking_part :: json where
  "thinking_part = json_obj [(''type'', JString ''thinking''), (''thinking'', JString ''t''), (''signature'', JString ''s'')]"

definition thinking_body :: json where
  "thinking_body = json_obj [(''model'', JString ''m''), (''max_tokens'', json_u64 8),
     (''messages'', JArray [json_obj [(''role'', JString ''assistant''), (''content'', JArray [thinking_part])]])]"

lemma thinking_part_parsed: "parse_content_part no_codecs thinking_part = Inr (Thinking ''t'' (Some ''s'') [])"
  by (simp add: thinking_part_def parse_thinking_part_def other_fields_def json_map_of_def map_insert_def)

lemma thinking_body_decoded:
  "decode_request no_codecs Messages thinking_body = Inr ((example_canonical [\<lparr>msg_role = Assistant,
     msg_content = [Thinking ''t'' (Some ''s'') []], msg_name = None\<rparr>]) \<lparr>source_protocol := Messages, max_tokens := Some 8\<rparr>)"
  using thinking_part_parsed
  by (simp add: thinking_body_def decode_messages_request_def string_field_def decode_messages_system_def decode_messages_message_def
      parse_role_def parse_content_def parse_messages_tools_def tool_list_def optional_f32_def optional_u32_def optional_bool_def
      not_null_def json_u64_def trim_def trim_start_def trim_end_def is_whitespace_def str_len_def char_utf8_len_def
      parse_string_list_def example_canonical_def del: parse_content_part.simps)

theorem no_marker_reaches_provider_witness:
  "\<exists>r v. decode_request no_codecs Messages thinking_body = Inr r \<and>
     encode_upstream_request_with_thinking no_codecs UpChatCompletions (r\<lparr>canonical_model := ''p''\<rparr>) ''p'' (Override ''x'') = Inr v \<and>
     filter is_marker (payload_parts UpChatCompletions v) = []"
proof -
  have ok: "json_ok thinking_body"
    unfolding thinking_body_def thinking_part_def by (rule json_ok_obj) (simp add: json_ok_obj json_u64_def)
  let ?r = "(example_canonical [\<lparr>msg_role = Assistant, msg_content = [Thinking ''t'' (Some ''s'') []], msg_name = None\<rparr>])
    \<lparr>source_protocol := Messages, max_tokens := Some 8\<rparr>"
  have "\<exists>v. encode_upstream_request_with_thinking no_codecs UpChatCompletions (?r\<lparr>canonical_model := ''p''\<rparr>) ''p'' (Override ''x'') = Inr v"
    by (simp add: encode_upstream_request_with_thinking_def encode_openai_family_request_def encode_chat_request_def example_canonical_def
        is_system_def insert_tool_choice_def finalize_thinking_payload_def messages_field_def Let_def split: prod.splits)
  then obtain v where v: "encode_upstream_request_with_thinking no_codecs UpChatCompletions (?r\<lparr>canonical_model := ''p''\<rparr>) ''p'' (Override ''x'') = Inr v"
    by blast
  show ?thesis
    using no_marker_reaches_provider [OF ok thinking_body_decoded v] thinking_body_decoded v by (auto simp: filter_empty_conv)
qed

end
