(* ===== verification/Spec2Isabelle.thy ===== *)
theory Spec2Isabelle
  imports RateLimit RuntimeGates KeyHealth LocalRpm ProviderUsage RequestLive RoutePrep Egress Retry
    GatewayIntake ErrorSanitizer RequestRun MarkerResults ConversationResults CodecResults
begin

text \<open>
  ExoRoute: a verification development.
\<close>

end
